(* ===== verification/Prelude.thy ===== *)
theory Prelude
  imports Complex_Main "HOL-Library.Sublist" "HOL-Library.Char_ord"
begin

text \<open>
  What the components share: the numeric conventions (Python floats as exact rationals,
  \<open>round\<close>, \<open>int\<close> and the clamps written out), times in microseconds, the string operations of
  the standard library the code uses, JSON values, tables of rows keyed by a primary key, and
  two interfaces that several components implement: a store of rows and a metered resource.
\<close>

named_theorems unit_bounds "facts that a score lies in the unit interval"
named_theorems row_simps "reading a table after writing it"

section \<open>Numbers\<close>

text \<open>
  Python's \<open>round(x, n)\<close> rounds halves to the even neighbour. Floats are modelled as exact
  rationals, so \<open>py_round\<close> is the rounding of the exact value.
\<close>

definition round_half_even :: "rat \<Rightarrow> int" where
  "round_half_even x =
     (let f = \<lfloor>x\<rfloor>; d = x - of_int f in
      if d < 1 / 2 then f
      else if 1 / 2 < d then f + 1
      else if even f then f else f + 1)"

definition py_round :: "nat \<Rightarrow> rat \<Rightarrow> rat" where
  "py_round n x = of_int (round_half_even (x * 10 ^ n)) / 10 ^ n"

text \<open>Python's \<open>int(x)\<close> on a float truncates towards zero.\<close>

definition py_int :: "rat \<Rightarrow> int" where
  "py_int x = (if 0 \<le> x then \<lfloor>x\<rfloor> else \<lceil>x\<rceil>)"

text \<open>\<open>max(lo, min(hi, x))\<close>, the clamp the scoring code writes everywhere.\<close>

definition clamp :: "'a::linorder \<Rightarrow> 'a \<Rightarrow> 'a \<Rightarrow> 'a" where
  "clamp lo hi x = max lo (min hi x)"

lemma clamp_bounds [simp]: "lo \<le> hi \<Longrightarrow> lo \<le> clamp lo hi x" "lo \<le> hi \<Longrightarrow> clamp lo hi x \<le> hi"
  by (auto simp: clamp_def)

lemma clamp_id [simp]: "lo \<le> x \<Longrightarrow> x \<le> hi \<Longrightarrow> clamp lo hi x = x"
  by (simp add: clamp_def)

lemma clamp_mono: "x \<le> y \<Longrightarrow> clamp lo hi x \<le> clamp lo hi y"
  by (auto simp: clamp_def max_def min_def)

lemma round_half_even_of_int [simp]: "round_half_even (of_int i) = i"
  by (simp add: round_half_even_def Let_def)

lemma round_half_even_numeral [simp]:
  "round_half_even (numeral k) = numeral k" "round_half_even 0 = 0" "round_half_even 1 = 1"
  using round_half_even_of_int [of "numeral k"] round_half_even_of_int [of 0]
    round_half_even_of_int [of 1] by simp_all

lemma round_half_even_shift: "even k \<Longrightarrow> round_half_even (x + of_int k) = round_half_even x + k"
  by (auto simp: round_half_even_def Let_def)

lemma round_half_even_ge: "of_int (round_half_even x) \<ge> x - 1 / 2"
  by (simp add: round_half_even_def Let_def) linarith

lemma round_half_even_le: "of_int (round_half_even x) \<le> x + 1 / 2"
  by (simp add: round_half_even_def Let_def) linarith

lemma round_half_even_mono: "x \<le> y \<Longrightarrow> round_half_even x \<le> round_half_even y"
proof -
  assume le: "x \<le> y"
  have fl: "\<lfloor>x\<rfloor> \<le> \<lfloor>y\<rfloor>" using le by (rule floor_mono)
  show ?thesis
  proof (cases "\<lfloor>x\<rfloor> = \<lfloor>y\<rfloor>")
    case True
    with le show ?thesis by (auto simp: round_half_even_def Let_def)
  next
    case False
    with fl have "\<lfloor>x\<rfloor> + 1 \<le> \<lfloor>y\<rfloor>" by simp
    then show ?thesis by (auto simp: round_half_even_def Let_def)
  qed
qed

lemma py_round_mono: "x \<le> y \<Longrightarrow> py_round n x \<le> py_round n y"
  by (simp add: py_round_def divide_right_mono round_half_even_mono mult_right_mono)

lemma py_round_0 [simp]: "py_round n 0 = 0"
  using round_half_even_of_int [of 0] by (simp add: py_round_def)

lemma py_round_1 [simp]: "py_round n 1 = 1"
  using round_half_even_of_int [of "10 ^ n"] by (simp add: py_round_def)

lemma py_round_of_int [simp]: "py_round n (of_int i) = of_int i"
  using round_half_even_of_int [of "i * 10 ^ n"] by (simp add: py_round_def)

lemma py_round_unit [unit_bounds]:
  "0 \<le> x \<Longrightarrow> 0 \<le> py_round n x" "x \<le> 1 \<Longrightarrow> py_round n x \<le> 1"
  using py_round_mono [of 0 x n] py_round_mono [of x 1 n] by simp_all

lemma py_round_error: "\<bar>py_round n x - x\<bar> \<le> 1 / (2 * 10 ^ n)"
proof -
  have "\<bar>of_int (round_half_even (x * 10 ^ n)) - x * 10 ^ n\<bar> \<le> (1 / 2 :: rat)"
    using round_half_even_ge [of "x * 10 ^ n"] round_half_even_le [of "x * 10 ^ n"] by linarith
  then have "\<bar>of_int (round_half_even (x * 10 ^ n)) - x * 10 ^ n\<bar> / 10 ^ n \<le> (1 / 2) / (10 ^ n :: rat)"
    by (rule divide_right_mono) simp
  moreover have "\<bar>of_int (round_half_even (x * 10 ^ n)) - x * 10 ^ n\<bar> / 10 ^ n
      = \<bar>py_round n x - x\<bar>"
  proof -
    have "\<bar>of_int (round_half_even (x * 10 ^ n)) - x * 10 ^ n\<bar> / 10 ^ n
        = \<bar>(of_int (round_half_even (x * 10 ^ n)) - x * 10 ^ n) / 10 ^ n\<bar>"
      by (simp add: abs_divide)
    also have "\<dots> = \<bar>py_round n x - x\<bar>"
      by (simp add: py_round_def diff_divide_distrib)
    finally show ?thesis .
  qed
  ultimately show ?thesis by simp
qed

lemma py_int_of_int [simp]: "py_int (of_int i) = i"
  by (simp add: py_int_def)

lemma py_int_nonneg: "0 \<le> x \<Longrightarrow> 0 \<le> py_int x"
  by (simp add: py_int_def)

lemma py_int_le: "0 \<le> x \<Longrightarrow> of_int (py_int x) \<le> x"
  by (simp add: py_int_def)

lemma py_int_mono: "x \<le> y \<Longrightarrow> py_int x \<le> py_int y"
  by (auto simp: py_int_def floor_mono ceiling_mono) (meson ceiling_le_zero dual_order.trans linorder_le_cases zero_le_floor)

section \<open>Times\<close>

text \<open>
  A \<open>datetime\<close> is its number of microseconds since the epoch, Python's own resolution; all
  times of the server code are UTC. \<open>timedelta(seconds=x)\<close> rounds a float to microseconds.
\<close>

type_synonym time = int

abbreviation seconds :: "int \<Rightarrow> time" where
  "seconds n \<equiv> n * 1000000"

definition timedelta_seconds :: "rat \<Rightarrow> time" where
  "timedelta_seconds x = round_half_even (x * 1000000)"

definition total_seconds :: "time \<Rightarrow> rat" where
  "total_seconds d = of_int d / 1000000"

lemma timedelta_seconds_of_int [simp]: "timedelta_seconds (of_int n) = seconds n"
  using round_half_even_of_int [of "n * 1000000"] by (simp add: timedelta_seconds_def)

lemma timedelta_seconds_mono: "x \<le> y \<Longrightarrow> timedelta_seconds x \<le> timedelta_seconds y"
  by (simp add: timedelta_seconds_def round_half_even_mono)

lemma timedelta_seconds_add_int:
  "timedelta_seconds (x + of_int n) = timedelta_seconds x + seconds n"
proof -
  have "(x + of_int n) * 1000000 = x * 1000000 + of_int (seconds n)"
    by (simp add: algebra_simps)
  then show ?thesis
    unfolding timedelta_seconds_def using round_half_even_shift [of "seconds n" "x * 1000000"] by simp
qed

section \<open>Strings\<close>

definition is_space :: "char \<Rightarrow> bool" where
  "is_space c \<longleftrightarrow> c \<in> set [CHR '' '', CHR 0x09, CHR 0x0A, CHR 0x0B, CHR 0x0C, CHR 0x0D,
     CHR 0x1C, CHR 0x1D, CHR 0x1E, CHR 0x1F]"

definition lstrip :: "string \<Rightarrow> string" where
  "lstrip s = dropWhile is_space s"

definition strip :: "string \<Rightarrow> string" where
  "strip s = rev (lstrip (rev (lstrip s)))"

definition to_lower_char :: "char \<Rightarrow> char" where
  "to_lower_char c = (if CHR ''A'' \<le> c \<and> c \<le> CHR ''Z'' then char_of (of_char c + 32 :: nat) else c)"

definition to_lower :: "string \<Rightarrow> string" where
  "to_lower s = map to_lower_char s"

text \<open>Python's \<open>p in s\<close> on strings.\<close>

fun str_in :: "string \<Rightarrow> string \<Rightarrow> bool" where
  "str_in p [] \<longleftrightarrow> p = []"
| "str_in p (c # cs) \<longleftrightarrow> prefix p (c # cs) \<or> str_in p cs"

lemma str_in_sublist: "str_in p s \<longleftrightarrow> sublist p s"
proof (induction s)
  case Nil
  then show ?case by simp
next
  case (Cons c cs)
  then show ?case by (simp add: sublist_Cons_right)
qed

text \<open>Decimal notation, what \<open>str(n)\<close> and an f-string give for an int.\<close>

fun show_nat :: "nat \<Rightarrow> string" where
  "show_nat n =
     (if n < 10 then [char_of (48 + n)] else show_nat (n div 10) @ [char_of (48 + n mod 10)])"

declare show_nat.simps [simp del]

definition show_int :: "int \<Rightarrow> string" where
  "show_int i = (if i < 0 then CHR ''-'' # show_nat (nat (- i)) else show_nat (nat i))"

section \<open>JSON values\<close>

text \<open>What \<open>json.loads\<close> gives: numbers written without a fraction are ints, the others floats.\<close>

datatype json =
    JNull
  | JBool bool
  | JInt int
  | JFloat rat
  | JStr string
  | JList "json list"
  | JObj "(string \<times> json) list"

definition json_get :: "json \<Rightarrow> string \<Rightarrow> json option" where
  "json_get j k = (case j of JObj kvs \<Rightarrow> map_of kvs k | _ \<Rightarrow> None)"

text \<open>Python's truth value of a JSON value.\<close>

fun truthy :: "json \<Rightarrow> bool" where
  "truthy JNull \<longleftrightarrow> False"
| "truthy (JBool b) \<longleftrightarrow> b"
| "truthy (JInt i) \<longleftrightarrow> i \<noteq> 0"
| "truthy (JFloat r) \<longleftrightarrow> r \<noteq> 0"
| "truthy (JStr s) \<longleftrightarrow> s \<noteq> []"
| "truthy (JList xs) \<longleftrightarrow> xs \<noteq> []"
| "truthy (JObj kvs) \<longleftrightarrow> kvs \<noteq> []"

section \<open>Exceptions and dictionaries\<close>

text \<open>
  The exceptions of the language, and of the database library, that the modelled code can raise; a function that may raise
  returns a sum, \<open>Inl\<close> for the exception.
\<close>

datatype py_exc =
    TypeError | ValueError | KeyError | AttributeError | IndexError | ZeroDivisionError | NoResultFound

definition bind :: "'e + 'a \<Rightarrow> ('a \<Rightarrow> 'e + 'b) \<Rightarrow> 'e + 'b" where
  "bind m f = (case m of Inl e \<Rightarrow> Inl e | Inr x \<Rightarrow> f x)"

lemma bind_simps [simp]: "bind (Inl e) f = Inl e" "bind (Inr x) f = f x"
  by (simp_all add: bind_def)

lemma bind_Inr: "bind m f = Inr y \<longleftrightarrow> (\<exists>x. m = Inr x \<and> f x = Inr y)"
  by (cases m) simp_all

lemma pair_of_snd: "snd x = r \<Longrightarrow> x = (fst x, r)"
  by (cases x) simp

lemma bind_InrE: "bind m f = Inr y \<Longrightarrow> (\<And>x. m = Inr x \<Longrightarrow> f x = Inr y \<Longrightarrow> P) \<Longrightarrow> P"
  by (cases m) simp_all

text \<open>A guard that raises.\<close>

lemma guard_InrE: "(if b then Inl e else m) = Inr y \<Longrightarrow> (\<not> b \<Longrightarrow> m = Inr y \<Longrightarrow> P) \<Longrightarrow> P"
  by (cases b) simp_all

lemma bind_total: "\<exists>x. m = Inr x \<Longrightarrow> \<exists>y. bind m (\<lambda>x. Inr (f x)) = Inr y"
  by auto

definition py_div :: "rat \<Rightarrow> rat \<Rightarrow> py_exc + rat" where
  "py_div a b = (if b = 0 then Inl ZeroDivisionError else Inr (a / b))"

lemma py_div_Inr [simp]: "py_div a b = Inr q \<longleftrightarrow> b \<noteq> 0 \<and> q = a / b"
  by (auto simp: py_div_def)

lemma py_div_nonzero [simp]: "b \<noteq> 0 \<Longrightarrow> py_div a b = Inr (a / b)"
  by (simp add: py_div_def)

text \<open>A dictionary with string keys, in insertion order.\<close>

type_synonym 'v dict = "(string \<times> 'v) list"

definition dict_get :: "'v dict \<Rightarrow> string \<Rightarrow> 'v \<Rightarrow> 'v" where
  "dict_get d k dflt = (case map_of d k of None \<Rightarrow> dflt | Some v \<Rightarrow> v)"

text \<open>\<open>j.get\<close> on a value that is not a dictionary raises \<open>AttributeError\<close>.\<close>

definition as_dict :: "json \<Rightarrow> py_exc + json dict" where
  "as_dict j = (case j of JObj d \<Rightarrow> Inr d | _ \<Rightarrow> Inl AttributeError)"

lemma dict_get_in_unit: "list_all (\<lambda>(k, v). lo \<le> v) d \<Longrightarrow> lo \<le> dflt \<Longrightarrow> (lo::'v::linorder) \<le> dict_get d k dflt"
  by (auto simp: dict_get_def list_all_iff dest!: map_of_SomeD split: option.splits)

text \<open>\<open>d.setdefault(k, v)\<close> and \<open>d[k] = v\<close>: a new key goes to the end.\<close>

definition setdefault :: "string \<Rightarrow> json \<Rightarrow> json dict \<Rightarrow> json dict" where
  "setdefault k v d = (if map_of d k = None then d @ [(k, v)] else d)"

definition set_key :: "string \<Rightarrow> json \<Rightarrow> json dict \<Rightarrow> json dict" where
  "set_key k v d =
     (if map_of d k = None then d @ [(k, v)] else map (\<lambda>(k', w). (k', if k' = k then v else w)) d)"

lemma map_of_replace:
  "map_of (map (\<lambda>(k', w). (k', if k' = k then v else w)) d) k'
     = (if k' = k then map_option (\<lambda>_. v) (map_of d k) else map_of d k')"
  by (induction d) auto

lemma map_of_set_key [simp]: "map_of (set_key k v d) k' = (if k' = k then Some v else map_of d k')"
  by (auto simp: set_key_def map_of_replace map_add_def split: option.split)

lemma set_key_keys: "map_of d k \<noteq> None \<Longrightarrow> map fst (set_key k v d) = map fst d"
  by (simp add: set_key_def comp_def case_prod_beta)

text \<open>Sums of floats and means.\<close>

definition mean :: "rat list \<Rightarrow> rat" where
  "mean xs = sum_list xs / of_nat (length xs)"

lemma sum_list_ge: "\<forall>x \<in> set xs. lo \<le> x \<Longrightarrow> of_nat (length xs) * lo \<le> sum_list (xs :: rat list)"
  by (induction xs) (auto simp: algebra_simps)

lemma sum_list_le: "\<forall>x \<in> set xs. x \<le> hi \<Longrightarrow> sum_list (xs :: rat list) \<le> of_nat (length xs) * hi"
  by (induction xs) (auto simp: algebra_simps)

lemma mean_ge: "xs \<noteq> [] \<Longrightarrow> \<forall>x \<in> set xs. lo \<le> x \<Longrightarrow> lo \<le> mean xs"
  using sum_list_ge [of xs lo] by (simp add: mean_def field_simps)

lemma mean_le: "xs \<noteq> [] \<Longrightarrow> \<forall>x \<in> set xs. x \<le> hi \<Longrightarrow> mean xs \<le> hi"
  using sum_list_le [of xs hi] by (simp add: mean_def field_simps)

section \<open>Tables\<close>

text \<open>
  A database table is the list of its rows; \<open>key\<close> is the primary key. \<open>db.get\<close> finds the row
  with a key, an update of a loaded row replaces it in place.
\<close>

definition row_get :: "('r \<Rightarrow> 'k) \<Rightarrow> 'k \<Rightarrow> 'r list \<Rightarrow> 'r option" where
  "row_get key k rows = find (\<lambda>r. key r = k) rows"

definition row_upd :: "('r \<Rightarrow> 'k) \<Rightarrow> 'k \<Rightarrow> ('r \<Rightarrow> 'r) \<Rightarrow> 'r list \<Rightarrow> 'r list" where
  "row_upd key k f rows = map (\<lambda>r. if key r = k then f r else r) rows"

definition keys_distinct :: "('r \<Rightarrow> 'k) \<Rightarrow> 'r list \<Rightarrow> bool" where
  "keys_distinct key rows \<longleftrightarrow> distinct (map key rows)"

lemma row_get_Nil [simp]: "row_get key k [] = None"
  by (simp add: row_get_def)

lemma row_get_Cons [simp]:
  "row_get key k (r # rows) = (if key r = k then Some r else row_get key k rows)"
  by (simp add: row_get_def)

lemma row_get_SomeD: "row_get key k rows = Some r \<Longrightarrow> r \<in> set rows \<and> key r = k"
  by (induction rows) (auto split: if_splits)

lemma row_get_None_iff: "row_get key k rows = None \<longleftrightarrow> k \<notin> key ` set rows"
  by (induction rows) auto

lemma row_get_append:
  "row_get key k (xs @ ys) = (case row_get key k xs of None \<Rightarrow> row_get key k ys | Some r \<Rightarrow> Some r)"
  by (induction xs) auto

lemma row_upd_Nil [simp]: "row_upd key k f [] = []"
  by (simp add: row_upd_def)

lemma row_upd_Cons [simp]:
  "row_upd key k f (r # rows) = (if key r = k then f r else r) # row_upd key k f rows"
  by (simp add: row_upd_def)

lemma length_row_upd [simp]: "length (row_upd key k f rows) = length rows"
  by (simp add: row_upd_def)

lemma row_get_row_upd [row_simps]:
  "(\<And>r. key (f r) = key r) \<Longrightarrow>
   row_get key k' (row_upd key k f rows)
     = (if k' = k then map_option f (row_get key k rows) else row_get key k' rows)"
  by (induction rows) auto

lemma row_get_map: "(\<And>r. key (f r) = key r) \<Longrightarrow> row_get key k (map f rows) = map_option f (row_get key k rows)"
  by (induction rows) auto

lemma set_row_updD:
  "r \<in> set (row_upd key k f rows) \<Longrightarrow> (\<exists>r0 \<in> set rows. key r0 = k \<and> r = f r0) \<or> (r \<in> set rows \<and> key r \<noteq> k)"
  by (auto simp: row_upd_def)

lemma map_key_row_upd [simp]:
  "(\<And>r. key2 (f r) = key2 r) \<Longrightarrow> map key2 (row_upd key k f rows) = map key2 rows"
  by (simp add: row_upd_def)

lemma keys_distinct_row_upd [row_simps]:
  "(\<And>r. key2 (f r) = key2 r) \<Longrightarrow> keys_distinct key2 (row_upd key k f rows) = keys_distinct key2 rows"
  unfolding keys_distinct_def by (subst map_key_row_upd) auto

lemma row_get_mem:
  "keys_distinct key rows \<Longrightarrow> r \<in> set rows \<Longrightarrow> row_get key (key r) rows = Some r"
  by (induction rows) (auto simp: keys_distinct_def image_iff)

lemma filter_key_single:
  "distinct (map f xs) \<Longrightarrow> x \<in> set xs \<Longrightarrow> filter (\<lambda>y. f y = f x) xs = [x]"
proof (induction xs)
  case Nil
  then show ?case by simp
next
  case (Cons y xs)
  show ?case
  proof (cases "x = y")
    case True
    with Cons.prems(1) have "\<forall>z \<in> set xs. f z \<noteq> f x" by (auto simp: image_iff)
    with True show ?thesis by (simp add: filter_False)
  next
    case False
    with Cons.prems have "x \<in> set xs" "f y \<noteq> f x" by (auto simp: image_iff)
    with Cons.IH Cons.prems(1) show ?thesis by simp
  qed
qed

lemma list_all_row_upd:
  "list_all P rows \<Longrightarrow> (\<And>r. P r \<Longrightarrow> key r = k \<Longrightarrow> P (f r)) \<Longrightarrow> list_all P (row_upd key k f rows)"
  by (induction rows) auto

lemma row_get_list_all: "row_get key k rows = Some r \<Longrightarrow> list_all P rows \<Longrightarrow> P r"
  by (auto simp: list_all_iff dest: row_get_SomeD)

section \<open>Transactions\<close>

text \<open>
  A session with the database: what is committed, and what the running transaction sees. A row
  that the transaction writes is locked until it ends, so no other transaction writes it meanwhile.
\<close>

datatype dialect = Postgresql | Sqlite | OtherDialect

record 't txn =
  tx_committed :: 't
  tx_working :: 't

definition begin_txn :: "'t \<Rightarrow> 't txn" where
  "begin_txn d = \<lparr>tx_committed = d, tx_working = d\<rparr>"

definition commit :: "'t txn \<Rightarrow> 't txn" where
  "commit x = x\<lparr>tx_committed := tx_working x\<rparr>"

definition rollback :: "'t txn \<Rightarrow> 't txn" where
  "rollback x = x\<lparr>tx_working := tx_committed x\<rparr>"

lemma txn_simps [simp]:
  "tx_committed (commit x) = tx_working x" "tx_working (commit x) = tx_working x"
  "tx_working (rollback x) = tx_committed x" "tx_committed (rollback x) = tx_committed x"
  "tx_working (begin_txn d) = d" "tx_committed (begin_txn d) = d"
  by (simp_all add: commit_def rollback_def begin_txn_def)

section \<open>HTTP errors\<close>

text \<open>\<open>HTTPException(status, detail, headers)\<close>; the only header the code sets is \<open>Retry-After\<close>.\<close>

datatype http_error = HTTPException (http_status: int) (http_detail: string) (retry_after: "int option")

section \<open>The interface of a metered resource\<close>

text \<open>
  The rate limiter, the AI budget and the relay budget all admit a request only while a counter
  stays within a limit, and add what was admitted to the counter. \<open>admit\<close> gives the new state
  when the request is admitted and \<open>None\<close> when it is refused.
\<close>

locale metered =
  fixes used :: "'st \<Rightarrow> int"
    and limit :: "'st \<Rightarrow> int"
    and cost :: "'req \<Rightarrow> int"
    and admit :: "'st \<Rightarrow> 'req \<Rightarrow> 'st option"
  assumes admit_used: "admit s r = Some s' \<Longrightarrow> used s' = used s + cost r"
    and admit_limit: "admit s r = Some s' \<Longrightarrow> limit s' = limit s"
    and admit_within: "admit s r = Some s' \<Longrightarrow> used s' \<le> limit s"
begin

fun admit_all :: "'st \<Rightarrow> 'req list \<Rightarrow> 'st \<times> 'req list" where
  "admit_all s [] = (s, [])"
| "admit_all s (r # rs) =
     (case admit s r of
        None \<Rightarrow> admit_all s rs
      | Some s' \<Rightarrow> (let (t, ok) = admit_all s' rs in (t, r # ok)))"

lemma admit_all_limit: "admit_all s rs = (t, ok) \<Longrightarrow> limit t = limit s"
proof (induction rs arbitrary: s t ok)
  case Nil
  then show ?case by simp
next
  case (Cons r rs)
  then show ?case by (fastforce split: option.splits prod.splits dest: admit_limit)
qed

lemma admit_all_used: "admit_all s rs = (t, ok) \<Longrightarrow> used t = used s + sum_list (map cost ok)"
proof (induction rs arbitrary: s t ok)
  case Nil
  then show ?case by simp
next
  case (Cons r rs)
  then show ?case by (fastforce split: option.splits prod.splits dest: admit_used)
qed

lemma admit_all_within: "used s \<le> limit s \<Longrightarrow> admit_all s rs = (t, ok) \<Longrightarrow> used t \<le> limit s"
proof (induction rs arbitrary: s t ok)
  case Nil
  then show ?case by simp
next
  case (Cons r rs)
  show ?case
  proof (cases "admit s r")
    case None
    with Cons show ?thesis by auto
  next
    case (Some s')
    then obtain ok' where "admit_all s' rs = (t, ok')"
      using Cons.prems(2) by (auto split: prod.splits)
    moreover have lim: "limit s' = limit s" using Some by (rule admit_limit)
    moreover have "used s' \<le> limit s'" using admit_within [OF Some] lim by simp
    ultimately show ?thesis using Cons.IH by metis
  qed
qed

lemma admit_all_spent:
  "used s \<le> limit s \<Longrightarrow> admit_all s rs = (t, ok) \<Longrightarrow> sum_list (map cost ok) \<le> limit s - used s"
  using admit_all_used [of s rs t ok] admit_all_within [of s rs t ok] by simp

end

end
