(* ===== verification/PyValues.thy ===== *)
theory PyValues
  imports Prelude
begin

text \<open>
  The conversions of the language that the evaluation code applies to JSON values and numbers:
  \<open>x or y\<close>, \<open>float(x)\<close>, \<open>int(x)\<close>, \<open>str(x)\<close>, \<open>", ".join(xs)\<close> and the fixed-point format of an
  f-string. Infinities and NaN have no rational value: the texts that denote them are rejected.
\<close>

section \<open>Reading numbers\<close>

definition is_digit :: "char \<Rightarrow> bool" where
  "is_digit c \<longleftrightarrow> CHR ''0'' \<le> c \<and> c \<le> CHR ''9''"

definition digit_val :: "char \<Rightarrow> nat" where
  "digit_val c = of_char c - 48"

definition digits_val :: "string \<Rightarrow> nat" where
  "digits_val s = foldl (\<lambda>n c. 10 * n + digit_val c) 0 s"

definition take_sign :: "string \<Rightarrow> bool \<times> string" where
  "take_sign s = (case s of
      c # cs \<Rightarrow> if c = CHR ''-'' then (True, cs) else if c = CHR ''+'' then (False, cs) else (False, s)
    | [] \<Rightarrow> (False, []))"

text \<open>\<open>int(s)\<close>: optional blanks and sign around decimal digits, which single underscores may separate.\<close>

definition int_literal :: "string \<Rightarrow> bool" where
  "int_literal s \<longleftrightarrow> s \<noteq> [] \<and> is_digit (hd s) \<and> is_digit (last s) \<and>
     list_all (\<lambda>c. is_digit c \<or> c = CHR ''_'') s \<and> \<not> str_in ''__'' s"

definition parse_int :: "string \<Rightarrow> int option" where
  "parse_int s =
     (let (neg, ds) = take_sign (strip s)
      in if \<not> int_literal ds then None
         else Some (if neg then - int (digits_val (filter is_digit ds)) else int (digits_val (filter is_digit ds))))"

definition pow10 :: "int \<Rightarrow> rat" where
  "pow10 k = (if 0 \<le> k then 10 ^ nat k else 1 / 10 ^ nat (- k))"

text \<open>\<open>float(s)\<close>: digits with an optional fraction and an optional exponent.\<close>

definition parse_float :: "string \<Rightarrow> rat option" where
  "parse_float s =
     (let (neg, body) = take_sign (strip s);
          ip = takeWhile is_digit body;
          rest = dropWhile is_digit body;
          (fp, rest) = (case rest of
              c # cs \<Rightarrow> if c = CHR ''.'' then (takeWhile is_digit cs, dropWhile is_digit cs) else ([], rest)
            | [] \<Rightarrow> ([], []));
          expo = (case rest of
              [] \<Rightarrow> Some 0
            | c # cs \<Rightarrow> if c = CHR ''e'' \<or> c = CHR ''E''
                then (let (eneg, eds) = take_sign cs
                      in if eds = [] \<or> \<not> list_all is_digit eds then None
                         else Some (if eneg then - int (digits_val eds) else int (digits_val eds)))
                else None)
      in if ip = [] \<and> fp = [] then None
         else case expo of
                None \<Rightarrow> None
              | Some e \<Rightarrow>
                  (let m = of_nat (digits_val (ip @ fp)) * pow10 (e - int (length fp))
                   in Some (if neg then - m else m)))"

section \<open>Conversions of JSON values\<close>

definition py_or :: "json \<Rightarrow> json \<Rightarrow> json" where
  "py_or x y = (if truthy x then x else y)"

definition py_float :: "json \<Rightarrow> py_exc + rat" where
  "py_float j = (case j of
      JBool b \<Rightarrow> Inr (of_bool b)
    | JInt i \<Rightarrow> Inr (of_int i)
    | JFloat r \<Rightarrow> Inr r
    | JStr s \<Rightarrow> (case parse_float s of None \<Rightarrow> Inl ValueError | Some r \<Rightarrow> Inr r)
    | _ \<Rightarrow> Inl TypeError)"

definition py_int_of :: "json \<Rightarrow> py_exc + int" where
  "py_int_of j = (case j of
      JBool b \<Rightarrow> Inr (of_bool b)
    | JInt i \<Rightarrow> Inr i
    | JFloat r \<Rightarrow> Inr (py_int r)
    | JStr s \<Rightarrow> (case parse_int s of None \<Rightarrow> Inl ValueError | Some i \<Rightarrow> Inr i)
    | _ \<Rightarrow> Inl TypeError)"

text \<open>
  \<open>str(x)\<close>. The text of a float or a container is the language's \<open>repr\<close>, which the caller passes:
  no claim depends on it.
\<close>

definition py_str :: "(json \<Rightarrow> string) \<Rightarrow> json \<Rightarrow> string" where
  "py_str py_repr j = (case j of
      JStr s \<Rightarrow> s
    | JInt i \<Rightarrow> show_int i
    | JBool b \<Rightarrow> if b then ''True'' else ''False''
    | JNull \<Rightarrow> ''None''
    | _ \<Rightarrow> py_repr j)"

definition json_opt :: "('a \<Rightarrow> json) \<Rightarrow> 'a option \<Rightarrow> json" where
  "json_opt f x = (case x of None \<Rightarrow> JNull | Some y \<Rightarrow> f y)"

lemma py_float_simps [simp]:
  "py_float (JFloat r) = Inr r" "py_float (JInt i) = Inr (of_int i)" "py_float (JBool b) = Inr (of_bool b)"
  by (simp_all add: py_float_def)

lemma py_str_JStr [simp]: "py_str py_repr (JStr s) = s"
  by (simp add: py_str_def)

section \<open>Writing text\<close>

fun join :: "string \<Rightarrow> string list \<Rightarrow> string" where
  "join sep [] = []"
| "join sep [x] = x"
| "join sep (x # y # xs) = x @ sep @ join sep (y # xs)"

definition zero_pad :: "nat \<Rightarrow> string \<Rightarrow> string" where
  "zero_pad n s = replicate (n - length s) CHR ''0'' @ s"

text \<open>\<open>f"{x:.nf}"\<close>; with \<open>with_plus\<close> the sign is written for positive values too, as by \<open>:+.nf\<close>.\<close>

definition show_fixed :: "bool \<Rightarrow> nat \<Rightarrow> rat \<Rightarrow> string" where
  "show_fixed with_plus n x =
     (let k = nat (round_half_even (\<bar>x\<bar> * 10 ^ n));
          digits = show_nat (k div 10 ^ n) @
                   (if n = 0 then [] else ''.'' @ zero_pad n (show_nat (k mod 10 ^ n)))
      in (if x < 0 then ''-'' else if with_plus then ''+'' else []) @ digits)"

lemma digit_val_char [simp]: "n < 10 \<Longrightarrow> digit_val (char_of (48 + n)) = n"
  by (simp add: digit_val_def)

lemma digits_val_append: "digits_val (s @ [c]) = 10 * digits_val s + digit_val c"
  by (simp add: digits_val_def)

lemma digits_val_show_nat: "digits_val (show_nat n) = n"
proof (induction n rule: show_nat.induct)
  case (1 n)
  show ?case
  proof (cases "n < 10")
    case True
    then show ?thesis by (simp add: show_nat.simps [of n] digits_val_def)
  next
    case False
    then have "digits_val (show_nat (n div 10)) = n div 10" by (rule "1.IH")
    moreover have "show_nat n = show_nat (n div 10) @ [char_of (48 + n mod 10)]"
      using False by (simp add: show_nat.simps [of n])
    ultimately show ?thesis by (simp add: digits_val_append)
  qed
qed

end
