(* ===== verification/Accuracy.thy ===== *)
theory Accuracy
  imports PyValues
begin

text \<open>
  The accuracy of an answer (\<open>backend/app/services/evaluation/scorer.py\<close>, the first half): JSON
  answers are compared field by field with tolerance for number formats, dates, names and small
  differences of wording, any other answer as a text. What the code takes from the standard
  library is a record of functions: \<open>repr\<close>, the ratio of a \<open>SequenceMatcher\<close>, \<open>strptime\<close> (as the
  number of a day), \<open>json.loads\<close>, \<open>json.dumps\<close>, SHA-256, the lines of \<open>difflib.ndiff\<close>, and for
  each match of a regular expression its first group that is not empty.
\<close>

section \<open>The library\<close>

record py_lib =
  lib_repr :: "json \<Rightarrow> string"
  lib_ratio :: "string \<Rightarrow> string \<Rightarrow> rat"
  lib_strptime :: "string \<Rightarrow> string \<Rightarrow> int option"
  lib_loads :: "string \<Rightarrow> json option"
  lib_dumps :: "json \<Rightarrow> string"
  lib_sha256 :: "string \<Rightarrow> string"
  lib_ndiff :: "string list \<Rightarrow> string list \<Rightarrow> string list"
  lib_finditer :: "string \<Rightarrow> string \<Rightarrow> string list"

text \<open>What the documentation of \<open>difflib\<close> says of the ratio.\<close>

definition ratio_ok :: "(string \<Rightarrow> string \<Rightarrow> rat) \<Rightarrow> bool" where
  "ratio_ok ratio \<longleftrightarrow> (\<forall>a b. 0 \<le> ratio a b \<and> ratio a b \<le> 1) \<and> (\<forall>a. ratio a a = 1)"

section \<open>Text normalisation\<close>

text \<open>\<open>re.sub(r"\s+", " ", s)\<close>.\<close>

fun collapse_spaces :: "string \<Rightarrow> string" where
  "collapse_spaces [] = []"
| "collapse_spaces [c] = (if is_space c then '' '' else [c])"
| "collapse_spaces (c # d # cs) =
     (if is_space c then (if is_space d then collapse_spaces (d # cs)
                          else CHR '' '' # collapse_spaces (d # cs))
      else c # collapse_spaces (d # cs))"

definition normalize_text :: "string \<Rightarrow> string" where
  "normalize_text s = collapse_spaces (to_lower (strip s))"

definition text_accuracy :: "py_lib \<Rightarrow> string \<Rightarrow> string \<Rightarrow> rat" where
  "text_accuracy L output ground_truth = lib_ratio L (strip output) (strip ground_truth)"

section \<open>Numbers\<close>

definition parse_number :: "py_lib \<Rightarrow> json \<Rightarrow> rat option" where
  "parse_number L val =
     (case val of
        JInt i \<Rightarrow> Some (of_int i)
      | JFloat r \<Rightarrow> Some r
      | JBool b \<Rightarrow> Some (of_bool b)
      | _ \<Rightarrow>
          (let s = strip (py_str (lib_repr L) val);
               s = filter (\<lambda>c. c \<noteq> CHR '','' \<and> c \<noteq> CHR ''$'' \<and> \<not> is_space c) s;
               s = (if prefix ''USD'' s \<or> prefix ''usd'' s then drop 3 s else s)
           in parse_float s))"

definition is_numeric :: "py_lib \<Rightarrow> json \<Rightarrow> bool" where
  "is_numeric L val = (parse_number L val \<noteq> None)"

definition match_numeric :: "py_lib \<Rightarrow> json \<Rightarrow> json \<Rightarrow> rat" where
  "match_numeric L got expected =
     (case (parse_number L got, parse_number L expected) of
        (Some got_num, Some exp_num) \<Rightarrow>
          if exp_num = 0 then (if got_num = 0 then 1 else 0)
          else
            (let relative_error = \<bar>got_num - exp_num\<bar> / \<bar>exp_num\<bar>
             in if relative_error < 1 / 1000 then 1
                else if relative_error < 1 / 100 then 9 / 10
                else if relative_error < 5 / 100 then 7 / 10
                else 0)
      | _ \<Rightarrow> 0)"

section \<open>Strings, names and dates\<close>

definition match_string :: "py_lib \<Rightarrow> string \<Rightarrow> string \<Rightarrow> rat" where
  "match_string L got expected =
     (let got_norm = normalize_text got; exp_norm = normalize_text expected
      in if got_norm = exp_norm then 1
         else if str_in got_norm exp_norm \<or> str_in exp_norm got_norm then
           (let shorter = min (length got_norm) (length exp_norm);
                longer = max (length got_norm) (length exp_norm)
            in if (of_nat shorter / of_nat longer :: rat) > 7 / 10 then 85 / 100 else 6 / 10)
         else
           (let r = lib_ratio L got_norm exp_norm
            in if r \<ge> 9 / 10 then r else if r \<ge> 7 / 10 then r * (8 / 10) else 0))"

text \<open>\<open>re.sub(r"\s*\.\s*", ". ", s)\<close>, on a string without runs of blanks.\<close>

fun space_dots :: "string \<Rightarrow> string" where
  "space_dots [] = []"
| "space_dots [c] = (if c = CHR ''.'' then ''. '' else [c])"
| "space_dots [c, d] =
     (if is_space c \<and> d = CHR ''.'' then ''. ''
      else if c = CHR ''.'' then ''. '' @ (if is_space d then [] else space_dots [d])
      else c # space_dots [d])"
| "space_dots (c # d # e # cs) =
     (if is_space c \<and> d = CHR ''.'' then ''. '' @ space_dots (if is_space e then cs else e # cs)
      else if c = CHR ''.'' then ''. '' @ space_dots (if is_space d then e # cs else d # e # cs)
      else c # space_dots (d # e # cs))"

definition normalize_name :: "string \<Rightarrow> string" where
  "normalize_name name =
     (let s = collapse_spaces (to_lower (strip name));
          s = (if s \<noteq> [] \<and> last s = CHR ''.'' then butlast s else s)
      in space_dots s)"

text \<open>\<open>s.split()\<close>.\<close>

function split_words :: "string \<Rightarrow> string list" where
  "split_words s =
     (let t = lstrip s
      in if t = [] then []
         else takeWhile (\<lambda>c. \<not> is_space c) t # split_words (dropWhile (\<lambda>c. \<not> is_space c) t))"
  by auto
termination
proof (relation "measure length", goal_cases)
  case 1
  then show ?case by simp
next
  case (2 s t)
  have t: "length t \<le> length s" unfolding \<open>t = lstrip s\<close> lstrip_def by (rule length_dropWhile_le)
  obtain c cs where cs: "t = c # cs" using 2(2) by (cases t) auto
  have "t \<noteq> []" "t = dropWhile is_space s" using 2 by (simp_all add: lstrip_def)
  then have "\<not> is_space (hd t)" by (metis hd_dropWhile)
  then have "dropWhile (\<lambda>c. \<not> is_space c) t = dropWhile (\<lambda>c. \<not> is_space c) cs" using cs by simp
  moreover have "length (dropWhile (\<lambda>c. \<not> is_space c) cs) \<le> length cs" by (rule length_dropWhile_le)
  ultimately show ?case using t cs by simp
qed

declare split_words.simps [simp del]

definition match_name :: "py_lib \<Rightarrow> string \<Rightarrow> string \<Rightarrow> rat" where
  "match_name L got expected =
     (let got_clean = normalize_name got; exp_clean = normalize_name expected
      in if got_clean = exp_clean then 1
         else
           let got_parts = split_words got_clean; exp_parts = split_words exp_clean
           in if length got_parts \<ge> 2 \<and> length exp_parts \<ge> 2 \<and>
                 hd got_parts = hd exp_parts \<and> last got_parts = last exp_parts
              then 95 / 100
              else
                let r = lib_ratio L got_clean exp_clean
                in if r \<ge> 85 / 100 then r else if r < 1 / 2 then 0 else r * (1 / 2))"

text \<open>\<open>s.split(sep)\<close> for a separator of one character.\<close>

fun split_on :: "char \<Rightarrow> string \<Rightarrow> string list" where
  "split_on sep [] = [[]]"
| "split_on sep (c # cs) =
     (if c = sep then [] # split_on sep cs
      else (case split_on sep cs of [] \<Rightarrow> [[c]] | w # ws \<Rightarrow> (c # w) # ws))"

definition digits_between :: "nat \<Rightarrow> nat \<Rightarrow> string \<Rightarrow> bool" where
  "digits_between lo hi s \<longleftrightarrow> lo \<le> length s \<and> length s \<le> hi \<and> list_all is_digit s"

definition month_names :: "string list" where
  "month_names =
     [''january'', ''february'', ''march'', ''april'', ''may'', ''june'', ''july'', ''august'',
      ''september'', ''october'', ''november'', ''december'', ''jan'', ''feb'', ''mar'', ''apr'',
      ''jun'', ''jul'', ''aug'', ''sep'', ''oct'', ''nov'', ''dec'']"

definition month_day_at :: "string \<Rightarrow> bool" where
  "month_day_at s \<longleftrightarrow>
     list_ex (\<lambda>m. prefix m s \<and>
       (let rest = drop (length m) s
        in rest \<noteq> [] \<and> is_space (hd rest) \<and>
           (case lstrip rest of [] \<Rightarrow> False | c # _ \<Rightarrow> is_digit c))) month_names"

definition looks_like_date :: "string \<Rightarrow> bool" where
  "looks_like_date text =
     (let t = strip text
      in (case split_on CHR ''-'' t of
            [y, m, d] \<Rightarrow> digits_between 4 4 y \<and> digits_between 1 2 m \<and> digits_between 1 2 d
          | _ \<Rightarrow> False) \<or>
         (case split_on CHR ''/'' t of
            [m, d, y] \<Rightarrow> digits_between 1 2 m \<and> digits_between 1 2 d \<and> digits_between 2 4 y
          | _ \<Rightarrow> False) \<or>
         list_ex month_day_at (suffixes (to_lower t)))"

definition date_formats :: "string list" where
  "date_formats =
     [''%Y-%m-%d'', ''%m/%d/%Y'', ''%m-%d-%Y'', ''%d/%m/%Y'', ''%B %d %Y'', ''%B %d, %Y'',
      ''%b %d %Y'', ''%b %d, %Y'', ''%b %d,%Y'', ''%d %B %Y'', ''%d %b %Y'', ''%Y/%m/%d'', ''%m/%d/%y'']"

text \<open>
  The search for \<open>(\d{4})-(\d{1,2})-(\d{1,2})\<close> anywhere in the text; the date found is checked and
  numbered by the library's own reading of the format \<open>%Y-%m-%d\<close>.
\<close>

definition iso_date_at :: "string \<Rightarrow> string option" where
  "iso_date_at s =
     (let y = take 4 s; r1 = drop 4 s
      in if digits_between 4 4 y \<and> prefix ''-'' r1 then
           (let m = take 2 (takeWhile is_digit (drop 1 r1)); r2 = drop (1 + length m) r1
            in if m \<noteq> [] \<and> prefix ''-'' r2 then
                 (let d = take 2 (takeWhile is_digit (drop 1 r2))
                  in if d \<noteq> [] then Some (y @ ''-'' @ m @ ''-'' @ d) else None)
               else None)
         else None)"

definition parse_date :: "py_lib \<Rightarrow> string \<Rightarrow> int option" where
  "parse_date L text =
     (let t = collapse_spaces (strip text);
          t = rev (dropWhile (\<lambda>c. c = CHR ''.'') (rev t))
      in case List.map_filter (\<lambda>fmt. lib_strptime L t fmt) date_formats of
           d # _ \<Rightarrow> Some d
         | [] \<Rightarrow> (case List.map_filter iso_date_at (rev (suffixes t)) of
                   found # _ \<Rightarrow> lib_strptime L found ''%Y-%m-%d''
                 | [] \<Rightarrow> None))"

definition match_date :: "py_lib \<Rightarrow> json \<Rightarrow> json \<Rightarrow> rat" where
  "match_date L got expected =
     (let g = py_str (lib_repr L) got; e = py_str (lib_repr L) expected
      in case (parse_date L g, parse_date L e) of
           (Some got_date, Some exp_date) \<Rightarrow>
             if got_date = exp_date then 1
             else if \<bar>got_date - exp_date\<bar> \<le> 1 then 8 / 10 else 0
         | _ \<Rightarrow> match_string L g e)"

section \<open>Fields, objects and lists\<close>

definition fuzzy_field_match :: "py_lib \<Rightarrow> json \<Rightarrow> json \<Rightarrow> string \<Rightarrow> rat" where
  "fuzzy_field_match L got expected field_name =
     (if got = JNull \<and> expected = JNull then 1
      else if got = JNull \<or> expected = JNull then 0
      else if is_numeric L expected then match_numeric L got expected
      else if looks_like_date (py_str (lib_repr L) expected) \<or> looks_like_date (py_str (lib_repr L) got)
      then match_date L got expected
      else if str_in ''name'' (to_lower field_name)
      then match_name L (py_str (lib_repr L) got) (py_str (lib_repr L) expected)
      else match_string L (py_str (lib_repr L) got) (py_str (lib_repr L) expected))"

definition dict_accuracy :: "py_lib \<Rightarrow> json dict \<Rightarrow> json dict \<Rightarrow> rat" where
  "dict_accuracy L got expected =
     (if expected = [] then (if got = [] then 1 else 0)
      else sum_list (map (\<lambda>(k, exp_val).
             case map_of got k of None \<Rightarrow> 0 | Some v \<Rightarrow> fuzzy_field_match L v exp_val k) expected)
           / of_nat (length expected))"

definition item_score :: "py_lib \<Rightarrow> json \<Rightarrow> json \<Rightarrow> rat" where
  "item_score L exp_item got_item =
     (case (exp_item, got_item) of
        (JObj e, JObj g) \<Rightarrow> dict_accuracy L g e
      | _ \<Rightarrow> fuzzy_field_match L got_item exp_item [])"

fun best_match :: "(json \<Rightarrow> rat) \<Rightarrow> nat list \<Rightarrow> nat \<Rightarrow> json list \<Rightarrow> rat \<times> nat option \<Rightarrow> rat \<times> nat option" where
  "best_match score used j [] best = best"
| "best_match score used j (g # gs) best =
     best_match score used (Suc j) gs
       (if j \<in> set used then best
        else if fst best < score g then (score g, Some j) else best)"

fun match_items :: "py_lib \<Rightarrow> json list \<Rightarrow> json list \<Rightarrow> nat list \<Rightarrow> rat \<Rightarrow> rat" where
  "match_items L got [] used correct = correct"
| "match_items L got (e # es) used correct =
     (case best_match (item_score L e) used 0 got (0, None) of
        (s, Some i) \<Rightarrow> if s \<ge> 1 / 2 then match_items L got es (i # used) (correct + s)
                       else match_items L got es used correct
      | (s, None) \<Rightarrow> match_items L got es used correct)"

definition list_accuracy :: "py_lib \<Rightarrow> json list \<Rightarrow> json list \<Rightarrow> rat" where
  "list_accuracy L got expected =
     (if expected = [] then (if got = [] then 1 else 0)
      else match_items L got expected [] 0 / of_nat (length expected))"

definition num_of :: "json \<Rightarrow> rat option" where
  "num_of j = (case j of JInt i \<Rightarrow> Some (of_int i) | JFloat r \<Rightarrow> Some r | JBool b \<Rightarrow> Some (of_bool b)
                       | _ \<Rightarrow> None)"

text \<open>Python's \<open>==\<close> on two JSON values that are not both lists and not both objects.\<close>

definition scalar_eq :: "json \<Rightarrow> json \<Rightarrow> bool" where
  "scalar_eq a b =
     (case (num_of a, num_of b) of
        (Some x, Some y) \<Rightarrow> x = y
      | _ \<Rightarrow> a = b)"

definition json_accuracy :: "py_lib \<Rightarrow> string \<Rightarrow> string \<Rightarrow> rat" where
  "json_accuracy L output ground_truth =
     (case (lib_loads L output, lib_loads L ground_truth) of
        (Some got, Some expected) \<Rightarrow>
          (case (got, expected) of
             (JList g, JList e) \<Rightarrow> list_accuracy L g e
           | (JObj g, JObj e) \<Rightarrow> dict_accuracy L g e
           | _ \<Rightarrow> if scalar_eq got expected then 1 else 0)
      | _ \<Rightarrow> text_accuracy L output ground_truth)"

definition score_accuracy :: "py_lib \<Rightarrow> string \<Rightarrow> string \<Rightarrow> string \<Rightarrow> rat" where
  "score_accuracy L output ground_truth mode =
     (if mode = ''json'' then json_accuracy L output ground_truth
      else text_accuracy L output ground_truth)"

section \<open>Scores lie between 0 and 1\<close>

lemma ratio_okD: "ratio_ok r \<Longrightarrow> 0 \<le> r a b" "ratio_ok r \<Longrightarrow> r a b \<le> 1" "ratio_ok r \<Longrightarrow> r a a = 1"
  by (simp_all add: ratio_ok_def)

lemma match_numeric_unit: "0 \<le> match_numeric L g e \<and> match_numeric L g e \<le> 1"
  by (simp add: match_numeric_def Let_def split: option.split)

lemma match_string_unit:
  assumes "ratio_ok (lib_ratio L)"
  shows "0 \<le> match_string L g e \<and> match_string L g e \<le> 1"
  using ratio_okD(1,2) [OF assms, of "normalize_text g" "normalize_text e"]
  by (simp add: match_string_def Let_def)

lemma match_name_unit:
  assumes "ratio_ok (lib_ratio L)"
  shows "0 \<le> match_name L g e \<and> match_name L g e \<le> 1"
  using ratio_okD(1,2) [OF assms, of "normalize_name g" "normalize_name e"]
  by (simp add: match_name_def Let_def)

lemma match_date_unit:
  assumes "ratio_ok (lib_ratio L)"
  shows "0 \<le> match_date L g e \<and> match_date L g e \<le> 1"
  using match_string_unit [OF assms]
  by (simp add: match_date_def Let_def split: option.split)

lemma fuzzy_unit:
  assumes "ratio_ok (lib_ratio L)"
  shows "0 \<le> fuzzy_field_match L g e f \<and> fuzzy_field_match L g e f \<le> 1"
  using match_numeric_unit match_string_unit [OF assms] match_name_unit [OF assms] match_date_unit [OF assms]
  by (simp add: fuzzy_field_match_def)

lemma unit_mean:
  assumes "\<forall>x \<in> set xs. 0 \<le> x \<and> x \<le> (1 :: rat)" "length xs = n" "0 < n"
  shows "0 \<le> sum_list xs / of_nat n \<and> sum_list xs / of_nat n \<le> 1"
  using mean_ge [of xs 0] mean_le [of xs 1] assms by (auto simp: mean_def)

lemma dict_accuracy_unit:
  assumes "ratio_ok (lib_ratio L)"
  shows "0 \<le> dict_accuracy L g e \<and> dict_accuracy L g e \<le> 1"
proof (cases "e = []")
  case True
  then show ?thesis by (simp add: dict_accuracy_def)
next
  case False
  let ?xs = "map (\<lambda>(k, v). case map_of g k of None \<Rightarrow> 0 | Some w \<Rightarrow> fuzzy_field_match L w v k) e"
  have "\<forall>x \<in> set ?xs. 0 \<le> x \<and> x \<le> 1"
    using fuzzy_unit [OF assms] by (auto split: option.split)
  then have "0 \<le> sum_list ?xs / of_nat (length e) \<and> sum_list ?xs / of_nat (length e) \<le> 1"
    by (rule unit_mean) (simp_all add: False)
  then show ?thesis using False by (simp add: dict_accuracy_def)
qed

lemma item_score_unit:
  assumes "ratio_ok (lib_ratio L)"
  shows "0 \<le> item_score L e g \<and> item_score L e g \<le> 1"
  using fuzzy_unit [OF assms] dict_accuracy_unit [OF assms]
  by (simp add: item_score_def split: json.split)

lemma best_match_unit:
  assumes "\<And>g. 0 \<le> score g \<and> score g \<le> 1" "0 \<le> fst best" "fst best \<le> 1"
  shows "0 \<le> fst (best_match score used j gs best) \<and> fst (best_match score used j gs best) \<le> 1"
  using assms(2,3)
proof (induction gs arbitrary: j best)
  case Nil
  then show ?case by simp
next
  case (Cons g gs)
  then show ?case using assms(1) [of g] by simp
qed

lemma match_items_bounds:
  assumes "ratio_ok (lib_ratio L)"
  shows "c \<le> match_items L got es used c \<and> match_items L got es used c \<le> c + of_nat (length es)"
proof (induction es arbitrary: used c)
  case Nil
  then show ?case by simp
next
  case (Cons e es)
  obtain s i where b: "best_match (item_score L e) used 0 got (0, None) = (s, i)" by fastforce
  then have "0 \<le> s \<and> s \<le> 1"
    using best_match_unit [where score = "item_score L e" and best = "(0, None)" and used = used
        and j = 0 and gs = got] item_score_unit [OF assms] by simp
  with Cons.IH [where used = used and c = c] Cons.IH [where used = "the i # used" and c = "c + s"] b
  show ?case by (cases i) auto
qed

lemma list_accuracy_unit:
  assumes "ratio_ok (lib_ratio L)"
  shows "0 \<le> list_accuracy L g e \<and> list_accuracy L g e \<le> 1"
  using match_items_bounds [OF assms, of 0 g e "[]"] by (simp add: list_accuracy_def)

section \<open>A value matches itself\<close>

lemma match_numeric_self: "is_numeric L x \<Longrightarrow> match_numeric L x x = 1"
  by (auto simp: is_numeric_def match_numeric_def)

lemma match_date_self: "match_date L x x = 1"
  by (cases "parse_date L (py_str (lib_repr L) x)") (simp_all add: match_date_def match_string_def Let_def)

lemma fuzzy_self: "fuzzy_field_match L x x f = 1"
  by (simp add: fuzzy_field_match_def match_numeric_self match_date_self match_name_def match_string_def)

lemma dict_accuracy_self:
  assumes "distinct (map fst d)"
  shows "dict_accuracy L d d = 1"
proof (cases "d = []")
  case True
  then show ?thesis by (simp add: dict_accuracy_def)
next
  case False
  have "map (\<lambda>(k, v). case map_of d k of None \<Rightarrow> 0 | Some w \<Rightarrow> fuzzy_field_match L w v k) d = map (\<lambda>_. 1) d"
    using assms by (intro map_cong) (auto simp: fuzzy_self)
  then show ?thesis unfolding dict_accuracy_def if_not_P [OF False] using False by (simp only: sum_list_triv) simp
qed

text \<open>What \<open>json.loads\<close> guarantees of the objects the accuracy looks into: no key twice.\<close>

definition item_wf :: "json \<Rightarrow> bool" where
  "item_wf j \<longleftrightarrow> (case j of JObj d \<Rightarrow> distinct (map fst d) | _ \<Rightarrow> True)"

definition answer_wf :: "json \<Rightarrow> bool" where
  "answer_wf j \<longleftrightarrow> (case j of JList xs \<Rightarrow> list_all item_wf xs | _ \<Rightarrow> item_wf j)"

lemma item_score_self: "item_wf x \<Longrightarrow> item_score L x x = 1"
  by (cases x) (simp_all add: item_score_def item_wf_def fuzzy_self dict_accuracy_self)

lemma best_match_top:
  assumes "\<And>g. score g \<le> 1"
  shows "best_match score used j gs (1, i) = (1, i)"
proof (induction gs arbitrary: j)
  case Nil
  then show ?case by simp
next
  case (Cons g gs)
  then show ?case using assms [of g] by simp
qed

lemma best_match_skip:
  "\<forall>k < n. j + k \<in> set used \<Longrightarrow> n \<le> length gs \<Longrightarrow>
   best_match score used j gs best = best_match score used (j + n) (drop n gs) best"
proof (induction n arbitrary: j gs)
  case 0
  then show ?case by simp
next
  case (Suc n)
  then obtain g gs' where gs: "gs = g # gs'" by (cases gs) auto
  have "j \<in> set used" using Suc.prems(1) by force
  moreover have "best_match score used (Suc j) gs' best = best_match score used (Suc j + n) (drop n gs') best"
  proof (rule Suc.IH)
    show "\<forall>k < n. Suc j + k \<in> set used" using Suc.prems(1) by auto
    show "n \<le> length gs'" using Suc.prems(2) gs by simp
  qed
  ultimately show ?case using gs by simp
qed

lemma best_match_own:
  assumes "\<And>g. score g \<le> 1" "n < length gs" "score (gs ! n) = 1" "set used = {..<n}"
  shows "best_match score used 0 gs (0, None) = (1, Some n)"
proof -
  have "drop n gs = gs ! n # drop (Suc n) gs" using assms(2) by (simp add: Cons_nth_drop_Suc)
  moreover have "best_match score used 0 gs (0, None) = best_match score used (0 + n) (drop n gs) (0, None)"
    using assms(2,4) by (intro best_match_skip) auto
  ultimately show ?thesis using assms(1,3,4) by (simp add: best_match_top)
qed

lemma match_items_self:
  assumes "ratio_ok (lib_ratio L)" "list_all item_wf got"
  shows "n \<le> length got \<Longrightarrow> set used = {..<n} \<Longrightarrow>
         match_items L got (drop n got) used (of_nat n) = of_nat (length got)"
proof (induction "length got - n" arbitrary: n used)
  case 0
  then show ?case by simp
next
  case (Suc k)
  then have n: "n < length got" by simp
  then have "item_score L (got ! n) (got ! n) = 1"
    using assms(2) by (simp add: item_score_self list_all_length)
  then have best: "best_match (item_score L (got ! n)) used 0 got (0, None) = (1, Some n)"
    using item_score_unit [OF assms(1)] n Suc.prems(2) by (intro best_match_own) auto
  have split: "drop n got = got ! n # drop (Suc n) got" using n by (simp add: Cons_nth_drop_Suc)
  have rest: "match_items L got (drop (Suc n) got) (n # used) (of_nat (Suc n)) = of_nat (length got)"
  proof (rule Suc.hyps(1))
    show "k = length got - Suc n" using Suc.hyps(2) by simp
    show "Suc n \<le> length got" using n by simp
    show "set (n # used) = {..<Suc n}" unfolding list.set Suc.prems(2) lessThan_Suc ..
  qed
  have "match_items L got (drop n got) used (of_nat n)
      = match_items L got (drop (Suc n) got) (n # used) (of_nat n + 1)"
    unfolding split match_items.simps best by simp
  also have "of_nat n + 1 = (of_nat (Suc n) :: rat)" by simp
  finally show ?case unfolding rest .
qed

lemma list_accuracy_self:
  "ratio_ok (lib_ratio L) \<Longrightarrow> list_all item_wf xs \<Longrightarrow> list_accuracy L xs xs = 1"
  using match_items_self [of L xs 0 "[]"] by (simp add: list_accuracy_def)

section \<open>Properties\<close>

text \<open>
  Whatever the answer, the expected answer and the mode, the accuracy lies between 0 and 1.
\<close>

theorem accuracy_unit:
  assumes "ratio_ok (lib_ratio L)"
  shows "0 \<le> score_accuracy L output ground_truth mode \<and> score_accuracy L output ground_truth mode \<le> 1"
  using list_accuracy_unit [OF assms] dict_accuracy_unit [OF assms] ratio_okD(1,2) [OF assms]
  by (simp add: score_accuracy_def json_accuracy_def text_accuracy_def split: option.split json.split)

text \<open>
  An answer that is exactly the expected one scores 1 in every mode, lists included: the greedy
  pairing of list items never gives an item's own partner to an earlier item.
\<close>

theorem exact_answer_scores_full:
  assumes "ratio_ok (lib_ratio L)"
    and "case lib_loads L answer of None \<Rightarrow> True | Some j \<Rightarrow> answer_wf j"
  shows "score_accuracy L answer answer mode = 1"
proof (cases "mode = ''json''")
  case False
  then show ?thesis using ratio_okD(3) [OF assms(1)] by (simp add: score_accuracy_def text_accuracy_def)
next
  case True
  show ?thesis
  proof (cases "lib_loads L answer")
    case None
    then show ?thesis
      using ratio_okD(3) [OF assms(1)] by (simp add: score_accuracy_def json_accuracy_def text_accuracy_def)
  next
    case (Some j)
    then have "answer_wf j" using assms(2) by simp
    then show ?thesis
      using True Some list_accuracy_self [OF assms(1)]
      by (cases j) (simp_all add: score_accuracy_def json_accuracy_def answer_wf_def item_wf_def
          dict_accuracy_self scalar_eq_def num_of_def)
  qed
qed

text \<open>
  An object whose fields are plain text (not numbers, dates or names) is matched at 0.6 by an
  object that has the same keys and empty strings: the containment test of the string comparison
  holds for the empty text, so an empty answer earns more than half of the accuracy.
\<close>

theorem empty_fields_earn_credit:
  assumes "expected \<noteq> []" "distinct (map fst expected)"
    and "list_all (\<lambda>(k, v). \<exists>s. v = JStr s \<and> normalize_text s \<noteq> [] \<and> \<not> is_numeric L v \<and>
           \<not> looks_like_date s \<and> \<not> str_in ''name'' (to_lower k)) expected"
  shows "dict_accuracy L (map (\<lambda>(k, v). (k, JStr [])) expected) expected = 6 / 10"
proof -
  have no_date: "\<not> looks_like_date []" by code_simp
  have empty: "normalize_text [] = []" by code_simp
  have field: "fuzzy_field_match L (JStr []) (JStr s) k = 6 / 10"
    if "normalize_text s \<noteq> []" "\<not> is_numeric L (JStr s)" "\<not> looks_like_date s"
      "\<not> str_in ''name'' (to_lower k)" for s k
  proof -
    have "str_in [] (normalize_text s)" by (simp add: str_in_sublist)
    moreover have "match_string L [] s = 6 / 10"
      unfolding match_string_def Let_def empty using that(1) calculation by simp
    ultimately show ?thesis using that no_date by (simp add: fuzzy_field_match_def)
  qed
  have lookup: "map_of (map (\<lambda>(k, v). (k, JStr [])) expected) k = Some (JStr [])" if "(k, v) \<in> set expected" for k v
  proof (rule map_of_is_SomeI)
    show "distinct (map fst (map (\<lambda>(k, v). (k, JStr [])) expected))"
      using assms(2) by (simp add: comp_def case_prod_beta)
    show "(k, JStr []) \<in> set (map (\<lambda>(k, v). (k, JStr [])) expected)" using that by force
  qed
  have "map (\<lambda>(k, exp_val). case map_of (map (\<lambda>(k, v). (k, JStr [])) expected) k of
            None \<Rightarrow> 0 | Some v \<Rightarrow> fuzzy_field_match L v exp_val k) expected = map (\<lambda>_. 6 / 10) expected"
  proof (rule map_cong [OF refl], clarify)
    fix k v assume kv: "(k, v) \<in> set expected"
    with assms(3) obtain s where "v = JStr s" "normalize_text s \<noteq> []" "\<not> is_numeric L (JStr s)"
      "\<not> looks_like_date s" "\<not> str_in ''name'' (to_lower k)" by (fastforce simp: list_all_iff)
    with lookup [OF kv] field show "(case map_of (map (\<lambda>(k, v). (k, JStr [])) expected) k of
            None \<Rightarrow> 0 | Some w \<Rightarrow> fuzzy_field_match L w v k) = 6 / 10" by simp
  qed
  then show ?thesis unfolding dict_accuracy_def if_not_P [OF assms(1)]
    using assms(1) by (simp only: sum_list_triv) simp
qed

section \<open>Witnesses\<close>

definition sample_lib :: py_lib where
  "sample_lib =
     \<lparr>lib_repr = (\<lambda>_. ''{}''), lib_ratio = (\<lambda>a b. if a = b then 1 else 0), lib_strptime = (\<lambda>_ _. None),
      lib_loads = (\<lambda>s. if s = ''[]'' then Some (JList []) else None), lib_dumps = (\<lambda>_. ''{}''),
      lib_sha256 = (\<lambda>s. s), lib_ndiff = (\<lambda>_ _. []), lib_finditer = (\<lambda>_ _. [])\<rparr>"

lemma sample_ratio_ok: "ratio_ok (lib_ratio sample_lib)"
  by (simp add: ratio_ok_def sample_lib_def)

theorem accuracy_unit_witness: "score_accuracy sample_lib ''no'' ''yes'' ''text'' \<le> 1"
  using accuracy_unit [OF sample_ratio_ok] by blast

theorem exact_answer_scores_full_witness: "score_accuracy sample_lib ''[]'' ''[]'' ''json'' = 1"
  by (rule exact_answer_scores_full [OF sample_ratio_ok]) (simp add: sample_lib_def answer_wf_def)

theorem empty_fields_earn_credit_witness:
  "dict_accuracy sample_lib [(''colour'', JStr [])] [(''colour'', JStr ''red'')] = 6 / 10"
proof -
  have "list_all (\<lambda>(k, v). \<exists>s. v = JStr s \<and> normalize_text s \<noteq> [] \<and> \<not> is_numeric sample_lib v \<and>
           \<not> looks_like_date s \<and> \<not> str_in ''name'' (to_lower k)) [(''colour'', JStr ''red'')]"
  proof (simp, intro conjI)
    show "normalize_text ''red'' \<noteq> []" by code_simp
    show "\<not> is_numeric sample_lib (JStr ''red'')" by code_simp
    show "\<not> looks_like_date ''red''" by code_simp
    show "\<not> str_in ''name'' (to_lower ''colour'')" by code_simp
  qed
  then have "dict_accuracy sample_lib (map (\<lambda>(k, v). (k, JStr [])) [(''colour'', JStr ''red'')])
      [(''colour'', JStr ''red'')] = 6 / 10"
    by (intro empty_fields_earn_credit) simp_all
  then show ?thesis by simp
qed

end
