(* ===== verification/Scoring.thy ===== *)
theory Scoring
  imports Prelude
begin

text \<open>
  The numeric scores of \<open>backend/app/services/evaluation/scorer.py\<close>: efficiency, reliability,
  orchestration, the efficiency trade-off, confidence calibration and the AI leverage metrics.
  Floats are exact rationals; a division by a caller's zero is the exception it raises. The
  accuracy matching (text similarity, dates, names) is not here.
\<close>

section \<open>The scores\<close>

definition clamp01 :: "rat \<Rightarrow> rat" where
  "clamp01 v = max 0 (min 1 v)"

definition score_efficiency :: "int \<Rightarrow> rat \<Rightarrow> int \<Rightarrow> rat \<Rightarrow> py_exc + rat" where
  "score_efficiency total_tokens total_cost_usd token_budget cost_budget =
     bind (py_div (of_int total_tokens) (of_int token_budget)) (\<lambda>t.
     bind (py_div total_cost_usd cost_budget) (\<lambda>c.
       Inr (py_round 4 ((max 0 (1 - t) + max 0 (1 - c)) / 2))))"

text \<open>\<open>sqrt_f\<close> is the float power \<open>** 0.5\<close>, which is not rational.\<close>

definition score_reliability :: "(rat \<Rightarrow> rat) \<Rightarrow> rat list \<Rightarrow> rat" where
  "score_reliability sqrt_f accuracies =
     (if accuracies = [] then 0
      else
        let m = mean accuracies;
            variance = mean (map (\<lambda>a. (a - m)\<^sup>2) accuracies);
            stddev = sqrt_f variance
        in py_round 4 (max 0 (m * (1 - stddev))))"

definition penalties :: "rat dict" where
  "penalties =
     [(''excessive_retries'', 15 / 100), (''redundant_calls'', 10 / 100),
      (''no_validation'', 10 / 100), (''no_error_handling'', 12 / 100), (''bare_except'', 5 / 100)]"

definition penalty :: "string \<Rightarrow> rat" where
  "penalty k = dict_get penalties k 0"

definition analysis_flag :: "json dict \<Rightarrow> string \<Rightarrow> bool" where
  "analysis_flag analysis k = truthy (dict_get analysis k (JBool False))"

definition retry_penalty :: "int \<Rightarrow> int \<Rightarrow> rat" where
  "retry_penalty total_calls total_retries =
     (if of_int total_retries > of_int total_calls * (3 / 10 :: rat) then penalty ''excessive_retries'' else 0)"

definition call_penalty :: "int \<Rightarrow> int \<Rightarrow> py_exc + rat" where
  "call_penalty total_calls expected_calls =
     (if total_calls > expected_calls * 2
      then bind (py_div (of_int (total_calls - expected_calls)) (of_int expected_calls))
             (\<lambda>over_ratio. Inr (min (penalty ''redundant_calls'' * over_ratio) (30 / 100)))
      else Inr 0)"

definition code_penalty :: "int \<Rightarrow> json dict \<Rightarrow> py_exc + rat" where
  "code_penalty total_calls code_analysis =
     (if code_analysis \<noteq> []
      then bind (as_dict (dict_get code_analysis ''analysis'' (JObj []))) (\<lambda>analysis. Inr
             ((if \<not> analysis_flag analysis ''has_try_except'' \<and>
                  \<not> analysis_flag analysis ''has_llm_error_handling'' then penalty ''no_error_handling'' else 0) +
              (if analysis_flag analysis ''has_bare_except'' then penalty ''bare_except'' else 0) +
              (if \<not> analysis_flag analysis ''has_json_validation'' then penalty ''no_validation'' else 0)))
      else Inr (if total_calls > 0 then penalty ''no_validation'' * (1 / 2) else 0))"

definition score_orchestration :: "int \<Rightarrow> int \<Rightarrow> int \<Rightarrow> json dict \<Rightarrow> py_exc + rat" where
  "score_orchestration total_calls total_retries expected_calls code_analysis =
     bind (call_penalty total_calls expected_calls) (\<lambda>calls.
     bind (code_penalty total_calls code_analysis) (\<lambda>code.
       Inr (py_round 4 (max 0 (1 - retry_penalty total_calls total_retries - calls - code)))))"

text \<open>The budgets of a challenge, with the scorer's defaults and floors.\<close>

definition token_budget :: "rat dict \<Rightarrow> rat" where
  "token_budget b = max 1 (dict_get b ''token_budget'' 12000)"

definition cost_budget :: "rat dict \<Rightarrow> rat" where
  "cost_budget b = max (1 / 10000) (dict_get b ''cost_budget_usd'' (20 / 100))"

definition latency_budget :: "rat dict \<Rightarrow> rat" where
  "latency_budget b = max 1 (dict_get b ''latency_budget_ms'' 30000)"

definition call_budget :: "rat dict \<Rightarrow> rat" where
  "call_budget b = max 1 (dict_get b ''call_budget'' 20)"

record usage =
  us_tokens :: int
  us_cost_usd :: rat
  us_latency_ms :: rat
  us_calls :: int

definition weighted_usage :: "rat dict \<Rightarrow> usage \<Rightarrow> rat" where
  "weighted_usage b u =
     of_int (us_tokens u) / token_budget b * (35 / 100) +
     us_cost_usd u / cost_budget b * (35 / 100) +
     us_latency_ms u / latency_budget b * (20 / 100) +
     of_int (us_calls u) / call_budget b * (10 / 100)"

definition score_efficiency_tradeoff :: "usage \<Rightarrow> rat \<Rightarrow> rat dict \<Rightarrow> rat" where
  "score_efficiency_tradeoff u quality_anchor budgets =
     (let w = weighted_usage budgets u;
          frontier = (if w \<le> 1 then 1 - w * (15 / 100) else 1 - (w - 1) * (6 / 10));
          frontier = max 0 (min 1 frontier);
          q = max 0 (min 1 quality_anchor);
          quality_gate = max 0 (min 1 ((q - 2 / 10) / (6 / 10)));
          score = frontier * (4 / 10 + 6 / 10 * quality_gate)
      in py_round 4 (max 0 (min 1 score)))"

record calibration_result =
  cal_score :: rat
  cal_ece :: "rat option"
  cal_brier :: "rat option"
  cal_samples :: nat
  cal_method :: string

definition clip_point :: "rat \<times> rat \<Rightarrow> rat \<times> rat" where
  "clip_point p = (max 0 (min 1 (fst p)), if snd p \<ge> 1 / 2 then 1 else 0)"

definition bin_index :: "rat \<Rightarrow> int" where
  "bin_index c = min 9 (py_int (c * 10))"

definition calibration_bins :: "(rat \<times> rat) list \<Rightarrow> (rat \<times> rat) list list" where
  "calibration_bins clipped = map (\<lambda>i. filter (\<lambda>p. bin_index (fst p) = i) clipped) [0..9]"

definition bucket_error :: "nat \<Rightarrow> (rat \<times> rat) list \<Rightarrow> rat" where
  "bucket_error n bucket =
     (if bucket = [] then 0
      else of_nat (length bucket) / of_nat n * \<bar>mean (map fst bucket) - mean (map snd bucket)\<bar>)"

definition score_calibration :: "(rat \<times> rat) list \<Rightarrow> calibration_result" where
  "score_calibration confidence_points =
     (if confidence_points = []
      then \<lparr>cal_score = 1 / 2, cal_ece = None, cal_brier = None, cal_samples = 0,
            cal_method = ''no_confidence_signals''\<rparr>
      else
        let clipped = map clip_point confidence_points;
            n = length clipped;
            brier = mean (map (\<lambda>(c, o'). (c - o')\<^sup>2) clipped);
            ece = sum_list (map (bucket_error n) (calibration_bins clipped));
            score = 1 - min 1 ((65 / 100 * brier + 35 / 100 * ece) * 2)
        in \<lparr>cal_score = py_round 4 (max 0 (min 1 score)), cal_ece = Some (py_round 4 ece),
            cal_brier = Some (py_round 4 brier), cal_samples = n, cal_method = ''ece_brier''\<rparr>)"

record frontier_result =
  fr_score :: rat
  fr_quality_anchor :: rat
  fr_weighted_usage :: rat
  fr_expected_usage :: rat
  fr_frontier_gap :: rat
  fr_proximity :: rat

definition score_frontier_navigation :: "usage \<Rightarrow> rat \<Rightarrow> rat dict \<Rightarrow> frontier_result" where
  "score_frontier_navigation u quality_anchor budgets =
     (let w = weighted_usage budgets u;
          q = clamp01 quality_anchor;
          expected_usage = max (45 / 100) (110 / 100 - 70 / 100 * q);
          frontier_gap = max 0 (w - expected_usage);
          proximity = clamp01 (1 - frontier_gap / (125 / 100));
          proximity = (if q < 45 / 100 then proximity * (q / (45 / 100)) else proximity);
          score = clamp01 (65 / 100 * proximity + 35 / 100 * q)
      in \<lparr>fr_score = py_round 4 score, fr_quality_anchor = py_round 4 q,
          fr_weighted_usage = py_round 4 w, fr_expected_usage = py_round 4 expected_usage,
          fr_frontier_gap = py_round 4 frontier_gap, fr_proximity = py_round 4 proximity\<rparr>)"

text \<open>The fields of a run that the scores read.\<close>

record run_summary =
  run_schema_valid :: bool
  run_passed :: bool
  run_llm_calls :: rat

record reliance_result =
  rl_score :: rat
  rl_verification_coverage :: rat
  rl_schema_valid_rate :: rat
  rl_pass_rate :: rat
  rl_calls_per_run :: rat
  rl_over_reliance_penalty :: rat

definition rate :: "('r \<Rightarrow> bool) \<Rightarrow> 'r list \<Rightarrow> rat" where
  "rate P runs = of_nat (length (filter P runs)) / of_nat (length runs)"

definition score_reliance_calibration ::
  "rat \<Rightarrow> run_summary list \<Rightarrow> int \<Rightarrow> json dict \<Rightarrow> bool \<Rightarrow> py_exc + reliance_result" where
  "score_reliance_calibration calibration_score runs expected_calls code_analysis anti_gaming_triggered =
     (if runs = [] then Inr \<lparr>rl_score = 0, rl_verification_coverage = 0, rl_schema_valid_rate = 0,
                             rl_pass_rate = 0, rl_calls_per_run = 0, rl_over_reliance_penalty = 0\<rparr>
      else
        let schema_valid_rate = rate run_schema_valid runs;
            pass_rate = rate run_passed runs;
            calls_per_run = mean (map run_llm_calls runs)
        in
        bind (as_dict (dict_get code_analysis ''analysis'' (JObj []))) (\<lambda>analysis.
        let has_validation = analysis_flag analysis ''has_json_validation'';
            has_recovery = (analysis_flag analysis ''has_try_except'' \<or>
                            analysis_flag analysis ''has_llm_error_handling'');
            verification_coverage = (of_bool has_validation + of_bool has_recovery) / 2;
            operational_quality = schema_valid_rate * (1 / 2) + pass_rate * (1 / 2);
            call_pressure = calls_per_run / max 1 (of_int expected_calls);
            penalty0 = (if operational_quality < 75 / 100 \<and> call_pressure > 140 / 100
                        then min (25 / 100) ((call_pressure - 140 / 100) * (18 / 100)) else 0);
            over_reliance_penalty = (if anti_gaming_triggered
                        then min (35 / 100) (penalty0 + 15 / 100) else penalty0);
            score = clamp01 (clamp01 calibration_score * (35 / 100) +
                      operational_quality * (35 / 100) + verification_coverage * (30 / 100) -
                      over_reliance_penalty)
        in Inr \<lparr>rl_score = py_round 4 score,
                rl_verification_coverage = py_round 4 verification_coverage,
                rl_schema_valid_rate = py_round 4 schema_valid_rate,
                rl_pass_rate = py_round 4 pass_rate,
                rl_calls_per_run = py_round 4 calls_per_run,
                rl_over_reliance_penalty = py_round 4 over_reliance_penalty\<rparr>))"

definition default_without :: "rat dict" where
  "default_without =
     [(''frontier_navigation'', 35 / 100), (''reliance_calibration'', 30 / 100),
      (''prompt_quality'', 20 / 100), (''learning_velocity'', 15 / 100)]"

definition default_with :: "rat dict" where
  "default_with =
     [(''frontier_navigation'', 30 / 100), (''reliance_calibration'', 25 / 100),
      (''prompt_quality'', 15 / 100), (''learning_velocity'', 15 / 100),
      (''leverage_gain'', 15 / 100)]"

definition normalized_weights :: "rat dict \<Rightarrow> rat dict option \<Rightarrow> rat dict" where
  "normalized_weights defaults overrides =
     (let source = map (\<lambda>(k, v). (k,
            case overrides of
              None \<Rightarrow> v
            | Some ov \<Rightarrow> (case map_of ov k of None \<Rightarrow> v | Some w \<Rightarrow> max 0 w))) defaults;
          total = sum_list (map snd source)
      in if total \<le> 0 then defaults else map (\<lambda>(k, v). (k, v / total)) source)"

definition weighted_sum :: "rat dict \<Rightarrow> rat dict \<Rightarrow> rat" where
  "weighted_sum weights values' = sum_list (map (\<lambda>(k, v). v * dict_get weights k 0) values')"

record mastery_result =
  ms_score :: rat
  ms_components :: "rat dict"
  ms_weights_without :: "rat dict"
  ms_weights_with :: "rat dict"
  ms_method :: string

definition score_ai_mastery ::
  "rat \<Rightarrow> rat \<Rightarrow> rat \<Rightarrow> rat option \<Rightarrow> rat option \<Rightarrow> rat dict option \<Rightarrow> rat dict option \<Rightarrow> mastery_result" where
  "score_ai_mastery frontier reliance prompt velocity leverage_gain w_without w_with =
     (let without_weights = normalized_weights default_without w_without;
          with_weights = normalized_weights default_with w_with;
          learning_velocity = (case velocity of None \<Rightarrow> 1 / 2 | Some v \<Rightarrow> clamp01 v);
          values4 = [(''frontier_navigation'', clamp01 frontier),
                     (''reliance_calibration'', clamp01 reliance),
                     (''prompt_quality'', clamp01 prompt),
                     (''learning_velocity'', learning_velocity)];
          values' = (case leverage_gain of None \<Rightarrow> values4
                     | Some g \<Rightarrow> values4 @ [(''leverage_gain'', clamp01 g)]);
          score = (case leverage_gain of None \<Rightarrow> weighted_sum without_weights values'
                   | Some _ \<Rightarrow> weighted_sum with_weights values')
      in \<lparr>ms_score = py_round 4 (clamp01 score),
          ms_components = map (\<lambda>(k, v). (k, py_round 4 v)) values',
          ms_weights_without = map (\<lambda>(k, v). (k, py_round 4 v)) without_weights,
          ms_weights_with = map (\<lambda>(k, v). (k, py_round 4 v)) with_weights,
          ms_method = (case leverage_gain of None \<Rightarrow> ''ai_mastery_v1''
                       | Some _ \<Rightarrow> ''ai_mastery_v2_counterfactual'')\<rparr>)"


section \<open>Bounds\<close>

lemma clamp01_unit [simp, unit_bounds]: "0 \<le> clamp01 v" "clamp01 v \<le> 1"
  by (simp_all add: clamp01_def)

lemma clamp01_id: "0 \<le> v \<Longrightarrow> v \<le> 1 \<Longrightarrow> clamp01 v = v"
  by (simp add: clamp01_def)

lemma clamp01_mono: "x \<le> y \<Longrightarrow> clamp01 x \<le> clamp01 y"
  by (auto simp: clamp01_def max_def min_def)

lemma max_min_clamp01 [simp]: "max 0 (min 1 v) = clamp01 v"
  by (simp add: clamp01_def)

lemma budgets_positive [simp]:
  "0 < token_budget b" "0 < cost_budget b" "0 < latency_budget b" "0 < call_budget b"
  by (simp_all add: token_budget_def cost_budget_def latency_budget_def call_budget_def)

lemma rate_unit [simp]: "0 \<le> rate P runs" "rate P runs \<le> 1"
proof -
  show "0 \<le> rate P runs" by (simp add: rate_def)
  have "(of_nat (length (filter P runs)) :: rat) \<le> of_nat (length runs)" by simp
  then show "rate P runs \<le> 1" by (cases "runs = []") (simp_all add: rate_def)
qed

definition usage_le :: "usage \<Rightarrow> usage \<Rightarrow> bool" where
  "usage_le u v \<longleftrightarrow> us_tokens u \<le> us_tokens v \<and> us_cost_usd u \<le> us_cost_usd v \<and>
     us_latency_ms u \<le> us_latency_ms v \<and> us_calls u \<le> us_calls v"

lemma weighted_usage_mono: "usage_le u v \<Longrightarrow> weighted_usage b u \<le> weighted_usage b v"
  unfolding weighted_usage_def usage_le_def
  by (intro add_mono mult_right_mono divide_right_mono) (auto simp: less_imp_le)

section \<open>The frontier of the trade-off\<close>

definition tradeoff_frontier :: "rat \<Rightarrow> rat" where
  "tradeoff_frontier w = clamp01 (if w \<le> 1 then 1 - w * (15 / 100) else 1 - (w - 1) * (6 / 10))"

definition tradeoff_gate :: "rat \<Rightarrow> rat" where
  "tradeoff_gate q = 4 / 10 + 6 / 10 * clamp01 ((clamp01 q - 2 / 10) / (6 / 10))"

lemma tradeoff_gate_bounds: "4 / 10 \<le> tradeoff_gate q" "tradeoff_gate q \<le> 1"
proof -
  have "6 / 10 * clamp01 x \<le> 6 / 10 * 1" for x
    by (rule mult_left_mono) simp_all
  then show "tradeoff_gate q \<le> 1" by (simp add: tradeoff_gate_def field_simps)
qed (simp add: tradeoff_gate_def)

lemma tradeoff_gate_mono: "p \<le> q \<Longrightarrow> tradeoff_gate p \<le> tradeoff_gate q"
  unfolding tradeoff_gate_def
  by (intro add_mono mult_left_mono clamp01_mono divide_right_mono diff_mono) simp_all

lemma score_efficiency_tradeoff_eq:
  "score_efficiency_tradeoff u q b
     = py_round 4 (tradeoff_frontier (weighted_usage b u) * tradeoff_gate q)"
proof -
  have "0 \<le> tradeoff_frontier w * tradeoff_gate q" "tradeoff_frontier w * tradeoff_gate q \<le> 1" for w
    using tradeoff_gate_bounds [of q] mult_le_one [of "tradeoff_frontier w" "tradeoff_gate q"]
    by (simp_all add: tradeoff_frontier_def)
  then show ?thesis
    by (simp add: score_efficiency_tradeoff_def tradeoff_frontier_def tradeoff_gate_def Let_def clamp01_id)
qed

lemma tradeoff_frontier_antimono:
  "v \<le> w \<Longrightarrow> w \<le> 1 \<or> 1 < v \<Longrightarrow> tradeoff_frontier w \<le> tradeoff_frontier v"
  by (auto simp: tradeoff_frontier_def intro!: clamp01_mono)

section \<open>Weights\<close>

lemma sum_list_of_nat: "sum_list (map (\<lambda>x. of_nat (f x)) xs) = (of_nat (sum_list (map f xs)) :: rat)"
  by (induction xs) simp_all

lemma sum_list_divide: "sum_list (map (\<lambda>x. f x / t) xs) = sum_list (map f xs) / (t::rat)"
  by (induction xs) (auto simp: add_divide_distrib)

lemma normalized_weights_keys [simp]: "map fst (normalized_weights d ov) = map fst d"
  by (simp add: normalized_weights_def Let_def comp_def case_prod_beta)

lemma normalized_weights_sum:
  assumes "sum_list (map snd d) = 1"
  shows "sum_list (map snd (normalized_weights d ov)) = 1"
  using assms
  by (simp add: normalized_weights_def Let_def comp_def case_prod_beta sum_list_divide)

lemma normalized_weights_nonneg:
  assumes "list_all (\<lambda>(k, v). 0 \<le> v) d"
  shows "list_all (\<lambda>(k, v). 0 \<le> v) (normalized_weights d ov)"
  using assms
  by (auto simp: normalized_weights_def Let_def list_all_iff case_prod_beta split: option.splits)

lemma default_weights [simp]:
  "sum_list (map snd default_without) = 1" "sum_list (map snd default_with) = 1"
  "list_all (\<lambda>(k, v). 0 \<le> v) default_without" "list_all (\<lambda>(k, v). 0 \<le> v) default_with"
  by (simp_all add: default_without_def default_with_def)

text \<open>A weighted sum with weights that sum to one lies between the least and the greatest value.\<close>

lemma weighted_sum_list:
  fixes ws vs :: "rat list"
  assumes "length ws = length vs" "\<forall>w \<in> set ws. 0 \<le> w" "\<forall>v \<in> set vs. lo \<le> v \<and> v \<le> hi"
  shows "lo * sum_list ws \<le> sum_list (map2 (*) vs ws)" "sum_list (map2 (*) vs ws) \<le> hi * sum_list ws"
  using assms
proof (induction ws vs rule: list_induct2)
  case Nil
  { case 1 then show ?case by simp }
  { case 2 then show ?case by simp }
next
  case (Cons w ws v vs)
  { case 1
    then have "lo * w \<le> v * w" by (intro mult_right_mono) auto
    with 1 Cons.IH show ?case by (simp add: algebra_simps) }
  { case 2
    then have "v * w \<le> hi * w" by (intro mult_right_mono) auto
    with 2 Cons.IH show ?case by (simp add: algebra_simps) }
qed

lemma weighted_sum_map2:
  "map fst ws = map fst vs \<Longrightarrow> distinct (map fst ws) \<Longrightarrow>
   weighted_sum ws vs = sum_list (map2 (*) (map snd vs) (map snd ws))"
proof -
  assume keys: "map fst ws = map fst vs" and dist: "distinct (map fst ws)"
  have len: "length ws = length vs" using keys by (metis length_map)
  have "map (\<lambda>(k, v). v * dict_get ws k 0) vs = map2 (*) (map snd vs) (map snd ws)"
  proof (rule nth_equalityI)
    fix i assume "i < length (map (\<lambda>(k, v). v * dict_get ws k 0) vs)"
    then have i: "i < length vs" "i < length ws" using len by simp_all
    have "fst (ws ! i) = fst (vs ! i)" using keys i by (metis nth_map)
    moreover have "map_of ws (fst (ws ! i)) = Some (snd (ws ! i))"
      using dist i by (simp add: map_of_eq_Some_iff)
    ultimately show "map (\<lambda>(k, v). v * dict_get ws k 0) vs ! i = map2 (*) (map snd vs) (map snd ws) ! i"
      using i by (simp add: case_prod_beta dict_get_def)
  qed (simp add: len)
  then show ?thesis by (simp add: weighted_sum_def)
qed


section \<open>Calibration\<close>

lemma clip_point_unit: "0 \<le> fst (clip_point p)" "fst (clip_point p) \<le> 1"
    "snd (clip_point p) = 0 \<or> snd (clip_point p) = 1"
  by (auto simp: clip_point_def)

lemma unit_square: "0 \<le> x \<Longrightarrow> x \<le> 1 \<Longrightarrow> 0 \<le> y \<Longrightarrow> y \<le> 1 \<Longrightarrow> (x - y)\<^sup>2 \<le> (1::rat)"
  by (simp add: abs_square_le_1 abs_le_iff)

lemma bucket_error_nonneg: "0 \<le> bucket_error n b"
  by (simp add: bucket_error_def)

lemma bucket_error_bound:
  assumes "\<forall>x \<in> set b. 0 \<le> fst x \<and> fst x \<le> 1 \<and> 0 \<le> snd x \<and> snd x \<le> 1"
  shows "bucket_error n b \<le> of_nat (length b) / of_nat n"
proof (cases "b = []")
  case True
  then show ?thesis by (simp add: bucket_error_def)
next
  case False
  then have "0 \<le> mean (map fst b)" "mean (map fst b) \<le> 1" "0 \<le> mean (map snd b)" "mean (map snd b) \<le> 1"
    using assms False by (auto intro!: mean_ge mean_le)
  then have "\<bar>mean (map fst b) - mean (map snd b)\<bar> \<le> 1" by linarith
  then have "of_nat (length b) / of_nat n * \<bar>mean (map fst b) - mean (map snd b)\<bar>
      \<le> of_nat (length b) / of_nat n * (1::rat)"
    by (intro mult_left_mono) simp_all
  with False show ?thesis by (simp add: bucket_error_def)
qed

lemma bin_index_range: "0 \<le> c \<Longrightarrow> bin_index c \<in> {0..9}"
  by (simp add: bin_index_def py_int_nonneg)

text \<open>Every clipped point is in exactly one bin.\<close>

lemma sum_list_of_bool_one:
  "distinct xs \<Longrightarrow> a \<in> set xs \<Longrightarrow> sum_list (map (\<lambda>i. of_bool (a = i) :: nat) xs) = 1"
proof (induction xs)
  case Nil
  then show ?case by simp
next
  case (Cons x xs)
  show ?case
  proof (cases "a = x")
    case True
    with Cons.prems show ?thesis by (auto simp: sum_list_eq_0_iff)
  next
    case False
    with Cons show ?thesis by simp
  qed
qed

lemma length_filter_partition:
  assumes "distinct is" "\<forall>x \<in> set xs. g x \<in> set is"
  shows "sum_list (map (\<lambda>i. length (filter (\<lambda>x. g x = i) xs)) is) = length xs"
  using assms(2)
proof (induction xs)
  case Nil
  then show ?case by simp
next
  case (Cons x xs)
  have "sum_list (map (\<lambda>i. length (filter (\<lambda>y. g y = i) (x # xs))) is)
      = sum_list (map (\<lambda>i. of_bool (g x = i) + length (filter (\<lambda>y. g y = i) xs)) is)"
    by (intro arg_cong [where f = sum_list] map_cong) auto
  also have "\<dots> = sum_list (map (\<lambda>i. of_bool (g x = i)) is) + length xs"
    using Cons by (simp add: sum_list_addf)
  also have "sum_list (map (\<lambda>i. of_bool (g x = i) :: nat) is) = 1"
    using assms(1) Cons.prems by (intro sum_list_of_bool_one) auto
  finally show ?case by simp
qed

lemma ece_bounds:
  fixes pts :: "(rat \<times> rat) list"
  defines "cl \<equiv> map clip_point pts"
  assumes "pts \<noteq> []"
  shows "0 \<le> sum_list (map (bucket_error (length cl)) (calibration_bins cl))"
    and "sum_list (map (bucket_error (length cl)) (calibration_bins cl)) \<le> 1"
proof -
  let ?n = "length cl"
  show "0 \<le> sum_list (map (bucket_error ?n) (calibration_bins cl))"
    by (rule sum_list_nonneg) (auto simp: bucket_error_nonneg)
  have unit: "\<forall>x \<in> set cl. 0 \<le> fst x \<and> fst x \<le> 1 \<and> 0 \<le> snd x \<and> snd x \<le> 1"
    using clip_point_unit by (auto simp: cl_def) (metis order_refl zero_le_one)+
  have "sum_list (map (bucket_error ?n) (calibration_bins cl))
      \<le> sum_list (map (\<lambda>b. of_nat (length b) / of_nat ?n) (calibration_bins cl))"
    using unit by (intro sum_list_mono bucket_error_bound) (auto simp: calibration_bins_def)
  also have "\<dots> = of_nat (sum_list (map length (calibration_bins cl))) / of_nat ?n"
    by (simp add: sum_list_divide sum_list_of_nat)
  also have "sum_list (map length (calibration_bins cl)) = ?n"
  proof -
    have "\<forall>x \<in> set cl. bin_index (fst x) \<in> set [0..9]"
      using unit bin_index_range by fastforce
    then show ?thesis
      using length_filter_partition [of "[0..9]" cl "\<lambda>x. bin_index (fst x)"]
      by (simp add: calibration_bins_def comp_def)
  qed
  also have "of_nat ?n / of_nat ?n = (1::rat)" using assms(2) by (simp add: cl_def)
  finally show "sum_list (map (bucket_error ?n) (calibration_bins cl)) \<le> 1" .
qed

lemma brier_bounds:
  fixes pts :: "(rat \<times> rat) list"
  assumes "pts \<noteq> []"
  shows "0 \<le> mean (map (\<lambda>(c, d). (c - d)\<^sup>2) (map clip_point pts))"
    and "mean (map (\<lambda>(c, d). (c - d)\<^sup>2) (map clip_point pts)) \<le> 1"
proof -
  have "(fst (clip_point p) - snd (clip_point p))\<^sup>2 \<le> 1" for p
    using clip_point_unit [of p] by (intro unit_square) auto
  then show "0 \<le> mean (map (\<lambda>(c, d). (c - d)\<^sup>2) (map clip_point pts))"
    "mean (map (\<lambda>(c, d). (c - d)\<^sup>2) (map clip_point pts)) \<le> 1"
    using assms by (auto intro!: mean_ge mean_le simp: case_prod_beta)
qed

section \<open>Properties\<close>

text \<open>
  As long as both stay within the budget, or both exceed it, using more tokens, money, time or
  calls never raises the efficiency trade-off score, and better quality never lowers it; the score
  is always between 0 and 1.
\<close>

theorem efficiency_tradeoff_monotone:
  assumes "usage_le u v" "p \<le> q" "weighted_usage b v \<le> 1 \<or> 1 < weighted_usage b u"
  shows "0 \<le> score_efficiency_tradeoff v p b \<and>
         score_efficiency_tradeoff v p b \<le> score_efficiency_tradeoff u q b \<and>
         score_efficiency_tradeoff u q b \<le> 1"
proof -
  let ?w = "weighted_usage b v" and ?w' = "weighted_usage b u"
  have "?w' \<le> ?w" using assms(1) by (rule weighted_usage_mono)
  then have fr: "tradeoff_frontier ?w \<le> tradeoff_frontier ?w'"
    using assms(3) by (intro tradeoff_frontier_antimono)
  have "tradeoff_frontier ?w * tradeoff_gate p \<le> tradeoff_frontier ?w' * tradeoff_gate q"
    using fr tradeoff_gate_mono [OF assms(2)] tradeoff_gate_bounds [of p]
    by (intro mult_mono) (simp_all add: tradeoff_frontier_def)
  moreover have "0 \<le> tradeoff_frontier ?w * tradeoff_gate p"
    using tradeoff_gate_bounds [of p] by (simp add: tradeoff_frontier_def)
  moreover have "tradeoff_frontier ?w' * tradeoff_gate q \<le> 1"
    using tradeoff_gate_bounds [of q] by (intro mult_le_one) (simp_all add: tradeoff_frontier_def)
  ultimately show ?thesis
    by (simp add: score_efficiency_tradeoff_eq py_round_mono py_round_unit)
qed

definition usage_of_tokens :: "int \<Rightarrow> usage" where
  "usage_of_tokens n = \<lparr>us_tokens = n, us_cost_usd = 0, us_latency_ms = 0, us_calls = 0\<rparr>"

lemma weighted_usage_of_tokens:
  "weighted_usage [(''token_budget'', 7000)] (usage_of_tokens n) = of_int n / 20000"
  by (simp add: weighted_usage_def usage_of_tokens_def token_budget_def dict_get_def)

theorem efficiency_tradeoff_monotone_witness:
  "score_efficiency_tradeoff (usage_of_tokens 20000) (1 / 2) [(''token_budget'', 7000)]
     \<le> score_efficiency_tradeoff (usage_of_tokens 10000) 1 [(''token_budget'', 7000)]"
proof -
  have "usage_le (usage_of_tokens 10000) (usage_of_tokens 20000)"
    by (simp add: usage_le_def usage_of_tokens_def)
  from efficiency_tradeoff_monotone [OF this, of "1 / 2" 1 "[(''token_budget'', 7000)]"]
  show ?thesis by (simp add: weighted_usage_of_tokens)
qed

text \<open>
  The trade-off score is not monotone where usage crosses the budget. At full quality a
  submission that uses exactly its budget scores 0.85, and one that exceeds it by ten percent
  scores 0.94.
\<close>

theorem efficiency_tradeoff_rewards_overspending:
  assumes "weighted_usage b u = 1" "weighted_usage b v = 11 / 10"
  shows "score_efficiency_tradeoff u 1 b = 85 / 100 \<and> score_efficiency_tradeoff v 1 b = 94 / 100"
  by (simp add: score_efficiency_tradeoff_eq assms tradeoff_frontier_def tradeoff_gate_def
      clamp01_def py_round_def)

theorem efficiency_tradeoff_rewards_overspending_witness:
  "score_efficiency_tradeoff (usage_of_tokens 20000) 1 [(''token_budget'', 7000)]
     < score_efficiency_tradeoff (usage_of_tokens 22000) 1 [(''token_budget'', 7000)]"
  using efficiency_tradeoff_rewards_overspending
    [where u = "usage_of_tokens 20000" and v = "usage_of_tokens 22000" and b = "[(''token_budget'', 7000)]"]
  by (simp add: weighted_usage_of_tokens)

text \<open>
  The frontier navigation score is between 0 and 1 and never rises when more resources are
  used for the same quality.
\<close>

theorem frontier_navigation_antimono:
  assumes "usage_le u v"
  shows "0 \<le> fr_score (score_frontier_navigation v q b) \<and>
         fr_score (score_frontier_navigation v q b) \<le> fr_score (score_frontier_navigation u q b) \<and>
         fr_score (score_frontier_navigation u q b) \<le> 1"
proof -
  let ?gap = "\<lambda>x. max 0 (weighted_usage b x - max (45 / 100) (110 / 100 - 70 / 100 * clamp01 q))"
  let ?prox = "\<lambda>x. clamp01 (1 - ?gap x / (125 / 100))"
  let ?final = "\<lambda>x. if clamp01 q < 45 / 100 then ?prox x * (clamp01 q / (45 / 100)) else ?prox x"
  have "?gap u \<le> ?gap v" using weighted_usage_mono [OF assms, of b] by (intro max.mono) auto
  then have prox: "?prox v \<le> ?prox u" by (intro clamp01_mono diff_mono divide_right_mono) simp_all
  then have "?prox v * (clamp01 q / (45 / 100)) \<le> ?prox u * (clamp01 q / (45 / 100))"
    by (intro mult_right_mono) simp_all
  with prox have final: "?final v \<le> ?final u" by (cases "clamp01 q < 45 / 100") (simp_all only: if_True if_False)
  have score: "fr_score (score_frontier_navigation x q b)
      = py_round 4 (clamp01 (65 / 100 * ?final x + 35 / 100 * clamp01 q))" for x
    unfolding score_frontier_navigation_def Let_def by simp
  have "65 / 100 * ?final v + 35 / 100 * clamp01 q \<le> 65 / 100 * ?final u + 35 / 100 * clamp01 q"
    by (intro add_right_mono mult_left_mono final) simp
  then have "fr_score (score_frontier_navigation v q b) \<le> fr_score (score_frontier_navigation u q b)"
    unfolding score by (intro py_round_mono clamp01_mono)
  then show ?thesis
    unfolding score by (simp only: py_round_unit clamp01_unit)
qed

theorem frontier_navigation_antimono_witness:
  "fr_score (score_frontier_navigation (usage_of_tokens 50000) 1 [])
     \<le> fr_score (score_frontier_navigation (usage_of_tokens 3) 1 [])"
  using frontier_navigation_antimono [of "usage_of_tokens 3" "usage_of_tokens 50000" 1 "[]"]
  by (simp add: usage_le_def usage_of_tokens_def)

lemma normalized_weighted_sum_bounds:
  assumes "map fst d = map fst vs" "distinct (map fst d)" "sum_list (map snd d) = 1"
    "list_all (\<lambda>(k, v). 0 \<le> v) d" "\<forall>v \<in> set (map snd vs). lo \<le> v \<and> v \<le> hi"
  shows "lo \<le> weighted_sum (normalized_weights d ov) vs"
    and "weighted_sum (normalized_weights d ov) vs \<le> hi"
proof -
  let ?w = "normalized_weights d ov"
  have keys: "map fst ?w = map fst vs" using assms(1) by simp
  then have len: "length (map snd ?w) = length (map snd vs)" by (metis length_map)
  have eq: "weighted_sum ?w vs = sum_list (map2 (*) (map snd vs) (map snd ?w))"
    using keys assms(2) by (intro weighted_sum_map2) simp_all
  have nn: "\<forall>x \<in> set (map snd ?w). 0 \<le> x"
    using normalized_weights_nonneg [OF assms(4), of ov] by (auto simp: list_all_iff)
  have one: "sum_list (map snd ?w) = 1" using assms(3) by (rule normalized_weights_sum)
  show "lo \<le> weighted_sum ?w vs" "weighted_sum ?w vs \<le> hi"
    using weighted_sum_list [OF len nn assms(5)] one eq by simp_all
qed

text \<open>
  The AI mastery score is a weighted mean of its components. Whatever weights a profile
  overrides, a submission whose component scores all lie between two bounds in the unit interval
  gets a score between these bounds, up to the rounding.
\<close>

theorem ai_mastery_is_weighted_mean:
  assumes "0 \<le> lo" "hi \<le> 1" "list_all (\<lambda>x. lo \<le> x \<and> x \<le> hi) [f, r, p, v]"
    and "case gain of None \<Rightarrow> True | Some g \<Rightarrow> lo \<le> g \<and> g \<le> hi"
  shows "py_round 4 lo \<le> ms_score (score_ai_mastery f r p (Some v) gain w_without w_with) \<and>
         ms_score (score_ai_mastery f r p (Some v) gain w_without w_with) \<le> py_round 4 hi"
proof -
  have id: "clamp01 x = x" if "lo \<le> x" "x \<le> hi" for x
    using that assms(1,2) by (intro clamp01_id) auto
  have cl: "lo \<le> clamp01 x \<and> clamp01 x \<le> hi" if "lo \<le> x" "x \<le> hi" for x
    using id [OF that] that by simp
  let ?vs = "[(''frontier_navigation'', clamp01 f), (''reliance_calibration'', clamp01 r),
              (''prompt_quality'', clamp01 p), (''learning_velocity'', clamp01 v)]"
  show ?thesis
  proof (cases gain)
    case None
    let ?s = "weighted_sum (normalized_weights default_without w_without) ?vs"
    have bnd: "\<forall>x \<in> set (map snd ?vs). lo \<le> x \<and> x \<le> hi" using assms(3) cl by simp
    have keys: "map fst default_without = map fst ?vs" "distinct (map fst default_without)"
      by (simp_all add: default_without_def)
    have s: "lo \<le> ?s" "?s \<le> hi"
      using normalized_weighted_sum_bounds [OF keys default_weights(1,3) bnd] by auto
    have "ms_score (score_ai_mastery f r p (Some v) gain w_without w_with) = py_round 4 (clamp01 ?s)"
      unfolding score_ai_mastery_def Let_def None by simp
    then show ?thesis using id [OF s] s by (simp add: py_round_mono)
  next
    case (Some g)
    let ?us = "?vs @ [(''leverage_gain'', clamp01 g)]"
    let ?s = "weighted_sum (normalized_weights default_with w_with) ?us"
    have bnd: "\<forall>x \<in> set (map snd ?us). lo \<le> x \<and> x \<le> hi" using assms(3,4) Some cl by simp
    have keys: "map fst default_with = map fst ?us" "distinct (map fst default_with)"
      by (simp_all add: default_with_def)
    have s: "lo \<le> ?s" "?s \<le> hi"
      using normalized_weighted_sum_bounds [OF keys default_weights(2,4) bnd] by auto
    have "ms_score (score_ai_mastery f r p (Some v) gain w_without w_with) = py_round 4 (clamp01 ?s)"
      unfolding score_ai_mastery_def Let_def Some by simp
    then show ?thesis using id [OF s] s by (simp add: py_round_mono)
  qed
qed

theorem ai_mastery_is_weighted_mean_witness:
  "py_round 4 (1 / 2) \<le> ms_score (score_ai_mastery (1 / 2) (6 / 10) (8 / 10) (Some 1) (Some (7 / 10))
     None (Some [(''leverage_gain'', 5)]))"
  using ai_mastery_is_weighted_mean [of "1 / 2" 1 "1 / 2" "6 / 10" "8 / 10" 1 "Some (7 / 10)"
      None "Some [(''leverage_gain'', 5)]"] by simp

lemma perfect_no_error:
  assumes "list_all (\<lambda>(c, d). c = d \<and> d \<in> {0, 1}) pts"
  shows "sum_list (map (bucket_error n) (calibration_bins (map clip_point pts))) = 0 \<and>
    mean (map (\<lambda>(c, d). (c - d)\<^sup>2) (map clip_point pts)) = 0"
proof -
  let ?cl = "map clip_point pts"
  have pt: "fst (clip_point q) = snd (clip_point q)" if "q \<in> set pts" for q
  proof -
    have "q = (0, 0) \<or> q = (1, 1)" using assms that by (cases q) (auto simp: list_all_iff)
    then show ?thesis by (elim disjE) (simp_all add: clip_point_def)
  qed
  have cl: "fst x = snd x" if "x \<in> set ?cl" for x
    using that pt unfolding set_map by (elim imageE) simp
  have "bucket_error n (filter P ?cl) = 0" for P
  proof -
    have "map fst (filter P ?cl) = map snd (filter P ?cl)" using cl by (intro map_cong) auto
    then show ?thesis by (simp only: bucket_error_def) simp
  qed
  then have ece: "map (bucket_error n) (calibration_bins ?cl) = map (\<lambda>_. 0) [0..9]"
    by (simp only: calibration_bins_def list.map_comp comp_def)
  have brier: "map (\<lambda>(c, d). (c - d)\<^sup>2) ?cl = map (\<lambda>_. 0) ?cl"
    using cl by (intro map_cong) (auto simp: case_prod_beta)
  show ?thesis unfolding ece brier mean_def by (simp add: comp_def)
qed

text \<open>
  Confidence calibration is scored on all points: the score, the expected calibration error
  and the Brier score lie between 0 and 1, every point is counted, and a submission whose
  confidences equal its outcomes scores 1 with no error.
\<close>

theorem calibration_bounds:
  assumes "pts \<noteq> []"
  shows "case score_calibration pts of r \<Rightarrow>
     0 \<le> cal_score r \<and> cal_score r \<le> 1 \<and> cal_samples r = length pts \<and>
     (\<exists>e d. cal_ece r = Some e \<and> cal_brier r = Some d \<and> 0 \<le> e \<and> e \<le> 1 \<and> 0 \<le> d \<and> d \<le> 1) \<and>
     (list_all (\<lambda>(c, d). c = d \<and> d \<in> {0, 1}) pts \<longrightarrow>
        cal_score r = 1 \<and> cal_ece r = Some 0 \<and> cal_brier r = Some 0)"
proof -
  let ?cl = "map clip_point pts"
  let ?ece = "sum_list (map (bucket_error (length ?cl)) (calibration_bins ?cl))"
  let ?brier = "mean (map (\<lambda>(c, d). (c - d)\<^sup>2) ?cl)"
  have r: "score_calibration pts =
      \<lparr>cal_score = py_round 4 (clamp01 (1 - min 1 ((65 / 100 * ?brier + 35 / 100 * ?ece) * 2))),
       cal_ece = Some (py_round 4 ?ece), cal_brier = Some (py_round 4 ?brier),
       cal_samples = length pts, cal_method = ''ece_brier''\<rparr>"
    using assms by (simp add: score_calibration_def Let_def)
  have perfect: "?ece = 0 \<and> ?brier = 0" if all: "list_all (\<lambda>(c, d). c = d \<and> d \<in> {0, 1}) pts"
    using perfect_no_error [OF all] by blast
  have e: "0 \<le> ?ece" "?ece \<le> 1" using ece_bounds [OF assms] by simp_all
  have d: "0 \<le> ?brier" "?brier \<le> 1" using brier_bounds [OF assms] by simp_all
  have zero: "cal_score (score_calibration pts) = 1 \<and> cal_ece (score_calibration pts) = Some 0 \<and>
      cal_brier (score_calibration pts) = Some 0" if "?ece = 0 \<and> ?brier = 0"
    using that unfolding r by (simp add: clamp01_def)
  have "0 \<le> cal_score (score_calibration pts)" "cal_score (score_calibration pts) \<le> 1"
    "cal_samples (score_calibration pts) = length pts"
    "cal_ece (score_calibration pts) = Some (py_round 4 ?ece)"
    "cal_brier (score_calibration pts) = Some (py_round 4 ?brier)"
    unfolding r by (simp_all only: calibration_result.simps py_round_unit clamp01_unit)
  moreover have "0 \<le> py_round 4 ?ece" "py_round 4 ?ece \<le> 1" "0 \<le> py_round 4 ?brier" "py_round 4 ?brier \<le> 1"
    using e d by (simp_all only: py_round_unit)
  ultimately show ?thesis using perfect zero by blast
qed

theorem calibration_bounds_witness:
  "cal_score (score_calibration [(1, 1), (0, 0), (1, 1)]) = 1"
  using calibration_bounds [of "[(1, 1), (0, 0), (1, 1)]"] by simp

end
