(* ===== verification/EvalRuns.thy ===== *)
theory EvalRuns
  imports Accuracy Scoring
begin

text \<open>
  The helpers of the evaluation engine (\<open>backend/app/services/evaluation/helpers.py\<close>): what one
  sandbox run contributes (\<open>process_run\<close>), the shape check of its output, the scores over a set of
  runs, the hidden cases of a challenge, and the detectors of metric gaming and of answers written
  into the code.
\<close>

section \<open>Sandbox results and run records\<close>

text \<open>One telemetry entry of the SDK, and what a sandbox run returns.\<close>

record telemetry_call =
  tc_model :: "string option"
  tc_tokens_prompt :: int
  tc_tokens_completion :: int
  tc_tokens_total :: int
  tc_cost_usd :: rat
  tc_latency_ms :: rat
  tc_retry_index :: int

record sandbox_result =
  sr_success :: bool
  sr_output :: string
  sr_exit_code :: int
  sr_telemetry :: "telemetry_call list"
  sr_error :: "string option"

record run_record =
  rr_run_type :: string
  rr_run_index :: int
  rr_success :: bool
  rr_status :: string
  rr_accuracy :: rat
  rr_schema_valid :: bool
  rr_confidence :: "rat option"
  rr_output_chars :: int
  rr_output_hash :: "string option"
  rr_tokens_prompt :: int
  rr_tokens_completion :: int
  rr_tokens_total :: int
  rr_cost_usd :: rat
  rr_latency_ms :: rat
  rr_llm_calls :: int
  rr_retries :: int
  rr_error :: "string option"
  rr_meta :: json

definition run_pass :: "run_record \<Rightarrow> bool" where
  "run_pass r \<longleftrightarrow> rr_status r = ''pass''"

section \<open>Scores over the runs\<close>

definition pass_share :: "rat \<Rightarrow> rat list \<Rightarrow> rat" where
  "pass_share bar xs = (if xs \<noteq> [] then rate (\<lambda>s. bar \<le> s) xs else 0)"

definition score_robustness :: "rat list \<Rightarrow> rat list \<Rightarrow> rat" where
  "score_robustness perturbed adversarial =
     (let perturbed_pass = pass_share (8 / 10) perturbed;
          adversarial_pass = pass_share (7 / 10) adversarial
      in py_round 4 (perturbed_pass * (1 / 2) + adversarial_pass * (1 / 2)))"

definition score_constraint_adherence :: "run_record list \<Rightarrow> rat" where
  "score_constraint_adherence runs =
     (if runs = [] then 0
      else
        let schema_valid = rate rr_schema_valid runs;
            pass_rate = rate run_pass runs
        in py_round 4 (schema_valid * (55 / 100) + pass_rate * (45 / 100)))"

definition extract_confidence_points :: "run_record list \<Rightarrow> (rat \<times> rat) list" where
  "extract_confidence_points runs =
     List.map_filter (\<lambda>r. map_option (\<lambda>c. (c, of_bool (run_pass r))) (rr_confidence r)) runs"

definition compute_run_type_coverage :: "run_record list \<Rightarrow> rat" where
  "compute_run_type_coverage runs =
     (if runs = [] then 0
      else
        let observed = map (\<lambda>r. to_lower (strip (rr_run_type r))) runs;
            required = [''clean'', ''perturbed'', ''adversarial''];
            coverage = of_nat (length (filter (\<lambda>t. t \<in> set observed) required)) / of_nat (length required);
            coverage = (if ''hidden_clean'' \<in> set observed then min 1 (coverage + 1 / 10) else coverage)
        in py_round 4 (clamp01 coverage))"

section \<open>Diagnostics\<close>

record diagnostic_scores =
  dg_accuracy :: rat
  dg_robustness :: rat
  dg_efficiency :: rat
  dg_orchestration :: rat
  dg_calibration :: rat
  dg_frontier :: rat
  dg_reliance :: rat
  dg_leverage_gain :: rat

definition tip :: "string \<Rightarrow> string \<Rightarrow> string \<Rightarrow> json dict" where
  "tip metric severity message =
     [(''metric'', JStr metric), (''severity'', JStr severity), (''message'', JStr message)]"

definition build_diagnostics :: "diagnostic_scores \<Rightarrow> json dict list" where
  "build_diagnostics s =
     (let tips =
        (if dg_accuracy s < 85 / 100 then [tip ''accuracy'' ''high''
           ''Low clean-run correctness. Tighten extraction instructions and enforce exact output schema.''] else []) @
        (if dg_robustness s < 75 / 100 then [tip ''robustness'' ''high''
           ''Results degrade on perturbed/adversarial inputs. Add explicit normalization and missing-field handling rules.''] else []) @
        (if dg_efficiency s < 70 / 100 then [tip ''efficiency'' ''medium''
           ''Usage is above cost/latency budget frontier for achieved quality. Reduce redundant calls and compress prompt context.''] else []) @
        (if dg_orchestration s < 75 / 100 then [tip ''orchestration'' ''medium''
           ''Orchestration quality is weak. Add retry bounds, JSON validation, and explicit fallback behavior.''] else []) @
        (if dg_calibration s < 60 / 100 then [tip ''calibration'' ''low''
           ''Confidence signals are missing or miscalibrated. Emit confidence per output and calibrate thresholds.''] else []) @
        (if dg_frontier s < 65 / 100 then [tip ''frontier_navigation'' ''high''
           ''Quality is not matching resource spend. Improve prompt precision and reduce redundant context/calls.''] else []) @
        (if dg_reliance s < 65 / 100 then [tip ''reliance_calibration'' ''high''
           ''AI reliance is weakly calibrated. Add stronger output validation and bounded retry/fallback logic.''] else []) @
        (if dg_leverage_gain s \<le> 0 then [tip ''leverage_gain'' ''high''
           ''Submission is not outperforming counterfactual baseline. Improve your AI strategy before further tuning.''] else [])
      in if tips = [] then [tip ''summary'' ''low''
           ''Balanced submission: no critical weaknesses detected in this run set.''] else tips)"

section \<open>Hidden cases\<close>

record hidden_case =
  hc_name :: string
  hc_inputs :: json
  hc_ground_truth :: json
  hc_accuracy_mode :: string

definition append_hidden_cases :: "py_lib \<Rightarrow> json list \<Rightarrow> string \<Rightarrow> json \<Rightarrow> string \<Rightarrow> hidden_case list" where
  "append_hidden_cases L cases tier_name default_ground_truth default_mode =
     List.map_filter (\<lambda>(i, c).
       case c of
         JObj d \<Rightarrow>
           (case map_of d ''inputs'' of
              None \<Rightarrow> None
            | Some inputs \<Rightarrow>
                (let gt = dict_get d ''ground_truth'' default_ground_truth;
                     gt = (case gt of JList _ \<Rightarrow> JStr (lib_dumps L gt) | JObj _ \<Rightarrow> JStr (lib_dumps L gt) | _ \<Rightarrow> gt)
                 in Some \<lparr>hc_name = py_str (lib_repr L) (dict_get d ''name'' (JStr (tier_name @ ''_'' @ show_nat (i + 1)))),
                          hc_inputs = inputs, hc_ground_truth = gt,
                          hc_accuracy_mode = py_str (lib_repr L) (dict_get d ''accuracy_mode'' (JStr default_mode))\<rparr>))
       | _ \<Rightarrow> None) (enumerate 0 cases)"

definition build_hidden_cases :: "py_lib \<Rightarrow> json dict \<Rightarrow> json \<Rightarrow> string \<Rightarrow> hidden_case list" where
  "build_hidden_cases L challenge_config default_ground_truth default_mode =
     (case dict_get challenge_config ''hidden_tests'' JNull of
        JList cases \<Rightarrow> append_hidden_cases L cases ''hidden'' default_ground_truth default_mode
      | JObj tiers \<Rightarrow>
          concat (map (\<lambda>(tier_name, tier_cases).
            case tier_cases of
              JList cases \<Rightarrow> append_hidden_cases L cases tier_name default_ground_truth default_mode
            | _ \<Rightarrow> []) tiers)
      | _ \<Rightarrow> [])"

section \<open>Detectors\<close>

definition gaming_low_usage :: string where
  "gaming_low_usage = ''Potential metric gaming detected: extremely low usage plus low-quality/low-effort outputs.''"

definition gaming_repetition :: string where
  "gaming_repetition = ''Potential metric gaming detected: repetitive outputs with weak schema adherence under perturbations.''"

text \<open>The reason when gaming is detected, \<open>None\<close> for \<open>triggered: False\<close>.\<close>

definition detect_metric_gaming :: "run_record list \<Rightarrow> int \<Rightarrow> int \<Rightarrow> rat \<Rightarrow> rat \<Rightarrow> string option" where
  "detect_metric_gaming runs total_tokens total_calls accuracy robustness =
     (if runs = [] then None
      else
        let n = int (length runs);
            avg_output_chars = (of_int (sum_list (map rr_output_chars runs)) / of_int (max 1 n) :: rat);
            minimal_usage = (total_tokens \<le> max 120 (n * 20) \<and> total_calls \<le> max 1 (n div 2));
            low_quality = (accuracy < 65 / 100 \<or> robustness < 55 / 100);
            low_effort_output = (avg_output_chars < 24);
            hashes = filter (\<lambda>h. h \<noteq> []) (List.map_filter rr_output_hash runs);
            unique_ratio = (if hashes \<noteq> [] then of_nat (card (set hashes)) / of_nat (length hashes) else 1 :: rat);
            suspicious = (4 \<le> length hashes \<and> unique_ratio < 35 / 100 \<and> robustness < 6 / 10);
            low_schema_validity = (rate rr_schema_valid runs < 1 / 2)
        in if minimal_usage \<and> low_quality \<and> low_effort_output then Some gaming_low_usage
           else if suspicious \<and> low_schema_validity then Some gaming_repetition
           else None)"

fun count_gt_fragments :: "py_lib \<Rightarrow> string \<Rightarrow> json \<Rightarrow> nat"
  and count_gt_list :: "py_lib \<Rightarrow> string \<Rightarrow> json list \<Rightarrow> nat"
  and count_gt_dict :: "py_lib \<Rightarrow> string \<Rightarrow> json dict \<Rightarrow> nat" where
  "count_gt_fragments L code (JObj kvs) = count_gt_dict L code kvs"
| "count_gt_fragments L code (JList xs) = count_gt_list L code xs"
| "count_gt_fragments L code (JStr s) =
     (if length s > 5 \<and> str_in (to_lower s) code then 1 else 0)"
| "count_gt_fragments L code (JInt i) =
     (if str_in (py_str (lib_repr L) (JInt i)) code \<and> i \<noteq> 0 \<and> i \<noteq> 1 then 1 else 0)"
| "count_gt_fragments L code (JFloat r) =
     (if str_in (py_str (lib_repr L) (JFloat r)) code \<and> r \<noteq> 0 \<and> r \<noteq> 1 then 1 else 0)"
| "count_gt_fragments L code (JBool b) = 0"
| "count_gt_fragments L code JNull = 0"
| "count_gt_list L code [] = 0"
| "count_gt_list L code (x # xs) = count_gt_fragments L code x + count_gt_list L code xs"
| "count_gt_dict L code [] = 0"
| "count_gt_dict L code ((k, v) # kvs) = count_gt_fragments L code v + count_gt_dict L code kvs"

definition detect_hardcoding :: "py_lib \<Rightarrow> int \<Rightarrow> rat list \<Rightarrow> string \<Rightarrow> json \<Rightarrow> bool" where
  "detect_hardcoding L total_calls accuracies code ground_truth =
     (let mean_acc = (if accuracies \<noteq> [] then mean accuracies else 0)
      in if total_calls = 0 \<and> mean_acc > 3 / 10 then True
         else if total_calls = 0 then True
         else
           let code_lower = to_lower code;
               gt = (case ground_truth of JStr s \<Rightarrow> lib_loads L s | j \<Rightarrow> Some j);
               embedded = (case gt of None \<Rightarrow> 0
                           | Some j \<Rightarrow> if truthy j then count_gt_fragments L code_lower j else 0)
           in if 3 \<le> embedded then True
              else total_calls \<le> 1 \<and> mean_acc > 95 / 100 \<and> 5 \<le> length accuracies \<and>
                   list_all (\<lambda>a. a > 9 / 10) accuracies)"

section \<open>One run\<close>

fun validate_shape :: "json \<Rightarrow> json \<Rightarrow> bool"
  and validate_items :: "json list \<Rightarrow> json \<Rightarrow> bool"
  and validate_keys :: "json dict \<Rightarrow> json dict \<Rightarrow> bool" where
  "validate_shape got JNull = (got = JNull)"
| "validate_shape got (JBool b) = (case got of JBool _ \<Rightarrow> True | _ \<Rightarrow> False)"
| "validate_shape got (JInt i) = (case got of JInt _ \<Rightarrow> True | JFloat _ \<Rightarrow> True | _ \<Rightarrow> False)"
| "validate_shape got (JFloat r) = (case got of JInt _ \<Rightarrow> True | JFloat _ \<Rightarrow> True | _ \<Rightarrow> False)"
| "validate_shape got (JStr s) = (case got of JStr _ \<Rightarrow> True | _ \<Rightarrow> False)"
| "validate_shape got (JList expected) =
     (case got of
        JList items \<Rightarrow> (case expected of [] \<Rightarrow> True | sample # _ \<Rightarrow> validate_items items sample)
      | _ \<Rightarrow> False)"
| "validate_shape got (JObj expected) =
     (case got of JObj d \<Rightarrow> validate_keys d expected | _ \<Rightarrow> False)"
| "validate_items [] sample = True"
| "validate_items (x # xs) sample = (validate_shape x sample \<and> validate_items xs sample)"
| "validate_keys d [] = True"
| "validate_keys d ((k, e) # es) =
     (case map_of d k of None \<Rightarrow> False | Some g \<Rightarrow> validate_shape g e \<and> validate_keys d es)"

definition is_schema_valid :: "py_lib \<Rightarrow> string \<Rightarrow> string \<Rightarrow> json \<Rightarrow> bool" where
  "is_schema_valid L output accuracy_mode ground_truth =
     (if accuracy_mode \<noteq> ''json'' then strip output \<noteq> []
      else
        case (lib_loads L output,
              case ground_truth of JStr s \<Rightarrow> lib_loads L s | j \<Rightarrow> Some j) of
          (Some got, Some expected) \<Rightarrow> validate_shape got expected
        | _ \<Rightarrow> False)"

text \<open>A Boolean is a number for \<open>isinstance\<close>: its value is 0 or 1.\<close>

definition extract_confidence_value :: "py_lib \<Rightarrow> string \<Rightarrow> rat option" where
  "extract_confidence_value L output =
     (case lib_loads L output of
        Some (JObj d) \<Rightarrow>
          (case List.map_filter (\<lambda>(k, v).
               case num_of v of
                 Some r \<Rightarrow> if list_ex (\<lambda>t. str_in t (to_lower k)) [''confidence'', ''probability'', ''prob'']
                           then Some r else None
               | None \<Rightarrow> None) d of
             r # _ \<Rightarrow> Some r
           | [] \<Rightarrow> None)
      | _ \<Rightarrow> None)"

definition process_run ::
  "py_lib \<Rightarrow> sandbox_result \<Rightarrow> string \<Rightarrow> string \<Rightarrow> string \<Rightarrow> int \<Rightarrow> json \<Rightarrow> run_record" where
  "process_run L result ground_truth accuracy_mode run_type run_index meta =
     (let telemetry = sr_telemetry result;
          raw = strip (sr_output result);
          acc = (if sr_success result then score_accuracy L raw ground_truth accuracy_mode else 0);
          schema_valid = (sr_success result \<and> is_schema_valid L raw accuracy_mode (JStr ground_truth))
      in \<lparr>rr_run_type = run_type, rr_run_index = run_index, rr_success = sr_success result,
          rr_status = (if sr_success result \<and> acc \<ge> 8 / 10 \<and> schema_valid then ''pass'' else ''fail''),
          rr_accuracy = py_round 4 acc, rr_schema_valid = schema_valid,
          rr_confidence = (if sr_success result then extract_confidence_value L raw else None),
          rr_output_chars = (if sr_success result then int (length raw) else 0),
          rr_output_hash = (if sr_success result \<and> raw \<noteq> [] then Some (lib_sha256 L raw) else None),
          rr_tokens_prompt = sum_list (map tc_tokens_prompt telemetry),
          rr_tokens_completion = sum_list (map tc_tokens_completion telemetry),
          rr_tokens_total = sum_list (map tc_tokens_total telemetry),
          rr_cost_usd = py_round 6 (sum_list (map tc_cost_usd telemetry)),
          rr_latency_ms = py_round 2 (sum_list (map tc_latency_ms telemetry)),
          rr_llm_calls = int (length telemetry),
          rr_retries = int (length (filter (\<lambda>c. 0 < tc_retry_index c) telemetry)),
          rr_error = sr_error result,
          rr_meta = (if truthy meta then meta else JObj [])\<rparr>)"

section \<open>A perfect answer can fail its own schema check\<close>

lemma validate_items_all: "validate_items xs sample = list_all (\<lambda>x. validate_shape x sample) xs"
  by (induction xs) simp_all

lemma process_exact_run:
  assumes "ratio_ok (lib_ratio L)" "sr_success result" "strip (sr_output result) = answer"
    and "lib_loads L answer = Some j" "answer_wf j"
  shows "rr_accuracy (process_run L result answer ''json'' t i meta) = 1"
    and "rr_status (process_run L result answer ''json'' t i meta) = (if validate_shape j j then ''pass'' else ''fail'')"
proof -
  have "score_accuracy L answer answer ''json'' = 1"
    using list_accuracy_self [OF assms(1)] assms(4,5)
    by (cases j) (simp_all add: score_accuracy_def json_accuracy_def answer_wf_def item_wf_def
        dict_accuracy_self scalar_eq_def num_of_def)
  then show "rr_accuracy (process_run L result answer ''json'' t i meta) = 1"
    "rr_status (process_run L result answer ''json'' t i meta) = (if validate_shape j j then ''pass'' else ''fail'')"
    using assms(2-4) by (simp_all add: process_run_def Let_def is_schema_valid_def)
qed

text \<open>
  A run whose output is exactly the expected list scores accuracy 1 but passes only if every
  item has the shape of the first one: the shape check takes the first expected item as the
  pattern of all. A ground truth that is not uniform, such as a list that starts with null and
  goes on with texts, can be passed by no answer that is equal to it.
\<close>

theorem exact_list_answer_status:
  assumes "ratio_ok (lib_ratio L)" "sr_success result" "strip (sr_output result) = answer"
    and "lib_loads L answer = Some (JList (x # xs))" "answer_wf (JList (x # xs))"
  shows "rr_accuracy (process_run L result answer ''json'' t i meta) = 1 \<and>
    rr_status (process_run L result answer ''json'' t i meta)
      = (if list_all (\<lambda>y. validate_shape y x) (x # xs) then ''pass'' else ''fail'')"
  using process_exact_run [OF assms] by (simp add: validate_items_all)

definition null_first_lib :: py_lib where
  "null_first_lib = sample_lib\<lparr>lib_loads := (\<lambda>_. Some (JList [JNull, JStr ''a'']))\<rparr>"

theorem exact_list_answer_status_witness:
  "case process_run null_first_lib
     \<lparr>sr_success = True, sr_output = ''out'', sr_exit_code = 0, sr_telemetry = [], sr_error = None\<rparr>
     ''out'' ''json'' ''clean'' 0 JNull of r \<Rightarrow> rr_accuracy r = 1 \<and> rr_status r = ''fail''"
proof -
  let ?res = "\<lparr>sr_success = True, sr_output = ''out'', sr_exit_code = 0, sr_telemetry = [], sr_error = None\<rparr>"
  have ratio: "ratio_ok (lib_ratio null_first_lib)"
    using sample_ratio_ok by (simp add: null_first_lib_def)
  have "strip ''out'' = ''out''" by code_simp
  then have "rr_accuracy (process_run null_first_lib ?res ''out'' ''json'' ''clean'' 0 JNull) = 1 \<and>
    rr_status (process_run null_first_lib ?res ''out'' ''json'' ''clean'' 0 JNull)
      = (if list_all (\<lambda>y. validate_shape y JNull) [JNull, JStr ''a''] then ''pass'' else ''fail'')"
    using ratio by (intro exact_list_answer_status) (simp_all add: null_first_lib_def answer_wf_def item_wf_def)
  then show ?thesis by simp
qed

end
