(* ===== verification/EvalReporting.thy ===== *)
theory EvalReporting
  imports EvalRuns "HOL-Library.Multiset" "HOL-Library.List_Lexorder"
begin

text \<open>
  Confidence, caps and usage (\<open>backend/app/services/evaluation/reporting.py\<close>): the confidence
  intervals of the accuracies and of the pass rate, the credibility of a score, the caps on the
  overall score, and the usage by model and by type of run. The square root is an argument. The
  hashed manifest is not modelled.
\<close>

section \<open>Confidence intervals\<close>

record interval =
  iv_n :: int
  iv_centre :: rat
  iv_lower :: rat
  iv_upper :: rat
  iv_half_width :: rat

definition mean_confidence_interval :: "(rat \<Rightarrow> rat) \<Rightarrow> rat list \<Rightarrow> interval" where
  "mean_confidence_interval sqrt_f values' =
     (if values' = [] then \<lparr>iv_n = 0, iv_centre = 0, iv_lower = 0, iv_upper = 0, iv_half_width = 0\<rparr>
      else
        let n = length values';
            m = sum_list values' / of_nat n;
            variance = sum_list (map (\<lambda>v. (v - m) * (v - m)) values') / of_nat n;
            half = (196 / 100) * (sqrt_f variance / sqrt_f (of_nat n));
            lower = (if n = 1 then m else max 0 (m - half));
            upper = (if n = 1 then m else min 1 (m + half))
        in \<lparr>iv_n = int n, iv_centre = py_round 4 m, iv_lower = py_round 4 lower,
            iv_upper = py_round 4 upper, iv_half_width = py_round 4 ((upper - lower) / 2)\<rparr>)"

definition proportion_confidence_interval :: "(rat \<Rightarrow> rat) \<Rightarrow> int \<Rightarrow> int \<Rightarrow> interval" where
  "proportion_confidence_interval sqrt_f successes trials =
     (if trials \<le> 0 then \<lparr>iv_n = 0, iv_centre = 0, iv_lower = 0, iv_upper = 0, iv_half_width = 0\<rparr>
      else
        let z = 196 / 100;
            t = of_int trials;
            p = of_int successes / t;
            denom = 1 + z * z / t;
            center = (p + z * z / (2 * t)) / denom;
            margin = z * sqrt_f (p * (1 - p) / t + z * z / (4 * (t * t))) / denom;
            lower = max 0 (center - margin);
            upper = min 1 (center + margin)
        in \<lparr>iv_n = trials, iv_centre = py_round 4 p, iv_lower = py_round 4 lower,
            iv_upper = py_round 4 upper, iv_half_width = py_round 4 ((upper - lower) / 2)\<rparr>)"

definition normalize_leverage_gain :: "rat \<Rightarrow> rat" where
  "normalize_leverage_gain gain = clamp01 ((gain + 10 / 100) / (40 / 100))"

section \<open>Credibility\<close>

record credibility_input =
  cr_prompt_judge_method :: string
  cr_calibration_samples :: int
  cr_run_count :: int
  cr_hidden_set_count :: int
  cr_run_type_coverage :: rat
  cr_counterfactual_status :: string
  cr_anti_gaming :: bool
  cr_hardcoded :: bool
  cr_half_width :: rat

datatype credibility_band = CredHigh | CredMedium | CredLow

definition credibility_raw :: "credibility_input \<Rightarrow> rat" where
  "credibility_raw c =
     (if cr_prompt_judge_method c = ''llm_judge'' then 22 / 100 else 10 / 100) +
     min (15 / 100) (of_int (max 0 (cr_calibration_samples c)) / 12 * (15 / 100)) +
     min (15 / 100) (of_int (max 0 (cr_run_count c)) / 8 * (15 / 100)) +
     (if cr_hidden_set_count c > 0 then 10 / 100 else 3 / 100) +
     clamp01 (cr_run_type_coverage c) * (8 / 100) +
     (if cr_counterfactual_status c = ''ok'' then 15 / 100
      else if cr_counterfactual_status c = ''disabled'' then 6 / 100 else 3 / 100) +
     clamp01 (1 - max 0 (cr_half_width c) / (20 / 100)) * (13 / 100) -
     (if cr_anti_gaming c then 25 / 100 else 0) -
     (if cr_hardcoded c then 50 / 100 else 0)"

definition compute_credibility :: "credibility_input \<Rightarrow> rat \<times> credibility_band" where
  "compute_credibility c =
     (let bounded = clamp01 (credibility_raw c)
      in (py_round 4 bounded,
          if bounded \<ge> 75 / 100 then CredHigh else if bounded \<ge> 55 / 100 then CredMedium else CredLow))"

section \<open>Caps on the overall score\<close>

definition apply_cap :: "bool \<Rightarrow> rat \<Rightarrow> string \<Rightarrow> rat \<times> (rat \<times> string) list \<Rightarrow> rat \<times> (rat \<times> string) list" where
  "apply_cap condition cap reason s =
     (if condition then (min (fst s) cap, snd s @ [(cap, reason)]) else s)"

definition apply_overall_caps :: "rat \<Rightarrow> rat \<Rightarrow> rat \<Rightarrow> bool \<Rightarrow> rat \<times> (rat \<times> string) list" where
  "apply_overall_caps raw_overall accuracy rule_adherence anti_gaming_triggered =
     (let s = (raw_overall, []);
          s = apply_cap (accuracy < 40 / 100) (55 / 100) ''accuracy_below_0.40'' s;
          s = apply_cap (rule_adherence < 50 / 100) (50 / 100) ''rule_adherence_below_0.50'' s;
          s = apply_cap anti_gaming_triggered (45 / 100) ''anti_gaming_triggered'' s
      in (py_round 4 (fst s), snd s))"

definition apply_confidence_caps :: "rat \<Rightarrow> string \<Rightarrow> int \<Rightarrow> rat \<Rightarrow> rat \<times> (rat \<times> string) list" where
  "apply_confidence_caps overall prompt_judge_method calibration_samples half_width =
     (let s = (overall, []);
          s = apply_cap (prompt_judge_method \<noteq> ''llm_judge'') (78 / 100) ''prompt_judge_not_llm'' s;
          s = (if half_width \<ge> 20 / 100
               then apply_cap True (70 / 100) ''run_accuracy_ci_half_width_ge_0.20'' s
               else apply_cap (half_width \<ge> 15 / 100) (76 / 100) ''run_accuracy_ci_half_width_ge_0.15'' s);
          s = (if calibration_samples \<le> 1
               then apply_cap True (80 / 100) ''calibration_samples_le_1'' s
               else apply_cap (calibration_samples \<le> 3) (84 / 100) ''calibration_samples_le_3'' s)
      in (py_round 4 (fst s), snd s))"

section \<open>Usage by model and by run type\<close>

record model_stats =
  mo_model :: string
  mo_calls :: int
  mo_retries :: int
  mo_prompt_tokens :: int
  mo_completion_tokens :: int
  mo_total_tokens :: int
  mo_cost_usd :: rat
  mo_latency_ms :: rat

record run_type_stats =
  rt_run_type :: string
  rt_runs :: int
  rt_passes :: int
  rt_llm_calls :: int
  rt_tokens_total :: int
  rt_cost_usd :: rat
  rt_latency_ms :: rat

definition call_total :: "telemetry_call \<Rightarrow> int" where
  "call_total c =
     (if tc_tokens_total c \<noteq> 0 then tc_tokens_total c else tc_tokens_prompt c + tc_tokens_completion c)"

definition call_model :: "telemetry_call \<Rightarrow> string" where
  "call_model c = (case tc_model c of Some (x # xs) \<Rightarrow> x # xs | _ \<Rightarrow> ''unknown'')"

text \<open>\<open>if key not in stats: stats[key] = zero\<close>, then the entry is updated.\<close>

fun upsert_stat :: "('s \<Rightarrow> string) \<Rightarrow> string \<Rightarrow> 's \<Rightarrow> ('s \<Rightarrow> 's) \<Rightarrow> 's list \<Rightarrow> 's list" where
  "upsert_stat key k zero f [] = [f zero]"
| "upsert_stat key k zero f (s # ss) = (if key s = k then f s # ss else s # upsert_stat key k zero f ss)"

definition add_call :: "telemetry_call \<Rightarrow> model_stats \<Rightarrow> model_stats" where
  "add_call c m =
     m\<lparr>mo_calls := mo_calls m + 1,
       mo_retries := mo_retries m + of_bool (0 < tc_retry_index c),
       mo_prompt_tokens := mo_prompt_tokens m + tc_tokens_prompt c,
       mo_completion_tokens := mo_completion_tokens m + tc_tokens_completion c,
       mo_total_tokens := mo_total_tokens m + call_total c,
       mo_cost_usd := mo_cost_usd m + tc_cost_usd c,
       mo_latency_ms := mo_latency_ms m + tc_latency_ms c\<rparr>"

definition zero_model :: "string \<Rightarrow> model_stats" where
  "zero_model model =
     \<lparr>mo_model = model, mo_calls = 0, mo_retries = 0, mo_prompt_tokens = 0, mo_completion_tokens = 0,
      mo_total_tokens = 0, mo_cost_usd = 0, mo_latency_ms = 0\<rparr>"

definition model_usage :: "telemetry_call list \<Rightarrow> model_stats list" where
  "model_usage calls =
     foldl (\<lambda>ss c. upsert_stat mo_model (call_model c) (zero_model (call_model c)) (add_call c) ss) [] calls"

definition run_type_key :: "run_record \<Rightarrow> string" where
  "run_type_key r = (if rr_run_type r \<noteq> [] then rr_run_type r else ''unknown'')"

definition zero_run_type :: "string \<Rightarrow> run_type_stats" where
  "zero_run_type t =
     \<lparr>rt_run_type = t, rt_runs = 0, rt_passes = 0, rt_llm_calls = 0, rt_tokens_total = 0,
      rt_cost_usd = 0, rt_latency_ms = 0\<rparr>"

definition add_run :: "run_record \<Rightarrow> run_type_stats \<Rightarrow> run_type_stats" where
  "add_run r s =
     s\<lparr>rt_runs := rt_runs s + 1,
       rt_passes := rt_passes s + of_bool (run_pass r),
       rt_llm_calls := rt_llm_calls s + rr_llm_calls r,
       rt_tokens_total := rt_tokens_total s + rr_tokens_total r,
       rt_cost_usd := rt_cost_usd s + rr_cost_usd r,
       rt_latency_ms := rt_latency_ms s + rr_latency_ms r\<rparr>"

definition run_type_usage :: "run_record list \<Rightarrow> run_type_stats list" where
  "run_type_usage runs =
     foldl (\<lambda>ss r. upsert_stat rt_run_type (run_type_key r) (zero_run_type (run_type_key r)) (add_run r) ss) [] runs"

record usage_breakdown =
  ub_calls :: int
  ub_retries :: int
  ub_prompt_tokens :: int
  ub_completion_tokens :: int
  ub_total_tokens :: int
  ub_cost_usd :: rat
  ub_latency_ms :: rat
  ub_avg_tokens_per_call :: rat
  ub_avg_latency_ms :: rat
  ub_avg_cost_per_call :: rat
  ub_models :: "(model_stats \<times> rat \<times> rat) list"
  ub_run_types :: "(run_type_stats \<times> rat) list"

definition round_model :: "model_stats \<Rightarrow> model_stats \<times> rat \<times> rat" where
  "round_model m =
     (m\<lparr>mo_cost_usd := py_round 6 (mo_cost_usd m), mo_latency_ms := py_round 2 (mo_latency_ms m)\<rparr>,
      py_round 2 (of_int (mo_total_tokens m) / of_int (max 1 (mo_calls m))),
      py_round 2 (mo_latency_ms m / of_int (max 1 (mo_calls m))))"

definition round_run_type :: "run_type_stats \<Rightarrow> run_type_stats \<times> rat" where
  "round_run_type r =
     (r\<lparr>rt_cost_usd := py_round 6 (rt_cost_usd r), rt_latency_ms := py_round 2 (rt_latency_ms r)\<rparr>,
      py_round 4 (of_int (rt_passes r) / of_int (max 1 (rt_runs r))))"

text \<open>
  \<open>sorted(..., reverse=True)\<close> keeps the order of equal elements: it is the stable sort by the
  negated key. Run types are sorted by their name.
\<close>

definition build_usage_breakdown :: "telemetry_call list \<Rightarrow> run_record list \<Rightarrow> usage_breakdown" where
  "build_usage_breakdown calls runs =
     (let n = int (length calls);
          total = sum_list (map call_total calls);
          cost = sum_list (map tc_cost_usd calls);
          latency = sum_list (map tc_latency_ms calls);
          per_call = of_int (max 1 n)
      in \<lparr>ub_calls = n,
          ub_retries = int (length (filter (\<lambda>c. 0 < tc_retry_index c) calls)),
          ub_prompt_tokens = sum_list (map tc_tokens_prompt calls),
          ub_completion_tokens = sum_list (map tc_tokens_completion calls),
          ub_total_tokens = total,
          ub_cost_usd = py_round 6 cost, ub_latency_ms = py_round 2 latency,
          ub_avg_tokens_per_call = py_round 2 (of_int total / per_call),
          ub_avg_latency_ms = py_round 2 (latency / per_call),
          ub_avg_cost_per_call = py_round 6 (cost / per_call),
          ub_models = sort_key (\<lambda>m. - mo_cost_usd (fst m)) (map round_model (model_usage calls)),
          ub_run_types = sort_key (\<lambda>r. rt_run_type (fst r)) (map round_run_type (run_type_usage runs))\<rparr>)"

section \<open>Usage adds up\<close>

lemma upsert_stat_keys:
  assumes "key (f zero) = k" "\<And>s. key (f s) = key s"
  shows "set (map key (upsert_stat key k zero f ss)) = insert k (set (map key ss))"
    and "distinct (map key ss) \<Longrightarrow> distinct (map key (upsert_stat key k zero f ss))"
proof -
  show keys: "set (map key (upsert_stat key k zero f ss)) = insert k (set (map key ss))" for ss
    using assms by (induction ss) auto
  show "distinct (map key ss) \<Longrightarrow> distinct (map key (upsert_stat key k zero f ss))"
  proof (induction ss)
    case Nil
    then show ?case by simp
  next
    case (Cons s ss)
    show ?case
    proof (cases "key s = k")
      case True
      then show ?thesis using Cons.prems assms by simp
    next
      case False
      have "key s \<notin> set (map key (upsert_stat key k zero f ss))"
        unfolding keys using Cons.prems False by simp
      then show ?thesis using False Cons by simp
    qed
  qed
qed

lemma upsert_stat_sum:
  fixes v :: "'s \<Rightarrow> 'a::comm_monoid_add"
  assumes "v zero = 0" "\<And>s. v (f s) = v s + d"
  shows "sum_list (map v (upsert_stat key k zero f ss)) = sum_list (map v ss) + d"
  using assms by (induction ss) (simp_all add: ac_simps)

lemma foldl_stat_sum:
  fixes v :: "'s \<Rightarrow> 'a::comm_monoid_add"
  assumes "\<And>c. v (zero c) = 0" "\<And>c s. v (f c s) = v s + d c"
  shows "sum_list (map v (foldl (\<lambda>ss c. upsert_stat key (k c) (zero c) (f c) ss) ss cs))
       = sum_list (map v ss) + sum_list (map d cs)"
proof (induction cs arbitrary: ss)
  case Nil
  then show ?case by simp
next
  case (Cons c cs)
  then show ?case by (simp add: upsert_stat_sum [where v = v and d = "d c"] assms add.assoc)
qed

lemma foldl_stat_distinct:
  assumes "\<And>c. key (f c (zero c)) = k c" "\<And>c s. key (f c s) = key s"
  shows "distinct (map key ss) \<Longrightarrow>
         distinct (map key (foldl (\<lambda>ss c. upsert_stat key (k c) (zero c) (f c) ss) ss cs))"
proof (induction cs arbitrary: ss)
  case Nil
  then show ?case by simp
next
  case (Cons c cs)
  have "distinct (map key (upsert_stat key (k c) (zero c) (f c) ss))"
    using assms Cons.prems by (intro upsert_stat_keys(2)) simp_all
  then show ?case using Cons.IH by simp
qed

lemma model_usage_sum:
  fixes v :: "model_stats \<Rightarrow> 'a::comm_monoid_add"
  assumes "\<And>m. v (zero_model m) = 0" "\<And>c s. v (add_call c s) = v s + d c"
  shows "sum_list (map v (model_usage calls)) = sum_list (map d calls)"
  unfolding model_usage_def using assms
  by (subst foldl_stat_sum [where v = v and d = d]) simp_all

lemma run_type_usage_sum:
  fixes v :: "run_type_stats \<Rightarrow> 'a::comm_monoid_add"
  assumes "\<And>m. v (zero_run_type m) = 0" "\<And>c s. v (add_run c s) = v s + d c"
  shows "sum_list (map v (run_type_usage runs)) = sum_list (map d runs)"
  unfolding run_type_usage_def using assms
  by (subst foldl_stat_sum [where v = v and d = d]) simp_all

lemma sum_list_sort_key:
  fixes v :: "'a \<Rightarrow> 'b::comm_monoid_add"
  shows "sum_list (map v (sort_key k xs)) = sum_list (map v xs)"
  by (metis mset_map mset_sort sum_mset_sum_list)

lemma length_filter_sum: "int (length (filter P xs)) = sum_list (map (\<lambda>x. of_bool (P x)) xs)"
  by (induction xs) simp_all

lemma length_sum: "int (length xs) = sum_list (map (\<lambda>x. 1) xs)"
  by (induction xs) simp_all

lemma sort_key_distinct: "distinct (map f (sort_key k xs)) = distinct (map f xs)"
  by (metis mset_map mset_sort mset_eq_imp_distinct_iff)

text \<open>
  The usage report adds up: the models are listed once each, most expensive first, the run
  types once each by name, and the calls, retries and tokens of the models and the runs of the run
  types sum to the totals.
\<close>

theorem usage_breakdown_adds_up:
  "case build_usage_breakdown calls runs of u \<Rightarrow>
     sum_list (map (\<lambda>m. mo_calls (fst m)) (ub_models u)) = ub_calls u \<and>
     sum_list (map (\<lambda>m. mo_retries (fst m)) (ub_models u)) = ub_retries u \<and>
     sum_list (map (\<lambda>m. mo_prompt_tokens (fst m)) (ub_models u)) = ub_prompt_tokens u \<and>
     sum_list (map (\<lambda>m. mo_total_tokens (fst m)) (ub_models u)) = ub_total_tokens u \<and>
     distinct (map (\<lambda>m. mo_model (fst m)) (ub_models u)) \<and>
     sorted (rev (map (\<lambda>m. mo_cost_usd (fst m)) (ub_models u))) \<and>
     sum_list (map (\<lambda>r. rt_runs (fst r)) (ub_run_types u)) = int (length runs) \<and>
     sum_list (map (\<lambda>r. rt_passes (fst r)) (ub_run_types u)) = int (length (filter run_pass runs)) \<and>
     distinct (map (\<lambda>r. rt_run_type (fst r)) (ub_run_types u)) \<and>
     sorted (map (\<lambda>r. rt_run_type (fst r)) (ub_run_types u))"
proof -
  note d = build_usage_breakdown_def Let_def sum_list_sort_key comp_def round_model_def round_run_type_def
  let ?u = "build_usage_breakdown calls runs"
  have "sum_list (map (\<lambda>m. mo_calls (fst m)) (ub_models ?u)) = ub_calls ?u"
    using model_usage_sum [of mo_calls "\<lambda>_. 1" calls] by (simp add: d length_sum zero_model_def add_call_def)
  moreover have "sum_list (map (\<lambda>m. mo_retries (fst m)) (ub_models ?u)) = ub_retries ?u"
    using model_usage_sum [of mo_retries "\<lambda>c. of_bool (0 < tc_retry_index c)" calls]
    by (simp add: d length_filter_sum zero_model_def add_call_def)
  moreover have "sum_list (map (\<lambda>m. mo_prompt_tokens (fst m)) (ub_models ?u)) = ub_prompt_tokens ?u"
    using model_usage_sum [of mo_prompt_tokens tc_tokens_prompt calls]
    by (simp add: d zero_model_def add_call_def)
  moreover have "sum_list (map (\<lambda>m. mo_total_tokens (fst m)) (ub_models ?u)) = ub_total_tokens ?u"
    using model_usage_sum [of mo_total_tokens call_total calls]
    by (simp add: d zero_model_def add_call_def)
  moreover have "distinct (map (\<lambda>m. mo_model (fst m)) (ub_models ?u))"
    using foldl_stat_distinct [of mo_model add_call "\<lambda>c. zero_model (call_model c)" call_model "[]" calls]
    by (simp add: d sort_key_distinct model_usage_def zero_model_def add_call_def)
  moreover have "sorted (rev (map (\<lambda>m. mo_cost_usd (fst m)) (ub_models ?u)))"
  proof -
    have "sorted (map (\<lambda>m. - mo_cost_usd (fst m)) (ub_models ?u))" by (simp add: build_usage_breakdown_def Let_def)
    then show ?thesis by (simp add: sorted_wrt_rev sorted_wrt_map)
  qed
  moreover have "sum_list (map (\<lambda>r. rt_runs (fst r)) (ub_run_types ?u)) = int (length runs)"
    using run_type_usage_sum [of rt_runs "\<lambda>_. 1" runs] by (simp add: d length_sum zero_run_type_def add_run_def)
  moreover have "sum_list (map (\<lambda>r. rt_passes (fst r)) (ub_run_types ?u)) = int (length (filter run_pass runs))"
    using run_type_usage_sum [of rt_passes "\<lambda>r. of_bool (run_pass r)" runs]
    by (simp add: d length_filter_sum zero_run_type_def add_run_def)
  moreover have "distinct (map (\<lambda>r. rt_run_type (fst r)) (ub_run_types ?u))"
    using foldl_stat_distinct [of rt_run_type add_run "\<lambda>r. zero_run_type (run_type_key r)" run_type_key "[]" runs]
    by (simp add: d sort_key_distinct run_type_usage_def zero_run_type_def add_run_def)
  moreover have "sorted (map (\<lambda>r. rt_run_type (fst r)) (ub_run_types ?u))"
    by (simp add: build_usage_breakdown_def Let_def)
  ultimately show ?thesis by simp
qed

section \<open>Caps and credibility\<close>

definition caps_hold :: "rat \<times> (rat \<times> string) list \<Rightarrow> bool" where
  "caps_hold s \<longleftrightarrow> list_all (\<lambda>(cap, _). fst s \<le> cap) (snd s)"

lemma apply_cap_le: "fst (apply_cap b c r s) \<le> fst s"
  by (simp add: apply_cap_def)

lemma apply_cap_holds: "caps_hold s \<Longrightarrow> caps_hold (apply_cap b c r s)"
  by (auto simp: caps_hold_def apply_cap_def list_all_iff)

lemma apply_cap_unit: "0 \<le> c \<Longrightarrow> 0 \<le> fst s \<Longrightarrow> 0 \<le> fst (apply_cap b c r s)"
  by (simp add: apply_cap_def)

lemma apply_cap_events: "set (snd (apply_cap b c r s)) \<subseteq> set (snd s) \<union> {(c, r)}"
  by (auto simp: apply_cap_def)

lemma credibility_le_98: "credibility_raw c \<le> 98 / 100 - (if cr_anti_gaming c then 25 / 100 else 0)
      - (if cr_hardcoded c then 50 / 100 else 0)"
proof -
  have sum: "a + b + d + e + f + g + h - i - j \<le> 98 / 100 - i - j"
    if "a \<le> 22 / 100" "b \<le> 15 / 100" "d \<le> 15 / 100" "e \<le> 10 / 100" "f \<le> 8 / 100" "g \<le> 15 / 100"
      "h \<le> 13 / 100" for a b d e f g h i j :: rat
    using that by simp
  show ?thesis
    unfolding credibility_raw_def
  proof (rule sum)
    show "clamp01 (cr_run_type_coverage c) * (8 / 100) \<le> 8 / 100"
      using clamp01_unit(2) [of "cr_run_type_coverage c"] by simp
    show "clamp01 (1 - max 0 (cr_half_width c) / (20 / 100)) * (13 / 100) \<le> 13 / 100"
      using clamp01_unit(2) [of "1 - max 0 (cr_half_width c) / (20 / 100)"] by simp
  qed simp_all
qed

lemma hardcoded_not_credible: "cr_hardcoded c \<Longrightarrow> fst (compute_credibility c) \<le> 48 / 100"
proof -
  assume "cr_hardcoded c"
  then have "credibility_raw c \<le> 48 / 100" using credibility_le_98 [of c] by (auto split: if_splits)
  then have "clamp01 (credibility_raw c) \<le> clamp01 (48 / 100)" by (rule clamp01_mono)
  then have "py_round 4 (clamp01 (credibility_raw c)) \<le> py_round 4 (clamp01 (48 / 100))" by (rule py_round_mono)
  also have "\<dots> = 48 / 100" by code_simp
  finally show ?thesis by (simp add: compute_credibility_def Let_def)
qed

end
