(* ===== verification/WeightProfile.thy ===== *)
theory WeightProfile
  imports PyValues Scoring
begin

text \<open>
  The weight profile of the leverage scores
  (\<open>backend/app/services/evaluation/weight_profile.py\<close>): the approved profile is read from a file,
  checked against its lock file, and normalised; any fault falls back to the static defaults. A
  file is what reading and parsing it gives; the digest of a profile is an argument.
\<close>

datatype json_file = MissingFile | UnparsableFile | ParsedFile json

record weight_profile =
  wp_version :: string
  wp_method :: string
  wp_without_baseline :: "rat dict"
  wp_with_baseline :: "rat dict"
  wp_future_readiness :: "rat dict"

definition default_readiness :: "rat dict" where
  "default_readiness =
     [(''verification_discipline'', 35 / 100), (''efficient_leverage'', 30 / 100),
      (''adaptation_speed'', 20 / 100), (''evaluation_rigor'', 15 / 100)]"

definition default_profile :: weight_profile where
  "default_profile =
     \<lparr>wp_version = ''static_v1'', wp_method = ''static_defaults'',
      wp_without_baseline = default_without, wp_with_baseline = default_with,
      wp_future_readiness = default_readiness\<rparr>"

definition profile_hash :: "(json \<Rightarrow> string) \<Rightarrow> (json dict \<Rightarrow> string) \<Rightarrow> json dict \<Rightarrow> string" where
  "profile_hash py_repr sha256 raw =
     sha256
       [(''version'', JStr (py_str py_repr (py_or (dict_get raw ''version'' JNull) (JStr [])))),
        (''ai_mastery_without_baseline'', dict_get raw ''ai_mastery_without_baseline'' JNull),
        (''ai_mastery_with_baseline'', dict_get raw ''ai_mastery_with_baseline'' JNull),
        (''future_readiness'', dict_get raw ''future_readiness'' JNull)]"

text \<open>The weight of a key: the file's value floored at zero, the default where it is no number.\<close>

definition weight_value :: "json dict \<Rightarrow> string \<times> rat \<Rightarrow> rat" where
  "weight_value raw kd =
     (case py_float (dict_get raw (fst kd) (JFloat (snd kd))) of
        Inl _ \<Rightarrow> snd kd
      | Inr w \<Rightarrow> max 0 w)"

definition normalize_weights :: "json \<Rightarrow> rat dict \<Rightarrow> rat dict" where
  "normalize_weights raw dflt =
     (case raw of
        JObj d \<Rightarrow>
          (let values' = map (\<lambda>kd. (fst kd, weight_value d kd)) dflt;
               total = sum_list (map snd values')
           in if total \<le> 0 then dflt
              else map (\<lambda>kv. (fst kv, py_round 6 (snd kv / total))) values')
      | _ \<Rightarrow> dflt)"

datatype freeze_verdict =
    FreezePass string string
  | ProfileMissing | LockMissing | ProfileParseError | LockParseError | LockNotApproved
  | VersionMismatch string string | HashMismatch string string
  | FreezeRaised py_exc

definition validate_weight_profile_freeze ::
  "(json \<Rightarrow> string) \<Rightarrow> (json dict \<Rightarrow> string) \<Rightarrow> json_file \<Rightarrow> json_file \<Rightarrow> freeze_verdict" where
  "validate_weight_profile_freeze py_repr sha256 profile lock =
     (if profile = MissingFile then ProfileMissing
      else if lock = MissingFile then LockMissing
      else case profile of
        ParsedFile raw_profile \<Rightarrow>
          (case lock of
             ParsedFile raw_lock \<Rightarrow>
               (case as_dict raw_lock of
                  Inl e \<Rightarrow> FreezeRaised e
                | Inr lockd \<Rightarrow>
                    if \<not> truthy (dict_get lockd ''approved'' JNull) then LockNotApproved
                    else case as_dict raw_profile of
                      Inl e \<Rightarrow> FreezeRaised e
                    | Inr prof \<Rightarrow>
                       (let approved = py_str py_repr (py_or (dict_get lockd ''approved_version'' JNull) (JStr []));
                            version = py_str py_repr (py_or (dict_get prof ''version'' JNull) (JStr []))
                        in if approved = [] \<or> approved \<noteq> version then VersionMismatch approved version
                           else
                             let expected = py_str py_repr (py_or (dict_get lockd ''profile_sha256'' JNull) (JStr []));
                                 actual = profile_hash py_repr sha256 prof
                             in if expected = [] \<or> expected \<noteq> actual then HashMismatch expected actual
                                else FreezePass version actual))
           | _ \<Rightarrow> LockParseError)
      | _ \<Rightarrow> ProfileParseError)"

definition get_weight_profile ::
  "(json \<Rightarrow> string) \<Rightarrow> (json dict \<Rightarrow> string) \<Rightarrow> bool \<Rightarrow> json_file \<Rightarrow> json_file \<Rightarrow> py_exc + weight_profile" where
  "get_weight_profile py_repr sha256 enforce_lock profile lock =
     (case profile of
        MissingFile \<Rightarrow> Inr default_profile
      | _ \<Rightarrow>
        (let freeze = validate_weight_profile_freeze py_repr sha256 profile lock
         in case (enforce_lock, freeze) of
              (True, FreezeRaised e) \<Rightarrow> Inl e
            | _ \<Rightarrow>
              if enforce_lock \<and> \<not> (case freeze of FreezePass _ _ \<Rightarrow> True | _ \<Rightarrow> False)
              then Inr default_profile
              else case profile of
                ParsedFile raw \<Rightarrow>
                  bind (as_dict raw) (\<lambda>d.
                    Inr \<lparr>wp_version = py_str py_repr (py_or (dict_get d ''version'' JNull) (JStr (wp_version default_profile))),
                         wp_method = py_str py_repr (py_or (dict_get d ''method'' JNull) (JStr ''profile_file'')),
                         wp_without_baseline = normalize_weights (dict_get d ''ai_mastery_without_baseline'' JNull) default_without,
                         wp_with_baseline = normalize_weights (dict_get d ''ai_mastery_with_baseline'' JNull) default_with,
                         wp_future_readiness = normalize_weights (dict_get d ''future_readiness'' JNull) default_readiness\<rparr>)
              | _ \<Rightarrow> Inr default_profile))"

section \<open>Lemmas\<close>

lemma default_readiness_sum [simp]:
  "sum_list (map snd default_readiness) = 1" "list_all (\<lambda>kv. 0 \<le> snd kv) default_readiness"
  by (simp_all add: default_readiness_def)

lemma weight_value_nonneg: "0 \<le> snd kd \<Longrightarrow> 0 \<le> weight_value raw kd"
  by (simp add: weight_value_def split: sum.split)

lemma normalize_weights_keys: "map fst (normalize_weights raw dflt) = map fst dflt"
  by (simp add: normalize_weights_def Let_def comp_def split: json.split)

lemma normalize_weights_unit:
  assumes "list_all (\<lambda>kv. 0 \<le> snd kv) dflt" "list_all (\<lambda>kv. snd kv \<le> 1) dflt"
  shows "list_all (\<lambda>kv. 0 \<le> snd kv \<and> snd kv \<le> 1) (normalize_weights raw dflt)"
proof (cases raw)
  case (JObj d)
  let ?vs = "map (\<lambda>kd. (fst kd, weight_value d kd)) dflt"
  let ?total = "sum_list (map snd ?vs)"
  have nn: "\<forall>v \<in> set (map snd ?vs). 0 \<le> v"
    using assms(1) by (auto simp: list_all_iff intro: weight_value_nonneg)
  have le: "v \<le> ?total" if "v \<in> set (map snd ?vs)" for v
    using nn that member_le_sum_list [of v "map snd ?vs"] by auto
  show ?thesis
  proof (cases "?total \<le> 0")
    case True
    with assms JObj show ?thesis by (simp add: normalize_weights_def Let_def list_all_iff)
  next
    case False
    have "0 \<le> py_round 6 (v / ?total) \<and> py_round 6 (v / ?total) \<le> 1" if v: "v \<in> set (map snd ?vs)" for v
    proof -
      have "0 \<le> v" using nn v by blast
      moreover have "v \<le> ?total" by (rule le [OF v])
      moreover have "0 < ?total" using False by (simp only: not_le)
      ultimately have "0 \<le> v / ?total" "v / ?total \<le> 1" by (simp_all only: divide_le_eq_1_pos divide_nonneg_pos)
      then show ?thesis by (simp only: py_round_unit)
    qed
    then show ?thesis
      using False JObj unfolding normalize_weights_def by (auto simp: list_all_iff Let_def)
  qed
qed (use assms in \<open>auto simp: normalize_weights_def list_all_iff\<close>)

text \<open>
  With the lock enforced, the profile that the scores use is either the static default or the
  file whose version the lock approves and whose digest it records; a lock that is missing,
  unreadable or not approved, or that does not match, always gives the static default.
\<close>

theorem enforced_profile_is_approved:
  assumes "get_weight_profile py_repr sha256 True profile lock = Inr p"
  shows "p = default_profile \<or>
    (\<exists>prof lockd. profile = ParsedFile (JObj prof) \<and> lock = ParsedFile (JObj lockd) \<and>
       truthy (dict_get lockd ''approved'' JNull) \<and>
       py_str py_repr (py_or (dict_get lockd ''approved_version'' JNull) (JStr []))
         = py_str py_repr (py_or (dict_get prof ''version'' JNull) (JStr [])) \<and>
       py_str py_repr (py_or (dict_get lockd ''profile_sha256'' JNull) (JStr []))
         = profile_hash py_repr sha256 prof)"
proof (cases "validate_weight_profile_freeze py_repr sha256 profile lock")
  case (FreezePass v h)
  then obtain prof lockd where
    files: "profile = ParsedFile (JObj prof)" "lock = ParsedFile (JObj lockd)"
    unfolding validate_weight_profile_freeze_def as_dict_def
    by (auto split: json_file.splits json.splits if_splits)
  from FreezePass show ?thesis
    unfolding files by (auto simp: validate_weight_profile_freeze_def as_dict_def Let_def split: if_splits)
next
  case (FreezeRaised e)
  then show ?thesis using assms by (auto simp: get_weight_profile_def Let_def split: json_file.splits)
qed (use assms in \<open>auto simp: get_weight_profile_def Let_def split: json_file.splits\<close>)

theorem enforced_profile_is_approved_witness:
  "get_weight_profile (\<lambda>_. []) (\<lambda>_. ''d'') True
     (ParsedFile (JObj [(''version'', JStr ''v2'')]))
     (ParsedFile (JObj [(''approved'', JBool True), (''approved_version'', JStr ''v1'')]))
   = Inr default_profile"
proof -
  let ?prof = "ParsedFile (JObj [(''version'', JStr ''v2'')])"
  let ?lock = "ParsedFile (JObj [(''approved'', JBool True), (''approved_version'', JStr ''v1'')])"
  obtain p where p: "get_weight_profile (\<lambda>_. []) (\<lambda>_. ''d'') True ?prof ?lock = Inr p"
    by (simp add: get_weight_profile_def validate_weight_profile_freeze_def as_dict_def dict_get_def
        py_or_def Let_def)
  from enforced_profile_is_approved [OF p] have "p = default_profile"
    by (simp add: dict_get_def py_or_def)
  with p show ?thesis by simp
qed

end
