(* ===== verification/Models.thy ===== *)
theory Models
  imports Prelude
begin

text \<open>
  The rows of the evaluation tables (\<open>backend/app/models\<close>): submissions, evaluation jobs, sandbox
  runs, worker heartbeats and leaderboard entries. Identifiers (UUIDs) are natural numbers, nullable columns
  are options, scores are rationals and times are microseconds.
\<close>

type_synonym uuid = nat

datatype submission_status = SubPending | SubRunning | SubCompleted | SubFailed

record submission =
  sub_id :: uuid
  sub_challenge_id :: uuid
  sub_user_id :: uuid
  sub_status :: submission_status
  sub_code :: string
  sub_entrypoint :: string
  sub_report :: "json option"
  sub_score_accuracy :: "rat option"
  sub_score_prompt_quality :: "rat option"
  sub_score_efficiency :: "rat option"
  sub_score_reliability :: "rat option"
  sub_score_orchestration :: "rat option"
  sub_score_code_quality :: "rat option"
  sub_score_rule_adherence :: "rat option"
  sub_score_edge_cases :: "rat option"
  sub_score_overall :: "rat option"
  sub_delta_overall :: "rat option"
  sub_delta_accuracy :: "rat option"
  sub_delta_robustness :: "rat option"
  sub_delta_efficiency :: "rat option"
  sub_growth_score :: "rat option"
  sub_mastery_state :: "string option"
  sub_total_cost_usd :: "rat option"
  sub_total_latency_ms :: "rat option"
  sub_total_llm_calls :: "int option"
  sub_created_at :: time
  sub_completed_at :: "time option"

text \<open>A new submission row: the columns the caller gives, the defaults for the others.\<close>

definition new_submission :: "uuid \<Rightarrow> uuid \<Rightarrow> uuid \<Rightarrow> string \<Rightarrow> string \<Rightarrow> time \<Rightarrow> submission" where
  "new_submission i chal user code entry now =
     \<lparr>sub_id = i, sub_challenge_id = chal, sub_user_id = user, sub_status = SubPending,
      sub_code = code, sub_entrypoint = entry, sub_report = None,
      sub_score_accuracy = None, sub_score_prompt_quality = None, sub_score_efficiency = None,
      sub_score_reliability = None, sub_score_orchestration = None, sub_score_code_quality = None,
      sub_score_rule_adherence = None, sub_score_edge_cases = None, sub_score_overall = None,
      sub_delta_overall = None, sub_delta_accuracy = None, sub_delta_robustness = None,
      sub_delta_efficiency = None, sub_growth_score = None, sub_mastery_state = None,
      sub_total_cost_usd = None, sub_total_latency_ms = None, sub_total_llm_calls = None,
      sub_created_at = now, sub_completed_at = None\<rparr>"

datatype job_status = JobQueued | JobRetry | JobRunning | JobCompleted | JobFailed

record evaluation_job =
  job_id :: uuid
  job_submission_id :: uuid
  job_status :: job_status
  job_attempts :: int
  job_max_attempts :: int
  job_last_error :: "string option"
  job_created_at :: time
  job_available_at :: time
  job_started_at :: "time option"
  job_finished_at :: "time option"

datatype worker_status = WorkerIdle | WorkerRunning | WorkerError

record worker_heartbeat =
  hb_worker_id :: string
  hb_hostname :: string
  hb_status :: worker_status
  hb_current_job_id :: "uuid option"
  hb_last_error :: "string option"
  hb_started_at :: time
  hb_last_seen_at :: time

text \<open>One sandbox run of a submission; the columns copied from a run record are JSON values.\<close>

record run_row =
  rn_submission_id :: uuid
  rn_run_type :: json
  rn_run_index :: json
  rn_status :: json
  rn_output :: json
  rn_telemetry :: json
  rn_tokens_total :: json
  rn_cost_usd :: json
  rn_latency_ms :: json
  rn_llm_calls :: json
  rn_retries :: json
  rn_accuracy :: json
  rn_started_at :: time
  rn_finished_at :: time

record leaderboard_entry =
  lb_id :: uuid
  lb_challenge_id :: uuid
  lb_user_id :: uuid
  lb_submission_id :: uuid
  lb_overall :: rat
  lb_accuracy :: rat
  lb_prompt_quality :: rat
  lb_efficiency :: rat
  lb_reliability :: rat
  lb_orchestration :: rat
  lb_code_quality :: rat
  lb_rule_adherence :: rat
  lb_edge_cases :: rat
  lb_cost_usd :: rat
  lb_llm_calls :: int
  lb_updated_at :: time

text \<open>
  What the evaluation worker reads and writes. The database is one value: a transaction of the
  code is a function from one such value to the next.
\<close>

record eval_db =
  db_jobs :: "evaluation_job list"
  db_submissions :: "submission list"
  db_runs :: "run_row list"
  db_leaderboard :: "leaderboard_entry list"
  db_heartbeats :: "worker_heartbeat list"

abbreviation get_job :: "eval_db \<Rightarrow> uuid \<Rightarrow> evaluation_job option" where
  "get_job db i \<equiv> row_get job_id i (db_jobs db)"

abbreviation get_submission_row :: "eval_db \<Rightarrow> uuid \<Rightarrow> submission option" where
  "get_submission_row db i \<equiv> row_get sub_id i (db_submissions db)"

definition upd_job :: "uuid \<Rightarrow> (evaluation_job \<Rightarrow> evaluation_job) \<Rightarrow> eval_db \<Rightarrow> eval_db" where
  "upd_job i f db = db\<lparr>db_jobs := row_upd job_id i f (db_jobs db)\<rparr>"

definition upd_submission :: "uuid \<Rightarrow> (submission \<Rightarrow> submission) \<Rightarrow> eval_db \<Rightarrow> eval_db" where
  "upd_submission i f db = db\<lparr>db_submissions := row_upd sub_id i f (db_submissions db)\<rparr>"

lemma upd_job_frame [simp]:
  "db_submissions (upd_job i f db) = db_submissions db"
  "db_leaderboard (upd_job i f db) = db_leaderboard db"
  "db_runs (upd_job i f db) = db_runs db"
  "db_heartbeats (upd_job i f db) = db_heartbeats db"
  "db_jobs (upd_job i f db) = row_upd job_id i f (db_jobs db)"
  by (simp_all add: upd_job_def)

lemma upd_submission_frame [simp]:
  "db_jobs (upd_submission i f db) = db_jobs db"
  "db_leaderboard (upd_submission i f db) = db_leaderboard db"
  "db_runs (upd_submission i f db) = db_runs db"
  "db_heartbeats (upd_submission i f db) = db_heartbeats db"
  "db_submissions (upd_submission i f db) = row_upd sub_id i f (db_submissions db)"
  by (simp_all add: upd_submission_def)

end
