(* ===== verification/Feedback.thy ===== *)
theory Feedback
  imports Models PyValues WeightProfile
begin

text \<open>
  What the evaluation worker derives from a result and the learner's history
  (\<open>backend/app/workers/evaluate.py\<close>): growth, mastery state, coaching, learning velocity and
  effectiveness, the forward-looking feedback and the coaching actions. The diff of two code
  texts (\<open>_build_iteration_diff\<close>) is not modelled; what the other functions read of it, the
  changed ratio and the number of added prompts, is an argument.
\<close>

section \<open>The result of an evaluation\<close>

record evaluation_result =
  er_accuracy :: rat
  er_prompt_quality :: rat
  er_rule_adherence :: rat
  er_efficiency :: rat
  er_reliability :: rat
  er_orchestration :: rat
  er_code_quality :: rat
  er_edge_case_handling :: rat
  er_overall :: rat
  er_cost_usd :: rat
  er_latency_ms :: rat
  er_llm_calls :: int
  er_runs :: "json dict list"
  er_diagnostics :: "json dict list"

section \<open>Growth\<close>

datatype growth_status = FirstAttempt | Improved | Mixed | Regressed | Flat

record growth =
  gr_previous :: "uuid option"
  gr_overall :: "rat option"
  gr_accuracy :: "rat option"
  gr_robustness :: "rat option"
  gr_efficiency :: "rat option"
  gr_score :: rat
  gr_status :: growth_status

definition delta :: "rat option \<Rightarrow> rat option \<Rightarrow> rat option" where
  "delta cur prev =
     (case (cur, prev) of (Some c, Some p) \<Rightarrow> Some (py_round 4 (c - p)) | _ \<Rightarrow> None)"

definition weigh_deltas :: "(rat option \<times> rat) list \<Rightarrow> (rat \<times> rat) list" where
  "weigh_deltas weighted =
     List.map_filter (\<lambda>(d, w). map_option (\<lambda>x. (max 0 (min 1 ((x + 15 / 100) / (30 / 100))), w)) d) weighted"

definition compute_growth :: "submission option \<Rightarrow> evaluation_result \<Rightarrow> growth" where
  "compute_growth previous current =
     (case previous of
        None \<Rightarrow> \<lparr>gr_previous = None, gr_overall = None, gr_accuracy = None, gr_robustness = None,
                 gr_efficiency = None, gr_score = 1 / 2, gr_status = FirstAttempt\<rparr>
      | Some prev \<Rightarrow>
          (let d_overall = delta (Some (er_overall current)) (sub_score_overall prev);
               d_accuracy = delta (Some (er_accuracy current)) (sub_score_accuracy prev);
               d_robustness = delta (Some (er_edge_case_handling current)) (sub_score_edge_cases prev);
               d_eff = delta (Some (er_efficiency current)) (sub_score_efficiency prev);
               norm_values = weigh_deltas [(d_overall, 4 / 10), (d_accuracy, 2 / 10),
                                           (d_robustness, 2 / 10), (d_eff, 2 / 10)];
               growth_score = (if norm_values \<noteq> []
                 then sum_list (map (\<lambda>(v, w). v * w) norm_values) / sum_list (map snd norm_values)
                 else 1 / 2);
               ds = [d_overall, d_accuracy, d_robustness, d_eff];
               val = (\<lambda>d. case d of None \<Rightarrow> 0 | Some x \<Rightarrow> x);
               improved = list_ex (\<lambda>d. val d > 0) ds;
               regressed = list_ex (\<lambda>d. val d < - (2 / 100)) ds
           in \<lparr>gr_previous = Some (sub_id prev), gr_overall = d_overall, gr_accuracy = d_accuracy,
               gr_robustness = d_robustness, gr_efficiency = d_eff,
               gr_score = py_round 4 growth_score,
               gr_status = (if improved \<and> \<not> regressed then Improved
                            else if improved \<and> regressed then Mixed
                            else if regressed then Regressed else Flat)\<rparr>))"

section \<open>Mastery\<close>

datatype mastery = Mastered | Proficient | Practicing

definition or_zero :: "rat option \<Rightarrow> rat" where
  "or_zero x = (case x of None \<Rightarrow> 0 | Some v \<Rightarrow> v)"

definition derive_mastery_state :: "evaluation_result \<Rightarrow> submission list \<Rightarrow> mastery" where
  "derive_mastery_state current history =
     (let older = take 2 history;
          overall_vals = er_overall current # map (\<lambda>x. or_zero (sub_score_overall x)) older;
          rel_vals = er_reliability current # map (\<lambda>x. or_zero (sub_score_reliability x)) older;
          robust_vals = er_edge_case_handling current # map (\<lambda>x. or_zero (sub_score_edge_cases x)) older;
          n = length overall_vals;
          avg_overall = mean overall_vals;
          avg_rel = mean rel_vals;
          avg_robust = mean robust_vals
      in if n \<ge> 3 \<and> avg_overall \<ge> 82 / 100 \<and> avg_rel \<ge> 65 / 100 \<and> avg_robust \<ge> 75 / 100 then Mastered
         else if avg_overall \<ge> 68 / 100 \<and> avg_rel \<ge> 55 / 100 then Proficient
         else Practicing)"

section \<open>Coaching\<close>

record coaching =
  co_trend :: growth_status
  co_summary :: string
  co_improved :: "string list"
  co_regressed :: "string list"
  co_next_focus :: string
  co_explanation :: string
  co_mastery :: mastery
  co_previous :: "uuid option"

definition metric_map :: "growth \<Rightarrow> (string \<times> rat option) list" where
  "metric_map g = [(''overall'', gr_overall g), (''accuracy'', gr_accuracy g),
                   (''robustness'', gr_robustness g), (''efficiency'', gr_efficiency g)]"

definition priorities :: "evaluation_result \<Rightarrow> (string \<times> rat \<times> rat \<times> string) list" where
  "priorities result =
     [(''accuracy'', er_accuracy result, 85 / 100, ''Add stricter extraction instructions and deterministic output formatting.''),
      (''robustness'', er_edge_case_handling result, 75 / 100, ''Add explicit edge-case and malformed-input handling in prompts.''),
      (''reliability'', er_reliability result, 75 / 100, ''Reduce stochasticity and enforce stable parsing/validation.''),
      (''efficiency'', er_efficiency result, 70 / 100, ''Batch calls and trim prompt context to improve cost/latency.''),
      (''orchestration'', er_orchestration result, 75 / 100, ''Add retry bounds and stronger JSON validation/fallback paths.'')]"

definition priority_gap :: "string \<times> rat \<times> rat \<times> string \<Rightarrow> rat" where
  "priority_gap p = (case p of (_, score, target, _) \<Rightarrow> score - target)"

definition build_coaching ::
  "evaluation_result \<Rightarrow> growth \<Rightarrow> mastery \<Rightarrow> submission option \<Rightarrow> coaching" where
  "build_coaching result g mastery_state previous =
     (let improved = map fst (filter (\<lambda>(_, d). case d of Some x \<Rightarrow> x > 1 / 100 | None \<Rightarrow> False) (metric_map g));
          regressed = map fst (filter (\<lambda>(_, d). case d of Some x \<Rightarrow> x < - (1 / 100) | None \<Rightarrow> False) (metric_map g));
          worst = hd (sort_key priority_gap (priorities result));
          summary =
            (if gr_status g = FirstAttempt
             then ''Baseline established. Focus on consistency and robustness before optimizing cost.''
             else if regressed \<noteq> []
             then ''Regression detected in '' @ join '', '' regressed @ ''. Recover baseline before further optimization.''
             else if improved \<noteq> []
             then ''Improved in '' @ join '', '' improved @ ''. Keep this direction and target the next weakest dimension.''
             else ''Flat iteration. Make one targeted change and compare against this run.'')
      in \<lparr>co_trend = gr_status g, co_summary = summary, co_improved = improved, co_regressed = regressed,
          co_next_focus = fst worst, co_explanation = snd (snd (snd worst)),
          co_mastery = mastery_state, co_previous = map_option sub_id previous\<rparr>)"

section \<open>Learning velocity\<close>

record learning_velocity =
  lv_score :: rat
  lv_progress :: rat
  lv_skill_gain :: rat
  lv_change_efficiency :: rat

definition compute_learning_velocity_score ::
  "rat option \<Rightarrow> rat option \<Rightarrow> rat option \<Rightarrow> rat option \<Rightarrow> rat option \<Rightarrow> learning_velocity" where
  "compute_learning_velocity_score d_overall d_accuracy d_robustness d_efficiency changed_ratio =
     (case d_overall of
        None \<Rightarrow> \<lparr>lv_score = 1 / 2, lv_progress = 1 / 2, lv_skill_gain = 1 / 2, lv_change_efficiency = 1 / 2\<rparr>
      | Some d \<Rightarrow>
          (let progress = clamp01 ((d + 8 / 100) / (16 / 100));
               dim_norms = map (\<lambda>x. clamp01 ((x + 6 / 100) / (12 / 100)))
                             (List.map_filter id [d_accuracy, d_robustness, d_efficiency]);
               skill_gain = (if dim_norms \<noteq> [] then mean dim_norms else progress);
               ratio = or_zero changed_ratio;
               improvement_per_change = d / max (5 / 100) ratio;
               change_efficiency = clamp01 ((improvement_per_change + 5 / 100) / (25 / 100));
               score = progress * (45 / 100) + skill_gain * (30 / 100) + change_efficiency * (25 / 100);
               score = (if d < - (8 / 100) then min score (2 / 10) else score)
           in \<lparr>lv_score = py_round 4 (clamp01 score), lv_progress = py_round 4 progress,
               lv_skill_gain = py_round 4 skill_gain,
               lv_change_efficiency = py_round 4 change_efficiency\<rparr>))"

text \<open>The leverage metrics of a report, as the pipeline carries them.\<close>

record ai_leverage =
  al_frontier_navigation :: rat
  al_reliance_calibration :: rat
  al_leverage_gain_score :: "rat option"
  al_leverage_gain :: "rat option"
  al_counterfactual_overall :: "rat option"
  al_learning_velocity :: rat
  al_ai_mastery :: rat
  al_velocity_signal :: "learning_velocity option"
  al_composite_signal :: "mastery_result option"

definition enrich_ai_leverage ::
  "ai_leverage \<Rightarrow> growth \<Rightarrow> rat option \<Rightarrow> rat \<Rightarrow> ai_leverage" where
  "enrich_ai_leverage base g changed_ratio prompt_quality =
     (let learning = compute_learning_velocity_score (gr_overall g) (gr_accuracy g)
                       (gr_robustness g) (gr_efficiency g) changed_ratio;
          mastery = score_ai_mastery (al_frontier_navigation base) (al_reliance_calibration base)
                      prompt_quality (Some (lv_score learning)) (al_leverage_gain_score base) None None
      in base\<lparr>al_learning_velocity := py_round 4 (lv_score learning),
              al_ai_mastery := py_round 4 (ms_score mastery),
              al_velocity_signal := Some learning, al_composite_signal := Some mastery\<rparr>)"

section \<open>Coaching actions\<close>

datatype action_priority = PrioHigh | PrioMedium | PrioLow

record coaching_action =
  ca_priority :: action_priority
  ca_title :: string
  ca_why :: string
  ca_evidence :: "json dict"
  ca_suggested_change :: string
  ca_expected_impact :: "string list"

definition priority_rank :: "action_priority \<Rightarrow> nat" where
  "priority_rank p = (case p of PrioHigh \<Rightarrow> 0 | PrioMedium \<Rightarrow> 1 | PrioLow \<Rightarrow> 2)"

definition run_type_advice :: "string \<Rightarrow> string \<times> string list" where
  "run_type_advice run_type =
     (if run_type \<in> set [''clean'', ''hidden_clean'']
      then (''Constrain output to strict JSON schema and add explicit field-level requirements.'',
            [''accuracy'', ''rule_adherence''])
      else if run_type = ''perturbed''
      then (''Add normalization rules (whitespace/date/currency/name cleanup) before extraction.'',
            [''robustness'', ''reliability''])
      else if run_type = ''adversarial''
      then (''Add malformed-input fallback behavior and 'unknown' handling for ambiguous records.'',
            [''robustness'', ''orchestration''])
      else (''Tighten validation and retry bounds for unstable outputs.'',
            [''reliability'', ''orchestration'']))"

definition failed_run_action :: "(json \<Rightarrow> string) \<Rightarrow> json dict \<Rightarrow> py_exc + coaching_action" where
  "failed_run_action py_repr run =
     (let run_type = py_str py_repr (dict_get run ''run_type'' (JStr ''run''));
          (change, impact) = run_type_advice run_type
      in bind (py_int_of (dict_get run ''run_index'' (JInt 0))) (\<lambda>idx.
         bind (py_float (dict_get run ''accuracy'' (JFloat 0))) (\<lambda>acc.
           Inr \<lparr>ca_priority = PrioHigh, ca_title = ''Fix '' @ run_type @ '' failure'',
                ca_why = ''Run #'' @ show_int (idx + 1) @ '' failed with accuracy '' @
                         show_fixed False 2 acc @ ''.'', 
                ca_evidence = [(''run_type'', JStr run_type), (''run_index'', dict_get run ''run_index'' (JInt 0)),
                               (''status'', dict_get run ''status'' JNull),
                               (''accuracy'', dict_get run ''accuracy'' JNull)],
                ca_suggested_change = change, ca_expected_impact = impact\<rparr>)))"

definition diagnostic_advice :: "string \<Rightarrow> string \<times> string list" where
  "diagnostic_advice metric =
     (if metric = ''efficiency''
      then (''Batch related tasks into fewer LLM calls and shorten repetitive context.'', [''efficiency''])
      else if metric = ''orchestration''
      then (''Validate JSON output before use and cap retries with explicit fallback.'',
            [''orchestration'', ''reliability''])
      else if metric = ''accuracy''
      then (''Specify exact keys/types and force output format to match challenge schema.'',
            [''accuracy'', ''rule_adherence''])
      else (''Address this diagnostic first, then re-run to verify improvement.'', [metric]))"

definition diagnostic_action :: "(json \<Rightarrow> string) \<Rightarrow> json dict \<Rightarrow> coaching_action option" where
  "diagnostic_action py_repr d =
     (let sev = to_lower (py_str py_repr (dict_get d ''severity'' (JStr ''low'')))
      in if sev \<notin> set [''high'', ''medium''] then None
         else
           let metric = py_str py_repr (dict_get d ''metric'' (JStr ''metric''));
               (suggestion, impact) = diagnostic_advice metric
           in Some \<lparr>ca_priority = (if sev = ''medium'' then PrioMedium else PrioHigh),
                    ca_title = ''Address '' @ metric @ '' diagnostic'',
                    ca_why = py_str py_repr (dict_get d ''message'' (JStr [])), 
                    ca_evidence = [(''metric'', JStr metric), (''severity'', JStr sev)],
                    ca_suggested_change = suggestion, ca_expected_impact = impact\<rparr>)"

definition regression_action :: "growth \<Rightarrow> coaching_action list" where
  "regression_action g =
     (case gr_overall g of
        Some d \<Rightarrow> (if d < - (2 / 100)
          then [\<lparr>ca_priority = PrioHigh, ca_title = ''Recover previous baseline'',
                 ca_why = ''Overall score regressed by '' @ show_fixed False 2 d @ '' from your last attempt.'', 
                 ca_evidence = [(''delta_overall'', JFloat d),
                                (''previous_submission_id'', json_opt (\<lambda>i. JStr (show_nat i)) (gr_previous g))],
                 ca_suggested_change = ''Reintroduce the most stable prompt structure from the previous run, then apply one targeted fix.'',
                 ca_expected_impact = [''overall'', ''reliability'']\<rparr>]
          else [])
      | None \<Rightarrow> [])"

definition churn_action :: "nat \<Rightarrow> evaluation_result \<Rightarrow> coaching_action list" where
  "churn_action added_prompts result =
     (if added_prompts > 2 \<and> er_efficiency result < 75 / 100
      then [\<lparr>ca_priority = PrioMedium, ca_title = ''Reduce prompt churn'',
             ca_why = ''Many prompt edits were introduced, but efficiency is still below target.'', 
             ca_evidence = [(''prompt_added_count'', JInt (int added_prompts)),
                            (''efficiency'', JFloat (er_efficiency result))],
             ca_suggested_change = ''Consolidate overlapping instructions into one reusable prompt block.'',
             ca_expected_impact = [''efficiency'', ''reliability'']\<rparr>]
      else [])"

definition leverage_actions :: "ai_leverage \<Rightarrow> growth \<Rightarrow> coaching_action list" where
  "leverage_actions lev g =
     (let frontier = al_frontier_navigation lev; reliance = al_reliance_calibration lev
      in
      (if frontier \<noteq> 0 \<and> frontier < 65 / 100
       then [\<lparr>ca_priority = PrioHigh, ca_title = ''Move closer to the quality-cost frontier'',
              ca_why = ''Frontier navigation is '' @ show_fixed False 2 frontier @
                       '', which indicates quality is not matching token/cost spend.'', 
              ca_evidence = [(''frontier_navigation_score'', JFloat frontier)],
              ca_suggested_change = ''Tighten schema constraints in prompts and remove redundant context so each call has a clear, narrow objective.'',
              ca_expected_impact = [''frontier_navigation'', ''efficiency'', ''accuracy'']\<rparr>] else []) @
      (if reliance \<noteq> 0 \<and> reliance < 65 / 100
       then [\<lparr>ca_priority = PrioHigh, ca_title = ''Improve AI reliance calibration'',
              ca_why = ''Reliance calibration is '' @ show_fixed False 2 reliance @
                       ''; outputs are not being verified strongly enough for current call volume.'', 
              ca_evidence = [(''reliance_calibration_score'', JFloat reliance)],
              ca_suggested_change = ''Add strict JSON validation + bounded retries + explicit fallback rules before accepting model output.'',
              ca_expected_impact = [''reliance_calibration'', ''reliability'', ''orchestration'']\<rparr>] else []) @
      (case al_leverage_gain lev of
         Some gain \<Rightarrow> (if gain \<le> 0
           then [\<lparr>ca_priority = PrioHigh, ca_title = ''Beat the counterfactual baseline'',
                  ca_why = ''Leverage gain is '' @ show_fixed True 2 gain @
                           ''; your current approach is not outperforming the baseline strategy yet.'', 
                  ca_evidence = [(''leverage_gain'', JFloat gain),
                                 (''counterfactual_baseline_overall'', json_opt JFloat (al_counterfactual_overall lev))],
                  ca_suggested_change = ''Use a more explicit schema-constrained prompt and tighter normalization instructions, then validate output before acceptance.'',
                  ca_expected_impact = [''leverage_gain'', ''ai_mastery'', ''overall'']\<rparr>] else [])
       | None \<Rightarrow> []) @
      (if al_learning_velocity lev < 1 / 2 \<and> gr_status g \<noteq> FirstAttempt
       then [\<lparr>ca_priority = PrioMedium, ca_title = ''Increase iteration learning velocity'',
              ca_why = ''Learning velocity is '' @ show_fixed False 2 (al_learning_velocity lev) @
                       ''; current edits are not converting into reliable score gains.'', 
              ca_evidence = [(''learning_velocity_score'', JFloat (al_learning_velocity lev))],
              ca_suggested_change = ''Ship one targeted prompt/code change at a time and measure impact on a single weak metric before stacking edits.'',
              ca_expected_impact = [''learning_velocity'', ''overall'']\<rparr>] else []))"

fun sequence_exc :: "('e + 'a) list \<Rightarrow> 'e + 'a list" where
  "sequence_exc [] = Inr []"
| "sequence_exc (m # ms) = bind m (\<lambda>x. bind (sequence_exc ms) (\<lambda>xs. Inr (x # xs)))"

definition build_coaching_actions ::
  "(json \<Rightarrow> string) \<Rightarrow> evaluation_result \<Rightarrow> growth \<Rightarrow> nat \<Rightarrow> ai_leverage \<Rightarrow> py_exc + coaching_action list" where
  "build_coaching_actions py_repr result g added_prompts lev =
     (let failed = filter (\<lambda>r. dict_get r ''status'' JNull \<noteq> JStr ''pass'') (er_runs result)
      in bind (sequence_exc (map (failed_run_action py_repr) (take 3 failed))) (\<lambda>run_actions.
           let actions = run_actions @
                 List.map_filter (diagnostic_action py_repr) (take 2 (er_diagnostics result)) @
                 regression_action g @ churn_action added_prompts result @ leverage_actions lev g
           in Inr (take 5 (sort_key (\<lambda>a. priority_rank (ca_priority a)) actions))))"

end
