(* ===== verification/EvaluationEngine.thy ===== *)
theory EvaluationEngine
  imports EvalReporting WeightProfile Feedback
begin

text \<open>
  The evaluation of a submission (\<open>backend/app/services/evaluation/engine.py\<close>) and of its
  counterfactual baseline (\<open>counterfactual.py\<close>): the plan of runs, the totals over their results,
  the scores, penalties and caps, and the choice of the median baseline. The sandbox, the prompt
  judge, the static analysis of the code and the perturbations are fields of an environment: they
  run containers, call a model, parse Python and draw random numbers.
\<close>

section \<open>Plan and environment\<close>

record run_spec =
  sp_run_type :: string
  sp_run_index :: int
  sp_inputs :: json
  sp_ground_truth :: string
  sp_accuracy_mode :: string
  sp_meta :: json

record prompt_verdict =
  pq_overall :: rat
  pq_method :: string

text \<open>\<open>env_timed_out\<close> says whether a run of the submission exceeds the timeout of its awaiting task.\<close>

record eval_env =
  env_sandbox :: "string \<Rightarrow> string \<Rightarrow> run_spec \<Rightarrow> sandbox_result"
  env_timed_out :: "run_spec \<Rightarrow> bool"
  env_prompt_quality :: "telemetry_call list \<Rightarrow> string \<Rightarrow> prompt_verdict"
  env_code_quality :: "string \<Rightarrow> string \<Rightarrow> rat \<times> json dict"
  env_perturb_normal :: "json \<Rightarrow> int \<Rightarrow> json"
  env_perturb_adversarial :: "json \<Rightarrow> int \<Rightarrow> json"
  env_seed :: "nat \<Rightarrow> int"
  env_sqrt :: "rat \<Rightarrow> rat"
  env_timeout_message :: string

record eval_settings =
  es_normal_runs :: nat
  es_adversarial_runs :: nat

section \<open>The configuration of a challenge\<close>

record challenge_settings =
  cs_ground_truth :: string
  cs_accuracy_mode :: string
  cs_inputs :: json
  cs_description :: string
  cs_clean_runs :: int
  cs_hidden :: "hidden_case list"
  cs_expected_calls :: int
  cs_budgets :: "rat dict"
  cs_call_budget :: "rat option"
  cs_baseline_enabled :: bool
  cs_variants :: "py_exc + int"

definition text_of :: "py_lib \<Rightarrow> json \<Rightarrow> string" where
  "text_of L j = (case j of JStr s \<Rightarrow> s | _ \<Rightarrow> lib_dumps L j)"

definition read_settings :: "py_lib \<Rightarrow> json dict \<Rightarrow> py_exc + challenge_settings" where
  "read_settings L c =
     (let gt = text_of L (dict_get c ''ground_truth'' (JStr []));
          mode = py_str (lib_repr L) (dict_get c ''accuracy_mode'' (JStr ''json''))
      in
      bind (py_int_of (dict_get c ''clean_runs'' (JInt 1))) (\<lambda>clean_runs.
      bind (py_int_of (dict_get c ''expected_calls'' (JInt 3))) (\<lambda>expected_calls.
      bind (py_float (dict_get c ''token_budget'' (JInt 12000))) (\<lambda>tokens.
      bind (py_float (dict_get c ''cost_budget_usd'' (JFloat (20 / 100)))) (\<lambda>cost.
      bind (py_float (dict_get c ''latency_budget_ms'' (JInt 30000))) (\<lambda>latency.
      bind (case map_of c ''call_budget'' of None \<Rightarrow> Inr None
            | Some j \<Rightarrow> bind (py_float j) (\<lambda>x. Inr (Some x))) (\<lambda>calls.
        Inr \<lparr>cs_ground_truth = gt, cs_accuracy_mode = mode,
             cs_inputs = dict_get c ''inputs'' (JObj []),
             cs_description = py_str (lib_repr L) (dict_get c ''description'' (JStr [])),
             cs_clean_runs = clean_runs,
             cs_hidden = build_hidden_cases L c (JStr gt) mode,
             cs_expected_calls = expected_calls,
             cs_budgets = [(''token_budget'', tokens), (''cost_budget_usd'', cost), (''latency_budget_ms'', latency)],
             cs_call_budget = calls,
             cs_baseline_enabled = truthy (dict_get c ''counterfactual_baseline_enabled'' (JBool True)),
             cs_variants = py_int_of (py_or (dict_get c ''counterfactual_variants'' (JInt 3)) (JInt 3))\<rparr>)))))))"

text \<open>The budgets of the scores: the call budget grows with the number of runs by default.\<close>

definition budgets :: "challenge_settings \<Rightarrow> nat \<Rightarrow> rat dict" where
  "budgets cs n =
     cs_budgets cs @
     [(''call_budget'', case cs_call_budget cs of Some b \<Rightarrow> b
                        | None \<Rightarrow> of_int (cs_expected_calls cs * int (max 1 n)))]"

definition spec_meta :: "json \<Rightarrow> string \<Rightarrow> string \<Rightarrow> json dict \<Rightarrow> json" where
  "spec_meta seed perturbation source_set extra =
     JObj ([(''seed'', seed), (''perturbation'', JStr perturbation), (''source_set'', JStr source_set)] @
           extra @ [(''perturbation_config_version'', JStr ''v1'')])"

definition build_run_plan :: "py_lib \<Rightarrow> eval_env \<Rightarrow> eval_settings \<Rightarrow> challenge_settings \<Rightarrow> run_spec list" where
  "build_run_plan L env st cs =
     (let n = es_normal_runs st;
          spec = (\<lambda>t i inputs meta. \<lparr>sp_run_type = t, sp_run_index = int i, sp_inputs = inputs,
                    sp_ground_truth = cs_ground_truth cs, sp_accuracy_mode = cs_accuracy_mode cs, sp_meta = meta\<rparr>)
      in
      map (\<lambda>i. spec ''clean'' i (cs_inputs cs) (spec_meta JNull ''none'' ''visible'' []))
        [0..<nat (cs_clean_runs cs)] @
      map (\<lambda>(i, h). \<lparr>sp_run_type = ''hidden_clean'', sp_run_index = int i, sp_inputs = hc_inputs h,
             sp_ground_truth = text_of L (hc_ground_truth h), sp_accuracy_mode = hc_accuracy_mode h,
             sp_meta = spec_meta JNull ''none'' (hc_name h) [(''hidden'', JBool True)]\<rparr>)
        (enumerate 0 (cs_hidden cs)) @
      map (\<lambda>i. let seed = env_seed env i
               in spec ''perturbed'' i (env_perturb_normal env (cs_inputs cs) seed)
                    (spec_meta (JInt seed) ''normal'' ''visible'' [])) [0..<n] @
      map (\<lambda>i. let seed = env_seed env (n + i)
               in spec ''adversarial'' i (env_perturb_adversarial env (cs_inputs cs) seed)
                    (spec_meta (JInt seed) ''adversarial'' ''visible'' [])) [0..<es_adversarial_runs st])"

text \<open>A run that exceeds the timeout counts as a failed run without telemetry.\<close>

definition run_sandbox_spec :: "eval_env \<Rightarrow> string \<Rightarrow> string \<Rightarrow> run_spec \<Rightarrow> sandbox_result" where
  "run_sandbox_spec env code entrypoint spec =
     (if env_timed_out env spec
      then \<lparr>sr_success = False, sr_output = [], sr_exit_code = -1, sr_telemetry = [],
            sr_error = Some (env_timeout_message env)\<rparr>
      else env_sandbox env code entrypoint spec)"

section \<open>Totals over the runs\<close>

record run_totals =
  tt_records :: "run_record list"
  tt_clean :: "rat list"
  tt_perturbed :: "rat list"
  tt_adversarial :: "rat list"
  tt_telemetry :: "telemetry_call list"
  tt_prompt_tokens :: int
  tt_completion_tokens :: int
  tt_cost :: rat
  tt_latency :: rat
  tt_calls :: int
  tt_retries :: int

definition no_totals :: run_totals where
  "no_totals = \<lparr>tt_records = [], tt_clean = [], tt_perturbed = [], tt_adversarial = [], tt_telemetry = [],
     tt_prompt_tokens = 0, tt_completion_tokens = 0, tt_cost = 0, tt_latency = 0, tt_calls = 0, tt_retries = 0\<rparr>"

definition add_run_result :: "py_lib \<Rightarrow> run_totals \<Rightarrow> run_spec \<times> sandbox_result \<Rightarrow> run_totals" where
  "add_run_result L tt sr =
     (let spec = fst sr; result = snd sr;
          r = process_run L result (sp_ground_truth spec) (sp_accuracy_mode spec)
                (sp_run_type spec) (sp_run_index spec) (sp_meta spec);
          clean = (sp_run_type spec = ''clean'' \<or> sp_run_type spec = ''hidden_clean'')
      in \<lparr>tt_records = tt_records tt @ [r],
          tt_clean = tt_clean tt @ (if clean then [rr_accuracy r] else []),
          tt_perturbed = tt_perturbed tt @ (if \<not> clean \<and> sp_run_type spec = ''perturbed'' then [rr_accuracy r] else []),
          tt_adversarial = tt_adversarial tt @ (if \<not> clean \<and> sp_run_type spec = ''adversarial'' then [rr_accuracy r] else []),
          tt_telemetry = tt_telemetry tt @ sr_telemetry result,
          tt_prompt_tokens = tt_prompt_tokens tt + rr_tokens_prompt r,
          tt_completion_tokens = tt_completion_tokens tt + rr_tokens_completion r,
          tt_cost = tt_cost tt + rr_cost_usd r,
          tt_latency = tt_latency tt + rr_latency_ms r,
          tt_calls = tt_calls tt + rr_llm_calls r,
          tt_retries = tt_retries tt + rr_retries r\<rparr>)"

definition all_accuracies :: "run_totals \<Rightarrow> rat list" where
  "all_accuracies tt = tt_clean tt @ tt_perturbed tt @ tt_adversarial tt"

definition usage_of :: "run_totals \<Rightarrow> usage" where
  "usage_of tt = \<lparr>us_tokens = tt_prompt_tokens tt + tt_completion_tokens tt, us_cost_usd = tt_cost tt,
                  us_latency_ms = tt_latency tt, us_calls = tt_calls tt\<rparr>"

section \<open>Scores\<close>

record quality_scores =
  qs_accuracy :: rat
  qs_robustness :: rat
  qs_reliability :: rat
  qs_efficiency :: rat
  qs_prompt_quality :: rat
  qs_orchestration :: rat
  qs_calibration :: rat
  qs_rule_adherence :: rat

definition score_weights :: "rat dict" where
  "score_weights =
     [(''accuracy'', 35 / 100), (''robustness'', 15 / 100), (''reliability'', 10 / 100),
      (''efficiency'', 15 / 100), (''prompt_quality'', 10 / 100), (''orchestration'', 10 / 100),
      (''calibration'', 5 / 100)]"

definition score_weight :: "string \<Rightarrow> rat" where
  "score_weight k = dict_get score_weights k 0"

definition quality_anchor :: "quality_scores \<Rightarrow> rat" where
  "quality_anchor q = qs_accuracy q * (5 / 10) + qs_robustness q * (3 / 10) + qs_reliability q * (2 / 10)"

text \<open>The scores before disqualification and the gaming penalty; the code analysis is \<open>[]\<close> for a baseline.\<close>

definition base_scores ::
  "eval_env \<Rightarrow> challenge_settings \<Rightarrow> run_totals \<Rightarrow> json dict \<Rightarrow> prompt_verdict \<Rightarrow> py_exc + quality_scores" where
  "base_scores env cs tt analysis pq =
     (let acc = (if tt_clean tt \<noteq> [] then py_round 4 (mean (tt_clean tt)) else 0);
          robustness = score_robustness (tt_perturbed tt) (tt_adversarial tt);
          rel = score_reliability (env_sqrt env) (all_accuracies tt);
          prompt = py_round 4 (pq_overall pq);
          prompt = (if pq_method pq = ''heuristic'' then min prompt (65 / 100) else prompt);
          anchor = acc * (5 / 10) + robustness * (3 / 10) + rel * (2 / 10);
          eff = score_efficiency_tradeoff (usage_of tt) anchor (budgets cs (length (tt_records tt)));
          calibration = cal_score (score_calibration (extract_confidence_points (tt_records tt)))
      in bind (score_orchestration (tt_calls tt) (tt_retries tt) (cs_expected_calls cs) analysis) (\<lambda>orch.
           Inr \<lparr>qs_accuracy = acc, qs_robustness = robustness, qs_reliability = rel, qs_efficiency = eff,
                qs_prompt_quality = prompt, qs_orchestration = orch, qs_calibration = calibration,
                qs_rule_adherence = score_constraint_adherence (tt_records tt)\<rparr>))"

definition zero_scores :: quality_scores where
  "zero_scores = \<lparr>qs_accuracy = 0, qs_robustness = 0, qs_reliability = 0, qs_efficiency = 0,
     qs_prompt_quality = 0, qs_orchestration = 0, qs_calibration = 0, qs_rule_adherence = 0\<rparr>"

definition gaming_penalty :: "bool \<Rightarrow> quality_scores \<Rightarrow> quality_scores" where
  "gaming_penalty triggered q =
     (if triggered then q\<lparr>qs_efficiency := min (qs_efficiency q) (25 / 100),
                          qs_orchestration := min (qs_orchestration q) (5 / 10)\<rparr> else q)"

definition raw_overall :: "quality_scores \<Rightarrow> rat" where
  "raw_overall q =
     py_round 4 (qs_accuracy q * score_weight ''accuracy'' + qs_robustness q * score_weight ''robustness'' +
       qs_reliability q * score_weight ''reliability'' + qs_efficiency q * score_weight ''efficiency'' +
       qs_prompt_quality q * score_weight ''prompt_quality'' +
       qs_orchestration q * score_weight ''orchestration'' + qs_calibration q * score_weight ''calibration'')"

definition capped_overall ::
  "quality_scores \<Rightarrow> bool \<Rightarrow> string \<Rightarrow> int \<Rightarrow> rat \<Rightarrow> rat \<times> (rat \<times> string) list" where
  "capped_overall q gaming method samples half_width =
     (let (overall, events) = apply_overall_caps (raw_overall q) (qs_accuracy q) (qs_rule_adherence q) gaming;
          (overall, confidence_events) = apply_confidence_caps overall method samples half_width
      in (overall, events @ confidence_events))"

definition gaming_of :: "run_totals \<Rightarrow> quality_scores \<Rightarrow> string option" where
  "gaming_of tt q =
     detect_metric_gaming (tt_records tt) (tt_prompt_tokens tt + tt_completion_tokens tt) (tt_calls tt)
       (qs_accuracy q) (qs_robustness q)"

definition or_unknown :: "string \<Rightarrow> string" where
  "or_unknown s = (if s \<noteq> [] then s else ''unknown'')"

section \<open>The counterfactual baseline\<close>

record candidate =
  cf_strategy :: string
  cf_overall :: rat
  cf_raw_overall :: rat
  cf_scores :: quality_scores
  cf_run_count :: nat
  cf_tests_passed :: nat
  cf_cap_events :: "(rat \<times> string) list"
  cf_gaming :: bool

definition run_counterfactual_candidate ::
  "py_lib \<Rightarrow> eval_env \<Rightarrow> challenge_settings \<Rightarrow> run_spec list \<Rightarrow> string \<Rightarrow> string \<Rightarrow> py_exc + candidate" where
  "run_counterfactual_candidate L env cs plan strategy baseline_code =
     (let sandbox = (\<lambda>spec. (spec, env_sandbox env baseline_code ''counterfactual_baseline.py'' spec));
          tt = foldl (add_run_result L) no_totals (map sandbox plan);
          pq = env_prompt_quality env (tt_telemetry tt) (cs_description cs);
          samples = int (cal_samples (score_calibration (extract_confidence_points (tt_records tt))));
          half_width = iv_half_width (mean_confidence_interval (env_sqrt env) (all_accuracies tt))
      in bind (base_scores env cs tt [] pq) (\<lambda>q0.
           let gaming = gaming_of tt q0;
               q = gaming_penalty (gaming \<noteq> None) q0;
               (overall, events) = capped_overall q (gaming \<noteq> None) (or_unknown (pq_method pq)) samples half_width
           in Inr \<lparr>cf_strategy = strategy, cf_overall = overall, cf_raw_overall = raw_overall q, cf_scores = q,
                   cf_run_count = length (tt_records tt),
                   cf_tests_passed = length (filter run_pass (tt_records tt)),
                   cf_cap_events = events, cf_gaming = (gaming \<noteq> None)\<rparr>))"

datatype baseline_status = BaselineOk | BaselineDisabled | BaselineError | BaselineSkipped

record baseline =
  bl_status :: baseline_status
  bl_overall :: "rat option"
  bl_selected :: "string option"
  bl_variants :: "(string \<times> rat) list"

definition status_text :: "baseline_status \<Rightarrow> string" where
  "status_text s = (case s of BaselineOk \<Rightarrow> ''ok'' | BaselineDisabled \<Rightarrow> ''disabled''
                            | BaselineError \<Rightarrow> ''error'' | BaselineSkipped \<Rightarrow> ''skipped'')"

definition no_baseline :: "baseline_status \<Rightarrow> baseline" where
  "no_baseline s = \<lparr>bl_status = s, bl_overall = None, bl_selected = None, bl_variants = []\<rparr>"

definition strategy_variants :: "int \<Rightarrow> string list" where
  "strategy_variants requested =
     take (nat (max 1 (min 3 requested))) [''strict_schema'', ''normalize_and_extract'', ''evidence_guardrail'']"

text \<open>
  The median variant by overall score; an exception in any variant gives the error status. The
  text of a variant's program is an argument: it is a template around the configuration.
\<close>

definition evaluate_counterfactual_baseline ::
  "py_lib \<Rightarrow> eval_env \<Rightarrow> (string \<Rightarrow> string) \<Rightarrow> challenge_settings \<Rightarrow> run_spec list \<Rightarrow> baseline" where
  "evaluate_counterfactual_baseline L env baseline_code cs plan =
     (if \<not> cs_baseline_enabled cs then no_baseline BaselineDisabled
      else if plan = [] then no_baseline BaselineError
      else case bind (cs_variants cs) (\<lambda>n. sequence_exc
                  (map (\<lambda>s. run_counterfactual_candidate L env cs plan s (baseline_code s)) (strategy_variants n))) of
          Inl _ \<Rightarrow> no_baseline BaselineError
        | Inr results \<Rightarrow>
            (let sorted_ok = sort_key cf_overall results;
                 median = sorted_ok ! (length sorted_ok div 2)
             in \<lparr>bl_status = BaselineOk, bl_overall = Some (py_round 4 (cf_overall median)),
                 bl_selected = Some (cf_strategy median),
                 bl_variants = map (\<lambda>c. (cf_strategy c, py_round 4 (cf_overall c))) sorted_ok\<rparr>))"

section \<open>The evaluation\<close>

text \<open>The leverage metrics the engine reports; the worker adds the learning velocity later.\<close>

record engine_leverage =
  el_frontier :: frontier_result
  el_reliance :: reliance_result
  el_frontier_score :: rat
  el_reliance_score :: rat
  el_baseline :: baseline
  el_gain :: "rat option"
  el_gain_score :: "rat option"
  el_mastery :: mastery_result
  el_mastery_score :: rat
  el_profile_version :: string

record engine_result = evaluation_result +
  en_calibration :: rat
  en_prompt_tokens :: int
  en_completion_tokens :: int
  en_retries :: int
  en_records :: "run_record list"
  en_prompt_method :: string
  en_calibration_result :: calibration_result
  en_leverage :: engine_leverage
  en_usage :: usage_breakdown
  en_credibility :: "rat \<times> credibility_band"
  en_accuracy_ci :: interval
  en_robustness_ci :: interval
  en_run_accuracy_ci :: interval
  en_pass_rate_ci :: interval
  en_raw_overall :: rat
  en_cap_events :: "(rat \<times> string) list"
  en_hardcoded :: bool

definition json_str_opt :: "string option \<Rightarrow> json" where
  "json_str_opt = json_opt JStr"

definition run_json :: "run_record \<Rightarrow> json dict" where
  "run_json r =
     [(''run_type'', JStr (rr_run_type r)), (''run_index'', JInt (rr_run_index r)),
      (''success'', JBool (rr_success r)), (''status'', JStr (rr_status r)),
      (''accuracy'', JFloat (rr_accuracy r)), (''schema_valid'', JBool (rr_schema_valid r)),
      (''confidence'', json_opt JFloat (rr_confidence r)), (''output_chars'', JInt (rr_output_chars r)),
      (''output_hash'', json_str_opt (rr_output_hash r)), (''tokens_prompt'', JInt (rr_tokens_prompt r)),
      (''tokens_completion'', JInt (rr_tokens_completion r)), (''tokens_total'', JInt (rr_tokens_total r)),
      (''cost_usd'', JFloat (rr_cost_usd r)), (''latency_ms'', JFloat (rr_latency_ms r)),
      (''llm_calls'', JInt (rr_llm_calls r)), (''retries'', JInt (rr_retries r)),
      (''error'', json_str_opt (rr_error r)), (''meta'', rr_meta r)]"

definition summary_of :: "run_record \<Rightarrow> run_summary" where
  "summary_of r = \<lparr>run_schema_valid = rr_schema_valid r, run_passed = run_pass r, run_llm_calls = of_int (rr_llm_calls r)\<rparr>"

definition disqualify_mastery :: "mastery_result \<Rightarrow> mastery_result" where
  "disqualify_mastery m =
     m\<lparr>ms_score := 0,
       ms_components := map (\<lambda>(k, v). (k, if k = ''frontier_navigation'' \<or> k = ''reliance_calibration'' \<or>
                                            k = ''leverage_gain'' then 0 else v)) (ms_components m)\<rparr>"

definition engine_leverage_of ::
  "weight_profile \<Rightarrow> frontier_result \<Rightarrow> reliance_result \<Rightarrow> quality_scores \<Rightarrow> rat \<Rightarrow> baseline \<Rightarrow> bool \<Rightarrow> engine_leverage" where
  "engine_leverage_of profile frontier reliance q overall base hardcoded =
     (let fs = py_round 4 (fr_score frontier);
          rs = py_round 4 (rl_score reliance);
          gain = map_option (\<lambda>b. py_round 4 (overall - b)) (bl_overall base);
          gain_score = map_option (\<lambda>g. py_round 4 (normalize_leverage_gain g)) gain;
          m = score_ai_mastery fs rs (qs_prompt_quality q) None gain_score
                (Some (wp_without_baseline profile)) (Some (wp_with_baseline profile));
          m = (if hardcoded then disqualify_mastery m else m)
      in \<lparr>el_frontier = frontier, el_reliance = reliance, el_frontier_score = fs, el_reliance_score = rs,
          el_baseline = base, el_gain = gain, el_gain_score = gain_score, el_mastery = m,
          el_mastery_score = py_round 4 (ms_score m),
          el_profile_version = (if wp_version profile \<noteq> [] then wp_version profile else ''static_v1'')\<rparr>)"

definition engine_diagnostics ::
  "quality_scores \<Rightarrow> engine_leverage \<Rightarrow> string option \<Rightarrow> prompt_verdict \<Rightarrow> rat \<Rightarrow> json dict list" where
  "engine_diagnostics q lev gaming pq credibility =
     (let gain = (case (el_gain lev, bl_status (el_baseline lev)) of
                    (Some g, BaselineOk) \<Rightarrow> g | _ \<Rightarrow> 1);
          base = build_diagnostics
            \<lparr>dg_accuracy = qs_accuracy q, dg_robustness = qs_robustness q, dg_efficiency = qs_efficiency q,
             dg_orchestration = qs_orchestration q, dg_calibration = qs_calibration q,
             dg_frontier = el_frontier_score lev, dg_reliance = el_reliance_score lev, dg_leverage_gain = gain\<rparr>;
          d = (if pq_method pq = ''heuristic'' then tip ''prompt_quality'' ''medium''
                 ''Prompt judge fell back to heuristics; prompt-quality score confidence is reduced.'' # base else base);
          d = (case gaming of Some reason \<Rightarrow> tip ''anti_gaming'' ''high'' reason # d | None \<Rightarrow> d)
      in if credibility < 55 / 100 then tip ''credibility'' ''medium''
           ''Score confidence is limited for this run set. Improve calibration signals and avoid heuristic fallback paths.'' # d
         else d)"

definition score_submission ::
  "py_lib \<Rightarrow> eval_env \<Rightarrow> weight_profile \<Rightarrow> challenge_settings \<Rightarrow> run_totals \<Rightarrow> rat \<times> json dict \<Rightarrow>
   prompt_verdict \<Rightarrow> bool \<Rightarrow> baseline \<Rightarrow> py_exc + engine_result" where
  "score_submission L env profile cs tt code_quality pq hardcoded baseline_result =
     (let records = tt_records tt;
          calibration = score_calibration (extract_confidence_points records);
          samples = int (cal_samples calibration);
          accuracies = all_accuracies tt;
          run_ci = mean_confidence_interval (env_sqrt env) accuracies;
          half_width = iv_half_width run_ci;
          passed = length (filter run_pass records)
      in
      bind (base_scores env cs tt (snd code_quality) pq) (\<lambda>q0.
      let q1 = (if hardcoded then zero_scores else q0);
          gaming = gaming_of tt q1;
          q = gaming_penalty (gaming \<noteq> None) q1;
          frontier = score_frontier_navigation (usage_of tt) (quality_anchor q) (budgets cs (length records))
      in
      bind (score_reliance_calibration (qs_calibration q) (map summary_of records) (cs_expected_calls cs)
              (snd code_quality) (gaming \<noteq> None)) (\<lambda>reliance.
      let (overall, events) = capped_overall q (gaming \<noteq> None) (or_unknown (pq_method pq)) samples half_width;
          base = (if hardcoded then no_baseline BaselineSkipped else baseline_result);
          lev = engine_leverage_of profile frontier reliance q overall base hardcoded;
          cred = compute_credibility
            \<lparr>cr_prompt_judge_method = or_unknown (pq_method pq), cr_calibration_samples = samples,
             cr_run_count = int (length records), cr_hidden_set_count = int (length (cs_hidden cs)),
             cr_run_type_coverage = compute_run_type_coverage records,
             cr_counterfactual_status = status_text (bl_status base), cr_anti_gaming = (gaming \<noteq> None),
             cr_hardcoded = hardcoded, cr_half_width = half_width\<rparr>
      in Inr
        \<lparr>er_accuracy = qs_accuracy q, er_prompt_quality = qs_prompt_quality q,
         er_rule_adherence = qs_rule_adherence q, er_efficiency = qs_efficiency q,
         er_reliability = qs_reliability q, er_orchestration = qs_orchestration q,
         er_code_quality = (if hardcoded then 0 else py_round 4 (fst code_quality)),
         er_edge_case_handling = qs_robustness q, er_overall = overall,
         er_cost_usd = tt_cost tt, er_latency_ms = tt_latency tt, er_llm_calls = tt_calls tt,
         er_runs = map run_json records,
         er_diagnostics = engine_diagnostics q lev gaming pq (fst cred),
         en_calibration = qs_calibration q, en_prompt_tokens = tt_prompt_tokens tt,
         en_completion_tokens = tt_completion_tokens tt, en_retries = tt_retries tt,
         en_records = records, en_prompt_method = pq_method pq, en_calibration_result = calibration,
         en_leverage = lev, en_usage = build_usage_breakdown (tt_telemetry tt) records,
         en_credibility = cred,
         en_accuracy_ci = mean_confidence_interval (env_sqrt env) (tt_clean tt),
         en_robustness_ci = mean_confidence_interval (env_sqrt env) (tt_perturbed tt @ tt_adversarial tt),
         en_run_accuracy_ci = run_ci,
         en_pass_rate_ci = proportion_confidence_interval (env_sqrt env) (int passed) (int (length records)),
         en_raw_overall = raw_overall q, en_cap_events = events, en_hardcoded = hardcoded\<rparr>)))"

definition evaluate_submission ::
  "py_lib \<Rightarrow> eval_env \<Rightarrow> eval_settings \<Rightarrow> weight_profile \<Rightarrow> (string \<Rightarrow> string) \<Rightarrow> string \<Rightarrow> string \<Rightarrow>
   json dict \<Rightarrow> py_exc + engine_result" where
  "evaluate_submission L env st profile baseline_code code entrypoint challenge_config =
     bind (read_settings L challenge_config) (\<lambda>cs.
     let plan = build_run_plan L env st cs;
         results = map (\<lambda>spec. (spec, run_sandbox_spec env code entrypoint spec)) plan;
         tt = foldl (add_run_result L) no_totals results;
         hardcoded = detect_hardcoding L (tt_calls tt) (all_accuracies tt) code (JStr (cs_ground_truth cs));
         pq = env_prompt_quality env (tt_telemetry tt) (cs_description cs)
     in score_submission L env profile cs tt (env_code_quality env code entrypoint) pq hardcoded
          (evaluate_counterfactual_baseline L env baseline_code cs plan))"

section \<open>Bounds of the scores\<close>

definition unit :: "rat \<Rightarrow> bool" where
  "unit x \<longleftrightarrow> 0 \<le> x \<and> x \<le> 1"

lemma unit_round [simp]: "unit x \<Longrightarrow> unit (py_round n x)"
  by (simp add: unit_def py_round_unit)

lemma unit_clamp01 [simp]: "unit (clamp01 x)"
  by (simp add: unit_def)

lemma unit_combine2:
  assumes "unit x" "unit y" "0 \<le> a" "0 \<le> b" "a + b \<le> 1"
  shows "unit (x * a + y * b)"
proof -
  have "x * a \<le> a" "y * b \<le> b" "0 \<le> x * a" "0 \<le> y * b"
    using assms by (simp_all add: unit_def mult_left_le_one_le)
  then show ?thesis using assms(5) unfolding unit_def by linarith
qed

lemma unit_pass_share [simp]: "unit (pass_share bar xs)"
  by (simp add: unit_def pass_share_def)

lemma unit_rate [simp]: "unit (rate P xs)"
  by (simp add: unit_def)

lemma unit_score_robustness [simp]: "unit (score_robustness p a)"
  by (simp add: score_robustness_def Let_def unit_combine2 del: times_divide_eq_right)

lemma unit_constraint_adherence [simp]: "unit (score_constraint_adherence rs)"
proof (cases "rs = []")
  case True
  then show ?thesis by (simp add: score_constraint_adherence_def unit_def)
next
  case False
  have "unit (rate rr_schema_valid rs * (55 / 100) + rate run_pass rs * (45 / 100))"
    by (rule unit_combine2) simp_all
  then show ?thesis using False by (simp add: score_constraint_adherence_def Let_def del: times_divide_eq_right)
qed

lemma unit_mean_of: "xs \<noteq> [] \<Longrightarrow> list_all unit xs \<Longrightarrow> unit (mean xs)"
  using mean_ge [of xs 0] mean_le [of xs 1] by (simp add: unit_def list_all_iff)

lemma unit_reliability:
  assumes "list_all unit xs" "\<And>x. 0 \<le> x \<Longrightarrow> 0 \<le> sqrt_f x"
  shows "unit (score_reliability sqrt_f xs)"
proof (cases "xs = []")
  case True
  then show ?thesis by (simp add: score_reliability_def unit_def)
next
  case False
  let ?m = "mean xs"
  let ?s = "sqrt_f (mean (map (\<lambda>a. (a - ?m)\<^sup>2) xs))"
  have m: "unit ?m" using False assms(1) by (rule unit_mean_of)
  have "0 \<le> mean (map (\<lambda>a. (a - ?m)\<^sup>2) xs)" using False by (intro mean_ge) auto
  then have "0 \<le> ?s" by (rule assms(2))
  then have "?m * (1 - ?s) \<le> ?m * 1" using m by (intro mult_left_mono) (auto simp: unit_def)
  then have "unit (max 0 (?m * (1 - ?s)))" using m unfolding unit_def by simp
  then show ?thesis using False by (simp add: score_reliability_def Let_def)
qed

lemma unit_efficiency [simp]: "unit (score_efficiency_tradeoff u q b)"
  by (simp add: score_efficiency_tradeoff_def Let_def)

lemma unit_calibration [simp]: "unit (cal_score (score_calibration ps))"
  by (simp add: score_calibration_def Let_def) (simp add: unit_def)

lemma penalty_nonneg [simp]: "0 \<le> penalty k"
  by (simp add: penalty_def penalties_def dict_get_def)

lemma code_penalty_nonneg:
  assumes "code_penalty calls analysis = Inr p"
  shows "0 \<le> p"
proof (cases "analysis = []")
  case True
  then have "p = (if calls > 0 then penalty ''no_validation'' * (1 / 2) else 0)"
    using assms by (simp only: code_penalty_def) simp
  then show ?thesis by simp
next
  case False
  then show ?thesis using assms by (auto simp: code_penalty_def bind_Inr split: if_splits)
qed

lemma call_penalty_nonneg:
  assumes "call_penalty calls expected = Inr p" "0 \<le> expected"
  shows "0 \<le> p"
proof (cases "expected * 2 < calls")
  case True
  then have "0 \<le> (of_int (calls - expected) / of_int expected :: rat)"
    using assms(2) by (intro divide_nonneg_nonneg) simp_all
  then have "0 \<le> min (penalty ''redundant_calls'' * (of_int (calls - expected) / of_int expected)) (30 / 100)"
    by (intro min.boundedI mult_nonneg_nonneg) simp_all
  then show ?thesis using assms(1) True by (auto simp: call_penalty_def bind_Inr)
next
  case False
  then show ?thesis using assms(1) by (simp add: call_penalty_def)
qed

lemma unit_orchestration:
  assumes "score_orchestration calls retries expected analysis = Inr s" "0 \<le> expected"
  shows "unit s"
proof -
  obtain c p where "call_penalty calls expected = Inr c" "code_penalty calls analysis = Inr p"
    "s = py_round 4 (max 0 (1 - retry_penalty calls retries - c - p))"
    using assms(1) by (auto simp: score_orchestration_def bind_Inr)
  moreover have "0 \<le> retry_penalty calls retries" by (simp add: retry_penalty_def)
  moreover have "0 \<le> c" "0 \<le> p"
    using call_penalty_nonneg code_penalty_nonneg calculation(1,2) assms(2) by blast+
  ultimately show ?thesis by (simp add: unit_def py_round_unit)
qed

definition scores_unit :: "quality_scores \<Rightarrow> bool" where
  "scores_unit q \<longleftrightarrow>
     unit (qs_accuracy q) \<and> unit (qs_robustness q) \<and> unit (qs_reliability q) \<and> unit (qs_efficiency q) \<and>
     unit (qs_prompt_quality q) \<and> unit (qs_orchestration q) \<and> unit (qs_calibration q) \<and>
     unit (qs_rule_adherence q)"

definition totals_unit :: "run_totals \<Rightarrow> bool" where
  "totals_unit tt \<longleftrightarrow> list_all unit (tt_clean tt) \<and> list_all unit (tt_perturbed tt) \<and> list_all unit (tt_adversarial tt)"

lemma unit_0 [simp]: "unit 0" and unit_1 [simp]: "unit 1"
  by (simp_all add: unit_def)

lemma unit_min [simp]: "unit x \<Longrightarrow> 0 \<le> c \<Longrightarrow> unit (min x c)"
  by (auto simp: unit_def min_def)

lemma unit_process_run:
  assumes "ratio_ok (lib_ratio L)"
  shows "unit (rr_accuracy (process_run L r gt mode rt i meta))"
proof -
  have "unit (score_accuracy L out gt mode)" for out
    using list_accuracy_unit [OF assms] dict_accuracy_unit [OF assms] ratio_okD(1,2) [OF assms]
    by (simp add: unit_def score_accuracy_def json_accuracy_def text_accuracy_def split: option.split json.split)
  then show ?thesis by (simp add: process_run_def Let_def)
qed

lemma totals_unit_add:
  "ratio_ok (lib_ratio L) \<Longrightarrow> totals_unit tt \<Longrightarrow> totals_unit (add_run_result L tt sr)"
  by (simp add: totals_unit_def add_run_result_def Let_def unit_process_run)

lemma totals_unit_foldl:
  "ratio_ok (lib_ratio L) \<Longrightarrow> totals_unit tt \<Longrightarrow> totals_unit (foldl (add_run_result L) tt srs)"
  by (induction srs arbitrary: tt) (simp_all add: totals_unit_add)

lemma totals_unit_start [simp]: "totals_unit no_totals"
  by (simp add: totals_unit_def no_totals_def)

text \<open>What the evaluation needs of its environment for the bounds.\<close>

definition env_ok :: "eval_env \<Rightarrow> bool" where
  "env_ok env \<longleftrightarrow> (\<forall>x \<ge> 0. 0 \<le> env_sqrt env x) \<and> (\<forall>calls d. unit (pq_overall (env_prompt_quality env calls d)))"

lemma base_scores_unit:
  assumes "base_scores env cs tt analysis pq = Inr q" "env_ok env" "unit (pq_overall pq)"
    "totals_unit tt" "0 \<le> cs_expected_calls cs"
  shows "scores_unit q"
proof -
  obtain orch where orch: "score_orchestration (tt_calls tt) (tt_retries tt) (cs_expected_calls cs) analysis = Inr orch"
    using assms(1) by (auto simp: base_scores_def Let_def bind_Inr)
  have "list_all unit (all_accuracies tt)" using assms(4) by (simp add: totals_unit_def all_accuracies_def)
  then have "unit (score_reliability (env_sqrt env) (all_accuracies tt))"
    using assms(2) by (intro unit_reliability) (simp_all add: env_ok_def)
  moreover have "unit (if tt_clean tt \<noteq> [] then py_round 4 (mean (tt_clean tt)) else 0)"
    using assms(4) by (simp add: totals_unit_def unit_mean_of)
  moreover have "unit orch" using unit_orchestration [OF orch assms(5)] .
  ultimately show ?thesis
    using assms(1,3) orch by (auto simp: base_scores_def Let_def scores_unit_def)
qed

lemma gaming_penalty_unit [simp]: "scores_unit q \<Longrightarrow> scores_unit (gaming_penalty b q)"
  by (simp add: gaming_penalty_def scores_unit_def)

lemma zero_scores_unit [simp]: "scores_unit zero_scores"
  by (simp add: zero_scores_def scores_unit_def)

lemma raw_overall_unit:
  assumes "scores_unit q"
  shows "unit (raw_overall q)"
proof -
  have w: "score_weight ''accuracy'' = 35 / 100" "score_weight ''robustness'' = 15 / 100"
    "score_weight ''reliability'' = 10 / 100" "score_weight ''efficiency'' = 15 / 100"
    "score_weight ''prompt_quality'' = 10 / 100" "score_weight ''orchestration'' = 10 / 100"
    "score_weight ''calibration'' = 5 / 100"
    by (simp_all add: score_weight_def score_weights_def dict_get_def)
  have "unit (qs_accuracy q * (35 / 100) + qs_robustness q * (15 / 100) + qs_reliability q * (10 / 100) +
      qs_efficiency q * (15 / 100) + qs_prompt_quality q * (10 / 100) + qs_orchestration q * (10 / 100) +
      qs_calibration q * (5 / 100))"
    using assms unfolding scores_unit_def unit_def by simp
  then show ?thesis unfolding raw_overall_def w by (rule unit_round)
qed

lemma overall_caps_unit: "unit raw \<Longrightarrow> unit (fst (apply_overall_caps raw acc rule gaming))"
  by (simp add: apply_overall_caps_def Let_def apply_cap_def)

lemma confidence_caps_unit: "unit s \<Longrightarrow> unit (fst (apply_confidence_caps s m n h))"
  by (simp add: apply_confidence_caps_def Let_def apply_cap_def)

lemma capped_overall_unit: "scores_unit q \<Longrightarrow> unit (fst (capped_overall q g m n h))"
  using confidence_caps_unit [OF overall_caps_unit [OF raw_overall_unit]]
  by (simp add: capped_overall_def case_prod_beta)

lemma score_submission_base:
  assumes "score_submission L env profile cs tt cq pq hardcoded bl = Inr r"
  obtains q0 where "base_scores env cs tt (snd cq) pq = Inr q0"
    and "let q1 = (if hardcoded then zero_scores else q0); g = gaming_of tt q1;
             q = gaming_penalty (g \<noteq> None) q1
         in er_accuracy r = qs_accuracy q \<and> er_prompt_quality r = qs_prompt_quality q \<and>
            er_rule_adherence r = qs_rule_adherence q \<and> er_efficiency r = qs_efficiency q \<and>
            er_reliability r = qs_reliability q \<and> er_orchestration r = qs_orchestration q \<and>
            er_edge_case_handling r = qs_robustness q \<and> en_calibration r = qs_calibration q \<and>
            (er_overall r, en_cap_events r) = capped_overall q (g \<noteq> None) (or_unknown (pq_method pq))
               (int (cal_samples (score_calibration (extract_confidence_points (tt_records tt)))))
               (iv_half_width (mean_confidence_interval (env_sqrt env) (all_accuracies tt)))"
  using assms unfolding score_submission_def Let_def bind_Inr case_prod_beta by auto

section \<open>Properties\<close>


lemma tt_calls_add: "tt_calls (add_run_result L tt sr) = tt_calls tt + int (length (sr_telemetry (snd sr)))"
  by (simp add: add_run_result_def process_run_def Let_def)

lemma no_telemetry_no_calls:
  "\<forall>sr \<in> set srs. sr_telemetry (snd sr) = [] \<Longrightarrow> tt_calls (foldl (add_run_result L) tt srs) = tt_calls tt"
  by (induction srs arbitrary: tt) (simp_all add: tt_calls_add)

lemma no_calls_hardcoded: "detect_hardcoding L 0 accs code gt"
  by (simp add: detect_hardcoding_def Let_def)

lemma apply_cap_zero: "fst s = 0 \<Longrightarrow> 0 \<le> c \<Longrightarrow> fst (apply_cap b c r s) = 0"
  by (simp add: apply_cap_def)

lemma fst_if_zero: "fst x = (0 :: rat) \<Longrightarrow> fst y = 0 \<Longrightarrow> fst (if b then x else y) = 0"
  by simp

lemma fst_round_zero: "fst s = 0 \<Longrightarrow> fst (py_round 4 (fst s), e) = 0"
  by simp

lemma overall_caps_zero: "fst (apply_overall_caps 0 acc rule gaming) = 0"
  unfolding apply_overall_caps_def Let_def by (intro fst_round_zero apply_cap_zero) simp_all

lemma confidence_caps_zero: "fst (apply_confidence_caps 0 m n h) = 0"
  unfolding apply_confidence_caps_def Let_def by (intro fst_round_zero fst_if_zero apply_cap_zero) simp_all

lemma capped_overall_split:
  "capped_overall q g m n h =
     (let o' = apply_overall_caps (raw_overall q) (qs_accuracy q) (qs_rule_adherence q) g;
          c = apply_confidence_caps (fst o') m n h
      in (fst c, snd o' @ snd c))"
  unfolding capped_overall_def case_prod_beta Let_def ..

lemma capped_zero: "fst (capped_overall zero_scores g m n h) = 0"
proof -
  have raw: "raw_overall zero_scores = 0" by (simp add: raw_overall_def zero_scores_def)
  show ?thesis unfolding capped_overall_split Let_def raw overall_caps_zero fst_conv by (rule confidence_caps_zero)
qed

lemma gaming_penalty_zero [simp]: "gaming_penalty b zero_scores = zero_scores"
  by (simp add: gaming_penalty_def zero_scores_def)

lemma score_submission_leverage:
  assumes "score_submission L env profile cs tt cq pq hardcoded bl = Inr r"
  obtains frontier reliance q c
  where "en_leverage r = engine_leverage_of profile frontier reliance q (er_overall r)
            (if hardcoded then no_baseline BaselineSkipped else bl) hardcoded"
    and "en_credibility r = compute_credibility c" "cr_hardcoded c = hardcoded" "en_hardcoded r = hardcoded"
  using assms unfolding score_submission_def Let_def bind_Inr case_prod_beta by auto

lemma disqualified_result:
  assumes "score_submission L env profile cs tt cq pq True bl = Inr r"
  shows "en_hardcoded r \<and> er_overall r = 0 \<and> er_accuracy r = 0 \<and> el_mastery_score (en_leverage r) = 0 \<and>
         bl_status (el_baseline (en_leverage r)) = BaselineSkipped \<and> fst (en_credibility r) \<le> 48 / 100"
proof -
  from assms obtain frontier reliance q c
    where lev: "en_leverage r = engine_leverage_of profile frontier reliance q (er_overall r)
            (if True then no_baseline BaselineSkipped else bl) True"
      and cred: "en_credibility r = compute_credibility c" "cr_hardcoded c = True" "en_hardcoded r = True"
    by (rule score_submission_leverage)
  have "el_mastery_score (en_leverage r) = 0 \<and> bl_status (el_baseline (en_leverage r)) = BaselineSkipped"
    unfolding lev by (simp add: engine_leverage_of_def Let_def disqualify_mastery_def no_baseline_def)
  moreover have "fst (en_credibility r) \<le> 48 / 100"
    unfolding cred(1) by (rule hardcoded_not_credible) (simp add: cred(2))
  moreover have "er_accuracy r = 0 \<and> er_overall r = 0"
    using assms
  proof (rule score_submission_base)
    fix q0
    assume "let q1 = if True then zero_scores else q0; g = gaming_of tt q1; q = gaming_penalty (g \<noteq> None) q1
      in er_accuracy r = qs_accuracy q \<and> er_prompt_quality r = qs_prompt_quality q \<and>
            er_rule_adherence r = qs_rule_adherence q \<and> er_efficiency r = qs_efficiency q \<and>
            er_reliability r = qs_reliability q \<and> er_orchestration r = qs_orchestration q \<and>
            er_edge_case_handling r = qs_robustness q \<and> en_calibration r = qs_calibration q \<and>
            (er_overall r, en_cap_events r) = capped_overall q (g \<noteq> None) (or_unknown (pq_method pq))
               (int (cal_samples (score_calibration (extract_confidence_points (tt_records tt)))))
               (iv_half_width (mean_confidence_interval (env_sqrt env) (all_accuracies tt)))"
    then have acc: "er_accuracy r = qs_accuracy zero_scores"
      and over: "\<exists>g m n h. (er_overall r, en_cap_events r) = capped_overall zero_scores g m n h"
      unfolding Let_def if_True gaming_penalty_zero by blast+
    from over have "er_overall r = 0" using capped_zero by (metis fst_conv)
    then show ?thesis using acc by (simp add: zero_scores_def)
  qed
  ultimately show ?thesis using cred(3) by simp
qed

text \<open>
  A submission none of whose runs calls a model is disqualified: it is marked as hardcoded, its
  overall score, accuracy and AI mastery are zero, no baseline is run, and its credibility stays
  below the bar of the leaderboard.
\<close>

theorem no_model_use_disqualifies:
  assumes "evaluate_submission L env st profile baseline_code code entrypoint c = Inr r"
    and "\<forall>spec. sr_telemetry (env_sandbox env code entrypoint spec) = []"
  shows "en_hardcoded r \<and> er_overall r = 0 \<and> er_accuracy r = 0 \<and> el_mastery_score (en_leverage r) = 0 \<and>
         bl_status (el_baseline (en_leverage r)) = BaselineSkipped \<and> fst (en_credibility r) \<le> 48 / 100"
proof -
  obtain cs where cs: "read_settings L c = Inr cs" using assms(1) by (auto simp: evaluate_submission_def bind_Inr)
  define srs where "srs = map (\<lambda>spec. (spec, run_sandbox_spec env code entrypoint spec)) (build_run_plan L env st cs)"
  have "\<forall>sr \<in> set srs. sr_telemetry (snd sr) = []"
    using assms(2) by (auto simp: srs_def run_sandbox_spec_def)
  then have "tt_calls (foldl (add_run_result L) no_totals srs) = 0"
    by (simp add: no_telemetry_no_calls no_totals_def)
  moreover have "score_submission L env profile cs (foldl (add_run_result L) no_totals srs)
      (env_code_quality env code entrypoint)
      (env_prompt_quality env (tt_telemetry (foldl (add_run_result L) no_totals srs)) (cs_description cs))
      (detect_hardcoding L (tt_calls (foldl (add_run_result L) no_totals srs))
        (all_accuracies (foldl (add_run_result L) no_totals srs)) code (JStr (cs_ground_truth cs)))
      (evaluate_counterfactual_baseline L env baseline_code cs (build_run_plan L env st cs)) = Inr r"
    using assms(1) unfolding evaluate_submission_def cs bind_simps Let_def srs_def .
  ultimately show ?thesis by (simp only: no_calls_hardcoded) (rule disqualified_result)
qed

lemma py_round_idem [simp]: "py_round n (py_round n x) = py_round n x"
proof -
  have "py_round n x * 10 ^ n = of_int (round_half_even (x * 10 ^ n))" by (simp add: py_round_def)
  then have "round_half_even (py_round n x * 10 ^ n) = round_half_even (x * 10 ^ n)" by simp
  moreover have "py_round n (py_round n x) = of_int (round_half_even (py_round n x * 10 ^ n)) / 10 ^ n"
    by (rule py_round_def)
  ultimately show ?thesis by (simp only:) (simp only: py_round_def)
qed

definition exact_cap :: "rat \<times> string \<Rightarrow> bool" where
  "exact_cap c \<longleftrightarrow> py_round 4 (fst c) = fst c"

lemma caps_hold_round: "caps_hold s \<Longrightarrow> list_all exact_cap (snd s) \<Longrightarrow> caps_hold (py_round 4 (fst s), snd s)"
proof (unfold caps_hold_def, cases s)
  fix x evs assume s: "s = (x, evs)" and h: "list_all (\<lambda>(cap, _). fst s \<le> cap) (snd s)" "list_all exact_cap (snd s)"
  have "py_round 4 x \<le> c" if "(c, r) \<in> set evs" for c r
  proof -
    have "x \<le> c" "py_round 4 c = c" using h that s by (auto simp: list_all_iff exact_cap_def)
    then show ?thesis using py_round_mono [of x c 4] by simp
  qed
  then show "list_all (\<lambda>(cap, _). fst (py_round 4 (fst s), snd s) \<le> cap) (snd (py_round 4 (fst s), snd s))"
    using s by (auto simp: list_all_iff)
qed

lemma caps_hold_less: "caps_hold (x, evs) \<Longrightarrow> y \<le> x \<Longrightarrow> caps_hold (y, evs)"
  by (auto simp: caps_hold_def list_all_iff)

definition caps_ok :: "rat \<times> (rat \<times> string) list \<Rightarrow> bool" where
  "caps_ok s \<longleftrightarrow> caps_hold s \<and> list_all exact_cap (snd s)"

lemma caps_ok_start: "caps_ok (s, [])"
  by (simp add: caps_ok_def caps_hold_def)

lemma caps_ok_cap: "caps_ok s \<Longrightarrow> exact_cap (c, r) \<Longrightarrow> caps_ok (apply_cap b c r s)"
  unfolding caps_ok_def by (simp add: apply_cap_holds) (simp add: apply_cap_def)

lemma caps_ok_if: "caps_ok x \<Longrightarrow> caps_ok y \<Longrightarrow> caps_ok (if b then x else y)"
  by simp

lemma caps_ok_round: "caps_ok s \<Longrightarrow> caps_ok (py_round 4 (fst s), snd s)"
  unfolding caps_ok_def by (simp add: caps_hold_round)

lemma exact_caps_used:
  "exact_cap (55 / 100, r)" "exact_cap (50 / 100, r)" "exact_cap (45 / 100, r)" "exact_cap (78 / 100, r)"
  "exact_cap (70 / 100, r)" "exact_cap (76 / 100, r)" "exact_cap (80 / 100, r)" "exact_cap (84 / 100, r)"
  by (simp_all add: exact_cap_def py_round_def)

lemma overall_caps_ok: "caps_ok (apply_overall_caps raw acc rule gaming)"
  unfolding apply_overall_caps_def Let_def
  by (intro caps_ok_round caps_ok_cap caps_ok_start exact_caps_used)

lemma confidence_caps_ok: "caps_ok (apply_confidence_caps s m n h)"
  unfolding apply_confidence_caps_def Let_def
  by (intro caps_ok_round caps_ok_if caps_ok_cap caps_ok_start exact_caps_used)

lemma fst_overall_caps: "fst (apply_overall_caps raw acc rule gaming) \<le> py_round 4 raw"
  by (auto simp: apply_overall_caps_def Let_def apply_cap_def intro!: py_round_mono)

lemma mem_apply_cap: "x \<in> set (snd (apply_cap b c r s)) \<longleftrightarrow> b \<and> x = (c, r) \<or> x \<in> set (snd s)"
  by (auto simp: apply_cap_def)

lemma gaming_event:
  "(45 / 100, ''anti_gaming_triggered'') \<in> set (snd (apply_overall_caps raw acc rule gaming)) \<longleftrightarrow> gaming"
  by (simp add: apply_overall_caps_def Let_def mem_apply_cap)

lemma no_gaming_event:
  "(45 / 100, ''anti_gaming_triggered'') \<notin> set (snd (apply_confidence_caps s m n h))"
  unfolding apply_confidence_caps_def Let_def snd_conv by (simp add: mem_apply_cap)

lemma fst_confidence_caps: "fst (apply_confidence_caps s m n h) \<le> py_round 4 s"
  by (auto simp: apply_confidence_caps_def Let_def apply_cap_def intro!: py_round_mono)

text \<open>
  The overall score of an evaluation respects every cap that was applied to it: it never
  exceeds a cap that its list of events names, nor the uncapped score, and gaming always puts the
  cap 0.45 on the list.
\<close>

theorem overall_respects_caps:
  "caps_hold (capped_overall q gaming method samples half_width) \<and>
   fst (capped_overall q gaming method samples half_width) \<le> raw_overall q \<and>
   gaming = ((45 / 100, ''anti_gaming_triggered'') \<in> set (snd (capped_overall q gaming method samples half_width)))"
proof -
  define o' where "o' = apply_overall_caps (raw_overall q) (qs_accuracy q) (qs_rule_adherence q) gaming"
  define c where "c = apply_confidence_caps (fst o') method samples half_width"
  have ok: "caps_ok o'" "caps_ok c" unfolding o'_def c_def by (rule overall_caps_ok confidence_caps_ok)+
  have "py_round 4 (fst o') = fst o'" unfolding o'_def apply_overall_caps_def Let_def fst_conv by (rule py_round_idem)
  then have less: "fst c \<le> fst o'" using fst_confidence_caps unfolding c_def by metis
  have "caps_hold (fst o', snd o')" using ok(1) by (simp add: caps_ok_def)
  then have "caps_hold (fst c, snd o')" using less by (rule caps_hold_less)
  then have holds: "caps_hold (fst c, snd o' @ snd c)" using ok(2) by (simp add: caps_hold_def caps_ok_def)
  have "py_round 4 (raw_overall q) = raw_overall q" unfolding raw_overall_def by (rule py_round_idem)
  then have "fst o' \<le> raw_overall q" unfolding o'_def using fst_overall_caps by metis
  then have raw: "fst c \<le> raw_overall q" using less by simp
  have "gaming = ((45 / 100, ''anti_gaming_triggered'') \<in> set (snd o' @ snd c))"
    unfolding o'_def c_def set_append Un_iff by (simp only: gaming_event no_gaming_event simp_thms)
  with holds raw show ?thesis unfolding capped_overall_split Let_def o'_def [symmetric] c_def [symmetric] by simp
qed

section \<open>The median baseline\<close>

lemma sorted_nth_filter:
  fixes vs :: "rat list"
  assumes "sorted vs" "k < length vs"
  shows "length (filter (\<lambda>v. v < vs ! k) vs) \<le> k" "length (filter (\<lambda>v. vs ! k < v) vs) \<le> length vs - Suc k"
proof -
  have split: "vs = take k vs @ vs ! k # drop (Suc k) vs" using assms(2) by (rule id_take_nth_drop)
  have hi: "\<forall>v \<in> set (vs ! k # drop (Suc k) vs). vs ! k \<le> v"
    using assms by (auto simp: in_set_conv_nth sorted_iff_nth_mono)
  have lo: "\<forall>v \<in> set (take k vs). v \<le> vs ! k"
    using assms by (auto simp: in_set_conv_nth sorted_iff_nth_mono)
  have "filter (\<lambda>v. v < vs ! k) (vs ! k # drop (Suc k) vs) = []"
    using hi by (auto simp: filter_empty_conv)
  then have "filter (\<lambda>v. v < vs ! k) vs = filter (\<lambda>v. v < vs ! k) (take k vs)"
    by (subst split) (simp only: filter_append append_Nil2)
  also have "length \<dots> \<le> length (take k vs)" by (rule length_filter_le)
  finally show "length (filter (\<lambda>v. v < vs ! k) vs) \<le> k" by simp
  have "filter (\<lambda>v. vs ! k < v) (take k vs) = []" using lo by (auto simp: filter_empty_conv)
  then have "filter (\<lambda>v. vs ! k < v) vs = filter (\<lambda>v. vs ! k < v) (vs ! k # drop (Suc k) vs)"
    by (subst split) (simp only: filter_append append_Nil)
  also have "length \<dots> \<le> length (drop (Suc k) vs)" by (simp add: le_trans [OF length_filter_le])
  finally show "length (filter (\<lambda>v. vs ! k < v) vs) \<le> length vs - Suc k" by simp
qed

text \<open>
  The counterfactual baseline is a median of one to three variants: when it has a score, at
  most half of the variants score less and at most half score more, and the selected variant is
  the one with that score. Otherwise its status is not ok.
\<close>

theorem baseline_is_median:
  "case evaluate_counterfactual_baseline L env baseline_code cs plan of b \<Rightarrow>
     (case bl_overall b of
        None \<Rightarrow> bl_status b \<noteq> BaselineOk \<and> bl_selected b = None
      | Some m \<Rightarrow>
          bl_status b = BaselineOk \<and> 1 \<le> length (bl_variants b) \<and> length (bl_variants b) \<le> 3 \<and>
          2 * length (filter (\<lambda>v. snd v < m) (bl_variants b)) \<le> length (bl_variants b) \<and>
          2 * length (filter (\<lambda>v. m < snd v) (bl_variants b)) \<le> length (bl_variants b) \<and>
          (\<exists>s. bl_selected b = Some s \<and> (s, m) \<in> set (bl_variants b)))"
proof -
  have none: "bl_overall (no_baseline s) = None" "bl_selected (no_baseline s) = None"
    "bl_status (no_baseline s) = s" for s by (simp_all add: no_baseline_def)
  show ?thesis
  proof (cases "bind (cs_variants cs) (\<lambda>n. sequence_exc
      (map (\<lambda>s. run_counterfactual_candidate L env cs plan s (baseline_code s)) (strategy_variants n)))")
    case (Inl e)
    then show ?thesis by (simp add: evaluate_counterfactual_baseline_def none)
  next
    case (Inr results)
    then obtain n where n: "sequence_exc
      (map (\<lambda>s. run_counterfactual_candidate L env cs plan s (baseline_code s)) (strategy_variants n)) = Inr results"
      by (auto simp: bind_Inr)
    have len: "sequence_exc ms = Inr xs \<Longrightarrow> length xs = length ms" for ms :: "('e + 'a) list" and xs
      by (induction ms arbitrary: xs) (auto simp: bind_Inr)
    have "length results = length (strategy_variants n)" using len [OF n] by simp
    then have results: "1 \<le> length results" "length results \<le> 3" by (auto simp: strategy_variants_def)
    define srt where "srt = sort_key cf_overall results"
    define vs where "vs = map (\<lambda>c. (cf_strategy c, py_round 4 (cf_overall c))) srt"
    define k where "k = length srt div 2"
    have k: "k < length vs" "length vs = length results" using results by (auto simp: k_def vs_def srt_def)
    have "sorted (map cf_overall srt)" by (simp add: srt_def)
    then have "sorted (map snd vs)"
      by (auto simp: vs_def sorted_map comp_def intro: sorted_wrt_mono_rel [rotated] py_round_mono)
    note f = sorted_nth_filter [OF this, of k]
    have "length (filter (\<lambda>v. snd v < snd (vs ! k)) vs) \<le> k"
      "length (filter (\<lambda>v. snd (vs ! k) < snd v) vs) \<le> length vs - Suc k"
      using f k(1) by (simp_all add: filter_map comp_def)
    moreover have "2 * k \<le> length vs" "2 * (length vs - Suc k) \<le> length vs" by (auto simp: k_def vs_def)
    moreover have eq: "evaluate_counterfactual_baseline L env baseline_code cs plan =
        (if \<not> cs_baseline_enabled cs then no_baseline BaselineDisabled
         else if plan = [] then no_baseline BaselineError
         else \<lparr>bl_status = BaselineOk, bl_overall = Some (snd (vs ! k)), bl_selected = Some (fst (vs ! k)),
               bl_variants = vs\<rparr>)"
      using Inr k(1) by (simp add: evaluate_counterfactual_baseline_def Let_def vs_def k_def srt_def)
    moreover have "(fst (vs ! k), snd (vs ! k)) \<in> set vs" using k(1) by simp
    ultimately show ?thesis using results k(2) unfolding eq by (simp add: none)
  qed
qed

section \<open>Witnesses\<close>

definition sample_env :: eval_env where
  "sample_env =
     \<lparr>env_sandbox = (\<lambda>_ _ _. \<lparr>sr_success = True, sr_output = ''[]'', sr_exit_code = 0, sr_telemetry = [], sr_error = None\<rparr>),
      env_timed_out = (\<lambda>_. False), env_prompt_quality = (\<lambda>_ _. \<lparr>pq_overall = 1 / 2, pq_method = ''heuristic''\<rparr>),
      env_code_quality = (\<lambda>_ _. (1 / 2, [(''analysis'', JObj [])])),
      env_perturb_normal = (\<lambda>j _. j), env_perturb_adversarial = (\<lambda>j _. j), env_seed = int,
      env_sqrt = (\<lambda>_. 0), env_timeout_message = ''timeout''\<rparr>"

definition sample_config :: "json dict" where
  "sample_config = [(''ground_truth'', JStr ''[]''), (''counterfactual_baseline_enabled'', JBool False)]"

definition sample_eval_settings :: eval_settings where
  "sample_eval_settings = \<lparr>es_normal_runs = 0, es_adversarial_runs = 0\<rparr>"

lemma sample_settings:
  "\<exists>cs. read_settings sample_lib sample_config = Inr cs \<and> cs_expected_calls cs = 3"
  by (simp add: read_settings_def sample_config_def py_int_of_def dict_get_def Let_def)

lemma orchestration_total:
  assumes "expected \<noteq> 0" "as_dict (dict_get analysis ''analysis'' (JObj [])) = Inr d"
  shows "\<exists>s. score_orchestration calls retries expected analysis = Inr s"
  using assms by (simp add: score_orchestration_def call_penalty_def code_penalty_def)

lemma reliance_total:
  assumes "as_dict (dict_get analysis ''analysis'' (JObj [])) = Inr d"
  shows "\<exists>r. score_reliance_calibration c runs expected analysis g = Inr r"
  using assms by (simp add: score_reliance_calibration_def Let_def)

lemma base_scores_total:
  assumes "cs_expected_calls cs \<noteq> 0" "as_dict (dict_get analysis ''analysis'' (JObj [])) = Inr d"
  shows "\<exists>q. base_scores env cs tt analysis pq = Inr q"
proof -
  obtain s where "score_orchestration (tt_calls tt) (tt_retries tt) (cs_expected_calls cs) analysis = Inr s"
    using orchestration_total [OF assms] by blast
  then show ?thesis by (simp add: base_scores_def Let_def)
qed

text \<open>An evaluation returns a result when the configuration can be read and expects some calls.\<close>

lemma evaluation_total:
  assumes "read_settings L c = Inr cs" "cs_expected_calls cs \<noteq> 0"
    "as_dict (dict_get (snd (env_code_quality env code entrypoint)) ''analysis'' (JObj [])) = Inr d"
  shows "\<exists>r. evaluate_submission L env st profile baseline_code code entrypoint c = Inr r"
proof -
  have "\<exists>r. score_submission L env profile cs tt (env_code_quality env code entrypoint) pq h bl = Inr r" for tt pq h bl
  proof -
    obtain q where q: "base_scores env cs tt (snd (env_code_quality env code entrypoint)) pq = Inr q"
      using base_scores_total [OF assms(2,3)] by blast
    have rel: "\<exists>r. score_reliance_calibration k runs e (snd (env_code_quality env code entrypoint)) g = Inr r" for k runs e g
      using reliance_total [OF assms(3)] .
    show ?thesis unfolding score_submission_def Let_def q bind_simps case_prod_beta
      by (rule bind_total [OF rel])
  qed
  then show ?thesis unfolding evaluate_submission_def assms(1) bind_simps Let_def by blast
qed

lemma sample_evaluation:
  "\<exists>r. evaluate_submission sample_lib sample_env sample_eval_settings default_profile (\<lambda>s. s) ''x'' ''main.py'' sample_config = Inr r"
proof -
  obtain cs where "read_settings sample_lib sample_config = Inr cs" "cs_expected_calls cs \<noteq> 0"
    using sample_settings by auto
  then show ?thesis by (rule evaluation_total) (simp add: sample_env_def dict_get_def as_dict_def)
qed

lemma sample_env_ok: "env_ok sample_env"
  by (simp add: env_ok_def sample_env_def unit_def)


theorem no_model_use_disqualifies_witness:
  "\<exists>r. evaluate_submission sample_lib sample_env sample_eval_settings default_profile (\<lambda>s. s) ''x'' ''main.py''
         sample_config = Inr r \<and> en_hardcoded r \<and> er_overall r = 0"
proof -
  obtain r where r: "evaluate_submission sample_lib sample_env sample_eval_settings default_profile (\<lambda>s. s)
      ''x'' ''main.py'' sample_config = Inr r" using sample_evaluation by blast
  have "\<forall>spec. sr_telemetry (env_sandbox sample_env ''x'' ''main.py'' spec) = []" by (simp add: sample_env_def)
  from no_model_use_disqualifies [OF r this] r show ?thesis by blast
qed

end
