(* ===== verification/LearningFeedback.thy ===== *)
theory LearningFeedback
  imports Feedback "HOL-Library.Multiset"
begin

text \<open>
  Looking back and ahead (\<open>backend/app/workers/evaluate.py\<close>): whether the actions that the last
  report advised were followed by a gain, and the feedback for the next days with its readiness
  score, delegation mode and plan.
\<close>

section \<open>Learning effectiveness\<close>

definition report_leverage :: "json dict \<Rightarrow> string \<Rightarrow> py_exc + rat" where
  "report_leverage report k =
     bind (as_dict (py_or (dict_get report ''ai_leverage'' JNull) (JObj []))) (\<lambda>d.
       py_float (py_or (dict_get d k JNull) (JFloat 0)))"

definition effectiveness_deltas ::
  "submission \<Rightarrow> json dict \<Rightarrow> evaluation_result \<Rightarrow> ai_leverage \<Rightarrow> py_exc + rat option dict" where
  "effectiveness_deltas prev report current lev =
     bind (report_leverage report ''ai_mastery_score'') (\<lambda>p_mastery.
     bind (report_leverage report ''frontier_navigation_score'') (\<lambda>p_frontier.
     bind (report_leverage report ''reliance_calibration_score'') (\<lambda>p_reliance.
     bind (report_leverage report ''leverage_gain'') (\<lambda>p_gain.
       Inr [(''overall'', delta (Some (er_overall current)) (sub_score_overall prev)),
            (''accuracy'', delta (Some (er_accuracy current)) (sub_score_accuracy prev)),
            (''robustness'', delta (Some (er_edge_case_handling current)) (sub_score_edge_cases prev)),
            (''efficiency'', delta (Some (er_efficiency current)) (sub_score_efficiency prev)),
            (''reliability'', delta (Some (er_reliability current)) (sub_score_reliability prev)),
            (''orchestration'', delta (Some (er_orchestration current)) (sub_score_orchestration prev)),
            (''rule_adherence'', delta (Some (er_rule_adherence current)) (sub_score_rule_adherence prev)),
            (''ai_mastery'', delta (Some (al_ai_mastery lev)) (Some p_mastery)),
            (''frontier_navigation'', delta (Some (al_frontier_navigation lev)) (Some p_frontier)),
            (''reliance_calibration'', delta (Some (al_reliance_calibration lev)) (Some p_reliance)),
            (''leverage_gain'', delta (Some (or_zero (al_leverage_gain lev))) (Some p_gain))]))))"

record action_sample =
  as_title :: json
  as_impacts :: "json list"
  as_avg_delta :: rat
  as_success :: bool

text \<open>The verdict on one earlier action: none if it names no metric with a known delta.\<close>

definition assess_action ::
  "(json \<Rightarrow> string) \<Rightarrow> rat option dict \<Rightarrow> json \<Rightarrow> action_sample option" where
  "assess_action py_repr delta_map action =
     (case action of
        JObj a \<Rightarrow>
          (case dict_get a ''expected_impact'' JNull of
             JList impacts \<Rightarrow>
               (let deltas = List.map_filter id
                      (map (\<lambda>m. dict_get delta_map (py_str py_repr m) None) impacts)
                in if impacts = [] \<or> deltas = [] then None
                   else
                     let avg_delta = mean deltas
                     in Some \<lparr>as_title = dict_get a ''title'' (JStr ''action''), as_impacts = impacts,
                              as_avg_delta = py_round 4 avg_delta, as_success = avg_delta > 1 / 100\<rparr>)
           | _ \<Rightarrow> None)
      | _ \<Rightarrow> None)"

datatype unavailable_reason = NoPreviousSubmission | NoPreviousActions | NoAssessableActions

record effectiveness_ok =
  eo_hit_rate :: rat
  eo_assessed :: nat
  eo_successful :: nat
  eo_overall_delta :: "rat option"
  eo_samples :: "action_sample list"

datatype effectiveness = Unavailable unavailable_reason | Assessed effectiveness_ok

definition compute_learning_effectiveness ::
  "(json \<Rightarrow> string) \<Rightarrow> submission option \<Rightarrow> evaluation_result \<Rightarrow> ai_leverage \<Rightarrow> py_exc + effectiveness" where
  "compute_learning_effectiveness py_repr previous current lev =
     (case previous of
        None \<Rightarrow> Inr (Unavailable NoPreviousSubmission)
      | Some prev \<Rightarrow>
        (case sub_report prev of
           Some (JObj report) \<Rightarrow>
             (case py_or (dict_get report ''coaching_actions'' JNull) (JList []) of
                JList (a # as) \<Rightarrow>
                  bind (effectiveness_deltas prev report current lev) (\<lambda>delta_map.
                    let samples = List.map_filter (assess_action py_repr delta_map) (take 5 (a # as));
                        assessed = length samples;
                        successful = length (filter as_success samples)
                    in if assessed = 0 then Inr (Unavailable NoAssessableActions)
                       else Inr (Assessed
                         \<lparr>eo_hit_rate = py_round 4 (of_nat successful / of_nat assessed),
                          eo_assessed = assessed, eo_successful = successful,
                          eo_overall_delta = delta (Some (er_overall current)) (sub_score_overall prev),
                          eo_samples = samples\<rparr>))
              | _ \<Rightarrow> Inr (Unavailable NoPreviousActions))
         | _ \<Rightarrow> Inr (Unavailable NoPreviousSubmission)))"

definition coach_hit_rate :: "effectiveness \<Rightarrow> rat option" where
  "coach_hit_rate e = (case e of Unavailable _ \<Rightarrow> None | Assessed r \<Rightarrow> Some (eo_hit_rate r))"

section \<open>Future feedback\<close>

datatype behavior = VerificationDiscipline | EfficientLeverage | AdaptationSpeed | EvaluationRigor

datatype readiness_band = BandHigh | BandMedium | BandLow

datatype delegation_mode = OverDelegating | UnderLeveraging | Balanced

record future_action =
  fa_priority :: action_priority
  fa_goal :: string
  fa_actions :: "string list"
  fa_metric :: string

record future_feedback =
  ff_summary :: string
  ff_readiness_score :: rat
  ff_readiness_band :: readiness_band
  ff_delegation_mode :: delegation_mode
  ff_behavior_scores :: "(behavior \<times> rat) list"
  ff_next_7_days :: "future_action list"
  ff_protocol :: "string list"
  ff_readiness_weights :: "rat dict"
  ff_calls_per_run :: rat
  ff_run_type_coverage :: rat
  ff_profile_version :: string
  ff_credibility_score :: rat
  ff_frontier_score :: rat
  ff_reliance_score :: rat
  ff_velocity_score :: rat
  ff_coach_hit_rate :: "rat option"
  ff_leverage_gain :: "rat option"

definition normalize_leverage_gain_for_feedback :: "rat \<Rightarrow> rat" where
  "normalize_leverage_gain_for_feedback gain = clamp01 ((gain + 10 / 100) / (30 / 100))"

definition future_action_for_dimension :: "behavior \<Rightarrow> rat \<Rightarrow> rat option \<Rightarrow> future_action" where
  "future_action_for_dimension dimension score leverage_gain =
     (let prio = (if score < 60 / 100 then PrioHigh else PrioMedium)
      in case dimension of
        VerificationDiscipline \<Rightarrow>
          \<lparr>fa_priority = prio, fa_goal = ''Increase verification discipline'',
           fa_actions = [''Add strict JSON/schema validation before scoring output as success.'',
             ''Use bounded retries (max 2) with explicit fallback behavior for invalid outputs.''],
           fa_metric = ''Raise reliance calibration to >= 0.70 and rule adherence to >= 0.75.''\<rparr>
      | EfficientLeverage \<Rightarrow>
          (let gain_suffix = (case leverage_gain of None \<Rightarrow> []
                 | Some g \<Rightarrow> '' Current leverage gain is '' @ show_fixed True 2 g @ ''.'')
           in \<lparr>fa_priority = prio, fa_goal = ''Improve quality-cost frontier use'',
               fa_actions = [''Reduce prompt/context redundancy and combine low-value LLM calls.'',
                 ''Tighten output schema constraints so first-pass quality improves without extra retries.''],
               fa_metric = strip (''Reach frontier navigation >= 0.70 and positive leverage gain.'' @ gain_suffix)\<rparr>)
      | AdaptationSpeed \<Rightarrow>
          \<lparr>fa_priority = prio, fa_goal = ''Increase learning velocity'',
           fa_actions = [''Ship one focused change per iteration and measure only the target metric impact.'',
             ''Keep a short change log mapping each edit to expected metric movement before re-run.''],
           fa_metric = ''Reach learning velocity >= 0.60 and positive delta_overall on next attempt.''\<rparr>
      | EvaluationRigor \<Rightarrow>
          \<lparr>fa_priority = prio, fa_goal = ''Strengthen evaluation rigor'',
           fa_actions = [''Test all required run types (clean, perturbed, adversarial) plus hidden cases when available.'',
             ''Treat low-credibility runs as non-publishable and iterate until confidence improves.''],
           fa_metric = ''Reach credibility >= 0.75 and maintain full run-type coverage.''\<rparr>)"

text \<open>
  The plan loop: the dimensions from the weakest up; a strong one is passed over once something is
  planned, and the loop stops after three.
\<close>

fun plan_next :: "rat option \<Rightarrow> (behavior \<times> rat) list \<Rightarrow> future_action list \<Rightarrow> future_action list" where
  "plan_next gain [] plan = plan"
| "plan_next gain ((dimension, score) # rest) plan =
     (if score \<ge> 70 / 100 \<and> length plan \<ge> 1 then plan_next gain rest plan
      else
        let plan = plan @ [future_action_for_dimension dimension score gain]
        in if length plan \<ge> 3 then plan else plan_next gain rest plan)"

definition readiness_weights :: "rat dict \<Rightarrow> rat dict" where
  "readiness_weights raw =
     (let ws = map (\<lambda>(k, v). (k, case map_of raw k of None \<Rightarrow> v | Some w \<Rightarrow> max 0 w)) default_readiness;
          total = sum_list (map snd ws)
      in if total > 0 then map (\<lambda>(k, v). (k, v / total)) ws else ws)"

definition observed_run_types :: "(json \<Rightarrow> string) \<Rightarrow> json dict list \<Rightarrow> string list" where
  "observed_run_types py_repr runs =
     map (\<lambda>r. to_lower (strip (py_str py_repr (dict_get r ''run_type'' (JStr []))))) runs"

definition feedback_coverage :: "(json \<Rightarrow> string) \<Rightarrow> json dict list \<Rightarrow> rat" where
  "feedback_coverage py_repr runs =
     (let run_types = observed_run_types py_repr runs;
          required = [''clean'', ''perturbed'', ''adversarial''];
          required_coverage = of_nat (length (filter (\<lambda>t. t \<in> set run_types) required)) / 3;
          hidden_bonus = (if ''hidden_clean'' \<in> set run_types then 1 / 10 else 0)
      in clamp01 (required_coverage + hidden_bonus))"

definition feedback_velocity :: "ai_leverage \<Rightarrow> rat" where
  "feedback_velocity lev =
     clamp01 (if al_learning_velocity lev = 0 then 1 / 2 else al_learning_velocity lev)"

definition behavior_scores ::
  "rat \<Rightarrow> rat \<Rightarrow> evaluation_result \<Rightarrow> ai_leverage \<Rightarrow> rat option \<Rightarrow> (behavior \<times> rat) list" where
  "behavior_scores coverage credibility result lev hit_rate =
     (let credibility_score = clamp01 credibility;
          frontier = clamp01 (al_frontier_navigation lev);
          reliance = clamp01 (al_reliance_calibration lev);
          velocity = feedback_velocity lev;
          gain_norm = (case al_leverage_gain lev of None \<Rightarrow> 1 / 2
                       | Some g \<Rightarrow> normalize_leverage_gain_for_feedback g);
          coach_hit = (case hit_rate of None \<Rightarrow> 1 / 2 | Some h \<Rightarrow> clamp01 h);
          rule_adherence = clamp01 (er_rule_adherence result);
          reliability = clamp01 (er_reliability result)
      in [(VerificationDiscipline, clamp01 (reliance * (50 / 100) + rule_adherence * (25 / 100) + reliability * (25 / 100))),
          (EfficientLeverage, clamp01 (frontier * (65 / 100) + gain_norm * (35 / 100))),
          (AdaptationSpeed, clamp01 (velocity * (65 / 100) + coach_hit * (35 / 100))),
          (EvaluationRigor, clamp01 (credibility_score * (75 / 100) + coverage * (25 / 100)))])"

definition behavior_key :: "behavior \<Rightarrow> string" where
  "behavior_key b = (case b of
      VerificationDiscipline \<Rightarrow> ''verification_discipline'' | EfficientLeverage \<Rightarrow> ''efficient_leverage''
    | AdaptationSpeed \<Rightarrow> ''adaptation_speed'' | EvaluationRigor \<Rightarrow> ''evaluation_rigor'')"

definition eval_protocol :: "growth \<Rightarrow> string list" where
  "eval_protocol g =
     (let controlled = ''Run one controlled prompt/code change per iteration and compare against previous submission.'';
          rest = [''Require strict schema validation + bounded retries before accepting model output.'',
            ''Evaluate across clean, perturbed, adversarial, and hidden cases when available before publish.'',
            ''Track leverage gain and keep it positive while reducing unnecessary calls/tokens.'']
      in if gr_status g = Regressed
         then controlled # ''First recover baseline: revert highest-risk edits, then introduce only one targeted fix.'' # rest
         else controlled # rest)"

definition build_future_feedback ::
  "(json \<Rightarrow> string) \<Rightarrow> weight_profile \<Rightarrow> evaluation_result \<Rightarrow> ai_leverage \<Rightarrow> rat \<Rightarrow> effectiveness \<Rightarrow>
   growth \<Rightarrow> future_feedback" where
  "build_future_feedback py_repr profile result lev credibility eff g =
     (let runs = er_runs result;
          coverage = feedback_coverage py_repr runs;
          dims = behavior_scores coverage credibility result lev (coach_hit_rate eff);
          scores = map (\<lambda>(b, v). (b, py_round 4 v)) dims;
          weights = readiness_weights (wp_future_readiness profile);
          readiness = py_round 4 (clamp01 (sum_list
            (map (\<lambda>(b, v). v * dict_get weights (behavior_key b) 0) dims)));
          band = (if readiness \<ge> 75 / 100 then BandHigh
                  else if readiness \<ge> 55 / 100 then BandMedium else BandLow);
          calls_per_run = of_int (er_llm_calls result) / of_int (max 1 (int (length runs)));
          reliance = clamp01 (al_reliance_calibration lev);
          frontier = clamp01 (al_frontier_navigation lev);
          mode = (if calls_per_run > 25 / 10 \<and> reliance < 65 / 100 then OverDelegating
                  else if calls_per_run < 8 / 10 \<and> frontier < 55 / 100 then UnderLeveraging
                  else Balanced);
          plan = plan_next (al_leverage_gain lev) (sort_key snd scores) [];
          plan = (if plan = []
                  then [\<lparr>fa_priority = PrioMedium,
                         fa_goal = ''Protect gains while pushing hard-case robustness'',
                         fa_actions = [''Keep one-change-per-iteration discipline with explicit regression checks.'',
                           ''Shift effort from easy-case tuning to perturbed/adversarial hard cases.''],
                         fa_metric = ''Hold reliability >= 0.75 while improving robustness by >= 0.05.''\<rparr>]
                  else plan);
          summary = (case band of
              BandHigh \<Rightarrow> ''AI usage is strong and disciplined. Focus on raising leverage gain without losing reliability.''
            | BandMedium \<Rightarrow> ''Core AI usage habits are present, but weak dimensions are capping consistent score growth.''
            | BandLow \<Rightarrow> ''Current AI usage is too fragile for reliable gains. Prioritize verification and evaluation discipline first.'')
      in \<lparr>ff_summary = summary, ff_readiness_score = readiness, ff_readiness_band = band,
          ff_delegation_mode = mode, ff_behavior_scores = scores, ff_next_7_days = plan,
          ff_protocol = eval_protocol g,
          ff_readiness_weights = map (\<lambda>(k, v). (k, py_round 4 v)) weights,
          ff_calls_per_run = py_round 4 calls_per_run,
          ff_run_type_coverage = py_round 4 coverage,
          ff_profile_version = (if wp_version profile = [] then ''static_v1'' else wp_version profile),
          ff_credibility_score = py_round 4 (clamp01 credibility),
          ff_frontier_score = py_round 4 frontier, ff_reliance_score = py_round 4 reliance,
          ff_velocity_score = py_round 4 (feedback_velocity lev),
          ff_coach_hit_rate = map_option (\<lambda>h. py_round 4 (clamp01 h)) (coach_hit_rate eff),
          ff_leverage_gain = map_option (py_round 4) (al_leverage_gain lev)\<rparr>)"

section \<open>Lemmas on growth and coaching\<close>

lemma clamp01_affine_mono: "x \<le> y \<Longrightarrow> 0 < d \<Longrightarrow> clamp01 ((x + c) / d) \<le> clamp01 ((y + c) / d)"
  by (intro clamp01_mono divide_right_mono) auto

lemma weigh_deltas_bounds:
  "\<forall>x \<in> set (weigh_deltas ws). 0 \<le> fst x \<and> fst x \<le> 1"
  by (induction ws) (auto simp: weigh_deltas_def List.map_filter_simps split: option.splits)

lemma weighted_mean_unit:
  fixes ps :: "(rat \<times> rat) list"
  assumes "\<forall>p \<in> set ps. 0 \<le> fst p \<and> fst p \<le> 1" "\<forall>p \<in> set ps. 0 \<le> snd p"
  shows "0 \<le> sum_list (map (\<lambda>(v, w). v * w) ps) / sum_list (map snd ps)"
    and "sum_list (map (\<lambda>(v, w). v * w) ps) / sum_list (map snd ps) \<le> 1"
proof -
  have "fst p * snd p \<le> snd p \<and> 0 \<le> fst p * snd p" if "p \<in> set ps" for p
  proof -
    have "0 \<le> fst p" "fst p \<le> 1" "0 \<le> snd p" using assms that by blast+
    then show ?thesis by (simp add: mult_left_le_one_le)
  qed
  then have "sum_list (map (\<lambda>p. fst p * snd p) ps) \<le> sum_list (map snd ps)"
    "0 \<le> sum_list (map (\<lambda>p. fst p * snd p) ps)"
    by (auto intro!: sum_list_mono sum_list_nonneg)
  moreover have "0 \<le> sum_list (map snd ps)"
    using assms(2) by (auto intro!: sum_list_nonneg)
  moreover have eq: "map (\<lambda>(v, w). v * w) ps = map (\<lambda>p. fst p * snd p) ps"
    by (simp add: case_prod_beta)
  ultimately show "0 \<le> sum_list (map (\<lambda>(v, w). v * w) ps) / sum_list (map snd ps)"
    "sum_list (map (\<lambda>(v, w). v * w) ps) / sum_list (map snd ps) \<le> 1"
    unfolding eq by (auto simp: divide_le_eq_1)
qed

lemma weigh_deltas_weights:
  "\<forall>p \<in> set ws. 0 \<le> snd p \<Longrightarrow> \<forall>x \<in> set (weigh_deltas ws). 0 \<le> snd x"
  by (induction ws) (auto simp: weigh_deltas_def List.map_filter_simps split: option.splits)

lemma plan_next_length: "length plan \<le> 2 \<Longrightarrow> length (plan_next gain dims plan) \<le> 3"
  by (induction gain dims plan rule: plan_next.induct) (auto simp: Let_def)

lemma plan_next_keeps: "plan \<noteq> [] \<Longrightarrow> plan_next gain dims plan \<noteq> []"
  by (induction gain dims plan rule: plan_next.induct) (auto simp: Let_def)

lemma plan_next_head:
  "plan_next gain ((dimension, score) # rest) [] \<noteq> [] \<and>
   hd (plan_next gain ((dimension, score) # rest) []) = future_action_for_dimension dimension score gain"
proof -
  have keep: "hd (plan_next gain dims (a # plan)) = a" for dims a plan
  proof (induction gain dims "a # plan" arbitrary: plan rule: plan_next.induct)
    case (2 gain dimension score rest)
    then show ?case by (auto simp: Let_def)
  qed simp
  show ?thesis using keep plan_next_keeps by (simp add: Let_def)
qed


lemma sort_key_hd_min:
  assumes "xs \<noteq> []"
  shows "hd (sort_key f xs) \<in> set xs" "x \<in> set xs \<Longrightarrow> f (hd (sort_key f xs)) \<le> f x"
proof -
  have ne: "sort_key f xs \<noteq> []" using assms by (metis length_0_conv length_sort)
  then show "hd (sort_key f xs) \<in> set xs" by (metis hd_in_set set_sort)
  have "sorted (map f (sort_key f xs))" by simp
  then have "\<forall>y \<in> set (sort_key f xs). f (hd (sort_key f xs)) \<le> f y"
    using ne by (cases "sort_key f xs") auto
  then show "x \<in> set xs \<Longrightarrow> f (hd (sort_key f xs)) \<le> f x" by simp
qed

section \<open>Properties\<close>

text \<open>
  The growth score always lies between 0 and 1. A first attempt is neutral (0.5); an attempt
  that repeats the previous scores exactly is flat and neutral too.
\<close>

theorem growth_score_unit:
  "0 \<le> gr_score (compute_growth previous current) \<and> gr_score (compute_growth previous current) \<le> 1 \<and>
   gr_score (compute_growth None current) = 1 / 2 \<and>
   compute_growth (Some (prev\<lparr>sub_score_overall := Some (er_overall current),
       sub_score_accuracy := Some (er_accuracy current),
       sub_score_edge_cases := Some (er_edge_case_handling current),
       sub_score_efficiency := Some (er_efficiency current)\<rparr>)) current
     = \<lparr>gr_previous = Some (sub_id prev), gr_overall = Some 0, gr_accuracy = Some 0,
        gr_robustness = Some 0, gr_efficiency = Some 0, gr_score = 1 / 2, gr_status = Flat\<rparr>"
proof -
  have half: "py_round 4 (1 / 2) = 1 / 2" by (simp add: py_round_def)
  have unit: "0 \<le> gr_score (compute_growth previous current) \<and> gr_score (compute_growth previous current) \<le> 1"
  proof (cases previous)
    case None
    then show ?thesis by (simp add: compute_growth_def)
  next
    case (Some p)
    define nv where "nv = weigh_deltas
      [(delta (Some (er_overall current)) (sub_score_overall p), 4 / 10),
       (delta (Some (er_accuracy current)) (sub_score_accuracy p), 2 / 10),
       (delta (Some (er_edge_case_handling current)) (sub_score_edge_cases p), 2 / 10),
       (delta (Some (er_efficiency current)) (sub_score_efficiency p), 2 / 10)]"
    have nv: "\<forall>x \<in> set nv. 0 \<le> fst x \<and> fst x \<le> 1" "\<forall>x \<in> set nv. 0 \<le> snd x"
      unfolding nv_def by (rule weigh_deltas_bounds) (rule weigh_deltas_weights, simp)
    have "gr_score (compute_growth previous current)
        = py_round 4 (if nv \<noteq> [] then sum_list (map (\<lambda>(v, w). v * w) nv) / sum_list (map snd nv) else 1 / 2)"
      unfolding Some nv_def by (simp add: compute_growth_def Let_def)
    then show ?thesis using weighted_mean_unit [OF nv] by (simp add: py_round_unit)
  qed
  have first: "gr_score (compute_growth None current) = 1 / 2"
    by (simp add: compute_growth_def)
  have middle: "clamp01 (1 / 2) = 1 / 2" by (simp add: clamp01_def)
  have flat: "compute_growth (Some (prev\<lparr>sub_score_overall := Some (er_overall current),
       sub_score_accuracy := Some (er_accuracy current),
       sub_score_edge_cases := Some (er_edge_case_handling current),
       sub_score_efficiency := Some (er_efficiency current)\<rparr>)) current
     = \<lparr>gr_previous = Some (sub_id prev), gr_overall = Some 0, gr_accuracy = Some 0,
        gr_robustness = Some 0, gr_efficiency = Some 0, gr_score = 1 / 2, gr_status = Flat\<rparr>"
    by (simp add: compute_growth_def delta_def Let_def weigh_deltas_def List.map_filter_simps half middle)
  from unit first flat show ?thesis by (intro conjI) blast+
qed

text \<open>
  The coaching focus is the dimension that is furthest below its target: no other dimension
  has a smaller margin, and the explanation is the one for that dimension.
\<close>

theorem coaching_focus_is_weakest:
  "\<exists>score target. (co_next_focus (build_coaching result g m previous), score, target,
        co_explanation (build_coaching result g m previous)) \<in> set (priorities result) \<and>
     list_all (\<lambda>p. score - target \<le> priority_gap p) (priorities result)"
proof -
  let ?w = "hd (sort_key priority_gap (priorities result))"
  have ne: "priorities result \<noteq> []" by (simp add: priorities_def)
  have "?w = (fst ?w, fst (snd ?w), fst (snd (snd ?w)), snd (snd (snd ?w)))" by simp
  then have w: "(fst ?w, fst (snd ?w), fst (snd (snd ?w)), snd (snd (snd ?w))) \<in> set (priorities result)"
    using sort_key_hd_min(1) [OF ne, of priority_gap] by metis
  have "\<forall>p \<in> set (priorities result). fst (snd ?w) - fst (snd (snd ?w)) \<le> priority_gap p"
    using sort_key_hd_min(2) [OF ne, of _ priority_gap] by (simp add: priority_gap_def case_prod_beta)
  with w show ?thesis
    by (intro exI [of _ "fst (snd ?w)"] exI [of _ "fst (snd (snd ?w))"])
       (simp add: build_coaching_def Let_def list_all_iff)
qed

text \<open>
  A report advises at most five actions, the urgent ones first; if one of the collected actions
  is left out, none that is less urgent is kept.
\<close>

theorem coaching_actions_ordered:
  assumes "build_coaching_actions py_repr result g n lev = Inr actions"
    "sequence_exc (map (failed_run_action py_repr)
       (take 3 (filter (\<lambda>r. dict_get r ''status'' JNull \<noteq> JStr ''pass'') (er_runs result)))) = Inr run_actions"
  shows "length actions \<le> 5 \<and>
    sorted (map (\<lambda>a. priority_rank (ca_priority a)) actions) \<and>
    (\<exists>dropped. mset (actions @ dropped) = mset (run_actions @
         List.map_filter (diagnostic_action py_repr) (take 2 (er_diagnostics result)) @
         regression_action g @ churn_action n result @ leverage_actions lev g) \<and>
       (\<forall>a \<in> set actions. \<forall>d \<in> set dropped. priority_rank (ca_priority a) \<le> priority_rank (ca_priority d)))"
proof -
  let ?rank = "\<lambda>a. priority_rank (ca_priority a)"
  let ?all = "run_actions @ List.map_filter (diagnostic_action py_repr) (take 2 (er_diagnostics result)) @
         regression_action g @ churn_action n result @ leverage_actions lev g"
  let ?s = "sort_key ?rank ?all"
  have actions: "actions = take 5 ?s"
    using assms by (simp add: build_coaching_actions_def Let_def)
  have split: "?s = actions @ drop 5 ?s" by (simp only: actions append_take_drop_id)
  have "sorted (map ?rank (actions @ drop 5 ?s))" unfolding split [symmetric] by (rule sorted_sort_key)
  then have sorted: "sorted (map ?rank actions)"
    "\<forall>a \<in> set actions. \<forall>d \<in> set (drop 5 ?s). ?rank a \<le> ?rank d"
    by (simp_all add: sorted_append)
  have "mset (actions @ drop 5 ?s) = mset ?all" unfolding split [symmetric] by (rule mset_sort)
  then show ?thesis using sorted by (intro conjI exI [of _ "drop 5 ?s"]) (simp_all add: actions)
qed

definition sample_result :: evaluation_result where
  "sample_result =
     \<lparr>er_accuracy = 9 / 10, er_prompt_quality = 8 / 10, er_rule_adherence = 7 / 10,
      er_efficiency = 5 / 10, er_reliability = 8 / 10, er_orchestration = 9 / 10,
      er_code_quality = 9 / 10, er_edge_case_handling = 8 / 10, er_overall = 8 / 10,
      er_cost_usd = 1 / 100, er_latency_ms = 100, er_llm_calls = 3, er_runs = [],
      er_diagnostics = [[(''severity'', JStr ''medium''), (''metric'', JStr ''efficiency'')]]\<rparr>"

definition sample_leverage :: ai_leverage where
  "sample_leverage =
     \<lparr>al_frontier_navigation = 4 / 10, al_reliance_calibration = 8 / 10,
      al_leverage_gain_score = None, al_leverage_gain = None, al_counterfactual_overall = None,
      al_learning_velocity = 1 / 2, al_ai_mastery = 6 / 10,
      al_velocity_signal = None, al_composite_signal = None\<rparr>"

theorem coaching_actions_ordered_witness:
  "\<exists>actions. build_coaching_actions (\<lambda>_. []) sample_result (compute_growth None sample_result) 0
       sample_leverage = Inr actions \<and> length actions \<le> 5"
proof -
  let ?g = "compute_growth None sample_result"
  have seq: "sequence_exc (map (failed_run_action (\<lambda>_. []))
       (take 3 (filter (\<lambda>r. dict_get r ''status'' JNull \<noteq> JStr ''pass'') (er_runs sample_result)))) = Inr []"
    by (simp add: sample_result_def)
  then obtain actions where a: "build_coaching_actions (\<lambda>_. []) sample_result ?g 0 sample_leverage = Inr actions"
    by (simp add: build_coaching_actions_def Let_def)
  from coaching_actions_ordered [OF a seq] a show ?thesis by blast
qed

text \<open>
  The future feedback has a readiness score between 0 and 1 with the band that belongs to it,
  and a plan of one to three actions whose first one addresses a dimension with the lowest score.
\<close>

theorem future_feedback_plan:
  "case build_future_feedback py_repr profile result lev credibility eff g of f \<Rightarrow>
     0 \<le> ff_readiness_score f \<and> ff_readiness_score f \<le> 1 \<and>
     (ff_readiness_band f = BandHigh) = (75 / 100 \<le> ff_readiness_score f) \<and>
     1 \<le> length (ff_next_7_days f) \<and> length (ff_next_7_days f) \<le> 3 \<and>
     (\<exists>b v. (b, v) \<in> set (ff_behavior_scores f) \<and>
            list_all (\<lambda>(_, w). v \<le> w) (ff_behavior_scores f) \<and>
            hd (ff_next_7_days f) = future_action_for_dimension b v (al_leverage_gain lev))"
proof -
  define f where "f = build_future_feedback py_repr profile result lev credibility eff g"
  define scores where "scores = ff_behavior_scores f"
  let ?gain = "al_leverage_gain lev"
  have scores_ne: "scores \<noteq> []"
    unfolding scores_def f_def build_future_feedback_def behavior_scores_def Let_def by simp
  then have ne: "sort_key snd scores \<noteq> []" by (metis length_0_conv length_sort)
  then obtain b v rest where srt: "sort_key snd scores = (b, v) # rest"
    by (metis list.exhaust surj_pair)
  note head = plan_next_head [of ?gain b v rest]
  have plan: "ff_next_7_days f = plan_next ?gain (sort_key snd scores) []"
    using head srt unfolding scores_def f_def build_future_feedback_def Let_def by simp
  have "length (ff_next_7_days f) \<le> 3" unfolding plan by (rule plan_next_length) simp
  moreover have "ff_next_7_days f \<noteq> []" "hd (ff_next_7_days f) = future_action_for_dimension b v ?gain"
    unfolding plan srt using head by simp_all
  moreover have "(b, v) \<in> set scores" using sort_key_hd_min(1) [OF scores_ne, of snd] srt by simp
  moreover have "list_all (\<lambda>(_, w). v \<le> w) scores"
    using sort_key_hd_min(2) [OF scores_ne, of _ snd] srt by (auto simp: list_all_iff)
  moreover have "0 \<le> ff_readiness_score f" "ff_readiness_score f \<le> 1"
    "(ff_readiness_band f = BandHigh) = (75 / 100 \<le> ff_readiness_score f)"
    unfolding f_def build_future_feedback_def Let_def by (simp_all add: py_round_unit)
  ultimately show ?thesis unfolding f_def [symmetric] scores_def by (auto simp: Suc_le_eq)
qed

end
