(* ===== verification/EvaluationReport.thy ===== *)
theory EvaluationReport
  imports EvaluationEngine LearningFeedback
begin

text \<open>
  The report of an evaluation as the JSON value that is stored with the submission: the result's
  own report (\<open>EvaluationResult.to_report\<close> in \<open>backend/app/services/evaluation/result.py\<close>) with the
  dictionaries that the functions of the engine and of \<open>workers/evaluate.py\<close> return, and the
  difference between two attempts (\<open>build_iteration_diff\<close>). The next evaluation reads parts of it
  back. The audit trail and the hashed manifest are left out.
\<close>

section \<open>The dictionaries of the engine\<close>

definition num :: "rat \<Rightarrow> json" where
  "num = JFloat"

definition nums :: "rat dict \<Rightarrow> json" where
  "nums d = JObj (map (\<lambda>(k, v). (k, JFloat v)) d)"

definition texts :: "string list \<Rightarrow> json" where
  "texts xs = JList (map JStr xs)"

definition calibration_json :: "calibration_result \<Rightarrow> json" where
  "calibration_json c =
     JObj [(''score'', num (cal_score c)), (''ece'', json_opt num (cal_ece c)),
           (''brier'', json_opt num (cal_brier c)), (''samples'', JInt (int (cal_samples c))),
           (''method'', JStr (cal_method c))]"

definition interval_json :: "string \<Rightarrow> string \<Rightarrow> interval \<Rightarrow> json" where
  "interval_json centre method i =
     JObj [(''n'', JInt (iv_n i)), (centre, num (iv_centre i)), (''lower_95'', num (iv_lower i)),
           (''upper_95'', num (iv_upper i)), (''half_width'', num (iv_half_width i)), (''method'', JStr method)]"

definition band_text :: "credibility_band \<Rightarrow> string" where
  "band_text b = (case b of CredHigh \<Rightarrow> ''high'' | CredMedium \<Rightarrow> ''medium'' | CredLow \<Rightarrow> ''low'')"

definition credibility_json :: "rat \<times> credibility_band \<Rightarrow> json" where
  "credibility_json c =
     JObj [(''score'', num (fst c)), (''band'', JStr (band_text (snd c))), (''method'', JStr ''credibility_v1'')]"

definition mastery_json :: "mastery_result \<Rightarrow> json" where
  "mastery_json m =
     JObj [(''score'', num (ms_score m)), (''components'', nums (ms_components m)),
           (''weights'', JObj [(''without_baseline'', nums (ms_weights_without m)),
                              (''with_baseline'', nums (ms_weights_with m))]),
           (''method'', JStr (ms_method m))]"

definition baseline_json :: "baseline \<Rightarrow> json" where
  "baseline_json b =
     JObj ([(''status'', JStr (status_text (bl_status b)))] @
           (case bl_overall b of None \<Rightarrow> [] | Some x \<Rightarrow>
             [(''overall'', num x),
              (''aggregate'', JObj
                 [(''method'', JStr ''median_overall''),
                  (''variant_overalls'', JList (map (\<lambda>(s, o').
                      JObj [(''strategy_id'', JStr s), (''overall'', num o')]) (bl_variants b))),
                  (''selected_strategy_id'', json_str_opt (bl_selected b))])]))"

definition velocity_json :: "learning_velocity \<Rightarrow> json" where
  "velocity_json v =
     JObj [(''score'', num (lv_score v)), (''progress'', num (lv_progress v)),
           (''skill_gain'', num (lv_skill_gain v)), (''change_efficiency'', num (lv_change_efficiency v))]"

text \<open>
  The leverage metrics of the stored report: those of the engine with the learning velocity and
  the mastery score of the worker.
\<close>

definition leverage_json :: "engine_leverage \<Rightarrow> ai_leverage \<Rightarrow> json dict" where
  "leverage_json el al =
     [(''frontier_navigation_score'', num (al_frontier_navigation al)),
      (''reliance_calibration_score'', num (al_reliance_calibration al)),
      (''learning_velocity_score'', num (al_learning_velocity al)),
      (''counterfactual_baseline_overall'', json_opt num (al_counterfactual_overall al)),
      (''leverage_gain'', json_opt num (al_leverage_gain al)),
      (''leverage_gain_score'', json_opt num (al_leverage_gain_score al)),
      (''ai_mastery_score'', num (al_ai_mastery al)),
      (''signals'', JObj
         [(''counterfactual'', baseline_json (el_baseline el)),
          (''composite'', json_opt mastery_json (al_composite_signal al)),
          (''learning_velocity'', json_opt velocity_json (al_velocity_signal al))]),
      (''method'', JStr ''research_proxy_v1''),
      (''weight_profile_version'', JStr (el_profile_version el))]"

definition model_json :: "model_stats \<times> rat \<times> rat \<Rightarrow> json" where
  "model_json s =
     (case s of (m, tokens_per_call, avg_latency) \<Rightarrow>
       JObj [(''model'', JStr (mo_model m)), (''calls'', JInt (mo_calls m)), (''retries'', JInt (mo_retries m)),
             (''prompt_tokens'', JInt (mo_prompt_tokens m)), (''completion_tokens'', JInt (mo_completion_tokens m)),
             (''total_tokens'', JInt (mo_total_tokens m)), (''cost_usd'', num (mo_cost_usd m)),
             (''latency_ms'', num (mo_latency_ms m)), (''avg_tokens_per_call'', num tokens_per_call),
             (''avg_latency_ms'', num avg_latency)])"

definition run_type_json :: "run_type_stats \<times> rat \<Rightarrow> json" where
  "run_type_json s =
     (case s of (r, pass_rate) \<Rightarrow>
       JObj [(''run_type'', JStr (rt_run_type r)), (''runs'', JInt (rt_runs r)), (''passes'', JInt (rt_passes r)),
             (''pass_rate'', num pass_rate), (''llm_calls'', JInt (rt_llm_calls r)),
             (''tokens_total'', JInt (rt_tokens_total r)), (''cost_usd'', num (rt_cost_usd r)),
             (''latency_ms'', num (rt_latency_ms r))])"

definition usage_json :: "usage_breakdown \<Rightarrow> json" where
  "usage_json u =
     JObj [(''totals'', JObj
              [(''calls'', JInt (ub_calls u)), (''retries'', JInt (ub_retries u)),
               (''prompt_tokens'', JInt (ub_prompt_tokens u)), (''completion_tokens'', JInt (ub_completion_tokens u)),
               (''total_tokens'', JInt (ub_total_tokens u)), (''cost_usd'', num (ub_cost_usd u)),
               (''latency_ms'', num (ub_latency_ms u)), (''avg_tokens_per_call'', num (ub_avg_tokens_per_call u)),
               (''avg_latency_ms'', num (ub_avg_latency_ms u)), (''avg_cost_per_call'', num (ub_avg_cost_per_call u))]),
           (''models'', JList (map model_json (ub_models u))),
           (''run_types'', JList (map run_type_json (ub_run_types u))),
           (''method'', JStr ''telemetry_aggregation_v1'')]"

section \<open>The report of a result\<close>

definition disqualification_reason :: string where
  "disqualification_reason = ''Submission appears to contain hardcoded answers rather than using AI to solve the problem. All scores have been zeroed.''"

text \<open>The leverage entry and the details of the code analysis are supplied by the caller.\<close>

definition to_report :: "engine_result \<Rightarrow> string \<Rightarrow> json dict \<Rightarrow> json \<Rightarrow> json dict" where
  "to_report r submission_id leverage code_details =
     [(''submission_id'', JStr submission_id),
      (''accuracy'', num (er_accuracy r)), (''prompt_quality'', num (er_prompt_quality r)),
      (''rule_adherence'', num (er_rule_adherence r)), (''efficiency'', num (er_efficiency r)),
      (''reliability'', num (er_reliability r)), (''orchestration'', num (er_orchestration r)),
      (''code_quality'', num (er_code_quality r)), (''edge_case_handling'', num (er_edge_case_handling r)),
      (''calibration'', num (en_calibration r)), (''overall'', num (er_overall r)),
      (''cost_usd'', num (py_round 6 (er_cost_usd r))), (''latency_ms'', num (py_round 2 (er_latency_ms r))),
      (''llm_calls'', JInt (er_llm_calls r)), (''prompt_tokens'', JInt (en_prompt_tokens r)),
      (''completion_tokens'', JInt (en_completion_tokens r)),
      (''total_tokens'', JInt (en_prompt_tokens r + en_completion_tokens r)), (''retries'', JInt (en_retries r)),
      (''tests_passed'', JInt (int (length (filter (\<lambda>x. dict_get x ''status'' JNull = JStr ''pass'') (er_runs r))))),
      (''tests_total'', JInt (int (length (er_runs r)))), (''runs'', JList (map JObj (er_runs r))),
      (''prompt_quality_details'', JObj [(''method'', JStr (en_prompt_method r))]),
      (''code_analysis_details'', code_details),
      (''calibration_details'', calibration_json (en_calibration_result r)),
      (''diagnostics'', JList (map JObj (er_diagnostics r))),
      (''feedback'', case er_diagnostics r of [] \<Rightarrow> JStr [] | d # _ \<Rightarrow> dict_get d ''message'' JNull),
      (''ai_leverage'', JObj leverage), (''usage_breakdown'', usage_json (en_usage r)),
      (''credibility'', credibility_json (en_credibility r)),
      (''confidence_intervals'', JObj
         [(''accuracy'', interval_json ''mean'' ''normal_approx'' (en_accuracy_ci r)),
          (''robustness_proxy'', interval_json ''mean'' ''normal_approx'' (en_robustness_ci r)),
          (''run_accuracy'', interval_json ''mean'' ''normal_approx'' (en_run_accuracy_ci r)),
          (''pass_rate'', interval_json ''rate'' ''wilson'' (en_pass_rate_ci r))]),
      (''scorecard'', JObj
         [(''accuracy'', num (er_accuracy r)), (''robustness'', num (er_edge_case_handling r)),
          (''reliability'', num (er_reliability r)), (''efficiency'', num (er_efficiency r)),
          (''prompt_design'', num (er_prompt_quality r)), (''orchestration'', num (er_orchestration r)),
          (''calibration'', num (en_calibration r)), (''ai_mastery'', num (el_mastery_score (en_leverage r)))])] @
     (if en_hardcoded r
      then [(''disqualified'', JBool True), (''disqualification_reason'', JStr disqualification_reason)] else [])"

section \<open>The dictionaries of the worker\<close>

definition growth_text :: "growth_status \<Rightarrow> string" where
  "growth_text s = (case s of FirstAttempt \<Rightarrow> ''first_attempt'' | Improved \<Rightarrow> ''improved'' | Mixed \<Rightarrow> ''mixed''
                            | Regressed \<Rightarrow> ''regressed'' | Flat \<Rightarrow> ''flat'')"

definition mastery_text :: "mastery \<Rightarrow> string" where
  "mastery_text m = (case m of Mastered \<Rightarrow> ''mastered'' | Proficient \<Rightarrow> ''proficient'' | Practicing \<Rightarrow> ''practicing'')"

definition uuid_text :: "uuid \<Rightarrow> string" where
  "uuid_text = show_nat"

definition growth_json :: "growth \<Rightarrow> json" where
  "growth_json g =
     JObj [(''previous_submission_id'', json_opt (\<lambda>i. JStr (uuid_text i)) (gr_previous g)),
           (''delta_overall'', json_opt num (gr_overall g)), (''delta_accuracy'', json_opt num (gr_accuracy g)),
           (''delta_robustness'', json_opt num (gr_robustness g)), (''delta_efficiency'', json_opt num (gr_efficiency g)),
           (''growth_score'', num (gr_score g)), (''status'', JStr (growth_text (gr_status g)))]"

definition coaching_json :: "coaching \<Rightarrow> json" where
  "coaching_json c =
     JObj [(''trend'', JStr (growth_text (co_trend c))), (''summary'', JStr (co_summary c)),
           (''improved'', texts (co_improved c)), (''regressed'', texts (co_regressed c)),
           (''next_focus'', JStr (co_next_focus c)), (''next_focus_explanation'', JStr (co_explanation c)),
           (''mastery_state'', JStr (mastery_text (co_mastery c))),
           (''previous_submission_id'', json_opt (\<lambda>i. JStr (uuid_text i)) (co_previous c))]"

definition priority_text :: "action_priority \<Rightarrow> string" where
  "priority_text p = (case p of PrioHigh \<Rightarrow> ''high'' | PrioMedium \<Rightarrow> ''medium'' | PrioLow \<Rightarrow> ''low'')"

definition action_json :: "coaching_action \<Rightarrow> json" where
  "action_json a =
     JObj [(''priority'', JStr (priority_text (ca_priority a))), (''title'', JStr (ca_title a)),
           (''why'', JStr (ca_why a)), (''evidence'', JObj (ca_evidence a)),
           (''suggested_change'', JStr (ca_suggested_change a)), (''expected_impact'', texts (ca_expected_impact a))]"

definition effectiveness_json :: "effectiveness \<Rightarrow> json" where
  "effectiveness_json e =
     (case e of
        Unavailable why \<Rightarrow>
          JObj [(''status'', JStr ''unavailable''),
                (''reason'', JStr (case why of NoPreviousSubmission \<Rightarrow> ''no_previous_submission''
                                              | NoPreviousActions \<Rightarrow> ''no_previous_actions''
                                              | NoAssessableActions \<Rightarrow> ''no_assessable_actions'')),
                (''coach_hit_rate'', JNull), (''assessed_actions'', JInt 0), (''successful_actions'', JInt 0)]
      | Assessed o' \<Rightarrow>
          JObj [(''status'', JStr ''ok''), (''coach_hit_rate'', num (eo_hit_rate o')),
                (''assessed_actions'', JInt (int (eo_assessed o'))),
                (''successful_actions'', JInt (int (eo_successful o'))),
                (''overall_delta'', json_opt num (eo_overall_delta o')),
                (''method'', JStr ''action_outcome_proxy_v1''),
                (''samples'', JList (map (\<lambda>s. JObj
                   [(''title'', as_title s), (''expected_impact'', JList (as_impacts s)),
                    (''avg_delta'', num (as_avg_delta s)), (''success'', JBool (as_success s))]) (eo_samples o')))])"

definition future_action_json :: "future_action \<Rightarrow> json" where
  "future_action_json a =
     JObj [(''priority'', JStr (priority_text (fa_priority a))), (''goal'', JStr (fa_goal a)),
           (''actions'', texts (fa_actions a)), (''success_metric'', JStr (fa_metric a))]"

definition feedback_json :: "future_feedback \<Rightarrow> json" where
  "feedback_json f =
     JObj [(''method'', JStr ''future_feedback_v1''), (''summary'', JStr (ff_summary f)),
           (''readiness_score'', num (ff_readiness_score f)),
           (''readiness_band'', JStr (case ff_readiness_band f of BandHigh \<Rightarrow> ''high'' | BandMedium \<Rightarrow> ''medium'' | BandLow \<Rightarrow> ''low'')),
           (''delegation_mode'', JStr (case ff_delegation_mode f of OverDelegating \<Rightarrow> ''over_delegating''
                                        | UnderLeveraging \<Rightarrow> ''under_leveraging'' | Balanced \<Rightarrow> ''balanced'')),
           (''behavior_scores'', nums (map (\<lambda>(b, v). (behavior_key b, v)) (ff_behavior_scores f))),
           (''next_7_days'', JList (map future_action_json (ff_next_7_days f))),
           (''next_eval_protocol'', texts (ff_protocol f)),
           (''signals'', JObj
              [(''weight_profile_version'', JStr (ff_profile_version f)),
               (''readiness_weights'', nums (ff_readiness_weights f)),
               (''calls_per_run'', num (ff_calls_per_run f)), (''run_type_coverage'', num (ff_run_type_coverage f)),
               (''credibility_score'', num (ff_credibility_score f)),
               (''frontier_navigation_score'', num (ff_frontier_score f)),
               (''reliance_calibration_score'', num (ff_reliance_score f)),
               (''learning_velocity_score'', num (ff_velocity_score f)),
               (''coach_hit_rate'', json_opt num (ff_coach_hit_rate f)),
               (''leverage_gain'', json_opt num (ff_leverage_gain f))])]"

section \<open>The difference between two attempts\<close>

text \<open>\<open>str.splitlines()\<close>.\<close>

definition is_line_break :: "char \<Rightarrow> bool" where
  "is_line_break c \<longleftrightarrow> c \<in> set [CHR 0x0A, CHR 0x0B, CHR 0x0C, CHR 0x0D, CHR 0x1C, CHR 0x1D, CHR 0x1E]"

fun splitlines_from :: "string \<Rightarrow> string \<Rightarrow> string list" where
  "splitlines_from line [] = (if line = [] then [] else [rev line])"
| "splitlines_from line [c] = (if is_line_break c then [rev line] else [rev (c # line)])"
| "splitlines_from line (c # d # cs) =
     (if c = CHR 0x0D \<and> d = CHR 0x0A then rev line # splitlines_from [] cs
      else if is_line_break c then rev line # splitlines_from [] (d # cs)
      else splitlines_from (c # line) (d # cs))"

definition splitlines :: "string \<Rightarrow> string list" where
  "splitlines = splitlines_from []"

definition snippet_patterns :: "string list" where
  "snippet_patterns = [''triple-quoted prompt'', ''quoted prompt'', ''model call'']"

text \<open>
  The prompts found in the code, the patterns in order: blanks collapsed, short ones and repeats
  skipped, at most \<open>max_snippets\<close>, each cut to 180 characters. The patterns themselves are named
  by a tag, the library finds their matches.
\<close>

fun collect_snippets :: "nat \<Rightarrow> string list \<Rightarrow> string list \<Rightarrow> string list \<Rightarrow> string list" where
  "collect_snippets max_snippets [] seen snippets = snippets"
| "collect_snippets max_snippets (raw # raws) seen snippets =
     (let cleaned = strip (collapse_spaces raw)
      in if length cleaned < 20 \<or> cleaned \<in> set seen then collect_snippets max_snippets raws seen snippets
         else let snippets = snippets @ [take 180 cleaned]
              in if max_snippets \<le> length snippets then snippets
                 else collect_snippets max_snippets raws (cleaned # seen) snippets)"

definition extract_prompt_snippets :: "py_lib \<Rightarrow> string \<Rightarrow> string list" where
  "extract_prompt_snippets L code =
     (if strip code = [] then []
      else collect_snippets 8 (concat (map (\<lambda>p. lib_finditer L p code) snippet_patterns)) [] [])"

record iteration_diff =
  id_status :: growth_status
  id_summary :: string
  id_previous :: "uuid option"
  id_added_lines :: nat
  id_removed_lines :: nat
  id_changed_ratio :: rat
  id_added_prompts :: "string list"
  id_removed_prompts :: "string list"
  id_overall :: "rat option"
  id_accuracy :: "rat option"
  id_robustness :: "rat option"
  id_efficiency :: "rat option"

definition build_iteration_diff :: "py_lib \<Rightarrow> submission option \<Rightarrow> submission \<Rightarrow> growth \<Rightarrow> iteration_diff" where
  "build_iteration_diff L previous current g =
     (case previous of
        None \<Rightarrow> \<lparr>id_status = FirstAttempt,
                 id_summary = ''No previous attempt. This run establishes your baseline.'', id_previous = None,
                 id_added_lines = 0, id_removed_lines = 0, id_changed_ratio = 0, id_added_prompts = [],
                 id_removed_prompts = [], id_overall = None, id_accuracy = None, id_robustness = None,
                 id_efficiency = None\<rparr>
      | Some prev \<Rightarrow>
          (let prev_lines = splitlines (sub_code prev);
               cur_lines = splitlines (sub_code current);
               diff = lib_ndiff L prev_lines cur_lines;
               added = length (filter (prefix ''+ '') diff);
               removed = length (filter (prefix ''- '') diff);
               changed_ratio = py_round 4 (min 1 (of_nat (added + removed) / of_nat (max 1 (length prev_lines))));
               prev_prompts = extract_prompt_snippets L (sub_code prev);
               cur_prompts = extract_prompt_snippets L (sub_code current);
               summary = (case gr_overall g of
                   None \<Rightarrow> ''Changes detected, but score delta is unavailable.''
                 | Some d \<Rightarrow>
                     if d > 1 / 100 then ''This iteration improved. Keep the strongest new changes and continue narrowing weak spots.''
                     else if d < - (1 / 100) then ''This iteration regressed. Revert the highest-risk prompt/code edits and retest.''
                     else ''This iteration was mostly flat. Make one more targeted change and compare again.'')
           in \<lparr>id_status = gr_status g, id_summary = summary, id_previous = Some (sub_id prev),
               id_added_lines = added, id_removed_lines = removed, id_changed_ratio = changed_ratio,
               id_added_prompts = filter (\<lambda>p. p \<notin> set prev_prompts) cur_prompts,
               id_removed_prompts = filter (\<lambda>p. p \<notin> set cur_prompts) prev_prompts,
               id_overall = gr_overall g, id_accuracy = gr_accuracy g, id_robustness = gr_robustness g,
               id_efficiency = gr_efficiency g\<rparr>))"

definition diff_json :: "iteration_diff \<Rightarrow> json" where
  "diff_json d =
     JObj [(''status'', JStr (growth_text (id_status d))), (''summary'', JStr (id_summary d)),
           (''previous_submission_id'', json_opt (\<lambda>i. JStr (uuid_text i)) (id_previous d)),
           (''code_changes'', JObj
              [(''added_lines'', JInt (int (id_added_lines d))), (''removed_lines'', JInt (int (id_removed_lines d))),
               (''changed_ratio'', num (id_changed_ratio d))]),
           (''prompt_changes'', JObj
              [(''added_count'', JInt (int (length (id_added_prompts d)))),
               (''removed_count'', JInt (int (length (id_removed_prompts d)))),
               (''added_examples'', texts (take 3 (id_added_prompts d))),
               (''removed_examples'', texts (take 3 (id_removed_prompts d)))]),
           (''score_deltas'', JObj
              [(''overall'', json_opt num (id_overall d)), (''accuracy'', json_opt num (id_accuracy d)),
               (''robustness'', json_opt num (id_robustness d)), (''efficiency'', json_opt num (id_efficiency d))])]"

section \<open>The stored report\<close>

definition leverage_base :: "engine_leverage \<Rightarrow> ai_leverage" where
  "leverage_base el =
     \<lparr>al_frontier_navigation = el_frontier_score el, al_reliance_calibration = el_reliance_score el,
      al_leverage_gain_score = el_gain_score el, al_leverage_gain = el_gain el,
      al_counterfactual_overall = bl_overall (el_baseline el), al_learning_velocity = 0,
      al_ai_mastery = el_mastery_score el, al_velocity_signal = None,
      al_composite_signal = Some (el_mastery el)\<rparr>"

text \<open>
  Everything \<open>evaluate\<close> computes from a result between the engine and the database: the report
  with its added entries, the growth and the mastery state.
\<close>

definition build_report ::
  "py_lib \<Rightarrow> weight_profile \<Rightarrow> json \<Rightarrow> submission option \<Rightarrow> submission list \<Rightarrow> submission \<Rightarrow> engine_result \<Rightarrow>
   py_exc + json dict \<times> growth \<times> mastery" where
  "build_report L profile code_details previous history sub r =
     (let res = evaluation_result.truncate r;
          g = compute_growth previous res;
          m = derive_mastery_state res history;
          c = build_coaching res g m previous;
          diff = build_iteration_diff L previous sub g;
          lev = enrich_ai_leverage (leverage_base (en_leverage r)) g (Some (id_changed_ratio diff)) (er_prompt_quality r)
      in
      bind (compute_learning_effectiveness (lib_repr L) previous res lev) (\<lambda>eff.
      let fb = build_future_feedback (lib_repr L) profile res lev (fst (en_credibility r)) eff g
      in
      bind (build_coaching_actions (lib_repr L) res g (length (id_added_prompts diff)) lev) (\<lambda>actions.
        Inr (to_report r (uuid_text (sub_id sub)) (leverage_json (en_leverage r) lev) code_details @
             [(''growth'', growth_json g), (''coaching'', coaching_json c), (''iteration_diff'', diff_json diff),
              (''coaching_actions'', JList (map action_json actions)), (''mastery_state'', JStr (mastery_text m)),
              (''learning_effectiveness'', effectiveness_json eff), (''future_feedback'', feedback_json fb)],
             g, m))))"

section \<open>Reading the report back\<close>

lemma build_report_parts:
  assumes "build_report L profile code_details previous history sub r = Inr (report, g, m)"
  obtains diff lev eff fb actions c where
    "report = to_report r (uuid_text (sub_id sub)) (leverage_json (en_leverage r) lev) code_details @
       [(''growth'', growth_json g), (''coaching'', coaching_json c), (''iteration_diff'', diff_json diff),
        (''coaching_actions'', JList (map action_json actions)), (''mastery_state'', JStr (mastery_text m)),
        (''learning_effectiveness'', effectiveness_json eff), (''future_feedback'', feedback_json fb)]"
    and "lev = enrich_ai_leverage (leverage_base (en_leverage r)) g (Some (id_changed_ratio diff)) (er_prompt_quality r)"
    and "g = compute_growth previous (evaluation_result.truncate r)"
    and "build_coaching_actions (lib_repr L) (evaluation_result.truncate r) g (length (id_added_prompts diff)) lev = Inr actions"
    and "diff = build_iteration_diff L previous sub g"
  using assms unfolding build_report_def Let_def bind_Inr by blast

lemma enrich_fields [simp]:
  "al_frontier_navigation (enrich_ai_leverage b g c p) = al_frontier_navigation b"
  "al_reliance_calibration (enrich_ai_leverage b g c p) = al_reliance_calibration b"
  "al_leverage_gain (enrich_ai_leverage b g c p) = al_leverage_gain b"
  by (simp_all add: enrich_ai_leverage_def Let_def)

lemma leverage_base_fields [simp]:
  "al_frontier_navigation (leverage_base el) = el_frontier_score el"
  "al_reliance_calibration (leverage_base el) = el_reliance_score el"
  "al_leverage_gain (leverage_base el) = el_gain el"
  by (simp_all add: leverage_base_def)

text \<open>The entries of the stored report that other code reads.\<close>

lemma report_entries:
  assumes "report = to_report r sid (leverage_json el lev) cd @
       [(''growth'', a), (''coaching'', b), (''iteration_diff'', c), (''coaching_actions'', acts),
        (''mastery_state'', d), (''learning_effectiveness'', e), (''future_feedback'', f)]"
  shows "dict_get report ''ai_leverage'' JNull = JObj (leverage_json el lev)"
    and "dict_get report ''coaching_actions'' JNull = acts"
    and "dict_get report ''disqualified'' JNull = (if en_hardcoded r then JBool True else JNull)"
    and "dict_get report ''tests_total'' JNull = JInt (int (length (er_runs r)))"
    and "dict_get report ''credibility'' JNull = credibility_json (en_credibility r)"
    and "dict_get report ''prompt_quality_details'' JNull = JObj [(''method'', JStr (en_prompt_method r))]"
  unfolding assms to_report_def by (simp_all add: dict_get_def map_add_def)

lemma py_or_zero: "py_or (JFloat x) (JFloat 0) = JFloat x"
  by (simp add: py_or_def)

lemma leverage_entries:
  "dict_get (leverage_json el lev) ''ai_mastery_score'' JNull = JFloat (al_ai_mastery lev)"
  "dict_get (leverage_json el lev) ''frontier_navigation_score'' JNull = JFloat (al_frontier_navigation lev)"
  "dict_get (leverage_json el lev) ''reliance_calibration_score'' JNull = JFloat (al_reliance_calibration lev)"
  "dict_get (leverage_json el lev) ''leverage_gain'' JNull = json_opt JFloat (al_leverage_gain lev)"
  "dict_get (leverage_json el lev) ''signals'' JNull = JObj
         [(''counterfactual'', baseline_json (el_baseline el)),
          (''composite'', json_opt mastery_json (al_composite_signal lev)),
          (''learning_velocity'', json_opt velocity_json (al_velocity_signal lev))]"
  unfolding leverage_json_def by (simp_all add: dict_get_def num_def)

lemma leverage_json_truthy: "py_or (JObj (leverage_json el lev)) d = JObj (leverage_json el lev)"
  by (simp add: py_or_def leverage_json_def)

lemma run_index_of_run: "dict_get (run_json r) ''run_index'' d = JInt (rr_run_index r)"
  "dict_get (run_json r) ''accuracy'' d = JFloat (rr_accuracy r)"
  by (simp_all add: run_json_def dict_get_def)

lemma sequence_total: "\<forall>m \<in> set ms. \<exists>x. m = Inr x \<Longrightarrow> \<exists>xs. sequence_exc ms = Inr xs"
  by (induction ms) auto

lemma coaching_actions_total:
  assumes "er_runs res = map run_json records"
  shows "\<exists>actions. build_coaching_actions py_repr res g n lev = Inr actions"
proof -
  let ?failed = "take 3 (filter (\<lambda>r. dict_get r ''status'' JNull \<noteq> JStr ''pass'') (er_runs res))"
  have "\<forall>m \<in> set (map (failed_run_action py_repr) ?failed). \<exists>x. m = Inr x"
  proof
    fix m assume "m \<in> set (map (failed_run_action py_repr) ?failed)"
    then obtain r where "m = failed_run_action py_repr (run_json r)"
      using assms by (auto dest!: in_set_takeD)
    then show "\<exists>x. m = Inr x"
      by (simp add: failed_run_action_def Let_def run_index_of_run case_prod_beta py_int_of_def)
  qed
  then obtain xs where "sequence_exc (map (failed_run_action py_repr) ?failed) = Inr xs"
    using sequence_total by blast
  then show ?thesis by (simp add: build_coaching_actions_def Let_def)
qed

lemma first_report_total:
  assumes "er_runs r = map run_json records"
  shows "\<exists>x. build_report L profile cd None history sub r = Inr x"
proof -
  have "er_runs (evaluation_result.truncate r) = map run_json records"
    using assms by (simp add: evaluation_result.truncate_def)
  then have "\<exists>actions. build_coaching_actions (lib_repr L) (evaluation_result.truncate r) g n lev = Inr actions" for g n lev
    by (rule coaching_actions_total)
  then show ?thesis
    unfolding build_report_def Let_def compute_learning_effectiveness_def option.case bind_simps
    by (rule bind_total)
qed

text \<open>
  What the next evaluation reads from a stored report is what this evaluation wrote: the
  mastery, frontier and reliance scores and the leverage gain (a missing gain as zero), and the
  list of the coaching actions, each with the metrics it expects to move.
\<close>

theorem report_reads_back:
  assumes "build_report L profile code_details previous history sub r = Inr (report, g, m)"
  shows "\<exists>lev actions.
     lev = enrich_ai_leverage (leverage_base (en_leverage r)) g
             (Some (id_changed_ratio (build_iteration_diff L previous sub g))) (er_prompt_quality r) \<and>
     report_leverage report ''ai_mastery_score'' = Inr (al_ai_mastery lev) \<and>
     report_leverage report ''frontier_navigation_score'' = Inr (el_frontier_score (en_leverage r)) \<and>
     report_leverage report ''reliance_calibration_score'' = Inr (el_reliance_score (en_leverage r)) \<and>
     report_leverage report ''leverage_gain'' = Inr (or_zero (el_gain (en_leverage r))) \<and>
     dict_get report ''coaching_actions'' JNull = JList (map action_json actions) \<and>
     map (\<lambda>a. json_get (action_json a) ''expected_impact'') actions = map (\<lambda>a. Some (texts (ca_expected_impact a))) actions"
proof -
  from assms obtain diff lev eff fb actions c where
    report: "report = to_report r (uuid_text (sub_id sub)) (leverage_json (en_leverage r) lev) code_details @
       [(''growth'', growth_json g), (''coaching'', coaching_json c), (''iteration_diff'', diff_json diff),
        (''coaching_actions'', JList (map action_json actions)), (''mastery_state'', JStr (mastery_text m)),
        (''learning_effectiveness'', effectiveness_json eff), (''future_feedback'', feedback_json fb)]"
    and lev: "lev = enrich_ai_leverage (leverage_base (en_leverage r)) g (Some (id_changed_ratio diff)) (er_prompt_quality r)"
    and diff: "diff = build_iteration_diff L previous sub g"
    by (rule build_report_parts)
  have read: "report_leverage report k = py_float (py_or (dict_get (leverage_json (en_leverage r) lev) k JNull) (JFloat 0))" for k
    unfolding report_leverage_def report_entries(1) [OF report] leverage_json_truthy by (simp add: as_dict_def)
  have gain: "py_float (py_or (json_opt JFloat x) (JFloat 0)) = Inr (or_zero x)" for x
    by (cases x) (simp_all add: json_opt_def or_zero_def py_or_def)
  have "map (\<lambda>a. json_get (action_json a) ''expected_impact'') actions = map (\<lambda>a. Some (texts (ca_expected_impact a))) actions"
    by (simp add: action_json_def json_get_def)
  then show ?thesis
    unfolding read leverage_entries report_entries(2) [OF report] py_or_zero gain
    using lev diff by (intro exI [of _ lev] exI [of _ actions]) simp
qed

lemma sample_report:
  "\<exists>r. evaluate_submission sample_lib sample_env sample_eval_settings default_profile (\<lambda>s. s) ''x'' ''main.py''
         sample_config = Inr r \<and>
       (\<exists>x. build_report sample_lib default_profile JNull None [] sub r = Inr x)"
proof -
  obtain r where r: "evaluate_submission sample_lib sample_env sample_eval_settings default_profile (\<lambda>s. s)
      ''x'' ''main.py'' sample_config = Inr r" using sample_evaluation by blast
  then have "\<exists>records. er_runs r = map run_json records"
    unfolding evaluate_submission_def score_submission_def Let_def bind_Inr case_prod_beta by auto
  then show ?thesis using r first_report_total by blast
qed

theorem report_reads_back_witness:
  "\<exists>r report g m. build_report sample_lib default_profile JNull None [] (new_submission 1 2 3 ''x'' ''main.py'' 0) r
       = Inr (report, g, m) \<and>
     report_leverage report ''frontier_navigation_score'' = Inr (el_frontier_score (en_leverage r))"
proof -
  obtain r x where "build_report sample_lib default_profile JNull None [] (new_submission 1 2 3 ''x'' ''main.py'' 0) r = Inr x"
    using sample_report by blast
  then obtain report g m where b: "build_report sample_lib default_profile JNull None []
      (new_submission 1 2 3 ''x'' ''main.py'' 0) r = Inr (report, g, m)" by (cases x) auto
  from report_reads_back [OF b] b show ?thesis by blast
qed

end
