(* ===== verification/RetryJobs.thy ===== *)
theory RetryJobs
  imports Prelude
begin

text \<open>
  The contract of a job row with bounded retries, which the evaluation queue and the grading
  queue both implement: a claim spends one attempt and takes the job out of the queue; a failure
  puts it back only while attempts are left. The client facts: a job is claimed at most as often
  as it has attempts left, and after that many failures it is out of the queue for good.
\<close>

locale retry_job =
  fixes attempts :: "'j \<Rightarrow> int"
    and max_attempts :: "'j \<Rightarrow> int"
    and claimable :: "'j \<Rightarrow> bool"
    and claim :: "time \<Rightarrow> 'j \<Rightarrow> 'j"
    and fail :: "time \<Rightarrow> 'j \<Rightarrow> 'j"
  assumes claim_attempts: "attempts (claim t j) = attempts j + 1"
    and claim_max: "max_attempts (claim t j) = max_attempts j"
    and claim_out: "\<not> claimable (claim t j)"
    and fail_attempts: "attempts (fail t j) = attempts j"
    and fail_max: "max_attempts (fail t j) = max_attempts j"
    and fail_back: "claimable (fail t j) \<longleftrightarrow> attempts j < max_attempts j"
begin

text \<open>Every round claims the job, if it is in the queue, and fails it again.\<close>

fun rounds :: "(time \<times> time) list \<Rightarrow> 'j \<Rightarrow> nat \<times> 'j" where
  "rounds [] j = (0, j)"
| "rounds ((t, u) # ts) j =
     (if claimable j
      then (case rounds ts (fail u (claim t j)) of (n, k) \<Rightarrow> (Suc n, k))
      else (0, j))"

lemma rounds_not_claimable: "\<not> claimable j \<Longrightarrow> rounds ts j = (0, j)"
  by (cases ts) auto

lemma round_claimable:
  "claimable (fail u (claim t j)) \<longleftrightarrow> attempts j + 1 < max_attempts j"
  by (simp add: fail_back claim_attempts claim_max)

lemma rounds_bound:
  "attempts j < max_attempts j \<Longrightarrow> rounds ts j = (n, k) \<Longrightarrow> int n \<le> max_attempts j - attempts j"
proof (induction ts arbitrary: j n k)
  case Nil
  then show ?case by simp
next
  case (Cons tu ts)
  obtain t u where tu: "tu = (t, u)" by (cases tu)
  let ?j = "fail u (claim t j)"
  have att: "attempts ?j = attempts j + 1" "max_attempts ?j = max_attempts j"
    by (simp_all add: fail_attempts fail_max claim_attempts claim_max)
  show ?case
  proof (cases "claimable j")
    case False
    with Cons.prems tu show ?thesis by simp
  next
    case True
    then obtain m where m: "rounds ts ?j = (m, k)" "n = Suc m"
      using Cons.prems(2) tu by (auto split: prod.splits)
    show ?thesis
    proof (cases "claimable ?j")
      case False
      then have "rounds ts ?j = (0, ?j)" by (rule rounds_not_claimable)
      with m Cons.prems(1) show ?thesis by simp
    next
      case True
      then have "attempts ?j < max_attempts ?j" by (simp add: fail_back fail_attempts fail_max)
      from Cons.IH [OF this m(1)] m(2) att show ?thesis by simp
    qed
  qed
qed

lemma rounds_exhaust:
  "max_attempts j - attempts j \<le> int (length ts) \<Longrightarrow> attempts j < max_attempts j \<Longrightarrow>
   rounds ts j = (n, k) \<Longrightarrow> \<not> claimable k"
proof (induction ts arbitrary: j n k)
  case Nil
  then show ?case by simp
next
  case (Cons tu ts)
  obtain t u where tu: "tu = (t, u)" by (cases tu)
  let ?j = "fail u (claim t j)"
  have att: "attempts ?j = attempts j + 1" "max_attempts ?j = max_attempts j"
    by (simp_all add: fail_attempts fail_max claim_attempts claim_max)
  show ?case
  proof (cases "claimable j")
    case False
    with Cons.prems tu show ?thesis by simp
  next
    case True
    then obtain m where m: "rounds ts ?j = (m, k)"
      using Cons.prems(3) tu by (auto split: prod.splits)
    show ?thesis
    proof (cases "claimable ?j")
      case False
      then have "rounds ts ?j = (0, ?j)" by (rule rounds_not_claimable)
      with m False show ?thesis by simp
    next
      case True
      then have lt: "attempts ?j < max_attempts ?j" by (simp add: fail_back fail_attempts fail_max)
      have "max_attempts ?j - attempts ?j \<le> int (length ts)" using Cons.prems(1) att by simp
      from Cons.IH [OF this lt m] show ?thesis .
    qed
  qed
qed

end

end
