(* ===== verification/EvaluationQueue.thy ===== *)
theory EvaluationQueue
  imports Models RetryJobs "HOL-Library.Multiset"
begin

text \<open>
  The evaluation queue (\<open>backend/app/workers/queue.py\<close>): enqueueing, claiming, running,
  retrying and recovering jobs, the worker's state and its heartbeat. The pipeline that a job
  runs is an argument here and is supplied by the theory of the pipeline. Below the definitions:
  the invariant of a job row and of the table, kept by every operation, and the interleaving of
  several workers with the recovery sweep as a step relation.
\<close>

section \<open>Operations\<close>

datatype db_error = IntegrityError

record queue_settings =
  evaluation_job_timeout :: rat
  worker_id_setting :: string
  heartbeat_interval :: rat
  heartbeat_timeout :: rat

definition enqueue_evaluation_job ::
  "eval_db \<Rightarrow> uuid \<Rightarrow> uuid \<Rightarrow> int \<Rightarrow> time \<Rightarrow> db_error + eval_db \<times> evaluation_job" where
  "enqueue_evaluation_job db new_id sid max_attempts now =
     (if \<exists>j \<in> set (db_jobs db). job_submission_id j = sid \<or> job_id j = new_id
      then Inl IntegrityError
      else
        let job = \<lparr>job_id = new_id, job_submission_id = sid, job_status = JobQueued,
                   job_attempts = 0, job_max_attempts = max_attempts, job_last_error = None,
                   job_created_at = now, job_available_at = now,
                   job_started_at = None, job_finished_at = None\<rparr>
        in Inr (db\<lparr>db_jobs := db_jobs db @ [job]\<rparr>, job))"

definition waiting :: "evaluation_job \<Rightarrow> bool" where
  "waiting j \<longleftrightarrow> job_status j \<in> set [JobQueued, JobRetry]"

definition due :: "time \<Rightarrow> evaluation_job \<Rightarrow> bool" where
  "due now j \<longleftrightarrow> waiting j \<and> job_available_at j \<le> now"

text \<open>
  \<open>FOR UPDATE SKIP LOCKED\<close>: rows that another transaction holds are passed over; \<open>locked\<close> says
  which.
\<close>

definition queue_query :: "(uuid \<Rightarrow> bool) \<Rightarrow> eval_db \<Rightarrow> time \<Rightarrow> uuid option" where
  "queue_query locked db now =
     (case sort_key job_created_at (filter (\<lambda>j. due now j \<and> \<not> locked (job_id j)) (db_jobs db)) of
        [] \<Rightarrow> None
      | j # _ \<Rightarrow> Some (job_id j))"

definition claim_row :: "time \<Rightarrow> evaluation_job \<Rightarrow> evaluation_job" where
  "claim_row now j = j\<lparr>job_status := JobRunning, job_started_at := Some now,
                      job_attempts := job_attempts j + 1\<rparr>"

definition claim_job_by_id :: "eval_db \<Rightarrow> uuid \<Rightarrow> time \<Rightarrow> (eval_db \<times> evaluation_job) option" where
  "claim_job_by_id db i now =
     (case get_job db i of
        None \<Rightarrow> None
      | Some j \<Rightarrow>
          if due now j
          then (let db' = upd_job i (claim_row now) db
                in map_option (\<lambda>j'. (db', j')) (get_job db' i))
          else None)"

definition claim_next_job ::
  "(uuid \<Rightarrow> bool) \<Rightarrow> eval_db \<Rightarrow> time \<Rightarrow> (eval_db \<times> evaluation_job) option" where
  "claim_next_job locked db now =
     (case queue_query locked db now of
        None \<Rightarrow> None
      | Some i \<Rightarrow> claim_job_by_id db i now)"

definition evaluation_job_timeout_seconds :: "queue_settings \<Rightarrow> rat" where
  "evaluation_job_timeout_seconds cfg = max 60 (evaluation_job_timeout cfg)"

definition worker_identity :: "queue_settings \<Rightarrow> string \<Rightarrow> string" where
  "worker_identity cfg hostname =
     (let configured = strip (worker_id_setting cfg)
      in if configured \<noteq> [] then configured else hostname)"

definition worker_heartbeat_interval_seconds :: "queue_settings \<Rightarrow> rat" where
  "worker_heartbeat_interval_seconds cfg = max 1 (heartbeat_interval cfg)"

definition worker_heartbeat_timeout_seconds :: "queue_settings \<Rightarrow> rat" where
  "worker_heartbeat_timeout_seconds cfg =
     max (worker_heartbeat_interval_seconds cfg) (heartbeat_timeout cfg)"

definition stuck_job_recovery_seconds :: "queue_settings \<Rightarrow> rat" where
  "stuck_job_recovery_seconds cfg =
     (let t = evaluation_job_timeout_seconds cfg in max (t * 2) (t + 300))"

definition retry_backoff_seconds :: "int \<Rightarrow> int" where
  "retry_backoff_seconds attempts = min 60 (2 ^ nat (max 1 attempts))"

definition set_retry_or_failed :: "time \<Rightarrow> string \<Rightarrow> evaluation_job \<Rightarrow> evaluation_job" where
  "set_retry_or_failed now err job =
     (if job_max_attempts job \<le> job_attempts job
      then job\<lparr>job_status := JobFailed, job_finished_at := Some now\<rparr>
      else job\<lparr>job_status := JobRetry,
               job_available_at := now + seconds (retry_backoff_seconds (job_attempts job)),
               job_finished_at := None\<rparr>)
     \<lparr>job_last_error := Some (take 1500 err)\<rparr>"

definition stuck_job_error :: "time \<Rightarrow> evaluation_job \<Rightarrow> string" where
  "stuck_job_error now job =
     (let started_at = (case job_started_at job of Some t \<Rightarrow> t | None \<Rightarrow> now);
          elapsed = max 0 (py_int (total_seconds (now - started_at)))
      in ''Recovered stuck evaluation job after '' @ show_int elapsed @
         '' seconds in 'running'; retrying cleanly.'')"

definition complete_row :: "time \<Rightarrow> evaluation_job \<Rightarrow> evaluation_job" where
  "complete_row t job = job\<lparr>job_status := JobCompleted, job_finished_at := Some t, job_last_error := None\<rparr>"

definition stuck :: "queue_settings \<Rightarrow> time \<Rightarrow> evaluation_job \<Rightarrow> bool" where
  "stuck cfg now j \<longleftrightarrow>
     job_status j = JobRunning \<and>
     (case job_started_at j of
        None \<Rightarrow> False
      | Some t \<Rightarrow> t \<le> now - timedelta_seconds (stuck_job_recovery_seconds cfg))"

definition stuck_jobs ::
  "queue_settings \<Rightarrow> (uuid \<Rightarrow> bool) \<Rightarrow> eval_db \<Rightarrow> time \<Rightarrow> uuid option \<Rightarrow> evaluation_job list" where
  "stuck_jobs cfg locked db now only =
     sort_key (\<lambda>j. case job_started_at j of Some t \<Rightarrow> t | None \<Rightarrow> 0)
       (filter (\<lambda>j. stuck cfg now j \<and> \<not> locked (job_id j) \<and>
                    (case only of None \<Rightarrow> True | Some i \<Rightarrow> job_id j = i)) (db_jobs db))"

text \<open>One iteration of the recovery loop, on a stuck job.\<close>

definition recover_one :: "time \<Rightarrow> evaluation_job \<Rightarrow> eval_db \<Rightarrow> eval_db" where
  "recover_one now job db =
     (case get_submission_row db (job_submission_id job) of
        None \<Rightarrow> upd_job (job_id job) (set_retry_or_failed now (stuck_job_error now job)) db
      | Some sub \<Rightarrow>
          (if sub_status sub = SubCompleted
           then upd_job (job_id job)
                  (complete_row (case sub_completed_at sub of Some t \<Rightarrow> t | None \<Rightarrow> now)) db
           else
             let db' = upd_job (job_id job) (set_retry_or_failed now (stuck_job_error now job)) db
             in if sub_status sub = SubRunning
                then upd_submission (sub_id sub) (\<lambda>s. s\<lparr>sub_status := SubFailed\<rparr>) db'
                else db'))"

definition recover_stuck_jobs ::
  "queue_settings \<Rightarrow> (uuid \<Rightarrow> bool) \<Rightarrow> eval_db \<Rightarrow> time \<Rightarrow> uuid option \<Rightarrow> eval_db \<times> nat" where
  "recover_stuck_jobs cfg locked db now only =
     (let jobs = stuck_jobs cfg locked db now only
      in (fold (recover_one now) jobs db, length jobs))"

text \<open>
  How the pipeline of a job ends for \<open>_run_job\<close>: it returns a flag, runs into the timeout, or
  raises. The job object was loaded at the claim; the commit writes the columns it changed.
\<close>

datatype pipeline_result = PipeReturned bool | PipeTimeout | PipeRaised string

definition save_job :: "evaluation_job \<Rightarrow> eval_db \<Rightarrow> eval_db" where
  "save_job job =
     upd_job (job_id job)
       (\<lambda>r. r\<lparr>job_status := job_status job, job_available_at := job_available_at job,
              job_finished_at := job_finished_at job, job_last_error := job_last_error job\<rparr>)"

definition timeout_error :: "queue_settings \<Rightarrow> string" where
  "timeout_error cfg =
     ''Evaluation timed out after '' @
     show_int (round_half_even (evaluation_job_timeout_seconds cfg)) @ '' seconds.''"

definition finish_job ::
  "queue_settings \<Rightarrow> pipeline_result \<Rightarrow> time \<Rightarrow> evaluation_job \<Rightarrow> eval_db \<Rightarrow> eval_db" where
  "finish_job cfg outcome now job db =
     (case outcome of
        PipeReturned ok \<Rightarrow>
          (let is_completed =
             ok \<and> (case get_submission_row db (job_submission_id job) of
                     None \<Rightarrow> False | Some sub \<Rightarrow> sub_status sub = SubCompleted)
           in save_job
                (if is_completed then complete_row now job
                 else set_retry_or_failed now ''Submission evaluation did not complete successfully.'' job)
                db)
      | PipeTimeout \<Rightarrow> save_job (set_retry_or_failed now (timeout_error cfg) job) db
      | PipeRaised msg \<Rightarrow> save_job (set_retry_or_failed now msg job) db)"

definition run_job ::
  "queue_settings \<Rightarrow> (eval_db \<Rightarrow> uuid \<Rightarrow> eval_db \<times> pipeline_result) \<Rightarrow> time \<Rightarrow>
   evaluation_job \<Rightarrow> eval_db \<Rightarrow> eval_db" where
  "run_job cfg pipeline now job db =
     (case pipeline db (job_submission_id job) of
        (db', outcome) \<Rightarrow> finish_job cfg outcome now job db')"

definition process_job ::
  "queue_settings \<Rightarrow> (eval_db \<Rightarrow> uuid \<Rightarrow> eval_db \<times> pipeline_result) \<Rightarrow> time \<Rightarrow> time \<Rightarrow>
   uuid \<Rightarrow> eval_db \<Rightarrow> eval_db" where
  "process_job cfg pipeline now later i db =
     (let db' = fst (recover_stuck_jobs cfg (\<lambda>_. False) db now (Some i))
      in case claim_job_by_id db' i now of
           None \<Rightarrow> db'
         | Some (db'', job) \<Rightarrow> run_job cfg pipeline later job db'')"

record worker_state =
  ws_worker_id :: string
  ws_hostname :: string
  ws_status :: worker_status
  ws_current_job_id :: "uuid option"
  ws_last_error :: "string option"

definition process_one_available_job ::
  "queue_settings \<Rightarrow> (eval_db \<Rightarrow> uuid \<Rightarrow> eval_db \<times> pipeline_result) \<Rightarrow> (uuid \<Rightarrow> bool) \<Rightarrow>
   time \<Rightarrow> time \<Rightarrow> worker_state \<Rightarrow> eval_db \<Rightarrow> eval_db \<times> worker_state \<times> bool" where
  "process_one_available_job cfg pipeline locked now later ws db =
     (let db' = fst (recover_stuck_jobs cfg locked db now None)
      in case claim_next_job locked db' now of
           None \<Rightarrow> (db', ws\<lparr>ws_status := WorkerIdle, ws_current_job_id := None\<rparr>, False)
         | Some (db'', job) \<Rightarrow>
             (let running = ws\<lparr>ws_status := WorkerRunning, ws_current_job_id := Some (job_id job),
                               ws_last_error := None\<rparr>
              in (run_job cfg pipeline later job db'',
                  running\<lparr>ws_status := WorkerIdle, ws_current_job_id := None\<rparr>, True)))"

text \<open>
  One iteration of \<open>worker_loop\<close>, given how its body ended: the two processed flags, or the
  exception that escaped. It gives the state, the count of consecutive errors and the sleep.
\<close>

definition worker_loop_iteration ::
  "rat \<Rightarrow> (string + bool \<times> bool) \<Rightarrow> worker_state \<Rightarrow> nat \<Rightarrow> worker_state \<times> nat \<times> rat" where
  "worker_loop_iteration poll_interval body ws errors =
     (let ws = ws\<lparr>ws_last_error := None\<rparr>
      in case body of
           Inr (grading_processed, processed) \<Rightarrow>
             (ws, 0, if \<not> processed \<and> \<not> grading_processed then poll_interval else 0)
         | Inl exc \<Rightarrow>
             (let errors = errors + 1
              in (ws\<lparr>ws_status := WorkerError, ws_current_job_id := None,
                     ws_last_error := Some (take 1500 exc)\<rparr>,
                  errors, min 60 (poll_interval * 2 ^ min (errors - 1) 6))))"

definition write_worker_heartbeat :: "worker_state \<Rightarrow> time \<Rightarrow> eval_db \<Rightarrow> eval_db" where
  "write_worker_heartbeat ws now db =
     (let err = (case ws_last_error ws of
                   None \<Rightarrow> None
                 | Some e \<Rightarrow> if take 1500 e = [] then None else Some (take 1500 e))
      in case row_get hb_worker_id (ws_worker_id ws) (db_heartbeats db) of
           None \<Rightarrow> db\<lparr>db_heartbeats := db_heartbeats db @
             [\<lparr>hb_worker_id = ws_worker_id ws, hb_hostname = ws_hostname ws,
               hb_status = ws_status ws, hb_current_job_id = ws_current_job_id ws,
               hb_last_error = err, hb_started_at = now, hb_last_seen_at = now\<rparr>]\<rparr>
         | Some _ \<Rightarrow> db\<lparr>db_heartbeats := row_upd hb_worker_id (ws_worker_id ws)
             (\<lambda>h. h\<lparr>hb_hostname := ws_hostname ws, hb_status := ws_status ws,
                    hb_current_job_id := ws_current_job_id ws, hb_last_error := err,
                    hb_last_seen_at := now\<rparr>) (db_heartbeats db)\<rparr>)"


section \<open>A job row\<close>

lemmas job_row_defs = claim_row_def set_retry_or_failed_def complete_row_def

lemma job_row_id [simp]:
  "job_id (claim_row t j) = job_id j"
  "job_id (set_retry_or_failed t e j) = job_id j"
  "job_id (complete_row t j) = job_id j"
  by (simp_all add: job_row_defs)

lemma job_row_submission [simp]:
  "job_submission_id (claim_row t j) = job_submission_id j"
  "job_submission_id (set_retry_or_failed t e j) = job_submission_id j"
  "job_submission_id (complete_row t j) = job_submission_id j"
  by (simp_all add: job_row_defs)

lemma job_row_attempts [simp]:
  "job_attempts (claim_row t j) = job_attempts j + 1"
  "job_attempts (set_retry_or_failed t e j) = job_attempts j"
  "job_attempts (complete_row t j) = job_attempts j"
  "job_max_attempts (claim_row t j) = job_max_attempts j"
  "job_max_attempts (set_retry_or_failed t e j) = job_max_attempts j"
  "job_max_attempts (complete_row t j) = job_max_attempts j"
  by (simp_all add: job_row_defs)

lemma waiting_rows [simp]:
  "\<not> waiting (claim_row t j)"
  "\<not> waiting (complete_row t j)"
  "waiting (set_retry_or_failed t e j) \<longleftrightarrow> job_attempts j < job_max_attempts j"
  by (auto simp: waiting_def job_row_defs)

interpretation eval_retry: retry_job job_attempts job_max_attempts waiting claim_row
    "\<lambda>t. set_retry_or_failed t e" for e
  by unfold_locales simp_all

lemma retry_backoff_bounds: "2 \<le> retry_backoff_seconds n" "retry_backoff_seconds n \<le> 60"
proof -
  have "(2::int) ^ 1 \<le> 2 ^ nat (max 1 n)"
    by (rule power_increasing) auto
  then show "2 \<le> retry_backoff_seconds n" by (simp add: retry_backoff_seconds_def)
qed (simp add: retry_backoff_seconds_def)

lemma retry_backoff_mono: "m \<le> n \<Longrightarrow> retry_backoff_seconds m \<le> retry_backoff_seconds n"
proof -
  assume "m \<le> n"
  then have "(2::int) ^ nat (max 1 m) \<le> 2 ^ nat (max 1 n)"
    by (intro power_increasing) (auto simp: nat_le_iff)
  then show ?thesis unfolding retry_backoff_seconds_def by (rule min.mono [OF order_refl])
qed

text \<open>
  The invariant of a row: attempts stay within the maximum, a job in the queue has one left, a
  running job was started and has spent one, a finished job carries its finishing time, and a
  job fails only when its attempts are used up.
\<close>

definition job_ok :: "evaluation_job \<Rightarrow> bool" where
  "job_ok j \<longleftrightarrow>
     0 \<le> job_attempts j \<and> job_attempts j \<le> job_max_attempts j \<and>
     (case job_status j of
        JobQueued \<Rightarrow> job_attempts j < job_max_attempts j \<and> job_finished_at j = None
      | JobRetry \<Rightarrow> job_attempts j < job_max_attempts j \<and> job_finished_at j = None \<and>
                    job_last_error j \<noteq> None
      | JobRunning \<Rightarrow> 1 \<le> job_attempts j \<and> job_started_at j \<noteq> None
      | JobCompleted \<Rightarrow> 1 \<le> job_attempts j \<and> job_finished_at j \<noteq> None \<and> job_last_error j = None
      | JobFailed \<Rightarrow> job_attempts j = job_max_attempts j \<and> job_finished_at j \<noteq> None \<and>
                     job_last_error j \<noteq> None)"

lemma job_ok_claim: "job_ok j \<Longrightarrow> waiting j \<Longrightarrow> job_ok (claim_row t j)"
  by (cases "job_status j") (auto simp: job_ok_def claim_row_def waiting_def)

lemma job_ok_retry: "job_ok j \<Longrightarrow> job_ok (set_retry_or_failed t e j)"
  by (auto simp: job_ok_def set_retry_or_failed_def)

lemma job_ok_complete: "job_ok j \<Longrightarrow> job_status j = JobRunning \<Longrightarrow> job_ok (complete_row t j)"
  by (auto simp: job_ok_def complete_row_def)

section \<open>The table\<close>

definition jobs_ok :: "eval_db \<Rightarrow> bool" where
  "jobs_ok db \<longleftrightarrow>
     keys_distinct job_id (db_jobs db) \<and> keys_distinct job_submission_id (db_jobs db) \<and>
     list_all job_ok (db_jobs db)"

lemma jobs_okD: "jobs_ok db \<Longrightarrow> get_job db i = Some j \<Longrightarrow> job_ok j"
  by (auto simp: jobs_ok_def intro: row_get_list_all)

text \<open>An update of one row keeps the table invariant if it keeps the row's.\<close>

lemma jobs_ok_upd:
  assumes "jobs_ok db" "\<And>r. job_id (f r) = job_id r" "\<And>r. job_submission_id (f r) = job_submission_id r"
    and "\<And>r. get_job db i = Some r \<Longrightarrow> job_ok (f r)"
  shows "jobs_ok (upd_job i f db)"
proof -
  have "list_all job_ok (row_upd job_id i f (db_jobs db))"
  proof (unfold list_all_iff, rule ballI)
    fix r assume "r \<in> set (row_upd job_id i f (db_jobs db))"
    then consider r0 where "r0 \<in> set (db_jobs db)" "job_id r0 = i" "r = f r0" | "r \<in> set (db_jobs db)"
      by (auto dest: set_row_updD)
    then show "job_ok r"
    proof cases
      case 1
      then have "get_job db i = Some r0"
        using assms(1) row_get_mem [of job_id "db_jobs db" r0] by (simp add: jobs_ok_def)
      with 1 assms(4) show ?thesis by simp
    next
      case 2
      with assms(1) show ?thesis by (simp add: jobs_ok_def list_all_iff)
    qed
  qed
  with assms(1-3) show ?thesis
    by (simp add: jobs_ok_def row_simps)
qed

lemma jobs_ok_upd_submission [simp]: "jobs_ok (upd_submission i f db) = jobs_ok db"
  by (simp add: jobs_ok_def)

lemma enqueue_jobs_ok:
  assumes "jobs_ok db" "1 \<le> m" "enqueue_evaluation_job db i sid m now = Inr (db', j)"
  shows "jobs_ok db'"
  using assms
  by (auto simp: enqueue_evaluation_job_def jobs_ok_def keys_distinct_def job_ok_def Let_def split: if_splits)

lemma get_job_upd:
  "(\<And>r. job_id (f r) = job_id r) \<Longrightarrow>
   get_job (upd_job i f db) k = (if k = i then map_option f (get_job db i) else get_job db k)"
  by (simp add: row_simps)

lemma claim_job_by_id_Some:
  "claim_job_by_id db i now = Some (db', j') \<longleftrightarrow>
     (\<exists>j. get_job db i = Some j \<and> due now j \<and> j' = claim_row now j \<and>
          db' = upd_job i (claim_row now) db)"
  by (auto simp: claim_job_by_id_def get_job_upd Let_def simp del: upd_job_frame split: option.splits if_splits)

lemma claim_jobs_ok:
  assumes "jobs_ok db" "claim_job_by_id db i now = Some (db', j)"
  shows "jobs_ok db'"
proof -
  from assms(2) obtain j0 where j0: "get_job db i = Some j0" "due now j0"
    "db' = upd_job i (claim_row now) db"
    by (auto simp: claim_job_by_id_Some)
  then have "job_ok (claim_row now j0)"
    using jobs_okD [OF assms(1)] by (auto simp: due_def intro: job_ok_claim)
  then show ?thesis
    unfolding j0(3) by (intro jobs_ok_upd [OF assms(1)]) (auto simp: j0(1))
qed

lemma claim_next_jobs_ok:
  "jobs_ok db \<Longrightarrow> claim_next_job locked db now = Some (db', j) \<Longrightarrow> jobs_ok db'"
  by (auto simp: claim_next_job_def intro: claim_jobs_ok split: option.splits)

text \<open>The query picks a due, unlocked job, and none that was created earlier is passed over.\<close>

lemma queue_query_Some:
  assumes "queue_query locked db now = Some i"
  obtains j where "j \<in> set (db_jobs db)" "job_id j = i" "due now j" "\<not> locked i"
    "\<And>k. k \<in> set (db_jobs db) \<Longrightarrow> due now k \<Longrightarrow> \<not> locked (job_id k) \<Longrightarrow> job_created_at j \<le> job_created_at k"
proof -
  let ?xs = "filter (\<lambda>j. due now j \<and> \<not> locked (job_id j)) (db_jobs db)"
  obtain j js where srt: "sort_key job_created_at ?xs = j # js" and i: "job_id j = i"
    using assms by (auto simp: queue_query_def split: list.splits)
  have mem: "set (sort_key job_created_at ?xs) = set ?xs" by simp
  have j_in: "j \<in> set ?xs" using srt mem by (metis list.set_intros(1))
  have "sorted (map job_created_at (j # js))" using srt sorted_sort_key [of job_created_at ?xs] by simp
  then have "\<forall>k \<in> set ?xs. job_created_at j \<le> job_created_at k"
    using srt mem by (metis (no_types, lifting) list.set_map list.simps(9) order_refl set_ConsD sorted_simps(2) imageI)
  with j_in i show ?thesis by (intro that [of j]) auto
qed

lemma queue_query_None:
  "queue_query locked db now = None \<longleftrightarrow> (\<forall>j \<in> set (db_jobs db). \<not> due now j \<or> locked (job_id j))"
proof -
  define xs where "xs = filter (\<lambda>j. due now j \<and> \<not> locked (job_id j)) (db_jobs db)"
  have "queue_query locked db now = None \<longleftrightarrow> sort_key job_created_at xs = []"
    unfolding queue_query_def xs_def by (simp split: list.split)
  also have "\<dots> \<longleftrightarrow> xs = []" by (metis length_0_conv length_sort)
  also have "\<dots> \<longleftrightarrow> (\<forall>j \<in> set (db_jobs db). \<not> (due now j \<and> \<not> locked (job_id j)))"
    unfolding xs_def by (rule filter_empty_conv)
  finally show ?thesis by blast
qed

section \<open>Recovery\<close>

text \<open>What the sweep reads of a submission: whether it is completed, and when.\<close>

definition completed_view :: "eval_db \<Rightarrow> uuid \<Rightarrow> time option option" where
  "completed_view db sid =
     (case get_submission_row db sid of
        None \<Rightarrow> None
      | Some sub \<Rightarrow> if sub_status sub = SubCompleted then Some (sub_completed_at sub) else None)"

text \<open>The row a stuck job is left with.\<close>

definition recovered_row :: "time \<Rightarrow> eval_db \<Rightarrow> evaluation_job \<Rightarrow> evaluation_job" where
  "recovered_row now db job =
     (case completed_view db (job_submission_id job) of
        Some done \<Rightarrow> complete_row (case done of Some t \<Rightarrow> t | None \<Rightarrow> now) job
      | None \<Rightarrow> set_retry_or_failed now (stuck_job_error now job) job)"

lemma recovered_row_simps [simp]:
  "job_id (recovered_row now db job) = job_id job"
  "job_submission_id (recovered_row now db job) = job_submission_id job"
  "job_attempts (recovered_row now db job) = job_attempts job"
  by (simp_all add: recovered_row_def split: option.splits)

lemma recovered_row_not_running: "job_status (recovered_row now db job) \<noteq> JobRunning"
  by (auto simp: recovered_row_def complete_row_def set_retry_or_failed_def split: option.splits)

lemma recovered_row_ok: "job_ok j \<Longrightarrow> job_status j = JobRunning \<Longrightarrow> job_ok (recovered_row now db j)"
  by (auto simp: recovered_row_def job_ok_complete job_ok_retry split: option.splits)

lemma recover_one_jobs:
  "get_job db (job_id job) = Some job \<Longrightarrow>
   get_job (recover_one now job db) i
     = (if i = job_id job then Some (recovered_row now db job) else get_job db i)"
  by (auto simp: recover_one_def recovered_row_def completed_view_def Let_def row_simps
           split: option.splits)

lemma recover_one_ok:
  assumes "jobs_ok db" "get_job db (job_id job) = Some job" "job_status job = JobRunning"
  shows "jobs_ok (recover_one now job db)"
proof -
  have "job_ok job" using assms(1,2) by (rule jobs_okD)
  then have "job_ok (complete_row t job)" "job_ok (set_retry_or_failed t e job)" for t e
    using assms(3) by (simp_all add: job_ok_complete job_ok_retry)
  then have "jobs_ok (upd_job (job_id job) (complete_row t) db)"
    "jobs_ok (upd_job (job_id job) (set_retry_or_failed t e) db)" for t e
    by (auto intro!: jobs_ok_upd [OF assms(1)] simp: assms(2))
  then show ?thesis by (auto simp: recover_one_def Let_def split: option.splits)
qed

lemma recover_one_view [simp]:
  "completed_view (recover_one now job db) sid = completed_view db sid"
proof (cases "get_submission_row db (job_submission_id job)")
  case None
  then show ?thesis by (simp add: recover_one_def completed_view_def)
next
  case (Some sub)
  then have "sub_id sub = job_submission_id job" by (auto dest: row_get_SomeD)
  with Some show ?thesis by (simp add: recover_one_def completed_view_def Let_def row_simps)
qed

lemma recovered_row_recover_one [simp]:
  "recovered_row now (recover_one now job db) = recovered_row now db"
  by (simp add: recovered_row_def fun_eq_iff)

text \<open>The loaded rows \<open>js\<close> agree with the table: what the sweep's loop keeps for the rest.\<close>

definition loaded :: "eval_db \<Rightarrow> evaluation_job list \<Rightarrow> bool" where
  "loaded db js \<longleftrightarrow> distinct (map job_id js) \<and> (\<forall>j \<in> set js. get_job db (job_id j) = Some j)"

lemma loaded_Cons:
  assumes "loaded db (j # js)"
  shows "get_job db (job_id j) = Some j" "loaded (recover_one now j db) js" "job_id j \<notin> job_id ` set js"
proof -
  show j: "get_job db (job_id j) = Some j" using assms unfolding loaded_def by simp
  show notin: "job_id j \<notin> job_id ` set js" using assms unfolding loaded_def by simp
  have "get_job (recover_one now j db) (job_id k) = Some k" if k: "k \<in> set js" for k
  proof -
    have "job_id k \<noteq> job_id j" using notin k by (metis imageI)
    moreover have "get_job db (job_id k) = Some k" using assms k unfolding loaded_def by simp
    ultimately show ?thesis using recover_one_jobs [OF j] by simp
  qed
  moreover have "distinct (map job_id js)" using assms unfolding loaded_def by simp
  ultimately show "loaded (recover_one now j db) js" unfolding loaded_def by blast
qed

lemma recover_fold_other:
  "loaded db js \<Longrightarrow> i \<notin> job_id ` set js \<Longrightarrow>
   get_job (fold (recover_one now) js db) i = get_job db i"
proof (induction js arbitrary: db)
  case Nil
  then show ?case by simp
next
  case (Cons j js)
  note j = loaded_Cons [OF Cons.prems(1)]
  have "get_job (fold (recover_one now) js (recover_one now j db)) i = get_job (recover_one now j db) i"
    using Cons.prems(2) by (intro Cons.IH j(2)) simp
  also have "\<dots> = get_job db i" using recover_one_jobs [OF j(1)] Cons.prems(2) by simp
  finally show ?case by simp
qed

lemma recover_fold_row:
  "loaded db js \<Longrightarrow> j \<in> set js \<Longrightarrow>
   get_job (fold (recover_one now) js db) (job_id j) = Some (recovered_row now db j)"
proof (induction js arbitrary: db)
  case Nil
  then show ?case by simp
next
  case (Cons k js)
  note k = loaded_Cons [OF Cons.prems(1)]
  show ?case
  proof (cases "j \<in> set js")
    case True
    then show ?thesis using Cons.IH [OF k(2) True] by simp
  next
    case False
    then have "j = k" using Cons.prems(2) by simp
    then show ?thesis
      using recover_fold_other [OF k(2) k(3)] recover_one_jobs [OF k(1)] by simp
  qed
qed

lemma recover_fold_ok:
  "jobs_ok db \<Longrightarrow> loaded db js \<Longrightarrow> \<forall>j \<in> set js. job_status j = JobRunning \<Longrightarrow>
   jobs_ok (fold (recover_one now) js db)"
proof (induction js arbitrary: db)
  case Nil
  then show ?case by simp
next
  case (Cons j js)
  note j = loaded_Cons [OF Cons.prems(2)]
  have "jobs_ok (recover_one now j db)"
    using Cons.prems(1,3) by (intro recover_one_ok j(1)) auto
  then have "jobs_ok (fold (recover_one now) js (recover_one now j db))"
    using Cons.prems(3) by (intro Cons.IH j(2)) auto
  then show ?case by simp
qed

lemma stuck_jobs_props:
  assumes "jobs_ok db"
  shows "loaded db (stuck_jobs cfg locked db now only)"
    and "\<forall>j \<in> set (stuck_jobs cfg locked db now only). job_status j = JobRunning"
proof -
  let ?key = "\<lambda>j. case job_started_at j of Some t \<Rightarrow> t | None \<Rightarrow> 0"
  have mset_eq: "mset (map job_id (sort_key ?key xs)) = mset (map job_id xs)" for xs
    by simp
  have "distinct (map job_id (filter P (db_jobs db)))" for P
    using assms by (simp add: jobs_ok_def keys_distinct_def distinct_map_filter)
  then have "distinct (map job_id (stuck_jobs cfg locked db now only))"
    unfolding stuck_jobs_def using mset_eq mset_eq_imp_distinct_iff by blast
  then show "loaded db (stuck_jobs cfg locked db now only)"
    using assms by (auto simp: loaded_def stuck_jobs_def jobs_ok_def intro: row_get_mem)
  show "\<forall>j \<in> set (stuck_jobs cfg locked db now only). job_status j = JobRunning"
    by (auto simp: stuck_jobs_def stuck_def)
qed

lemma recover_stuck_jobs_get:
  assumes "jobs_ok db"
  shows "get_job (fst (recover_stuck_jobs cfg locked db now only)) i
    = (case get_job db i of
         None \<Rightarrow> None
       | Some j \<Rightarrow> Some (if stuck cfg now j \<and> \<not> locked i \<and> only \<in> {None, Some i}
                         then recovered_row now db j else j))"
proof -
  let ?js = "stuck_jobs cfg locked db now only"
  note props = stuck_jobs_props [OF assms, of cfg locked now only]
  have rows: "\<forall>j \<in> set ?js. get_job db (job_id j) = Some j" using props(1) unfolding loaded_def by blast
  have mem: "j \<in> set ?js \<longleftrightarrow>
      j \<in> set (db_jobs db) \<and> stuck cfg now j \<and> \<not> locked (job_id j) \<and> only \<in> {None, Some (job_id j)}" for j
    by (auto simp: stuck_jobs_def split: option.splits)
  have fst_eq: "fst (recover_stuck_jobs cfg locked db now only) = fold (recover_one now) ?js db"
    by (simp add: recover_stuck_jobs_def Let_def)
  show ?thesis
  proof (cases "\<exists>j \<in> set ?js. job_id j = i")
    case True
    then obtain j where j: "j \<in> set ?js" "job_id j = i" by blast
    with rows have "get_job db i = Some j" by blast
    moreover from j have "stuck cfg now j \<and> \<not> locked i \<and> only \<in> {None, Some i}" using mem by blast
    ultimately show ?thesis
      using recover_fold_row [OF props(1) j(1)] j(2) by (simp add: fst_eq)
  next
    case False
    then have "i \<notin> job_id ` set ?js" by blast
    then have "get_job (fold (recover_one now) ?js db) i = get_job db i"
      by (rule recover_fold_other [OF props(1)])
    moreover have "\<not> (stuck cfg now j \<and> \<not> locked i \<and> only \<in> {None, Some i})" if "get_job db i = Some j" for j
      using that False mem [of j] by (auto dest: row_get_SomeD)
    ultimately show ?thesis unfolding fst_eq by (cases "get_job db i") auto
  qed
qed

lemma recover_stuck_jobs_ok: "jobs_ok db \<Longrightarrow> jobs_ok (fst (recover_stuck_jobs cfg locked db now only))"
  using stuck_jobs_props [of db cfg locked now only]
  by (auto simp: recover_stuck_jobs_def Let_def intro!: recover_fold_ok)


section \<open>Finishing a job\<close>

text \<open>The row that \<open>_run_job\<close> leaves, from the job object that its claim returned.\<close>

definition finished_row ::
  "queue_settings \<Rightarrow> pipeline_result \<Rightarrow> time \<Rightarrow> eval_db \<Rightarrow> evaluation_job \<Rightarrow> evaluation_job" where
  "finished_row cfg outcome now db job =
     (if outcome = PipeReturned True \<and> completed_view db (job_submission_id job) \<noteq> None
      then complete_row now job
      else set_retry_or_failed now
             (case outcome of
                PipeReturned _ \<Rightarrow> ''Submission evaluation did not complete successfully.''
              | PipeTimeout \<Rightarrow> timeout_error cfg
              | PipeRaised msg \<Rightarrow> msg) job)"

lemma finish_job_save: "finish_job cfg outcome now job db = save_job (finished_row cfg outcome now db job) db"
proof (cases outcome)
  case (PipeReturned ok)
  then show ?thesis
    by (simp add: finish_job_def finished_row_def completed_view_def Let_def split: option.split)
qed (simp_all add: finish_job_def finished_row_def)

lemma finished_row_simps [simp]:
  "job_id (finished_row cfg outcome now db job) = job_id job"
  "job_attempts (finished_row cfg outcome now db job) = job_attempts job"
  by (simp_all add: finished_row_def)

lemma finished_row_ok:
  "job_ok j \<Longrightarrow> job_status j = JobRunning \<Longrightarrow> job_ok (finished_row cfg outcome now db j)"
  by (simp add: finished_row_def job_ok_complete job_ok_retry)

lemma finished_row_not_running: "job_status (finished_row cfg outcome now db j) \<noteq> JobRunning"
  by (simp add: finished_row_def complete_row_def set_retry_or_failed_def)

lemma finish_job_get:
  assumes "get_job db (job_id job) = Some job"
  shows "get_job (finish_job cfg outcome now job db) i
    = (if i = job_id job then Some (finished_row cfg outcome now db job) else get_job db i)"
proof -
  have "(\<lambda>r. r\<lparr>job_status := job_status f, job_available_at := job_available_at f,
              job_finished_at := job_finished_at f, job_last_error := job_last_error f\<rparr>) job = f"
    if "f = finished_row cfg outcome now db job" for f
    using that by (auto simp: finished_row_def job_row_defs)
  then show ?thesis
    using assms by (simp add: finish_job_save save_job_def row_simps)
qed

lemma finish_job_ok:
  assumes "jobs_ok db" "get_job db (job_id job) = Some job" "job_status job = JobRunning"
  shows "jobs_ok (finish_job cfg outcome now job db)"
proof -
  have ok: "job_ok (finished_row cfg outcome now db job)"
    using assms by (intro finished_row_ok jobs_okD)
  have eq: "job\<lparr>job_status := job_status f, job_available_at := job_available_at f,
              job_finished_at := job_finished_at f, job_last_error := job_last_error f\<rparr> = f"
    if "f = finished_row cfg outcome now db job" for f
    using that by (auto simp: finished_row_def job_row_defs)
  show ?thesis
    unfolding finish_job_save save_job_def
  proof (rule jobs_ok_upd [OF assms(1)])
    fix r
    assume "get_job db (job_id (finished_row cfg outcome now db job)) = Some r"
    then have "r = job" using assms(2) by simp
    then show "job_ok (r\<lparr>job_status := job_status (finished_row cfg outcome now db job),
        job_available_at := job_available_at (finished_row cfg outcome now db job),
        job_finished_at := job_finished_at (finished_row cfg outcome now db job),
        job_last_error := job_last_error (finished_row cfg outcome now db job)\<rparr>)"
      using ok by (simp only: eq)
  qed simp_all
qed

section \<open>Several workers\<close>

text \<open>
  The workers, the recovery sweeps and the clock in any order. \<open>q_inflight\<close> holds the job objects
  of the live workers. The pipeline of a job writes other tables only. \<open>asyncio.timeout\<close> ends a
  live worker's pipeline after the timeout: the clock does not pass that moment by more than the
  time to load the job before and to commit after, for which \<open>grace\<close> allows 299 seconds.
\<close>

record queue_sys =
  q_db :: eval_db
  q_now :: time
  q_inflight :: "evaluation_job list"

abbreviation grace :: time where
  "grace \<equiv> seconds 299"

definition worker_deadline :: "queue_settings \<Rightarrow> evaluation_job \<Rightarrow> time" where
  "worker_deadline cfg j =
     (case job_started_at j of Some t \<Rightarrow> t | None \<Rightarrow> 0) +
     timedelta_seconds (evaluation_job_timeout_seconds cfg) + grace"

definition drop_job :: "evaluation_job \<Rightarrow> evaluation_job list \<Rightarrow> evaluation_job list" where
  "drop_job j js = filter (\<lambda>k. job_id k \<noteq> job_id j) js"

definition init_queue :: "queue_sys" where
  "init_queue =
     \<lparr>q_db = \<lparr>db_jobs = [], db_submissions = [], db_runs = [], db_leaderboard = [], db_heartbeats = []\<rparr>,
      q_now = 0, q_inflight = []\<rparr>"

inductive queue_step :: "queue_settings \<Rightarrow> queue_sys \<Rightarrow> queue_sys \<Rightarrow> bool" for cfg where
  enqueue: "enqueue_evaluation_job (q_db s) i sid m (q_now s) = Inr (db', j) \<Longrightarrow> 1 \<le> m \<Longrightarrow>
    queue_step cfg s (s\<lparr>q_db := db'\<rparr>)"
| claim_next: "claim_next_job locked (q_db s) (q_now s) = Some (db', j) \<Longrightarrow>
    queue_step cfg s (s\<lparr>q_db := db', q_inflight := j # q_inflight s\<rparr>)"
| claim_id: "claim_job_by_id (q_db s) i (q_now s) = Some (db', j) \<Longrightarrow>
    queue_step cfg s (s\<lparr>q_db := db', q_inflight := j # q_inflight s\<rparr>)"
| pipeline: "db_jobs db' = db_jobs (q_db s) \<Longrightarrow> queue_step cfg s (s\<lparr>q_db := db'\<rparr>)"
| finish: "j \<in> set (q_inflight s) \<Longrightarrow>
    queue_step cfg s (s\<lparr>q_db := finish_job cfg outcome (q_now s) j (q_db s),
                        q_inflight := drop_job j (q_inflight s)\<rparr>)"
| crash: "j \<in> set (q_inflight s) \<Longrightarrow>
    queue_step cfg s (s\<lparr>q_inflight := drop_job j (q_inflight s)\<rparr>)"
| recover: "queue_step cfg s (s\<lparr>q_db := fst (recover_stuck_jobs cfg locked (q_db s) (q_now s) only)\<rparr>)"
| tick: "0 \<le> d \<Longrightarrow> list_all (\<lambda>j. q_now s + d \<le> worker_deadline cfg j) (q_inflight s) \<Longrightarrow>
    queue_step cfg s (s\<lparr>q_now := q_now s + d\<rparr>)"

inductive queue_reachable :: "queue_settings \<Rightarrow> queue_sys \<Rightarrow> bool" for cfg where
  start: "queue_reachable cfg init_queue"
| step: "queue_reachable cfg s \<Longrightarrow> queue_step cfg s t \<Longrightarrow> queue_reachable cfg t"

inductive_cases queue_stepE: "queue_step cfg s t"

text \<open>A live worker owns its job: the row is the one it claimed, and its deadline lies ahead.\<close>

definition owned :: "queue_settings \<Rightarrow> eval_db \<Rightarrow> time \<Rightarrow> evaluation_job \<Rightarrow> bool" where
  "owned cfg db now j \<longleftrightarrow>
     get_job db (job_id j) = Some j \<and> job_status j = JobRunning \<and> job_started_at j \<noteq> None \<and>
     now \<le> worker_deadline cfg j"

definition queue_inv :: "queue_settings \<Rightarrow> queue_sys \<Rightarrow> bool" where
  "queue_inv cfg s \<longleftrightarrow>
     jobs_ok (q_db s) \<and> distinct (map job_id (q_inflight s)) \<and>
     list_all (owned cfg (q_db s) (q_now s)) (q_inflight s)"

lemma recovery_margin:
  "timedelta_seconds (evaluation_job_timeout_seconds cfg) + seconds 300
     \<le> timedelta_seconds (stuck_job_recovery_seconds cfg)"
proof -
  let ?t = "evaluation_job_timeout_seconds cfg"
  have "timedelta_seconds ?t + seconds 300 = timedelta_seconds (?t + of_int 300)"
    by (rule timedelta_seconds_add_int [symmetric])
  also have "\<dots> \<le> timedelta_seconds (stuck_job_recovery_seconds cfg)"
    by (rule timedelta_seconds_mono) (simp add: stuck_job_recovery_seconds_def Let_def)
  finally show ?thesis .
qed

lemma owned_not_stuck: "owned cfg db now j \<Longrightarrow> \<not> stuck cfg now j"
  using recovery_margin [of cfg]
  by (auto simp: owned_def stuck_def worker_deadline_def split: option.splits)

lemma owned_recover:
  "jobs_ok db \<Longrightarrow> owned cfg db now j \<Longrightarrow> owned cfg (fst (recover_stuck_jobs cfg locked db now only)) now j"
  using owned_not_stuck [of cfg db now j]
  by (simp add: owned_def recover_stuck_jobs_get)

lemma owned_jobs: "db_jobs db' = db_jobs db \<Longrightarrow> owned cfg db' now j = owned cfg db now j"
  by (simp add: owned_def)

lemma owned_enqueue:
  "enqueue_evaluation_job db i sid m now = Inr (db', k) \<Longrightarrow> owned cfg db t j \<Longrightarrow> owned cfg db' t j"
  by (auto simp: enqueue_evaluation_job_def owned_def row_get_append Let_def split: if_splits)

lemma timeout_pos: "seconds 60 \<le> timedelta_seconds (evaluation_job_timeout_seconds cfg)"
proof -
  have "seconds 60 = timedelta_seconds (60::rat)" by (simp add: timedelta_seconds_def)
  also have "\<dots> \<le> timedelta_seconds (evaluation_job_timeout_seconds cfg)"
    by (rule timedelta_seconds_mono) (simp add: evaluation_job_timeout_seconds_def)
  finally show ?thesis .
qed

lemma claim_inv:
  assumes inv: "queue_inv cfg s" and cl: "claim_job_by_id (q_db s) i (q_now s) = Some (db', j)"
  shows "queue_inv cfg (s\<lparr>q_db := db', q_inflight := j # q_inflight s\<rparr>)"
proof -
  obtain j0 where j0: "get_job (q_db s) i = Some j0" "due (q_now s) j0" "j = claim_row (q_now s) j0"
    "db' = upd_job i (claim_row (q_now s)) (q_db s)"
    using cl by (auto simp: claim_job_by_id_Some)
  have id: "job_id j0 = i" using j0(1) by (auto dest: row_get_SomeD)
  have notin: "job_id k \<noteq> i" if "k \<in> set (q_inflight s)" for k
  proof
    assume "job_id k = i"
    with that inv have "j0 = k" "job_status k = JobRunning"
      using j0(1) by (auto simp: queue_inv_def list_all_iff owned_def)
    with j0(2) show False by (simp add: due_def waiting_def)
  qed
  have "owned cfg db' (q_now s) k" if "k \<in> set (q_inflight s)" for k
    using that inv notin [OF that] by (auto simp: queue_inv_def list_all_iff owned_def j0(4) row_simps)
  moreover have "owned cfg db' (q_now s) j"
    using j0 id timeout_pos [of cfg] by (simp add: owned_def row_simps claim_row_def worker_deadline_def)
  moreover have "jobs_ok db'" using inv cl by (auto simp: queue_inv_def intro: claim_jobs_ok)
  moreover have "i \<notin> job_id ` set (q_inflight s)" using notin by auto
  ultimately show ?thesis
    using inv id j0(3) by (auto simp: queue_inv_def list_all_iff)
qed

lemma finish_inv:
  assumes inv: "queue_inv cfg s" and j: "j \<in> set (q_inflight s)"
  shows "queue_inv cfg (s\<lparr>q_db := finish_job cfg outcome (q_now s) j (q_db s),
                          q_inflight := drop_job j (q_inflight s)\<rparr>)"
proof -
  have own: "get_job (q_db s) (job_id j) = Some j" "job_status j = JobRunning" "jobs_ok (q_db s)"
    using inv j by (auto simp: queue_inv_def list_all_iff owned_def)
  then have "jobs_ok (finish_job cfg outcome (q_now s) j (q_db s))"
    by (intro finish_job_ok)
  moreover have "owned cfg (finish_job cfg outcome (q_now s) j (q_db s)) (q_now s) k"
    if "k \<in> set (drop_job j (q_inflight s))" for k
    using that inv by (auto simp: queue_inv_def list_all_iff owned_def drop_job_def finish_job_get [OF own(1)])
  ultimately show ?thesis
    using inv by (auto simp: queue_inv_def list_all_iff drop_job_def distinct_map_filter)
qed

lemma queue_step_inv: "queue_step cfg s t \<Longrightarrow> queue_inv cfg s \<Longrightarrow> queue_inv cfg t"
proof (induction rule: queue_step.induct)
  case (enqueue s i sid m db' j)
  then show ?case
    by (auto simp: queue_inv_def list_all_iff intro: enqueue_jobs_ok owned_enqueue)
next
  case (claim_next locked s db' j)
  then show ?case by (auto simp: claim_next_job_def intro: claim_inv split: option.splits)
next
  case (claim_id s i db' j)
  then show ?case by (intro claim_inv)
next
  case (pipeline db' s)
  then show ?case by (simp add: queue_inv_def jobs_ok_def owned_jobs [OF pipeline.hyps] list_all_iff)
next
  case (finish j s outcome)
  then show ?case by (intro finish_inv)
next
  case (crash j s)
  then show ?case by (auto simp: queue_inv_def list_all_iff drop_job_def distinct_map_filter)
next
  case (recover s locked only)
  then show ?case
    by (auto simp: queue_inv_def list_all_iff intro: recover_stuck_jobs_ok owned_recover)
next
  case (tick d s)
  then show ?case by (auto simp: queue_inv_def list_all_iff owned_def)
qed

lemma queue_reachable_inv: "queue_reachable cfg s \<Longrightarrow> queue_inv cfg s"
proof (induction rule: queue_reachable.induct)
  case start
  show ?case by (simp add: queue_inv_def init_queue_def jobs_ok_def keys_distinct_def)
next
  case (step s t)
  then show ?case by (blast intro: queue_step_inv)
qed


section \<open>Properties\<close>

definition sample_settings :: queue_settings where
  "sample_settings = \<lparr>evaluation_job_timeout = 600, worker_id_setting = [],
     heartbeat_interval = 5, heartbeat_timeout = 30\<rparr>"

definition sample_job :: evaluation_job where
  "sample_job = \<lparr>job_id = 1, job_submission_id = 7, job_status = JobRunning, job_attempts = 1,
     job_max_attempts = 3, job_last_error = None, job_created_at = 0, job_available_at = 0,
     job_started_at = Some 0, job_finished_at = None\<rparr>"

definition sample_db :: eval_db where
  "sample_db = \<lparr>db_jobs = [sample_job], db_submissions = [], db_runs = [], db_leaderboard = [], db_heartbeats = []\<rparr>"

lemma sample_jobs_ok: "jobs_ok sample_db"
  by (simp add: jobs_ok_def keys_distinct_def job_ok_def sample_db_def sample_job_def)

lemma sample_reachable:
  "queue_reachable sample_settings \<lparr>q_db = sample_db, q_now = 0, q_inflight = [sample_job]\<rparr>"
proof -
  let ?j = "sample_job\<lparr>job_status := JobQueued, job_attempts := 0, job_started_at := None\<rparr>"
  let ?db = "sample_db\<lparr>db_jobs := [?j]\<rparr>"
  have "queue_step sample_settings init_queue (init_queue\<lparr>q_db := ?db\<rparr>)"
    by (rule queue_step.enqueue [of _ 1 7 3 _ ?j])
       (simp_all add: enqueue_evaluation_job_def Let_def init_queue_def sample_db_def sample_job_def)
  with queue_reachable.start have r: "queue_reachable sample_settings (init_queue\<lparr>q_db := ?db\<rparr>)"
    by (rule queue_reachable.step)
  have "queue_step sample_settings (init_queue\<lparr>q_db := ?db\<rparr>)
     (init_queue\<lparr>q_db := ?db, q_db := sample_db, q_inflight := sample_job # q_inflight (init_queue\<lparr>q_db := ?db\<rparr>)\<rparr>)"
    by (rule queue_step.claim_id [of _ 1])
       (simp add: claim_job_by_id_def init_queue_def sample_db_def sample_job_def due_def waiting_def
                  claim_row_def upd_job_def)
  from queue_reachable.step [OF r this] show ?thesis
    by (simp add: init_queue_def)
qed

text \<open>
  C1: With any number of workers claiming, running, crashing and recovering in any order, a live
  worker stays the only owner of its job: the row is still the one it claimed and still running,
  and no other live worker holds that job. The recovery sweep never takes a job from a live worker.
\<close>

theorem live_worker_owns_job:
  assumes "queue_reachable cfg s" "j \<in> set (q_inflight s)"
  shows "get_job (q_db s) (job_id j) = Some j \<and> job_status j = JobRunning \<and>
         \<not> stuck cfg (q_now s) j \<and>
         filter (\<lambda>k. job_id k = job_id j) (q_inflight s) = [j]"
proof -
  have inv: "queue_inv cfg s" using assms(1) by (rule queue_reachable_inv)
  then have own: "owned cfg (q_db s) (q_now s) j"
    using assms(2) by (simp add: queue_inv_def list_all_iff)
  have "distinct (map job_id (q_inflight s))" using inv by (simp add: queue_inv_def)
  then have "filter (\<lambda>k. job_id k = job_id j) (q_inflight s) = [j]"
    using assms(2) by (rule filter_key_single)
  then show ?thesis using own owned_not_stuck [OF own] by (simp add: owned_def)
qed

theorem live_worker_owns_job_witness:
  "filter (\<lambda>k. job_id k = job_id sample_job)
     (q_inflight \<lparr>q_db = sample_db, q_now = 0, q_inflight = [sample_job]\<rparr>) = [sample_job]"
  using live_worker_owns_job [OF sample_reachable, of sample_job] by simp

text \<open>
  The recovery sweep does exactly this to the job table: a job that has been running past the
  cutoff, that is not locked and that is in the scope of the sweep, becomes completed if its
  submission is completed and is otherwise put back or failed; every other job is left alone.
\<close>

theorem recover_stuck_jobs_exact:
  assumes "jobs_ok db"
  shows "jobs_ok (fst (recover_stuck_jobs cfg locked db now only)) \<and>
     get_job (fst (recover_stuck_jobs cfg locked db now only)) i
       = map_option (\<lambda>j. if stuck cfg now j \<and> \<not> locked i \<and> only \<in> {None, Some i}
                         then recovered_row now db j else j) (get_job db i)"
  using recover_stuck_jobs_ok [OF assms] recover_stuck_jobs_get [OF assms, where cfg = cfg and locked = locked and now = now and only = only and i = i]
  by (cases "get_job db i") simp_all

theorem recover_stuck_jobs_exact_witness:
  "map_option job_status
     (get_job (fst (recover_stuck_jobs sample_settings (\<lambda>_. False) sample_db (seconds 1200) None)) 1)
   = Some JobRetry"
proof -
  have "stuck sample_settings (seconds 1200) sample_job"
    by (simp add: stuck_def sample_job_def sample_settings_def stuck_job_recovery_seconds_def
        evaluation_job_timeout_seconds_def timedelta_seconds_def Let_def)
  then show ?thesis
    using recover_stuck_jobs_exact [OF sample_jobs_ok, where cfg = sample_settings and locked = "\<lambda>_. False"
        and now = "seconds 1200" and only = None and i = 1]
    by (simp add: sample_db_def sample_job_def recovered_row_def completed_view_def set_retry_or_failed_def)
qed

text \<open>
  A worker that asks for work gets the oldest job that is due and not locked: it is marked as
  running, started now, with one more attempt, and nothing else changes. It goes away
  empty-handed only if no job is due and unlocked.
\<close>

theorem claim_next_job_oldest:
  assumes "jobs_ok db"
  shows "case claim_next_job locked db now of
     None \<Rightarrow> filter (\<lambda>k. due now k \<and> \<not> locked (job_id k)) (db_jobs db) = []
   | Some (db', j') \<Rightarrow>
       (\<exists>j. get_job db (job_id j') = Some j \<and> due now j \<and> j' = claim_row now j \<and>
            db' = upd_job (job_id j') (claim_row now) db \<and>
            list_all (\<lambda>k. job_created_at j \<le> job_created_at k)
              (filter (\<lambda>k. due now k \<and> \<not> locked (job_id k)) (db_jobs db)))"
proof (cases "queue_query locked db now")
  case None
  then have "filter (\<lambda>k. due now k \<and> \<not> locked (job_id k)) (db_jobs db) = []"
    unfolding queue_query_None filter_empty_conv by blast
  with None show ?thesis by (simp add: claim_next_job_def)
next
  case (Some i)
  then obtain j where j: "j \<in> set (db_jobs db)" "job_id j = i" "due now j" "\<not> locked i"
    "\<And>k. k \<in> set (db_jobs db) \<Longrightarrow> due now k \<Longrightarrow> \<not> locked (job_id k) \<Longrightarrow> job_created_at j \<le> job_created_at k"
    by (rule queue_query_Some) blast
  then have get: "get_job db i = Some j"
    using assms row_get_mem [of job_id "db_jobs db" j] by (simp add: jobs_ok_def)
  then have "claim_job_by_id db i now = Some (upd_job i (claim_row now) db, claim_row now j)"
    using j(3) by (auto simp: claim_job_by_id_Some)
  with Some j get show ?thesis by (auto simp: claim_next_job_def list_all_iff)
qed

definition sample_queued :: evaluation_job where
  "sample_queued = sample_job\<lparr>job_status := JobQueued, job_attempts := 0, job_started_at := None\<rparr>"

theorem claim_next_job_oldest_witness:
  "map_option snd (claim_next_job (\<lambda>_. False) (sample_db\<lparr>db_jobs := [sample_queued]\<rparr>) 5)
   = Some (claim_row 5 sample_queued)"
proof -
  have ok: "jobs_ok (sample_db\<lparr>db_jobs := [sample_queued]\<rparr>)"
    by (simp add: jobs_ok_def keys_distinct_def job_ok_def sample_queued_def sample_job_def)
  show ?thesis
    using claim_next_job_oldest [OF ok, where locked = "\<lambda>_. False" and now = 5]
    by (auto simp: sample_queued_def sample_job_def due_def waiting_def split: option.splits if_splits)
qed

text \<open>
  C2: Whatever the pipeline does, the job that ran is completed exactly if the pipeline returned
  true and its submission is completed; otherwise it is queued for a retry after the backoff while
  attempts are left, and failed with its error, cut to 1500 characters, when they are used up. The
  other jobs are not touched.
\<close>

theorem finish_job_outcome:
  assumes "get_job db (job_id job) = Some job"
  shows "get_job (finish_job cfg outcome now job db) i =
     (if i \<noteq> job_id job then get_job db i
      else if outcome = PipeReturned True \<and> completed_view db (job_submission_id job) \<noteq> None
      then Some (job\<lparr>job_status := JobCompleted, job_finished_at := Some now, job_last_error := None\<rparr>)
      else
        let err = (case outcome of
                     PipeReturned _ \<Rightarrow> ''Submission evaluation did not complete successfully.''
                   | PipeTimeout \<Rightarrow> timeout_error cfg
                   | PipeRaised msg \<Rightarrow> msg)
        in if job_attempts job < job_max_attempts job
           then Some (job\<lparr>job_status := JobRetry,
                  job_available_at := now + seconds (min 60 (2 ^ nat (max 1 (job_attempts job)))),
                  job_finished_at := None, job_last_error := Some (take 1500 err)\<rparr>)
           else Some (job\<lparr>job_status := JobFailed, job_finished_at := Some now,
                  job_last_error := Some (take 1500 err)\<rparr>))"
proof (cases "outcome = PipeReturned True \<and> completed_view db (job_submission_id job) \<noteq> None")
  case True
  then have "finished_row cfg outcome now db job = complete_row now job"
    unfolding finished_row_def by (rule if_P)
  then show ?thesis unfolding finish_job_get [OF assms] complete_row_def if_P [OF True] by simp
next
  case False
  then show ?thesis
    unfolding finish_job_get [OF assms] finished_row_def if_not_P [OF False] set_retry_or_failed_def
      retry_backoff_seconds_def Let_def by simp
qed

theorem finish_job_outcome_witness:
  "get_job (finish_job sample_settings PipeTimeout 5 sample_job sample_db) 1
   = Some (sample_job\<lparr>job_status := JobRetry, job_available_at := 5 + seconds 2,
             job_last_error := Some (take 1500 (timeout_error sample_settings))\<rparr>)"
proof -
  have h: "get_job sample_db (job_id sample_job) = Some sample_job"
    by (simp add: sample_db_def)
  show ?thesis
    using finish_job_outcome [OF h, where cfg = sample_settings and outcome = PipeTimeout and now = 5 and i = 1]
    by (simp add: sample_job_def)
qed

text \<open>
  A job whose runs keep failing is claimed at most as often as it has attempts left, and once
  it has failed that often it is out of the queue for good.
\<close>

theorem failing_job_claims_bounded:
  assumes "job_attempts j < job_max_attempts j"
    and "retry_job.rounds waiting claim_row (\<lambda>t. set_retry_or_failed t e) ts j = (n, k)"
  shows "int n \<le> job_max_attempts j - job_attempts j \<and>
     (waiting k \<longrightarrow> int (length ts) < job_max_attempts j - job_attempts j)"
  using eval_retry.rounds_bound [OF assms] eval_retry.rounds_exhaust [OF _ assms]
  by fastforce

theorem failing_job_claims_bounded_witness:
  "\<not> waiting (snd (retry_job.rounds waiting claim_row (\<lambda>t. set_retry_or_failed t ''boom'')
      [(0, 1), (9, 10), (99, 100)] (sample_job\<lparr>job_status := JobQueued, job_attempts := 0\<rparr>)))"
proof -
  let ?j = "sample_job\<lparr>job_status := JobQueued, job_attempts := 0\<rparr>"
  let ?ts = "[(0, 1), (9, 10), (99, 100)] :: (time \<times> time) list"
  obtain n k where r: "retry_job.rounds waiting claim_row (\<lambda>t. set_retry_or_failed t ''boom'') ?ts ?j = (n, k)"
    by (metis surj_pair)
  have "job_attempts ?j < job_max_attempts ?j" by (simp add: sample_job_def)
  from failing_job_claims_bounded [OF this r] r show ?thesis by (simp add: sample_job_def)
qed

end
