(* ===== verification/EvaluationPipeline.thy ===== *)
theory EvaluationPipeline
  imports EvaluationReport EvaluationQueue "HOL-Library.Product_Lexorder"
begin

text \<open>
  The pipeline of one submission (\<open>backend/app/workers/evaluate.py\<close>): loading it, marking it as
  running, evaluating it, storing the scores, the report and the runs, and the leaderboard with
  its eligibility gates and its upsert in both database dialects. The evaluation itself ends with
  a result, an exception or a cancellation, which is an argument; the engine's evaluation is one
  instance.
\<close>

section \<open>Eligibility for the leaderboard\<close>

definition min_leaderboard_tests :: int where "min_leaderboard_tests = 6"

definition min_leaderboard_reliability :: rat where "min_leaderboard_reliability = 55 / 100"

definition min_leaderboard_credibility :: rat where "min_leaderboard_credibility = 65 / 100"

definition min_leaderboard_leverage_gain :: rat where "min_leaderboard_leverage_gain = 0"

text \<open>\<open>d.get(k) or default\<close>.\<close>

definition get_or :: "json dict \<Rightarrow> string \<Rightarrow> json \<Rightarrow> json" where
  "get_or d k dflt = py_or (dict_get d k JNull) dflt"

definition eligible_for_leaderboard :: "(json \<Rightarrow> string) \<Rightarrow> submission \<Rightarrow> py_exc + bool" where
  "eligible_for_leaderboard py_repr sub =
     (if sub_status sub \<noteq> SubCompleted \<or> sub_score_overall sub = None then Inr False
      else if or_zero (sub_score_reliability sub) < min_leaderboard_reliability then Inr False
      else
        bind (as_dict (py_or (json_opt id (sub_report sub)) (JObj []))) (\<lambda>report.
        if truthy (dict_get report ''disqualified'' JNull) then Inr False
        else bind (py_int_of (get_or report ''tests_total'' (JInt 0))) (\<lambda>tests_total.
        if tests_total < min_leaderboard_tests then Inr False
        else bind (as_dict (get_or report ''credibility'' (JObj []))) (\<lambda>credibility.
        bind (py_float (get_or credibility ''score'' (JFloat 0))) (\<lambda>score.
        if score < min_leaderboard_credibility then Inr False
        else bind (as_dict (get_or report ''prompt_quality_details'' (JObj []))) (\<lambda>prompt_details.
        if py_str py_repr (get_or prompt_details ''method'' (JStr [])) \<noteq> ''llm_judge'' then Inr False
        else bind (as_dict (get_or report ''ai_leverage'' (JObj []))) (\<lambda>leverage.
        bind (as_dict (get_or leverage ''signals'' (JObj []))) (\<lambda>signals.
        bind (as_dict (get_or signals ''counterfactual'' (JObj []))) (\<lambda>counterfactual.
        if py_str py_repr (get_or counterfactual ''status'' (JStr [])) \<noteq> ''ok'' then Inr False
        else (case dict_get leverage ''leverage_gain'' JNull of
                JNull \<Rightarrow> Inr False
              | g \<Rightarrow> bind (py_float g) (\<lambda>gain. Inr (\<not> gain < min_leaderboard_leverage_gain))))))))))))"

section \<open>The upsert\<close>

definition leaderboard_values :: "uuid \<Rightarrow> time \<Rightarrow> submission \<Rightarrow> rat \<Rightarrow> leaderboard_entry" where
  "leaderboard_values new_id now sub overall =
     \<lparr>lb_id = new_id, lb_challenge_id = sub_challenge_id sub, lb_user_id = sub_user_id sub,
      lb_submission_id = sub_id sub, lb_overall = overall,
      lb_accuracy = or_zero (sub_score_accuracy sub), lb_prompt_quality = or_zero (sub_score_prompt_quality sub),
      lb_efficiency = or_zero (sub_score_efficiency sub), lb_reliability = or_zero (sub_score_reliability sub),
      lb_orchestration = or_zero (sub_score_orchestration sub), lb_code_quality = or_zero (sub_score_code_quality sub),
      lb_rule_adherence = or_zero (sub_score_rule_adherence sub), lb_edge_cases = or_zero (sub_score_edge_cases sub),
      lb_cost_usd = or_zero (sub_total_cost_usd sub),
      lb_llm_calls = (case sub_total_llm_calls sub of None \<Rightarrow> 0 | Some n \<Rightarrow> n), lb_updated_at = now\<rparr>"

definition lb_key :: "leaderboard_entry \<Rightarrow> uuid \<times> uuid" where
  "lb_key e = (lb_challenge_id e, lb_user_id e)"

text \<open>The update keeps the identifier of the row that is there.\<close>

definition overwrite :: "leaderboard_entry \<Rightarrow> leaderboard_entry \<Rightarrow> leaderboard_entry" where
  "overwrite new old = new\<lparr>lb_id := lb_id old\<rparr>"

text \<open>\<open>INSERT ... ON CONFLICT (challenge_id, user_id) DO UPDATE ... WHERE excluded.score > score\<close>.\<close>

definition insert_on_conflict :: "leaderboard_entry \<Rightarrow> leaderboard_entry list \<Rightarrow> leaderboard_entry list" where
  "insert_on_conflict new rows =
     (if row_get lb_key (lb_key new) rows = None then rows @ [new]
      else row_upd lb_key (lb_key new)
             (\<lambda>old. if lb_overall new > lb_overall old then overwrite new old else old) rows)"

text \<open>The query, the comparison and the assignments of the other dialects.\<close>

definition select_and_update :: "leaderboard_entry \<Rightarrow> leaderboard_entry list \<Rightarrow> leaderboard_entry list" where
  "select_and_update new rows =
     (case row_get lb_key (lb_key new) rows of
        None \<Rightarrow> rows @ [new]
      | Some entry \<Rightarrow>
          if lb_overall new > lb_overall entry
          then row_upd lb_id (lb_id entry)
                 (\<lambda>e. e\<lparr>lb_submission_id := lb_submission_id new, lb_overall := lb_overall new,
                        lb_accuracy := lb_accuracy new, lb_prompt_quality := lb_prompt_quality new,
                        lb_efficiency := lb_efficiency new, lb_reliability := lb_reliability new,
                        lb_orchestration := lb_orchestration new, lb_code_quality := lb_code_quality new,
                        lb_rule_adherence := lb_rule_adherence new, lb_edge_cases := lb_edge_cases new,
                        lb_cost_usd := lb_cost_usd new, lb_llm_calls := lb_llm_calls new,
                        lb_updated_at := lb_updated_at new\<rparr>) rows
          else rows)"

definition upsert_leaderboard ::
  "(json \<Rightarrow> string) \<Rightarrow> dialect \<Rightarrow> uuid \<Rightarrow> time \<Rightarrow> submission \<Rightarrow> leaderboard_entry list \<Rightarrow> py_exc + leaderboard_entry list" where
  "upsert_leaderboard py_repr d new_id now sub rows =
     bind (eligible_for_leaderboard py_repr sub) (\<lambda>eligible.
       if \<not> eligible then Inr rows
       else (case sub_score_overall sub of
               None \<Rightarrow> Inr rows
             | Some overall \<Rightarrow>
                 (let values' = leaderboard_values new_id now sub overall
                  in Inr (if d = OtherDialect then select_and_update values' rows
                          else insert_on_conflict values' rows))))"

section \<open>The pipeline\<close>

record challenge_row =
  ch_id :: uuid
  ch_slug :: string
  ch_title :: string
  ch_description :: string
  ch_category :: string
  ch_config :: "json dict"

definition eval_config :: "challenge_row \<Rightarrow> submission \<Rightarrow> json dict" where
  "eval_config ch sub =
     set_key ''_ai_billing_identity''
       (JList [JStr (uuid_text (sub_user_id sub)), JStr (''evaluation:'' @ uuid_text (sub_id sub))])
       (setdefault ''challenge_category'' (JStr (ch_category ch))
         (setdefault ''challenge_title'' (JStr (ch_title ch))
           (setdefault ''challenge_slug'' (JStr (ch_slug ch))
             (setdefault ''description'' (JStr (ch_description ch)) (ch_config ch)))))"

text \<open>The completed attempts at the same challenge, the latest first (NULLS FIRST of a descending order).\<close>

definition completed_submissions :: "eval_db \<Rightarrow> submission \<Rightarrow> submission list" where
  "completed_submissions db sub =
     rev (sort_key (\<lambda>s. (case sub_completed_at s of None \<Rightarrow> 1 | Some _ \<Rightarrow> 0,
                         case sub_completed_at s of None \<Rightarrow> 0 | Some t \<Rightarrow> t, sub_created_at s) :: int \<times> time \<times> time)
       (filter (\<lambda>s. sub_user_id s = sub_user_id sub \<and> sub_challenge_id s = sub_challenge_id sub \<and>
                    sub_status s = SubCompleted \<and> sub_id s \<noteq> sub_id sub) (db_submissions db)))"

definition previous_completed_submission :: "eval_db \<Rightarrow> submission \<Rightarrow> submission option" where
  "previous_completed_submission db sub =
     (case completed_submissions db sub of [] \<Rightarrow> None | s # _ \<Rightarrow> Some s)"

definition recent_completed_submissions :: "eval_db \<Rightarrow> submission \<Rightarrow> nat \<Rightarrow> submission list" where
  "recent_completed_submissions db sub limit = take limit (completed_submissions db sub)"

definition store_result :: "time \<Rightarrow> engine_result \<Rightarrow> json dict \<Rightarrow> growth \<Rightarrow> mastery \<Rightarrow> submission \<Rightarrow> submission" where
  "store_result now r report g m sub =
     sub\<lparr>sub_status := SubCompleted, sub_report := Some (JObj report),
         sub_score_accuracy := Some (er_accuracy r), sub_score_prompt_quality := Some (er_prompt_quality r),
         sub_score_efficiency := Some (er_efficiency r), sub_score_reliability := Some (er_reliability r),
         sub_score_orchestration := Some (er_orchestration r), sub_score_code_quality := Some (er_code_quality r),
         sub_score_rule_adherence := Some (er_rule_adherence r),
         sub_score_edge_cases := Some (er_edge_case_handling r), sub_score_overall := Some (er_overall r),
         sub_delta_overall := gr_overall g, sub_delta_accuracy := gr_accuracy g,
         sub_delta_robustness := gr_robustness g, sub_delta_efficiency := gr_efficiency g,
         sub_growth_score := Some (gr_score g), sub_mastery_state := Some (mastery_text m),
         sub_total_cost_usd := Some (er_cost_usd r), sub_total_latency_ms := Some (er_latency_ms r),
         sub_total_llm_calls := Some (er_llm_calls r), sub_completed_at := Some now\<rparr>"

definition run_row_of :: "uuid \<Rightarrow> time \<Rightarrow> json dict \<Rightarrow> run_row" where
  "run_row_of sid now d =
     \<lparr>rn_submission_id = sid, rn_run_type = dict_get d ''run_type'' (JStr ''ai_judge''),
      rn_run_index = dict_get d ''run_index'' (JInt 0), rn_status = dict_get d ''status'' (JStr ''fail''),
      rn_output = JObj [(''feedback'', dict_get d ''feedback'' (JStr [])), (''error'', dict_get d ''error'' JNull)],
      rn_telemetry = dict_get d ''meta'' JNull, rn_tokens_total = dict_get d ''tokens_total'' (JInt 0),
      rn_cost_usd = dict_get d ''cost_usd'' (JFloat 0), rn_latency_ms = dict_get d ''latency_ms'' (JFloat 0),
      rn_llm_calls = dict_get d ''llm_calls'' (JInt 0), rn_retries = dict_get d ''retries'' (JInt 0),
      rn_accuracy = dict_get d ''accuracy'' (JFloat 0), rn_started_at = now, rn_finished_at = now\<rparr>"

text \<open>How \<open>evaluate_submission\<close> ends: with a result, by raising, or cancelled by the timeout.\<close>

datatype eval_outcome = EvalResult engine_result | EvalRaised | EvalCancelled

record pipeline_env =
  pe_lib :: py_lib
  pe_profile :: weight_profile
  pe_dialect :: dialect
  pe_challenges :: "challenge_row list"
  pe_evaluate :: "string \<Rightarrow> string \<Rightarrow> json dict \<Rightarrow> eval_outcome"
  pe_code_details :: "string \<Rightarrow> json"
  pe_new_id :: uuid
  pe_now :: time

datatype evaluate_end = EvalDone | EvalFailed | EvalAborted

text \<open>
  \<open>_evaluate\<close>. An exception leaves the pending changes of the session in place: the handler's
  commit writes them with the failed status.
\<close>

definition evaluate :: "pipeline_env \<Rightarrow> eval_db \<Rightarrow> uuid \<Rightarrow> eval_db \<times> evaluate_end" where
  "evaluate pe db sid =
     (case get_submission_row db sid of
        None \<Rightarrow> (db, EvalDone)
      | Some sub \<Rightarrow>
        (case row_get ch_id (sub_challenge_id sub) (pe_challenges pe) of
           None \<Rightarrow> (db, EvalDone)
         | Some ch \<Rightarrow>
           (let db1 = upd_submission sid (\<lambda>s. s\<lparr>sub_status := SubRunning\<rparr>) db
            in case pe_evaluate pe (sub_code sub) (sub_entrypoint sub) (eval_config ch sub) of
                 EvalRaised \<Rightarrow> (db1, EvalFailed)
               | EvalCancelled \<Rightarrow> (db1, EvalAborted)
               | EvalResult r \<Rightarrow>
                   (case build_report (pe_lib pe) (pe_profile pe) (pe_code_details pe (sub_code sub))
                           (previous_completed_submission db1 sub) (recent_completed_submissions db1 sub 4) sub r of
                      Inl e \<Rightarrow> (db1, EvalFailed)
                    | Inr (report, g, m) \<Rightarrow>
                        (let now = pe_now pe;
                             db2 = upd_submission sid (store_result now r report g m) db1;
                             db3 = db2\<lparr>db_runs := db_runs db2 @ map (run_row_of sid now) (er_runs r)\<rparr>
                         in case upsert_leaderboard (lib_repr (pe_lib pe)) (pe_dialect pe) (pe_new_id pe) now
                                  (store_result now r report g m sub) (db_leaderboard db3) of
                              Inl e \<Rightarrow> (db3, EvalFailed)
                            | Inr rows \<Rightarrow> (db3\<lparr>db_leaderboard := rows\<rparr>, EvalDone))))))"

definition mark_failed :: "eval_db \<Rightarrow> uuid \<Rightarrow> eval_db" where
  "mark_failed db sid = upd_submission sid (\<lambda>s. s\<lparr>sub_status := SubFailed\<rparr>) db"

definition run_evaluation_pipeline :: "pipeline_env \<Rightarrow> eval_db \<Rightarrow> uuid \<Rightarrow> eval_db \<times> pipeline_result" where
  "run_evaluation_pipeline pe db sid =
     (case evaluate pe db sid of
        (db', EvalDone) \<Rightarrow> (db', PipeReturned True)
      | (db', EvalFailed) \<Rightarrow> (mark_failed db' sid, PipeReturned False)
      | (db', EvalAborted) \<Rightarrow> (mark_failed db' sid, PipeTimeout))"

section \<open>The leaderboard\<close>

lemma overwrite_key [simp]: "lb_key (overwrite new old) = lb_key new" "lb_id (overwrite new old) = lb_id old"
  "lb_overall (overwrite new old) = lb_overall new"
  by (simp_all add: overwrite_def lb_key_def)

text \<open>The assignments of the loaded row write every column but the identifier and the key.\<close>

lemma assignments_overwrite:
  "lb_key e = lb_key new \<Longrightarrow>
   e\<lparr>lb_submission_id := lb_submission_id new, lb_overall := lb_overall new,
     lb_accuracy := lb_accuracy new, lb_prompt_quality := lb_prompt_quality new,
     lb_efficiency := lb_efficiency new, lb_reliability := lb_reliability new,
     lb_orchestration := lb_orchestration new, lb_code_quality := lb_code_quality new,
     lb_rule_adherence := lb_rule_adherence new, lb_edge_cases := lb_edge_cases new,
     lb_cost_usd := lb_cost_usd new, lb_llm_calls := lb_llm_calls new,
     lb_updated_at := lb_updated_at new\<rparr> = overwrite new e"
  by (cases e, cases new) (simp add: overwrite_def lb_key_def)

lemma row_upd_by_row:
  assumes "row_get key k rows = Some r" "keys_distinct key rows" "keys_distinct id_of rows"
    and "f r = g r"
  shows "row_upd key k f rows = row_upd id_of (id_of r) g rows"
proof -
  have r: "r \<in> set rows" "key r = k" using row_get_SomeD [OF assms(1)] by simp_all
  have "(key x = k) = (x = r)" "(id_of x = id_of r) = (x = r)" if "x \<in> set rows" for x
    using r assms(2,3) that by (auto simp: keys_distinct_def distinct_map dest: inj_onD)
  then show ?thesis using assms(4) by (auto simp: row_upd_def)
qed

lemma select_insert_agree:
  assumes "keys_distinct lb_key rows" "keys_distinct lb_id rows"
  shows "select_and_update new rows = insert_on_conflict new rows"
proof (cases "row_get lb_key (lb_key new) rows")
  case None
  then show ?thesis by (simp add: select_and_update_def insert_on_conflict_def)
next
  case (Some e)
  then have e: "lb_key e = lb_key new" by (rule row_get_SomeD [THEN conjunct2])
  show ?thesis
  proof (cases "lb_overall new > lb_overall e")
    case True
    then show ?thesis
      unfolding select_and_update_def insert_on_conflict_def Some option.case if_P [OF True]
      using assignments_overwrite [OF e]
      by (subst row_upd_by_row [OF Some assms]) simp_all
  next
    case False
    have "row_upd lb_key (lb_key new) (\<lambda>old. if lb_overall new > lb_overall old then overwrite new old else old) rows
        = row_upd lb_id (lb_id e) (\<lambda>x. x) rows"
      using False by (intro row_upd_by_row [OF Some assms]) simp
    also have "\<dots> = rows" by (simp add: row_upd_def)
    finally show ?thesis using Some False by (simp add: select_and_update_def insert_on_conflict_def)
  qed
qed

lemma insert_on_conflict_get:
  "row_get lb_key k (insert_on_conflict new rows) =
     (if k = lb_key new
      then Some (case row_get lb_key k rows of
                   None \<Rightarrow> new
                 | Some old \<Rightarrow> if lb_overall new > lb_overall old then overwrite new old else old)
      else row_get lb_key k rows)"
proof (cases "row_get lb_key (lb_key new) rows")
  case None
  then show ?thesis by (auto simp: insert_on_conflict_def row_get_append split: option.split)
next
  case (Some e)
  have "row_get lb_key k (row_upd lb_key (lb_key new) f rows) = (if k = lb_key new then map_option f (row_get lb_key k rows) else row_get lb_key k rows)"
    if "\<And>x. lb_key x = lb_key new \<Longrightarrow> lb_key (f x) = lb_key new" for f
    using that by (induction rows) auto
  from this [of "\<lambda>old. if lb_overall new > lb_overall old then overwrite new old else old"]
  show ?thesis using Some by (simp add: insert_on_conflict_def)
qed

lemma insert_on_conflict_distinct:
  assumes "keys_distinct lb_key rows"
  shows "keys_distinct lb_key (insert_on_conflict new rows)"
proof (cases "row_get lb_key (lb_key new) rows")
  case None
  then show ?thesis using assms
    by (simp add: insert_on_conflict_def keys_distinct_def row_get_None_iff)
next
  case (Some e)
  have "map lb_key (row_upd lb_key (lb_key new) f rows) = map lb_key rows"
    if "\<And>x. lb_key x = lb_key new \<Longrightarrow> lb_key (f x) = lb_key new" for f
    using that by (auto simp: row_upd_def)
  then show ?thesis using assms Some by (simp add: insert_on_conflict_def keys_distinct_def)
qed

lemma leaderboard_values_simps [simp]:
  "lb_key (leaderboard_values i now sub ov) = (sub_challenge_id sub, sub_user_id sub)"
  "lb_overall (leaderboard_values i now sub ov) = ov"
  "lb_submission_id (leaderboard_values i now sub ov) = sub_id sub"
  by (simp_all add: leaderboard_values_def lb_key_def)

text \<open>
  C3: The leaderboard keeps the best attempt: whatever the dialect, an eligible submission leaves
  its user's entry for the challenge at the maximum of the old and the new score, showing the new
  submission exactly when it is strictly better, all other entries untouched and still one entry
  for each user and challenge; a submission that is not eligible changes nothing.
\<close>

theorem leaderboard_keeps_best:
  assumes "keys_distinct lb_key rows" "keys_distinct lb_id rows"
    and "upsert_leaderboard py_repr d new_id now sub rows = Inr rows'"
    and "eligible_for_leaderboard py_repr sub = Inr eligible" "sub_score_overall sub = Some overall"
  shows "keys_distinct lb_key rows' \<and>
    (if eligible
     then (\<forall>k. row_get lb_key k rows' =
             (if k = (sub_challenge_id sub, sub_user_id sub)
              then Some (case row_get lb_key k rows of
                           None \<Rightarrow> leaderboard_values new_id now sub overall
                         | Some old \<Rightarrow> if overall > lb_overall old
                             then overwrite (leaderboard_values new_id now sub overall) old else old)
              else row_get lb_key k rows))
     else rows' = rows)"
proof (cases eligible)
  case False
  then show ?thesis using assms by (simp add: upsert_leaderboard_def)
next
  case True
  let ?v = "leaderboard_values new_id now sub overall"
  have rows': "rows' = insert_on_conflict ?v rows"
    using assms True select_insert_agree [OF assms(1,2), of ?v]
    by (simp add: upsert_leaderboard_def Let_def split: if_splits)
  show ?thesis
    unfolding rows' insert_on_conflict_get leaderboard_values_simps if_P [OF True]
    using insert_on_conflict_distinct [OF assms(1)] by blast
qed

section \<open>The outcome of the pipeline\<close>

lemma mark_failed_get:
  "get_submission_row db sid = Some s \<Longrightarrow>
   get_submission_row (mark_failed db sid) sid = Some (s\<lparr>sub_status := SubFailed\<rparr>)"
  by (simp add: mark_failed_def row_simps)

lemma evaluate_cases:
  assumes "get_submission_row db sid = Some sub" "row_get ch_id (sub_challenge_id sub) (pe_challenges pe) = Some ch"
    "evaluate pe db sid = (db', e)"
  shows "db_jobs db' = db_jobs db \<and> (\<exists>s. get_submission_row db' sid = Some s \<and> (e = EvalDone \<longrightarrow> sub_status s = SubCompleted)) \<and>
    (e \<noteq> EvalDone \<longrightarrow> db_leaderboard db' = db_leaderboard db)"
proof -
  have id: "sub_id sub = sid" using row_get_SomeD [OF assms(1)] by simp
  define db1 where "db1 = upd_submission sid (\<lambda>s. s\<lparr>sub_status := SubRunning\<rparr>) db"
  have db1: "get_submission_row db1 sid = Some (sub\<lparr>sub_status := SubRunning\<rparr>)" "db_jobs db1 = db_jobs db"
    "db_leaderboard db1 = db_leaderboard db"
    using assms(1) by (simp_all add: db1_def row_simps)
  show ?thesis
  proof (cases "pe_evaluate pe (sub_code sub) (sub_entrypoint sub) (eval_config ch sub)")
    case EvalRaised
    then show ?thesis using assms db1 by (auto simp: evaluate_def Let_def db1_def [symmetric])
  next
    case EvalCancelled
    then show ?thesis using assms db1 by (auto simp: evaluate_def Let_def db1_def [symmetric])
  next
    case (EvalResult r)
    show ?thesis
    proof (cases "build_report (pe_lib pe) (pe_profile pe) (pe_code_details pe (sub_code sub))
        (previous_completed_submission db1 sub) (recent_completed_submissions db1 sub 4) sub r")
      case (Inl x)
      then show ?thesis using assms db1 EvalResult by (auto simp: evaluate_def Let_def db1_def [symmetric])
    next
      case (Inr y)
      obtain report g m where y: "y = (report, g, m)" by (cases y)
      define f where "f = store_result (pe_now pe) r report g m"
      have f: "sub_status (f s) = SubCompleted" "sub_id (f s) = sub_id s" for s by (simp_all add: f_def store_result_def)
      define db3 where "db3 = (upd_submission sid f db1)\<lparr>db_runs := db_runs (upd_submission sid f db1) @
          map (run_row_of sid (pe_now pe)) (er_runs r)\<rparr>"
      have db3: "get_submission_row db3 sid = Some (f (sub\<lparr>sub_status := SubRunning\<rparr>))" "db_jobs db3 = db_jobs db"
        "db_leaderboard db3 = db_leaderboard db"
        using db1 by (simp_all add: db3_def row_get_row_upd f)
      have "evaluate pe db sid = (case upsert_leaderboard (lib_repr (pe_lib pe)) (pe_dialect pe) (pe_new_id pe)
          (pe_now pe) (f sub) (db_leaderboard db3) of Inl e \<Rightarrow> (db3, EvalFailed) | Inr rows \<Rightarrow> (db3\<lparr>db_leaderboard := rows\<rparr>, EvalDone))"
        unfolding evaluate_def assms(1,2) option.case Let_def db1_def [symmetric] EvalResult eval_outcome.case
          Inr y sum.case prod.case f_def db3_def ..
      then show ?thesis using assms(3) db3 f by (auto split: sum.splits)
    qed
  qed
qed


section \<open>The gates of the leaderboard\<close>

lemma status_text_ok: "status_text s = ''ok'' \<longleftrightarrow> s = BaselineOk" "status_text s \<noteq> []"
  by (cases s; simp add: status_text_def)+

lemma store_result_fields [simp]:
  "sub_status (store_result now r report g m sub) = SubCompleted"
  "sub_score_overall (store_result now r report g m sub) = Some (er_overall r)"
  "sub_score_reliability (store_result now r report g m sub) = Some (er_reliability r)"
  "sub_report (store_result now r report g m sub) = Some (JObj report)"
  by (simp_all add: store_result_def)

lemma baseline_status_entry:
  "as_dict (py_or (baseline_json b) d) = Inr (d2) \<Longrightarrow> dict_get d2 ''status'' JNull = JStr (status_text (bl_status b))"
  by (auto simp: baseline_json_def py_or_def as_dict_def dict_get_def)

lemma baseline_as_dict: "\<exists>d2. as_dict (py_or (baseline_json b) d) = Inr d2"
  by (simp add: baseline_json_def py_or_def as_dict_def)

definition passes_gates :: "engine_result \<Rightarrow> bool" where
  "passes_gates r \<longleftrightarrow>
     55 / 100 \<le> er_reliability r \<and> \<not> en_hardcoded r \<and> 6 \<le> length (er_runs r) \<and>
     65 / 100 \<le> fst (en_credibility r) \<and> en_prompt_method r = ''llm_judge'' \<and>
     bl_status (el_baseline (en_leverage r)) = BaselineOk \<and>
     (case el_gain (en_leverage r) of None \<Rightarrow> False | Some gain \<Rightarrow> 0 \<le> gain)"

text \<open>
  A fresh result enters the leaderboard exactly when it passes the gates: reliability at least
  0.55, not disqualified, at least six runs, credibility at least 0.65, prompts judged by a model,
  a counterfactual baseline that ran, and a leverage gain that is not negative. Reading the stored
  report never raises.
\<close>

theorem leaderboard_gates:
  assumes "build_report L profile code_details previous history sub r = Inr (report, g, m)"
  shows "eligible_for_leaderboard py_repr (store_result now r report g m sub) = Inr (passes_gates r)"
proof -
  from assms obtain diff lev eff fb actions c where
    report: "report = to_report r (uuid_text (sub_id sub)) (leverage_json (en_leverage r) lev) code_details @
       [(''growth'', growth_json g), (''coaching'', coaching_json c), (''iteration_diff'', diff_json diff),
        (''coaching_actions'', JList (map action_json actions)), (''mastery_state'', JStr (mastery_text m)),
        (''learning_effectiveness'', effectiveness_json eff), (''future_feedback'', feedback_json fb)]"
    and lev: "lev = enrich_ai_leverage (leverage_base (en_leverage r)) g (Some (id_changed_ratio diff)) (er_prompt_quality r)"
    by (rule build_report_parts)
  note entries = report_entries [OF report]
  have "report \<noteq> []" unfolding report by (simp add: to_report_def)
  then have rep: "as_dict (py_or (json_opt id (Some (JObj report))) (JObj [])) = Inr report"
    by (simp add: json_opt_def py_or_def as_dict_def)
  have tests: "py_int_of (get_or report ''tests_total'' (JInt 0)) = Inr (int (length (er_runs r)))"
    using entries(4) by (simp add: get_or_def py_or_def py_int_of_def)
  have cred: "as_dict (get_or report ''credibility'' (JObj [])) = Inr
      [(''score'', num (fst (en_credibility r))), (''band'', JStr (band_text (snd (en_credibility r)))),
       (''method'', JStr ''credibility_v1'')]"
    using entries(5) by (simp add: get_or_def py_or_def credibility_json_def as_dict_def)
  have score: "py_float (get_or [(''score'', num (fst (en_credibility r))), (''band'', JStr (band_text (snd (en_credibility r)))),
       (''method'', JStr ''credibility_v1'')] ''score'' (JFloat 0)) = Inr (fst (en_credibility r))"
    by (simp add: get_or_def dict_get_def num_def py_or_zero)
  have details: "as_dict (get_or report ''prompt_quality_details'' (JObj [])) = Inr [(''method'', JStr (en_prompt_method r))]"
    using entries(6) by (simp add: get_or_def py_or_def as_dict_def)
  have meth: "py_str py_repr (get_or [(''method'', JStr (en_prompt_method r))] ''method'' (JStr [])) = en_prompt_method r"
    by (simp add: get_or_def dict_get_def py_or_def)
  have leverage: "as_dict (get_or report ''ai_leverage'' (JObj [])) = Inr (leverage_json (en_leverage r) lev)"
    using entries(1) leverage_json_truthy by (simp add: get_or_def as_dict_def)
  define sg where "sg = [(''counterfactual'', baseline_json (el_baseline (en_leverage r))),
          (''composite'', json_opt mastery_json (al_composite_signal lev)),
          (''learning_velocity'', json_opt velocity_json (al_velocity_signal lev))]"
  have signals: "as_dict (get_or (leverage_json (en_leverage r) lev) ''signals'' (JObj [])) = Inr sg"
    by (simp add: get_or_def leverage_entries(5) py_or_def as_dict_def sg_def)
  have sg_entry: "dict_get sg ''counterfactual'' JNull = baseline_json (el_baseline (en_leverage r))"
    by (simp add: sg_def dict_get_def)
  obtain d2 where cf: "as_dict (get_or sg ''counterfactual'' (JObj [])) = Inr d2"
    unfolding get_or_def sg_entry using baseline_as_dict by blast
  then have "dict_get d2 ''status'' JNull = JStr (status_text (bl_status (el_baseline (en_leverage r))))"
    unfolding get_or_def sg_entry by (rule baseline_status_entry)
  then have status: "py_str py_repr (get_or d2 ''status'' (JStr [])) = ''ok'' \<longleftrightarrow> bl_status (el_baseline (en_leverage r)) = BaselineOk"
    using status_text_ok by (simp add: get_or_def py_or_def)
  have gain: "dict_get (leverage_json (en_leverage r) lev) ''leverage_gain'' JNull = json_opt JFloat (el_gain (en_leverage r))"
    unfolding leverage_entries(4) lev by simp
  have dis: "truthy (dict_get report ''disqualified'' JNull) = en_hardcoded r" by (simp add: entries(3))
  show ?thesis
    unfolding eligible_for_leaderboard_def store_result_fields rep bind_simps dis tests cred score details meth
      leverage signals cf status gain
    by (simp add: passes_gates_def min_leaderboard_tests_def min_leaderboard_reliability_def or_zero_def
        min_leaderboard_credibility_def min_leaderboard_leverage_gain_def json_opt_def not_less
        split: option.split)
qed

section \<open>Witnesses\<close>

theorem leaderboard_gates_witness:
  "\<exists>r report g m. build_report sample_lib default_profile JNull None [] (new_submission 1 2 3 ''x'' ''main.py'' 0) r
       = Inr (report, g, m) \<and>
     eligible_for_leaderboard (\<lambda>_. []) (store_result 5 r report g m (new_submission 1 2 3 ''x'' ''main.py'' 0))
       = Inr (passes_gates r)"
proof -
  obtain r x where "build_report sample_lib default_profile JNull None [] (new_submission 1 2 3 ''x'' ''main.py'' 0) r = Inr x"
    using sample_report by blast
  then obtain report g m where b: "build_report sample_lib default_profile JNull None []
      (new_submission 1 2 3 ''x'' ''main.py'' 0) r = Inr (report, g, m)" by (cases x) auto
  from leaderboard_gates [OF b] b show ?thesis by blast
qed

definition eligible_sample :: submission where
  "eligible_sample = (new_submission 1 2 3 ''x'' ''main.py'' 0)
     \<lparr>sub_status := SubCompleted, sub_score_overall := Some (8 / 10), sub_score_reliability := Some (6 / 10),
      sub_report := Some (JObj
        [(''tests_total'', JInt 6), (''credibility'', JObj [(''score'', JFloat (7 / 10))]),
         (''prompt_quality_details'', JObj [(''method'', JStr ''llm_judge'')]),
         (''ai_leverage'', JObj [(''signals'', JObj [(''counterfactual'', JObj [(''status'', JStr ''ok'')])]),
                                (''leverage_gain'', JFloat (1 / 10))])])\<rparr>"

lemma eligible_sample_ok: "eligible_for_leaderboard (\<lambda>_. []) eligible_sample = Inr True"
  by (simp add: eligible_for_leaderboard_def eligible_sample_def new_submission_def or_zero_def json_opt_def
      py_or_def as_dict_def get_or_def dict_get_def py_int_of_def min_leaderboard_tests_def
      min_leaderboard_reliability_def min_leaderboard_credibility_def min_leaderboard_leverage_gain_def)

theorem leaderboard_keeps_best_witness:
  "\<exists>rows'. upsert_leaderboard (\<lambda>_. []) Postgresql 7 5 eligible_sample [] = Inr rows' \<and>
     row_get lb_key (2, 3) rows' = Some (leaderboard_values 7 5 eligible_sample (8 / 10))"
proof -
  have ov: "sub_score_overall eligible_sample = Some (8 / 10)" by (simp add: eligible_sample_def)
  obtain rows' where up: "upsert_leaderboard (\<lambda>_. []) Postgresql 7 5 eligible_sample [] = Inr rows'"
    using eligible_sample_ok ov by (simp add: upsert_leaderboard_def Let_def)
  have "keys_distinct lb_key []" "keys_distinct lb_id []" by (simp_all add: keys_distinct_def)
  from leaderboard_keeps_best [OF this up eligible_sample_ok ov]
  have "row_get lb_key (2, 3) rows' = Some (leaderboard_values 7 5 eligible_sample (8 / 10))"
    by (simp add: eligible_sample_def new_submission_def)
  with up show ?thesis by blast
qed

definition sample_pipeline :: pipeline_env where
  "sample_pipeline =
     \<lparr>pe_lib = sample_lib, pe_profile = default_profile, pe_dialect = Sqlite,
      pe_challenges = [\<lparr>ch_id = 2, ch_slug = ''s'', ch_title = ''t'', ch_description = ''d'', ch_category = ''c'', ch_config = []\<rparr>],
      pe_evaluate = (\<lambda>_ _ _. EvalRaised), pe_code_details = (\<lambda>_. JNull), pe_new_id = 9, pe_now = 5\<rparr>"

definition sample_eval_db :: eval_db where
  "sample_eval_db = \<lparr>db_jobs = [], db_submissions = [new_submission 1 2 3 ''x'' ''main.py'' 0], db_runs = [],
     db_leaderboard = [], db_heartbeats = []\<rparr>"


end
