(* ===== verification/StorageLedger.thy ===== *)
theory StorageLedger
  imports Prelude
begin

text \<open>
  The accounting of retained artifacts (\<open>backend/app/services/interview/storage_ledger.py\<close>) and the
  reservations that wrap every write (\<open>storage_capacity\<close> and the upload check in
  \<open>workspace_quota.py\<close>). The ledger's two tables are a list of rows keyed by the entry and the
  global row; each function is one transaction. The time stamps of the rows are left out, and the
  free disk space and the sizes measured on disk are arguments.
\<close>

section \<open>The ledger\<close>

record usage_row =
  le_key :: string
  le_total :: int
  le_files :: int
  le_reserved :: int

record ledger =
  lg_rows :: "usage_row list"
  lg_total :: int
  lg_reserved :: int

definition empty_ledger :: ledger where
  "empty_ledger = \<lparr>lg_rows = [], lg_total = 0, lg_reserved = 0\<rparr>"

datatype storage_error = SessionQuotaExceeded | CapacityReached

record storage_limits =
  sl_workspace_bytes :: int
  sl_workspace_files :: int
  sl_global_bytes :: int
  sl_min_free_bytes :: int

definition workspace_usage :: "ledger \<Rightarrow> string \<Rightarrow> (int \<times> int) option" where
  "workspace_usage l k =
     map_option (\<lambda>r. (le_total r + le_reserved r, le_files r)) (row_get le_key k (lg_rows l))"

definition reserve ::
  "storage_limits \<Rightarrow> int \<Rightarrow> string \<Rightarrow> int \<Rightarrow> int \<Rightarrow> ledger \<Rightarrow> storage_error + ledger \<times> int" where
  "reserve lims free key additional_bytes additional_files l =
     (let wanted = max 0 additional_bytes;
          wanted_files = max 0 additional_files;
          row = row_get le_key key (lg_rows l);
          used = (case row of Some r \<Rightarrow> le_total r + le_reserved r | None \<Rightarrow> 0);
          used_files = (case row of Some r \<Rightarrow> le_files r | None \<Rightarrow> 0)
      in if sl_workspace_bytes lims \<noteq> 0 \<and> used + wanted > sl_workspace_bytes lims then Inl SessionQuotaExceeded
         else if sl_workspace_files lims \<noteq> 0 \<and> used_files + wanted_files > sl_workspace_files lims
         then Inl SessionQuotaExceeded
         else if sl_global_bytes lims \<noteq> 0 \<and> lg_total l + lg_reserved l + wanted > sl_global_bytes lims
         then Inl CapacityReached
         else if free - wanted < sl_min_free_bytes lims then Inl CapacityReached
         else Inr (l\<lparr>lg_rows := (case row of
                        Some _ \<Rightarrow> row_upd le_key key (\<lambda>r. r\<lparr>le_reserved := le_reserved r + wanted\<rparr>) (lg_rows l)
                      | None \<Rightarrow> lg_rows l @ [\<lparr>le_key = key, le_total = 0, le_files = 0, le_reserved = wanted\<rparr>]),
                     lg_reserved := lg_reserved l + wanted\<rparr>, wanted))"

definition settle_reservation :: "string \<Rightarrow> int \<Rightarrow> ledger \<Rightarrow> ledger" where
  "settle_reservation key reserved l =
     (if reserved = 0 then l
      else l\<lparr>lg_rows := row_upd le_key key (\<lambda>r. r\<lparr>le_reserved := max 0 (le_reserved r - reserved)\<rparr>) (lg_rows l),
             lg_reserved := max 0 (lg_reserved l - reserved)\<rparr>)"

definition release :: "string \<Rightarrow> int \<Rightarrow> ledger \<Rightarrow> ledger" where
  "release key reserved_bytes l = settle_reservation key (max 0 reserved_bytes) l"

definition write_entry :: "string \<Rightarrow> int \<Rightarrow> int \<Rightarrow> int \<Rightarrow> ledger \<Rightarrow> ledger" where
  "write_entry entry total_bytes file_count settle_amount l =
     (let measured = max 0 total_bytes;
          files = max 0 file_count;
          settle = max 0 settle_amount;
          row = row_get le_key entry (lg_rows l);
          previous = (case row of Some r \<Rightarrow> le_total r | None \<Rightarrow> 0)
      in l\<lparr>lg_rows := (case row of
              Some _ \<Rightarrow> row_upd le_key entry (\<lambda>r. r\<lparr>le_total := measured, le_files := files\<rparr>) (lg_rows l)
            | None \<Rightarrow> lg_rows l @ [\<lparr>le_key = entry, le_total = measured, le_files = files, le_reserved = 0\<rparr>]),
           lg_total := max 0 (lg_total l + (measured - previous)),
           lg_reserved := max 0 (lg_reserved l - settle)\<rparr>)"

definition forget :: "string \<Rightarrow> ledger \<Rightarrow> ledger" where
  "forget entry l =
     (case row_get le_key entry (lg_rows l) of
        None \<Rightarrow> l
      | Some r \<Rightarrow> l\<lparr>lg_rows := filter (\<lambda>r. le_key r \<noteq> entry) (lg_rows l),
                   lg_total := max 0 (lg_total l - le_total r),
                   lg_reserved := max 0 (lg_reserved l - le_reserved r)\<rparr>)"

text \<open>\<open>measured\<close> is a dictionary: its keys are distinct.\<close>

definition reconcile :: "(string \<times> int \<times> int) list \<Rightarrow> ledger \<Rightarrow> ledger" where
  "reconcile measured l =
     (let reservations = map (\<lambda>r. (le_key r, le_reserved r)) (filter (\<lambda>r. le_reserved r > 0) (lg_rows l));
          found = map (\<lambda>(name, size, files).
                    \<lparr>le_key = name, le_total = max 0 size, le_files = max 0 files,
                     le_reserved = (case map_of reservations name of Some n \<Rightarrow> n | None \<Rightarrow> 0)\<rparr>) measured;
          left_over = map (\<lambda>(name, n). \<lparr>le_key = name, le_total = 0, le_files = 0, le_reserved = n\<rparr>)
                    (filter (\<lambda>p. fst p \<notin> fst ` set measured) reservations);
          rows = found @ left_over
      in \<lparr>lg_rows = rows, lg_total = sum_list (map le_total found), lg_reserved = sum_list (map le_reserved rows)\<rparr>)"

section \<open>Reservations around a write\<close>

definition reservation_key :: string where
  "reservation_key = ''.reservations''"

text \<open>How the body of \<open>with storage_capacity(n)\<close> ends.\<close>

datatype write_body =
    Committed string int int
  | CommittedThenRaised string int int
  | RaisedUncommitted
  | LeftUncommitted

definition capacity_limits :: "int \<Rightarrow> int \<Rightarrow> storage_limits" where
  "capacity_limits max_bytes min_free =
     \<lparr>sl_workspace_bytes = 0, sl_workspace_files = 0, sl_global_bytes = max_bytes, sl_min_free_bytes = min_free\<rparr>"

definition storage_capacity ::
  "int \<Rightarrow> int \<Rightarrow> int \<Rightarrow> int \<Rightarrow> write_body \<Rightarrow> ledger \<Rightarrow> storage_error + ledger" where
  "storage_capacity max_bytes min_free free additional_bytes body l =
     (case reserve (capacity_limits max_bytes min_free) free reservation_key (max 0 additional_bytes) 0 l of
        Inl e \<Rightarrow> Inl e
      | Inr (l', reservation) \<Rightarrow>
          Inr (case body of
                 Committed entry total_bytes file_count \<Rightarrow> write_entry entry total_bytes file_count reservation l'
               | CommittedThenRaised entry total_bytes file_count \<Rightarrow> write_entry entry total_bytes file_count reservation l'
               | RaisedUncommitted \<Rightarrow> release reservation_key reservation l'
               | LeftUncommitted \<Rightarrow> write_entry reservation_key reservation 0 reservation l'))"

definition source_bytes_limit :: int where "source_bytes_limit = 20 * 1024 * 1024"

definition source_files_limit :: int where "source_files_limit = 1000"

text \<open>
  \<open>check_upload\<close>: \<open>old_size\<close> is the size of the file that is replaced, \<open>None\<close> for a new one; the
  measured size of the workspace is recorded when the ledger does not know it yet.
\<close>

definition check_upload ::
  "string \<Rightarrow> int \<times> int \<Rightarrow> int option \<Rightarrow> int \<Rightarrow> ledger \<Rightarrow> ledger \<times> bool" where
  "check_upload key measured old_size content_bytes l =
     (let (l', bytes, files) = (case workspace_usage l key of
            Some (b, f) \<Rightarrow> (l, b, f)
          | None \<Rightarrow> (write_entry key (fst measured) (snd measured) 0 l, fst measured, snd measured));
          old = (case old_size of None \<Rightarrow> 0 | Some n \<Rightarrow> n);
          new_file = (if old_size = None then 1 else 0)
      in (l', \<not> (bytes - old + content_bytes > source_bytes_limit \<or> files + new_file > source_files_limit)))"

section \<open>The invariant\<close>

definition ledger_ok :: "ledger \<Rightarrow> bool" where
  "ledger_ok l \<longleftrightarrow>
     keys_distinct le_key (lg_rows l) \<and>
     list_all (\<lambda>r. 0 \<le> le_total r \<and> 0 \<le> le_reserved r) (lg_rows l) \<and>
     lg_total l = sum_list (map le_total (lg_rows l)) \<and>
     0 \<le> lg_reserved l \<and> lg_reserved l \<le> sum_list (map le_reserved (lg_rows l))"

lemma ledger_okD:
  assumes "ledger_ok l"
  shows "keys_distinct le_key (lg_rows l)" "list_all (\<lambda>r. 0 \<le> le_total r \<and> 0 \<le> le_reserved r) (lg_rows l)"
    "lg_total l = sum_list (map le_total (lg_rows l))" "0 \<le> lg_reserved l"
    "lg_reserved l \<le> sum_list (map le_reserved (lg_rows l))"
  using assms by (simp_all add: ledger_ok_def)

lemma sum_row_upd:
  fixes v :: "usage_row \<Rightarrow> int"
  assumes "row_get le_key k rows = Some r" "keys_distinct le_key rows"
  shows "sum_list (map v (row_upd le_key k f rows)) = sum_list (map v rows) - v r + v (f r)"
  using assms
proof (induction rows)
  case Nil
  then show ?case by simp
next
  case (Cons x rows)
  show ?case
  proof (cases "le_key x = k")
    case True
    then have "r = x" using Cons.prems(1) by simp
    moreover have "row_upd le_key k f rows = rows"
    proof -
      have "\<forall>y \<in> set rows. le_key y \<noteq> k"
        using Cons.prems(2) True by (fastforce simp: keys_distinct_def image_iff)
      then show ?thesis by (simp add: row_upd_def map_idI)
    qed
    ultimately show ?thesis using True by simp
  next
    case False
    then show ?thesis using Cons by (simp add: keys_distinct_def)
  qed
qed

lemma sum_filter_key:
  fixes v :: "usage_row \<Rightarrow> int"
  assumes "row_get le_key k rows = Some r" "keys_distinct le_key rows"
  shows "sum_list (map v (filter (\<lambda>x. le_key x \<noteq> k) rows)) = sum_list (map v rows) - v r"
  using assms
proof (induction rows)
  case Nil
  then show ?case by simp
next
  case (Cons x rows)
  show ?case
  proof (cases "le_key x = k")
    case True
    then have "r = x" using Cons.prems(1) by simp
    moreover have "filter (\<lambda>x. le_key x \<noteq> k) rows = rows"
      using Cons.prems(2) True by (fastforce simp: keys_distinct_def filter_id_conv image_iff)
    ultimately show ?thesis using True by simp
  next
    case False
    then show ?thesis using Cons by (simp add: keys_distinct_def)
  qed
qed

lemma sum_nonneg_rows:
  fixes v :: "usage_row \<Rightarrow> int"
  shows "list_all (\<lambda>r. 0 \<le> v r) rows \<Longrightarrow> 0 \<le> sum_list (map v rows)"
  by (induction rows) auto

lemma row_le_sum:
  fixes v :: "usage_row \<Rightarrow> int"
  shows "list_all (\<lambda>r. 0 \<le> v r) rows \<Longrightarrow> r \<in> set rows \<Longrightarrow> v r \<le> sum_list (map v rows)"
  by (induction rows) (auto dest: sum_nonneg_rows)

lemma ledger_ok_empty [simp]: "ledger_ok empty_ledger"
  by (simp add: ledger_ok_def empty_ledger_def keys_distinct_def)

lemma ledger_ok_reserve:
  assumes "ledger_ok l" "reserve lims free key n f l = Inr (l', w)"
  shows "ledger_ok l'"
proof -
  note ok = ledger_okD [OF assms(1)]
  have w: "w = max 0 n" and l': "l' = l\<lparr>lg_rows := (case row_get le_key key (lg_rows l) of
                        Some _ \<Rightarrow> row_upd le_key key (\<lambda>r. r\<lparr>le_reserved := le_reserved r + w\<rparr>) (lg_rows l)
                      | None \<Rightarrow> lg_rows l @ [\<lparr>le_key = key, le_total = 0, le_files = 0, le_reserved = w\<rparr>]),
                     lg_reserved := lg_reserved l + w\<rparr>"
    using assms(2) by (auto simp: reserve_def Let_def split: if_splits)
  show ?thesis
  proof (cases "row_get le_key key (lg_rows l)")
    case None
    then have "key \<notin> le_key ` set (lg_rows l)" by (simp only: row_get_None_iff not_False_eq_True)
    then show ?thesis using ok w None by (simp add: l' ledger_ok_def keys_distinct_def)
  next
    case (Some r)
    have "list_all (\<lambda>r. 0 \<le> le_total r \<and> 0 \<le> le_reserved r)
        (row_upd le_key key (\<lambda>r. r\<lparr>le_reserved := le_reserved r + w\<rparr>) (lg_rows l))"
      using ok(2) w by (rule_tac list_all_row_upd) auto
    then show ?thesis
      using ok w Some sum_row_upd [OF Some ok(1), of le_total "\<lambda>r. r\<lparr>le_reserved := le_reserved r + w\<rparr>"]
        sum_row_upd [OF Some ok(1), of le_reserved "\<lambda>r. r\<lparr>le_reserved := le_reserved r + w\<rparr>"]
      by (simp add: l' ledger_ok_def row_simps)
  qed
qed

lemma row_upd_absent: "row_get key k rows = None \<Longrightarrow> row_upd key k f rows = rows"
  by (induction rows) (auto split: if_splits)

lemma ledger_ok_settle:
  assumes "ledger_ok l" "0 \<le> n"
  shows "ledger_ok (settle_reservation key n l)"
proof (cases "n = 0")
  case True
  then show ?thesis using assms(1) by (simp add: settle_reservation_def)
next
  case False
  note ok = ledger_okD [OF assms(1)]
  let ?f = "\<lambda>r. r\<lparr>le_reserved := max 0 (le_reserved r - n)\<rparr>"
  show ?thesis
  proof (cases "row_get le_key key (lg_rows l)")
    case None
    have "0 \<le> sum_list (map le_reserved (lg_rows l))" using ok(4,5) by simp
    then show ?thesis using False assms(2) ok row_upd_absent [OF None]
      by (auto simp: settle_reservation_def ledger_ok_def)
  next
    case (Some r)
    have res: "list_all (\<lambda>r. 0 \<le> le_reserved r) (lg_rows l)" using ok(2) by (auto simp: list_all_iff)
    have le: "le_reserved r \<le> sum_list (map le_reserved (lg_rows l))"
      using res row_get_SomeD [OF Some] by (auto intro: row_le_sum)
    have nonneg: "0 \<le> le_reserved r" using ok(2) row_get_SomeD [OF Some] by (auto simp: list_all_iff)
    have "list_all (\<lambda>r. 0 \<le> le_total r \<and> 0 \<le> le_reserved r) (row_upd le_key key ?f (lg_rows l))"
      using ok(2) by (rule list_all_row_upd) auto
    then show ?thesis
      using False assms(2) ok le nonneg sum_row_upd [OF Some ok(1), of le_total ?f]
        sum_row_upd [OF Some ok(1), of le_reserved ?f]
      by (simp add: settle_reservation_def ledger_ok_def row_simps)
  qed
qed

lemma ledger_ok_write:
  assumes "ledger_ok l"
  shows "ledger_ok (write_entry entry total_bytes files settle l)"
proof -
  note ok = ledger_okD [OF assms]
  show ?thesis
  proof (cases "row_get le_key entry (lg_rows l)")
    case None
    have "0 \<le> sum_list (map le_total (lg_rows l))"
      using ok(2) by (intro sum_nonneg_rows) (auto simp: list_all_iff)
    moreover have "entry \<notin> le_key ` set (lg_rows l)" using None by (simp only: row_get_None_iff not_False_eq_True)
    ultimately show ?thesis using ok None
      by (simp add: write_entry_def Let_def ledger_ok_def keys_distinct_def)
  next
    case (Some r)
    let ?f = "\<lambda>r. r\<lparr>le_total := max 0 total_bytes, le_files := max 0 files\<rparr>"
    have "list_all (\<lambda>r. 0 \<le> le_total r) (lg_rows l)" using ok(2) by (auto simp: list_all_iff)
    then have "le_total r \<le> sum_list (map le_total (lg_rows l))"
      using row_get_SomeD [OF Some] by (auto intro: row_le_sum)
    moreover have "list_all (\<lambda>r. 0 \<le> le_total r \<and> 0 \<le> le_reserved r) (row_upd le_key entry ?f (lg_rows l))"
      using ok(2) by (rule list_all_row_upd) auto
    ultimately show ?thesis
      using ok Some sum_row_upd [OF Some ok(1), of le_total ?f] sum_row_upd [OF Some ok(1), of le_reserved ?f]
      by (simp add: write_entry_def Let_def ledger_ok_def row_simps)
  qed
qed

lemma ledger_ok_forget:
  assumes "ledger_ok l"
  shows "ledger_ok (forget entry l)"
proof (cases "row_get le_key entry (lg_rows l)")
  case None
  then show ?thesis using assms by (simp add: forget_def)
next
  case (Some r)
  note ok = ledger_okD [OF assms]
  have nn: "list_all (\<lambda>r. 0 \<le> le_total r) (lg_rows l)" "list_all (\<lambda>r. 0 \<le> le_reserved r) (lg_rows l)"
    using ok(2) by (auto simp: list_all_iff)
  then have "le_total r \<le> sum_list (map le_total (lg_rows l))" "le_reserved r \<le> sum_list (map le_reserved (lg_rows l))"
    using row_get_SomeD [OF Some] by (auto intro: row_le_sum)
  moreover have "keys_distinct le_key (filter (\<lambda>r. le_key r \<noteq> entry) (lg_rows l))"
    using ok(1) by (simp add: keys_distinct_def distinct_map_filter)
  moreover have "list_all (\<lambda>r. 0 \<le> le_total r \<and> 0 \<le> le_reserved r) (filter (\<lambda>r. le_key r \<noteq> entry) (lg_rows l))"
    using ok(2) by (auto simp: list_all_iff)
  ultimately show ?thesis
    using ok Some sum_filter_key [OF Some ok(1), of le_total] sum_filter_key [OF Some ok(1), of le_reserved]
    by (simp add: forget_def ledger_ok_def)
qed

section \<open>Reconciliation\<close>

definition lookup0 :: "(string \<times> int) list \<Rightarrow> string \<Rightarrow> int" where
  "lookup0 R n = (case map_of R n of Some v \<Rightarrow> v | None \<Rightarrow> 0)"

lemma sum_fun_upd:
  fixes f :: "string \<Rightarrow> int"
  shows "distinct names \<Longrightarrow> k \<in> set names \<Longrightarrow>
    sum_list (map (\<lambda>n. if n = k then v else f n) names) = sum_list (map f names) + v - f k"
proof (induction names)
  case Nil
  then show ?case by simp
next
  case (Cons m names)
  show ?case
  proof (cases "m = k")
    case True
    then have same: "map (\<lambda>n. if n = k then v else f n) names = map f names" using Cons.prems by auto
    show ?thesis using True unfolding list.map(2) sum_list.Cons same by simp
  next
    case False
    then show ?thesis using Cons by simp
  qed
qed

lemma reservations_split:
  assumes "distinct names"
  shows "distinct (map fst R) \<Longrightarrow>
    sum_list (map (lookup0 R) names) + sum_list (map snd (filter (\<lambda>p. fst p \<notin> set names) R)) = sum_list (map snd R)"
proof (induction R)
  case Nil
  then show ?case by (simp add: lookup0_def)
next
  case (Cons p R)
  obtain k v where p: "p = (k, v)" by (cases p)
  have step: "lookup0 (p # R) = (\<lambda>n. if n = k then v else lookup0 R n)"
    by (auto simp: p lookup0_def)
  have none: "lookup0 R k = 0" 
  proof -
    have "map_of R k = None" unfolding map_of_eq_None_iff using Cons.prems p by simp
    then show ?thesis by (simp add: lookup0_def)
  qed
  show ?case
  proof (cases "k \<in> set names")
    case True
    then show ?thesis unfolding step using Cons p none sum_fun_upd [OF assms True, of v "lookup0 R"] by simp
  next
    case False
    then have same: "map (\<lambda>n. if n = k then v else lookup0 R n) names = map (lookup0 R) names" by auto
    show ?thesis unfolding step same using Cons p False by simp
  qed
qed

lemma sum_filter_pos:
  "list_all (\<lambda>r. 0 \<le> le_reserved r) rows \<Longrightarrow>
   sum_list (map le_reserved (filter (\<lambda>r. 0 < le_reserved r) rows)) = sum_list (map le_reserved rows)"
  by (induction rows) auto

definition reservations_of :: "ledger \<Rightarrow> (string \<times> int) list" where
  "reservations_of l = map (\<lambda>r. (le_key r, le_reserved r)) (filter (\<lambda>r. le_reserved r > 0) (lg_rows l))"

lemma reconcile_eq:
  "reconcile measured l =
     (let found = map (\<lambda>(name, size, files).
                    \<lparr>le_key = name, le_total = max 0 size, le_files = max 0 files,
                     le_reserved = lookup0 (reservations_of l) name\<rparr>) measured;
          left_over = map (\<lambda>(name, n). \<lparr>le_key = name, le_total = 0, le_files = 0, le_reserved = n\<rparr>)
                    (filter (\<lambda>p. fst p \<notin> set (map fst measured)) (reservations_of l))
      in \<lparr>lg_rows = found @ left_over, lg_total = sum_list (map le_total found),
          lg_reserved = sum_list (map le_reserved (found @ left_over))\<rparr>)"
  by (simp add: reconcile_def Let_def reservations_of_def lookup0_def case_prod_beta)

lemma reservations_distinct: "ledger_ok l \<Longrightarrow> distinct (map fst (reservations_of l))"
  by (auto simp: reservations_of_def comp_def ledger_ok_def keys_distinct_def distinct_map_filter)

lemma reconcile_reserved:
  assumes "ledger_ok l" "distinct (map fst measured)"
  shows "lg_reserved (reconcile measured l) = sum_list (map le_reserved (lg_rows l))"
proof -
  let ?R = "reservations_of l"
  have "lg_reserved (reconcile measured l) = sum_list (map (lookup0 ?R) (map fst measured)) +
      sum_list (map snd (filter (\<lambda>p. fst p \<notin> set (map fst measured)) ?R))"
    by (simp add: reconcile_eq Let_def comp_def case_prod_beta)
  also have "\<dots> = sum_list (map snd ?R)"
    using assms(2) reservations_distinct [OF assms(1)] by (rule reservations_split)
  also have "\<dots> = sum_list (map le_reserved (lg_rows l))"
    using ledger_okD(2) [OF assms(1)] by (simp add: reservations_of_def comp_def sum_filter_pos list_all_iff)
  finally show ?thesis .
qed

lemma lookup0_nonneg: "ledger_ok l \<Longrightarrow> 0 \<le> lookup0 (reservations_of l) n"
  by (auto simp: lookup0_def reservations_of_def split: option.split dest!: map_of_SomeD)

lemma ledger_ok_reconcile:
  assumes "ledger_ok l" "distinct (map fst measured)"
  shows "ledger_ok (reconcile measured l)"
proof -
  let ?R = "reservations_of l"
  let ?rest = "filter (\<lambda>p. fst p \<notin> set (map fst measured)) ?R"
  have keys: "map le_key (lg_rows (reconcile measured l)) = map fst measured @ map fst ?rest"
    by (simp add: reconcile_eq Let_def comp_def case_prod_beta)
  have "distinct (map fst ?rest)" using reservations_distinct [OF assms(1)] by (simp add: distinct_map_filter)
  then have "keys_distinct le_key (lg_rows (reconcile measured l))"
    unfolding keys_distinct_def keys using assms(2) by force
  moreover have nonneg: "list_all (\<lambda>r. 0 \<le> le_total r \<and> 0 \<le> le_reserved r) (lg_rows (reconcile measured l))"
    using lookup0_nonneg [OF assms(1)]
    by (auto simp: reconcile_eq Let_def list_all_iff reservations_of_def)
  moreover have "lg_total (reconcile measured l) = sum_list (map le_total (lg_rows (reconcile measured l)))"
    by (simp add: reconcile_eq Let_def comp_def case_prod_beta)
  moreover have "lg_reserved (reconcile measured l) = sum_list (map le_reserved (lg_rows (reconcile measured l)))"
    by (simp add: reconcile_eq Let_def)
  moreover have "0 \<le> sum_list (map le_reserved (lg_rows (reconcile measured l)))"
    using nonneg by (intro sum_nonneg_rows) (auto simp: list_all_iff)
  ultimately show ?thesis by (simp add: ledger_ok_def)
qed

section \<open>Properties\<close>

datatype ledger_op =
    DoReserve storage_limits int string int int
  | DoRelease string int
  | DoWrite string int int int
  | DoForget string
  | DoReconcile "(string \<times> int \<times> int) list"

text \<open>One transaction; a reservation that is denied is rolled back.\<close>

definition run_op :: "ledger_op \<Rightarrow> ledger \<Rightarrow> ledger" where
  "run_op op l =
     (case op of
        DoReserve lims free key n f \<Rightarrow> (case reserve lims free key n f l of Inl _ \<Rightarrow> l | Inr (l', _) \<Rightarrow> l')
      | DoRelease key n \<Rightarrow> release key n l
      | DoWrite entry t f s \<Rightarrow> write_entry entry t f s l
      | DoForget entry \<Rightarrow> forget entry l
      | DoReconcile measured \<Rightarrow> reconcile measured l)"

definition op_wf :: "ledger_op \<Rightarrow> bool" where
  "op_wf op = (case op of DoReconcile measured \<Rightarrow> distinct (map fst measured) | _ \<Rightarrow> True)"

lemma run_op_ok: "ledger_ok l \<Longrightarrow> op_wf op \<Longrightarrow> ledger_ok (run_op op l)"
  by (cases op) (auto simp: run_op_def op_wf_def release_def ledger_ok_settle ledger_ok_write
      ledger_ok_forget ledger_ok_reconcile split: sum.split dest: ledger_ok_reserve)

lemma run_ops_ok: "ledger_ok l \<Longrightarrow> list_all op_wf ops \<Longrightarrow> ledger_ok (fold run_op ops l)"
  by (induction ops arbitrary: l) (simp_all add: run_op_ok)

text \<open>
  C13: After any sequence of transactions the global total is exactly the sum of the measured sizes
  of the entries, each entry is listed once, and the reserved bytes are between zero and the sum of
  the reservations of the entries: the clamps at zero never hide a lost byte.
\<close>

theorem ledger_total_is_sum:
  assumes "list_all op_wf ops"
  shows "lg_total (fold run_op ops empty_ledger) = sum_list (map le_total (lg_rows (fold run_op ops empty_ledger))) \<and>
    keys_distinct le_key (lg_rows (fold run_op ops empty_ledger)) \<and>
    0 \<le> lg_reserved (fold run_op ops empty_ledger) \<and>
    lg_reserved (fold run_op ops empty_ledger)
      \<le> sum_list (map le_reserved (lg_rows (fold run_op ops empty_ledger)))"
  using ledger_okD [OF run_ops_ok [OF ledger_ok_empty assms]] by simp

theorem ledger_total_is_sum_witness:
  "lg_total (fold run_op [DoWrite ''w1'' 30 1 0, DoWrite ''w1'' 20 1 0, DoWrite ''w2'' 5 1 0] empty_ledger) = 25"
proof -
  let ?ops = "[DoWrite ''w1'' 30 1 0, DoWrite ''w1'' 20 1 0, DoWrite ''w2'' 5 1 0]"
  have "list_all op_wf ?ops" by (simp add: op_wf_def)
  from ledger_total_is_sum [OF this]
  have "lg_total (fold run_op ?ops empty_ledger) = sum_list (map le_total (lg_rows (fold run_op ?ops empty_ledger)))" ..
  also have "\<dots> = 25" by (simp add: run_op_def write_entry_def empty_ledger_def)
  finally show ?thesis .
qed

text \<open>A capacity bound of at least one byte and the ledger are a metered resource.\<close>

definition admit_bytes :: "nat \<times> ledger \<Rightarrow> string \<times> nat \<Rightarrow> (nat \<times> ledger) option" where
  "admit_bytes s r =
     (case reserve (capacity_limits (int (Suc (fst s))) 0) (int (snd r)) (fst r) (int (snd r)) 0 (snd s) of
        Inl _ \<Rightarrow> None
      | Inr (l', _) \<Rightarrow> Some (fst s, l'))"

lemma reserve_effect:
  assumes "reserve lims free key n f l = Inr (l', w)"
  shows "w = max 0 n" "lg_total l' = lg_total l" "lg_reserved l' = lg_reserved l + w"
    "sl_global_bytes lims \<noteq> 0 \<Longrightarrow> lg_total l' + lg_reserved l' \<le> sl_global_bytes lims"
    "free - w \<ge> sl_min_free_bytes lims"
  using assms by (auto simp: reserve_def Let_def split: if_splits)

interpretation storage: metered
  "\<lambda>s. lg_total (snd s) + lg_reserved (snd s)" "\<lambda>s. int (Suc (fst s))" "\<lambda>r. int (snd r)" admit_bytes
proof
  fix s r s' assume a: "admit_bytes s r = Some s'"
  then obtain l' w where res: "reserve (capacity_limits (int (Suc (fst s))) 0) (int (snd r)) (fst r) (int (snd r)) 0 (snd s) = Inr (l', w)"
    and s': "s' = (fst s, l')" by (auto simp: admit_bytes_def split: sum.splits)
  note eff = reserve_effect [OF res]
  show "lg_total (snd s') + lg_reserved (snd s') = lg_total (snd s) + lg_reserved (snd s) + int (snd r)"
    using eff(1-3) s' by simp
  show "int (Suc (fst s')) = int (Suc (fst s))" using s' by simp
  show "lg_total (snd s') + lg_reserved (snd s') \<le> int (Suc (fst s))"
    using eff(4) s' by (simp add: capacity_limits_def)
qed

text \<open>
  However many writes ask for space, what the ledger admits never exceeds the configured bound:
  the admitted bytes together with what is retained and reserved before stay within it.
\<close>

theorem admitted_bytes_bounded:
  assumes "lg_total l + lg_reserved l \<le> int (Suc n)" "storage.admit_all (n, l) requests = (s, admitted)"
  shows "sum_list (map (\<lambda>r. int (snd r)) admitted) \<le> int (Suc n) - (lg_total l + lg_reserved l)"
  using storage.admit_all_spent [OF _ assms(2)] assms(1) by simp

theorem admitted_bytes_bounded_witness:
  "sum_list (map (\<lambda>r. int (snd r)) (snd (storage.admit_all (99, empty_ledger) [(''a'', 60), (''b'', 60), (''c'', 30)]))) \<le> 100"
proof -
  obtain s admitted where run: "storage.admit_all (99, empty_ledger) [(''a'', 60), (''b'', 60), (''c'', 30)] = (s, admitted)"
    by (cases "storage.admit_all (99, empty_ledger) [(''a'', 60), (''b'', 60), (''c'', 30)]") auto
  have "lg_total empty_ledger + lg_reserved empty_ledger \<le> int (Suc 99)" by (simp add: empty_ledger_def)
  from admitted_bytes_bounded [OF this run] run show ?thesis by (simp add: empty_ledger_def)
qed

lemma write_rows_reserved:
  assumes "ledger_ok l"
  shows "sum_list (map le_reserved (lg_rows (write_entry e t f s l))) = sum_list (map le_reserved (lg_rows l))"
proof (cases "row_get le_key e (lg_rows l)")
  case None
  then show ?thesis by (simp add: write_entry_def Let_def)
next
  case (Some r)
  have "lg_rows (write_entry e t f s l) =
      row_upd le_key e (\<lambda>r. r\<lparr>le_total := max 0 t, le_files := max 0 f\<rparr>) (lg_rows l)"
    by (simp add: write_entry_def Let_def Some)
  then show ?thesis
    by (simp only: sum_row_upd [OF Some ledger_okD(1) [OF assms], of le_reserved]) simp
qed

lemma reserve_rows_reserved:
  assumes "ledger_ok l" "reserve lims free key n f l = Inr (l', w)"
  shows "sum_list (map le_reserved (lg_rows l')) = sum_list (map le_reserved (lg_rows l)) + w"
proof -
  have rows: "lg_rows l' = (case row_get le_key key (lg_rows l) of
                        Some _ \<Rightarrow> row_upd le_key key (\<lambda>r. r\<lparr>le_reserved := le_reserved r + w\<rparr>) (lg_rows l)
                      | None \<Rightarrow> lg_rows l @ [\<lparr>le_key = key, le_total = 0, le_files = 0, le_reserved = w\<rparr>])"
    using assms(2) by (auto simp: reserve_def Let_def split: if_splits)
  show ?thesis
  proof (cases "row_get le_key key (lg_rows l)")
    case None
    then show ?thesis by (simp add: rows)
  next
    case (Some r)
    then show ?thesis unfolding rows Some option.case
      by (subst sum_row_upd [OF Some ledger_okD(1) [OF assms(1)]]) simp
  qed
qed

text \<open>
  A committed write never gives its reservation back. The write settles the global counter, so
  right after it the reserved bytes are as before; but the row of the reservation keeps its bytes,
  and every later reconciliation counts them as reserved again. The phantom reservations of all
  committed writes add up until no write fits the capacity, although nothing is in flight.
\<close>

theorem committed_write_stays_reserved:
  assumes "ledger_ok l" "distinct (map fst measured)" "0 \<le> n"
    and "storage_capacity max_bytes min_free free n (Committed entry t f) l = Inr l'"
  shows "lg_reserved l' = lg_reserved l \<and>
    lg_reserved (reconcile measured l') = lg_reserved (reconcile measured l) + n"
proof -
  obtain l1 w where res: "reserve (capacity_limits max_bytes min_free) free reservation_key n 0 l = Inr (l1, w)"
    and l': "l' = write_entry entry t f w l1"
    using assms(3,4) by (auto simp: storage_capacity_def split: sum.splits)
  have w: "w = n" using reserve_effect(1) [OF res] assms(3) by simp
  have ok1: "ledger_ok l1" using ledger_ok_reserve [OF assms(1) res] .
  have ok': "ledger_ok l'" unfolding l' by (rule ledger_ok_write [OF ok1])
  have "lg_reserved l' = lg_reserved l"
    using reserve_effect(3) [OF res] w assms(3) ledger_okD(4) [OF assms(1)]
    by (simp add: l' write_entry_def Let_def)
  moreover have "lg_reserved (reconcile measured l') = lg_reserved (reconcile measured l) + n"
    unfolding reconcile_reserved [OF ok' assms(2)] reconcile_reserved [OF assms(1,2)]
    using reserve_rows_reserved [OF assms(1) res] write_rows_reserved [OF ok1, of entry t f w] w
    by (simp add: l')
  ultimately show ?thesis ..
qed

text \<open>
  With a capacity of 100 bytes a file of 40 bytes is saved, saved again, and the ledger is
  reconciled: 40 bytes are on disk, none is in flight, and a write of 10 bytes is refused.
\<close>

theorem committed_write_stays_reserved_witness:
  "\<exists>l1 l2. storage_capacity 100 0 1000 40 (Committed ''w'' 40 1) empty_ledger = Inr l1 \<and>
     storage_capacity 100 0 1000 40 (Committed ''w'' 40 1) l1 = Inr l2 \<and>
     lg_reserved (reconcile [(''w'', 40, 1)] l2) = lg_reserved (reconcile [(''w'', 40, 1)] l1) + 40 \<and>
     storage_capacity 100 0 1000 10 (Committed ''v'' 10 1) (reconcile [(''w'', 40, 1)] l2) = Inl CapacityReached"
proof -
  note defs = storage_capacity_def reserve_def capacity_limits_def reservation_key_def write_entry_def empty_ledger_def
  obtain l1 where l1: "storage_capacity 100 0 1000 40 (Committed ''w'' 40 1) empty_ledger = Inr l1"
    "l1 = \<lparr>lg_rows = [\<lparr>le_key = ''.reservations'', le_total = 0, le_files = 0, le_reserved = 40\<rparr>,
            \<lparr>le_key = ''w'', le_total = 40, le_files = 1, le_reserved = 0\<rparr>], lg_total = 40, lg_reserved = 0\<rparr>"
    by (simp add: defs)
  obtain l2 where l2: "storage_capacity 100 0 1000 40 (Committed ''w'' 40 1) l1 = Inr l2"
    "l2 = \<lparr>lg_rows = [\<lparr>le_key = ''.reservations'', le_total = 0, le_files = 0, le_reserved = 80\<rparr>,
            \<lparr>le_key = ''w'', le_total = 40, le_files = 1, le_reserved = 0\<rparr>], lg_total = 40, lg_reserved = 0\<rparr>"
    by (simp add: defs l1(2))
  have ok: "ledger_ok l1" by (simp add: l1(2) ledger_ok_def keys_distinct_def)
  have "lg_reserved (reconcile [(''w'', 40, 1)] l2) = lg_reserved (reconcile [(''w'', 40, 1)] l1) + 40"
    using committed_write_stays_reserved [OF ok _ _ l2(1), of "[(''w'', 40, 1)]"] by simp
  moreover have "storage_capacity 100 0 1000 10 (Committed ''v'' 10 1) (reconcile [(''w'', 40, 1)] l2) = Inl CapacityReached"
    by (simp add: l2(2) reconcile_def defs)
  ultimately show ?thesis using l1(1) l2(1) by blast
qed

end
