(* ===== verification/CapacityQueue.thy ===== *)
theory CapacityQueue
  imports Prelude
begin

text \<open>
  The bounded first-come-first-served admission of the execution broker
  (\<open>backend/app/core/capacity_queue.py\<close>) on the semaphore of \<open>asyncio\<close> (Python 3.12), whose
  waiters are futures in the order of arrival. A coroutine runs without interruption up to an
  \<open>await\<close> that suspends it, so \<open>acquire\<close> is two pieces: the part before the future and the part
  after it. \<open>refresh\<close> makes a new semaphore object; the old ones stay reachable from their waiters,
  so the state keeps all of them. The wait time that \<open>acquire\<close> records is left out.
\<close>

section \<open>The semaphore\<close>

text \<open>
  A waiter's future is pending, has got its result, was cancelled, or got its result before the
  waiting task was cancelled.
\<close>

datatype waiter_state = Pending | Woken | CancelledWaiter | WokenCancelled

type_synonym waiter = "nat \<times> waiter_state"

record semaphore =
  sem_value :: int
  sem_waiters :: "waiter list"

definition new_semaphore :: "int \<Rightarrow> semaphore" where
  "new_semaphore n = \<lparr>sem_value = n, sem_waiters = []\<rparr>"

definition sem_locked :: "semaphore \<Rightarrow> bool" where
  "sem_locked s \<longleftrightarrow> sem_value s = 0 \<or> list_ex (\<lambda>w. snd w \<noteq> CancelledWaiter) (sem_waiters s)"

fun wake_first :: "waiter list \<Rightarrow> waiter list option" where
  "wake_first [] = None"
| "wake_first (w # ws) =
     (if snd w = Pending then Some ((fst w, Woken) # ws) else map_option (Cons w) (wake_first ws))"

definition wake_up_next :: "semaphore \<Rightarrow> semaphore \<times> bool" where
  "wake_up_next s =
     (case wake_first (sem_waiters s) of
        None \<Rightarrow> (s, False)
      | Some ws \<Rightarrow> (s\<lparr>sem_value := sem_value s - 1, sem_waiters := ws\<rparr>, True))"

function wake_loop :: "semaphore \<Rightarrow> semaphore" where
  "wake_loop s =
     (if 0 < sem_value s
      then (case wake_up_next s of (s', woke) \<Rightarrow> if woke then wake_loop s' else s')
      else s)"
  by pat_completeness auto
termination
  by (relation "measure (\<lambda>s. nat (sem_value s))") (auto simp: wake_up_next_def split: option.splits)

declare wake_loop.simps [simp del]

definition sem_release :: "semaphore \<Rightarrow> semaphore" where
  "sem_release s = fst (wake_up_next (s\<lparr>sem_value := sem_value s + 1\<rparr>))"

section \<open>The queue\<close>

record capacity_queue =
  cq_slots :: int
  cq_max_waiters :: int
  cq_deadline :: rat
  cq_sems :: "semaphore list"
  cq_current :: nat
  cq_waiting :: int
  cq_active :: int

datatype admission = Admitted | Queued | CapacityExceeded | CapacityTimeout

definition new_queue :: "int \<Rightarrow> int \<Rightarrow> rat \<Rightarrow> capacity_queue" where
  "new_queue slots max_waiters deadline =
     \<lparr>cq_slots = max 1 slots, cq_max_waiters = max 0 max_waiters, cq_deadline = max (1 / 10) deadline,
      cq_sems = [new_semaphore (max 1 slots)], cq_current = 0, cq_waiting = 0, cq_active = 0\<rparr>"

definition refresh :: "int option \<Rightarrow> int option \<Rightarrow> rat option \<Rightarrow> capacity_queue \<Rightarrow> capacity_queue" where
  "refresh slots max_waiters deadline q =
     (let q1 = (case slots of
            Some n \<Rightarrow> (if max 1 n \<noteq> cq_slots q
                      then q\<lparr>cq_slots := max 1 n, cq_sems := cq_sems q @ [new_semaphore (max 1 n)],
                             cq_current := length (cq_sems q)\<rparr>
                      else q)
          | None \<Rightarrow> q);
          q2 = (case max_waiters of Some n \<Rightarrow> q1\<lparr>cq_max_waiters := max 0 n\<rparr> | None \<Rightarrow> q1)
      in (case deadline of Some d \<Rightarrow> q2\<lparr>cq_deadline := max (1 / 10) d\<rparr> | None \<Rightarrow> q2))"

text \<open>\<open>acquire\<close> up to its first suspension; a free semaphore does not suspend.\<close>

definition acquire :: "nat \<Rightarrow> capacity_queue \<Rightarrow> capacity_queue \<times> admission" where
  "acquire i q =
     (let k = cq_current q; s = cq_sems q ! k in
      if sem_locked s \<and> cq_waiting q \<ge> cq_max_waiters q then (q, CapacityExceeded)
      else if sem_locked s
      then (q\<lparr>cq_sems := (cq_sems q)[k := s\<lparr>sem_waiters := sem_waiters s @ [(i, Pending)]\<rparr>],
              cq_waiting := cq_waiting q + 1\<rparr>, Queued)
      else (q\<lparr>cq_sems := (cq_sems q)[k := s\<lparr>sem_value := sem_value s - 1\<rparr>],
              cq_active := cq_active q + 1\<rparr>, Admitted))"

definition drop_waiter :: "nat \<Rightarrow> semaphore \<Rightarrow> semaphore" where
  "drop_waiter i s = s\<lparr>sem_waiters := filter (\<lambda>w. fst w \<noteq> i) (sem_waiters s)\<rparr>"

text \<open>The rest of \<open>acquire\<close>, when the task of waiter \<open>i\<close> of semaphore \<open>k\<close> runs again.\<close>

definition acquire_resume :: "nat \<Rightarrow> nat \<Rightarrow> capacity_queue \<Rightarrow> (capacity_queue \<times> admission) option" where
  "acquire_resume k i q =
     (let s = cq_sems q ! k;
          leave = (\<lambda>s. q\<lparr>cq_sems := (cq_sems q)[k := wake_loop s], cq_waiting := cq_waiting q - 1\<rparr>)
      in case map_of (sem_waiters s) i of
        Some Woken \<Rightarrow> Some ((leave (drop_waiter i s))\<lparr>cq_active := cq_active q + 1\<rparr>, Admitted)
      | Some CancelledWaiter \<Rightarrow> Some (leave (drop_waiter i s), CapacityTimeout)
      | Some WokenCancelled \<Rightarrow>
          Some (leave ((drop_waiter i s)\<lparr>sem_value := sem_value s + 1\<rparr>), CapacityTimeout)
      | _ \<Rightarrow> None)"

text \<open>The deadline passes, or the client goes away: the task is cancelled.\<close>

definition cancelled_state :: "waiter_state \<Rightarrow> waiter_state" where
  "cancelled_state st =
     (case st of Pending \<Rightarrow> CancelledWaiter | Woken \<Rightarrow> WokenCancelled | _ \<Rightarrow> st)"

definition deadline_passed :: "nat \<Rightarrow> nat \<Rightarrow> capacity_queue \<Rightarrow> capacity_queue" where
  "deadline_passed k i q =
     (let s = cq_sems q ! k in
      q\<lparr>cq_sems := (cq_sems q)[k := s\<lparr>sem_waiters :=
          map (\<lambda>w. if fst w = i then (i, cancelled_state (snd w)) else w) (sem_waiters s)\<rparr>]\<rparr>)"

definition cq_release :: "capacity_queue \<Rightarrow> capacity_queue" where
  "cq_release q =
     q\<lparr>cq_active := max 0 (cq_active q - 1),
       cq_sems := (cq_sems q)[cq_current q := sem_release (cq_sems q ! cq_current q)]\<rparr>"

text \<open>
  The steps of the event loop: a request arrives under a name that no waiter has, a waiter runs
  again, a deadline passes, an admitted execution ends.
\<close>

datatype cq_event = Arrive nat | Resume nat nat | Deadline nat nat | Finish

inductive cq_step :: "capacity_queue \<Rightarrow> cq_event \<Rightarrow> capacity_queue \<Rightarrow> bool" where
  arrive: "i \<notin> fst ` set (sem_waiters (cq_sems q ! cq_current q)) \<Longrightarrow> acquire i q = (q', r) \<Longrightarrow>
     cq_step q (Arrive i) q'"
| resume: "k < length (cq_sems q) \<Longrightarrow> acquire_resume k i q = Some (q', r) \<Longrightarrow> cq_step q (Resume k i) q'"
| deadline: "k < length (cq_sems q) \<Longrightarrow> cq_step q (Deadline k i) (deadline_passed k i q)"
| finish: "0 < cq_active q \<Longrightarrow> cq_step q Finish (cq_release q)"

inductive_cases cq_stepE: "cq_step q e q'"

inductive cq_reach :: "capacity_queue \<Rightarrow> capacity_queue \<Rightarrow> bool" where
  refl: "cq_reach q q"
| step: "cq_reach q q1 \<Longrightarrow> cq_step q1 e q2 \<Longrightarrow> cq_reach q q2"

section \<open>The invariant\<close>

definition woken :: "waiter list \<Rightarrow> nat" where
  "woken ws = length (filter (\<lambda>w. snd w = Woken \<or> snd w = WokenCancelled) ws)"

definition has_pending :: "waiter list \<Rightarrow> bool" where
  "has_pending ws \<longleftrightarrow> list_ex (\<lambda>w. snd w = Pending) ws"

text \<open>Nobody was woken before somebody who came earlier and still waits.\<close>

fun fifo :: "waiter list \<Rightarrow> bool" where
  "fifo [] \<longleftrightarrow> True"
| "fifo (w # ws) \<longleftrightarrow> (snd w = Pending \<longrightarrow> woken ws = 0) \<and> fifo ws"

definition sem_ok :: "int \<Rightarrow> semaphore \<Rightarrow> bool" where
  "sem_ok free s \<longleftrightarrow>
     distinct (map fst (sem_waiters s)) \<and> fifo (sem_waiters s) \<and> 0 \<le> sem_value s \<and>
     sem_value s + int (woken (sem_waiters s)) = free \<and>
     (0 < sem_value s \<and> has_pending (sem_waiters s) \<longrightarrow> 0 < woken (sem_waiters s))"

definition cq_ok :: "capacity_queue \<Rightarrow> bool" where
  "cq_ok q \<longleftrightarrow>
     cq_sems q = [cq_sems q ! 0] \<and> cq_current q = 0 \<and> 0 \<le> cq_active q \<and>
     sem_ok (cq_slots q - cq_active q) (cq_sems q ! 0) \<and>
     cq_waiting q = int (length (sem_waiters (cq_sems q ! 0))) \<and> cq_waiting q \<le> cq_max_waiters q"

lemma woken_simps [simp]:
  "woken [] = 0"
  "woken (w # ws) = (if snd w = Woken \<or> snd w = WokenCancelled then Suc (woken ws) else woken ws)"
  "woken (ws @ vs) = woken ws + woken vs"
  by (simp_all add: woken_def)

lemma has_pending_simps [simp]:
  "\<not> has_pending []" "has_pending (w # ws) \<longleftrightarrow> snd w = Pending \<or> has_pending ws"
  "has_pending (ws @ vs) \<longleftrightarrow> has_pending ws \<or> has_pending vs"
  by (auto simp: has_pending_def)

lemma wake_first_None: "wake_first ws = None \<longleftrightarrow> \<not> has_pending ws"
  by (induction ws) auto

lemma wake_first_Some:
  "wake_first ws = Some vs \<Longrightarrow> map fst vs = map fst ws \<and> woken vs = Suc (woken ws) \<and> (fifo ws \<longrightarrow> fifo vs)"
proof (induction ws arbitrary: vs)
  case Nil
  then show ?case by simp
next
  case (Cons w ws)
  show ?case
  proof (cases "snd w = Pending")
    case True
    then show ?thesis using Cons.prems by auto
  next
    case False
    then obtain us where us: "wake_first ws = Some us" "vs = w # us" using Cons.prems by auto
    from Cons.IH [OF us(1)] us(2) False show ?thesis by auto
  qed
qed

lemma fifo_snoc [simp]: "fifo (ws @ [(i, Pending)]) \<longleftrightarrow> fifo ws"
  by (induction ws) auto

lemma woken_filter_le: "woken (filter P ws) \<le> woken ws"
  by (induction ws) auto

lemma fifo_filter: "fifo ws \<Longrightarrow> fifo (filter P ws)"
  using woken_filter_le by (induction ws) (auto simp: le_Suc_eq, metis le_0_eq)

lemma drop_absent: "i \<notin> fst ` set ws \<Longrightarrow> filter (\<lambda>w. fst w \<noteq> i) ws = ws"
  by (induction ws) auto

lemma woken_drop:
  "distinct (map fst ws) \<Longrightarrow> map_of ws i = Some st \<Longrightarrow>
   woken ws = woken (filter (\<lambda>w. fst w \<noteq> i) ws) + (if st = Woken \<or> st = WokenCancelled then 1 else 0)"
proof (induction ws)
  case Nil
  then show ?case by simp
next
  case (Cons w ws)
  show ?case
  proof (cases "fst w = i")
    case True
    then have "filter (\<lambda>w. fst w \<noteq> i) ws = ws" using Cons.prems(1) by (simp add: drop_absent)
    then show ?thesis using True Cons.prems(2) by (cases w) auto
  next
    case False
    then show ?thesis using Cons by (cases w) auto
  qed
qed

lemma has_pending_filter: "has_pending (filter P ws) \<Longrightarrow> has_pending ws"
  by (induction ws) (auto split: if_splits)

lemma length_drop:
  "distinct (map fst ws) \<Longrightarrow> map_of ws i = Some st \<Longrightarrow>
   length ws = Suc (length (filter (\<lambda>w. fst w \<noteq> i) ws))"
proof (induction ws)
  case Nil
  then show ?case by simp
next
  case (Cons w ws)
  show ?case
  proof (cases "fst w = i")
    case True
    then have "filter (\<lambda>w. fst w \<noteq> i) ws = ws" using Cons.prems(1) by (simp add: drop_absent)
    then show ?thesis using True by simp
  next
    case False
    then show ?thesis using Cons by (cases w) auto
  qed
qed

definition cancel_waiter :: "nat \<Rightarrow> waiter list \<Rightarrow> waiter list" where
  "cancel_waiter i ws = map (\<lambda>w. if fst w = i then (i, cancelled_state (snd w)) else w) ws"

lemma cancel_waiter_simps [simp]:
  "map fst (cancel_waiter i ws) = map fst ws" "woken (cancel_waiter i ws) = woken ws"
  "length (cancel_waiter i ws) = length ws"
  by (induction ws) (auto simp: cancel_waiter_def cancelled_state_def split: waiter_state.splits)

lemma cancel_waiter_fifo: "fifo ws \<Longrightarrow> fifo (cancel_waiter i ws)"
proof (induction ws)
  case Nil
  then show ?case by (simp add: cancel_waiter_def)
next
  case (Cons w ws)
  have "cancel_waiter i (w # ws) =
      (if fst w = i then (i, cancelled_state (snd w)) else w) # cancel_waiter i ws"
    by (simp add: cancel_waiter_def)
  with Cons show ?case by (auto simp: cancelled_state_def split: waiter_state.splits)
qed

lemma cancel_waiter_pending: "has_pending (cancel_waiter i ws) \<Longrightarrow> has_pending ws"
  by (auto simp: has_pending_def list_ex_iff cancel_waiter_def cancelled_state_def split: waiter_state.splits if_splits)

section \<open>Preservation\<close>

lemma wake_loop_ok:
  assumes "distinct (map fst (sem_waiters s))" "fifo (sem_waiters s)" "0 \<le> sem_value s"
  shows "sem_ok (sem_value s + int (woken (sem_waiters s))) (wake_loop s) \<and>
    length (sem_waiters (wake_loop s)) = length (sem_waiters s)"
  using assms
proof (induction s rule: wake_loop.induct)
  case (1 s)
  show ?case
  proof (cases "0 < sem_value s")
    case False
    with "1.prems" show ?thesis by (simp add: wake_loop.simps [of s] sem_ok_def)
  next
    case pos: True
    show ?thesis
    proof (cases "wake_first (sem_waiters s)")
      case None
      then have "\<not> has_pending (sem_waiters s)" by (simp only: wake_first_None not_False_eq_True)
      then show ?thesis using pos "1.prems" None
        by (simp add: wake_loop.simps [of s] wake_up_next_def sem_ok_def)
    next
      case (Some ws)
      let ?s = "s\<lparr>sem_value := sem_value s - 1, sem_waiters := ws\<rparr>"
      note woke = wake_first_Some [OF Some]
      have step: "wake_up_next s = (?s, True)" by (simp add: wake_up_next_def Some)
      have len: "length ws = length (sem_waiters s)" using woke by (metis length_map)
      have "sem_ok (sem_value ?s + int (woken (sem_waiters ?s))) (wake_loop ?s) \<and>
          length (sem_waiters (wake_loop ?s)) = length (sem_waiters ?s)"
        using "1.IH" [OF pos, of ?s True] "1.prems" woke pos step by simp
      then show ?thesis using pos woke len by (simp add: wake_loop.simps [of s] step algebra_simps)
    qed
  qed
qed

lemma sem_release_ok:
  assumes "sem_ok free s"
  shows "sem_ok (free + 1) (sem_release s) \<and> length (sem_waiters (sem_release s)) = length (sem_waiters s)"
proof (cases "wake_first (sem_waiters s)")
  case None
  then have "\<not> has_pending (sem_waiters s)" by (simp only: wake_first_None not_False_eq_True)
  then show ?thesis using None assms by (simp add: sem_release_def wake_up_next_def sem_ok_def)
next
  case (Some ws)
  have "length ws = length (sem_waiters s)" using wake_first_Some [OF Some] by (metis length_map)
  with Some assms wake_first_Some [OF Some] show ?thesis
    by (simp add: sem_release_def wake_up_next_def sem_ok_def)
qed

lemma leave_ok:
  assumes "sem_ok free s" "map_of (sem_waiters s) i = Some st" "st \<noteq> Pending"
  shows "sem_ok (case st of Woken \<Rightarrow> free - 1 | _ \<Rightarrow> free)
      (wake_loop ((drop_waiter i s)\<lparr>sem_value := sem_value s + (if st = WokenCancelled then 1 else 0)\<rparr>)) \<and>
    Suc (length (sem_waiters (wake_loop ((drop_waiter i s)\<lparr>sem_value := sem_value s + (if st = WokenCancelled then 1 else 0)\<rparr>))))
      = length (sem_waiters s)"
proof -
  let ?s = "(drop_waiter i s)\<lparr>sem_value := sem_value s + (if st = WokenCancelled then 1 else 0)\<rparr>"
  have ok: "distinct (map fst (sem_waiters s))" "fifo (sem_waiters s)" "0 \<le> sem_value s"
    "sem_value s + int (woken (sem_waiters s)) = free"
    using assms(1) by (simp_all add: sem_ok_def)
  have "distinct (map fst (sem_waiters ?s))" "fifo (sem_waiters ?s)" "0 \<le> sem_value ?s"
    using ok by (simp_all add: drop_waiter_def distinct_map_filter fifo_filter)
  note loop = wake_loop_ok [OF this]
  have "sem_value ?s + int (woken (sem_waiters ?s)) = (case st of Woken \<Rightarrow> free - 1 | _ \<Rightarrow> free)"
    using woken_drop [OF ok(1) assms(2)] ok(4) assms(3)
    by (cases st) (simp_all add: drop_waiter_def)
  moreover have "Suc (length (sem_waiters ?s)) = length (sem_waiters s)"
    using length_drop [OF ok(1) assms(2)] by (simp add: drop_waiter_def)
  ultimately show ?thesis using loop by simp
qed

lemma cq_okE:
  assumes "cq_ok q"
  obtains s where "cq_sems q = [s]" "cq_current q = 0" "0 \<le> cq_active q"
    "sem_ok (cq_slots q - cq_active q) s" "cq_waiting q = int (length (sem_waiters s))"
    "cq_waiting q \<le> cq_max_waiters q"
  using assms unfolding cq_ok_def by metis

lemma cq_okI:
  "cq_sems q = [s] \<Longrightarrow> cq_current q = 0 \<Longrightarrow> 0 \<le> cq_active q \<Longrightarrow>
   sem_ok (cq_slots q - cq_active q) s \<Longrightarrow> cq_waiting q = int (length (sem_waiters s)) \<Longrightarrow>
   cq_waiting q \<le> cq_max_waiters q \<Longrightarrow> cq_ok q"
  by (simp add: cq_ok_def)

lemma new_queue_ok: "cq_ok (new_queue slots max_waiters deadline)"
  by (rule cq_okI [where s = "new_semaphore (max 1 slots)"])
    (simp_all add: new_queue_def new_semaphore_def sem_ok_def)

lemma not_cancelled_cases:
  "list_ex (\<lambda>w. snd w \<noteq> CancelledWaiter) ws \<Longrightarrow> has_pending ws \<or> 0 < woken ws"
proof (induction ws)
  case Nil
  then show ?case by simp
next
  case (Cons w ws)
  then show ?case by (cases "snd w") auto
qed

lemma locked_woken: "sem_locked s \<Longrightarrow> sem_ok free s \<Longrightarrow> 0 < sem_value s \<Longrightarrow> 0 < woken (sem_waiters s)"
  using not_cancelled_cases [of "sem_waiters s"] by (auto simp: sem_locked_def sem_ok_def)

lemma acquire_ok:
  assumes "cq_ok q" "i \<notin> fst ` set (sem_waiters (cq_sems q ! cq_current q))"
  shows "cq_ok (fst (acquire i q))"
proof -
  obtain s where s: "cq_sems q = [s]" "cq_current q = 0" "0 \<le> cq_active q"
    "sem_ok (cq_slots q - cq_active q) s" "cq_waiting q = int (length (sem_waiters s))"
    "cq_waiting q \<le> cq_max_waiters q"
    using assms(1) by (rule cq_okE)
  consider (full) "sem_locked s" "cq_waiting q \<ge> cq_max_waiters q"
    | (wait) "sem_locked s" "cq_waiting q < cq_max_waiters q" | (free) "\<not> sem_locked s"
    by linarith
  then show ?thesis
  proof cases
    case full
    then show ?thesis using s assms(1) by (simp add: acquire_def)
  next
    case wait
    have woken: "0 < sem_value s \<Longrightarrow> 0 < woken (sem_waiters s)"
      using locked_woken [OF wait(1) s(4)] .
    have "sem_ok (cq_slots q - cq_active q) (s\<lparr>sem_waiters := sem_waiters s @ [(i, Pending)]\<rparr>)"
      using s assms(2) woken by (auto simp: sem_ok_def)
    then show ?thesis
      by (intro cq_okI [where s = "s\<lparr>sem_waiters := sem_waiters s @ [(i, Pending)]\<rparr>"])
        (use s wait in \<open>simp_all add: acquire_def\<close>)
  next
    case free
    then have "sem_value s \<noteq> 0" "\<not> has_pending (sem_waiters s)"
      by (auto simp: sem_locked_def has_pending_def list_ex_iff)
    then have "sem_ok (cq_slots q - (cq_active q + 1)) (s\<lparr>sem_value := sem_value s - 1\<rparr>)"
      using s(4) by (auto simp: sem_ok_def)
    then show ?thesis
      by (intro cq_okI [where s = "s\<lparr>sem_value := sem_value s - 1\<rparr>"]) (use s free in \<open>simp_all add: acquire_def\<close>)
  qed
qed

lemma resume_ok:
  assumes "cq_ok q" "k < length (cq_sems q)" "acquire_resume k i q = Some (q', r)"
  shows "cq_ok q'"
proof -
  obtain s where s: "cq_sems q = [s]" "cq_current q = 0" "0 \<le> cq_active q"
    "sem_ok (cq_slots q - cq_active q) s" "cq_waiting q = int (length (sem_waiters s))"
    "cq_waiting q \<le> cq_max_waiters q"
    using assms(1) by (rule cq_okE)
  have k: "k = 0" using assms(2) s(1) by simp
  obtain st where st: "map_of (sem_waiters s) i = Some st" "st \<noteq> Pending"
    using assms(3) by (auto simp: acquire_resume_def Let_def k s(1) split: option.splits waiter_state.splits)
  let ?s = "wake_loop ((drop_waiter i s)\<lparr>sem_value := sem_value s + (if st = WokenCancelled then 1 else 0)\<rparr>)"
  have q': "q' = q\<lparr>cq_sems := [?s], cq_waiting := cq_waiting q - 1,
      cq_active := cq_active q + (if st = Woken then 1 else 0)\<rparr>"
    using assms(3) st(2) by (cases st) (auto simp: acquire_resume_def Let_def k s(1) st(1) drop_waiter_def)
  note leave = leave_ok [OF s(4) st]
  have "(case st of Woken \<Rightarrow> cq_slots q - cq_active q - 1 | _ \<Rightarrow> cq_slots q - cq_active q)
      = cq_slots q' - cq_active q'"
    using st(2) by (cases st) (simp_all add: q')
  then have "sem_ok (cq_slots q' - cq_active q') ?s" using leave by simp
  moreover have "cq_waiting q' = int (length (sem_waiters ?s))"
    using leave s(5) by (simp only: q') simp
  ultimately show ?thesis
    by (intro cq_okI [where s = ?s]) (use s in \<open>simp_all add: q'\<close>)
qed

lemma deadline_ok:
  assumes "cq_ok q" "k < length (cq_sems q)"
  shows "cq_ok (deadline_passed k i q)"
proof -
  obtain s where s: "cq_sems q = [s]" "cq_current q = 0" "0 \<le> cq_active q"
    "sem_ok (cq_slots q - cq_active q) s" "cq_waiting q = int (length (sem_waiters s))"
    "cq_waiting q \<le> cq_max_waiters q"
    using assms(1) by (rule cq_okE)
  let ?s = "s\<lparr>sem_waiters := cancel_waiter i (sem_waiters s)\<rparr>"
  have "deadline_passed k i q = q\<lparr>cq_sems := [?s]\<rparr>"
    using assms(2) s(1) by (simp add: deadline_passed_def Let_def cancel_waiter_def)
  moreover have "sem_ok (cq_slots q - cq_active q) ?s"
    using s(4) cancel_waiter_pending [of i "sem_waiters s"] by (auto simp: sem_ok_def cancel_waiter_fifo)
  ultimately show ?thesis
    by (intro cq_okI [where s = ?s]) (use s in simp_all)
qed

lemma release_ok:
  assumes "cq_ok q" "0 < cq_active q"
  shows "cq_ok (cq_release q)"
proof -
  obtain s where s: "cq_sems q = [s]" "cq_current q = 0" "0 \<le> cq_active q"
    "sem_ok (cq_slots q - cq_active q) s" "cq_waiting q = int (length (sem_waiters s))"
    "cq_waiting q \<le> cq_max_waiters q"
    using assms(1) by (rule cq_okE)
  have "sem_ok (cq_slots q - (cq_active q - 1)) (sem_release s)"
    using sem_release_ok [OF s(4)] by (simp add: algebra_simps)
  then show ?thesis
    by (intro cq_okI [where s = "sem_release s"])
      (use s assms(2) sem_release_ok [OF s(4)] in \<open>simp_all add: cq_release_def\<close>)
qed

lemma cq_step_ok: "cq_step q e q' \<Longrightarrow> cq_ok q \<Longrightarrow> cq_ok q'"
  by (induction rule: cq_step.induct) (auto simp: resume_ok deadline_ok release_ok dest: acquire_ok)

text \<open>No step changes the configuration.\<close>

lemma cq_step_config: "cq_step q e q' \<Longrightarrow> cq_slots q' = cq_slots q \<and> cq_max_waiters q' = cq_max_waiters q"
  by (induction rule: cq_step.induct)
    (auto simp: acquire_def acquire_resume_def deadline_passed_def cq_release_def Let_def
      split: if_splits option.splits waiter_state.splits)

lemma cq_reach_ok: "cq_reach q q' \<Longrightarrow> cq_ok q \<Longrightarrow>
    cq_ok q' \<and> cq_slots q' = cq_slots q \<and> cq_max_waiters q' = cq_max_waiters q"
  by (induction rule: cq_reach.induct) (auto dest: cq_step_ok cq_step_config)

lemma cq_reach_trans: "cq_reach q1 q2 \<Longrightarrow> cq_step q2 e q3 \<Longrightarrow> cq_reach q1 q3"
  by (rule cq_reach.step)

section \<open>Properties\<close>

lemma new_queue_config [simp]:
  "cq_slots (new_queue slots max_waiters deadline) = max 1 slots"
  "cq_max_waiters (new_queue slots max_waiters deadline) = max 0 max_waiters"
  by (simp_all add: new_queue_def)

text \<open>A queue of one slot: the first request is admitted, the second waits.\<close>

definition two_arrivals :: capacity_queue where
  "two_arrivals = fst (acquire 2 (fst (acquire 1 (new_queue 1 5 30))))"

lemma two_arrivals_reached: "cq_reach (new_queue 1 5 30) two_arrivals"
  unfolding two_arrivals_def
  by (rule cq_reach.step [OF cq_reach.step [OF cq_reach.refl]], rule cq_step.arrive [OF _ prod.collapse [symmetric]],
      simp add: new_queue_def new_semaphore_def, rule cq_step.arrive [OF _ prod.collapse [symmetric]])
    (simp add: acquire_def new_queue_def new_semaphore_def sem_locked_def)

lemma two_arrivals_state:
  "cq_active two_arrivals = 1" "cq_waiting two_arrivals = 1" "cq_current two_arrivals = 0"
  "sem_waiters (cq_sems two_arrivals ! 0) = [(2, Pending)]"
  by (simp_all add: two_arrivals_def acquire_def new_queue_def new_semaphore_def sem_locked_def)

text \<open>
  C25: However requests arrive, wait, give up and finish, never more executions than slots are
  admitted at once, never more requests wait than the bound allows, and nobody is woken while
  somebody who came earlier still waits.
\<close>

theorem capacity_queue_bounds:
  assumes "cq_reach (new_queue slots max_waiters deadline) q"
  shows "0 \<le> cq_active q \<and> cq_active q \<le> max 1 slots \<and> cq_waiting q \<le> max 0 max_waiters \<and>
    fifo (sem_waiters (cq_sems q ! cq_current q))"
proof -
  have ok: "cq_ok q" "cq_slots q = max 1 slots" "cq_max_waiters q = max 0 max_waiters"
    using cq_reach_ok [OF assms new_queue_ok] by simp_all
  obtain s where "cq_sems q = [s]" "cq_current q = 0" "0 \<le> cq_active q"
    "sem_ok (cq_slots q - cq_active q) s" "cq_waiting q \<le> cq_max_waiters q"
    using ok(1) by (rule cq_okE)
  with ok(2,3) show ?thesis by (simp add: sem_ok_def)
qed

theorem capacity_queue_bounds_witness: "cq_active two_arrivals \<le> 1 \<and> cq_waiting two_arrivals \<le> 5"
  using capacity_queue_bounds [OF two_arrivals_reached] by simp

text \<open>
  C39: No slot is left idle: whenever every request in the queue is still waiting for its turn, all
  slots are taken. A freed slot is handed on, even when the request it was handed to gives up.
\<close>

theorem no_idle_slot:
  assumes "cq_reach (new_queue slots max_waiters deadline) q"
    and "sem_waiters (cq_sems q ! cq_current q) \<noteq> []"
    and "list_all (\<lambda>w. snd w = Pending) (sem_waiters (cq_sems q ! cq_current q))"
  shows "cq_active q = max 1 slots"
proof -
  have ok: "cq_ok q" "cq_slots q = max 1 slots" using cq_reach_ok [OF assms(1) new_queue_ok] by simp_all
  obtain s where s: "cq_sems q = [s]" "cq_current q = 0" "sem_ok (cq_slots q - cq_active q) s"
    using ok(1) by (rule cq_okE)
  have ws: "sem_waiters s \<noteq> []" "list_all (\<lambda>w. snd w = Pending) (sem_waiters s)"
    using assms(2,3) s(1,2) by simp_all
  then have "has_pending (sem_waiters s)" by (cases "sem_waiters s") auto
  moreover have "woken (sem_waiters s) = 0" using ws(2) by (auto simp: woken_def list_all_iff filter_empty_conv)
  ultimately show ?thesis using s(3) ok(2) by (auto simp: sem_ok_def)
qed

theorem no_idle_slot_witness: "cq_active two_arrivals = 1"
  using no_idle_slot [OF two_arrivals_reached] by (simp add: two_arrivals_state)

text \<open>A burst of requests on a free semaphore without waiters.\<close>

definition admit_burst :: "nat list \<Rightarrow> capacity_queue \<Rightarrow> capacity_queue" where
  "admit_burst ids q = fold (\<lambda>i q. fst (acquire i q)) ids q"

lemma admit_burst_free:
  assumes "cq_current q < length (cq_sems q)" "cq_sems q ! cq_current q = \<lparr>sem_value = v, sem_waiters = []\<rparr>"
    "int (length ids) \<le> v"
  shows "admit_burst ids q =
    q\<lparr>cq_sems := (cq_sems q)[cq_current q := \<lparr>sem_value = v - int (length ids), sem_waiters = []\<rparr>],
      cq_active := cq_active q + int (length ids)\<rparr>"
  using assms
proof (induction ids arbitrary: q v)
  case Nil
  then show ?case by (simp add: admit_burst_def list_update_id [of "cq_sems q" "cq_current q", unfolded Nil.prems(2)])
next
  case (Cons i ids)
  let ?q = "q\<lparr>cq_sems := (cq_sems q)[cq_current q := \<lparr>sem_value = v - 1, sem_waiters = []\<rparr>],
      cq_active := cq_active q + 1\<rparr>"
  have "fst (acquire i q) = ?q" using Cons.prems by (simp add: acquire_def sem_locked_def)
  then have "admit_burst (i # ids) q = admit_burst ids ?q" by (simp add: admit_burst_def)
  also have "\<dots> = ?q\<lparr>cq_sems := (cq_sems ?q)[cq_current ?q := \<lparr>sem_value = v - 1 - int (length ids), sem_waiters = []\<rparr>],
      cq_active := cq_active ?q + int (length ids)\<rparr>"
    using Cons.prems by (intro Cons.IH) simp_all
  finally show ?case by (simp add: algebra_simps)
qed

lemma releases_free:
  assumes "cq_current q < length (cq_sems q)" "cq_sems q ! cq_current q = \<lparr>sem_value = v, sem_waiters = []\<rparr>"
    "int n \<le> cq_active q"
  shows "(cq_release ^^ n) q =
    q\<lparr>cq_sems := (cq_sems q)[cq_current q := \<lparr>sem_value = v + int n, sem_waiters = []\<rparr>],
      cq_active := cq_active q - int n\<rparr>"
  using assms(3)
proof (induction n)
  case 0
  then show ?case by (simp add: list_update_id [of "cq_sems q" "cq_current q", unfolded assms(2)])
next
  case (Suc n)
  then have "(cq_release ^^ Suc n) q = cq_release (q\<lparr>cq_sems := (cq_sems q)[cq_current q := \<lparr>sem_value = v + int n, sem_waiters = []\<rparr>],
      cq_active := cq_active q - int n\<rparr>)" by simp
  also have "\<dots> = q\<lparr>cq_sems := (cq_sems q)[cq_current q := \<lparr>sem_value = v + int (Suc n), sem_waiters = []\<rparr>],
      cq_active := cq_active q - int (Suc n)\<rparr>"
    using assms(1) Suc.prems by (simp add: cq_release_def sem_release_def wake_up_next_def algebra_simps)
  finally show ?case .
qed

text \<open>
  Changing the number of slots forgets the executions in flight. When all slots are taken and
  the queue is refreshed to \<open>n\<close> slots, \<open>n\<close> more requests are admitted at once; and once the earlier
  executions have ended, \<open>n\<close> run and the queue still admits more, because their releases went to
  the new semaphore.
\<close>

theorem refresh_overadmits:
  assumes "cq_ok q" "cq_active q = cq_slots q" "0 < cq_slots q" "1 \<le> n" "n \<noteq> cq_slots q"
    and "int (length ids) = n"
    and "q1 = admit_burst ids (refresh (Some n) None None q)"
    and "q2 = (cq_release ^^ nat (cq_slots q)) q1"
  shows "cq_slots q1 = n \<and> cq_active q1 = n + cq_slots q \<and>
    cq_active q2 = n \<and> \<not> sem_locked (cq_sems q2 ! cq_current q2)"
proof -
  obtain s where s: "cq_sems q = [s]" "cq_current q = 0" using assms(1) by (rule cq_okE)
  let ?q = "q\<lparr>cq_slots := n, cq_sems := [s, \<lparr>sem_value = n, sem_waiters = []\<rparr>], cq_current := 1\<rparr>"
  have "refresh (Some n) None None q = ?q"
    using assms(4,5) s by (simp add: refresh_def new_semaphore_def)
  then have q1: "q1 = ?q\<lparr>cq_sems := [s, \<lparr>sem_value = 0, sem_waiters = []\<rparr>], cq_active := cq_active q + n\<rparr>"
    using admit_burst_free [of ?q n ids] assms(6,7) by simp
  have "q2 = q1\<lparr>cq_sems := [s, \<lparr>sem_value = cq_slots q, sem_waiters = []\<rparr>], cq_active := n\<rparr>"
    using releases_free [of q1 0 "nat (cq_slots q)"] assms(2,3,4,8) q1 by simp
  then show ?thesis using q1 assms(2,3) by (simp add: sem_locked_def)
qed

text \<open>One slot, one execution in flight, refreshed to two slots: three executions at once.\<close>

theorem refresh_overadmits_witness:
  "\<exists>q. cq_reach (new_queue 1 5 30) q \<and> cq_active (admit_burst [7, 8] (refresh (Some 2) None None q)) = 3"
proof -
  let ?q = "fst (acquire 1 (new_queue 1 5 30))"
  have reach: "cq_reach (new_queue 1 5 30) ?q"
    by (rule cq_reach.step [OF cq_reach.refl], rule cq_step.arrive [OF _ prod.collapse [symmetric]])
      (simp add: new_queue_def new_semaphore_def)
  then have ok: "cq_ok ?q" using cq_reach_ok [OF reach new_queue_ok] by blast
  have "cq_active ?q = cq_slots ?q" "cq_slots ?q = 1"
    by (simp_all add: acquire_def new_queue_def new_semaphore_def sem_locked_def)
  then have "cq_active (admit_burst [7, 8] (refresh (Some 2) None None ?q)) = 3"
    using refresh_overadmits [OF ok, of 2 "[7, 8]" "admit_burst [7, 8] (refresh (Some 2) None None ?q)"] by simp
  then show ?thesis using reach by blast
qed

end
