(* ===== verification/SessionLifecycle.thy ===== *)
theory SessionLifecycle
  imports Prelude
begin

text \<open>
  The lifecycle of an interview session (\<open>backend/app/services/interview/lifecycle.py\<close>): expiry,
  the status gates, and the timer with its editor lease. Every read of the clock is an argument;
  all times are aware (UTC), so the conversions of naive ones are identities. A function that may
  raise returns the session, which the code mutates in place, and the exception.
\<close>

section \<open>The session row\<close>

record interview_session =
  is_status :: string
  is_expires_at :: "time option"
  is_timer_elapsed_ms :: "int option"
  is_timer_last_seen_at :: "time option"
  is_timer_editor_token :: "string option"
  is_active_duration_ms :: "int option"
  is_started_at :: "time option"
  is_submitted_at :: "time option"

definition mutable_statuses :: "string list" where
  "mutable_statuses = [''created'', ''active'']"

definition read_statuses :: "string list" where
  "read_statuses = [''created'', ''active'', ''submitted'', ''expired'', ''failed'', ''abandoned'']"

definition compute_expires_at :: "int \<Rightarrow> time \<Rightarrow> time option \<Rightarrow> time" where
  "compute_expires_at session_ttl_hours now started_at =
     (let hours = max 1 (if session_ttl_hours = 0 then 24 else session_ttl_hours);
          base = (case started_at of Some t \<Rightarrow> t | None \<Rightarrow> now)
      in base + seconds (3600 * hours))"

definition next_attempt_number :: "(string \<times> string) list \<Rightarrow> string \<Rightarrow> string \<Rightarrow> int" where
  "next_attempt_number sessions user_id challenge_slug =
     int (length (filter (\<lambda>(u, c). u = user_id \<and> c = challenge_slug) sessions)) + 1"

section \<open>The timer\<close>

definition timer_lease_seconds :: int where
  "timer_lease_seconds = 30"

text \<open>\<open>int((b - a).total_seconds() * 1000)\<close>\<close>

definition ms_between :: "time \<Rightarrow> time \<Rightarrow> int" where
  "ms_between a b = py_int (total_seconds (b - a) * 1000)"

definition timer_snapshot :: "time \<Rightarrow> interview_session \<Rightarrow> int \<times> int" where
  "timer_snapshot now s =
     (let elapsed = (case is_timer_elapsed_ms s of
            Some e \<Rightarrow> e
          | None \<Rightarrow> (case is_active_duration_ms s of
              Some e \<Rightarrow> e
            | None \<Rightarrow>
                (let end0 = (case is_submitted_at s of Some t \<Rightarrow> t | None \<Rightarrow> now);
                     end_at = (case is_expires_at s of Some x \<Rightarrow> min end0 x | None \<Rightarrow> end0)
                 in (case is_started_at s of Some t \<Rightarrow> max 0 (ms_between t end_at) | None \<Rightarrow> 0))))
      in (case is_timer_last_seen_at s of
            None \<Rightarrow> (max 0 elapsed, 0)
          | Some last_seen \<Rightarrow>
              if is_status s \<notin> set mutable_statuses then (max 0 elapsed, 0)
              else
                (let delta0 = max 0 (ms_between last_seen now);
                     lease = timer_lease_seconds * 1000;
                     delta = (case is_expires_at s of
                        Some x \<Rightarrow> min delta0 (max 0 (ms_between last_seen x)) | None \<Rightarrow> delta0)
                 in (max 0 elapsed + min delta lease, max 0 (lease - delta)))))"

definition stop_timer :: "time \<Rightarrow> interview_session \<Rightarrow> interview_session" where
  "stop_timer now s =
     s\<lparr>is_timer_elapsed_ms := Some (fst (timer_snapshot now s)),
       is_timer_last_seen_at := None, is_timer_editor_token := None\<rparr>"

section \<open>Expiry and the gates\<close>

definition maybe_expire_session :: "time \<Rightarrow> interview_session \<Rightarrow> interview_session \<times> bool" where
  "maybe_expire_session now s =
     (if is_status s \<in> set [''submitted'', ''expired'', ''failed'', ''abandoned'']
      then (s, is_status s = ''expired'')
      else (case is_expires_at s of
          None \<Rightarrow> (s, False)
        | Some x \<Rightarrow> if now \<ge> x then ((stop_timer x s)\<lparr>is_status := ''expired''\<rparr>, True) else (s, False)))"

definition require_mutable :: "time \<Rightarrow> interview_session \<Rightarrow> interview_session \<times> http_error option" where
  "require_mutable now s =
     (let s' = fst (maybe_expire_session now s) in
      (s',
       if is_status s' = ''expired''
       then Some (HTTPException 410 ''Session expired. Report and history remain available if submitted earlier.'' None)
       else if is_status s' = ''submitted''
       then Some (HTTPException 409 ''Session already submitted. Code is immutable.'' None)
       else if is_status s' = ''failed''
       then Some (HTTPException 409 ''Session failed and cannot be modified.'' None)
       else if is_status s' \<notin> set mutable_statuses
       then Some (HTTPException 409 ''Session is not editable.'' None)
       else None))"

definition require_readable :: "time \<Rightarrow> interview_session \<Rightarrow> interview_session \<times> http_error option" where
  "require_readable now s =
     (let s' = fst (maybe_expire_session now s) in
      (s', if is_status s' \<notin> set read_statuses then Some (HTTPException 404 ''Session not found'' None) else None))"

definition paused_error :: http_error where
  "paused_error = HTTPException 409 ''Session paused. Resume before editing.'' None"

definition other_editor_error :: http_error where
  "other_editor_error = HTTPException 409 ''This session is open for editing in another tab or device.'' None"

definition require_editor :: "time \<Rightarrow> interview_session \<Rightarrow> string option \<Rightarrow> http_error option" where
  "require_editor now s token =
     (let remaining = snd (timer_snapshot now s) in
      if remaining \<noteq> 0 \<and> is_timer_editor_token s \<noteq> token then Some other_editor_error
      else if token \<noteq> None \<and> token \<noteq> Some [] \<and> (remaining = 0 \<or> is_timer_editor_token s \<noteq> token)
      then Some paused_error
      else None)"

text \<open>\<open>t0\<close> is the clock read by \<open>require_mutable\<close>, \<open>now\<close> the one read after it.\<close>

definition update_timer ::
  "time \<Rightarrow> time \<Rightarrow> string \<Rightarrow> string \<Rightarrow> interview_session \<Rightarrow> interview_session \<times> http_error option" where
  "update_timer t0 now action token s =
     (case require_mutable t0 s of
        (s', Some e) \<Rightarrow> (s', Some e)
      | (s', None) \<Rightarrow>
          (let (elapsed, remaining) = timer_snapshot now s' in
           if remaining \<noteq> 0 \<and> is_timer_editor_token s' \<noteq> Some token then (s', Some other_editor_error)
           else if action = ''pause''
           then (if is_timer_editor_token s' = Some token then (stop_timer now s', None) else (s', None))
           else if action = ''heartbeat'' \<and> (remaining = 0 \<or> is_timer_editor_token s' \<noteq> Some token)
           then (s', Some paused_error)
           else (s'\<lparr>is_timer_elapsed_ms := Some elapsed, is_timer_last_seen_at := Some now,
                   is_timer_editor_token := Some token\<rparr>, None)))"

section \<open>Time that has passed\<close>

lemma ms_between_mono: "b \<le> c \<Longrightarrow> ms_between a b \<le> ms_between a c"
  by (simp add: ms_between_def total_seconds_def py_int_mono divide_right_mono)

lemma ms_between_nonneg [simp]: "a \<le> b \<Longrightarrow> 0 \<le> ms_between a b"
  by (simp add: ms_between_def total_seconds_def py_int_nonneg)

lemma ms_between_floor:
  assumes "a \<le> b"
  shows "ms_between a b = (b - a) div 1000"
proof -
  have eq: "total_seconds (b - a) * 1000 = rat_of_int (b - a) / rat_of_int 1000" by (simp add: total_seconds_def)
  have "0 \<le> rat_of_int (b - a) / rat_of_int 1000" using assms by simp
  then have "ms_between a b = \<lfloor>rat_of_int (b - a) / rat_of_int 1000\<rfloor>"
    unfolding ms_between_def eq py_int_def by (rule if_P)
  then show ?thesis by (simp only: floor_divide_of_int_eq)
qed

lemma div_add_le: "(x::int) div 1000 + y div 1000 \<le> (x + y) div 1000"
  using div_add1_eq [of x y 1000] by (simp add: pos_imp_zdiv_nonneg_iff)

lemma ms_between_add:
  assumes "a \<le> b" "b \<le> c"
  shows "ms_between a b + ms_between b c \<le> ms_between a c"
  using assms div_add_le [of "b - a" "c - b"] by (simp add: ms_between_floor)

text \<open>
  The timer is \<open>fair\<close> from \<open>t0\<close> on, when it never shows more than the time since then on top of
  \<open>e0\<close>: what is stored has passed by the time of the last heartbeat.
\<close>

definition timer_fair :: "time \<Rightarrow> int \<Rightarrow> time \<Rightarrow> interview_session \<Rightarrow> bool" where
  "timer_fair t0 e0 t s \<longleftrightarrow>
     t0 \<le> t \<and> 0 \<le> e0 \<and> (\<exists>e. is_timer_elapsed_ms s = Some e \<and>
       (case is_timer_last_seen_at s of
          None \<Rightarrow> e \<le> e0 + ms_between t0 t
        | Some l \<Rightarrow> t0 \<le> l \<and> l \<le> t \<and> e \<le> e0 + ms_between t0 l))"

lemma timer_fair_mono: "timer_fair t0 e0 t s \<Longrightarrow> t \<le> t' \<Longrightarrow> timer_fair t0 e0 t' s"
  using ms_between_mono [of t t' t0] by (fastforce simp: timer_fair_def split: option.splits)

lemma snapshot_fair:
  assumes "timer_fair t0 e0 t s"
  shows "0 \<le> fst (timer_snapshot t s)" "fst (timer_snapshot t s) \<le> e0 + ms_between t0 t"
proof -
  obtain e where e: "is_timer_elapsed_ms s = Some e"
    and seen: "case is_timer_last_seen_at s of None \<Rightarrow> e \<le> e0 + ms_between t0 t
        | Some l \<Rightarrow> t0 \<le> l \<and> l \<le> t \<and> e \<le> e0 + ms_between t0 l" and t: "t0 \<le> t" "0 \<le> e0"
    using assms by (auto simp: timer_fair_def)
  show "0 \<le> fst (timer_snapshot t s)"
    by (auto simp: timer_snapshot_def e Let_def timer_lease_seconds_def split: option.split)
  show "fst (timer_snapshot t s) \<le> e0 + ms_between t0 t"
  proof (cases "is_timer_last_seen_at s")
    case None
    then show ?thesis using seen t by (simp add: timer_snapshot_def e)
  next
    case (Some l)
    then have l: "t0 \<le> l" "l \<le> t" "e \<le> e0 + ms_between t0 l" using seen by simp_all
    have nn: "0 \<le> ms_between t0 l" "0 \<le> ms_between l t" using l by simp_all
    have "fst (timer_snapshot t s) \<le> max 0 e + ms_between l t"
      using nn by (auto simp: timer_snapshot_def e Some Let_def timer_lease_seconds_def split: option.split)
    then show ?thesis using l(3) t(2) nn ms_between_add [OF l(1,2)] by linarith
  qed
qed

lemma stop_timer_fair:
  assumes "timer_fair t0 e0 t s"
  shows "timer_fair t0 e0 t (stop_timer t s)"
  using snapshot_fair [OF assms] assms by (simp add: timer_fair_def stop_timer_def)

lemma snapshot_mono:
  assumes "is_timer_elapsed_ms s = Some e" "t \<le> t'"
  shows "fst (timer_snapshot t s) \<le> fst (timer_snapshot t' s)"
proof (cases "is_timer_last_seen_at s")
  case None
  then show ?thesis by (simp add: timer_snapshot_def assms(1))
next
  case (Some l)
  then show ?thesis using ms_between_mono [OF assms(2), of l]
    by (auto simp: timer_snapshot_def assms(1) Let_def split: option.split)
qed

lemma stop_timer_early_fair:
  assumes "timer_fair t0 e0 t s" "x \<le> t"
  shows "timer_fair t0 e0 t (stop_timer x s)"
proof -
  obtain e where "is_timer_elapsed_ms s = Some e" using assms(1) by (auto simp: timer_fair_def)
  from snapshot_mono [OF this assms(2)] snapshot_fair(2) [OF assms(1)]
  have "fst (timer_snapshot x s) \<le> e0 + ms_between t0 t" by simp
  then show ?thesis using assms(1) by (simp add: timer_fair_def stop_timer_def)
qed

lemma timer_fair_status [simp]: "timer_fair t0 e0 t (s\<lparr>is_status := st\<rparr>) \<longleftrightarrow> timer_fair t0 e0 t s"
  by (simp add: timer_fair_def)

lemma require_mutable_fair:
  assumes "timer_fair t0 e0 t s" "t \<le> now"
  shows "timer_fair t0 e0 now (fst (require_mutable now s))"
  using timer_fair_mono [OF assms] stop_timer_early_fair [OF timer_fair_mono [OF assms]]
  by (simp add: require_mutable_def maybe_expire_session_def Let_def split: option.split)

lemma update_timer_fair:
  assumes "timer_fair t0 e0 t s" "t \<le> n0" "n0 \<le> n1"
  shows "timer_fair t0 e0 n1 (fst (update_timer n0 n1 action token s))"
proof -
  let ?s = "fst (require_mutable n0 s)"
  have f: "timer_fair t0 e0 n1 ?s"
    using timer_fair_mono [OF require_mutable_fair [OF assms(1,2)] assms(3)] .
  have go: "timer_fair t0 e0 n1 (?s\<lparr>is_timer_elapsed_ms := Some (fst (timer_snapshot n1 ?s)),
      is_timer_last_seen_at := Some n1, is_timer_editor_token := Some token\<rparr>)"
    using f snapshot_fair(2) [OF f] by (auto simp: timer_fair_def)
  obtain r where r: "require_mutable n0 s = (?s, r)" by (cases "require_mutable n0 s") simp
  show ?thesis
  proof (cases r)
    case (Some err)
    have "fst (update_timer n0 n1 action token s) = ?s"
      unfolding update_timer_def by (subst r) (simp only: Some prod.case option.case fst_conv)
    then show ?thesis using f by simp
  next
    case None
    have upd: "update_timer n0 n1 action token s =
        (let (elapsed, remaining) = timer_snapshot n1 ?s in
           if remaining \<noteq> 0 \<and> is_timer_editor_token ?s \<noteq> Some token then (?s, Some other_editor_error)
           else if action = ''pause''
           then (if is_timer_editor_token ?s = Some token then (stop_timer n1 ?s, None) else (?s, None))
           else if action = ''heartbeat'' \<and> (remaining = 0 \<or> is_timer_editor_token ?s \<noteq> Some token)
           then (?s, Some paused_error)
           else (?s\<lparr>is_timer_elapsed_ms := Some elapsed, is_timer_last_seen_at := Some n1,
                   is_timer_editor_token := Some token\<rparr>, None))"
      unfolding update_timer_def by (subst r) (simp only: None prod.case option.case)
    show ?thesis unfolding upd Let_def case_prod_beta
      using f go stop_timer_fair [OF f] by (simp split: if_split)
  qed
qed

section \<open>Runs of the timer\<close>

text \<open>Timer requests with their two clock reads, in the order of the clock.\<close>

type_synonym timer_request = "time \<times> time \<times> string \<times> string"

fun run_timer :: "interview_session \<Rightarrow> timer_request list \<Rightarrow> interview_session" where
  "run_timer s [] = s"
| "run_timer s ((n0, n1, action, token) # rs) = run_timer (fst (update_timer n0 n1 action token s)) rs"

fun clock_ordered :: "time \<Rightarrow> timer_request list \<Rightarrow> time \<Rightarrow> bool" where
  "clock_ordered t [] t' \<longleftrightarrow> t \<le> t'"
| "clock_ordered t ((n0, n1, _) # rs) t' \<longleftrightarrow> t \<le> n0 \<and> n0 \<le> n1 \<and> clock_ordered n1 rs t'"

lemma run_timer_fair: "timer_fair t0 e0 t s \<Longrightarrow> clock_ordered t rs t' \<Longrightarrow> timer_fair t0 e0 t' (run_timer s rs)"
proof (induction s rs arbitrary: t rule: run_timer.induct)
  case (1 s)
  then show ?case by (auto intro: timer_fair_mono)
next
  case (2 s n0 n1 action token rs)
  then show ?case using update_timer_fair [of t0 e0 t s n0 n1 action token] by simp
qed

section \<open>Properties\<close>

text \<open>
  The timer never runs ahead of the clock: however often editors start, resume, pause or send
  heartbeats, from whatever tabs, the time on a session that was paused at \<open>t\<close> has grown by at most
  the time that has passed since then, and it is never negative.
\<close>

theorem timer_not_ahead_of_clock:
  assumes "is_timer_elapsed_ms s = Some e" "0 \<le> e" "is_timer_last_seen_at s = None"
    and "clock_ordered t requests t'"
  shows "0 \<le> fst (timer_snapshot t' (run_timer s requests)) \<and>
    fst (timer_snapshot t' (run_timer s requests)) \<le> e + ms_between t t'"
proof -
  have "timer_fair t e t s" using assms(1-3) by (simp add: timer_fair_def)
  from run_timer_fair [OF this assms(4)] show ?thesis using snapshot_fair by blast
qed

definition fresh_session :: interview_session where
  "fresh_session = \<lparr>is_status = ''active'', is_expires_at = Some (seconds 86400), is_timer_elapsed_ms = Some 0,
     is_timer_last_seen_at = None, is_timer_editor_token = None, is_active_duration_ms = None,
     is_started_at = Some 0, is_submitted_at = None\<rparr>"

theorem timer_not_ahead_of_clock_witness:
  "fst (timer_snapshot (seconds 60) (run_timer fresh_session
     [(seconds 10, seconds 10, ''resume'', ''a''), (seconds 25, seconds 25, ''heartbeat'', ''a'')])) \<le> 50000"
proof -
  let ?rs = "[(seconds 10, seconds 10, ''resume'', ''a''), (seconds 25, seconds 25, ''heartbeat'', ''a'')]"
  have "clock_ordered (seconds 10) ?rs (seconds 60)" by simp
  from timer_not_ahead_of_clock [OF _ _ _ this, of fresh_session 0]
  show ?thesis by (simp add: fresh_session_def ms_between_floor)
qed

lemma not_expired_mutable:
  assumes "is_status s \<in> set mutable_statuses" "case is_expires_at s of Some x \<Rightarrow> now < x | None \<Rightarrow> True"
  shows "require_mutable now s = (s, None)"
proof -
  have "maybe_expire_session now s = (s, False)"
    using assms by (auto simp: maybe_expire_session_def mutable_statuses_def split: option.splits)
  then show ?thesis using assms(1) by (auto simp: require_mutable_def mutable_statuses_def)
qed

lemma lease_remaining:
  assumes "is_status s \<in> set mutable_statuses" "is_timer_last_seen_at s = Some l" "l \<le> now"
    "now < l + seconds timer_lease_seconds"
  shows "0 < snd (timer_snapshot now s)"
proof -
  have "ms_between l now < timer_lease_seconds * 1000" "0 \<le> ms_between l now"
    using assms(3,4) by (simp_all add: ms_between_floor timer_lease_seconds_def)
  then show ?thesis
    using assms(1,2) by (auto simp: timer_snapshot_def Let_def split: option.split)
qed

text \<open>
  C14: While an editor's lease of thirty seconds runs on an editable session, every timer request and
  every edit of another tab, or of a client without a token, is refused with 409 and changes nothing,
  and the editor itself is let through.
\<close>

theorem editor_lease_exclusive:
  assumes "is_status s \<in> set mutable_statuses" "is_timer_last_seen_at s = Some l"
    and "is_timer_editor_token s = Some owner" "other \<noteq> owner"
    and "l \<le> n0" "n0 \<le> n1" "n1 < l + seconds timer_lease_seconds"
    and "case is_expires_at s of Some x \<Rightarrow> n1 < x | None \<Rightarrow> True"
  shows "update_timer n0 n1 action other s = (s, Some other_editor_error) \<and>
    require_editor n1 s (Some other) = Some other_editor_error \<and>
    require_editor n1 s None = Some other_editor_error \<and> require_editor n1 s (Some owner) = None"
proof -
  have rem: "0 < snd (timer_snapshot n1 s)" using assms by (intro lease_remaining [OF assms(1,2)]) simp_all
  have "case is_expires_at s of Some x \<Rightarrow> n0 < x | None \<Rightarrow> True"
    using assms(6,8) by (auto split: option.splits)
  then have mut: "require_mutable n0 s = (s, None)" by (rule not_expired_mutable [OF assms(1)])
  show ?thesis using rem mut assms(3,4)
    by (simp add: update_timer_def require_editor_def Let_def case_prod_beta)
qed

theorem editor_lease_exclusive_witness:
  "update_timer (seconds 20) (seconds 20) ''resume'' ''b''
     (fresh_session\<lparr>is_timer_last_seen_at := Some (seconds 10), is_timer_editor_token := Some ''a''\<rparr>)
   = (fresh_session\<lparr>is_timer_last_seen_at := Some (seconds 10), is_timer_editor_token := Some ''a''\<rparr>,
      Some other_editor_error)"
  using editor_lease_exclusive [of "fresh_session\<lparr>is_timer_last_seen_at := Some (seconds 10),
      is_timer_editor_token := Some ''a''\<rparr>" "seconds 10" "''a''" "''b''" "seconds 20" "seconds 20" "''resume''"]
  by (simp add: fresh_session_def mutable_statuses_def timer_lease_seconds_def)

text \<open>
  A session past its expiry is closed at its next use: the request is refused with 410, the
  session is marked expired, and its timer stands for ever at what it showed at the expiry, not at
  the later request.
\<close>

theorem expired_session_frozen:
  assumes "is_status s \<in> set mutable_statuses" "is_expires_at s = Some x" "x \<le> n0"
  shows "snd (update_timer n0 n1 action token s) =
      Some (HTTPException 410 ''Session expired. Report and history remain available if submitted earlier.'' None) \<and>
    is_status (fst (update_timer n0 n1 action token s)) = ''expired'' \<and>
    timer_snapshot t (fst (update_timer n0 n1 action token s)) = (max 0 (fst (timer_snapshot x s)), 0)"
proof -
  have expire: "maybe_expire_session n0 s = ((stop_timer x s)\<lparr>is_status := ''expired''\<rparr>, True)"
    using assms by (auto simp: maybe_expire_session_def mutable_statuses_def)
  have "require_mutable n0 s = ((stop_timer x s)\<lparr>is_status := ''expired''\<rparr>,
      Some (HTTPException 410 ''Session expired. Report and history remain available if submitted earlier.'' None))"
    by (simp add: require_mutable_def expire Let_def)
  then have "update_timer n0 n1 action token s = ((stop_timer x s)\<lparr>is_status := ''expired''\<rparr>,
      Some (HTTPException 410 ''Session expired. Report and history remain available if submitted earlier.'' None))"
    by (simp only: update_timer_def prod.case option.case)
  then show ?thesis by (simp add: timer_snapshot_def stop_timer_def)
qed

theorem expired_session_frozen_witness:
  "is_status (fst (update_timer (seconds 90000) (seconds 90000) ''resume'' ''b'' fresh_session)) = ''expired''"
  using expired_session_frozen [of fresh_session "seconds 86400" "seconds 90000" "seconds 90000"]
  by (simp add: fresh_session_def mutable_statuses_def)

end
