(* ===== verification/RateLimit.thy ===== *)
theory RateLimit
  imports PyValues
begin

text \<open>
  The fixed-window rate limiter (\<open>backend/app/core/ratelimit.py\<close>): one counter row per hashed key
  and window, raised by one atomic upsert. The keyed hash is an argument.
\<close>

section \<open>The counters\<close>

record rate_counter =
  rc_key :: string
  rc_window_start :: int
  rc_count :: int
  rc_expires_at :: int

definition rc_id :: "rate_counter \<Rightarrow> string \<times> int" where
  "rc_id r = (rc_key r, rc_window_start r)"

definition limit_from_env :: "(string \<Rightarrow> string option) \<Rightarrow> string \<Rightarrow> int \<Rightarrow> int" where
  "limit_from_env environ name dflt =
     (let raw = strip (case environ name of Some v \<Rightarrow> v | None \<Rightarrow> []) in
      if raw = [] then dflt
      else (case parse_int raw of None \<Rightarrow> dflt | Some value \<Rightarrow> if value \<ge> 1 then value else dflt))"

text \<open>\<open>int(now.timestamp())\<close>\<close>

definition timestamp :: "time \<Rightarrow> int" where
  "timestamp now = py_int (total_seconds now)"

definition window_of :: "int \<Rightarrow> int \<Rightarrow> int" where
  "window_of window_seconds current = current div window_seconds * window_seconds"

text \<open>
  \<open>INSERT ... ON CONFLICT DO UPDATE SET count = count + 1 WHERE count < limit RETURNING count\<close>:
  \<open>None\<close> when nothing is returned.
\<close>

definition count_request ::
  "string \<Rightarrow> int \<Rightarrow> int \<Rightarrow> int \<Rightarrow> rate_counter list \<Rightarrow> rate_counter list \<times> int option" where
  "count_request hashed bucket window_seconds lmt rows =
     (case row_get rc_id (hashed, bucket) rows of
        None \<Rightarrow> (rows @ [\<lparr>rc_key = hashed, rc_window_start = bucket, rc_count = 1,
                        rc_expires_at = bucket + window_seconds\<rparr>], Some 1)
      | Some r \<Rightarrow>
          if rc_count r < lmt
          then (row_upd rc_id (hashed, bucket) (\<lambda>r. r\<lparr>rc_count := rc_count r + 1\<rparr>) rows, Some (rc_count r + 1))
          else (rows, None))"

definition enforce_rate_limit ::
  "dialect \<Rightarrow> (string \<Rightarrow> string) \<Rightarrow> time \<Rightarrow> string \<Rightarrow> int \<Rightarrow> int \<Rightarrow> bool \<Rightarrow> rate_counter list txn \<Rightarrow>
    rate_counter list txn \<times> http_error option" where
  "enforce_rate_limit d hash_key now key lmt window_seconds do_commit x =
     (if lmt < 1 \<or> window_seconds < 1 then (x, Some (HTTPException 503 ''Invalid rate limit configuration'' None))
      else
        (let current = timestamp now;
             bucket = window_of window_seconds current;
             hashed = hash_key key
         in case d of
              OtherDialect \<Rightarrow> (x, Some (HTTPException 503 ''Rate limiter unavailable'' None))
            | _ \<Rightarrow>
                (let (rows, accepted) = count_request hashed bucket window_seconds lmt (tx_working x);
                     x' = x\<lparr>tx_working := rows\<rparr>;
                     x'' = (if do_commit \<or> accepted = None then commit x' else x')
                 in if accepted = None
                    then (x'', Some (HTTPException 429 ''Rate limit exceeded. Please retry later.''
                           (Some (max 1 (bucket + window_seconds - current)))))
                    else (x'', None))))"

definition cleanup_expired_counters :: "time \<Rightarrow> rate_counter list \<Rightarrow> rate_counter list" where
  "cleanup_expired_counters now rows = filter (\<lambda>r. \<not> rc_expires_at r \<le> timestamp now) rows"

text \<open>
  The two counters of an authentication request (\<open>_check_auth_rate_limit\<close> in \<open>routes/auth.py\<close>): the
  client's address, then the account; one transaction.
\<close>

definition check_auth_rate_limit ::
  "dialect \<Rightarrow> (string \<Rightarrow> string) \<Rightarrow> time \<Rightarrow> time \<Rightarrow> int \<Rightarrow> int \<Rightarrow> string \<Rightarrow> string option \<Rightarrow> rate_counter list txn \<Rightarrow>
    rate_counter list txn \<times> http_error option" where
  "check_auth_rate_limit d hash_key now now' auth_limit auth_window client identity x =
     (let named = (case identity of Some i \<Rightarrow> i \<noteq> [] | None \<Rightarrow> False);
          (x1, e1) = enforce_rate_limit d hash_key now (''auth:'' @ client) auth_limit auth_window (\<not> named) x
      in if e1 \<noteq> None \<or> \<not> named then (x1, e1)
         else enforce_rate_limit d hash_key now' (''auth-account:'' @ hash_key (to_lower (the identity)))
                10 auth_window True x1)"

section \<open>Traffic\<close>

text \<open>
  What reaches the limiter over time: requests of any keys and the background cleanup, each with
  the clock it read. Every request that counts is committed before the next event.
\<close>

datatype rate_event = RateRequest string int int time | RateCleanup time

definition event_time :: "rate_event \<Rightarrow> time" where
  "event_time ev = (case ev of RateRequest _ _ _ t \<Rightarrow> t | RateCleanup t \<Rightarrow> t)"

fun run_limiter :: "dialect \<Rightarrow> (string \<Rightarrow> string) \<Rightarrow> rate_counter list \<Rightarrow> rate_event list \<Rightarrow> rate_event list" where
  "run_limiter d h rows [] = []"
| "run_limiter d h rows (RateCleanup t # evs) = run_limiter d h (cleanup_expired_counters t rows) evs"
| "run_limiter d h rows (RateRequest key lmt w t # evs) =
     (case enforce_rate_limit d h t key lmt w True (begin_txn rows) of
        (x, None) \<Rightarrow> RateRequest key lmt w t # run_limiter d h (tx_committed x) evs
      | (x, Some _) \<Rightarrow> run_limiter d h (tx_committed x) evs)"

text \<open>The requests of one key in one window among those that were let through.\<close>

definition in_window :: "(string \<Rightarrow> string) \<Rightarrow> string \<Rightarrow> int \<Rightarrow> rate_event \<Rightarrow> bool" where
  "in_window h hashed bucket ev =
     (case ev of RateRequest key _ w t \<Rightarrow> h key = hashed \<and> window_of w (timestamp t) = bucket | RateCleanup _ \<Rightarrow> False)"

text \<open>All requests under one hashed key have the same limit and window, as they come from one route.\<close>

definition uniform :: "(string \<Rightarrow> string) \<Rightarrow> string \<Rightarrow> int \<Rightarrow> int \<Rightarrow> rate_event \<Rightarrow> bool" where
  "uniform h hashed lmt w ev =
     (case ev of RateRequest key l v _ \<Rightarrow> h key = hashed \<longrightarrow> l = lmt \<and> v = w | RateCleanup _ \<Rightarrow> True)"

definition counted :: "string \<Rightarrow> int \<Rightarrow> rate_counter list \<Rightarrow> int" where
  "counted hashed bucket rows = (case row_get rc_id (hashed, bucket) rows of Some r \<Rightarrow> rc_count r | None \<Rightarrow> 0)"

section \<open>Lemmas\<close>

lemma timestamp_mono: "t \<le> t' \<Longrightarrow> timestamp t \<le> timestamp t'"
  by (simp add: timestamp_def total_seconds_def py_int_mono divide_right_mono)

lemma window_of_less:
  assumes "1 \<le> w"
  shows "c < window_of w c + w"
proof -
  have "0 < w" using assms by simp
  then have "c mod w < w" by (rule pos_mod_bound)
  moreover have "c = c div w * w + c mod w" by simp
  ultimately show ?thesis unfolding window_of_def by linarith
qed

definition expiry_ok :: "string \<Rightarrow> int \<Rightarrow> int \<Rightarrow> rate_counter list \<Rightarrow> bool" where
  "expiry_ok hashed bucket w rows \<longleftrightarrow>
     list_all (\<lambda>r. rc_id r = (hashed, bucket) \<longrightarrow> rc_expires_at r = bucket + w) rows"

lemma counted_snoc:
  "row_get rc_id (rc_id r) rows = None \<Longrightarrow>
   counted hk b (rows @ [r]) = counted hk b rows + (if rc_id r = (hk, b) then rc_count r else 0)"
  by (auto simp: counted_def row_get_append split: option.split)

lemma counted_upd:
  "row_get rc_id (hk', b') rows = Some r \<Longrightarrow>
   counted hk b (row_upd rc_id (hk', b') (\<lambda>r. r\<lparr>rc_count := rc_count r + 1\<rparr>) rows)
     = counted hk b rows + (if hk = hk' \<and> b = b' then 1 else 0)"
  by (auto simp: counted_def row_get_row_upd rc_id_def split: option.split)

lemma count_request_accepts:
  assumes "count_request k b' v l rows = (rows', Some n)" "1 \<le> l"
  shows "counted k b' rows < l \<and> n = counted k b' rows + 1 \<and>
    counted hk b rows' = counted hk b rows + (if hk = k \<and> b = b' then 1 else 0) \<and>
    (expiry_ok hk b w rows \<longrightarrow> (hk = k \<and> b = b' \<longrightarrow> v = w) \<longrightarrow> expiry_ok hk b w rows')"
proof (cases "row_get rc_id (k, b') rows")
  case None
  then have rows': "rows' = rows @ [\<lparr>rc_key = k, rc_window_start = b', rc_count = 1, rc_expires_at = b' + v\<rparr>]" "n = 1"
    using assms(1) by (simp_all add: count_request_def)
  have id: "rc_id \<lparr>rc_key = k, rc_window_start = b', rc_count = 1, rc_expires_at = b' + v\<rparr> = (k, b')"
    by (simp add: rc_id_def)
  show ?thesis
    using counted_snoc [of "\<lparr>rc_key = k, rc_window_start = b', rc_count = 1, rc_expires_at = b' + v\<rparr>" rows hk b] id None assms(2)
    by (auto simp: rows' counted_def expiry_ok_def)
next
  case (Some r)
  then have rows': "rc_count r < l" "n = rc_count r + 1"
    "rows' = row_upd rc_id (k, b') (\<lambda>r. r\<lparr>rc_count := rc_count r + 1\<rparr>) rows"
    using assms(1) by (auto simp: count_request_def split: if_splits)
  have "expiry_ok hk b w rows \<Longrightarrow> expiry_ok hk b w rows'"
    unfolding expiry_ok_def rows'(3) by (rule list_all_row_upd) (auto simp: rc_id_def)
  then show ?thesis
    using counted_upd [OF Some, of hk b] rows'(1,2) Some by (simp add: rows'(3)) (simp add: counted_def)
qed

lemma count_request_refuses: "count_request k b v l rows = (rows', None) \<Longrightarrow> rows' = rows"
  by (auto simp: count_request_def split: option.splits if_splits)

lemma enforce_accepts:
  assumes "enforce_rate_limit d h t key l v True (begin_txn rows) = (x, None)"
  obtains n where "count_request (h key) (window_of v (timestamp t)) v l rows = (tx_committed x, Some n)" "1 \<le> l" "1 \<le> v"
  using assms by (cases d) (auto simp: enforce_rate_limit_def Let_def split: prod.splits if_splits)

lemma enforce_refuses:
  assumes "enforce_rate_limit d h t key l v True (begin_txn rows) = (x, Some e)"
  shows "tx_committed x = rows"
  using assms by (cases d) (auto simp: enforce_rate_limit_def Let_def split: prod.splits if_splits dest: count_request_refuses)

lemma run_limiter_subset: "set (run_limiter d h rows evs) \<subseteq> set evs"
proof (induction evs arbitrary: rows)
  case Nil
  then show ?case by simp
next
  case (Cons ev evs)
  show ?case
  proof (cases ev)
    case (RateRequest key l v t)
    obtain x r where "enforce_rate_limit d h t key l v True (begin_txn rows) = (x, r)" by force
    then show ?thesis using Cons.IH [of "tx_committed x"] RateRequest by (cases r) auto
  next
    case (RateCleanup t)
    then show ?thesis using Cons.IH [of "cleanup_expired_counters t rows"] by auto
  qed
qed

lemma late_not_in_window:
  assumes "list_all (uniform h hashed l w) evs" "1 \<le> w" "list_all (\<lambda>ev. bucket + w \<le> timestamp (event_time ev)) evs"
  shows "filter (in_window h hashed bucket) (run_limiter d h rows evs) = []"
proof -
  have "\<not> in_window h hashed bucket ev" if "ev \<in> set evs" for ev
  proof (cases ev)
    case (RateRequest key l' v t)
    show ?thesis
    proof
      assume a: "in_window h hashed bucket ev"
      then have "v = w" using assms(1) that RateRequest by (auto simp: in_window_def uniform_def list_all_iff)
      moreover have "bucket + w \<le> timestamp t" using assms(3) that RateRequest by (auto simp: event_time_def list_all_iff)
      ultimately show False using a RateRequest window_of_less [OF assms(2), of "timestamp t"] by (auto simp: in_window_def)
    qed
  next
    case (RateCleanup t)
    then show ?thesis by (simp add: in_window_def)
  qed
  then show ?thesis using run_limiter_subset [of d h rows evs] by (auto simp: filter_empty_conv)
qed

lemma cleanup_keeps:
  assumes "expiry_ok hk b w rows" "timestamp t < b + w"
  shows "counted hk b (cleanup_expired_counters t rows) = counted hk b rows"
  using assms by (induction rows) (auto simp: counted_def expiry_ok_def cleanup_expired_counters_def split: if_splits)

lemma cleanup_expiry_ok: "expiry_ok hk b w rows \<Longrightarrow> expiry_ok hk b w (cleanup_expired_counters t rows)"
  by (auto simp: expiry_ok_def cleanup_expired_counters_def list_all_iff)

lemma in_window_request [simp]:
  "in_window h hk b (RateRequest key l w t) \<longleftrightarrow> h key = hk \<and> window_of w (timestamp t) = b"
  by (simp add: in_window_def)

lemma run_limiter_bounded:
  assumes "1 \<le> w"
  shows "sorted (map event_time evs) \<Longrightarrow> list_all (uniform h hk l w) evs \<Longrightarrow> expiry_ok hk b w rows \<Longrightarrow>
    int (length (filter (in_window h hk b) (run_limiter d h rows evs))) \<le> max 0 (l - counted hk b rows)"
proof (induction evs arbitrary: rows)
  case Nil
  then show ?case by simp
next
  case (Cons ev evs)
  have rest: "sorted (map event_time evs)" "list_all (uniform h hk l w) evs"
    using Cons.prems by simp_all
  show ?case
  proof (cases ev)
    case (RateCleanup t)
    show ?thesis
    proof (cases "timestamp t < b + w")
      case True
      then show ?thesis
        using Cons.IH [OF rest cleanup_expiry_ok [OF Cons.prems(3)], of t] cleanup_keeps [OF Cons.prems(3) True]
        by (simp add: RateCleanup)
    next
      case False
      then have "list_all (\<lambda>ev. b + w \<le> timestamp (event_time ev)) evs"
        using Cons.prems(1) timestamp_mono by (fastforce simp: list_all_iff RateCleanup event_time_def)
      then show ?thesis by (simp add: RateCleanup late_not_in_window [OF rest(2) assms])
    qed
  next
    case (RateRequest key l' v t)
    obtain x r where run: "enforce_rate_limit d h t key l' v True (begin_txn rows) = (x, r)" by force
    show ?thesis
    proof (cases r)
      case (Some e)
      then show ?thesis using Cons.IH [OF rest Cons.prems(3)] run
        by (simp add: RateRequest enforce_refuses [OF run [unfolded Some]])
    next
      case None
      obtain n where n: "count_request (h key) (window_of v (timestamp t)) v l' rows = (tx_committed x, Some n)" "1 \<le> l'"
        using enforce_accepts [OF run [unfolded None]] by metis
      have uni: "h key = hk \<Longrightarrow> l' = l \<and> v = w" using Cons.prems(2) by (simp add: RateRequest uniform_def)
      note eff = count_request_accepts [OF n, of hk b w]
      have ih: "int (length (filter (in_window h hk b) (run_limiter d h (tx_committed x) evs)))
          \<le> max 0 (l - counted hk b (tx_committed x))"
        using Cons.IH [OF rest] eff Cons.prems(3) uni by blast
      have step: "run_limiter d h rows (ev # evs) = RateRequest key l' v t # run_limiter d h (tx_committed x) evs"
        by (simp add: RateRequest run None)
      show ?thesis
      proof (cases "h key = hk \<and> window_of v (timestamp t) = b")
        case True
        then show ?thesis unfolding step using ih eff uni by simp
      next
        case False
        then show ?thesis unfolding step using ih eff by auto
      qed
    qed
  qed
qed

section \<open>Properties\<close>

text \<open>
  C26: In every window, no key gets more requests through than its limit, whatever other keys do and
  whenever the background cleanup runs: it never removes a counter that is still in use.
\<close>

theorem rate_limit_per_window:
  assumes "1 \<le> window_seconds" "sorted (map event_time evs)" "list_all (uniform h hashed lmt window_seconds) evs"
  shows "int (length (filter (in_window h hashed bucket) (run_limiter d h [] evs))) \<le> max 0 lmt"
  using run_limiter_bounded [OF assms, of bucket "[]" d] by (simp add: expiry_ok_def counted_def)

theorem rate_limit_per_window_witness:
  "int (length (filter (in_window id ''k'' 60) (run_limiter Sqlite id []
     [RateRequest ''k'' 1 60 (seconds 61), RateCleanup (seconds 62), RateRequest ''k'' 1 60 (seconds 63)]))) \<le> 1"
  using rate_limit_per_window [of 60 "[RateRequest ''k'' 1 60 (seconds 61), RateCleanup (seconds 62),
      RateRequest ''k'' 1 60 (seconds 63)]" id "''k''" 1 60 Sqlite]
  by (simp add: event_time_def uniform_def)

end
