(* ===== verification/AiBudget.thy ===== *)
theory AiBudget
  imports PyValues
begin

text \<open>
  The AI budgets (\<open>backend/app/services/interview/ai_budget.py\<close>): a reservation raises the counters
  of every scope (optional trial, global of the day, user of the day, session) in one transaction,
  or none of them. The environment, the settings object and the clock are arguments; a setting that
  the settings object lacks is \<open>None\<close>.
\<close>

section \<open>Configuration\<close>

record budget_env =
  be_environ :: "string \<Rightarrow> string option"
  be_setting :: "string \<Rightarrow> int option"
  be_kill_switch :: bool
  be_trial_enabled :: bool

definition yes_words :: "string list" where
  "yes_words = [''1'', ''true'', ''yes'', ''on'']"

definition budget_enabled :: "budget_env \<Rightarrow> bool" where
  "budget_enabled E =
     (case be_environ E ''PROMPTCODE_AI_KILL_SWITCH'' of
        Some raw \<Rightarrow> to_lower raw \<notin> set yes_words
      | None \<Rightarrow> \<not> be_kill_switch E)"

definition removeprefix :: "string \<Rightarrow> string \<Rightarrow> string" where
  "removeprefix p s = (if prefix p s then drop (length p) s else s)"

definition positive :: "budget_env \<Rightarrow> string \<Rightarrow> int \<Rightarrow> http_error + int" where
  "positive E name dflt =
     (let configured = (case be_setting E (to_lower (removeprefix ''PROMPTCODE_'' name)) of Some v \<Rightarrow> v | None \<Rightarrow> dflt)
      in case (case be_environ E name of Some raw \<Rightarrow> parse_int raw | None \<Rightarrow> Some configured) of
           None \<Rightarrow> Inl (HTTPException 503 ''Invalid AI budget configuration'' None)
         | Some value \<Rightarrow>
             if value \<le> 0 then Inl (HTTPException 503 ''AI budget is disabled'' None) else Inr value)"

definition trial_enabled :: "budget_env \<Rightarrow> bool" where
  "trial_enabled E =
     (case be_environ E ''PROMPTCODE_AI_TRIAL_ENABLED'' of
        Some raw \<Rightarrow> to_lower (strip raw) \<in> set yes_words
      | None \<Rightarrow> be_trial_enabled E)"

section \<open>The counters\<close>

record budget_row =
  bu_key :: string
  bu_requests :: int
  bu_tokens :: int
  bu_cost_micros :: int

record budget_scope =
  bs_key :: string
  bs_name :: string
  bs_requests :: int
  bs_tokens :: int
  bs_cost :: int

definition budget_scopes ::
  "budget_env \<Rightarrow> string \<Rightarrow> string \<Rightarrow> int \<Rightarrow> string \<Rightarrow> http_error + budget_scope list" where
  "budget_scopes E user_id session_id day purpose =
     (let global = \<lparr>bs_key = ''global:'' @ show_int day, bs_name = ''GLOBAL'', bs_requests = 1000,
                    bs_tokens = 10000000, bs_cost = 20000000\<rparr>;
          user = \<lparr>bs_key = ''user:'' @ user_id @ '':'' @ show_int day, bs_name = ''USER'', bs_requests = 100,
                  bs_tokens = 1000000, bs_cost = 5000000\<rparr>;
          chat = \<lparr>bs_key = ''session:'' @ session_id, bs_name = ''SESSION'', bs_requests = 20,
                  bs_tokens = 200000, bs_cost = 2000000\<rparr>;
          grading = \<lparr>bs_key = ''grading-session:'' @ session_id, bs_name = ''GRADING_SESSION'', bs_requests = 12,
                     bs_tokens = 600000, bs_cost = 2000000\<rparr>;
          trial = \<lparr>bs_key = ''trial:all'', bs_name = ''TRIAL'', bs_requests = 1000000,
                   bs_tokens = 1000000000, bs_cost = 5000000\<rparr>
      in if purpose \<noteq> ''grading'' \<and> purpose \<noteq> ''assistant''
         then Inl (HTTPException 400 ''Unknown AI budget purpose'' None)
         else Inr ((if trial_enabled E then [trial] else []) @
                   [global, user, if purpose = ''grading'' then grading else chat]))"

definition exhausted :: http_error where
  "exhausted = HTTPException 429 ''AI budget exhausted'' None"

text \<open>The caps of one scope: requests, tokens, cost.\<close>

definition scope_caps :: "budget_env \<Rightarrow> budget_scope \<Rightarrow> http_error + int \<times> int \<times> int" where
  "scope_caps E sc =
     bind (positive E (''PROMPTCODE_AI_'' @ bs_name sc @ ''_REQUESTS'') (bs_requests sc)) (\<lambda>r.
     bind (positive E (''PROMPTCODE_AI_'' @ bs_name sc @ ''_TOKENS'') (bs_tokens sc)) (\<lambda>t.
     bind (positive E (''PROMPTCODE_AI_'' @ bs_name sc @ ''_COST_MICROS'') (bs_cost sc)) (\<lambda>c. Inr (r, t, c))))"

text \<open>The upsert of one scope; \<open>None\<close> when its condition does not hold and no row is returned.\<close>

definition spend :: "string \<Rightarrow> int \<times> int \<times> int \<Rightarrow> int \<Rightarrow> int \<Rightarrow> budget_row list \<Rightarrow> budget_row list option" where
  "spend key caps tokens cost rows =
     (case caps of (cap_r, cap_t, cap_c) \<Rightarrow>
        (case row_get bu_key key rows of
           None \<Rightarrow> Some (rows @ [\<lparr>bu_key = key, bu_requests = 1, bu_tokens = tokens, bu_cost_micros = cost\<rparr>])
         | Some b \<Rightarrow>
             if bu_requests b + 1 \<le> cap_r \<and> bu_tokens b + tokens \<le> cap_t \<and> bu_cost_micros b + cost \<le> cap_c
             then Some (row_upd bu_key key (\<lambda>b. b\<lparr>bu_requests := bu_requests b + 1,
                    bu_tokens := bu_tokens b + tokens, bu_cost_micros := bu_cost_micros b + cost\<rparr>) rows)
             else None))"

definition reserve_scope ::
  "budget_env \<Rightarrow> int \<Rightarrow> int \<Rightarrow> budget_scope \<Rightarrow> budget_row list \<Rightarrow> http_error + budget_row list" where
  "reserve_scope E tokens cost sc rows =
     bind (scope_caps E sc) (\<lambda>caps. case caps of (cap_r, cap_t, cap_c) \<Rightarrow>
       if 1 > cap_r \<or> tokens > cap_t \<or> cost > cap_c then Inl exhausted
       else (case spend (bs_key sc) caps tokens cost rows of None \<Rightarrow> Inl exhausted | Some rows' \<Rightarrow> Inr rows'))"

fun reserve_scopes ::
  "budget_env \<Rightarrow> int \<Rightarrow> int \<Rightarrow> budget_scope list \<Rightarrow> budget_row list \<Rightarrow> http_error + budget_row list" where
  "reserve_scopes E tokens cost [] rows = Inr rows"
| "reserve_scopes E tokens cost (sc # scs) rows =
     bind (reserve_scope E tokens cost sc rows) (reserve_scopes E tokens cost scs)"

text \<open>
  The statements of a failed reservation are in the transaction until it is rolled back; nobody sees
  them, so the working state of the error case is the committed one.
\<close>

definition reserve_ai_budget ::
  "budget_env \<Rightarrow> dialect \<Rightarrow> rat \<Rightarrow> string \<Rightarrow> string \<Rightarrow> int \<Rightarrow> int \<Rightarrow> int \<Rightarrow> string \<Rightarrow> budget_row list txn \<Rightarrow>
    budget_row list txn \<times> http_error option" where
  "reserve_ai_budget E d now user_id session_id input_bytes output_tokens attempts purpose x =
     (if \<not> budget_enabled E then (x, Some (HTTPException 503 ''AI assistant is temporarily disabled'' None))
      else if \<not> (0 \<le> input_bytes \<and> input_bytes \<le> 256000 \<and> 1 \<le> output_tokens \<and> output_tokens \<le> 4096 \<and>
                 1 \<le> attempts \<and> attempts \<le> 8)
      then (x, Some (HTTPException 400 ''AI request exceeds budget size'' None))
      else
        (let tokens = (input_bytes + 512 + output_tokens) * attempts in
         case positive E ''PROMPTCODE_AI_MAX_MICROS_PER_TOKEN'' 100 of
           Inl e \<Rightarrow> (x, Some e)
         | Inr micros \<Rightarrow>
             (let cost = tokens * micros; day = py_int now div 86400 in
              case budget_scopes E user_id session_id day purpose of
                Inl e \<Rightarrow> (x, Some e)
              | Inr scopes \<Rightarrow>
                  (if d = OtherDialect then (x, Some (HTTPException 503 ''Unsupported AI budget database'' None))
                   else (case reserve_scopes E tokens cost scopes (tx_working x) of
                           Inl e \<Rightarrow> (rollback x, Some e)
                         | Inr rows \<Rightarrow> (commit (x\<lparr>tx_working := rows\<rparr>), None))))))"

text \<open>A synchronous worker call: one attempt, billed to the identity the caller set.\<close>

definition reserve_worker_budget ::
  "budget_env \<Rightarrow> dialect \<Rightarrow> (json \<Rightarrow> string) \<Rightarrow> rat \<Rightarrow> (string \<times> string) option \<Rightarrow> json \<Rightarrow> int \<Rightarrow>
    budget_row list txn \<Rightarrow> budget_row list txn \<times> http_error option" where
  "reserve_worker_budget E d dumps now identity messages output_tokens x =
     (case identity of
        Some (u, s) \<Rightarrow>
          if u = [] \<or> s = [] then (x, Some (HTTPException 503 ''AI billing identity unavailable'' None))
          else reserve_ai_budget E d now u s (int (length (dumps messages))) output_tokens 1 ''assistant'' x
      | None \<Rightarrow> (x, Some (HTTPException 503 ''AI billing identity unavailable'' None)))"

section \<open>What a reservation changes\<close>

definition spent :: "string \<Rightarrow> budget_row list \<Rightarrow> int \<times> int \<times> int" where
  "spent key rows =
     (case row_get bu_key key rows of
        None \<Rightarrow> (0, 0, 0) | Some b \<Rightarrow> (bu_requests b, bu_tokens b, bu_cost_micros b))"

fun add3 :: "int \<times> int \<times> int \<Rightarrow> int \<times> int \<times> int \<Rightarrow> int \<times> int \<times> int" where
  "add3 (a, b, c) (a', b', c') = (a + a', b + b', c + c')"

fun fits :: "int \<times> int \<times> int \<Rightarrow> int \<times> int \<times> int \<Rightarrow> bool" where
  "fits (a, b, c) (a', b', c') \<longleftrightarrow> a \<le> a' \<and> b \<le> b' \<and> c \<le> c'"

lemma spend_spent:
  assumes "spend key caps tokens cost rows = Some rows'"
  shows "spent k rows' = (if k = key then add3 (spent k rows) (1, tokens, cost) else spent k rows)"
proof (cases "row_get bu_key key rows")
  case None
  then show ?thesis using assms
    by (auto simp: spend_def spent_def row_get_append split: prod.splits option.splits)
next
  case (Some b)
  obtain r t c where "caps = (r, t, c)" by (cases caps)
  then show ?thesis using assms Some
    by (auto simp: spend_def spent_def row_get_row_upd split: option.splits if_splits)
qed

lemma spend_within:
  assumes "spend key caps tokens cost rows = Some rows'" "fits (1, tokens, cost) caps"
  shows "fits (spent key rows') caps"
proof (cases "row_get bu_key key rows")
  case None
  then show ?thesis using assms
    by (auto simp: spend_def spent_def row_get_append split: prod.splits)
next
  case (Some b)
  obtain r t c where "caps = (r, t, c)" by (cases caps)
  then show ?thesis using assms Some
    by (auto simp: spend_def spent_def row_get_row_upd split: option.splits if_splits)
qed

lemma reserve_scope_Inr:
  assumes "reserve_scope E tokens cost sc rows = Inr rows'"
  obtains caps where "scope_caps E sc = Inr caps" "fits (1, tokens, cost) caps"
    "spend (bs_key sc) caps tokens cost rows = Some rows'"
proof -
  obtain caps where caps: "scope_caps E sc = Inr caps" using assms by (auto simp: reserve_scope_def bind_Inr)
  obtain r t c where rtc: "caps = (r, t, c)" by (cases caps)
  show thesis
    by (rule that [OF caps])
      (use assms in \<open>auto simp: reserve_scope_def caps rtc split: if_splits option.splits\<close>)
qed

lemma reserve_scope_spent:
  "reserve_scope E tokens cost sc rows = Inr rows' \<Longrightarrow>
   spent k rows' = (if k = bs_key sc then add3 (spent k rows) (1, tokens, cost) else spent k rows)"
  by (erule reserve_scope_Inr) (rule spend_spent)

lemma reserve_scopes_spent:
  "distinct (map bs_key scs) \<Longrightarrow> reserve_scopes E tokens cost scs rows = Inr rows' \<Longrightarrow>
   spent k rows' = (if k \<in> bs_key ` set scs then add3 (spent k rows) (1, tokens, cost) else spent k rows)"
proof (induction scs arbitrary: rows)
  case Nil
  then show ?case by simp
next
  case (Cons sc scs)
  obtain rows1 where step: "reserve_scope E tokens cost sc rows = Inr rows1"
    and rest: "reserve_scopes E tokens cost scs rows1 = Inr rows'"
    using Cons.prems(2) by (auto simp: bind_Inr)
  from Cons.IH [OF _ rest] Cons.prems(1) reserve_scope_spent [OF step, of k] show ?case by auto
qed

lemma reserve_scopes_within:
  "distinct (map bs_key scs) \<Longrightarrow> reserve_scopes E tokens cost scs rows = Inr rows' \<Longrightarrow> sc \<in> set scs \<Longrightarrow>
   \<exists>caps. scope_caps E sc = Inr caps \<and> fits (spent (bs_key sc) rows') caps"
proof (induction scs arbitrary: rows)
  case Nil
  then show ?case by simp
next
  case (Cons s scs)
  obtain rows1 where step: "reserve_scope E tokens cost s rows = Inr rows1"
    and rest: "reserve_scopes E tokens cost scs rows1 = Inr rows'"
    using Cons.prems(2) by (auto simp: bind_Inr)
  show ?case
  proof (cases "sc \<in> set scs")
    case True
    then show ?thesis using Cons.IH [OF _ rest] Cons.prems(1) by simp
  next
    case False
    then have sc: "sc = s" using Cons.prems(3) by simp
    have "spent (bs_key s) rows' = spent (bs_key s) rows1"
      using reserve_scopes_spent [OF _ rest, of "bs_key s"] Cons.prems(1) by auto
    with step show ?thesis unfolding sc by (metis reserve_scope_Inr spend_within)
  qed
qed

lemma budget_scopes_distinct: "budget_scopes E u s day p = Inr scs \<Longrightarrow> distinct (map bs_key scs)"
  by (auto simp: budget_scopes_def Let_def split: if_splits)

lemma reserve_ai_budget_Inr:
  assumes "reserve_ai_budget E d now u s input_bytes output_tokens attempts p x = (x', None)"
  obtains micros scs rows where "positive E ''PROMPTCODE_AI_MAX_MICROS_PER_TOKEN'' 100 = Inr micros"
    "budget_scopes E u s (py_int now div 86400) p = Inr scs"
    "reserve_scopes E ((input_bytes + 512 + output_tokens) * attempts)
       ((input_bytes + 512 + output_tokens) * attempts * micros) scs (tx_working x) = Inr rows"
    "tx_committed x' = rows" "tx_working x' = rows"
  using assms that by (auto simp: reserve_ai_budget_def Let_def split: if_splits sum.splits)

lemma reserve_ai_budget_Inl:
  "reserve_ai_budget E d now u s input_bytes output_tokens attempts p x = (x', Some e) \<Longrightarrow>
   tx_committed x' = tx_committed x \<and> (tx_working x = tx_committed x \<longrightarrow> tx_working x' = tx_committed x)"
  by (auto simp: reserve_ai_budget_def Let_def split: if_splits sum.splits)

text \<open>A single scope is a metered resource of tokens.\<close>

definition token_cap :: "budget_env \<Rightarrow> budget_scope \<Rightarrow> int" where
  "token_cap E sc = (case scope_caps E sc of Inr (_, t, _) \<Rightarrow> t | Inl _ \<Rightarrow> 0)"

definition admit_tokens ::
  "budget_env \<times> budget_scope \<times> budget_row list \<Rightarrow> int \<times> int \<Rightarrow> (budget_env \<times> budget_scope \<times> budget_row list) option" where
  "admit_tokens st r =
     (case st of (E, sc, rows) \<Rightarrow>
        (case reserve_scope E (fst r) (snd r) sc rows of Inl _ \<Rightarrow> None | Inr rows' \<Rightarrow> Some (E, sc, rows')))"

interpretation budget: metered
  "\<lambda>(E, sc, rows). fst (snd (spent (bs_key sc) rows))" "\<lambda>(E, sc, rows). token_cap E sc" fst admit_tokens
proof
  fix st r st' assume a: "admit_tokens st r = Some st'"
  obtain E sc rows where st: "st = (E, sc, rows)" by (cases st)
  obtain rows' where step: "reserve_scope E (fst r) (snd r) sc rows = Inr rows'" and st': "st' = (E, sc, rows')"
    using a by (auto simp: admit_tokens_def st split: sum.splits)
  have eq: "spent (bs_key sc) rows' = add3 (spent (bs_key sc) rows) (1, fst r, snd r)"
    using reserve_scope_spent [OF step] by simp
  obtain a b c where abc: "spent (bs_key sc) rows = (a, b, c)" by (cases "spent (bs_key sc) rows")
  show "(case st' of (E, sc, rows) \<Rightarrow> fst (snd (spent (bs_key sc) rows))) =
      (case st of (E, sc, rows) \<Rightarrow> fst (snd (spent (bs_key sc) rows))) + fst r"
    by (cases r) (simp add: st st' eq abc)
  show "(case st' of (E, sc, rows) \<Rightarrow> token_cap E sc) = (case st of (E, sc, rows) \<Rightarrow> token_cap E sc)"
    by (simp add: st st')
  obtain caps where caps: "scope_caps E sc = Inr caps" "fits (spent (bs_key sc) rows') caps"
    using step by (metis reserve_scope_Inr spend_within)
  then show "(case st' of (E, sc, rows) \<Rightarrow> fst (snd (spent (bs_key sc) rows))) \<le>
      (case st of (E, sc, rows) \<Rightarrow> token_cap E sc)"
    by (cases caps, cases r) (simp add: st st' token_cap_def eq abc)
qed

section \<open>Properties\<close>

text \<open>
  C29: A reservation is all or nothing. When it is refused, no counter has changed; when it is
  granted, every scope it belongs to has one more request and exactly the tokens and the cost of
  the call, stays within its three caps, and no other counter has changed.
\<close>

theorem budget_all_or_nothing:
  assumes "reserve_ai_budget E d now u s input_bytes output_tokens attempts p x = (x', e)"
    and "tx_working x = tx_committed x"
  shows "case e of
      Some _ \<Rightarrow> tx_committed x' = tx_committed x \<and> tx_working x' = tx_committed x
    | None \<Rightarrow> (\<exists>scs micros. budget_scopes E u s (py_int now div 86400) p = Inr scs \<and>
        positive E ''PROMPTCODE_AI_MAX_MICROS_PER_TOKEN'' 100 = Inr micros \<and>
        (\<forall>k. spent k (tx_committed x') =
           (if k \<in> bs_key ` set scs
            then add3 (spent k (tx_committed x)) (1, (input_bytes + 512 + output_tokens) * attempts,
                   (input_bytes + 512 + output_tokens) * attempts * micros)
            else spent k (tx_committed x))) \<and>
        (\<forall>sc \<in> set scs. \<exists>caps. scope_caps E sc = Inr caps \<and> fits (spent (bs_key sc) (tx_committed x')) caps))"
proof (cases e)
  case (Some err)
  then show ?thesis using reserve_ai_budget_Inl [OF assms(1) [unfolded Some]] assms(2) by simp
next
  case None
  let ?t = "(input_bytes + 512 + output_tokens) * attempts"
  obtain micros scs rows where pos: "positive E ''PROMPTCODE_AI_MAX_MICROS_PER_TOKEN'' 100 = Inr micros"
    and scs: "budget_scopes E u s (py_int now div 86400) p = Inr scs"
    and res: "reserve_scopes E ?t (?t * micros) scs (tx_working x) = Inr rows" and x': "tx_committed x' = rows"
    using assms(1) [unfolded None] by (rule reserve_ai_budget_Inr)
  note dist = budget_scopes_distinct [OF scs]
  have "\<forall>k. spent k (tx_committed x') =
      (if k \<in> bs_key ` set scs then add3 (spent k (tx_committed x)) (1, ?t, ?t * micros) else spent k (tx_committed x))"
    using reserve_scopes_spent [OF dist res] assms(2) by (simp add: x')
  moreover have "\<forall>sc \<in> set scs. \<exists>caps. scope_caps E sc = Inr caps \<and> fits (spent (bs_key sc) (tx_committed x')) caps"
    using reserve_scopes_within [OF dist res] by (simp add: x')
  ultimately show ?thesis using scs pos None by auto
qed

definition default_budget_env :: budget_env where
  "default_budget_env = \<lparr>be_environ = (\<lambda>_. None), be_setting = (\<lambda>_. None), be_kill_switch = False,
     be_trial_enabled = False\<rparr>"

theorem budget_all_or_nothing_witness:
  "spent ''session:s'' (tx_committed (fst (reserve_ai_budget default_budget_env Sqlite 0 ''u'' ''s'' 88 400 1
     ''assistant'' (begin_txn [])))) = (1, 1000, 100000)"
proof -
  let ?r = "reserve_ai_budget default_budget_env Sqlite 0 ''u'' ''s'' 88 400 1 ''assistant'' (begin_txn [])"
  have "snd ?r = None" by code_simp
  then have r: "?r = (fst ?r, None)" by (rule pair_of_snd)
  have pos: "positive default_budget_env ''PROMPTCODE_AI_MAX_MICROS_PER_TOKEN'' 100 = Inr 100" by code_simp
  obtain scs where scs: "budget_scopes default_budget_env ''u'' ''s'' (py_int 0 div 86400) ''assistant'' = Inr scs"
    "''session:s'' \<in> bs_key ` set scs"
    by (simp add: budget_scopes_def Let_def)
  show ?thesis using budget_all_or_nothing [OF r] scs pos by (auto simp: spent_def)
qed

end
