(* ===== verification/JsonText.thy ===== *)
theory JsonText
  imports PyValues "HOL-Library.List_Lexorder" "HOL-Library.Multiset"
begin

text \<open>
  The canonical text of a JSON value, \<open>json.dumps(v, sort_keys=True, separators=(",", ":"))\<close>, which
  the grading code signs, hashes and compares. The text of a float is the language's \<open>repr\<close>, an
  argument. The keys of an object are those of a dictionary, so they are distinct.
\<close>

definition hex_digit :: "nat \<Rightarrow> char" where
  "hex_digit n = (if n < 10 then char_of (48 + n) else char_of (87 + n))"

definition escape_char :: "char \<Rightarrow> string" where
  "escape_char c =
     (let n = (of_char c :: nat) in
      if n = 34 then [char_of (92::nat), char_of (34::nat)]
      else if n = 92 then [char_of (92::nat), char_of (92::nat)]
      else if n = 10 then char_of (92::nat) # ''n''
      else if n = 13 then char_of (92::nat) # ''r''
      else if n = 9 then char_of (92::nat) # ''t''
      else if n = 12 then char_of (92::nat) # ''f''
      else if n = 8 then char_of (92::nat) # ''b''
      else if n < 32 \<or> 126 < n then char_of (92::nat) # ''u00'' @ [hex_digit (n div 16), hex_digit (n mod 16)]
      else [c])"

definition quoted :: "string \<Rightarrow> string" where
  "quoted s = [char_of (34::nat)] @ concat (map escape_char s) @ [char_of (34::nat)]"

fun canonical :: "(rat \<Rightarrow> string) \<Rightarrow> json \<Rightarrow> string" where
  "canonical fl JNull = ''null''"
| "canonical fl (JBool b) = (if b then ''true'' else ''false'')"
| "canonical fl (JInt i) = show_int i"
| "canonical fl (JFloat r) = fl r"
| "canonical fl (JStr s) = quoted s"
| "canonical fl (JList xs) = ''['' @ join '','' (map (canonical fl) xs) @ '']''"
| "canonical fl (JObj kvs) =
     ''{'' @ join '','' (map (\<lambda>(k, t). quoted k @ '':'' @ t)
                          (sort_key fst (map (\<lambda>kv. (fst kv, canonical fl (snd kv))) kvs))) @ ''}''"

text \<open>The order in which a dictionary was filled does not show in its text.\<close>

lemma canonical_key_order:
  assumes "mset kvs = mset kvs'" "distinct (map fst kvs)"
  shows "canonical fl (JObj kvs) = canonical fl (JObj kvs')"
proof -
  let ?f = "\<lambda>kv. (fst kv, canonical fl (snd kv))"
  have same_keys: "distinct (map fst xs) = distinct (map fst ys)" if "mset xs = mset ys"
    for xs ys :: "(string \<times> 'v) list"
  proof -
    have "mset (map fst xs) = mset (map fst ys)" unfolding mset_map that ..
    then show ?thesis by (rule mset_eq_imp_distinct_iff)
  qed
  have eq: "mset (map ?f kvs) = mset (map ?f kvs')" unfolding mset_map assms(1) ..
  have dist: "distinct (map fst (map ?f kvs))" using assms(2) by (simp add: comp_def)
  let ?s = "sort_key fst (map ?f kvs)" and ?s' = "sort_key fst (map ?f kvs')"
  have m: "mset ?s = mset (map ?f kvs)" "mset ?s' = mset (map ?f kvs)" unfolding mset_sort eq by (rule refl)+
  have d: "distinct (map fst ?s)" "distinct (map fst ?s')"
    using dist same_keys [OF m(1)] same_keys [OF m(2)] by blast+
  have sets: "set ?s = set (map ?f kvs)" "set ?s' = set (map ?f kvs)"
    using m mset_eq_setD by blast+
  have inj: "inj_on fst (set (map ?f kvs))" using dist unfolding distinct_map by blast
  have "?s = ?s'"
    by (rule map_sorted_distinct_set_unique [of fst])
      (use inj d sets in \<open>simp_all only: Un_absorb sorted_sort_key\<close>)
  then show ?thesis by (simp only: canonical.simps)
qed

text \<open>
  \<open>d[k]\<close>, \<open>dict(x)\<close> and the iteration over a list, on values that came out of a JSON column.
\<close>

definition dict_item :: "json dict \<Rightarrow> string \<Rightarrow> py_exc + json" where
  "dict_item d k = (case map_of d k of None \<Rightarrow> Inl KeyError | Some v \<Rightarrow> Inr v)"

definition to_dict :: "json \<Rightarrow> py_exc + json dict" where
  "to_dict j = (case j of JObj d \<Rightarrow> Inr d | _ \<Rightarrow> Inl TypeError)"

definition to_list :: "json \<Rightarrow> py_exc + json list" where
  "to_list j = (case j of JList xs \<Rightarrow> Inr xs | _ \<Rightarrow> Inl TypeError)"

end
