(* ===== verification/TrustedGrading.thy ===== *)
theory TrustedGrading
  imports JsonText
begin

text \<open>
  The trusted evaluation of a submitted snapshot (\<open>services/interview/trusted_evaluator.py\<close> and the
  version and coverage tables of \<open>services/interview/trusted_cases\<close>): the observations of the sandbox
  are compared with the expectations outside of it, and the result is signed; \<open>verify_result\<close> is what
  a reader of a stored result checks. The case inventories, HMAC, SHA-256, \<open>json.loads\<close>, the sandbox
  that runs a probe, the remote broker and the check of the snapshot on disk are arguments.
\<close>

section \<open>Cases and the environment\<close>

record trusted_case =
  tc_id :: string
  tc_weight :: int
  tc_probe :: string
  tc_expected :: json

definition evaluator_version :: string where
  "evaluator_version = ''behavioral-2026-10-v5''"

definition manual_requirements :: "string \<Rightarrow> string list" where
  "manual_requirements slug =
     (case map_of
        [(''canvas-document-editor'', [''React rendered selection, dragging, history and save/reload'']),
         (''movie-search-routing'', [''React URL hydration, direct detail/404 and stale-response behavior'']),
         (''catalog-suggest-latency'', [''200ms latency under calibrated load'', ''scan instrumentation cannot be self-attested'']),
         (''notification-feed-stale'', [''React rendered badge matches store'']),
         (''workspace-label-propagation'', [''React screen displays persisted labels'']),
         (''pricing-rule-extract'', [''quote delegates to extracted applyRules; source review''])] slug of
        Some rs \<Rightarrow> rs | None \<Rightarrow> [])"

text \<open>A probe in the sandbox times out (\<open>None\<close>) or exits with a code and its output.\<close>

record grading_env =
  ge_float_repr :: "rat \<Rightarrow> string"
  ge_hmac :: "string \<Rightarrow> string \<Rightarrow> string"
  ge_sha256 :: "string \<Rightarrow> string"
  ge_loads :: "string \<Rightarrow> json option"
  ge_is_uuid :: "string \<Rightarrow> bool"
  ge_inventories :: "string \<Rightarrow> trusted_case list option"

abbreviation ge_canonical :: "grading_env \<Rightarrow> json \<Rightarrow> string" where
  "ge_canonical E \<equiv> canonical (ge_float_repr E)"

definition cases_for :: "grading_env \<Rightarrow> string \<Rightarrow> py_exc + trusted_case list" where
  "cases_for E slug = (case ge_inventories E slug of None \<Rightarrow> Inl ValueError | Some cs \<Rightarrow> Inr cs)"

definition inventory_digest :: "grading_env \<Rightarrow> string \<Rightarrow> py_exc + string" where
  "inventory_digest E slug =
     bind (cases_for E slug) (\<lambda>cs.
       Inr (ge_sha256 E (ge_canonical E (JObj
         [(''version'', JStr evaluator_version),
          (''cases'', JList (map (\<lambda>c. JObj [(''id'', JStr (tc_id c)), (''weight'', JInt (tc_weight c)),
              (''probe'', JStr (tc_probe c)), (''expected'', tc_expected c)]) cs)),
          (''manual'', JList (map JStr (manual_requirements slug)))]))))"

text \<open>What a result is bound to.\<close>

record grading_identity =
  gi_session_id :: string
  gi_job_id :: string
  gi_challenge_slug :: string
  gi_source_digest :: string
  gi_challenge_version :: string
  gi_lease_token :: string

section \<open>Signing and verifying\<close>

definition signing_key_bytes :: "string \<Rightarrow> py_exc + string" where
  "signing_key_bytes key = (if length key < 32 then Inl ValueError else Inr key)"

definition sign_result :: "grading_env \<Rightarrow> string \<Rightarrow> json \<Rightarrow> py_exc + json" where
  "sign_result E key payload =
     bind (signing_key_bytes key) (\<lambda>k.
       Inr (JObj [(''payload'', payload), (''signature'', JStr (ge_hmac E k (ge_canonical E payload)))]))"

definition is_ascii :: "string \<Rightarrow> bool" where
  "is_ascii s \<longleftrightarrow> list_all (\<lambda>c. (of_char c :: nat) < 128) s"

definition bindings :: "grading_identity \<Rightarrow> string \<Rightarrow> (string \<times> string) list" where
  "bindings ids inv_digest =
     [(''session_id'', gi_session_id ids), (''job_id'', gi_job_id ids), (''challenge_slug'', gi_challenge_slug ids),
      (''source_digest'', gi_source_digest ids), (''evaluator_version'', evaluator_version),
      (''inventory_digest'', inv_digest), (''challenge_version'', gi_challenge_version ids),
      (''lease_token'', gi_lease_token ids)]"

definition known_errors :: "json list" where
  "known_errors = [JNull, JStr ''invalid_output'', JStr ''timeout'', JStr ''candidate_error'']"

text \<open>The check of one case; the weight it earns.\<close>

definition verify_case :: "json \<Rightarrow> trusted_case \<Rightarrow> py_exc + int" where
  "verify_case result c =
     (case result of
        JObj r \<Rightarrow>
          (case (map_of r ''weight'', map_of r ''passed'') of
             (Some (JInt w), Some (JBool passed)) \<Rightarrow>
               if map_of r ''id'' \<noteq> Some (JStr (tc_id c)) \<or> w \<noteq> tc_weight c then Inl ValueError
               else if dict_get r ''error'' JNull \<notin> set known_errors then Inl ValueError
               else if passed \<and> dict_get r ''error'' JNull \<noteq> JNull then Inl ValueError
               else Inr (if passed then tc_weight c else 0)
           | _ \<Rightarrow> Inl ValueError)
      | _ \<Rightarrow> Inl ValueError)"

fun verify_cases :: "json list \<Rightarrow> trusted_case list \<Rightarrow> py_exc + int" where
  "verify_cases (r # rs) (c # cs) = bind (verify_case r c) (\<lambda>e. bind (verify_cases rs cs) (\<lambda>es. Inr (e + es)))"
| "verify_cases _ _ = Inr 0"

definition number_is :: "json option \<Rightarrow> rat \<Rightarrow> bool" where
  "number_is j x = (case j of Some (JInt i) \<Rightarrow> of_int i = x | Some (JFloat r) \<Rightarrow> r = x | _ \<Rightarrow> False)"

definition verify_result ::
  "grading_env \<Rightarrow> string \<Rightarrow> grading_identity \<Rightarrow> json \<Rightarrow> py_exc + json dict" where
  "verify_result E key ids envelope =
     (case envelope of
        JObj env \<Rightarrow>
          if set (map fst env) \<noteq> {''payload'', ''signature''} then Inl ValueError
          else (case (map_of env ''payload'', map_of env ''signature'') of
             (Some (JObj payload), Some (JStr signature)) \<Rightarrow>
               bind (signing_key_bytes key) (\<lambda>k.
               if \<not> is_ascii signature then Inl TypeError
               else if ge_hmac E k (ge_canonical E (JObj payload)) \<noteq> signature then Inl ValueError
               else bind (inventory_digest E (gi_challenge_slug ids)) (\<lambda>inv_digest.
               if list_ex (\<lambda>(k, v). map_of payload k \<noteq> Some (JStr v)) (bindings ids inv_digest) then Inl ValueError
               else bind (cases_for E (gi_challenge_slug ids)) (\<lambda>inventory.
                 case map_of payload ''cases'' of
                   Some (JList results) \<Rightarrow>
                     if length results \<noteq> length inventory then Inl ValueError
                     else bind (verify_cases results inventory) (\<lambda>earned.
                       let total_weight = sum_list (map tc_weight inventory) in
                       if map_of payload ''earned_weight'' \<noteq> Some (JInt earned) \<or>
                          map_of payload ''total_weight'' \<noteq> Some (JInt total_weight) then Inl ValueError
                       else bind (py_div (100 * of_int earned) (of_int total_weight)) (\<lambda>q.
                       if \<not> number_is (map_of payload ''score_percent'') (py_round 2 q) then Inl ValueError
                       else if dict_get payload ''manual_requirements'' JNull
                              \<noteq> JList (map JStr (manual_requirements (gi_challenge_slug ids))) then Inl ValueError
                       else if map_of payload ''complete'' \<noteq> Some (JBool True) then Inl ValueError
                       else Inr payload))
                 | _ \<Rightarrow> Inl ValueError)))
           | _ \<Rightarrow> Inl ValueError)
      | _ \<Rightarrow> Inl ValueError)"

section \<open>Observing and evaluating\<close>

definition max_output_bytes :: nat where "max_output_bytes = 65536"

definition observe_probe_result :: "grading_env \<Rightarrow> int \<Rightarrow> string \<Rightarrow> json \<times> string option" where
  "observe_probe_result E exit_code raw =
     (if exit_code \<noteq> 0 then (JNull, Some ''candidate_error'')
      else if length raw > max_output_bytes then (JNull, Some ''invalid_output'')
      else (case ge_loads E raw of
              None \<Rightarrow> (JNull, Some ''invalid_output'')
            | Some value \<Rightarrow>
                if length (ge_canonical E value) > max_output_bytes then (JNull, Some ''invalid_output'')
                else (value, None)))"

definition run_probe :: "grading_env \<Rightarrow> (string \<Rightarrow> (int \<times> string) option) \<Rightarrow> string \<Rightarrow> json \<times> string option" where
  "run_probe E sandbox probe =
     (case sandbox probe of
        None \<Rightarrow> (JNull, Some ''timeout'')
      | Some (exit_code, raw) \<Rightarrow> observe_probe_result E exit_code raw)"

text \<open>An item of the broker's answer.\<close>

definition remote_observation :: "json \<Rightarrow> trusted_case \<Rightarrow> py_exc + json \<times> json" where
  "remote_observation item c =
     (case item of
        JObj it \<Rightarrow>
          if set (map fst it) \<noteq> {''id'', ''observed'', ''error''} \<or> map_of it ''id'' \<noteq> Some (JStr (tc_id c)) \<or>
             dict_get it ''error'' JNull \<notin> set known_errors
          then Inl ValueError
          else Inr (dict_get it ''observed'' JNull, dict_get it ''error'' JNull)
      | _ \<Rightarrow> Inl ValueError)"

definition case_result :: "grading_env \<Rightarrow> trusted_case \<Rightarrow> json \<times> json \<Rightarrow> json \<times> int" where
  "case_result E c obs =
     (let passed = (snd obs = JNull \<and> ge_canonical E (fst obs) = ge_canonical E (tc_expected c)) in
      (JObj [(''id'', JStr (tc_id c)), (''weight'', JInt (tc_weight c)), (''passed'', JBool passed),
             (''error'', snd obs)],
       if passed then tc_weight c else 0))"

datatype observer = LocalSandbox "string \<Rightarrow> (int \<times> string) option" | RemoteBroker "json dict"

fun observe_cases ::
  "grading_env \<Rightarrow> (trusted_case \<Rightarrow> nat \<Rightarrow> py_exc + json \<times> json) \<Rightarrow> nat \<Rightarrow> trusted_case list \<Rightarrow>
    py_exc + (json \<times> int) list" where
  "observe_cases E obs i [] = Inr []"
| "observe_cases E obs i (c # cs) =
     bind (obs c i) (\<lambda>ob. bind (observe_cases E obs (Suc i) cs) (\<lambda>rs. Inr (case_result E c ob # rs)))"

definition observations ::
  "grading_env \<Rightarrow> string \<Rightarrow> trusted_case list \<Rightarrow> observer \<Rightarrow> py_exc + (trusted_case \<Rightarrow> nat \<Rightarrow> py_exc + json \<times> json)" where
  "observations E source_digest inventory observer =
     (case observer of
        LocalSandbox sandbox \<Rightarrow>
          Inr (\<lambda>c i. Inr (let (v, e) = run_probe E sandbox (tc_probe c)
                         in (v, case e of None \<Rightarrow> JNull | Some s \<Rightarrow> JStr s)))
      | RemoteBroker body \<Rightarrow>
          if map_of body ''digest'' \<noteq> Some (JStr source_digest) then Inl ValueError
          else (case map_of body ''observations'' of
             Some (JList remote) \<Rightarrow>
               if length remote \<noteq> length inventory then Inl ValueError
               else Inr (\<lambda>c i. remote_observation (remote ! i) c)
           | _ \<Rightarrow> Inl ValueError))"

definition result_payload ::
  "grading_identity \<Rightarrow> string \<Rightarrow> (json \<times> int) list \<Rightarrow> int \<Rightarrow> rat \<Rightarrow> json dict" where
  "result_payload ids inv_digest results total_weight q =
     [(''session_id'', JStr (gi_session_id ids)), (''job_id'', JStr (gi_job_id ids)),
      (''challenge_slug'', JStr (gi_challenge_slug ids)), (''source_digest'', JStr (gi_source_digest ids)),
      (''evaluator_version'', JStr evaluator_version), (''inventory_digest'', JStr inv_digest),
      (''cases'', JList (map fst results)), (''earned_weight'', JInt (sum_list (map snd results))),
      (''total_weight'', JInt total_weight),
      (''score_percent'', JFloat (py_round 2 q)), (''complete'', JBool True),
      (''manual_requirements'', JList (map JStr (manual_requirements (gi_challenge_slug ids)))),
      (''challenge_version'', JStr (gi_challenge_version ids)), (''lease_token'', JStr (gi_lease_token ids))]"

text \<open>\<open>intact\<close> says whether \<open>verify_snapshot\<close> accepts the source, before and after the probes.\<close>

definition evaluate_snapshot ::
  "grading_env \<Rightarrow> string \<Rightarrow> grading_identity \<Rightarrow> bool \<times> bool \<Rightarrow> observer \<Rightarrow> py_exc + json" where
  "evaluate_snapshot E key ids intact observer =
     bind (signing_key_bytes key) (\<lambda>_.
     if gi_challenge_version ids = [] \<or> gi_lease_token ids = [] \<or> length (gi_lease_token ids) > 256 then Inl ValueError
     else if \<not> ge_is_uuid E (gi_session_id ids) \<or> \<not> ge_is_uuid E (gi_job_id ids) then Inl ValueError
     else if \<not> fst intact then Inl ValueError
     else bind (cases_for E (gi_challenge_slug ids)) (\<lambda>inventory.
       bind (observations E (gi_source_digest ids) inventory observer) (\<lambda>obs.
       bind (observe_cases E obs 0 inventory) (\<lambda>results.
       if \<not> snd intact then Inl ValueError
       else (let earned = sum_list (map snd results); total_weight = sum_list (map tc_weight inventory) in
         bind (inventory_digest E (gi_challenge_slug ids)) (\<lambda>inv_digest.
         bind (py_div (100 * of_int earned) (of_int total_weight)) (\<lambda>q.
         sign_result E key (JObj (result_payload ids inv_digest results total_weight q)))))))))"

section \<open>A signed evaluation verifies\<close>

lemma observe_probe_result_error:
  "observe_probe_result E code raw = (v, e) \<Longrightarrow> e = None \<or> e = Some ''candidate_error'' \<or> e = Some ''invalid_output''"
  by (auto simp: observe_probe_result_def split: if_splits option.splits)

lemma run_probe_error:
  "run_probe E sandbox probe = (v, e) \<Longrightarrow> (case e of None \<Rightarrow> JNull | Some s \<Rightarrow> JStr s) \<in> set known_errors"
  by (auto simp: run_probe_def known_errors_def split: option.splits prod.splits dest!: observe_probe_result_error)

lemma remote_observation_known:
  assumes "remote_observation item c = Inr ob"
  shows "snd ob \<in> set known_errors"
proof -
  obtain it where it: "item = JObj it" using assms by (cases item) (simp_all add: remote_observation_def)
  have "dict_get it ''error'' JNull \<in> set known_errors" "snd ob = dict_get it ''error'' JNull"
    using assms unfolding remote_observation_def it json.case by (elim guard_InrE; force)+
  then show ?thesis by simp
qed

lemma observations_known:
  assumes "observations E dig inventory observer = Inr obs" "obs c i = Inr ob"
  shows "snd ob \<in> set known_errors"
proof (cases observer)
  case (LocalSandbox sandbox)
  then show ?thesis using assms run_probe_error
    by (auto simp: observations_def Let_def split: prod.splits)
next
  case (RemoteBroker body)
  then obtain remote where "obs = (\<lambda>c i. remote_observation (remote ! i) c)"
    using assms(1) by (auto simp: observations_def split: if_splits option.splits json.splits)
  then have "remote_observation (remote ! i) c = Inr ob" using assms(2) by simp
  then show ?thesis by (rule remote_observation_known)
qed

lemma verify_case_result:
  assumes "snd ob \<in> set known_errors"
  shows "verify_case (fst (case_result E c ob)) c = Inr (snd (case_result E c ob))"
  using assms by (simp add: verify_case_def case_result_def Let_def dict_get_def)

lemma observe_cases_verify:
  assumes "\<And>c i ob. obs c i = Inr ob \<Longrightarrow> snd ob \<in> set known_errors"
  shows "observe_cases E obs i cs = Inr results \<Longrightarrow>
    length results = length cs \<and> verify_cases (map fst results) cs = Inr (sum_list (map snd results))"
proof (induction cs arbitrary: i results)
  case Nil
  then show ?case by simp
next
  case (Cons c cs)
  obtain ob rs where ob: "obs c i = Inr ob" and rs: "observe_cases E obs (Suc i) cs = Inr rs"
    "results = case_result E c ob # rs"
    using Cons.prems by (auto simp: bind_Inr)
  show ?case using Cons.IH [OF rs(1)] verify_case_result [OF assms [OF ob]] by (simp add: rs(2))
qed

text \<open>The parts of an evaluation that succeeds.\<close>

lemma evaluate_snapshot_Inr:
  assumes "evaluate_snapshot E key ids intact observer = Inr envelope"
  obtains inventory obs results dig q where
    "signing_key_bytes key = Inr key" "cases_for E (gi_challenge_slug ids) = Inr inventory"
    "observations E (gi_source_digest ids) inventory observer = Inr obs"
    "observe_cases E obs 0 inventory = Inr results"
    "inventory_digest E (gi_challenge_slug ids) = Inr dig"
    "py_div (100 * of_int (sum_list (map snd results))) (of_int (sum_list (map tc_weight inventory))) = Inr q"
    "sign_result E key (JObj (result_payload ids dig results (sum_list (map tc_weight inventory)) q)) = Inr envelope"
proof -
  have key: "signing_key_bytes key = Inr k \<Longrightarrow> signing_key_bytes key = Inr key" for k
    by (auto simp: signing_key_bytes_def split: if_splits)
  show thesis
    using assms unfolding evaluate_snapshot_def Let_def
    by (elim bind_InrE guard_InrE) (rule that [OF key])
qed

lemma envelope_payload: "map_of [(''payload'', p), (''signature'', s)] ''payload'' = Some p"
  "map_of [(''payload'', p), (''signature'', s)] ''signature'' = Some s"
  "set (map fst [(''payload'', p), (''signature'', s)]) = {''payload'', ''signature''}"
  by simp_all

lemma result_payload_get:
  "map_of (result_payload ids dig results total_weight q) ''cases'' = Some (JList (map fst results))"
  "map_of (result_payload ids dig results total_weight q) ''earned_weight'' = Some (JInt (sum_list (map snd results)))"
  "map_of (result_payload ids dig results total_weight q) ''total_weight'' = Some (JInt total_weight)"
  "map_of (result_payload ids dig results total_weight q) ''score_percent'' = Some (JFloat (py_round 2 q))"
  "map_of (result_payload ids dig results total_weight q) ''complete'' = Some (JBool True)"
  "map_of (result_payload ids dig results total_weight q) ''manual_requirements''
     = Some (JList (map JStr (manual_requirements (gi_challenge_slug ids))))"
  "\<not> list_ex (\<lambda>(k, v). map_of (result_payload ids dig results total_weight q) k \<noteq> Some (JStr v)) (bindings ids dig)"
  by (simp_all add: result_payload_def bindings_def)

text \<open>
  C30: What the evaluator signs is what a reader accepts: the result of every evaluation that
  succeeds, local or through the broker, verifies under the same key for the same session, job,
  source, challenge version and lease, and the verified payload is the signed one.
\<close>

theorem evaluation_verifies:
  assumes "\<And>k m. is_ascii (ge_hmac E k m)"
    and "evaluate_snapshot E key ids intact observer = Inr envelope"
  shows "\<exists>payload signature. verify_result E key ids envelope = Inr payload \<and>
    envelope = JObj [(''payload'', JObj payload), (''signature'', JStr signature)]"
proof -
  obtain inventory obs results dig q where key: "signing_key_bytes key = Inr key"
    and inv: "cases_for E (gi_challenge_slug ids) = Inr inventory"
    and obs: "observations E (gi_source_digest ids) inventory observer = Inr obs"
    and res: "observe_cases E obs 0 inventory = Inr results"
    and dig: "inventory_digest E (gi_challenge_slug ids) = Inr dig"
    and q: "py_div (100 * of_int (sum_list (map snd results))) (of_int (sum_list (map tc_weight inventory))) = Inr q"
    and sign: "sign_result E key (JObj (result_payload ids dig results (sum_list (map tc_weight inventory)) q)) = Inr envelope"
    using assms(2) by (rule evaluate_snapshot_Inr)
  let ?p = "result_payload ids dig results (sum_list (map tc_weight inventory)) q"
  have envelope: "envelope = JObj [(''payload'', JObj ?p), (''signature'', JStr (ge_hmac E key (ge_canonical E (JObj ?p))))]"
    using sign unfolding sign_result_def key by (simp only: bind_simps sum.inject)
  have known: "obs c i = Inr ob \<Longrightarrow> snd ob \<in> set known_errors" for c i ob
    by (rule observations_known [OF obs])
  have cases_ok: "length results = length inventory"
    "verify_cases (map fst results) inventory = Inr (sum_list (map snd results))"
    using observe_cases_verify [OF known res] by simp_all
  have "verify_result E key ids envelope = Inr ?p"
    unfolding envelope verify_result_def json.case envelope_payload option.case prod.case key bind_simps
      dig inv result_payload_get cases_ok Let_def q dict_get_def number_is_def
    using assms(1) result_payload_get(7) [of ids dig results "sum_list (map tc_weight inventory)" q]
    by (simp add: cases_ok q)
  then show ?thesis unfolding envelope by blast
qed

definition sample_grading_env :: grading_env where
  "sample_grading_env = \<lparr>ge_float_repr = (\<lambda>_. ''0.0''), ge_hmac = (\<lambda>k m. map (\<lambda>_. CHR ''a'') m),
     ge_sha256 = id, ge_loads = (\<lambda>s. if s = ''1'' then Some (JInt 1) else None), ge_is_uuid = (\<lambda>s. s \<noteq> []),
     ge_inventories = (\<lambda>slug. Some [\<lparr>tc_id = ''c1'', tc_weight = 2, tc_probe = ''p1'', tc_expected = JInt 1\<rparr>,
        \<lparr>tc_id = ''c2'', tc_weight = 1, tc_probe = ''p2'', tc_expected = JBool True\<rparr>])\<rparr>"

definition sample_identity :: grading_identity where
  "sample_identity = \<lparr>gi_session_id = ''s'', gi_job_id = ''j'', gi_challenge_slug = ''pricing-rule-extract'',
     gi_source_digest = ''d'', gi_challenge_version = ''1'', gi_lease_token = ''t''\<rparr>"

text \<open>The second probe answers \<open>1\<close> where \<open>True\<close> is expected.\<close>

theorem evaluation_verifies_witness:
  "\<exists>envelope payload. evaluate_snapshot sample_grading_env (replicate 32 CHR ''k'') sample_identity (True, True)
      (LocalSandbox (\<lambda>_. Some (0, ''1''))) = Inr envelope \<and>
    verify_result sample_grading_env (replicate 32 CHR ''k'') sample_identity envelope = Inr payload"
proof -
  let ?r = "evaluate_snapshot sample_grading_env (replicate 32 CHR ''k'') sample_identity (True, True)
      (LocalSandbox (\<lambda>_. Some (0, ''1'')))"
  have inv: "cases_for sample_grading_env slug = Inr (the (ge_inventories sample_grading_env slug))" for slug
    by (simp add: cases_for_def sample_grading_env_def)
  obtain dig where dig: "inventory_digest sample_grading_env (gi_challenge_slug sample_identity) = Inr dig"
    by (simp add: inventory_digest_def inv)
  have ids: "gi_challenge_version sample_identity \<noteq> []" "gi_lease_token sample_identity \<noteq> []"
    "\<not> 256 < length (gi_lease_token sample_identity)" "ge_is_uuid sample_grading_env (gi_session_id sample_identity)"
    "ge_is_uuid sample_grading_env (gi_job_id sample_identity)"
    by (simp_all add: sample_identity_def sample_grading_env_def)
  have cs: "the (ge_inventories sample_grading_env slug) =
      [\<lparr>tc_id = ''c1'', tc_weight = 2, tc_probe = ''p1'', tc_expected = JInt 1\<rparr>,
        \<lparr>tc_id = ''c2'', tc_weight = 1, tc_probe = ''p2'', tc_expected = JBool True\<rparr>]" for slug
    by (simp add: sample_grading_env_def)
  have "\<not> isl ?r"
    by (simp add: evaluate_snapshot_def signing_key_bytes_def dig inv cs ids observations_def Let_def sign_result_def
        del: canonical.simps)
  then obtain envelope where run: "?r = Inr envelope" by (cases ?r) simp_all
  have "is_ascii (ge_hmac sample_grading_env k m)" for k m
    by (simp add: sample_grading_env_def is_ascii_def list_all_iff)
  from evaluation_verifies [OF this run] run show ?thesis by blast
qed

end
