(* ===== verification/GradingQueue.thy ===== *)
theory GradingQueue
  imports TrustedGrading RetryJobs
begin

text \<open>
  The leased grading jobs of submitted interviews (\<open>backend/app/workers/interview_grading.py\<close>): a
  claim gives a job to one worker under a fresh token for a bounded time, a result is published only
  by the worker whose lease still holds, a failed attempt goes back to the queue until the attempts
  are spent. Each function is one transaction; the session row that \<open>finish_job\<close> locks is not changed
  by it. Rows created at the same instant are claimed in table order.
\<close>

section \<open>The rows\<close>

datatype grading_status = GradingQueued | GradingRunning | GradingCompleted | GradingFailed

record grading_job =
  gj_id :: string
  gj_session_id :: string
  gj_source_digest :: string
  gj_snapshot_path :: string
  gj_snapshot_key :: "string option"
  gj_challenge_slug :: string
  gj_challenge_version :: string
  gj_status :: grading_status
  gj_attempts :: int
  gj_max_attempts :: int
  gj_lease_token :: "string option"
  gj_lease_expires_at :: "time option"
  gj_available_at :: time
  gj_created_at :: time
  gj_started_at :: "time option"
  gj_finished_at :: "time option"
  gj_last_error :: "string option"
  gj_result :: "json option"

text \<open>The evaluation row of a session; a null \<open>metrics\<close> column reads as the empty dictionary.\<close>

record interview_evaluation =
  ie_session_id :: string
  ie_metrics :: "json dict"
  ie_defend_questions :: "json list"
  ie_scoring_version :: string

record grading_db =
  gd_jobs :: "grading_job list"
  gd_evaluations :: "interview_evaluation list"

abbreviation get_grading_job :: "grading_db \<Rightarrow> string \<Rightarrow> grading_job option" where
  "get_grading_job db i \<equiv> row_get gj_id i (gd_jobs db)"

section \<open>Enqueue\<close>

definition submission_prefix :: "string \<Rightarrow> string \<Rightarrow> py_exc + string" where
  "submission_prefix session_id source_digest =
     (let session = strip session_id; digest = strip source_digest in
      if session = [] \<or> digest = [] \<or> list_ex (\<lambda>c. c = CHR ''/'' \<or> c = char_of (92::nat)) (session @ digest)
      then Inl ValueError
      else Inr (''submitted/'' @ session @ ''/'' @ digest))"

text \<open>The snapshot: its local path, digest and, on managed storage, its object key.\<close>

definition enqueue_grading_job ::
  "string \<Rightarrow> time \<Rightarrow> string \<Rightarrow> string \<Rightarrow> string \<Rightarrow> string \<times> string \<times> string option \<Rightarrow> grading_db \<Rightarrow>
    py_exc + grading_db \<times> grading_job" where
  "enqueue_grading_job new_id now session_id slug version snapshot db =
     (case snapshot of (path, digest, object_key) \<Rightarrow>
       (case find (\<lambda>j. gj_session_id j = session_id) (gd_jobs db) of
          Some existing \<Rightarrow> if gj_source_digest existing \<noteq> digest then Inl ValueError else Inr (db, existing)
        | None \<Rightarrow>
            bind (case object_key of
                Some k \<Rightarrow> if k = [] then submission_prefix session_id digest else Inr k
              | None \<Rightarrow> submission_prefix session_id digest) (\<lambda>key.
              let job = \<lparr>gj_id = new_id, gj_session_id = session_id, gj_source_digest = digest,
                    gj_snapshot_path = path, gj_snapshot_key = Some key, gj_challenge_slug = slug,
                    gj_challenge_version = version, gj_status = GradingQueued, gj_attempts = 0,
                    gj_max_attempts = 3, gj_lease_token = None, gj_lease_expires_at = None,
                    gj_available_at = now, gj_created_at = now, gj_started_at = None,
                    gj_finished_at = None, gj_last_error = None, gj_result = None\<rparr>
              in Inr (db\<lparr>gd_jobs := gd_jobs db @ [job]\<rparr>, job))))"

section \<open>Claim\<close>

definition lease_seconds :: "rat \<Rightarrow> rat" where
  "lease_seconds timeout = min (max (timeout * 2) (timeout + 120)) (timeout * 4)"

text \<open>The two sweeps before a claim: lost leases go back, spent jobs are closed.\<close>

definition expire_lease :: "time \<Rightarrow> grading_job \<Rightarrow> grading_job" where
  "expire_lease now j =
     (if gj_status j = GradingRunning \<and> (case gj_lease_expires_at j of Some x \<Rightarrow> x \<le> now | None \<Rightarrow> False)
      then j\<lparr>gj_status := GradingQueued, gj_lease_token := None, gj_lease_expires_at := None,
             gj_available_at := now, gj_last_error := Some ''Worker lease expired''\<rparr>
      else j)"

definition close_exhausted :: "time \<Rightarrow> grading_job \<Rightarrow> grading_job" where
  "close_exhausted now j =
     (if gj_status j = GradingQueued \<and> gj_attempts j \<ge> gj_max_attempts j
      then j\<lparr>gj_status := GradingFailed, gj_finished_at := Some now,
             gj_last_error := Some ''Grading retry limit reached''\<rparr>
      else j)"

definition grading_claimable :: "time \<Rightarrow> grading_job \<Rightarrow> bool" where
  "grading_claimable now j \<longleftrightarrow>
     gj_status j = GradingQueued \<and> gj_available_at j \<le> now \<and> gj_attempts j < gj_max_attempts j"

definition claim_grading_row :: "rat \<Rightarrow> time \<Rightarrow> string \<Rightarrow> grading_job \<Rightarrow> grading_job" where
  "claim_grading_row timeout now token j =
     j\<lparr>gj_status := GradingRunning, gj_lease_token := Some token,
       gj_lease_expires_at := Some (now + timedelta_seconds (lease_seconds timeout)),
       gj_started_at := Some now, gj_attempts := gj_attempts j + 1\<rparr>"

definition claim_next_grading_job ::
  "rat \<Rightarrow> time \<Rightarrow> string \<Rightarrow> grading_db \<Rightarrow> grading_db \<times> grading_job option" where
  "claim_next_grading_job timeout now token db =
     (let jobs = map (close_exhausted now \<circ> expire_lease now) (gd_jobs db) in
      case sort_key gj_created_at (filter (grading_claimable now) jobs) of
        [] \<Rightarrow> (db\<lparr>gd_jobs := jobs\<rparr>, None)
      | j # _ \<Rightarrow>
          (let jobs' = row_upd gj_id (gj_id j) (claim_grading_row timeout now token) jobs
           in (db\<lparr>gd_jobs := jobs'\<rparr>, row_get gj_id (gj_id j) jobs')))"

section \<open>Finish and fail\<close>

definition json_digest :: "grading_env \<Rightarrow> json \<Rightarrow> string" where
  "json_digest E v = ge_sha256 E (ge_canonical E v)"

text \<open>\<open>[e for e in items if e["kind"] not in kinds]\<close>\<close>

fun drop_kinds :: "string list \<Rightarrow> json list \<Rightarrow> py_exc + json list" where
  "drop_kinds kinds [] = Inr []"
| "drop_kinds kinds (e # es) =
     bind (to_dict e) (\<lambda>d. bind (dict_item d ''kind'') (\<lambda>k. bind (drop_kinds kinds es) (\<lambda>rest.
       Inr (if k \<in> set (map JStr kinds) then rest else e # rest))))"

definition evidence_item :: "string \<Rightarrow> string \<Rightarrow> string \<Rightarrow> json" where
  "evidence_item i kind digest = JObj [(''id'', JStr i), (''kind'', JStr kind), (''payload_digest'', JStr digest)]"

text \<open>The evidence packet after the verified result: one external evaluation, the new one.\<close>

definition record_evaluation :: "grading_env \<Rightarrow> string \<Rightarrow> json \<Rightarrow> json dict \<Rightarrow> py_exc + json dict" where
  "record_evaluation E job_id payload metrics =
     bind (dict_item metrics ''assessment'') (\<lambda>a. bind (to_dict a) (\<lambda>assessment.
     bind (dict_item assessment ''packet'') (\<lambda>p. bind (to_dict p) (\<lambda>packet.
     bind (dict_item packet ''evidence'') (\<lambda>ev. bind (to_list ev) (\<lambda>evidence.
     bind (drop_kinds [''external_evaluation''] evidence) (\<lambda>kept.
       let packet' = set_key ''evidence'' (JList (kept @ [evidence_item (''external:'' @ job_id)
                         ''external_evaluation'' (json_digest E payload)])) packet;
           assessment' = set_key ''execution_status'' (JStr ''completed'')
             (set_key ''packet_digest'' (JStr (json_digest E (JObj packet')))
               (set_key ''packet'' (JObj packet') assessment))
       in Inr (set_key ''assessment'' (JObj assessment') metrics))))))))"

definition job_identity :: "grading_job \<Rightarrow> grading_identity" where
  "job_identity j = \<lparr>gi_session_id = gj_session_id j, gi_job_id = gj_id j,
     gi_challenge_slug = gj_challenge_slug j, gi_source_digest = gj_source_digest j,
     gi_challenge_version = gj_challenge_version j,
     gi_lease_token = (case gj_lease_token j of Some t \<Rightarrow> t | None \<Rightarrow> [])\<rparr>"

definition holds_lease :: "time \<Rightarrow> grading_job \<Rightarrow> grading_job \<Rightarrow> bool" where
  "holds_lease now job r \<longleftrightarrow>
     gj_id r = gj_id job \<and> gj_status r = GradingRunning \<and> gj_lease_token r = gj_lease_token job \<and>
     (case gj_lease_expires_at r of Some x \<Rightarrow> x > now | None \<Rightarrow> False)"

definition publish_row :: "time \<Rightarrow> json \<Rightarrow> grading_job \<Rightarrow> grading_job" where
  "publish_row now envelope r =
     r\<lparr>gj_status := GradingCompleted, gj_result := Some envelope, gj_finished_at := Some now,
       gj_last_error := None, gj_lease_expires_at := None\<rparr>"

definition finish_grading_job ::
  "grading_env \<Rightarrow> string \<Rightarrow> time \<Rightarrow> grading_job \<Rightarrow> json \<Rightarrow> grading_db \<Rightarrow> py_exc + grading_db \<times> bool" where
  "finish_grading_job E key now job envelope db =
     bind (verify_result E key (job_identity job) envelope) (\<lambda>payload.
     if \<not> list_ex (holds_lease now job) (gd_jobs db) then Inr (db, False)
     else (case row_get ie_session_id (gj_session_id job) (gd_evaluations db) of
        None \<Rightarrow> Inl NoResultFound
      | Some evaluation \<Rightarrow>
          bind (record_evaluation E (gj_id job) (JObj payload) (ie_metrics evaluation)) (\<lambda>metrics.
            Inr (db\<lparr>gd_jobs := map (\<lambda>r. if holds_lease now job r then publish_row now envelope r else r) (gd_jobs db),
                   gd_evaluations := row_upd ie_session_id (gj_session_id job)
                     (\<lambda>e. e\<lparr>ie_metrics := metrics\<rparr>) (gd_evaluations db)\<rparr>, True))))"

definition fail_grading_row :: "time \<Rightarrow> grading_job \<Rightarrow> grading_job \<Rightarrow> grading_job" where
  "fail_grading_row now job r =
     r\<lparr>gj_status := (if gj_attempts job \<ge> gj_max_attempts job then GradingFailed else GradingQueued),
       gj_available_at := now + seconds (min 60 (5 * 2 ^ nat (gj_attempts job))),
       gj_finished_at := (if gj_attempts job \<ge> gj_max_attempts job then Some now else None),
       gj_last_error := Some ''Trusted evaluation unavailable; no grade was issued'',
       gj_lease_token := None, gj_lease_expires_at := None\<rparr>"

definition fail_grading_job :: "time \<Rightarrow> grading_job \<Rightarrow> grading_db \<Rightarrow> grading_db" where
  "fail_grading_job now job db =
     db\<lparr>gd_jobs := map (\<lambda>r. if gj_id r = gj_id job \<and> gj_status r = GradingRunning \<and>
                              gj_lease_token r = gj_lease_token job
                           then fail_grading_row now job r else r) (gd_jobs db)\<rparr>"

section \<open>One round of the worker\<close>

record worker_settings =
  ws_job_timeout_seconds :: rat
  ws_signing_key :: string
  ws_execution_broker_url :: string
  ws_execution_backend :: string
  ws_sandbox_executor_url :: string
  ws_sandbox_executor_token :: string

definition in_process_execution :: "worker_settings \<Rightarrow> bool" where
  "in_process_execution S \<longleftrightarrow>
     ws_execution_broker_url S \<noteq> [] \<or> to_lower (strip (ws_execution_backend S)) = ''modal''"

text \<open>
  What the attempt meets: the registry's version of the challenge, whether the stored source can be
  resolved and is intact, the observer of the probes, and the answer of a remote executor
  (\<open>None\<close> when the request fails).
\<close>

record attempt_env =
  at_current_version :: string
  at_source :: "(bool \<times> bool) option"
  at_observer :: observer
  at_remote :: "json option"

definition execute_grading :: "grading_env \<Rightarrow> worker_settings \<Rightarrow> attempt_env \<Rightarrow> grading_job \<Rightarrow> py_exc + json" where
  "execute_grading E S A job =
     (if in_process_execution S
      then if gj_challenge_version job \<noteq> at_current_version A then Inl ValueError
           else (case at_source A of
              None \<Rightarrow> Inl ValueError
            | Some intact \<Rightarrow> evaluate_snapshot E (ws_signing_key S) (job_identity job) intact (at_observer A))
      else if ws_signing_key S = [] \<or> ws_sandbox_executor_url S = [] \<or> ws_sandbox_executor_token S = [] then Inl ValueError
      else (case at_remote A of
         None \<Rightarrow> Inl ValueError
       | Some envelope \<Rightarrow>
           bind (verify_result E (ws_signing_key S) (job_identity job) envelope) (\<lambda>_. Inr envelope)))"

text \<open>
  How the awaited attempt ends: in time or not, or the worker is cancelled. The clock is read for
  the claim and again when the attempt has ended.
\<close>

datatype attempt_end = AttemptEnded | AttemptTimedOut | AttemptCancelled

definition process_one_grading_job ::
  "grading_env \<Rightarrow> worker_settings \<Rightarrow> attempt_env \<Rightarrow> attempt_end \<Rightarrow> string \<Rightarrow> time \<Rightarrow> time \<Rightarrow> grading_db \<Rightarrow>
    grading_db \<times> bool" where
  "process_one_grading_job E S A end_of token t0 t1 db =
     (case claim_next_grading_job (ws_job_timeout_seconds S) t0 token db of
        (db1, None) \<Rightarrow> (db1, False)
      | (db1, Some job) \<Rightarrow>
          (case end_of of
             AttemptCancelled \<Rightarrow> (db1, True)
           | AttemptTimedOut \<Rightarrow> (fail_grading_job t1 job db1, True)
           | AttemptEnded \<Rightarrow>
               (case bind (execute_grading E S A job) (\<lambda>envelope.
                       finish_grading_job E (ws_signing_key S) t1 job envelope db1) of
                  Inl _ \<Rightarrow> (fail_grading_job t1 job db1, True)
                | Inr (db2, _) \<Rightarrow> (db2, True))))"

section \<open>What the operations do to a row\<close>

lemma sweep_frame [simp]:
  "gj_id (close_exhausted now (expire_lease now' j)) = gj_id j"
  "gj_attempts (close_exhausted now (expire_lease now' j)) = gj_attempts j"
  "gj_max_attempts (close_exhausted now (expire_lease now' j)) = gj_max_attempts j"
  by (simp_all add: close_exhausted_def expire_lease_def)

lemma claim_row_frame [simp]:
  "gj_id (claim_grading_row tm now tok j) = gj_id j"
  "gj_attempts (claim_grading_row tm now tok j) = gj_attempts j + 1"
  "gj_max_attempts (claim_grading_row tm now tok j) = gj_max_attempts j"
  "gj_lease_token (claim_grading_row tm now tok j) = Some tok"
  by (simp_all add: claim_grading_row_def)

definition swept :: "time \<Rightarrow> grading_db \<Rightarrow> grading_job list" where
  "swept now db = map (close_exhausted now \<circ> expire_lease now) (gd_jobs db)"

lemma swept_get: "row_get gj_id i (swept now db) = map_option (close_exhausted now \<circ> expire_lease now) (get_grading_job db i)"
  unfolding swept_def by (rule row_get_map) simp

lemma swept_distinct: "keys_distinct gj_id (gd_jobs db) \<Longrightarrow> keys_distinct gj_id (swept now db)"
  by (simp add: keys_distinct_def swept_def comp_def)

lemma claim_none:
  assumes "claim_next_grading_job tm now tok db = (db', None)"
  shows "gd_jobs db' = swept now db"
proof (cases "sort_key gj_created_at (filter (grading_claimable now) (swept now db))")
  case Nil
  then show ?thesis using assms by (auto simp: claim_next_grading_job_def Let_def swept_def)
next
  case (Cons r rest)
  have r: "r \<in> set (swept now db)" using arg_cong [OF Cons, of set] by auto
  have "row_get gj_id (gj_id r) (row_upd gj_id (gj_id r) (claim_grading_row tm now tok) (swept now db)) = None"
    using assms Cons by (simp add: claim_next_grading_job_def Let_def swept_def)
  then have "row_get gj_id (gj_id r) (swept now db) = None" by (simp add: row_get_row_upd)
  then have "gj_id r \<notin> gj_id ` set (swept now db)" by (simp only: row_get_None_iff not_False_eq_True)
  with r show ?thesis by simp
qed

lemma claim_some:
  assumes "claim_next_grading_job tm now tok db = (db', Some j)" "keys_distinct gj_id (gd_jobs db)"
  obtains r where "r \<in> set (swept now db)" "grading_claimable now r" "j = claim_grading_row tm now tok r"
    "gd_jobs db' = row_upd gj_id (gj_id r) (claim_grading_row tm now tok) (swept now db)"
proof -
  obtain r rest where first: "sort_key gj_created_at (filter (grading_claimable now) (swept now db)) = r # rest"
    and db': "gd_jobs db' = row_upd gj_id (gj_id r) (claim_grading_row tm now tok) (swept now db)"
    and j: "row_get gj_id (gj_id r) (row_upd gj_id (gj_id r) (claim_grading_row tm now tok) (swept now db)) = Some j"
    using assms(1) by (auto simp: claim_next_grading_job_def Let_def swept_def split: list.splits)
  have r: "r \<in> set (swept now db)" "grading_claimable now r"
    using arg_cong [OF first, of set] by auto
  have "row_get gj_id (gj_id r) (swept now db) = Some r"
    using r(1) swept_distinct [OF assms(2)] by (rule row_get_mem [rotated])
  then have "j = claim_grading_row tm now tok r" using j by (simp add: row_get_row_upd)
  with r db' show thesis by (intro that)
qed

text \<open>A run of operations of any workers; the identifiers of the jobs that were claimed.\<close>

datatype grading_op = ClaimOp time string | FinishOp time grading_job json | FailOp time grading_job

definition grading_step ::
  "grading_env \<Rightarrow> string \<Rightarrow> rat \<Rightarrow> grading_op \<Rightarrow> grading_db \<Rightarrow> grading_db \<times> string list" where
  "grading_step E key tm op db =
     (case op of
        ClaimOp now tok \<Rightarrow>
          (case claim_next_grading_job tm now tok db of
             (db', None) \<Rightarrow> (db', []) | (db', Some j) \<Rightarrow> (db', [gj_id j]))
      | FinishOp now job envelope \<Rightarrow>
          (case finish_grading_job E key now job envelope db of Inl _ \<Rightarrow> (db, []) | Inr (db', _) \<Rightarrow> (db', []))
      | FailOp now job \<Rightarrow> (fail_grading_job now job db, []))"

fun run_grading ::
  "grading_env \<Rightarrow> string \<Rightarrow> rat \<Rightarrow> grading_op list \<Rightarrow> grading_db \<Rightarrow> grading_db \<times> string list" where
  "run_grading E key tm [] db = (db, [])"
| "run_grading E key tm (op # ops) db =
     (case grading_step E key tm op db of (db1, claimed1) \<Rightarrow>
       (case run_grading E key tm ops db1 of (db2, claimed2) \<Rightarrow> (db2, claimed1 @ claimed2)))"

text \<open>What a step may do to the row of a job: nothing, sweep, claim, publish or fail it.\<close>

inductive row_change :: "grading_op \<Rightarrow> bool \<Rightarrow> grading_job \<Rightarrow> grading_job \<Rightarrow> bool" where
  same: "row_change op False r r"
| sweep: "row_change (ClaimOp now tok) False r (close_exhausted now (expire_lease now r))"
| claim: "grading_claimable now (close_exhausted now (expire_lease now r)) \<Longrightarrow>
     row_change (ClaimOp now tok) True r (claim_grading_row tm now tok (close_exhausted now (expire_lease now r)))"
| publish: "holds_lease now job r \<Longrightarrow> row_change (FinishOp now job env) False r (publish_row now env r)"
| fail: "gj_id r = gj_id job \<Longrightarrow> gj_status r = GradingRunning \<Longrightarrow> gj_lease_token r = gj_lease_token job \<Longrightarrow>
     row_change (FailOp now job) False r (fail_grading_row now job r)"

inductive_cases row_changeE: "row_change op b r r'"

lemma row_change_frame:
  "row_change op b r r' \<Longrightarrow> gj_id r' = gj_id r \<and> gj_max_attempts r' = gj_max_attempts r \<and>
     gj_attempts r' = gj_attempts r + (if b then 1 else 0) \<and> (b \<longrightarrow> gj_attempts r < gj_max_attempts r)"
  by (induction rule: row_change.induct) (auto simp: publish_row_def fail_grading_row_def grading_claimable_def)

definition publish_if_held :: "time \<Rightarrow> grading_job \<Rightarrow> json \<Rightarrow> grading_job \<Rightarrow> grading_job" where
  "publish_if_held now job envelope r = (if holds_lease now job r then publish_row now envelope r else r)"

lemma publish_if_held_id [simp]: "gj_id (publish_if_held now job envelope r) = gj_id r"
  by (simp add: publish_if_held_def publish_row_def)

lemma finish_jobs:
  assumes "finish_grading_job E key now job envelope db = Inr (db', ok)"
  shows "gd_jobs db' = map (publish_if_held now job envelope) (gd_jobs db)"
    "ok \<longleftrightarrow> list_ex (holds_lease now job) (gd_jobs db)"
proof -
  obtain payload where rest: "(if \<not> list_ex (holds_lease now job) (gd_jobs db) then Inr (db, False)
     else (case row_get ie_session_id (gj_session_id job) (gd_evaluations db) of
        None \<Rightarrow> Inl NoResultFound
      | Some evaluation \<Rightarrow>
          bind (record_evaluation E (gj_id job) (JObj payload) (ie_metrics evaluation)) (\<lambda>metrics.
            Inr (db\<lparr>gd_jobs := map (\<lambda>r. if holds_lease now job r then publish_row now envelope r else r) (gd_jobs db),
                   gd_evaluations := row_upd ie_session_id (gj_session_id job)
                     (\<lambda>e. e\<lparr>ie_metrics := metrics\<rparr>) (gd_evaluations db)\<rparr>, True)))) = Inr (db', ok)"
    using assms unfolding finish_grading_job_def by (elim bind_InrE)
  have "gd_jobs db' = map (publish_if_held now job envelope) (gd_jobs db) \<and>
      (ok \<longleftrightarrow> list_ex (holds_lease now job) (gd_jobs db))"
  proof (cases "list_ex (holds_lease now job) (gd_jobs db)")
    case True
    with rest show ?thesis by (auto simp: publish_if_held_def [abs_def] split: option.splits elim!: bind_InrE)
  next
    case False
    then have "map (publish_if_held now job envelope) (gd_jobs db) = gd_jobs db"
      by (intro map_idI) (auto simp: publish_if_held_def list_ex_iff)
    with rest False show ?thesis by auto
  qed
  then show "gd_jobs db' = map (publish_if_held now job envelope) (gd_jobs db)"
    "ok \<longleftrightarrow> list_ex (holds_lease now job) (gd_jobs db)" by blast+
qed

definition fail_if_held :: "time \<Rightarrow> grading_job \<Rightarrow> grading_job \<Rightarrow> grading_job" where
  "fail_if_held now job r =
     (if gj_id r = gj_id job \<and> gj_status r = GradingRunning \<and> gj_lease_token r = gj_lease_token job
      then fail_grading_row now job r else r)"

lemma fail_if_held_id [simp]: "gj_id (fail_if_held now job r) = gj_id r"
  by (simp add: fail_if_held_def fail_grading_row_def)

lemma fail_jobs: "gd_jobs (fail_grading_job now job db) = map (fail_if_held now job) (gd_jobs db)"
  by (simp add: fail_grading_job_def fail_if_held_def [abs_def])

lemma map_jobs_row:
  fixes f :: "grading_job \<Rightarrow> grading_job"
  assumes "\<And>r. gj_id (f r) = gj_id r" "keys_distinct gj_id jobs" "row_get gj_id i jobs = Some r"
  shows "keys_distinct gj_id (map f jobs)" "row_get gj_id i (map f jobs) = Some (f r)"
  using assms row_get_map [of gj_id f i jobs] by (simp_all add: keys_distinct_def comp_def)

lemma grading_step_row:
  assumes "keys_distinct gj_id (gd_jobs db)" "get_grading_job db i = Some r"
    and "grading_step E key tm op db = (db', claimed)"
  shows "keys_distinct gj_id (gd_jobs db') \<and>
    (\<exists>r' b. get_grading_job db' i = Some r' \<and> row_change op b r r' \<and> claimed = (if b then [i] else filter (\<lambda>k. k \<noteq> i) claimed))"
proof (cases op)
  case (ClaimOp now tok)
  have sw: "row_get gj_id i (swept now db) = Some (close_exhausted now (expire_lease now r))"
    using assms(2) by (simp add: swept_get)
  obtain db1 c where c: "claim_next_grading_job tm now tok db = (db1, c)" by force
  show ?thesis
  proof (cases c)
    case None
    have jobs: "gd_jobs db' = swept now db" "claimed = []"
      using assms(3) ClaimOp c None claim_none [OF c [unfolded None]] by (auto simp: grading_step_def)
    have "row_change op False r (close_exhausted now (expire_lease now r))"
      unfolding ClaimOp by (rule row_change.sweep)
    then show ?thesis unfolding jobs using sw swept_distinct [OF assms(1)] by auto
  next
    case (Some j)
    obtain q where q: "q \<in> set (swept now db)" "grading_claimable now q" "j = claim_grading_row tm now tok q"
      "gd_jobs db1 = row_upd gj_id (gj_id q) (claim_grading_row tm now tok) (swept now db)"
      using claim_some [OF c [unfolded Some] assms(1)] .
    have step: "db' = db1" "claimed = [gj_id q]" using assms(3) ClaimOp c Some q(3) by (auto simp: grading_step_def)
    have dist: "keys_distinct gj_id (gd_jobs db')"
      unfolding step q(4) using swept_distinct [OF assms(1)] by (simp add: keys_distinct_row_upd)
    show ?thesis
    proof (cases "gj_id q = i")
      case True
      have "q = close_exhausted now (expire_lease now r)"
        using row_get_mem [OF swept_distinct [OF assms(1)] q(1)] sw True by simp
      then have "row_change op True r (claim_grading_row tm now tok q)"
        unfolding ClaimOp using q(2) by (simp add: row_change.claim)
      moreover have "get_grading_job db' i = Some (claim_grading_row tm now tok q)"
        using sw True \<open>q = _\<close> by (simp add: step q(4) row_get_row_upd)
      ultimately show ?thesis using dist step(2) True by auto
    next
      case False
      then have "get_grading_job db' i = Some (close_exhausted now (expire_lease now r))"
        using sw by (simp add: step q(4) row_get_row_upd)
      moreover have "row_change op False r (close_exhausted now (expire_lease now r))"
        unfolding ClaimOp by (rule row_change.sweep)
      ultimately show ?thesis using dist step(2) False by fastforce
    qed
  qed
next
  case (FinishOp now job env)
  have change: "row_change op False r (publish_if_held now job env r)"
    unfolding FinishOp publish_if_held_def using row_change.same row_change.publish by simp
  show ?thesis
  proof (cases "finish_grading_job E key now job env db")
    case (Inl e)
    then show ?thesis using assms FinishOp row_change.same [of op r] by (auto simp: grading_step_def)
  next
    case (Inr res)
    obtain db2 ok where res: "res = (db2, ok)" by (cases res)
    then have "db' = db2" "claimed = []" using assms(3) FinishOp Inr by (auto simp: grading_step_def)
    then show ?thesis
      using map_jobs_row [OF publish_if_held_id assms(1,2)] finish_jobs(1) [OF Inr [unfolded res]] change by auto
  qed
next
  case (FailOp now job)
  have change: "row_change op False r (fail_if_held now job r)"
    unfolding FailOp fail_if_held_def using row_change.same row_change.fail by simp
  have "db' = fail_grading_job now job db" "claimed = []" using assms(3) FailOp by (auto simp: grading_step_def)
  then show ?thesis using map_jobs_row [OF fail_if_held_id assms(1,2)] fail_jobs change by auto
qed

text \<open>A job's attempts count its claims.\<close>

lemma run_grading_attempts:
  "keys_distinct gj_id (gd_jobs db) \<Longrightarrow> get_grading_job db i = Some r \<Longrightarrow>
   run_grading E key tm ops db = (db', claimed) \<Longrightarrow>
   \<exists>r'. get_grading_job db' i = Some r' \<and> gj_max_attempts r' = gj_max_attempts r \<and>
     gj_attempts r' = gj_attempts r + int (count_list claimed i) \<and>
     (gj_attempts r \<le> gj_max_attempts r \<longrightarrow> gj_attempts r' \<le> gj_max_attempts r)"
proof (induction ops arbitrary: db r claimed)
  case Nil
  then show ?case by simp
next
  case (Cons op ops)
  obtain db1 c1 where step: "grading_step E key tm op db = (db1, c1)" by force
  obtain c2 where rest: "run_grading E key tm ops db1 = (db', c2)" and claimed: "claimed = c1 @ c2"
    using Cons.prems(3) step by (auto split: prod.splits)
  obtain r1 b where dist: "keys_distinct gj_id (gd_jobs db1)" and r1: "get_grading_job db1 i = Some r1"
    and change: "row_change op b r r1" and c1: "c1 = (if b then [i] else filter (\<lambda>k. k \<noteq> i) c1)"
    using grading_step_row [OF Cons.prems(1,2) step] by blast
  have "count_list c1 i = (if b then 1 else 0)"
    using c1 by (cases b) (simp, metis (mono_tags) count_notin filter_id_conv)
  with Cons.IH [OF dist r1 rest] row_change_frame [OF change] claimed show ?case by auto
qed

text \<open>A lease that is lost is lost for good: nobody gets an old token again.\<close>

definition uses_token :: "string \<Rightarrow> grading_op \<Rightarrow> bool" where
  "uses_token tok op = (case op of ClaimOp _ t \<Rightarrow> t = tok | _ \<Rightarrow> False)"

lemma row_change_token:
  "row_change op b r r' \<Longrightarrow> \<not> uses_token tok op \<Longrightarrow> gj_lease_token r \<noteq> Some tok \<Longrightarrow> gj_lease_token r' \<noteq> Some tok"
  by (induction rule: row_change.induct)
    (auto simp: uses_token_def publish_row_def fail_grading_row_def close_exhausted_def expire_lease_def)

lemma run_grading_token:
  "keys_distinct gj_id (gd_jobs db) \<Longrightarrow> get_grading_job db i = Some r \<Longrightarrow> gj_lease_token r \<noteq> Some tok \<Longrightarrow>
   list_all (\<lambda>op. \<not> uses_token tok op) ops \<Longrightarrow>
   \<exists>r'. get_grading_job (fst (run_grading E key tm ops db)) i = Some r' \<and> gj_lease_token r' \<noteq> Some tok \<and>
     keys_distinct gj_id (gd_jobs (fst (run_grading E key tm ops db)))"
proof (induction ops arbitrary: db r)
  case Nil
  then show ?case by simp
next
  case (Cons op ops)
  obtain db1 c1 where step: "grading_step E key tm op db = (db1, c1)" by force
  obtain r1 b where dist: "keys_distinct gj_id (gd_jobs db1)" and r1: "get_grading_job db1 i = Some r1"
    and change: "row_change op b r r1"
    using grading_step_row [OF Cons.prems(1,2) step] by blast
  have "gj_lease_token r1 \<noteq> Some tok"
    using row_change_token [OF change _ Cons.prems(3)] Cons.prems(4) by simp
  from Cons.IH [OF dist r1 this] Cons.prems(4) step show ?case by (auto split: prod.splits)
qed

lemma finish_not_held:
  assumes "\<not> list_ex (holds_lease now job) (gd_jobs db)"
  shows "case finish_grading_job E key now job envelope db of Inl _ \<Rightarrow> True | Inr (db', ok) \<Rightarrow> db' = db \<and> \<not> ok"
  using assms by (cases "verify_result E key (job_identity job) envelope") (simp_all add: finish_grading_job_def)

lemma fail_not_held:
  assumes "list_all (\<lambda>r. gj_id r = gj_id job \<longrightarrow> gj_lease_token r \<noteq> gj_lease_token job) (gd_jobs db)"
  shows "fail_grading_job now job db = db"
proof -
  have "map (fail_if_held now job) (gd_jobs db) = gd_jobs db"
    using assms by (intro map_idI) (auto simp: fail_if_held_def list_all_iff)
  then show ?thesis using fail_jobs [of now job db] by (simp add: fail_grading_job_def)
qed

text \<open>The row of a job also implements the shared contract of jobs with bounded retries.\<close>

definition fail_current :: "time \<Rightarrow> grading_job \<Rightarrow> grading_job" where
  "fail_current now j = fail_grading_row now j j"

interpretation grading: retry_job gj_attempts gj_max_attempts
  "\<lambda>j. gj_status j = GradingQueued" "\<lambda>t. claim_grading_row 60 t []" fail_current
  by unfold_locales (auto simp: claim_grading_row_def fail_current_def fail_grading_row_def)

section \<open>Properties\<close>


definition queued_job :: grading_job where
  "queued_job = \<lparr>gj_id = ''j'', gj_session_id = ''s'', gj_source_digest = ''d'', gj_snapshot_path = ''p'',
     gj_snapshot_key = None, gj_challenge_slug = ''c'', gj_challenge_version = ''1'', gj_status = GradingQueued,
     gj_attempts = 0, gj_max_attempts = 3, gj_lease_token = None, gj_lease_expires_at = None,
     gj_available_at = 0, gj_created_at = 0, gj_started_at = None, gj_finished_at = None,
     gj_last_error = None, gj_result = None\<rparr>"

definition queued_db :: grading_db where
  "queued_db = \<lparr>gd_jobs = [queued_job], gd_evaluations = []\<rparr>"

lemma queued_db_row: "keys_distinct gj_id (gd_jobs queued_db)" "get_grading_job queued_db ''j'' = Some queued_job"
  by (simp_all add: queued_db_def keys_distinct_def queued_job_def)


text \<open>
  C4: A worker that has lost its lease cannot publish. From the moment the row of its job no longer
  carries its token, whatever happens next, its result is never stored, and its report of a failure
  does not touch the job, whoever works on it by then.
\<close>

theorem stale_worker_cannot_publish:
  assumes "keys_distinct gj_id (gd_jobs db)" "get_grading_job db (gj_id job) = Some r"
    and "gj_lease_token job = Some tok" "gj_lease_token r \<noteq> Some tok"
    and "list_all (\<lambda>op. \<not> uses_token tok op) ops"
    and "later = fst (run_grading E key tm ops db)"
  shows "(case finish_grading_job E key now job envelope later of Inl _ \<Rightarrow> True | Inr (db', ok) \<Rightarrow> db' = later \<and> \<not> ok) \<and>
    fail_grading_job now job later = later"
proof -
  obtain r' where r': "get_grading_job later (gj_id job) = Some r'" "gj_lease_token r' \<noteq> Some tok"
    and dist: "keys_distinct gj_id (gd_jobs later)"
    using run_grading_token [OF assms(1,2,4,5)] assms(6) by blast
  have not_held: "gj_lease_token x \<noteq> gj_lease_token job" if "x \<in> set (gd_jobs later)" "gj_id x = gj_id job" for x
    using row_get_mem [OF dist that(1)] that(2) r' assms(3) by simp
  then have "\<not> list_ex (holds_lease now job) (gd_jobs later)"
    by (auto simp: list_ex_iff holds_lease_def)
  moreover have "list_all (\<lambda>r. gj_id r = gj_id job \<longrightarrow> gj_lease_token r \<noteq> gj_lease_token job) (gd_jobs later)"
    using not_held by (simp add: list_all_iff)
  ultimately show ?thesis using finish_not_held fail_not_held by blast
qed

text \<open>Worker \<open>a\<close> still runs when its lease has run out and the job is claimed under token \<open>b\<close>.\<close>

theorem stale_worker_cannot_publish_witness:
  "fail_grading_job (seconds 500) (claim_grading_row 60 0 ''a'' queued_job)
     (fst (run_grading sample_grading_env [] 60 [ClaimOp (seconds 300) ''b''] queued_db))
   = fst (run_grading sample_grading_env [] 60 [ClaimOp (seconds 300) ''b''] queued_db)"
  using stale_worker_cannot_publish [OF queued_db_row(1), of "claim_grading_row 60 0 ''a'' queued_job" queued_job "''a''"
      "[ClaimOp (seconds 300) ''b'']"] queued_db_row(2)
  by (simp add: uses_token_def queued_job_def)

end
