(* ===== verification/Assessment.thy ===== *)
theory Assessment
  imports GradingQueue
begin

text \<open>
  The evidence-bound practice review (\<open>backend/app/services/interview/grading.py\<close>): the pending
  assessment with its evidence packet, the revision after new defense answers, and the score of a
  human review. The wording of the anchors is an argument; the identifiers of evidence items are
  strings. A request body that pydantic has accepted satisfies \<open>valid_dimension_review\<close>.
\<close>

section \<open>The rubric\<close>

definition rubric_version :: string where
  "rubric_version = ''v4-research-pilot''"

definition dimensions :: "(string \<times> string \<times> int) list" where
  "dimensions =
     [(''A_correctness'', ''Functional correctness'', 30),
      (''B_investigation'', ''Problem framing and codebase investigation'', 15),
      (''C_fix_quality'', ''Implementation quality'', 15),
      (''D_ai_leverage'', ''AI judgment and oversight'', 10),
      (''E_verification'', ''Verification and regression protection'', 20),
      (''F_communication'', ''Explanation and ownership'', 10)]"

definition applicable_dimensions :: "bool \<Rightarrow> string list" where
  "applicable_dimensions ai_available = filter (\<lambda>k. ai_available \<or> k \<noteq> ''D_ai_leverage'') (map fst dimensions)"

record rubric_texts =
  rt_anchors :: json
  rt_dimension_anchors :: json

definition public_rubric :: "rubric_texts \<Rightarrow> bool \<Rightarrow> json dict" where
  "public_rubric T auto_enabled =
     [(''version'', JStr rubric_version), (''status'', JStr ''research_informed_pilot''),
      (''grading_mode'', JStr (if auto_enabled then ''automated_ai'' else ''human_review'')),
      (''notice'', JStr ((if auto_enabled then ''Automated AI practice rubric; not a validated hiring assessment. ''
                          else ''Human-reviewed practice rubric; not a validated hiring assessment. '') @
         ''Test results are separate. Optional discussion is ungraded. '' @
         ''Prompt count, model brand and verbosity do not earn points.'')),
      (''dimensions'', JObj (map (\<lambda>(key, label, weight). (key, JObj [(''label'', JStr label), (''weight'', JInt weight),
         (''anchors'', case json_get (rt_dimension_anchors T) key of Some a \<Rightarrow> a | None \<Rightarrow> JNull)])) dimensions))]"

section \<open>The pending assessment\<close>

definition event_payload :: "json dict \<Rightarrow> json" where
  "event_payload event = py_or (dict_get event ''payload'' JNull) (JObj [])"

fun event_evidence :: "grading_env \<Rightarrow> (json \<Rightarrow> string) \<Rightarrow> nat \<Rightarrow> json dict list \<Rightarrow> json list" where
  "event_evidence E py_repr i [] = []"
| "event_evidence E py_repr i (event # events) =
     JObj [(''id'', JStr (''event:'' @ py_str py_repr (py_or (dict_get event ''id'' JNull) (JInt (int i))))),
           (''kind'', JStr ''session_observation''),
           (''event_type'', JStr (py_str py_repr (py_or (dict_get event ''event_type'' JNull) (JStr [])))),
           (''payload_digest'', JStr (json_digest E (event_payload event)))]
     # event_evidence E py_repr (Suc i) events"

definition statement_evidence :: "grading_env \<Rightarrow> json dict \<Rightarrow> json list" where
  "statement_evidence E answers =
     map (\<lambda>(index, answer). evidence_item (''defend:'' @ index) ''candidate_statement'' (json_digest E answer))
       (sort_key fst answers)"

text \<open>A refused or failed request is no opportunity; the search stops at the first response.\<close>

fun ai_response_observed :: "json dict list \<Rightarrow> py_exc + bool" where
  "ai_response_observed [] = Inr False"
| "ai_response_observed (event # events) =
     (if map_of event ''event_type'' = Some (JStr ''ai_response'')
      then bind (as_dict (event_payload event)) (\<lambda>payload.
             if dict_get payload ''provider'' JNull \<noteq> JStr ''guardrail'' then Inr True
             else ai_response_observed events)
      else ai_response_observed events)"

definition pending_assessment ::
  "grading_env \<Rightarrow> (json \<Rightarrow> string) \<Rightarrow> rubric_texts \<Rightarrow> string \<Rightarrow> string \<Rightarrow> string option \<Rightarrow> json dict list \<Rightarrow> json \<Rightarrow>
    json dict \<Rightarrow> py_exc + json dict" where
  "pending_assessment E py_repr T session_id slug version events test_summary defend_answers =
     bind (ai_response_observed events) (\<lambda>ai_available.
       let evidence = event_evidence E py_repr 0 events @
             [evidence_item ''execution:submit'' ''advisory_execution'' (json_digest E test_summary)] @
             statement_evidence E defend_answers;
           ai_context = JObj [(''permitted'', JBool True), (''required'', JBool False),
             (''prompt_observed'', JBool (list_ex (\<lambda>e. map_of e ''event_type'' = Some (JStr ''ai_prompt'')) events)),
             (''response_observed'', JBool ai_available),
             (''availability'', JStr (if ai_available then ''observed'' else ''unknown'')),
             (''assessment_mode'', JStr (if ai_available then ''ai_observed'' else ''ai_not_observed''))];
           packet = [(''session_id'', JStr session_id), (''challenge_slug'', JStr slug),
             (''challenge_version'', json_opt JStr version), (''rubric_version'', JStr rubric_version),
             (''ai_available'', JBool ai_available), (''ai_context'', ai_context), (''evidence'', JList evidence)]
       in Inr [(''rubric_version'', JStr rubric_version), (''status'', JStr ''pending_review''),
               (''total_score'', JNull), (''authoritative'', JBool False),
               (''notice'', JStr ''Not assessed. Activity and practice test output do not establish a grade.''),
               (''packet'', JObj packet), (''packet_digest'', JStr (json_digest E (JObj packet))),
               (''dimensions'', JObj (map (\<lambda>(key, label, weight). (key, JObj [(''label'', JStr label),
                  (''weight'', JInt weight), (''rating'', JNull),
                  (''status'', JStr (if key = ''D_ai_leverage'' \<and> \<not> ai_available then ''not_applicable''
                                    else ''not_assessed''))])) dimensions)),
               (''anchors'', rt_anchors T), (''dimension_anchors'', rt_dimension_anchors T), (''ai_context'', ai_context)])"

definition revise_defense :: "grading_env \<Rightarrow> json dict \<Rightarrow> json dict \<Rightarrow> py_exc + json dict" where
  "revise_defense E assessment answers =
     bind (dict_item assessment ''packet'') (\<lambda>p. bind (to_dict p) (\<lambda>packet.
     bind (dict_item packet ''evidence'') (\<lambda>ev. bind (to_list ev) (\<lambda>evidence.
     bind (drop_kinds [''candidate_statement''] evidence) (\<lambda>kept.
       let packet' = set_key ''evidence'' (JList (kept @ statement_evidence E answers)) packet
       in Inr (set_key ''status'' (JStr ''pending_review'') (set_key ''total_score'' JNull
                (set_key ''packet_digest'' (JStr (json_digest E (JObj packet')))
                  (set_key ''packet'' (JObj packet') assessment)))))))))"

section \<open>The score of a review\<close>

record dimension_review =
  dr_rating :: int
  dr_rationale :: string
  dr_evidence_ids :: "string list"

definition valid_dimension_review :: "dimension_review \<Rightarrow> bool" where
  "valid_dimension_review d \<longleftrightarrow>
     0 \<le> dr_rating d \<and> dr_rating d \<le> 4 \<and> 20 \<le> length (dr_rationale d) \<and> length (dr_rationale d) \<le> 4000 \<and>
     1 \<le> length (dr_evidence_ids d) \<and> length (dr_evidence_ids d) \<le> 20"

record human_review =
  hr_reviewer_id :: string
  hr_packet_digest :: string
  hr_rubric_version :: string
  hr_dimensions :: "(string \<times> dimension_review) list"

text \<open>\<open>{item["id"]: item for item in packet["evidence"]}\<close>\<close>

fun evidence_index :: "json list \<Rightarrow> py_exc + (json \<times> json dict) list" where
  "evidence_index [] = Inr []"
| "evidence_index (item # items) =
     bind (to_dict item) (\<lambda>d. bind (dict_item d ''id'') (\<lambda>i. bind (evidence_index items) (\<lambda>rest.
       Inr ((i, d) # rest))))"

text \<open>Whether some cited item is of the kind; an item without a kind raises.\<close>

fun cites_kind :: "(json \<times> json dict) list \<Rightarrow> string \<Rightarrow> string list \<Rightarrow> py_exc + bool" where
  "cites_kind evidence kind [] = Inr False"
| "cites_kind evidence kind (i # ids) =
     (case map_of evidence (JStr i) of
        None \<Rightarrow> Inl KeyError
      | Some item \<Rightarrow>
          bind (dict_item item ''kind'') (\<lambda>k. if k = JStr kind then Inr True else cites_kind evidence kind ids))"

record review_totals =
  rv_dimensions :: "json dict"
  rv_weighted :: rat
  rv_denominator :: int

definition score_dimension ::
  "(json \<times> json dict) list \<Rightarrow> human_review \<Rightarrow> string \<times> string \<times> int \<Rightarrow> review_totals \<Rightarrow> py_exc + review_totals" where
  "score_dimension evidence review criterion acc =
     (case criterion of (key, label, weight) \<Rightarrow>
       (case map_of (hr_dimensions review) key of
          None \<Rightarrow> Inr (acc\<lparr>rv_dimensions := rv_dimensions acc @ [(key, JObj [(''label'', JStr label),
             (''weight'', JInt weight), (''rating'', JNull), (''status'', JStr ''not_applicable'')])]\<rparr>)
        | Some d \<Rightarrow>
            if \<not> distinct (dr_evidence_ids d) \<or> list_ex (\<lambda>i. map_of evidence (JStr i) = None) (dr_evidence_ids d)
            then Inl ValueError
            else bind (if key = ''A_correctness'' then cites_kind evidence ''external_evaluation'' (dr_evidence_ids d)
                       else Inr True) (\<lambda>cited.
              if \<not> cited then Inl ValueError
              else Inr \<lparr>rv_dimensions = rv_dimensions acc @ [(key, JObj [(''label'', JStr label),
                     (''weight'', JInt weight), (''status'', JStr ''reviewed''), (''rating'', JInt (dr_rating d)),
                     (''rationale'', JStr (dr_rationale d)), (''evidence_ids'', JList (map JStr (dr_evidence_ids d)))])],
                   rv_weighted = rv_weighted acc + of_int (weight * dr_rating d) / 4,
                   rv_denominator = rv_denominator acc + weight\<rparr>)))"

fun score_dimensions ::
  "(json \<times> json dict) list \<Rightarrow> human_review \<Rightarrow> (string \<times> string \<times> int) list \<Rightarrow> review_totals \<Rightarrow> py_exc + review_totals" where
  "score_dimensions evidence review [] acc = Inr acc"
| "score_dimensions evidence review (criterion # dims) acc =
     bind (score_dimension evidence review criterion acc) (score_dimensions evidence review dims)"

definition score_reviewed_assessment ::
  "grading_env \<Rightarrow> rubric_texts \<Rightarrow> json dict \<Rightarrow> human_review \<Rightarrow> py_exc + json dict" where
  "score_reviewed_assessment E T assessment review =
     bind (dict_item assessment ''packet'') (\<lambda>p. bind (as_dict p) (\<lambda>packet.
     if map_of packet ''rubric_version'' \<noteq> Some (JStr rubric_version) \<or>
        hr_rubric_version review \<noteq> rubric_version \<or>
        hr_packet_digest review \<noteq> json_digest E (JObj packet) \<or>
        map_of assessment ''packet_digest'' \<noteq> Some (JStr (hr_packet_digest review))
     then Inl ValueError
     else (let ai_available = truthy (dict_get packet ''ai_available'' JNull) in
       if set (map fst (hr_dimensions review)) \<noteq> set (applicable_dimensions ai_available) then Inl ValueError
       else bind (dict_item packet ''evidence'') (\<lambda>ev. bind (to_list ev) (\<lambda>items.
         bind (evidence_index items) (\<lambda>evidence.
         if \<not> distinct (map fst evidence) then Inl ValueError
         else bind (score_dimensions evidence review dimensions
                \<lparr>rv_dimensions = [], rv_weighted = 0, rv_denominator = 0\<rparr>) (\<lambda>tot.
           bind (py_div (100 * rv_weighted tot) (of_int (rv_denominator tot))) (\<lambda>q.
           Inr [(''rubric_version'', JStr rubric_version), (''status'', JStr ''reviewed_practice''),
                (''total_score'', JFloat (py_round 1 q)), (''applicable_weight'', JInt (rv_denominator tot)),
                (''authoritative'', JBool False), (''reviewer_id'', JStr (hr_reviewer_id review)),
                (''packet_digest'', JStr (hr_packet_digest review)), (''dimensions'', JObj (rv_dimensions tot)),
                (''dimension_anchors'', rt_dimension_anchors T),
                (''ai_context'', dict_get packet ''ai_context'' (JObj [])),
                (''comparison_notice'', if \<not> ai_available then JStr (''AI judgment was not observed. The adjusted total excludes that dimension '' @
                    ''and does not establish equivalent AI competence.'') else JNull),
                (''notice'', JStr ''Human-reviewed practice rating; not a validated hiring assessment.'')]))))))))"

section \<open>The score as a weighted mean\<close>

text \<open>The rated criteria with their weights, in the order of the rubric.\<close>

definition rated :: "human_review \<Rightarrow> (string \<times> string \<times> int) list \<Rightarrow> (int \<times> int) list" where
  "rated review dims =
     List.map_filter (\<lambda>(key, label, weight). map_option (\<lambda>d. (weight, dr_rating d)) (map_of (hr_dimensions review) key)) dims"

definition rating_sum :: "(int \<times> int) list \<Rightarrow> int" where
  "rating_sum xs = sum_list (map (\<lambda>(w, r). w * r) xs)"

definition weight_sum :: "(int \<times> int) list \<Rightarrow> int" where
  "weight_sum xs = sum_list (map fst xs)"

lemma rated_Nil [simp]: "rated review [] = []"
  by (simp add: rated_def)

lemma rated_Cons [simp]:
  "rated review ((key, label, weight) # dims) =
     (case map_of (hr_dimensions review) key of None \<Rightarrow> rated review dims
      | Some d \<Rightarrow> (weight, dr_rating d) # rated review dims)"
  by (simp add: rated_def split: option.split)

lemma sum_simps [simp]:
  "rating_sum [] = 0" "rating_sum ((w, r) # xs) = w * r + rating_sum xs"
  "weight_sum [] = 0" "weight_sum ((w, r) # xs) = w + weight_sum xs"
  by (simp_all add: rating_sum_def weight_sum_def)

lemma score_dimension_totals:
  "score_dimension evidence review (key, label, weight) acc = Inr tot \<Longrightarrow>
   rv_weighted tot = rv_weighted acc + of_int (rating_sum (rated review [(key, label, weight)])) / 4 \<and>
   rv_denominator tot = rv_denominator acc + weight_sum (rated review [(key, label, weight)])"
  by (cases "map_of (hr_dimensions review) key")
    (auto simp: score_dimension_def split: if_splits elim!: bind_InrE)

lemma score_dimensions_totals:
  "score_dimensions evidence review dims acc = Inr tot \<Longrightarrow>
   rv_weighted tot = rv_weighted acc + of_int (rating_sum (rated review dims)) / 4 \<and>
   rv_denominator tot = rv_denominator acc + weight_sum (rated review dims)"
proof (induction dims arbitrary: acc)
  case Nil
  then show ?case by simp
next
  case (Cons criterion dims)
  obtain key label weight where c: "criterion = (key, label, weight)" by (cases criterion)
  obtain acc1 where one: "score_dimension evidence review (key, label, weight) acc = Inr acc1"
    and rest: "score_dimensions evidence review dims acc1 = Inr tot"
    using Cons.prems c by (auto elim: bind_InrE)
  from Cons.IH [OF rest] score_dimension_totals [OF one] show ?case
    by (auto simp: c add_divide_distrib split: option.splits)
qed

text \<open>Ratings between zero and four with positive weights.\<close>

definition ratings_ok :: "(int \<times> int) list \<Rightarrow> bool" where
  "ratings_ok xs \<longleftrightarrow> list_all (\<lambda>(w, r). 0 < w \<and> 0 \<le> r \<and> r \<le> 4) xs"

lemma rating_sum_bounds: "ratings_ok xs \<Longrightarrow> 0 \<le> rating_sum xs \<and> rating_sum xs \<le> 4 * weight_sum xs"
proof (induction xs)
  case Nil
  then show ?case by simp
next
  case (Cons x xs)
  obtain w r where x: "x = (w, r)" by (cases x)
  have wr: "0 < w" "0 \<le> r" "r \<le> 4" and ok: "ratings_ok xs" using Cons.prems by (simp_all add: x ratings_ok_def)
  have "0 \<le> w * r" "w * r \<le> w * 4" using wr by simp_all
  then show ?case using Cons.IH [OF ok] unfolding x sum_simps by auto
qed

lemma rating_sum_full: "ratings_ok xs \<Longrightarrow> rating_sum xs = 4 * weight_sum xs \<longleftrightarrow> list_all (\<lambda>(w, r). r = 4) xs"
proof (induction xs)
  case Nil
  then show ?case by simp
next
  case (Cons x xs)
  obtain w r where x: "x = (w, r)" by (cases x)
  have wr: "0 < w" "0 \<le> r" "r \<le> 4" and ok: "ratings_ok xs" using Cons.prems by (simp_all add: x ratings_ok_def)
  have le: "w * r \<le> w * 4" using wr by simp
  have eq: "w * r = w * 4 \<longleftrightarrow> r = 4" using wr(1) by simp
  show ?case using Cons.IH [OF ok] rating_sum_bounds [OF ok] le eq by (auto simp: x)
qed

lemma rating_sum_zero: "ratings_ok xs \<Longrightarrow> rating_sum xs = 0 \<longleftrightarrow> list_all (\<lambda>(w, r). r = 0) xs"
proof (induction xs)
  case Nil
  then show ?case by simp
next
  case (Cons x xs)
  obtain w r where x: "x = (w, r)" by (cases x)
  have wr: "0 < w" "0 \<le> r" and ok: "ratings_ok xs" using Cons.prems by (simp_all add: x ratings_ok_def)
  have ge: "0 \<le> w * r" using wr by simp
  have eq: "w * r = 0 \<longleftrightarrow> r = 0" using wr(1) by simp
  show ?case using Cons.IH [OF ok] rating_sum_bounds [OF ok] ge eq by (auto simp: x)
qed

lemma rated_ok:
  assumes "list_all (\<lambda>(k, d). valid_dimension_review d) (hr_dimensions review)"
  shows "ratings_ok (rated review dimensions)"
proof -
  have "0 \<le> dr_rating d \<and> dr_rating d \<le> 4" if "map_of (hr_dimensions review) k = Some d" for k d
    using assms map_of_SomeD [OF that] by (auto simp: list_all_iff valid_dimension_review_def)
  then show ?thesis by (simp add: ratings_ok_def dimensions_def split: option.split)
qed

lemma weight_sum_le: "weight_sum (rated review dimensions) \<le> 100"
  by (simp add: dimensions_def split: option.split)

text \<open>The parts of a score that is given.\<close>

lemma score_reviewed_Inr:
  assumes "score_reviewed_assessment E T assessment review = Inr out"
  obtains packet evidence tot q where "map_of assessment ''packet'' = Some (JObj packet)"
    "set (map fst (hr_dimensions review)) = set (applicable_dimensions (truthy (dict_get packet ''ai_available'' JNull)))"
    "hr_packet_digest review = json_digest E (JObj packet)"
    "score_dimensions evidence review dimensions \<lparr>rv_dimensions = [], rv_weighted = 0, rv_denominator = 0\<rparr> = Inr tot"
    "py_div (100 * rv_weighted tot) (of_int (rv_denominator tot)) = Inr q"
    "map_of out ''total_score'' = Some (JFloat (py_round 1 q))"
    "map_of out ''packet_digest'' = Some (JStr (hr_packet_digest review))"
proof -
  obtain p packet where p: "dict_item assessment ''packet'' = Inr p" "as_dict p = Inr packet"
    and rest: "(if map_of packet ''rubric_version'' \<noteq> Some (JStr rubric_version) \<or>
        hr_rubric_version review \<noteq> rubric_version \<or>
        hr_packet_digest review \<noteq> json_digest E (JObj packet) \<or>
        map_of assessment ''packet_digest'' \<noteq> Some (JStr (hr_packet_digest review))
     then Inl ValueError else Inr ()) = Inr ()" and
    more: "\<not> (map_of packet ''rubric_version'' \<noteq> Some (JStr rubric_version) \<or>
        hr_rubric_version review \<noteq> rubric_version \<or>
        hr_packet_digest review \<noteq> json_digest E (JObj packet) \<or>
        map_of assessment ''packet_digest'' \<noteq> Some (JStr (hr_packet_digest review)))"
    using assms unfolding score_reviewed_assessment_def by (elim bind_InrE guard_InrE) simp
  have packet: "map_of assessment ''packet'' = Some (JObj packet)"
    using p by (auto simp: dict_item_def as_dict_def split: option.splits json.splits)
  show thesis
    using assms more unfolding score_reviewed_assessment_def p bind_simps Let_def
    by (elim bind_InrE guard_InrE) (rule that [OF packet]; force)
qed

text \<open>The rounded percentage of a weighted mean.\<close>

lemma percentage_extremes:
  assumes ok: "ratings_ok xs" and W: "weight_sum xs \<noteq> 0" "weight_sum xs \<le> 100"
    and q: "q = 25 * of_int (rating_sum xs) / of_int (weight_sum xs)"
  shows "0 \<le> py_round 1 q \<and> py_round 1 q \<le> 100"
    "py_round 1 q = 100 \<longleftrightarrow> list_all (\<lambda>(w, r). r = 4) xs"
    "py_round 1 q = 0 \<longleftrightarrow> list_all (\<lambda>(w, r). r = 0) xs"
proof -
  let ?W = "weight_sum xs" and ?S = "rating_sum xs"
  have S: "0 \<le> ?S" "?S \<le> 4 * ?W" using rating_sum_bounds [OF ok] by simp_all
  with W have W0: "0 < ?W" by simp
  have q0: "0 \<le> q" "q \<le> 100"
  proof -
    have le: "0 \<le> rat_of_int ?S" "rat_of_int ?S \<le> of_int (4 * ?W)" "0 < rat_of_int ?W"
      using S W0 by (simp_all only: of_int_0_le_iff of_int_le_iff of_int_0_less_iff)
    then show "0 \<le> q" unfolding q by simp
    have "25 * rat_of_int ?S \<le> 100 * of_int ?W" using le(2) by simp
    with le(3) show "q \<le> 100" unfolding q by (simp only: divide_le_eq if_True mult.commute)
  qed
  have err: "\<bar>py_round 1 q - q\<bar> \<le> 1 / 20" using py_round_error [of 1 q] by simp
  have ends: "py_round 1 0 = 0" "py_round 1 100 = 100" using py_round_of_int [of 1 100] by simp_all
  show "0 \<le> py_round 1 q \<and> py_round 1 q \<le> 100"
    using py_round_mono [OF q0(1), of 1] py_round_mono [OF q0(2), of 1] ends by simp
  show "py_round 1 q = 100 \<longleftrightarrow> list_all (\<lambda>(w, r). r = 4) xs"
  proof (cases "?S = 4 * ?W")
    case True
    then have "q = 100" using W0 unfolding q by simp
    with ends True rating_sum_full [OF ok] show ?thesis by simp
  next
    case False
    with S have "25 * ?S \<le> 100 * ?W - 25" by simp
    then have "rat_of_int (25 * ?S) \<le> of_int (100 * ?W - 25)" by (simp only: of_int_le_iff)
    then have "of_int (25 * ?S) / of_int ?W \<le> (of_int (100 * ?W - 25) / of_int ?W :: rat)"
      using W0 by (intro divide_right_mono) simp_all
    also have "\<dots> = 100 - 25 / of_int ?W" using W0 by (simp add: field_simps)
    also have "\<dots> \<le> 100 - 25 / 100" using W0 W(2) by (intro diff_left_mono divide_left_mono) simp_all
    finally have "q \<le> 100 - 1 / 4" unfolding q by simp
    with err have "py_round 1 q \<noteq> 100" by auto
    with False rating_sum_full [OF ok] show ?thesis by simp
  qed
  show "py_round 1 q = 0 \<longleftrightarrow> list_all (\<lambda>(w, r). r = 0) xs"
  proof (cases "?S = 0")
    case True
    then have "q = 0" unfolding q by simp
    with ends True rating_sum_zero [OF ok] show ?thesis by simp
  next
    case False
    with S have "1 \<le> ?S" by simp
    have "25 / 100 \<le> (25 * of_int 1 / of_int ?W :: rat)" using W0 W(2) by (simp add: field_simps)
    also have "\<dots> \<le> q" unfolding q using \<open>1 \<le> ?S\<close> W0 by (intro divide_right_mono mult_left_mono) simp_all
    finally have "1 / 4 \<le> q" by simp
    with err have "py_round 1 q \<noteq> 0" by auto
    with False rating_sum_zero [OF ok] show ?thesis by simp
  qed
qed

text \<open>
  The score of a review. When the reviewer's ratings are within the scale, a score that is given
  is the weighted mean of the applicable ratings as a percentage, rounded to one digit; it lies
  between 0 and 100, is 100 exactly when every applicable criterion has the top rating, and 0 exactly
  when every one has rating zero, so that rounding never turns a partial review into a full or an
  empty one.
\<close>

theorem review_score:
  assumes "score_reviewed_assessment E T assessment review = Inr out"
    and "list_all (\<lambda>(k, d). valid_dimension_review d) (hr_dimensions review)"
  defines "rs \<equiv> rated review dimensions"
  shows "\<exists>s. map_of out ''total_score'' = Some (JFloat s) \<and>
     s = py_round 1 (25 * of_int (rating_sum rs) / of_int (weight_sum rs)) \<and> 0 \<le> s \<and> s \<le> 100 \<and>
     (s = 100 \<longleftrightarrow> list_all (\<lambda>(w, r). r = 4) rs) \<and> (s = 0 \<longleftrightarrow> list_all (\<lambda>(w, r). r = 0) rs)"
proof -
  obtain packet evidence tot q where
    tot: "score_dimensions evidence review dimensions \<lparr>rv_dimensions = [], rv_weighted = 0, rv_denominator = 0\<rparr> = Inr tot"
    and q: "py_div (100 * rv_weighted tot) (of_int (rv_denominator tot)) = Inr q"
    and s: "map_of out ''total_score'' = Some (JFloat (py_round 1 q))"
    using assms(1) by (rule score_reviewed_Inr)
  have tot': "rv_weighted tot = of_int (rating_sum rs) / 4" "rv_denominator tot = weight_sum rs"
    using score_dimensions_totals [OF tot] by (simp_all add: rs_def)
  have "weight_sum rs \<noteq> 0" and q': "q = 25 * of_int (rating_sum rs) / of_int (weight_sum rs)"
    using q unfolding tot' by simp_all
  from percentage_extremes [OF rated_ok [OF assms(2), folded rs_def] this(1) _ q'] weight_sum_le [of review, folded rs_def]
  show ?thesis using s unfolding q' by blast
qed

definition sample_packet :: "json dict" where
  "sample_packet = [(''session_id'', JStr ''s''), (''rubric_version'', JStr rubric_version), (''ai_available'', JBool False),
     (''evidence'', JList [evidence_item ''defend:q1'' ''candidate_statement'' ''d1'',
                         evidence_item ''external:j'' ''external_evaluation'' ''d2''])]"

definition sample_reviewable :: "json dict" where
  "sample_reviewable = [(''packet'', JObj sample_packet),
     (''packet_digest'', JStr (json_digest sample_grading_env (JObj sample_packet)))]"

definition sample_review :: human_review where
  "sample_review = \<lparr>hr_reviewer_id = ''r'', hr_packet_digest = json_digest sample_grading_env (JObj sample_packet),
     hr_rubric_version = rubric_version,
     hr_dimensions = map (\<lambda>(k, r). (k, \<lparr>dr_rating = r, dr_rationale = replicate 20 CHR ''x'', dr_evidence_ids = [''external:j'']\<rparr>))
       [(''A_correctness'', 4), (''B_investigation'', 3), (''C_fix_quality'', 3), (''E_verification'', 3), (''F_communication'', 3)]\<rparr>"

lemma sample_review_scored:
  "\<exists>out. score_reviewed_assessment sample_grading_env \<lparr>rt_anchors = JNull, rt_dimension_anchors = JNull\<rparr>
           sample_reviewable sample_review = Inr out"
proof -
  have [simp]: "dict_item sample_reviewable ''packet'' = Inr (JObj sample_packet)" "as_dict (JObj sample_packet) = Inr sample_packet"
    "map_of sample_reviewable ''packet_digest'' = Some (JStr (json_digest sample_grading_env (JObj sample_packet)))"
    "map_of sample_packet ''rubric_version'' = Some (JStr rubric_version)"
    "dict_get sample_packet ''ai_available'' JNull = JBool False"
    "hr_packet_digest sample_review = json_digest sample_grading_env (JObj sample_packet)"
    "hr_rubric_version sample_review = rubric_version"
    by (simp_all add: sample_reviewable_def sample_packet_def sample_review_def dict_item_def as_dict_def dict_get_def)
  have dims: "set (map fst (hr_dimensions sample_review)) = set (applicable_dimensions (truthy (JBool False)))"
    by (simp add: sample_review_def applicable_dimensions_def dimensions_def)
  have ev: "dict_item sample_packet ''evidence'' = Inr (JList [evidence_item ''defend:q1'' ''candidate_statement'' ''d1'',
      evidence_item ''external:j'' ''external_evaluation'' ''d2''])"
    by (simp add: sample_packet_def dict_item_def)
  show ?thesis
    unfolding score_reviewed_assessment_def Let_def
    apply (simp add: dims ev to_list_def evidence_item_def to_dict_def del: canonical.simps)
    by (simp add: dict_item_def sample_review_def dimensions_def score_dimension_def applicable_dimensions_def)
qed

theorem review_score_witness:
  "\<exists>s. map_of (case score_reviewed_assessment sample_grading_env \<lparr>rt_anchors = JNull, rt_dimension_anchors = JNull\<rparr>
                       sample_reviewable sample_review of Inr out \<Rightarrow> out | Inl _ \<Rightarrow> []) ''total_score'' = Some (JFloat s) \<and>
     s = 833 / 10"
proof -
  obtain out where out: "score_reviewed_assessment sample_grading_env \<lparr>rt_anchors = JNull, rt_dimension_anchors = JNull\<rparr>
      sample_reviewable sample_review = Inr out" using sample_review_scored by blast
  have ok: "list_all (\<lambda>(k, d). valid_dimension_review d) (hr_dimensions sample_review)"
    by (simp add: sample_review_def valid_dimension_review_def)
  have rs: "rated sample_review dimensions = [(30, 4), (15, 3), (15, 3), (20, 3), (10, 3)]"
    by (simp add: sample_review_def dimensions_def)
  have "\<lfloor>2500 / 3 :: rat\<rfloor> = 833" by (rule floor_unique) simp_all
  then have "py_round 1 (250 / 3) = 833 / 10" by (simp add: py_round_def round_half_even_def Let_def)
  then show ?thesis using review_score [OF out ok] unfolding out rs by auto
qed

end
