(* ===== verification/GradingReview.thy ===== *)
theory GradingReview
  imports Assessment
begin

text \<open>
  The review service (\<open>services/interview/grading_review.py\<close>) and its routes
  (\<open>api/routes/interview_grading.py\<close>): the authenticated evidence a reviewer rates, the append-only
  reviews, what a candidate sees of them in a report and on the dashboard, appeals and their
  decisions. A transaction is a function on the tables: the code locks the session and evaluation
  row from the check to the insert. Identifiers are strings; a new one is an argument.
\<close>

section \<open>Tables\<close>

record user_row =
  us_id :: string
  us_role :: string

record session_row =
  sr_id :: string
  sr_user_id :: "string option"
  sr_challenge_slug :: string
  sr_challenge_version :: string

record grade_review =
  gr_id :: string
  gr_session_id :: string
  gr_reviewer_id :: string
  gr_revision :: int
  gr_packet_digest :: string
  gr_source_digest :: string
  gr_review :: "human_review \<times> (string \<times> dimension_review) list"
  gr_outcome :: "json dict"
  gr_supersedes_id :: "string option"

datatype appeal_status = AppealPending | Upheld | ReReviewRequired

record grade_appeal =
  ap_id :: string
  ap_session_id :: string
  ap_review_id :: string
  ap_candidate_id :: string
  ap_reason :: string
  ap_status :: appeal_status

record appeal_decision =
  ad_id :: string
  ad_appeal_id :: string
  ad_reviewer_id :: string
  ad_disposition :: appeal_status
  ad_reason :: string

record review_db =
  rb_sessions :: "session_row list"
  rb_grading :: grading_db
  rb_reviews :: "grade_review list"
  rb_appeals :: "grade_appeal list"
  rb_decisions :: "appeal_decision list"

text \<open>
  What the service reads outside the tables: the grading key, the registry's version of a
  challenge, whether the stored source of a job can be hydrated with its digest, whether the
  calibration gate allows publication, and the texts of the rubric.
\<close>

record review_env =
  re_grading :: grading_env
  re_signing_key :: string
  re_version_for :: "string \<Rightarrow> string"
  re_source_ok :: "grading_job \<Rightarrow> bool"
  re_publication_allowed :: bool
  re_texts :: rubric_texts

text \<open>
  A request ends with an HTTP error, with an uncaught exception, or, for a \<open>ValueError\<close> in a review,
  with status 422 and its message, which is left out.
\<close>

datatype route_error = Http http_error | Unprocessable | Crash py_exc

definition refuse :: "int \<Rightarrow> string \<Rightarrow> route_error + 'a" where
  "refuse status detail = Inl (Http (HTTPException status detail None))"

definition uncaught :: "py_exc + 'a \<Rightarrow> route_error + 'a" where
  "uncaught m = (case m of Inl e \<Rightarrow> Inl (Crash e) | Inr x \<Rightarrow> Inr x)"

lemma uncaught_Inr [simp]: "uncaught m = Inr x \<longleftrightarrow> m = Inr x" "uncaught (Inr x) = Inr x"
  by (simp_all add: uncaught_def split: sum.split)

lemma refuse_Inr [simp]: "refuse st d \<noteq> Inr x" "refuse st d \<noteq> Inl (Crash e)" "refuse st d \<noteq> Inl Unprocessable"
  by (simp_all add: refuse_def)

section \<open>The evidence of a review\<close>

definition require_reviewer :: "user_row \<Rightarrow> route_error + unit" where
  "require_reviewer u = (if us_role u \<noteq> ''interviewer'' then refuse 403 ''Reviewer access required'' else Inr ())"

definition session_job :: "review_db \<Rightarrow> string \<Rightarrow> grading_job option" where
  "session_job db sid = row_get gj_session_id sid (gd_jobs (rb_grading db))"

definition session_evaluation :: "review_db \<Rightarrow> string \<Rightarrow> interview_evaluation option" where
  "session_evaluation db sid = row_get ie_session_id sid (gd_evaluations (rb_grading db))"

text \<open>The provenance of the external result; \<open>OSError\<close> is part of \<open>re_source_ok\<close>.\<close>

definition verified_provenance :: "review_env \<Rightarrow> session_row \<Rightarrow> grading_job \<Rightarrow> json \<Rightarrow> route_error + unit" where
  "verified_provenance V session job job_result =
     (case (if \<not> re_source_ok V job \<or> gj_challenge_version job \<noteq> sr_challenge_version session then Inl ValueError
            else verify_result (re_grading V) (re_signing_key V) (job_identity job) job_result) of
        Inr _ \<Rightarrow> Inr ()
      | Inl e \<Rightarrow> if e \<in> set [ValueError, KeyError, TypeError] then refuse 409 ''External evaluation provenance is invalid''
                 else Inl (Crash e))"

text \<open>External facts in the stored packet are dropped, the authenticated ones installed.\<close>

definition install_evidence :: "grading_env \<Rightarrow> grading_job \<Rightarrow> json \<Rightarrow> json dict \<Rightarrow> py_exc + json dict" where
  "install_evidence E job job_result packet =
     bind (dict_item packet ''evidence'') (\<lambda>ev. bind (to_list ev) (\<lambda>items.
     bind (drop_kinds [''external_evaluation'', ''submitted_source''] items) (\<lambda>kept.
       Inr (set_key ''source_digest'' (JStr (gj_source_digest job))
             (set_key ''evidence'' (JList (kept @
                [evidence_item ''source:submitted'' ''submitted_source'' (gj_source_digest job),
                 evidence_item ''evaluation:trusted'' ''external_evaluation'' (json_digest E job_result)])) packet)))))"

definition review_assessment ::
  "review_env \<Rightarrow> grading_job \<Rightarrow> json \<Rightarrow> interview_evaluation \<Rightarrow> route_error + json dict" where
  "review_assessment V job job_result evaluation =
     (case map_of (ie_metrics evaluation) ''assessment'' of
        Some (JObj assessment) \<Rightarrow>
          (case map_of assessment ''packet'' of
             None \<Rightarrow> refuse 409 ''Evidence packet is unavailable''
           | Some p \<Rightarrow>
               bind (uncaught (as_dict p)) (\<lambda>packet.
               if map_of packet ''session_id'' \<noteq> Some (JStr (gj_session_id job)) \<or>
                  map_of packet ''challenge_slug'' \<noteq> Some (JStr (gj_challenge_slug job)) \<or>
                  map_of packet ''challenge_version'' \<noteq> Some (JStr (gj_challenge_version job))
               then refuse 409 ''Evidence packet identity does not match submitted source''
               else bind (uncaught (install_evidence (re_grading V) job job_result packet)) (\<lambda>packet'.
                 Inr (set_key ''packet_digest'' (JStr (json_digest (re_grading V) (JObj packet')))
                       (set_key ''packet'' (JObj packet') assessment)))))
      | _ \<Rightarrow> refuse 409 ''Evidence packet is unavailable'')"

definition review_context ::
  "review_env \<Rightarrow> review_db \<Rightarrow> string \<Rightarrow> user_row option \<Rightarrow>
    route_error + session_row \<times> grading_job \<times> interview_evaluation \<times> json dict" where
  "review_context V db session_id user =
     bind (case user of Some u \<Rightarrow> require_reviewer u | None \<Rightarrow> Inr ()) (\<lambda>_.
     case row_get sr_id session_id (rb_sessions db) of
       None \<Rightarrow> refuse 404 ''Session not found''
     | Some session \<Rightarrow>
         if (case user of Some u \<Rightarrow> sr_user_id session = Some (us_id u) | None \<Rightarrow> False)
         then refuse 403 ''Self-review is prohibited''
         else (case (session_job db session_id, session_evaluation db session_id) of
           (Some job, Some evaluation) \<Rightarrow>
             (case gj_result job of
                None \<Rightarrow> refuse 409 ''Verified evaluation is not ready''
              | Some job_result \<Rightarrow>
                  if gj_status job \<noteq> GradingCompleted \<or> \<not> truthy job_result
                  then refuse 409 ''Verified evaluation is not ready''
                  else if gj_challenge_version job \<noteq> re_version_for V (gj_challenge_slug job)
                  then refuse 409 ''Challenge evaluation version has changed''
                  else bind (verified_provenance V session job job_result) (\<lambda>_.
                    bind (review_assessment V job job_result evaluation) (\<lambda>assessment.
                      Inr (session, job, evaluation, assessment))))
         | _ \<Rightarrow> refuse 409 ''Verified evaluation is not ready''))"

section \<open>Appending a review\<close>

text \<open>\<open>any(evidence.get(i, {}).get(field) == value for i in ids)\<close>; the last item of an identifier wins.\<close>

definition cites_field :: "(json \<times> json dict) list \<Rightarrow> string \<Rightarrow> string \<Rightarrow> string list \<Rightarrow> bool" where
  "cites_field evidence field val ids =
     list_ex (\<lambda>i. case map_of (rev evidence) (JStr i) of
                    Some item \<Rightarrow> map_of item field = Some (JStr val) | None \<Rightarrow> False) ids"

definition manual_check_ok :: "(json \<times> json dict) list \<Rightarrow> dimension_review \<Rightarrow> bool" where
  "manual_check_ok evidence c \<longleftrightarrow>
     distinct (dr_evidence_ids c) \<and> list_all (\<lambda>i. JStr i \<in> set (map fst evidence)) (dr_evidence_ids c) \<and>
     ''source:submitted'' \<in> set (dr_evidence_ids c)"

definition dump_review :: "dimension_review \<Rightarrow> json" where
  "dump_review d = JObj [(''rating'', JInt (dr_rating d)), (''rationale'', JStr (dr_rationale d)),
     (''evidence_ids'', JList (map JStr (dr_evidence_ids d)))]"

definition review_number :: "json \<Rightarrow> py_exc + rat" where
  "review_number j = (case j of JInt i \<Rightarrow> Inr (of_int i) | JFloat r \<Rightarrow> Inr r | JBool b \<Rightarrow> Inr (of_bool b) | _ \<Rightarrow> Inl TypeError)"

text \<open>The rules that tie the correctness rating to the external score and the manual checks.\<close>

definition correctness_capped :: "rat \<Rightarrow> (string \<times> dimension_review) list \<Rightarrow> dimension_review option \<Rightarrow> bool" where
  "correctness_capped external_score manual correctness \<longleftrightarrow>
     (case correctness of
        None \<Rightarrow> True
      | Some c \<Rightarrow>
          \<not> (external_score = 0 \<and> dr_rating c \<noteq> 0) \<and>
          \<not> (dr_rating c > 2 \<and> (external_score < 100 \<or> list_ex (\<lambda>(_, m). dr_rating m < 3) manual)))"

definition review_flags :: "rat \<Rightarrow> (string \<times> dimension_review) list \<Rightarrow> json" where
  "review_flags external_score manual =
     JList ((if external_score < 100 then [JStr ''unmet_behavioral_requirements''] else []) @
            (if list_ex (\<lambda>(_, m). dr_rating m < 3) manual then [JStr ''unmet_manual_requirements''] else []))"

definition evidence_rules ::
  "(json \<times> json dict) list \<Rightarrow> rat \<Rightarrow> (string \<times> dimension_review) list \<Rightarrow> human_review \<Rightarrow> bool" where
  "evidence_rules evidence external_score manual review \<longleftrightarrow>
     list_all (\<lambda>(_, c). manual_check_ok evidence c) manual \<and>
     (case map_of (hr_dimensions review) ''F_communication'' of
        Some d \<Rightarrow> cites_field evidence ''kind'' ''candidate_statement'' (dr_evidence_ids d) | None \<Rightarrow> True) \<and>
     (case map_of (hr_dimensions review) ''D_ai_leverage'' of
        Some d \<Rightarrow> cites_field evidence ''event_type'' ''ai_response'' (dr_evidence_ids d) | None \<Rightarrow> True) \<and>
     correctness_capped external_score manual (map_of (hr_dimensions review) ''A_correctness'')"

definition review_outcome ::
  "review_env \<Rightarrow> json \<Rightarrow> json dict \<Rightarrow> human_review \<Rightarrow> (string \<times> dimension_review) list \<Rightarrow> py_exc + json dict" where
  "review_outcome V job_result assessment review manual =
     bind (to_dict job_result) (\<lambda>env. bind (dict_item env ''payload'') (\<lambda>p. bind (as_dict p) (\<lambda>payload.
     bind (to_list (dict_get payload ''manual_requirements'' (JList []))) (\<lambda>requirements.
     if set (map (JStr \<circ> fst) manual) \<noteq> set requirements then Inl ValueError
     else bind (dict_item assessment ''packet'') (\<lambda>k. bind (to_dict k) (\<lambda>packet.
       bind (dict_item packet ''evidence'') (\<lambda>ev. bind (to_list ev) (\<lambda>items.
       bind (evidence_index items) (\<lambda>evidence.
       bind (dict_item payload ''score_percent'') (\<lambda>sp. bind (review_number sp) (\<lambda>external_score.
       if \<not> evidence_rules evidence external_score manual review then Inl ValueError
       else bind (score_reviewed_assessment (re_grading V) (re_texts V) assessment review) (\<lambda>outcome.
         case map_of (hr_dimensions review) ''C_fix_quality'' of
           None \<Rightarrow> Inl KeyError
         | Some d \<Rightarrow>
             if ''source:submitted'' \<notin> set (dr_evidence_ids d) then Inl ValueError
             else Inr (set_key ''manual_checks'' (JObj (map (\<lambda>(key, c). (key, dump_review c)) manual))
                        (set_key ''review_flags'' (review_flags external_score manual) outcome))))))))))))))"

definition latest_review :: "review_db \<Rightarrow> string \<Rightarrow> grade_review option" where
  "latest_review db sid =
     (case sort_key (\<lambda>r. - gr_revision r) (filter (\<lambda>r. gr_session_id r = sid) (rb_reviews db)) of
        [] \<Rightarrow> None | r # _ \<Rightarrow> Some r)"

definition new_review ::
  "string \<Rightarrow> string \<Rightarrow> user_row \<Rightarrow> human_review \<Rightarrow> (string \<times> dimension_review) list \<Rightarrow> string \<Rightarrow> json dict \<Rightarrow>
    grade_review option \<Rightarrow> grade_review" where
  "new_review new_id session_id user review manual source_digest outcome prev =
     \<lparr>gr_id = new_id, gr_session_id = session_id, gr_reviewer_id = us_id user,
      gr_revision = (case prev of Some p \<Rightarrow> gr_revision p + 1 | None \<Rightarrow> 1),
      gr_packet_digest = hr_packet_digest review, gr_source_digest = source_digest,
      gr_review = (review, manual), gr_outcome = outcome, gr_supersedes_id = map_option gr_id prev\<rparr>"

text \<open>The insert and the mark in the evaluation; the primary key and the unique revision can refuse it.\<close>

definition insert_review :: "grade_review \<Rightarrow> review_db \<Rightarrow> route_error + review_db" where
  "insert_review row db =
     (if list_ex (\<lambda>r. gr_id r = gr_id row \<or>
                     (gr_session_id r = gr_session_id row \<and> gr_revision r = gr_revision row)) (rb_reviews db)
      then refuse 409 ''Another review revision was saved; reload evidence''
      else Inr (db\<lparr>rb_reviews := rb_reviews db @ [row],
        rb_grading := (rb_grading db)\<lparr>gd_evaluations := row_upd ie_session_id (gr_session_id row)
          (\<lambda>e. e\<lparr>ie_metrics := set_key ''grading_review_id'' (JStr (gr_id row)) (ie_metrics e)\<rparr>)
          (gd_evaluations (rb_grading db))\<rparr>\<rparr>))"

definition append_review ::
  "review_env \<Rightarrow> string \<Rightarrow> string \<Rightarrow> user_row \<Rightarrow> human_review \<Rightarrow> (string \<times> dimension_review) list \<Rightarrow> review_db \<Rightarrow>
    route_error + review_db \<times> grade_review" where
  "append_review V new_id session_id user review manual db =
     bind (review_context V db session_id (Some user)) (\<lambda>(session, job, evaluation, assessment).
     if hr_reviewer_id review \<noteq> us_id user
     then refuse 403 ''Reviewer identity cannot be supplied by another user''
     else (case review_outcome V (case gj_result job of Some r \<Rightarrow> r | None \<Rightarrow> JNull) assessment review manual of
        Inl e \<Rightarrow> if e = ValueError then Inl Unprocessable else Inl (Crash e)
      | Inr outcome \<Rightarrow>
          let row = new_review new_id session_id user review manual (gj_source_digest job) outcome (latest_review db session_id)
          in bind (insert_review row db) (\<lambda>db'. Inr (db', row))))"

definition create_review ::
  "review_env \<Rightarrow> string \<Rightarrow> string \<Rightarrow> user_row \<Rightarrow> string \<Rightarrow> (string \<times> dimension_review) list \<Rightarrow>
    (string \<times> dimension_review) list \<Rightarrow> review_db \<Rightarrow> route_error + review_db \<times> grade_review" where
  "create_review V new_id session_id user packet_digest dims manual db =
     append_review V new_id session_id user
       \<lparr>hr_reviewer_id = us_id user, hr_packet_digest = packet_digest, hr_rubric_version = rubric_version,
        hr_dimensions = dims\<rparr> manual db"

definition review_history :: "review_db \<Rightarrow> string \<Rightarrow> user_row \<Rightarrow> route_error + grade_review list" where
  "review_history db session_id user =
     bind (require_reviewer user) (\<lambda>_.
     case row_get sr_id session_id (rb_sessions db) of
       None \<Rightarrow> refuse 404 ''Session not found''
     | Some session \<Rightarrow>
         if sr_user_id session = Some (us_id user) then refuse 403 ''Self-review is prohibited''
         else Inr (sort_key gr_revision (filter (\<lambda>r. gr_session_id r = session_id) (rb_reviews db))))"

section \<open>What the candidate sees\<close>

text \<open>\<open>{"review_id": ..., "revision": ..., **outcome}\<close>\<close>

definition published_view :: "grade_review \<Rightarrow> json dict" where
  "published_view r =
     fold (\<lambda>(k, v). set_key k v) (gr_outcome r)
       [(''review_id'', JStr (gr_id r)), (''revision'', JInt (gr_revision r))]"

definition held_status :: "appeal_status \<Rightarrow> bool" where
  "held_status s \<longleftrightarrow> s \<in> set [AppealPending, ReReviewRequired]"

definition candidate_review_status :: "review_env \<Rightarrow> review_db \<Rightarrow> string \<Rightarrow> route_error + json dict option" where
  "candidate_review_status V db session_id =
     (if \<not> re_publication_allowed V then Inr None
      else (case review_context V db session_id None of
         Inl (Http _) \<Rightarrow> Inr None
       | Inl e \<Rightarrow> Inl e
       | Inr (session, job, evaluation, assessment) \<Rightarrow>
           (case latest_review db session_id of
              None \<Rightarrow> Inr None
            | Some r \<Rightarrow>
                if Some (JStr (gr_packet_digest r)) \<noteq> map_of assessment ''packet_digest'' \<or>
                   gr_source_digest r \<noteq> gj_source_digest job
                then Inr None
                else (case row_get ap_review_id (gr_id r) (rb_appeals db) of
                   Some a \<Rightarrow> if held_status (ap_status a) then Inr None else Inr (Some (published_view r))
                 | None \<Rightarrow> Inr (Some (published_view r))))))"

text \<open>The first row of each session in the order of the query.\<close>

definition keep_first :: "grade_review \<Rightarrow> (string \<times> grade_review) list \<Rightarrow> (string \<times> grade_review) list" where
  "keep_first r acc = (if map_of acc (gr_session_id r) = None then acc @ [(gr_session_id r, r)] else acc)"

definition latest_by_session :: "grade_review list \<Rightarrow> (string \<times> grade_review) list" where
  "latest_by_session rows = fold keep_first rows []"

definition published_reviews_for_sessions :: "review_env \<Rightarrow> review_db \<Rightarrow> string list \<Rightarrow> (string \<times> json dict) list" where
  "published_reviews_for_sessions V db ids =
     (if \<not> re_publication_allowed V \<or> ids = [] then []
      else (let latest = latest_by_session (sort_key gr_session_id (sort_key (\<lambda>r. - gr_revision r)
                  (filter (\<lambda>r. gr_session_id r \<in> set ids) (rb_reviews db))));
                held = map ap_review_id (filter (\<lambda>a. ap_review_id a \<in> set (map (gr_id \<circ> snd) latest) \<and>
                                                     held_status (ap_status a)) (rb_appeals db))
            in map (\<lambda>(key, r). (key, published_view r)) (filter (\<lambda>(key, r). gr_id r \<notin> set held) latest)))"

section \<open>Appeals\<close>

definition create_appeal ::
  "review_env \<Rightarrow> string \<Rightarrow> string \<Rightarrow> user_row \<Rightarrow> string \<Rightarrow> string \<Rightarrow> review_db \<Rightarrow> route_error + review_db" where
  "create_appeal V new_id session_id user review_id reason db =
     (case row_get sr_id session_id (rb_sessions db) of
        None \<Rightarrow> refuse 404 ''Session not found''
      | Some session \<Rightarrow>
          if sr_user_id session \<noteq> Some (us_id user) then refuse 404 ''Session not found''
          else (case row_get gr_id review_id (rb_reviews db) of
             None \<Rightarrow> refuse 404 ''Review not found''
           | Some review \<Rightarrow>
               if gr_session_id review \<noteq> session_id then refuse 404 ''Review not found''
               else (case latest_review db session_id of
                  None \<Rightarrow> Inl (Crash NoResultFound)
                | Some latest \<Rightarrow>
                    if gr_id review \<noteq> gr_id latest then refuse 409 ''Only the current review can be appealed''
                    else if row_get ap_review_id (gr_id review) (rb_appeals db) \<noteq> None
                    then refuse 409 ''This review already has an appeal''
                    else bind (candidate_review_status V db session_id) (\<lambda>published.
                      case published of
                        None \<Rightarrow> refuse 409 ''This review is not published''
                      | Some view \<Rightarrow>
                          if dict_get view ''review_id'' JNull \<noteq> JStr (gr_id review)
                          then refuse 409 ''This review is not published''
                          else if list_ex (\<lambda>a. ap_id a = new_id \<or> ap_review_id a = gr_id review) (rb_appeals db)
                          then refuse 409 ''This review already has an appeal''
                          else Inr (db\<lparr>rb_appeals := rb_appeals db @ [\<lparr>ap_id = new_id, ap_session_id = session_id,
                                 ap_review_id = gr_id review, ap_candidate_id = us_id user, ap_reason = reason,
                                 ap_status = AppealPending\<rparr>]\<rparr>)))))"

definition appeals :: "review_db \<Rightarrow> string \<Rightarrow> user_row \<Rightarrow> route_error + (grade_appeal \<times> appeal_decision option) list" where
  "appeals db session_id user =
     (case row_get sr_id session_id (rb_sessions db) of
        None \<Rightarrow> refuse 404 ''Session not found''
      | Some session \<Rightarrow>
          if sr_user_id session \<noteq> Some (us_id user) \<and> us_role user \<noteq> ''interviewer'' then refuse 404 ''Session not found''
          else Inr (map (\<lambda>a. (a, row_get ad_appeal_id (ap_id a) (rb_decisions db)))
                     (filter (\<lambda>a. ap_session_id a = session_id) (rb_appeals db))))"

text \<open>The request's disposition is one of the two words of its pattern.\<close>

definition decide_appeal ::
  "string \<Rightarrow> string \<Rightarrow> user_row \<Rightarrow> appeal_status \<Rightarrow> string \<Rightarrow> review_db \<Rightarrow> route_error + review_db" where
  "decide_appeal new_id appeal_id user disposition reason db =
     bind (require_reviewer user) (\<lambda>_.
     case row_get ap_id appeal_id (rb_appeals db) of
       None \<Rightarrow> refuse 404 ''Appeal not found''
     | Some appeal \<Rightarrow>
         (case row_get gr_id (ap_review_id appeal) (rb_reviews db) of
            None \<Rightarrow> Inl (Crash AttributeError)
          | Some review \<Rightarrow>
              if us_id user \<in> {ap_candidate_id appeal, gr_reviewer_id review}
              then refuse 403 ''Appeals require an independent reviewer''
              else if ap_status appeal \<noteq> AppealPending then refuse 409 ''Appeal already decided''
              else if list_ex (\<lambda>d. ad_id d = new_id \<or> ad_appeal_id d = ap_id appeal) (rb_decisions db)
              then refuse 409 ''Appeal already decided''
              else Inr (db\<lparr>rb_decisions := rb_decisions db @ [\<lparr>ad_id = new_id, ad_appeal_id = ap_id appeal,
                            ad_reviewer_id = us_id user, ad_disposition = disposition, ad_reason = reason\<rparr>],
                          rb_appeals := row_upd ap_id appeal_id (\<lambda>a. a\<lparr>ap_status := disposition\<rparr>) (rb_appeals db)\<rparr>)))"

section \<open>The dashboard and the report\<close>

lemma row_get_filter:
  "row_get key k rows = (case filter (\<lambda>r. key r = k) rows of [] \<Rightarrow> None | r # _ \<Rightarrow> Some r)"
  by (induction rows) simp_all

lemma map_of_filter_val:
  "distinct (map fst l) \<Longrightarrow>
   map_of (filter (\<lambda>(k, v). P v) l) k = (case map_of l k of Some v \<Rightarrow> if P v then Some v else None | None \<Rightarrow> None)"
proof (induction l)
  case Nil
  then show ?case by simp
next
  case (Cons x l)
  obtain k' v where x: "x = (k', v)" by (cases x)
  have "map_of l k' = None" using Cons.prems by (simp add: x map_of_eq_None_iff)
  with Cons show ?case by (auto simp: x split: option.splits)
qed

lemma map_of_map_snd: "map_of (map (\<lambda>(k, v). (k, f v)) l) k = map_option f (map_of l k)"
  by (induction l) auto

text \<open>The grouping keeps the first row of every session, one entry each.\<close>

lemma map_of_keep_first:
  "map_of (keep_first r acc) k =
     (case map_of acc k of Some x \<Rightarrow> Some x | None \<Rightarrow> if gr_session_id r = k then Some r else None)"
  by (auto simp: keep_first_def map_add_def split: option.split)

lemma map_of_fold_keep_first:
  "map_of (fold keep_first rows acc) sid =
     (case map_of acc sid of Some r \<Rightarrow> Some r | None \<Rightarrow> row_get gr_session_id sid rows)"
  by (induction rows arbitrary: acc) (auto simp: map_of_keep_first split: option.split)

lemma distinct_keep_first: "distinct (map fst acc) \<Longrightarrow> distinct (map fst (keep_first r acc))"
  by (simp add: keep_first_def map_of_eq_None_iff)

lemma distinct_fold_keep_first: "distinct (map fst acc) \<Longrightarrow> distinct (map fst (fold keep_first rows acc))"
  by (induction rows arbitrary: acc) (simp_all add: distinct_keep_first)

lemma latest_by_session_get:
  "map_of (latest_by_session rows) sid = row_get gr_session_id sid rows"
  "distinct (map fst (latest_by_session rows))"
  by (simp_all add: latest_by_session_def map_of_fold_keep_first distinct_fold_keep_first)

lemma batch_latest:
  assumes "sid \<in> set ids"
  shows "row_get gr_session_id sid (sort_key gr_session_id (sort_key (\<lambda>r. - gr_revision r)
            (filter (\<lambda>r. gr_session_id r \<in> set ids) (rb_reviews db)))) = latest_review db sid"
proof -
  have one: "filter (\<lambda>r. gr_session_id r = sid) (filter (\<lambda>r. gr_session_id r \<in> set ids) rows)
      = filter (\<lambda>r. gr_session_id r = sid) rows" for rows
    using assms by (induction rows) auto
  show ?thesis unfolding row_get_filter sort_key_stable filter_sort one latest_review_def ..
qed

definition appeal_holds :: "review_db \<Rightarrow> grade_review \<Rightarrow> bool" where
  "appeal_holds db r \<longleftrightarrow> list_ex (\<lambda>a. ap_review_id a = gr_id r \<and> held_status (ap_status a)) (rb_appeals db)"

lemma published_get:
  assumes "sid \<in> set ids"
  shows "map_of (published_reviews_for_sessions V db ids) sid =
     (case latest_review db sid of
        Some r \<Rightarrow> if re_publication_allowed V \<and> \<not> appeal_holds db r then Some (published_view r) else None
      | None \<Rightarrow> None)"
proof (cases "re_publication_allowed V")
  case False
  then show ?thesis by (simp add: published_reviews_for_sessions_def split: option.split)
next
  case True
  have ids: "ids \<noteq> []" using assms by auto
  define latest where "latest = latest_by_session (sort_key gr_session_id (sort_key (\<lambda>r. - gr_revision r)
      (filter (\<lambda>r. gr_session_id r \<in> set ids) (rb_reviews db))))"
  define held where "held = map ap_review_id (filter (\<lambda>a. ap_review_id a \<in> set (map (gr_id \<circ> snd) latest) \<and>
      held_status (ap_status a)) (rb_appeals db))"
  have get: "map_of latest sid = latest_review db sid" "distinct (map fst latest)"
    unfolding latest_def latest_by_session_get(1) batch_latest [OF assms] by (simp, rule latest_by_session_get)
  have held: "gr_id r \<in> set held \<longleftrightarrow> appeal_holds db r" if "map_of latest sid = Some r" for r
  proof -
    have "gr_id r \<in> set (map (gr_id \<circ> snd) latest)" using map_of_SomeD [OF that] by force
    then have "gr_id r \<in> (\<lambda>x. gr_id (snd x)) ` set latest" by (simp add: comp_def)
    then show ?thesis unfolding held_def appeal_holds_def list_ex_iff by force
  qed
  have "published_reviews_for_sessions V db ids
      = map (\<lambda>(key, r). (key, published_view r)) (filter (\<lambda>(key, r). gr_id r \<notin> set held) latest)"
    using True ids by (simp add: published_reviews_for_sessions_def Let_def latest_def held_def)
  then have "map_of (published_reviews_for_sessions V db ids) sid =
      map_option published_view (case map_of latest sid of Some v \<Rightarrow> if gr_id v \<notin> set held then Some v else None | None \<Rightarrow> None)"
    by (simp add: map_of_map_snd map_of_filter_val [OF get(2)])
  then show ?thesis using held True get(1) by (auto split: option.split)
qed

text \<open>Whether the latest review was made for the evidence as it is now.\<close>

definition bound_to_evidence :: "review_db \<Rightarrow> string \<Rightarrow> grading_job \<Rightarrow> json dict \<Rightarrow> bool" where
  "bound_to_evidence db sid job assessment \<longleftrightarrow>
     (case latest_review db sid of
        None \<Rightarrow> False
      | Some r \<Rightarrow> map_of assessment ''packet_digest'' = Some (JStr (gr_packet_digest r)) \<and>
                  gr_source_digest r = gj_source_digest job)"

lemma appeal_of_review:
  assumes "keys_distinct ap_review_id (rb_appeals db)"
  shows "appeal_holds db r \<longleftrightarrow>
     (case row_get ap_review_id (gr_id r) (rb_appeals db) of Some a \<Rightarrow> held_status (ap_status a) | None \<Rightarrow> False)"
proof (cases "row_get ap_review_id (gr_id r) (rb_appeals db)")
  case None
  then have "gr_id r \<notin> ap_review_id ` set (rb_appeals db)" by (simp only: row_get_None_iff not_False_eq_True)
  then have "ap_review_id a \<noteq> gr_id r" if "a \<in> set (rb_appeals db)" for a using that by (metis imageI)
  with None show ?thesis by (auto simp: appeal_holds_def list_ex_iff)
next
  case (Some a)
  have a: "a \<in> set (rb_appeals db)" "ap_review_id a = gr_id r" using row_get_SomeD [OF Some] by auto
  have "b = a" if "b \<in> set (rb_appeals db)" "ap_review_id b = gr_id r" for b
    using row_get_mem [OF assms that(1)] that(2) Some by simp
  with a show ?thesis unfolding appeal_holds_def list_ex_iff Some option.case by blast
qed

text \<open>
  C36: The report and the dashboard. With at most one appeal per review (the table's constraint), what
  the report of a session shows is what the batch query of the dashboard shows for it, whichever other
  sessions are asked for, restricted to reviews that are bound to the session's evidence as it is now:
  the batch query leaves out that check, so it also shows reviews that the report hides.
\<close>

theorem report_is_current_dashboard:
  assumes "keys_distinct ap_review_id (rb_appeals db)"
  shows "candidate_review_status V db sid =
     (if \<not> re_publication_allowed V then Inr None
      else (case review_context V db sid None of
         Inl (Http _) \<Rightarrow> Inr None
       | Inl e \<Rightarrow> Inl e
       | Inr (session, job, evaluation, assessment) \<Rightarrow>
           Inr (if bound_to_evidence db sid job assessment
                then map_of (published_reviews_for_sessions V db (sid # sids)) sid else None)))"
  by (cases "review_context V db sid None"; cases "latest_review db sid")
    (auto simp: candidate_review_status_def published_get bound_to_evidence_def appeal_of_review [OF assms]
      split: route_error.split option.split)

section \<open>The ledger of reviews, appeals and decisions\<close>

text \<open>Any requests in any order; between two of them the grading tables and the gate may change.\<close>

datatype review_op =
    ReviewOp string string user_row string "(string \<times> dimension_review) list" "(string \<times> dimension_review) list"
  | AppealOp string string user_row string string
  | DecideOp string string user_row appeal_status string
  | GradingOp grading_db

definition review_step :: "review_env \<times> review_op \<Rightarrow> review_db \<Rightarrow> review_db" where
  "review_step vo db =
     (case vo of (V, op) \<Rightarrow> (case op of
        ReviewOp i sid u dig dims manual \<Rightarrow> (case create_review V i sid u dig dims manual db of Inl _ \<Rightarrow> db | Inr (db', _) \<Rightarrow> db')
      | AppealOp i sid u rid why \<Rightarrow> (case create_appeal V i sid u rid why db of Inl _ \<Rightarrow> db | Inr db' \<Rightarrow> db')
      | DecideOp i aid u disp why \<Rightarrow> (case decide_appeal i aid u disp why db of Inl _ \<Rightarrow> db | Inr db' \<Rightarrow> db')
      | GradingOp g \<Rightarrow> db\<lparr>rb_grading := g\<rparr>))"

fun review_chain :: "string option \<Rightarrow> int \<Rightarrow> grade_review list \<Rightarrow> bool" where
  "review_chain prev n [] \<longleftrightarrow> True"
| "review_chain prev n (r # rs) \<longleftrightarrow>
     gr_revision r = n \<and> gr_supersedes_id r = prev \<and> review_chain (Some (gr_id r)) (n + 1) rs"

definition reviews_of :: "review_db \<Rightarrow> string \<Rightarrow> grade_review list" where
  "reviews_of db sid = filter (\<lambda>r. gr_session_id r = sid) (rb_reviews db)"

definition review_ok :: "review_db \<Rightarrow> grade_review \<Rightarrow> bool" where
  "review_ok db r \<longleftrightarrow>
     (case row_get sr_id (gr_session_id r) (rb_sessions db) of
        Some s \<Rightarrow> sr_user_id s \<noteq> Some (gr_reviewer_id r) | None \<Rightarrow> False)"

definition appeal_ok :: "review_db \<Rightarrow> grade_appeal \<Rightarrow> bool" where
  "appeal_ok db a \<longleftrightarrow>
     (case row_get gr_id (ap_review_id a) (rb_reviews db) of
        Some r \<Rightarrow> gr_session_id r = ap_session_id a | None \<Rightarrow> False) \<and>
     (case row_get sr_id (ap_session_id a) (rb_sessions db) of
        Some s \<Rightarrow> sr_user_id s = Some (ap_candidate_id a) | None \<Rightarrow> False) \<and>
     ap_status a = (case row_get ad_appeal_id (ap_id a) (rb_decisions db) of
                      Some d \<Rightarrow> ad_disposition d | None \<Rightarrow> AppealPending)"

definition decision_ok :: "review_db \<Rightarrow> appeal_decision \<Rightarrow> bool" where
  "decision_ok db d \<longleftrightarrow>
     (case row_get ap_id (ad_appeal_id d) (rb_appeals db) of
        None \<Rightarrow> False
      | Some a \<Rightarrow> ad_reviewer_id d \<noteq> ap_candidate_id a \<and>
          (case row_get gr_id (ap_review_id a) (rb_reviews db) of
             Some r \<Rightarrow> ad_reviewer_id d \<noteq> gr_reviewer_id r | None \<Rightarrow> False))"

definition ledger_keys :: "review_db \<Rightarrow> bool" where
  "ledger_keys db \<longleftrightarrow>
     keys_distinct gr_id (rb_reviews db) \<and> keys_distinct ap_id (rb_appeals db) \<and>
     keys_distinct ap_review_id (rb_appeals db) \<and> keys_distinct ad_appeal_id (rb_decisions db)"

definition review_ledger_ok :: "review_db \<Rightarrow> bool" where
  "review_ledger_ok db \<longleftrightarrow>
     ledger_keys db \<and>
     list_all (\<lambda>s. review_chain None 1 (reviews_of db s)) (map gr_session_id (rb_reviews db)) \<and>
     list_all (review_ok db) (rb_reviews db) \<and>
     list_all (appeal_ok db) (rb_appeals db) \<and>
     list_all (decision_ok db) (rb_decisions db)"

lemma review_chain_snoc:
  "review_chain prev n (xs @ [r]) \<longleftrightarrow>
     review_chain prev n xs \<and> gr_revision r = n + int (length xs) \<and>
     gr_supersedes_id r = (if xs = [] then prev else Some (gr_id (last xs)))"
  by (induction xs arbitrary: prev n) auto

lemma review_chain_ge: "review_chain prev n xs \<Longrightarrow> \<forall>r \<in> set xs. n \<le> gr_revision r"
  by (induction xs arbitrary: prev n) fastforce+

lemma review_chain_sorted: "review_chain prev n xs \<Longrightarrow> sorted_wrt (\<lambda>a b. gr_revision a < gr_revision b) xs"
proof (induction xs arbitrary: prev n)
  case Nil
  then show ?case by simp
next
  case (Cons r rs)
  have "review_chain (Some (gr_id r)) (n + 1) rs" "gr_revision r = n" using Cons.prems by simp_all
  with Cons.IH review_chain_ge [OF this(1)] show ?case by force
qed

text \<open>In a chain, the review with the highest revision is the last one.\<close>

lemma review_chain_latest:
  assumes "review_chain prev n xs"
  shows "sort_key (\<lambda>r. - gr_revision r) xs = rev xs"
proof (rule sort_key_inj_key_eq)
  have s: "sorted_wrt (\<lambda>a b. gr_revision a < gr_revision b) xs" using assms by (rule review_chain_sorted)
  show "mset xs = mset (rev xs)" by simp
  have "distinct (map gr_revision xs)" using s by (induction xs) auto
  then have "inj_on gr_revision (set xs)" by (simp add: distinct_map)
  then show "inj_on (\<lambda>r. - gr_revision r) (set xs)" by (simp add: inj_on_def)
  show "sorted (map (\<lambda>r. - gr_revision r) (rev xs))"
    using s by (simp add: sorted_wrt_map sorted_wrt_rev) (erule sorted_wrt_mono_rel [rotated], simp)
qed

lemma latest_review_last:
  assumes "review_chain None 1 (reviews_of db sid)"
  shows "latest_review db sid = (if reviews_of db sid = [] then None else Some (last (reviews_of db sid)))"
  unfolding latest_review_def reviews_of_def [symmetric] review_chain_latest [OF assms]
  by (cases "reviews_of db sid" rule: rev_cases) simp_all

lemma reviews_of_chain:
  assumes "list_all (\<lambda>s. review_chain None 1 (reviews_of db s)) (map gr_session_id (rb_reviews db))"
  shows "review_chain None 1 (reviews_of db sid)"
proof (cases "reviews_of db sid")
  case Nil
  then show ?thesis by simp
next
  case (Cons r rs)
  have "r \<in> set (reviews_of db sid)" by (simp add: Cons)
  then have "r \<in> set (rb_reviews db)" "gr_session_id r = sid" by (simp_all add: reviews_of_def)
  then have "sid \<in> set (map gr_session_id (rb_reviews db))" by force
  with assms show ?thesis unfolding list_all_iff by blast
qed

text \<open>The rows the checks look up stay when a table only grows.\<close>

lemma row_get_grow: "row_get key k rows = Some r \<Longrightarrow> row_get key k (rows @ new) = Some r"
  by (simp add: row_get_append)

lemma keys_distinct_snoc: "keys_distinct key (rows @ [r]) \<longleftrightarrow> keys_distinct key rows \<and> \<not> list_ex (\<lambda>x. key x = key r) rows"
  by (simp add: keys_distinct_def list_ex_iff image_iff) metis

lemma row_get_fresh: "\<not> list_ex (\<lambda>r. key r = k) rows \<Longrightarrow> row_get key k rows = None"
  by (induction rows) simp_all

lemma ledger_ok_cong:
  assumes "rb_reviews db' = rb_reviews db" "rb_sessions db' = rb_sessions db"
    "rb_appeals db' = rb_appeals db" "rb_decisions db' = rb_decisions db"
  shows "review_ledger_ok db' = review_ledger_ok db"
  unfolding review_ledger_ok_def ledger_keys_def reviews_of_def review_ok_def [abs_def] appeal_ok_def [abs_def]
    decision_ok_def [abs_def] assms ..

lemma review_context_reviewer:
  assumes "review_context V db sid (Some u) = Inr (s, job, ev, assessment)"
  shows "row_get sr_id sid (rb_sessions db) = Some s" "sr_user_id s \<noteq> Some (us_id u)"
  using assms unfolding review_context_def
  by (auto elim!: bind_InrE split: option.splits if_splits)

lemma add_review_ok:
  assumes ok: "review_ledger_ok db"
    and db': "rb_reviews db' = rb_reviews db @ [row]" "rb_sessions db' = rb_sessions db"
      "rb_appeals db' = rb_appeals db" "rb_decisions db' = rb_decisions db"
    and fresh: "\<not> list_ex (\<lambda>r. gr_id r = gr_id row) (rb_reviews db)"
    and row: "review_ok db row"
      "gr_revision row = (case latest_review db (gr_session_id row) of Some p \<Rightarrow> gr_revision p + 1 | None \<Rightarrow> 1)"
      "gr_supersedes_id row = map_option gr_id (latest_review db (gr_session_id row))"
  shows "review_ledger_ok db'"
proof -
  have parts: "ledger_keys db" "list_all (\<lambda>s. review_chain None 1 (reviews_of db s)) (map gr_session_id (rb_reviews db))"
    "list_all (review_ok db) (rb_reviews db)" "list_all (appeal_ok db) (rb_appeals db)"
    "list_all (decision_ok db) (rb_decisions db)"
    using ok by (simp_all add: review_ledger_ok_def)
  note chain = reviews_of_chain [OF parts(2)]
  have of': "reviews_of db' s = reviews_of db s @ (if s = gr_session_id row then [row] else [])" for s
    by (simp add: reviews_of_def db')
  have "review_chain None 1 (reviews_of db' s)" for s
  proof (cases "s = gr_session_id row")
    case True
    have last: "latest_review db s = (if reviews_of db s = [] then None else Some (last (reviews_of db s)))"
      by (rule latest_review_last [OF chain])
    have "gr_revision (last (reviews_of db s)) = int (length (reviews_of db s))" if "reviews_of db s \<noteq> []"
      using that chain [of s] by (cases "reviews_of db s" rule: rev_cases) (simp_all add: review_chain_snoc)
    then show ?thesis using chain [of s] row(2,3) last by (simp add: of' True review_chain_snoc)
  next
    case False
    then show ?thesis using chain [of s] by (simp add: of')
  qed
  moreover have "ledger_keys db'" using parts(1) fresh by (simp add: ledger_keys_def db' keys_distinct_snoc)
  moreover have "review_ok db' = review_ok db" by (simp add: review_ok_def db' fun_eq_iff)
  moreover have "appeal_ok db a \<Longrightarrow> appeal_ok db' a" for a
    by (auto simp: appeal_ok_def db' row_get_append split: option.splits)
  moreover have "decision_ok db d \<Longrightarrow> decision_ok db' d" for d
    by (auto simp: decision_ok_def db' row_get_append split: option.splits)
  ultimately show ?thesis using parts row(1)
    by (simp add: review_ledger_ok_def db' list_all_iff)
qed

lemma create_review_ok:
  assumes "review_ledger_ok db" "create_review V i sid u dig dims manual db = Inr (db', row)"
  shows "review_ledger_ok db'"
proof -
  let ?review = "\<lparr>hr_reviewer_id = us_id u, hr_packet_digest = dig, hr_rubric_version = rubric_version, hr_dimensions = dims\<rparr>"
  obtain s job ev assessment outcome where ctx: "review_context V db sid (Some u) = Inr (s, job, ev, assessment)"
    and row: "row = new_review i sid u ?review manual (gj_source_digest job) outcome (latest_review db sid)"
    and ins: "insert_review row db = Inr db'"
    using assms(2) unfolding create_review_def append_review_def Let_def
    by (elim bind_InrE) (auto split: prod.splits if_splits sum.splits elim!: bind_InrE)
  have frame: "rb_reviews db' = rb_reviews db @ [row]" "rb_sessions db' = rb_sessions db"
      "rb_appeals db' = rb_appeals db" "rb_decisions db' = rb_decisions db"
      "\<not> list_ex (\<lambda>r. gr_id r = gr_id row) (rb_reviews db)"
    using ins unfolding insert_review_def by (auto simp: list_ex_iff split: if_splits)
  have "review_ok db row"
    using review_context_reviewer [OF ctx] by (simp add: review_ok_def row new_review_def)
  then show ?thesis
    by (rule add_review_ok [OF assms(1) frame]) (simp_all add: row new_review_def)
qed

lemma create_appeal_ok:
  assumes ok: "review_ledger_ok db" and app: "create_appeal V i sid u rid why db = Inr db'"
  shows "review_ledger_ok db'"
proof -
  obtain s r where s: "row_get sr_id sid (rb_sessions db) = Some s" "sr_user_id s = Some (us_id u)"
    and r: "row_get gr_id rid (rb_reviews db) = Some r" "gr_session_id r = sid"
    and fresh: "\<not> list_ex (\<lambda>a. ap_id a = i \<or> ap_review_id a = gr_id r) (rb_appeals db)"
    and db': "db' = db\<lparr>rb_appeals := rb_appeals db @ [\<lparr>ap_id = i, ap_session_id = sid, ap_review_id = gr_id r,
        ap_candidate_id = us_id u, ap_reason = why, ap_status = AppealPending\<rparr>]\<rparr>"
    using app unfolding create_appeal_def
    by (auto split: option.splits if_splits elim!: bind_InrE)
  have rid: "gr_id r = rid" using row_get_SomeD [OF r(1)] by simp
  have parts: "ledger_keys db" "list_all (\<lambda>s. review_chain None 1 (reviews_of db s)) (map gr_session_id (rb_reviews db))"
    "list_all (review_ok db) (rb_reviews db)" "list_all (appeal_ok db) (rb_appeals db)"
    "list_all (decision_ok db) (rb_decisions db)"
    using ok by (simp_all add: review_ledger_ok_def)
  have undecided: "row_get ad_appeal_id i (rb_decisions db) = None"
  proof (rule ccontr)
    assume "row_get ad_appeal_id i (rb_decisions db) \<noteq> None"
    then obtain d where "row_get ad_appeal_id i (rb_decisions db) = Some d" by blast
    from row_get_SomeD [OF this] have d: "d \<in> set (rb_decisions db)" "ad_appeal_id d = i" by simp_all
    then have "decision_ok db d" using parts(5) by (simp add: list_all_iff)
    then obtain a where "row_get ap_id i (rb_appeals db) = Some a" using d(2) by (auto simp: decision_ok_def split: option.splits)
    from row_get_SomeD [OF this] fresh show False by (auto simp: list_ex_iff)
  qed
  have "ledger_keys db'" using parts(1) fresh by (auto simp: ledger_keys_def db' keys_distinct_snoc list_ex_iff)
  moreover have "reviews_of db' = reviews_of db" "review_ok db' = review_ok db" "appeal_ok db' = appeal_ok db"
    by (simp_all add: reviews_of_def review_ok_def appeal_ok_def db' fun_eq_iff)
  moreover have "decision_ok db d \<Longrightarrow> decision_ok db' d" for d
    by (auto simp: decision_ok_def db' row_get_append split: option.splits)
  moreover have "appeal_ok db \<lparr>ap_id = i, ap_session_id = sid, ap_review_id = gr_id r,
        ap_candidate_id = us_id u, ap_reason = why, ap_status = AppealPending\<rparr>"
    using s r undecided by (simp add: appeal_ok_def rid)
  ultimately show ?thesis using parts by (simp add: review_ledger_ok_def db' list_all_iff)
qed

lemma decide_appeal_ok:
  assumes ok: "review_ledger_ok db" and dec: "decide_appeal i aid u disp why db = Inr db'"
  shows "review_ledger_ok db'"
proof -
  let ?d = "\<lparr>ad_id = i, ad_appeal_id = aid, ad_reviewer_id = us_id u, ad_disposition = disp, ad_reason = why\<rparr>"
  let ?upd = "\<lambda>a. a\<lparr>ap_status := disp\<rparr>"
  obtain a r where a: "row_get ap_id aid (rb_appeals db) = Some a"
    and r: "row_get gr_id (ap_review_id a) (rb_reviews db) = Some r"
    and indep: "us_id u \<noteq> ap_candidate_id a" "us_id u \<noteq> gr_reviewer_id r"
    and fresh: "\<not> list_ex (\<lambda>d. ad_id d = i \<or> ad_appeal_id d = aid) (rb_decisions db)"
    and db': "db' = db\<lparr>rb_decisions := rb_decisions db @ [?d], rb_appeals := row_upd ap_id aid ?upd (rb_appeals db)\<rparr>"
    using dec unfolding decide_appeal_def
    by (auto split: option.splits if_splits elim!: bind_InrE dest: row_get_SomeD)
  have parts: "ledger_keys db" "list_all (\<lambda>s. review_chain None 1 (reviews_of db s)) (map gr_session_id (rb_reviews db))"
    "list_all (review_ok db) (rb_reviews db)" "list_all (appeal_ok db) (rb_appeals db)"
    "list_all (decision_ok db) (rb_decisions db)"
    using ok by (simp_all add: review_ledger_ok_def)
  have get: "row_get ap_id k (rb_appeals db') = (if k = aid then map_option ?upd (row_get ap_id k (rb_appeals db))
      else row_get ap_id k (rb_appeals db))" for k
    unfolding db' by (simp add: row_get_row_upd)
  have "ledger_keys db'"
    using parts(1) fresh by (auto simp: ledger_keys_def db' keys_distinct_snoc keys_distinct_row_upd list_ex_iff)
  moreover have "reviews_of db' = reviews_of db" "review_ok db' = review_ok db"
    by (simp_all add: reviews_of_def review_ok_def db' fun_eq_iff)
  moreover have "decision_ok db' d" if "decision_ok db d" for d
    using that by (auto simp: decision_ok_def get split: option.splits) (simp_all add: db')
  moreover have "decision_ok db' ?d"
    using a r indep by (simp add: decision_ok_def get) (simp add: db')
  moreover have "list_all (appeal_ok db') (rb_appeals db')"
  proof -
    have "\<not> list_ex (\<lambda>d. ad_appeal_id d = aid) (rb_decisions db)" using fresh by (auto simp: list_ex_iff)
    then have none: "row_get ad_appeal_id aid (rb_decisions db) = None" by (rule row_get_fresh)
    have get_d: "row_get ad_appeal_id k (rb_decisions db') = (if k = aid then Some ?d else row_get ad_appeal_id k (rb_decisions db))" for k
      by (simp add: db' row_get_append none split: option.split)
    have frame: "rb_reviews db' = rb_reviews db" "rb_sessions db' = rb_sessions db" by (simp_all add: db')
    have "appeal_ok db' (if ap_id b = aid then ?upd b else b)" if "b \<in> set (rb_appeals db)" for b
    proof -
      have b: "appeal_ok db b" using parts(4) that by (simp add: list_all_iff)
      show ?thesis
      proof (cases "ap_id b = aid")
        case True
        have upd: "ap_id (?upd b) = ap_id b" "ap_review_id (?upd b) = ap_review_id b"
          "ap_session_id (?upd b) = ap_session_id b" "ap_candidate_id (?upd b) = ap_candidate_id b" "ap_status (?upd b) = disp"
          by simp_all
        have "appeal_ok db' (?upd b)" using b True unfolding appeal_ok_def frame get_d upd by simp
        with True show ?thesis by simp
      next
        case False
        with b show ?thesis unfolding appeal_ok_def frame get_d by simp
      qed
    qed
    note each = this
    have eq: "rb_appeals db' = map (\<lambda>b. if ap_id b = aid then ?upd b else b) (rb_appeals db)"
      by (simp add: db' row_upd_def)
    show ?thesis unfolding eq list_all_iff set_map using each by blast
  qed
  ultimately show ?thesis using parts by (simp add: review_ledger_ok_def db' list_all_iff)
qed

lemma review_step_ok: "review_ledger_ok db \<Longrightarrow> review_ledger_ok (review_step (V, op) db)"
proof (cases op)
  case (GradingOp g)
  assume ok: "review_ledger_ok db"
  then show ?thesis by (simp add: review_step_def GradingOp ledger_ok_cong [of "db\<lparr>rb_grading := g\<rparr>" db])
qed (auto simp: review_step_def split: sum.split intro: create_review_ok create_appeal_ok decide_appeal_ok)

text \<open>
  C8: The ledger of reviews. Whatever requests arrive in whatever order, and however the grading
  tables and the publication gate change in between, the ledger stays in order: the revisions of a
  session are 1, 2, 3 and so on, each superseding the one before; nobody reviews their own session; a
  review has at most one appeal, by the candidate of its session; an appeal has at most one decision,
  its status is what that decision says and pending before; and nobody decides an appeal who is its
  candidate or wrote the review.
\<close>

theorem review_ledger_kept:
  assumes "review_ledger_ok db"
  shows "review_ledger_ok (fold review_step ops db)"
  using assms by (induction ops arbitrary: db) (auto simp: review_step_ok split_paired_all)

text \<open>A session with two reviews, the second of them appealed and the appeal undecided.\<close>

definition sample_grade :: "string \<Rightarrow> int \<Rightarrow> string \<Rightarrow> string option \<Rightarrow> grade_review" where
  "sample_grade i n reviewer prev = \<lparr>gr_id = i, gr_session_id = ''s'', gr_reviewer_id = reviewer, gr_revision = n,
     gr_packet_digest = ''p'', gr_source_digest = ''d'', gr_review = (sample_review, []),
     gr_outcome = [(''total_score'', JFloat 75)], gr_supersedes_id = prev\<rparr>"

definition sample_review_db :: review_db where
  "sample_review_db =
     \<lparr>rb_sessions = [\<lparr>sr_id = ''s'', sr_user_id = Some ''alice'', sr_challenge_slug = ''c'', sr_challenge_version = ''1''\<rparr>],
      rb_grading = \<lparr>gd_jobs = [], gd_evaluations = []\<rparr>,
      rb_reviews = [sample_grade ''r1'' 1 ''bob'' None, sample_grade ''r2'' 2 ''carol'' (Some ''r1'')],
      rb_appeals = [\<lparr>ap_id = ''a'', ap_session_id = ''s'', ap_review_id = ''r1'', ap_candidate_id = ''alice'',
        ap_reason = [], ap_status = AppealPending\<rparr>],
      rb_decisions = []\<rparr>"

lemma sample_review_db_ok: "review_ledger_ok sample_review_db"
  by (simp add: review_ledger_ok_def ledger_keys_def keys_distinct_def sample_review_db_def sample_grade_def
      reviews_of_def review_ok_def appeal_ok_def decision_ok_def)

definition sample_review_env :: review_env where
  "sample_review_env = \<lparr>re_grading = sample_grading_env, re_signing_key = [], re_version_for = (\<lambda>_. ''2''),
    re_source_ok = (\<lambda>_. True), re_publication_allowed = True, re_texts = \<lparr>rt_anchors = JNull, rt_dimension_anchors = JNull\<rparr>\<rparr>"

definition sample_decisions :: "(review_env \<times> review_op) list" where
  "sample_decisions =
     [(sample_review_env, DecideOp ''d1'' ''a'' \<lparr>us_id = ''dave'', us_role = ''interviewer''\<rparr> Upheld ''why''),
      (sample_review_env, DecideOp ''d2'' ''a'' \<lparr>us_id = ''erin'', us_role = ''interviewer''\<rparr> ReReviewRequired ''why'')]"

theorem review_ledger_kept_witness:
  "review_ledger_ok (fold review_step sample_decisions sample_review_db) \<and>
   map ap_status (rb_appeals (fold review_step sample_decisions sample_review_db)) = [Upheld]"
  by (rule conjI [OF review_ledger_kept [OF sample_review_db_ok]])
    (simp add: sample_decisions_def review_step_def decide_appeal_def require_reviewer_def sample_review_db_def
      sample_grade_def refuse_def)

text \<open>
  The evaluation of the session is complete, but the challenge has moved to a new version: the report
  hides the review, the dashboard shows it.
\<close>

definition moved_on_db :: review_db where
  "moved_on_db = sample_review_db\<lparr>rb_grading := \<lparr>
     gd_jobs = [queued_job\<lparr>gj_session_id := ''s'', gj_challenge_version := ''1'', gj_status := GradingCompleted,
                          gj_result := Some (JInt 1)\<rparr>],
     gd_evaluations = [\<lparr>ie_session_id = ''s'', ie_metrics = [], ie_defend_questions = [], ie_scoring_version = []\<rparr>]\<rparr>\<rparr>"

theorem dashboard_shows_outdated_review:
  "candidate_review_status sample_review_env moved_on_db ''s'' = Inr None \<and>
   map_of (published_reviews_for_sessions sample_review_env moved_on_db [''s'']) ''s''
     = Some (published_view (sample_grade ''r2'' 2 ''carol'' (Some ''r1'')))"
proof
  have "latest_review moved_on_db ''s'' = Some (sample_grade ''r2'' 2 ''carol'' (Some ''r1''))"
    by (simp add: latest_review_def moved_on_db_def sample_review_db_def sample_grade_def)
  then show "map_of (published_reviews_for_sessions sample_review_env moved_on_db [''s'']) ''s''
      = Some (published_view (sample_grade ''r2'' 2 ''carol'' (Some ''r1'')))"
    by (simp add: published_get appeal_holds_def sample_review_env_def)
      (simp add: moved_on_db_def sample_review_db_def sample_grade_def)
  show "candidate_review_status sample_review_env moved_on_db ''s'' = Inr None"
    by (simp add: candidate_review_status_def review_context_def session_job_def session_evaluation_def
        moved_on_db_def sample_review_db_def refuse_def sample_review_env_def)
qed

theorem report_is_current_dashboard_witness:
  "candidate_review_status sample_review_env moved_on_db ''s'' =
     (if \<not> re_publication_allowed sample_review_env then Inr None
      else (case review_context sample_review_env moved_on_db ''s'' None of
         Inl (Http _) \<Rightarrow> Inr None
       | Inl e \<Rightarrow> Inl e
       | Inr (session, job, evaluation, assessment) \<Rightarrow>
           Inr (if bound_to_evidence moved_on_db ''s'' job assessment
                then map_of (published_reviews_for_sessions sample_review_env moved_on_db [''s'', ''t'']) ''s'' else None)))"
  by (rule report_is_current_dashboard) (simp add: moved_on_db_def sample_review_db_def keys_distinct_def)

end
