(* ===== verification/AutoGrading.thy ===== *)
theory AutoGrading
  imports GradingReview
begin

text \<open>
  Automated practice grading (\<open>services/interview/automated_grading.py\<close>) and its worker
  (\<open>workers/interview_ai_grading.py\<close>): the evidence bundle, the check of a model's judgment, the score
  of two judgments, the leased state in \<open>metrics["auto_grading"]\<close> and what the candidate sees of it.
  The model calls are an argument, as is the text of \<open>json.dumps\<close> and of \<open>str\<close> on containers.
  The worker's clock is in seconds. A response that pydantic has accepted satisfies
  \<open>valid_judgment\<close>.
\<close>

section \<open>Judgments\<close>

record citation =
  ci_evidence_id :: string
  ci_quote :: string

record dimension_judgment =
  jd_rating :: "int option"
  jd_rationale :: string
  jd_counterevidence :: string
  jd_citations :: "citation list"

definition valid_judgment :: "dimension_judgment \<Rightarrow> bool" where
  "valid_judgment j \<longleftrightarrow>
     (case jd_rating j of None \<Rightarrow> True | Some r \<Rightarrow> 0 \<le> r \<and> r \<le> 4) \<and>
     20 \<le> length (jd_rationale j) \<and> length (jd_rationale j) \<le> 600 \<and>
     1 \<le> length (jd_counterevidence j) \<and> length (jd_counterevidence j) \<le> 400 \<and>
     length (jd_citations j) \<le> 3 \<and>
     list_all (\<lambda>c. 1 \<le> length (ci_evidence_id c) \<and> length (ci_evidence_id c) \<le> 240 \<and>
                  8 \<le> length (ci_quote c) \<and> length (ci_quote c) \<le> 240) (jd_citations j)"

record judge_response =
  jr_dimensions :: "(string \<times> dimension_judgment) list"
  jr_needs_review :: bool

record judge_item =
  ji_id :: string
  ji_kind :: string
  ji_content :: string

record judge_bundle =
  bd_task :: json
  bd_guidance :: json
  bd_behavior_percent :: rat
  bd_manual_requirements :: "json list"
  bd_ai_observed :: bool
  bd_evidence :: "judge_item list"

text \<open>\<open>" ".join(s.split())\<close>: the words of a text, one space between them.\<close>

function words :: "string \<Rightarrow> string list" where
  "words s =
     (let rest = dropWhile is_space s in
      if rest = [] then []
      else takeWhile (\<lambda>c. \<not> is_space c) rest # words (dropWhile (\<lambda>c. \<not> is_space c) rest))"
  by pat_completeness auto
termination
proof (relation "measure length", simp)
  fix s x assume x: "x = dropWhile is_space s" and ne: "x \<noteq> []"
  obtain c cs where c: "x = c # cs" using ne by (cases x) simp_all
  have "\<not> is_space (hd x)" using ne unfolding x by (rule hd_dropWhile)
  then have "\<not> is_space c" by (simp add: c)
  then have "dropWhile (\<lambda>c. \<not> is_space c) x = dropWhile (\<lambda>c. \<not> is_space c) cs" by (simp add: c)
  moreover have "length (dropWhile (\<lambda>c. \<not> is_space c) cs) \<le> length cs" by (rule length_dropWhile_le)
  moreover have "length x \<le> length s" unfolding x by (rule length_dropWhile_le)
  ultimately show "(dropWhile (\<lambda>c. \<not> is_space c) x, s) \<in> measure length" using c by simp
qed

declare words.simps [simp del]

definition squash :: "string \<Rightarrow> string" where
  "squash s = join '' '' (words s)"

definition required_kinds :: "(string \<times> string) list" where
  "required_kinds =
     [(''A_correctness'', ''external_evaluation''), (''C_fix_quality'', ''submitted_source''),
      (''D_ai_leverage'', ''ai_interaction''), (''F_communication'', ''candidate_statement'')]"

text \<open>The kinds of the cited items, when every citation quotes its item.\<close>

fun cited_kinds :: "judge_item list \<Rightarrow> citation list \<Rightarrow> py_exc + string list" where
  "cited_kinds evidence [] = Inr []"
| "cited_kinds evidence (c # cs) =
     (case find (\<lambda>e. ji_id e = ci_evidence_id c) evidence of
        None \<Rightarrow> Inl ValueError
      | Some item \<Rightarrow>
          if \<not> str_in (squash (ci_quote c)) (squash (ji_content item)) then Inl ValueError
          else bind (cited_kinds evidence cs) (\<lambda>ks. Inr (ji_kind item # ks)))"

definition judgment_supported :: "judge_item list \<Rightarrow> string \<times> dimension_judgment \<Rightarrow> py_exc + unit" where
  "judgment_supported evidence kj =
     (case kj of (key, j) \<Rightarrow>
        if jd_rating j = None then Inr ()
        else if jd_citations j = [] then Inl ValueError
        else bind (cited_kinds evidence (jd_citations j)) (\<lambda>kinds.
          case map_of required_kinds key of
            Some k \<Rightarrow> if k \<notin> set kinds then Inl ValueError else Inr ()
          | None \<Rightarrow> Inr ()))"

fun check_each :: "('a \<Rightarrow> py_exc + unit) \<Rightarrow> 'a list \<Rightarrow> py_exc + unit" where
  "check_each p [] = Inr ()"
| "check_each p (x # xs) = bind (p x) (\<lambda>_. check_each p xs)"

definition validate_judgment :: "judge_response \<Rightarrow> judge_bundle \<Rightarrow> py_exc + unit" where
  "validate_judgment response b =
     (if set (map fst (jr_dimensions response)) \<noteq> set (applicable_dimensions (bd_ai_observed b)) then Inl ValueError
      else if \<not> distinct (map ji_id (bd_evidence b)) then Inl ValueError
      else check_each (judgment_supported (bd_evidence b)) (jr_dimensions response))"

section \<open>The score of two judgments\<close>

definition prompt_version :: string where
  "prompt_version = ''automated-rubric-v1''"

record auto_totals =
  at_dimensions :: "json dict"
  at_weighted :: rat
  at_denominator :: int
  at_unresolved :: bool

definition outcome_flags :: "judge_bundle \<Rightarrow> string list" where
  "outcome_flags b =
     (if bd_behavior_percent b < 100 then [''unmet_behavioral_requirements''] else []) @
     (if bd_manual_requirements b \<noteq> [] then [''manual_coverage_unverified''] else [])"

text \<open>The verified outcome limits the correctness rating.\<close>

definition limited_rating :: "judge_bundle \<Rightarrow> string \<Rightarrow> rat \<Rightarrow> rat" where
  "limited_rating b key r =
     (if key = ''A_correctness'' then
        if bd_behavior_percent b = 0 then 0
        else if outcome_flags b \<noteq> [] then min r 2 else r
      else r)"

definition unrated :: "string \<Rightarrow> int \<Rightarrow> string \<Rightarrow> json" where
  "unrated label weight status = JObj [(''label'', JStr label), (''weight'', JInt weight), (''rating'', JNull), (''status'', JStr status)]"

definition aggregate_dimension ::
  "judge_response \<Rightarrow> judge_response \<Rightarrow> judge_bundle \<Rightarrow> string \<times> string \<times> int \<Rightarrow> auto_totals \<Rightarrow> py_exc + auto_totals" where
  "aggregate_dimension first second b criterion acc =
     (case criterion of (key, label, weight) \<Rightarrow>
       (case map_of (jr_dimensions first) key of
          None \<Rightarrow> Inr (acc\<lparr>at_dimensions := at_dimensions acc @ [(key, unrated label weight ''not_applicable'')]\<rparr>)
        | Some x \<Rightarrow>
            (case map_of (jr_dimensions second) key of
               None \<Rightarrow> Inl KeyError
             | Some y \<Rightarrow>
                 (case (jd_rating x, jd_rating y) of
                    (Some rx, Some ry) \<Rightarrow>
                      if \<bar>rx - ry\<bar> > 1
                      then Inr (acc\<lparr>at_unresolved := True,
                             at_dimensions := at_dimensions acc @ [(key, unrated label weight ''not_assessed'')]\<rparr>)
                      else (let rating = limited_rating b key (of_int (rx + ry) / 2) in
                        Inr (acc\<lparr>at_weighted := at_weighted acc + of_int weight * rating / 4,
                                 at_denominator := at_denominator acc + weight,
                                 at_dimensions := at_dimensions acc @ [(key, JObj [(''label'', JStr label),
                                   (''weight'', JInt weight), (''rating'', JFloat rating), (''status'', JStr ''automated''),
                                   (''rationale'', JStr (jd_rationale x)),
                                   (''counterevidence'', JStr (jd_counterevidence y))])]\<rparr>))
                  | _ \<Rightarrow> Inr (acc\<lparr>at_unresolved := True,
                         at_dimensions := at_dimensions acc @ [(key, unrated label weight ''not_assessed'')]\<rparr>)))))"

fun aggregate_dimensions ::
  "judge_response \<Rightarrow> judge_response \<Rightarrow> judge_bundle \<Rightarrow> (string \<times> string \<times> int) list \<Rightarrow> auto_totals \<Rightarrow> py_exc + auto_totals" where
  "aggregate_dimensions first second b [] acc = Inr acc"
| "aggregate_dimensions first second b (criterion # dims) acc =
     bind (aggregate_dimension first second b criterion acc) (aggregate_dimensions first second b dims)"

definition auto_outcome :: "judge_bundle \<Rightarrow> auto_totals \<Rightarrow> json \<Rightarrow> json dict" where
  "auto_outcome b tot total_score =
     [(''status'', JStr (if at_unresolved tot then ''needs_review'' else ''automated_practice'')),
      (''total_score'', total_score), (''rubric_version'', JStr rubric_version),
      (''prompt_version'', JStr prompt_version), (''grader_kind'', JStr ''ai''), (''authoritative'', JBool False),
      (''dimensions'', JObj (at_dimensions tot)), (''applicable_weight'', JInt (at_denominator tot)),
      (''review_flags'', JList (map JStr (outcome_flags b))),
      (''behavioral_score_percent'', JFloat (bd_behavior_percent b)),
      (''comparison_notice'', if bd_ai_observed b then JNull else JStr (''AI judgment was not observed. The adjusted '' @
         ''total excludes it and does not establish equivalent AI competence.'')),
      (''notice'', JStr (''Automated practice assessment; not a validated hiring decision. '' @
         ''Two blind model passes support the ratings; agreement does not prove accuracy.''))]"

definition aggregate_judgments :: "judge_response \<Rightarrow> judge_response \<Rightarrow> judge_bundle \<Rightarrow> py_exc + json dict" where
  "aggregate_judgments first second b =
     bind (validate_judgment first b) (\<lambda>_. bind (validate_judgment second b) (\<lambda>_.
     bind (aggregate_dimensions first second b dimensions
        \<lparr>at_dimensions = [], at_weighted = 0, at_denominator = 0,
         at_unresolved = jr_needs_review first \<or> jr_needs_review second\<rparr>) (\<lambda>tot.
     bind (if at_unresolved tot then Inr JNull
           else bind (py_div (100 * at_weighted tot) (of_int (at_denominator tot))) (\<lambda>q. Inr (JFloat (py_round 1 q))))
       (\<lambda>total_score. Inr (auto_outcome b tot total_score)))))"

section \<open>The evidence bundle\<close>

record event_row =
  er_id :: string
  er_event_type :: string
  er_payload :: json

record message_row =
  mr_id :: string
  mr_role :: string
  mr_content :: string

text \<open>
  What the worker reads besides the review tables: the source files of a job, the events and the
  messages of a session in the order they were made, the texts of a challenge; and the texts of
  \<open>str\<close> and \<open>json.dumps\<close>.
\<close>

record auto_env =
  av_review :: review_env
  av_enabled :: bool
  av_py_repr :: "json \<Rightarrow> string"
  av_dumps :: "json \<Rightarrow> string"
  av_source :: "grading_job \<Rightarrow> (string \<times> string) list option"
  av_events :: "string \<Rightarrow> event_row list"
  av_messages :: "string \<Rightarrow> message_row list"
  av_task :: "string \<Rightarrow> json \<times> json"

definition defense_answers :: "interview_evaluation \<Rightarrow> json" where
  "defense_answers ev = py_or (dict_get (ie_metrics ev) ''defend_answers'' JNull) (JObj [])"

definition defense_complete :: "(json \<Rightarrow> string) \<Rightarrow> interview_evaluation \<Rightarrow> py_exc + bool" where
  "defense_complete py_repr ev =
     (if ie_defend_questions ev = [] then Inr False
      else bind (as_dict (defense_answers ev)) (\<lambda>answers.
        Inr (list_all (\<lambda>i. strip (py_str py_repr (dict_get answers (show_nat i) (JStr []))) \<noteq> [])
               [0..<length (ie_defend_questions ev)])))"

definition queue_state :: "(json \<Rightarrow> string) \<Rightarrow> interview_evaluation \<Rightarrow> py_exc + json" where
  "queue_state py_repr ev =
     bind (defense_complete py_repr ev) (\<lambda>c.
       Inr (JObj [(''status'', JStr (if c then ''queued'' else ''waiting_defense'')), (''attempts'', JInt 0),
                  (''prompt_version'', JStr prompt_version)]))"

definition source_items :: "(string \<times> string) list \<Rightarrow> judge_item list" where
  "source_items files =
     map (\<lambda>(path, content). \<lparr>ji_id = ''source:'' @ path, ji_kind = ''submitted_source'', ji_content = content\<rparr>)
       (filter (\<lambda>(path, _). \<not> list_ex (\<lambda>s. suffix s path) [''.lock'', ''package-lock.json'', ''yarn.lock'']) files)"

definition judged_event_types :: "string list" where
  "judged_event_types = [''file_changed'', ''test_result'', ''file_viewed'', ''ai_prompt'', ''ai_edit_accepted'',
     ''ai_edit_modified'', ''ai_edit_rejected'', ''ai_provider_error'']"

text \<open>An event counts when the packet has it with the digest of the payload as it is now.\<close>

definition event_items :: "auto_env \<Rightarrow> (json \<times> json dict) list \<Rightarrow> event_row list \<Rightarrow> judge_item list" where
  "event_items A known rows =
     List.map_filter (\<lambda>row.
       case map_of (rev known) (JStr (''event:'' @ er_id row)) of
         None \<Rightarrow> None
       | Some item \<Rightarrow>
           if map_of item ''payload_digest'' = Some (JStr (json_digest (re_grading (av_review A)) (er_payload row))) \<and>
              er_event_type row \<in> set judged_event_types
           then Some \<lparr>ji_id = ''event:'' @ er_id row, ji_kind = ''session_observation'',
                  ji_content = av_dumps A (JObj [(''event_type'', JStr (er_event_type row)), (''payload'', er_payload row)])\<rparr>
           else None) rows"

definition message_items :: "auto_env \<Rightarrow> message_row list \<Rightarrow> judge_item list" where
  "message_items A rows =
     map (\<lambda>m. \<lparr>ji_id = ''ai:'' @ mr_id m, ji_kind = ''ai_interaction'',
                ji_content = av_dumps A (JObj [(''role'', JStr (mr_role m)), (''content'', JStr (mr_content m))])\<rparr>) rows"

fun passed_sum :: "json list \<Rightarrow> py_exc + rat" where
  "passed_sum [] = Inr 0"
| "passed_sum (c # cs) =
     bind (to_dict c) (\<lambda>d. bind (dict_item d ''passed'') (\<lambda>p. bind (review_number p) (\<lambda>n.
     bind (passed_sum cs) (\<lambda>s. Inr (n + s)))))"

definition make_bundle ::
  "auto_env \<Rightarrow> session_row \<Rightarrow> grading_job \<Rightarrow> interview_evaluation \<Rightarrow> json dict \<Rightarrow> py_exc + judge_bundle" where
  "make_bundle A session job ev assessment =
     (case av_source A job of
        None \<Rightarrow> Inl ValueError
      | Some files \<Rightarrow>
          bind (as_dict (defense_answers ev)) (\<lambda>answers.
          bind (dict_item assessment ''packet'') (\<lambda>p. bind (to_dict p) (\<lambda>packet.
          bind (dict_item packet ''evidence'') (\<lambda>l. bind (to_list l) (\<lambda>items.
          bind (evidence_index items) (\<lambda>known.
          let rows = av_events A (sr_id session);
              observed = truthy (dict_get packet ''ai_available'' JNull) in
          if length rows > 1000 then Inl ValueError
          else bind (to_dict (case gj_result job of Some r \<Rightarrow> r | None \<Rightarrow> JNull)) (\<lambda>env.
            bind (dict_item env ''payload'') (\<lambda>pl. bind (as_dict pl) (\<lambda>payload.
            bind (dict_item payload ''score_percent'') (\<lambda>sp. bind (review_number sp) (\<lambda>percent.
            bind (dict_item payload ''cases'') (\<lambda>cs. bind (to_list cs) (\<lambda>cases.
            bind (passed_sum cases) (\<lambda>passed.
            bind (to_list (dict_get payload ''manual_requirements'' (JList []))) (\<lambda>manual.
            let result = JObj [(''score_percent'', sp), (''passed_checks'', JInt (py_int passed)),
                  (''total_checks'', JInt (int (length cases))), (''manual_requirements'', JList manual)];
                evidence = source_items files @
                  map (\<lambda>(index, answer). \<lparr>ji_id = ''defend:'' @ index, ji_kind = ''candidate_statement'',
                        ji_content = py_str (av_py_repr A) answer\<rparr>) (sort_key fst answers) @
                  event_items A known rows @
                  (if observed then message_items A (av_messages A (sr_id session)) else []) @
                  [\<lparr>ji_id = ''evaluation:trusted'', ji_kind = ''external_evaluation'', ji_content = av_dumps A result\<rparr>]
            in Inr \<lparr>bd_task = fst (av_task A (sr_challenge_slug session)), bd_guidance = snd (av_task A (sr_challenge_slug session)),
                    bd_behavior_percent = percent, bd_manual_requirements = manual, bd_ai_observed = observed,
                    bd_evidence = evidence\<rparr>))))))))))))))))"

section \<open>The worker\<close>

text \<open>A submitted session has the time of its submission.\<close>

record auto_session =
  xs_id :: string
  xs_status :: string
  xs_submitted_at :: time

definition ai_lease_seconds :: rat where "ai_lease_seconds = 360"

definition ai_max_attempts :: int where "ai_max_attempts = 2"

text \<open>\<open>metrics["auto_grading"]["status"].as_string()\<close> in the query.\<close>

definition auto_status :: "json dict \<Rightarrow> string option" where
  "auto_status metrics =
     (case map_of metrics ''auto_grading'' of
        Some (JObj d) \<Rightarrow> (case map_of d ''status'' of Some (JStr s) \<Rightarrow> Some s | _ \<Rightarrow> None)
      | _ \<Rightarrow> None)"

definition auto_candidates :: "auto_session list \<Rightarrow> grading_db \<Rightarrow> string list" where
  "auto_candidates sessions db =
     take 30 (map xs_id (sort_key xs_submitted_at (filter (\<lambda>s.
       xs_status s = ''submitted'' \<and>
       (case row_get gj_session_id (xs_id s) (gd_jobs db) of Some j \<Rightarrow> gj_status j = GradingCompleted | None \<Rightarrow> False) \<and>
       (case row_get ie_session_id (xs_id s) (gd_evaluations db) of
          None \<Rightarrow> False
        | Some e \<Rightarrow> ie_scoring_version e = rubric_version \<and>
            (case auto_status (ie_metrics e) of
               None \<Rightarrow> True | Some st \<Rightarrow> st \<in> set [''queued'', ''running'', ''retry_pending'']))) sessions)))"

text \<open>\<open>metrics.get(key) or {}\<close> read as a dictionary.\<close>

definition sub_dict :: "json dict \<Rightarrow> string \<Rightarrow> py_exc + json dict" where
  "sub_dict metrics key = as_dict (py_or (dict_get metrics key JNull) (JObj []))"

definition json_int :: "json \<Rightarrow> py_exc + int" where
  "json_int j = (case j of JInt i \<Rightarrow> Inr i | JBool b \<Rightarrow> Inr (of_bool b) | _ \<Rightarrow> Inl TypeError)"

text \<open>\<open>d.get(key, 0) > now\<close>\<close>

definition later_than :: "json dict \<Rightarrow> string \<Rightarrow> rat \<Rightarrow> py_exc + bool" where
  "later_than d key now = bind (review_number (dict_get d key (JInt 0))) (\<lambda>x. Inr (x > now))"

definition running_state :: "string \<Rightarrow> rat \<Rightarrow> int \<Rightarrow> json \<Rightarrow> json" where
  "running_state token now attempts packet_digest =
     JObj [(''status'', JStr ''running''), (''lease_token'', JStr token), (''lease_until'', JFloat (now + ai_lease_seconds)),
           (''attempts'', JInt (attempts + 1)), (''packet_digest'', packet_digest), (''prompt_version'', JStr prompt_version)]"

text \<open>What the scan does with a session: nothing, new metrics, or new metrics and a claim.\<close>

datatype scan_result = LeaveSession | StoreMetrics "json dict" | ClaimSession "json dict" json int

definition scan_one :: "(json \<Rightarrow> string) \<Rightarrow> rat \<Rightarrow> string \<Rightarrow> interview_evaluation \<Rightarrow> py_exc + scan_result" where
  "scan_one py_repr now token ev =
     (let metrics = ie_metrics ev in
      bind (sub_dict metrics ''auto_grading'') (\<lambda>prior.
      bind (if map_of prior ''status'' = Some (JStr ''running'') then later_than prior ''lease_until'' now else Inr False) (\<lambda>leased.
      if leased then Inr LeaveSession
      else bind (later_than prior ''next_attempt_at'' now) (\<lambda>waiting.
        if waiting then Inr LeaveSession
        else bind (defense_complete py_repr ev) (\<lambda>complete.
          if \<not> complete
          then bind (queue_state py_repr ev) (\<lambda>q. Inr (StoreMetrics (set_key ''auto_grading'' q metrics)))
          else bind (json_int (dict_get prior ''attempts'' (JInt 0))) (\<lambda>attempts.
            if attempts \<ge> ai_max_attempts
            then Inr (StoreMetrics (set_key ''auto_grading''
                   (JObj (set_key ''reason'' (JStr ''retry_limit'') (set_key ''status'' (JStr ''needs_review'') prior))) metrics))
            else bind (sub_dict metrics ''assessment'') (\<lambda>assessment.
              let digest = dict_get assessment ''packet_digest'' JNull in
              Inr (ClaimSession (set_key ''auto_grading'' (running_state token now attempts digest) metrics)
                     digest (attempts + 1)))))))))"

definition store_metrics :: "string \<Rightarrow> json dict \<Rightarrow> grading_db \<Rightarrow> grading_db" where
  "store_metrics sid metrics db =
     db\<lparr>gd_evaluations := row_upd ie_session_id sid (\<lambda>e. e\<lparr>ie_metrics := metrics\<rparr>) (gd_evaluations db)\<rparr>"

text \<open>
  The scan commits after every session; a session whose row another transaction has locked is
  passed over. A claim ends it.
\<close>

fun scan_sessions ::
  "(json \<Rightarrow> string) \<Rightarrow> rat \<Rightarrow> string \<Rightarrow> (string \<Rightarrow> bool) \<Rightarrow> string list \<Rightarrow> grading_db \<Rightarrow>
    grading_db \<times> (py_exc + (string \<times> json \<times> int) option)" where
  "scan_sessions py_repr now token locked [] db = (db, Inr None)"
| "scan_sessions py_repr now token locked (sid # sids) db =
     (if locked sid then scan_sessions py_repr now token locked sids db
      else (case row_get ie_session_id sid (gd_evaluations db) of
         None \<Rightarrow> (db, Inl NoResultFound)
       | Some ev \<Rightarrow>
           (case scan_one py_repr now token ev of
              Inl e \<Rightarrow> (db, Inl e)
            | Inr LeaveSession \<Rightarrow> scan_sessions py_repr now token locked sids db
            | Inr (StoreMetrics m) \<Rightarrow> scan_sessions py_repr now token locked sids (store_metrics sid m db)
            | Inr (ClaimSession m digest attempts) \<Rightarrow> (store_metrics sid m db, Inr (Some (sid, digest, attempts))))))"

text \<open>
  The graded state. A pass of the model gives a response and its metadata, or fails; the response
  is checked as soon as it arrives.
\<close>

type_synonym judge = "bool \<Rightarrow> judge_bundle \<Rightarrow> (judge_response \<times> json dict) option"

definition judge_once :: "judge \<Rightarrow> bool \<Rightarrow> judge_bundle \<Rightarrow> py_exc + judge_response \<times> json dict" where
  "judge_once model audit b =
     (case model audit b of
        None \<Rightarrow> Inl ValueError
      | Some (response, meta) \<Rightarrow> bind (validate_judgment response b) (\<lambda>_. Inr (response, meta)))"

definition dump_judgment :: "dimension_judgment \<Rightarrow> json" where
  "dump_judgment j = JObj [(''rating'', json_opt JInt (jd_rating j)), (''rationale'', JStr (jd_rationale j)),
     (''counterevidence'', JStr (jd_counterevidence j)),
     (''citations'', JList (map (\<lambda>c. JObj [(''evidence_id'', JStr (ci_evidence_id c)), (''quote'', JStr (ci_quote c))]) (jd_citations j)))]"

definition dump_response :: "judge_response \<Rightarrow> json" where
  "dump_response r = JObj [(''dimensions'', JObj (map (\<lambda>(k, j). (k, dump_judgment j)) (jr_dimensions r))),
     (''needs_review'', JBool (jr_needs_review r))]"

definition bundle_json :: "judge_bundle \<Rightarrow> json" where
  "bundle_json b = JObj [(''task'', bd_task b), (''guidance'', bd_guidance b), (''behavior_percent'', JFloat (bd_behavior_percent b)),
     (''manual_requirements'', JList (bd_manual_requirements b)), (''ai_observed'', JBool (bd_ai_observed b)),
     (''evidence'', JList (map (\<lambda>e. JObj [(''id'', JStr (ji_id e)), (''kind'', JStr (ji_kind e)),
        (''content'', JStr (ji_content e))]) (bd_evidence b)))]"

definition grade_claimed ::
  "auto_env \<Rightarrow> judge \<Rightarrow> review_db \<Rightarrow> string \<times> json \<times> int \<Rightarrow> json dict option" where
  "grade_claimed A model db claimed =
     (case claimed of (sid, original_digest, attempts) \<Rightarrow>
       (case review_context (av_review A) db sid None of
          Inl _ \<Rightarrow> None
        | Inr (session, job, ev, assessment) \<Rightarrow>
            (case bind (make_bundle A session job ev assessment) (\<lambda>b.
                 bind (judge_once model False b) (\<lambda>(first, meta1).
                 bind (judge_once model True b) (\<lambda>(second, meta2).
                 bind (aggregate_judgments first second b) (\<lambda>result.
                 bind (dict_item meta1 ''model'') (\<lambda>used_model.
                   let dig = JStr (json_digest (re_grading (av_review A)) (bundle_json b));
                       result' = set_key ''input_digest'' dig (set_key ''model'' used_model
                         (set_key ''source_digest'' (JStr (gj_source_digest job)) (set_key ''packet_digest'' original_digest result)))
                   in Inr [(''status'', dict_get result' ''status'' JNull), (''outcome'', JObj result'), (''input_digest'', dig),
                       (''evidence_manifest'', JList (map (\<lambda>e. JObj [(''id'', JStr (ji_id e)), (''kind'', JStr (ji_kind e)),
                          (''digest'', JStr (json_digest (re_grading (av_review A)) (JStr (ji_content e))))]) (bd_evidence b))),
                       (''defense_snapshot'', defense_answers ev),
                       (''passes'', JList [dump_response first, dump_response second]),
                       (''provider_metadata'', JList [JObj meta1, JObj meta2]), (''attempts'', JInt attempts),
                       (''prompt_version'', JStr prompt_version)]))))) of
               Inl _ \<Rightarrow> None | Inr final \<Rightarrow> Some final)))"

definition failed_state :: "rat \<Rightarrow> int \<Rightarrow> json dict" where
  "failed_state now attempts =
     [(''status'', JStr (if attempts < ai_max_attempts then ''retry_pending'' else ''needs_review'')),
      (''reason'', JStr ''grading_unavailable''), (''next_attempt_at'', JFloat (now + 60)),
      (''attempts'', JInt attempts), (''prompt_version'', JStr prompt_version)]"

text \<open>The last five of a list.\<close>

definition last5 :: "'a list \<Rightarrow> 'a list" where
  "last5 xs = drop (length xs - 5) xs"

text \<open>
  The final state is stored only under the lease it was made with, while the lease lasts, and for the
  evidence it was made from; otherwise the transaction is rolled back (\<open>None\<close>).
\<close>

definition publish_auto :: "string \<Rightarrow> json \<Rightarrow> json dict \<Rightarrow> rat \<Rightarrow> json dict \<Rightarrow> py_exc + json dict option" where
  "publish_auto token original_digest final now metrics =
     bind (sub_dict metrics ''auto_grading'') (\<lambda>current.
     if map_of current ''lease_token'' \<noteq> Some (JStr token) then Inr None
     else bind (later_than current ''lease_until'' now) (\<lambda>alive.
       if \<not> alive then Inr None
       else bind (sub_dict metrics ''assessment'') (\<lambda>assessment.
         if dict_get assessment ''packet_digest'' JNull \<noteq> original_digest then Inr None
         else bind (to_list (py_or (dict_get metrics ''auto_grading_history'' JNull) (JList []))) (\<lambda>history.
           let history' = (if truthy (dict_get current ''outcome'' JNull) then history @ [JObj current] else history)
           in Inr (Some (set_key ''auto_grading'' (JObj final)
                    (set_key ''auto_grading_history'' (JList (last5 history')) metrics)))))))"

text \<open>
  One round: the claim, the two model passes on what the tables hold then, whatever other
  transactions do meanwhile, and the publication. A cancelled worker leaves its lease behind.
\<close>

definition process_one_ai_grade ::
  "auto_env \<Rightarrow> judge \<Rightarrow> bool \<Rightarrow> string \<Rightarrow> (string \<Rightarrow> bool) \<Rightarrow> auto_session list \<Rightarrow> rat \<Rightarrow> rat \<Rightarrow> rat \<Rightarrow>
    (review_db \<Rightarrow> review_db) \<Rightarrow> review_db \<Rightarrow> review_db \<times> (py_exc + bool)" where
  "process_one_ai_grade A model cancelled token locked sessions t0 t1 t2 meanwhile db =
     (if \<not> av_enabled A then (db, Inr False)
      else (case scan_sessions (av_py_repr A) t0 token locked (auto_candidates sessions (rb_grading db)) (rb_grading db) of
         (g, Inl e) \<Rightarrow> (db\<lparr>rb_grading := g\<rparr>, Inl e)
       | (g, Inr None) \<Rightarrow> (db\<lparr>rb_grading := g\<rparr>, Inr False)
       | (g, Inr (Some (sid, digest, attempts))) \<Rightarrow>
           (let db1 = db\<lparr>rb_grading := g\<rparr>;
                final = (case grade_claimed A model db1 (sid, digest, attempts) of
                           Some f \<Rightarrow> f | None \<Rightarrow> failed_state t1 attempts);
                db2 = meanwhile db1
            in if cancelled then (db2, Inr True)
               else (case row_get ie_session_id sid (gd_evaluations (rb_grading db2)) of
                  None \<Rightarrow> (db2, Inl NoResultFound)
                | Some ev \<Rightarrow>
                    (case publish_auto token digest final t2 (ie_metrics ev) of
                       Inl e \<Rightarrow> (db2, Inl e)
                     | Inr None \<Rightarrow> (db2, Inr True)
                     | Inr (Some m) \<Rightarrow> (db2\<lparr>rb_grading := store_metrics sid m (rb_grading db2)\<rparr>, Inr True))))))"

definition allowed_outcome_keys :: "string list" where
  "allowed_outcome_keys =
     [''status'', ''total_score'', ''rubric_version'', ''prompt_version'', ''grader_kind'', ''authoritative'',
      ''dimensions'', ''applicable_weight'', ''review_flags'', ''behavioral_score_percent'',
      ''comparison_notice'', ''notice'', ''model'']"

definition candidate_auto_assessment :: "bool \<Rightarrow> json dict \<Rightarrow> py_exc + json dict option" where
  "candidate_auto_assessment auto_enabled metrics =
     (if \<not> auto_enabled then Inr None
      else bind (sub_dict metrics ''auto_grading'') (\<lambda>state.
        let result = dict_get state ''outcome'' JNull in
        bind (sub_dict metrics ''assessment'') (\<lambda>assessment.
        if \<not> truthy result then Inr None
        else bind (as_dict result) (\<lambda>d.
          if dict_get d ''packet_digest'' JNull \<noteq> dict_get assessment ''packet_digest'' JNull \<or>
             map_of d ''rubric_version'' \<noteq> Some (JStr rubric_version) \<or>
             map_of d ''prompt_version'' \<noteq> Some (JStr prompt_version)
          then Inr None
          else Inr (Some (filter (\<lambda>(k, v). k \<in> set allowed_outcome_keys) d))))))"

section \<open>Limits of the automated score\<close>

text \<open>The most a criterion can be rated under the verified outcome.\<close>

definition rating_cap :: "judge_bundle \<Rightarrow> string \<Rightarrow> rat" where
  "rating_cap b key =
     (if key = ''A_correctness'' then
        if bd_behavior_percent b = 0 then 0 else if outcome_flags b \<noteq> [] then 2 else 4
      else 4)"

lemma limited_rating_bounds: "0 \<le> r \<Longrightarrow> r \<le> 4 \<Longrightarrow> 0 \<le> limited_rating b key r \<and> limited_rating b key r \<le> rating_cap b key"
  by (simp add: limited_rating_def rating_cap_def)

lemma rating_cap_le: "0 \<le> rating_cap b key" "rating_cap b key \<le> 4"
  by (simp_all add: rating_cap_def)

text \<open>A criterion of an outcome: its label and weight, and a rating on the scale or none.\<close>

definition criterion_typed :: "string \<times> json \<Rightarrow> bool" where
  "criterion_typed kv \<longleftrightarrow>
     (case snd kv of
        JObj d \<Rightarrow>
          (case map_of d ''label'' of Some (JStr _) \<Rightarrow> True | _ \<Rightarrow> False) \<and>
          (case map_of d ''weight'' of Some (JInt w) \<Rightarrow> 0 < w | _ \<Rightarrow> False) \<and>
          (case (map_of d ''rating'', map_of d ''status'') of
             (Some JNull, Some (JStr s)) \<Rightarrow> s \<in> set [''not_applicable'', ''not_assessed'']
           | (Some (JFloat r), Some (JStr s)) \<Rightarrow> 0 \<le> r \<and> r \<le> 4 \<and> s = ''automated''
           | _ \<Rightarrow> False)
      | _ \<Rightarrow> False)"

definition ratings_valid :: "judge_response \<Rightarrow> bool" where
  "ratings_valid r \<longleftrightarrow> list_all (\<lambda>(k, j). valid_judgment j) (jr_dimensions r)"

lemma ratings_validD: "ratings_valid r \<Longrightarrow> map_of (jr_dimensions r) k = Some j \<Longrightarrow> jd_rating j = Some n \<Longrightarrow> 0 \<le> n \<and> n \<le> 4"
  by (drule map_of_SomeD) (auto simp: ratings_valid_def list_all_iff valid_judgment_def)

text \<open>The criteria a response rates or leaves open, with the weight and the cap of each.\<close>

definition judged :: "judge_response \<Rightarrow> (string \<times> string \<times> int) list \<Rightarrow> (string \<times> string \<times> int) list" where
  "judged r dims = filter (\<lambda>(k, l, w). map_of (jr_dimensions r) k \<noteq> None) dims"

definition cap_sum :: "judge_bundle \<Rightarrow> (string \<times> string \<times> int) list \<Rightarrow> rat" where
  "cap_sum b dims = sum_list (map (\<lambda>(k, l, w). of_int w * rating_cap b k / 4) dims)"

lemma aggregate_dimension_step:
  assumes "aggregate_dimension first second b (key, label, weight) acc = Inr tot"
    and "ratings_valid first" "ratings_valid second" "0 < weight"
  shows "(\<exists>d. at_dimensions tot = at_dimensions acc @ [(key, d)] \<and> criterion_typed (key, d))"
    "\<not> at_unresolved tot \<Longrightarrow> \<not> at_unresolved acc \<and>
       at_denominator tot = at_denominator acc + (if map_of (jr_dimensions first) key = None then 0 else weight) \<and>
       at_weighted acc \<le> at_weighted tot \<and>
       at_weighted tot \<le> at_weighted acc + cap_sum b (judged first [(key, label, weight)])"
proof -
  consider (na) "map_of (jr_dimensions first) key = None"
      "tot = acc\<lparr>at_dimensions := at_dimensions acc @ [(key, unrated label weight ''not_applicable'')]\<rparr>"
    | (left_open) "map_of (jr_dimensions first) key \<noteq> None"
      "tot = acc\<lparr>at_unresolved := True, at_dimensions := at_dimensions acc @ [(key, unrated label weight ''not_assessed'')]\<rparr>"
    | (rated) x y rx ry where "map_of (jr_dimensions first) key = Some x" "map_of (jr_dimensions second) key = Some y"
      "jd_rating x = Some rx" "jd_rating y = Some ry"
      "tot = acc\<lparr>at_weighted := at_weighted acc + of_int weight * limited_rating b key (of_int (rx + ry) / 2) / 4,
         at_denominator := at_denominator acc + weight,
         at_dimensions := at_dimensions acc @ [(key, JObj [(''label'', JStr label), (''weight'', JInt weight),
           (''rating'', JFloat (limited_rating b key (of_int (rx + ry) / 2))), (''status'', JStr ''automated''),
           (''rationale'', JStr (jd_rationale x)), (''counterevidence'', JStr (jd_counterevidence y))])]\<rparr>"
    using assms(1) unfolding aggregate_dimension_def Let_def
    by (auto split: option.splits if_splits)
  then have "(\<exists>d. at_dimensions tot = at_dimensions acc @ [(key, d)] \<and> criterion_typed (key, d)) \<and>
    (\<not> at_unresolved tot \<longrightarrow> \<not> at_unresolved acc \<and>
       at_denominator tot = at_denominator acc + (if map_of (jr_dimensions first) key = None then 0 else weight) \<and>
       at_weighted acc \<le> at_weighted tot \<and>
       at_weighted tot \<le> at_weighted acc + cap_sum b (judged first [(key, label, weight)]))"
  proof cases
    case na
    then show ?thesis using assms(4) by (simp add: criterion_typed_def unrated_def cap_sum_def judged_def)
  next
    case left_open
    then show ?thesis using assms(4) by (simp add: criterion_typed_def unrated_def)
  next
    case rated
    define r where "r = (of_int (rx + ry) / 2 :: rat)"
    have "0 \<le> r" "r \<le> 4"
      using ratings_validD [OF assms(2) rated(1,3)] ratings_validD [OF assms(3) rated(2,4)]
      unfolding r_def by (simp_all add: field_simps)
    from limited_rating_bounds [OF this] have lr: "0 \<le> limited_rating b key r" "limited_rating b key r \<le> rating_cap b key"
      by simp_all
    have le4: "limited_rating b key r \<le> 4" using lr(2) rating_cap_le(2) by (rule order_trans)
    have w: "0 \<le> (of_int weight :: rat)" using assms(4) by simp
    have "of_int weight * limited_rating b key r / 4 \<le> of_int weight * rating_cap b key / 4"
      using mult_left_mono [OF lr(2) w] by simp
    moreover have "0 \<le> of_int weight * limited_rating b key r / 4" using mult_nonneg_nonneg [OF w lr(1)] by simp
    ultimately show ?thesis
      using assms(4) lr(1) le4 rated(1) unfolding rated(5) r_def [symmetric]
      by (simp add: criterion_typed_def cap_sum_def judged_def)
  qed
  then show "(\<exists>d. at_dimensions tot = at_dimensions acc @ [(key, d)] \<and> criterion_typed (key, d))"
    "\<not> at_unresolved tot \<Longrightarrow> \<not> at_unresolved acc \<and>
       at_denominator tot = at_denominator acc + (if map_of (jr_dimensions first) key = None then 0 else weight) \<and>
       at_weighted acc \<le> at_weighted tot \<and>
       at_weighted tot \<le> at_weighted acc + cap_sum b (judged first [(key, label, weight)])"
    by simp_all
qed

lemma judged_Cons: "judged r (c # dims) = judged r [c] @ judged r dims"
  by (simp add: judged_def)

lemma cap_sum_append: "cap_sum b (xs @ ys) = cap_sum b xs + cap_sum b ys"
  by (simp add: cap_sum_def)

lemma aggregate_dimensions_sound:
  assumes "aggregate_dimensions first second b dims acc = Inr tot"
    and valid: "ratings_valid first" "ratings_valid second" and "list_all (\<lambda>(k, l, w). 0 < w) dims"
  shows "\<exists>ds. at_dimensions tot = at_dimensions acc @ ds \<and> map fst ds = map fst dims \<and> list_all criterion_typed ds"
    "\<not> at_unresolved tot \<Longrightarrow> \<not> at_unresolved acc \<and>
       at_denominator tot = at_denominator acc + sum_list (map (\<lambda>(k, l, w). w) (judged first dims)) \<and>
       at_weighted acc \<le> at_weighted tot \<and> at_weighted tot \<le> at_weighted acc + cap_sum b (judged first dims)"
  using assms(1,4)
proof (induction dims arbitrary: acc)
  case Nil
  { case 1 then show ?case by simp }
  { case 2 then show ?case by (simp add: judged_def cap_sum_def) }
next
  case (Cons c dims)
  obtain key label weight where c: "c = (key, label, weight)" by (cases c)
  have step: "\<exists>a1. aggregate_dimension first second b (key, label, weight) acc = Inr a1 \<and>
      aggregate_dimensions first second b dims a1 = Inr tot \<and> 0 < weight \<and> list_all (\<lambda>(k, l, w). 0 < w) dims"
    if "aggregate_dimensions first second b (c # dims) acc = Inr tot" "list_all (\<lambda>(k, l, w). 0 < w) (c # dims)" for acc
    using that c by (auto elim: bind_InrE)
  { case 1
    from step [OF 1] obtain a1 where a1: "aggregate_dimension first second b (key, label, weight) acc = Inr a1"
      "aggregate_dimensions first second b dims a1 = Inr tot" "0 < weight" "list_all (\<lambda>(k, l, w). 0 < w) dims" by blast
    obtain d where d: "at_dimensions a1 = at_dimensions acc @ [(key, d)]" "criterion_typed (key, d)"
      using aggregate_dimension_step(1) [OF a1(1) valid a1(3)] by blast
    obtain ds where "at_dimensions tot = at_dimensions a1 @ ds" "map fst ds = map fst dims" "list_all criterion_typed ds"
      using Cons.IH(1) [OF a1(2,4)] by blast
    with d show ?case by (intro exI [of _ "(key, d) # ds"]) (simp add: c) }
  { case 2
    from step [OF 2(2,3)] obtain a1 where a1: "aggregate_dimension first second b (key, label, weight) acc = Inr a1"
      "aggregate_dimensions first second b dims a1 = Inr tot" "0 < weight" "list_all (\<lambda>(k, l, w). 0 < w) dims" by blast
    note rest = Cons.IH(2) [OF 2(1) a1(2,4)]
    then have "\<not> at_unresolved a1" by simp
    note one = aggregate_dimension_step(2) [OF a1(1) valid a1(3) this]
    have sum: "sum_list (map (\<lambda>(k, l, w). w) (judged first [c])) = (if map_of (jr_dimensions first) key = None then 0 else weight)"
      by (simp add: judged_def c)
    show ?case using one rest unfolding judged_Cons [of first c dims] cap_sum_append map_append sum_list_append sum
      by (simp add: c) }
qed

text \<open>The criteria of a checked response.\<close>

lemma judged_dimensions:
  assumes "set (map fst (jr_dimensions r)) = set (applicable_dimensions ai)"
  shows "judged r dimensions = filter (\<lambda>(k, l, w). k \<in> set (applicable_dimensions ai)) dimensions"
  unfolding judged_def
proof (rule filter_cong [OF refl])
  fix x assume "x \<in> set dimensions"
  obtain k l w where x: "x = (k, l, w)" by (cases x)
  have "map_of (jr_dimensions r) k \<noteq> None \<longleftrightarrow> k \<in> set (map fst (jr_dimensions r))"
    by (simp add: map_of_eq_None_iff)
  then show "(case x of (k, l, w) \<Rightarrow> map_of (jr_dimensions r) k \<noteq> None) = (case x of (k, l, w) \<Rightarrow> k \<in> set (applicable_dimensions ai))"
    by (simp only: x prod.case assms)
qed

text \<open>The greatest total under a verified outcome.\<close>

definition total_cap :: "judge_bundle \<Rightarrow> rat" where
  "total_cap b = (if bd_behavior_percent b = 0 then 70 else if outcome_flags b \<noteq> [] then 85 else 100)"

lemma weighted_cap:
  fixes ai :: bool
  defines "js \<equiv> filter (\<lambda>(k, l, w). k \<in> set (applicable_dimensions ai)) dimensions"
  defines "W \<equiv> sum_list (map (\<lambda>(k, l, w). w) js)"
  shows "0 < W" "100 * cap_sum b js / of_int W \<le> total_cap b"
proof -
  have js: "js = (if ai then dimensions else filter (\<lambda>(k, l, w). k \<noteq> ''D_ai_leverage'') dimensions)"
    by (simp add: js_def applicable_dimensions_def dimensions_def)
  have W: "W = (if ai then 100 else 90)" unfolding W_def js by (simp add: dimensions_def)
  then show "0 < W" by simp
  have "cap_sum b js = 30 * rating_cap b ''A_correctness'' / 4 + (if ai then 70 else 60)"
    unfolding js by (simp add: cap_sum_def dimensions_def rating_cap_def)
  then show "100 * cap_sum b js / of_int W \<le> total_cap b" unfolding W
    by (simp add: rating_cap_def total_cap_def)
qed

lemma aggregate_judgments_Inr:
  assumes "aggregate_judgments first second b = Inr out"
  obtains tot total_score where
    "set (map fst (jr_dimensions first)) = set (applicable_dimensions (bd_ai_observed b))"
    "aggregate_dimensions first second b dimensions \<lparr>at_dimensions = [], at_weighted = 0, at_denominator = 0,
       at_unresolved = jr_needs_review first \<or> jr_needs_review second\<rparr> = Inr tot"
    "if at_unresolved tot then total_score = JNull
     else total_score = JFloat (py_round 1 (100 * at_weighted tot / of_int (at_denominator tot)))"
    "out = auto_outcome b tot total_score"
  using assms unfolding aggregate_judgments_def validate_judgment_def
  by (elim bind_InrE guard_InrE) (rule that, auto split: if_splits elim!: bind_InrE)

lemma aggregate_score_bounds:
  assumes "aggregate_dimensions first second b dimensions acc = Inr tot" "\<not> at_unresolved tot"
    and "ratings_valid first" "ratings_valid second"
    and "set (map fst (jr_dimensions first)) = set (applicable_dimensions (bd_ai_observed b))"
    and "at_weighted acc = 0" "at_denominator acc = 0"
  defines "s \<equiv> py_round 1 (100 * at_weighted tot / of_int (at_denominator tot))"
  shows "0 \<le> s \<and> s \<le> total_cap b"
proof -
  have pos: "list_all (\<lambda>(k, l, w). 0 < w) dimensions" by (simp add: dimensions_def)
  have t: "at_denominator tot = sum_list (map (\<lambda>(k, l, w). w) (judged first dimensions))"
    "0 \<le> at_weighted tot" "at_weighted tot \<le> cap_sum b (judged first dimensions)"
    using aggregate_dimensions_sound(2) [OF assms(1,3,4) pos assms(2)] assms(6,7) by simp_all
  note wc = weighted_cap(1) [of "bd_ai_observed b", folded judged_dimensions [OF assms(5)], folded t(1)]
    weighted_cap(2) [where ai = "bd_ai_observed b" and b = b, folded judged_dimensions [OF assms(5)], folded t(1)]
  have W: "0 < (of_int (at_denominator tot) :: rat)" using wc(1) by simp
  have "100 * at_weighted tot / of_int (at_denominator tot) \<le> 100 * cap_sum b (judged first dimensions) / of_int (at_denominator tot)"
    using t(3) W by (intro divide_right_mono) simp_all
  also note wc(2)
  finally have hi: "100 * at_weighted tot / of_int (at_denominator tot) \<le> total_cap b" .
  have lo: "0 \<le> 100 * at_weighted tot / of_int (at_denominator tot)" using t(2) W by simp
  have "py_round 1 (total_cap b) = total_cap b"
    using py_round_of_int [of 1 70] py_round_of_int [of 1 85] py_round_of_int [of 1 100] by (simp add: total_cap_def)
  with py_round_mono [OF hi, of 1] py_round_mono [OF lo, of 1] show ?thesis by (simp add: s_def)
qed

section \<open>Properties\<close>

text \<open>An outcome of the grader: a score exactly when it is not left for review, and every criterion of the rubric.\<close>

definition outcome_typed :: "json dict \<Rightarrow> bool" where
  "outcome_typed out \<longleftrightarrow>
     (case (map_of out ''status'', map_of out ''total_score'') of
        (Some (JStr st), Some JNull) \<Rightarrow> st = ''needs_review''
      | (Some (JStr st), Some (JFloat s)) \<Rightarrow> st = ''automated_practice'' \<and> 0 \<le> s \<and> s \<le> 100
      | _ \<Rightarrow> False) \<and>
     (case map_of out ''dimensions'' of
        Some (JObj ds) \<Rightarrow> map fst ds = map fst dimensions \<and> list_all criterion_typed ds
      | _ \<Rightarrow> False) \<and>
     map_of out ''authoritative'' = Some (JBool False)"

lemma auto_outcome_get:
  "map_of (auto_outcome b tot ts) ''status'' = Some (JStr (if at_unresolved tot then ''needs_review'' else ''automated_practice''))"
  "map_of (auto_outcome b tot ts) ''total_score'' = Some ts"
  "map_of (auto_outcome b tot ts) ''dimensions'' = Some (JObj (at_dimensions tot))"
  "map_of (auto_outcome b tot ts) ''authoritative'' = Some (JBool False)"
  by (simp_all add: auto_outcome_def)

lemma total_cap_le: "total_cap b \<le> 100"
  by (simp add: total_cap_def)


text \<open>
  C12: The model cannot grade over verified facts. Whatever two accepted judgments say, a total score is at
  most 85 when a behavioural check failed or manual requirements are not verified, and at most 70 when
  no behavioural check passed.
\<close>

theorem auto_score_limited:
  assumes "aggregate_judgments first second b = Inr out" "ratings_valid first" "ratings_valid second"
    and "map_of out ''total_score'' = Some (JFloat s)"
  shows "(bd_behavior_percent b < 100 \<or> bd_manual_requirements b \<noteq> [] \<longrightarrow> s \<le> 85) \<and>
         (bd_behavior_percent b = 0 \<longrightarrow> s \<le> 70)"
proof -
  obtain tot ts where keys: "set (map fst (jr_dimensions first)) = set (applicable_dimensions (bd_ai_observed b))"
    and agg: "aggregate_dimensions first second b dimensions \<lparr>at_dimensions = [], at_weighted = 0, at_denominator = 0,
       at_unresolved = jr_needs_review first \<or> jr_needs_review second\<rparr> = Inr tot"
    and ts: "if at_unresolved tot then ts = JNull
     else ts = JFloat (py_round 1 (100 * at_weighted tot / of_int (at_denominator tot)))"
    and out: "out = auto_outcome b tot ts"
    using assms(1) by (rule aggregate_judgments_Inr)
  have "ts = JFloat s" using assms(4) by (simp add: out auto_outcome_get)
  with ts have "\<not> at_unresolved tot" and s: "s = py_round 1 (100 * at_weighted tot / of_int (at_denominator tot))"
    by (auto split: if_splits)
  from aggregate_score_bounds [OF agg this(1) assms(2,3) keys]
  have "s \<le> total_cap b" by (simp add: s)
  then show ?thesis by (auto simp: total_cap_def outcome_flags_def split: if_splits)
qed

section \<open>An example\<close>

definition sample_bundle :: judge_bundle where
  "sample_bundle = \<lparr>bd_task = JNull, bd_guidance = JNull, bd_behavior_percent = 50, bd_manual_requirements = [],
     bd_ai_observed = False, bd_evidence = [
       \<lparr>ji_id = ''e'', ji_kind = ''external_evaluation'', ji_content = ''evidence  text''\<rparr>,
       \<lparr>ji_id = ''s'', ji_kind = ''submitted_source'', ji_content = ''evidence  text''\<rparr>,
       \<lparr>ji_id = ''d'', ji_kind = ''candidate_statement'', ji_content = ''evidence  text''\<rparr>]\<rparr>"

definition sample_response :: judge_response where
  "sample_response = \<lparr>jr_dimensions = map (\<lambda>(k, i). (k, \<lparr>jd_rating = Some 3, jd_rationale = replicate 20 CHR ''x'',
       jd_counterevidence = ''none'', jd_citations = [\<lparr>ci_evidence_id = i, ci_quote = ''evidence text''\<rparr>]\<rparr>))
     [(''A_correctness'', ''e''), (''B_investigation'', ''s''), (''C_fix_quality'', ''s''), (''E_verification'', ''s''),
      (''F_communication'', ''d'')], jr_needs_review = False\<rparr>"

lemma sample_quote: "str_in (squash ''evidence text'') (squash ''evidence  text'')"
  by code_simp

lemma sample_response_ok: "ratings_valid sample_response" "validate_judgment sample_response sample_bundle = Inr ()"
  by (simp add: ratings_valid_def sample_response_def valid_judgment_def)
    (simp add: validate_judgment_def sample_response_def sample_bundle_def applicable_dimensions_def dimensions_def
      judgment_supported_def required_kinds_def sample_quote)

lemma sample_aggregate:
  "\<exists>out. aggregate_judgments sample_response sample_response sample_bundle = Inr out \<and>
     map_of out ''total_score'' = Some (JFloat (py_round 1 (200 / 3)))"
  unfolding aggregate_judgments_def sample_response_ok bind_simps
  by (simp add: sample_response_def sample_bundle_def dimensions_def aggregate_dimension_def limited_rating_def
      outcome_flags_def auto_outcome_get)


theorem auto_score_limited_witness:
  "\<exists>out s. aggregate_judgments sample_response sample_response sample_bundle = Inr out \<and>
     map_of out ''total_score'' = Some (JFloat s) \<and> s \<le> 85"
proof -
  obtain out where out: "aggregate_judgments sample_response sample_response sample_bundle = Inr out"
    "map_of out ''total_score'' = Some (JFloat (py_round 1 (200 / 3)))" using sample_aggregate by blast
  have "bd_behavior_percent sample_bundle < 100" by (simp add: sample_bundle_def)
  with auto_score_limited [OF out(1) sample_response_ok(1) sample_response_ok(1) out(2)] out show ?thesis by blast
qed

end
