(* ===== verification/SandboxRelay.thy ===== *)
theory SandboxRelay
  imports AiBudget JsonText
begin

text \<open>
  The model relay of a sandbox (\<open>services/sandbox/relay.py\<close>) and the model policy
  (\<open>core/model_policy.py\<close>): the request a candidate's program posts, the budgets of calls, tokens and
  cost, the upstream call with its fallback over model ids, and the accounting. The provider is an
  argument: it answers the n-th request with a status, a body (when it is JSON) and a latency, or
  the transport fails. The text of \<open>str\<close> on containers and of \<open>json.dumps\<close> are arguments too.
\<close>

section \<open>Model policy\<close>

definition openai_chat_models :: "string list" where
  "openai_chat_models = [''gpt-4o'', ''gpt-4o-mini'', ''gpt-4-turbo'', ''gpt-3.5-turbo'']"

definition chat_models :: "string list" where
  "chat_models = openai_chat_models @ [''deepseek-flash'']"

text \<open>\<open>{m.lower(): m for m in allowed}\<close>: the first place, the last value.\<close>

definition canonical_by_lower :: "string list \<Rightarrow> (string \<times> string) list" where
  "canonical_by_lower allowed =
     fold (\<lambda>m d. if map_of d (to_lower m) = None then d @ [(to_lower m, m)]
                 else map (\<lambda>(k, v). (k, if k = to_lower m then m else v)) d) allowed []"

definition resolve_allowed_model :: "string \<Rightarrow> string list \<Rightarrow> string option" where
  "resolve_allowed_model model allowed =
     (let raw = strip model; lowered = to_lower raw; table = canonical_by_lower allowed in
      if raw = [] then None
      else (case map_of table lowered of
         Some direct \<Rightarrow> if direct \<noteq> [] then Some direct else
           map_option snd (find (\<lambda>(suf, m). suffix suf lowered) (concat (map (\<lambda>sep. map (\<lambda>(l, m). (sep @ l, m)) table) [''/'', '':'', ''.''])))
       | None \<Rightarrow>
           map_option snd (find (\<lambda>(suf, m). suffix suf lowered) (concat (map (\<lambda>sep. map (\<lambda>(l, m). (sep @ l, m)) table) [''/'', '':'', ''.''])))))"

section \<open>State\<close>

record relay_budget =
  rb_allowed_models :: "string list"
  rb_max_calls :: int
  rb_max_prompt_chars :: int
  rb_max_completion_tokens :: int
  rb_max_total_tokens :: int
  rb_max_total_cost_usd :: rat

record relay_call =
  rl_call_id :: string
  rl_model :: string
  rl_prompt :: string
  rl_system :: string
  rl_response :: string
  rl_temperature :: rat
  rl_tokens_prompt :: int
  rl_tokens_completion :: int
  rl_tokens_total :: int
  rl_latency_ms :: rat
  rl_cost_usd :: rat
  rl_retry_index :: int

record relay_state =
  ry_calls_started :: int
  ry_total_tokens :: int
  ry_total_cost_usd :: rat
  ry_records :: "relay_call list"

definition new_relay :: relay_state where
  "new_relay = \<lparr>ry_calls_started = 0, ry_total_tokens = 0, ry_total_cost_usd = 0, ry_records = []\<rparr>"

record relay_config =
  rc_api_key :: string
  rc_base_url :: string
  rc_default_model :: string
  rc_token :: string
  rc_identity :: "(string \<times> string) option"
  rc_budget :: relay_budget
  rc_budget_env :: budget_env
  rc_dialect :: dialect
  rc_now :: rat
  rc_dumps :: "json \<Rightarrow> string"
  rc_py_repr :: "json \<Rightarrow> string"

definition deepseek_url :: string where
  "deepseek_url = ''https://api.deepseek.com''"

text \<open>A \<open>RelayError\<close>, a transport error of the HTTP client, or an exception of the language.\<close>

datatype relay_error = RelayError int string | TransportError | RelayCrash py_exc

definition lift_py :: "py_exc + 'a \<Rightarrow> relay_error + 'a" where
  "lift_py m = (case m of Inl e \<Rightarrow> Inl (RelayCrash e) | Inr x \<Rightarrow> Inr x)"

section \<open>The request\<close>

definition validate_model :: "string \<Rightarrow> string list \<Rightarrow> relay_error + string" where
  "validate_model model allowed =
     (case resolve_allowed_model model allowed of
        Some m \<Rightarrow> if m \<noteq> [] then Inr m
          else Inl (RelayError 400 (''Model '' @ [char_of (39::nat)] @ model @ [char_of (39::nat)] @
                 '' is not allowed in the sandbox. Choose one of: '' @
                 join '', '' (if allowed = [] then chat_models else allowed) @ ''.''))
      | None \<Rightarrow> Inl (RelayError 400 (''Model '' @ [char_of (39::nat)] @ model @ [char_of (39::nat)] @
                 '' is not allowed in the sandbox. Choose one of: '' @
                 join '', '' (if allowed = [] then chat_models else allowed) @ ''.'')))"

record relay_request =
  rq_requested_model :: string
  rq_model :: string
  rq_prompt :: string
  rq_system :: string
  rq_max_tokens :: int
  rq_temperature :: rat

definition str_field :: "relay_config \<Rightarrow> json dict \<Rightarrow> string \<Rightarrow> string" where
  "str_field C payload k = py_str (rc_py_repr C) (py_or (dict_get payload k JNull) (JStr []))"

definition read_request :: "relay_config \<Rightarrow> json dict \<Rightarrow> relay_error + relay_request" where
  "read_request C payload =
     (let asked = str_field C payload ''model''; B = rc_budget C in
      bind (if rc_base_url C = deepseek_url
            then bind (validate_model asked chat_models) (\<lambda>_. Inr ''deepseek-flash'') else Inr asked) (\<lambda>requested.
      bind (validate_model requested (rb_allowed_models B)) (\<lambda>model.
      let prompt = str_field C payload ''prompt''; system = str_field C payload ''system'' in
      if strip prompt = [] then Inl (RelayError 400 ''Prompt cannot be empty.'')
      else if int (length prompt + length system) > rb_max_prompt_chars B
      then Inl (RelayError 400 (''Prompt too large for sandbox relay (>'' @ show_int (rb_max_prompt_chars B) @ '' chars).''))
      else bind (lift_py (py_int_of (py_or (dict_get payload ''max_tokens'' JNull) (JInt 0)))) (\<lambda>asked_tokens.
        if asked_tokens \<le> 0 then Inl (RelayError 400 ''max_tokens must be a positive integer.'')
        else bind (lift_py (py_float (py_or (dict_get payload ''temperature'' JNull) (JFloat 0)))) (\<lambda>temp.
          Inr \<lparr>rq_requested_model = requested, rq_model = model, rq_prompt = prompt, rq_system = system,
               rq_max_tokens = min asked_tokens (rb_max_completion_tokens B), rq_temperature = max 0 (min temp 2)\<rparr>)))))"

section \<open>Admission and accounting\<close>

definition admit_call :: "relay_budget \<Rightarrow> relay_state \<Rightarrow> relay_error + relay_state" where
  "admit_call B s =
     (if ry_calls_started s \<ge> rb_max_calls B then Inl (RelayError 429 ''Sandbox LLM call budget exhausted.'')
      else if ry_total_tokens s \<ge> rb_max_total_tokens B then Inl (RelayError 429 ''Sandbox token budget exhausted.'')
      else if ry_total_cost_usd s \<ge> rb_max_total_cost_usd B then Inl (RelayError 429 ''Sandbox cost budget exhausted.'')
      else Inr (s\<lparr>ry_calls_started := ry_calls_started s + 1\<rparr>))"

definition settle_call :: "rat \<Rightarrow> relay_call \<Rightarrow> relay_state \<Rightarrow> relay_state" where
  "settle_call cost call s =
     s\<lparr>ry_total_tokens := ry_total_tokens s + rl_tokens_total call,
       ry_total_cost_usd := ry_total_cost_usd s + cost,
       ry_records := ry_records s @ [call\<lparr>rl_cost_usd := py_round 6 cost\<rparr>]\<rparr>"

definition model_pricing :: "(string \<times> rat \<times> rat) list" where
  "model_pricing =
     [(''deepseek-flash'', 3 / 10000000, 12 / 10000000), (''gpt-4o'', 25 / 10000000, 100 / 10000000),
      (''gpt-4o-mini'', 15 / 100000000, 6 / 10000000), (''gpt-4-turbo'', 100 / 10000000, 300 / 10000000),
      (''gpt-3.5-turbo'', 5 / 10000000, 15 / 10000000)]"

definition default_pricing :: "rat \<times> rat" where
  "default_pricing = (50 / 10000000, 150 / 10000000)"

definition estimate_cost :: "string \<Rightarrow> int \<Rightarrow> int \<Rightarrow> rat" where
  "estimate_cost model prompt_tokens completion_tokens =
     (case (case map_of model_pricing model of Some p \<Rightarrow> p | None \<Rightarrow> default_pricing) of
        (prompt_rate, completion_rate) \<Rightarrow> of_int prompt_tokens * prompt_rate + of_int completion_tokens * completion_rate)"

section \<open>The upstream call\<close>

definition build_messages :: "string \<Rightarrow> string \<Rightarrow> json" where
  "build_messages system prompt =
     JList ((if strip system \<noteq> [] then [JObj [(''role'', JStr ''system''), (''content'', JStr system)]] else []) @
            [JObj [(''role'', JStr ''user''), (''content'', JStr prompt)]])"

definition add_candidate :: "string \<Rightarrow> string list \<Rightarrow> string list" where
  "add_candidate model_id cs =
     (let c = strip model_id in if c \<noteq> [] \<and> c \<notin> set cs then cs @ [c] else cs)"

definition build_model_candidates :: "string \<Rightarrow> string \<Rightarrow> string \<Rightarrow> string list \<Rightarrow> string list" where
  "build_model_candidates raw canonical_id default_model allowed =
     (let c1 = add_candidate raw [];
          c2 = (if default_model \<noteq> [] \<and> resolve_allowed_model default_model allowed = Some canonical_id
                then add_candidate default_model c1 else c1)
      in add_candidate (''openai:'' @ canonical_id) (add_candidate (''openai/'' @ canonical_id)
           (add_candidate (''protected.'' @ canonical_id) (add_candidate canonical_id c2))))"

definition is_model_not_found_error :: "int \<Rightarrow> string \<Rightarrow> bool" where
  "is_model_not_found_error status detail \<longleftrightarrow>
     status \<in> {400, 404} \<and>
     (let t = to_lower detail in str_in ''model not found'' t \<or> str_in ''model_not_found'' t \<or> str_in ''unknown model'' t)"

text \<open>The shared AI budget and the requests that were sent to the provider.\<close>

record relay_world =
  rw_budget :: "budget_row list txn"
  rw_sent :: "json dict list"

type_synonym provider = "nat \<Rightarrow> json dict \<Rightarrow> (int \<times> json option \<times> rat) option"

type_synonym 'w sender = "json dict \<Rightarrow> 'w \<Rightarrow> (relay_error + json \<times> rat) \<times> 'w"

definition send_upstream_request :: "relay_config \<Rightarrow> provider \<Rightarrow> int \<Rightarrow> relay_world sender" where
  "send_upstream_request C prov max_tokens payload w =
     (if rc_api_key C = [] then (Inl (RelayError 502 ''Sandbox relay is missing an upstream API key.''), w)
      else (case reserve_worker_budget (rc_budget_env C) (rc_dialect C) (rc_dumps C) (rc_now C) (rc_identity C)
                   (dict_get payload ''messages'' JNull) max_tokens (rw_budget w) of
         (x, Some e) \<Rightarrow> (Inl (RelayError (http_status e) (http_detail e)), w\<lparr>rw_budget := x\<rparr>)
       | (x, None) \<Rightarrow>
           (let w' = w\<lparr>rw_budget := x, rw_sent := rw_sent w @ [payload]\<rparr> in
            (case prov (length (rw_sent w)) payload of
               None \<Rightarrow> (Inl TransportError, w')
             | Some (status, body, latency_ms) \<Rightarrow>
                 if status = 401 then (Inl (RelayError 401 ''Invalid upstream AI API key.''), w')
                 else if status \<noteq> 200 then (Inl (RelayError status ''AI provider rejected the request.''), w')
                 else (case body of None \<Rightarrow> (Inl (RelayCrash ValueError), w') | Some j \<Rightarrow> (Inr (j, latency_ms), w'))))))"

text \<open>The loop over the model ids; \<open>tried\<close> is the whole list, for the messages.\<close>

fun try_candidates ::
  "'w sender \<Rightarrow> (string \<Rightarrow> json dict) \<Rightarrow> string list \<Rightarrow> string list \<Rightarrow> 'w \<Rightarrow> (relay_error + json \<times> rat \<times> string) \<times> 'w" where
  "try_candidates send payload_for tried [] w =
     (Inl (RelayError 502 (''Model selection failed for all tried ids: '' @ join '', '' tried)), w)"
| "try_candidates send payload_for tried (c # rest) w =
     (case send (payload_for c) w of
        (Inr (data, latency_ms), w') \<Rightarrow> (Inr (data, latency_ms, c), w')
      | (Inl (RelayError status detail), w') \<Rightarrow>
          if status = 401 then (Inl (RelayError 502 detail), w')
          else if is_model_not_found_error status detail
          then if rest \<noteq> [] then try_candidates send payload_for tried rest w'
               else (Inl (RelayError 502 (''Model not found for tried ids: '' @ join '', '' tried)), w')
          else (Inl (RelayError 502 (''Upstream model request failed with '' @ show_int status @ '': '' @ detail)), w')
      | (Inl e, w') \<Rightarrow> (Inl e, w'))"

definition upstream_payload :: "relay_config \<Rightarrow> relay_request \<Rightarrow> string \<Rightarrow> json dict" where
  "upstream_payload C r c =
     [(''model'', JStr c), (''messages'', build_messages (rq_system r) (rq_prompt r)),
      (''temperature'', JFloat (rq_temperature r)), (''max_tokens'', JInt (rq_max_tokens r)), (''stream'', JBool False)] @
     (if rc_base_url C = deepseek_url then [(''thinking'', JObj [(''type'', JStr ''disabled'')])] else [])"

definition send_with_fallback ::
  "relay_config \<Rightarrow> 'w sender \<Rightarrow> relay_request \<Rightarrow> 'w \<Rightarrow> (relay_error + json \<times> rat \<times> string) \<times> 'w" where
  "send_with_fallback C send r w =
     (let candidates = (if rc_base_url C = deepseek_url then [''deepseek-flash'']
            else build_model_candidates (rq_requested_model r) (rq_model r) (rc_default_model C) (rb_allowed_models (rc_budget C)))
      in try_candidates send (upstream_payload C r) candidates candidates w)"

record upstream_answer =
  ua_content :: string
  ua_model :: string
  ua_prompt_tokens :: int
  ua_completion_tokens :: int
  ua_total_tokens :: int

definition parse_upstream_payload :: "(json \<Rightarrow> string) \<Rightarrow> json \<Rightarrow> string \<Rightarrow> relay_error + upstream_answer" where
  "parse_upstream_payload py_repr data fallback_model =
     bind (lift_py (as_dict data)) (\<lambda>d.
     case dict_get d ''choices'' JNull of
       JList (first # _) \<Rightarrow>
         bind (lift_py (as_dict (py_or first (JObj [])))) (\<lambda>choice.
         bind (lift_py (as_dict (py_or (dict_get choice ''message'' JNull) (JObj [])))) (\<lambda>msg.
         bind (lift_py (as_dict (py_or (dict_get d ''usage'' (JObj [])) (JObj [])))) (\<lambda>usage.
         bind (lift_py (py_int_of (py_or (dict_get usage ''prompt_tokens'' JNull) (JInt 0)))) (\<lambda>p.
         bind (lift_py (py_int_of (py_or (dict_get usage ''completion_tokens'' JNull) (JInt 0)))) (\<lambda>c.
         bind (lift_py (py_int_of (py_or (dict_get usage ''total_tokens'' JNull) (JInt (p + c))))) (\<lambda>t.
           Inr \<lparr>ua_content = py_str py_repr (py_or (dict_get msg ''content'' JNull) (JStr [])),
                ua_model = py_str py_repr (py_or (dict_get d ''model'' JNull) (JStr fallback_model)),
                ua_prompt_tokens = p, ua_completion_tokens = c, ua_total_tokens = t\<rparr>))))))
     | _ \<Rightarrow> Inl (RelayError 502 ''Upstream model response was missing choices.''))"

definition relay_response :: "relay_budget \<Rightarrow> relay_call \<Rightarrow> rat \<Rightarrow> relay_state \<Rightarrow> json dict" where
  "relay_response B call cost s =
     [(''content'', JStr (rl_response call)), (''model'', JStr (rl_model call)),
      (''usage'', JObj [(''prompt_tokens'', JInt (rl_tokens_prompt call)),
         (''completion_tokens'', JInt (rl_tokens_completion call)), (''total_tokens'', JInt (rl_tokens_total call))]),
      (''latency_ms'', JFloat (rl_latency_ms call)), (''cost_usd'', JFloat (py_round 6 cost)),
      (''limits'', JObj [(''calls_used'', JInt (ry_calls_started s)),
         (''calls_remaining'', JInt (max 0 (rb_max_calls B - ry_calls_started s))),
         (''total_tokens_used'', JInt (ry_total_tokens s)), (''total_cost_usd'', JFloat (py_round 6 (ry_total_cost_usd s)))])]"

definition made_call :: "string \<Rightarrow> relay_request \<Rightarrow> upstream_answer \<Rightarrow> rat \<Rightarrow> relay_call" where
  "made_call call_id r a latency_ms =
     \<lparr>rl_call_id = call_id, rl_model = ua_model a, rl_prompt = rq_prompt r, rl_system = rq_system r,
      rl_response = ua_content a, rl_temperature = rq_temperature r, rl_tokens_prompt = ua_prompt_tokens a,
      rl_tokens_completion = ua_completion_tokens a, rl_tokens_total = ua_total_tokens a,
      rl_latency_ms = py_round 1 latency_ms, rl_cost_usd = 0, rl_retry_index = 0\<rparr>"

text \<open>One request from start to end, with no other request between admission and accounting.\<close>

definition handle_request ::
  "relay_config \<Rightarrow> (int \<Rightarrow> 'w sender) \<Rightarrow> string \<Rightarrow> json dict \<Rightarrow> relay_state \<times> 'w \<Rightarrow> (relay_error + json dict) \<times> relay_state \<times> 'w" where
  "handle_request C send call_id payload sw =
     (case sw of (s, w) \<Rightarrow>
       (case bind (read_request C payload) (\<lambda>r. bind (admit_call (rc_budget C) s) (\<lambda>s1. Inr (r, s1))) of
          Inl e \<Rightarrow> (Inl e, s, w)
        | Inr (r, s1) \<Rightarrow>
            (case send_with_fallback C (send (rq_max_tokens r)) r w of
               (Inl e, w1) \<Rightarrow> (Inl e, s1, w1)
             | (Inr (data, latency_ms, attempted), w1) \<Rightarrow>
                 (case parse_upstream_payload (rc_py_repr C) data attempted of
                    Inl e \<Rightarrow> (Inl e, s1, w1)
                  | Inr a \<Rightarrow>
                      (let cost = estimate_cost (ua_model a) (ua_prompt_tokens a) (ua_completion_tokens a);
                           call = made_call call_id r a latency_ms;
                           s2 = settle_call cost call s1
                       in (Inr (relay_response (rc_budget C) call cost s2), s2, w1))))))"

section \<open>The HTTP handler\<close>

record relay_post =
  ph_path :: string
  ph_authorization :: "string option"
  ph_content_length :: "string option"
  ph_transfer_encoding :: "string option"
  ph_body :: string

definition max_relay_body_bytes :: int where
  "max_relay_body_bytes = 262144"

definition error_reply :: "int \<Rightarrow> string \<Rightarrow> (int \<times> json) option" where
  "error_reply status detail = Some (status, JObj [(''detail'', JStr detail)])"

text \<open>
  \<open>None\<close>: an exception that the handler does not catch ends the connection without an answer.
  \<open>loads\<close> is \<open>json.loads\<close> on the bytes that were read.
\<close>

definition do_post ::
  "relay_config \<Rightarrow> (string \<Rightarrow> json option) \<Rightarrow> (int \<Rightarrow> 'w sender) \<Rightarrow> string \<Rightarrow> relay_post \<Rightarrow> relay_state \<times> 'w \<Rightarrow>
    (int \<times> json) option \<times> relay_state \<times> 'w" where
  "do_post C loads send call_id p sw =
     (if ph_path p \<noteq> ''/v1/llm/call'' then (error_reply 404 ''Unknown sandbox relay path.'', sw)
      else if (case ph_authorization p of Some a \<Rightarrow> a | None \<Rightarrow> []) \<noteq> ''Bearer '' @ rc_token C
      then (error_reply 401 ''Invalid sandbox relay token.'', sw)
      else (case parse_int (case ph_content_length p of Some l \<Rightarrow> if l = [] then ''0'' else l | None \<Rightarrow> ''0'') of
         None \<Rightarrow> (error_reply 400 ''Invalid Content-Length header.'', sw)
       | Some n \<Rightarrow>
           if n < 1 \<or> n > max_relay_body_bytes then (error_reply 413 ''Sandbox relay request too large.'', sw)
           else if (case ph_transfer_encoding p of Some e \<Rightarrow> e \<noteq> [] | None \<Rightarrow> False)
           then (error_reply 400 ''Unsupported request encoding.'', sw)
           else (let raw = take (nat n) (ph_body p) in
             case loads (if raw = [] then ''{}'' else raw) of
               None \<Rightarrow> (error_reply 400 ''Malformed JSON body.'', sw)
             | Some (JObj payload) \<Rightarrow>
                 (case handle_request C send call_id payload sw of
                    (Inr response, sw') \<Rightarrow> (Some (200, JObj response), sw')
                  | (Inl (RelayError status detail), sw') \<Rightarrow> (error_reply status detail, sw')
                  | (Inl TransportError, sw') \<Rightarrow> (error_reply 502 ''Sandbox relay upstream failure.'', sw')
                  | (Inl (RelayCrash e), sw') \<Rightarrow>
                      (if e \<in> set [TypeError, ValueError] then error_reply 502 ''Sandbox relay upstream failure.'' else None, sw'))
             | Some _ \<Rightarrow> (error_reply 400 ''Sandbox relay requires a JSON object.'', sw))))"

section \<open>Concurrent requests\<close>

text \<open>
  The server runs each request in a thread of its own, at most eight at a time. The lock makes
  admission and accounting atomic; between them the provider is called. \<open>RelayFail\<close> is a request
  that ends without accounting.
\<close>

definition request_slots :: nat where "request_slots = 8"

datatype relay_op = RelayBegin | RelaySettle rat relay_call | RelayFail

record relay_system =
  rs_relay :: relay_state
  rs_in_flight :: nat

definition relay_step :: "relay_budget \<Rightarrow> relay_op \<Rightarrow> relay_system \<Rightarrow> relay_system" where
  "relay_step B op y =
     (case op of
        RelayBegin \<Rightarrow>
          if rs_in_flight y \<ge> request_slots then y
          else (case admit_call B (rs_relay y) of
                  Inl _ \<Rightarrow> y
                | Inr s \<Rightarrow> y\<lparr>rs_relay := s, rs_in_flight := Suc (rs_in_flight y)\<rparr>)
      | RelaySettle cost call \<Rightarrow>
          if rs_in_flight y = 0 then y
          else y\<lparr>rs_relay := settle_call cost call (rs_relay y), rs_in_flight := rs_in_flight y - 1\<rparr>
      | RelayFail \<Rightarrow> y\<lparr>rs_in_flight := rs_in_flight y - 1\<rparr>)"

definition tokens_within :: "int \<Rightarrow> relay_op \<Rightarrow> bool" where
  "tokens_within T op \<longleftrightarrow> (case op of RelaySettle _ call \<Rightarrow> 0 \<le> rl_tokens_total call \<and> rl_tokens_total call \<le> T | _ \<Rightarrow> True)"

text \<open>The calls of a relay are a metered resource.\<close>

lemma admit_call_Inr:
  assumes "admit_call B s = Inr s'"
  shows "ry_calls_started s < rb_max_calls B" "ry_total_tokens s < rb_max_total_tokens B"
    "ry_total_cost_usd s < rb_max_total_cost_usd B" "s' = s\<lparr>ry_calls_started := ry_calls_started s + 1\<rparr>"
  using assms by (simp_all add: admit_call_def split: if_splits)

lemma admit_call_counts:
  "admit_call B s = Inr s' \<Longrightarrow> ry_calls_started s' = ry_calls_started s + 1 \<and> ry_calls_started s' \<le> rb_max_calls B"
  using admit_call_Inr(1,4) [of B s s'] by simp

interpretation relay_calls: metered ry_calls_started "\<lambda>_. rb_max_calls B" "\<lambda>_. 1"
    "\<lambda>s (_ :: unit). case admit_call B s of Inl _ \<Rightarrow> None | Inr s' \<Rightarrow> Some s'" for B
  by unfold_locales (auto dest: admit_call_counts split: sum.splits)

definition relay_invariant :: "relay_budget \<Rightarrow> int \<Rightarrow> relay_system \<Rightarrow> bool" where
  "relay_invariant B T y \<longleftrightarrow>
     ry_calls_started (rs_relay y) \<le> max 0 (rb_max_calls B) \<and> rs_in_flight y \<le> request_slots \<and>
     ry_total_tokens (rs_relay y) = sum_list (map rl_tokens_total (ry_records (rs_relay y))) \<and>
     int (length (ry_records (rs_relay y))) + int (rs_in_flight y) \<le> ry_calls_started (rs_relay y) \<and>
     ry_total_tokens (rs_relay y) + int (rs_in_flight y) * T \<le> max 0 (rb_max_total_tokens B - 1 + int request_slots * T)"

lemma relay_step_invariant:
  assumes inv: "relay_invariant B T y" and T: "0 \<le> T" and op: "tokens_within T op"
  shows "relay_invariant B T (relay_step B op y)"
proof (cases op)
  case RelayBegin
  show ?thesis
  proof (cases "rs_in_flight y \<ge> request_slots")
    case True
    with inv show ?thesis by (simp add: relay_step_def RelayBegin)
  next
    case False
    show ?thesis
    proof (cases "admit_call B (rs_relay y)")
      case (Inl e)
      with inv False show ?thesis by (simp add: relay_step_def RelayBegin)
    next
      case (Inr s)
      note adm = admit_call_Inr [OF Inr]
      have calls: "ry_calls_started s \<le> max 0 (rb_max_calls B)"
        using relay_calls.admit_within [where s = "rs_relay y" and s' = s and B = B] Inr by simp
      have "(1 + int (rs_in_flight y)) * T \<le> int request_slots * T"
        using False T by (intro mult_right_mono) simp_all
      then have "ry_total_tokens s + (1 + int (rs_in_flight y)) * T \<le> rb_max_total_tokens B - 1 + int request_slots * T"
        using adm(2,4) by simp
      with inv calls adm(4) False Inr show ?thesis
        by (simp add: relay_invariant_def relay_step_def RelayBegin le_max_iff_disj)
    qed
  qed
next
  case (RelaySettle cost call)
  show ?thesis
  proof (cases "rs_in_flight y")
    case 0
    with inv show ?thesis by (simp add: relay_step_def RelaySettle)
  next
    case (Suc n)
    have "0 \<le> rl_tokens_total call" "rl_tokens_total call \<le> T" using op by (simp_all add: tokens_within_def RelaySettle)
    with inv Suc show ?thesis
      by (simp add: relay_invariant_def relay_step_def RelaySettle settle_call_def algebra_simps)
  qed
next
  case RelayFail
  show ?thesis
  proof (cases "rs_in_flight y")
    case 0
    with inv show ?thesis by (simp add: relay_invariant_def relay_step_def RelayFail)
  next
    case (Suc n)
    with inv T show ?thesis by (simp add: relay_invariant_def relay_step_def RelayFail algebra_simps)
  qed
qed

lemma relay_run_invariant:
  assumes "relay_invariant B T y" "0 \<le> T" "list_all (tokens_within T) ops"
  shows "relay_invariant B T (fold (relay_step B) ops y)"
  using assms(1,3) by (induction ops arbitrary: y) (simp_all add: relay_step_invariant assms(2))

text \<open>
  C38: The budget of a relay under concurrency. Requests start, end and fail in any order, at most eight
  at a time, and the provider reports at most \<open>T\<close> tokens for a call. Then the calls never exceed their
  limit; the tokens the relay counts are exactly the sum over the calls it recorded; and, because a
  call is only admitted while the count is below the limit, the count exceeds the limit by less than
  eight calls' worth.
\<close>

theorem relay_budget_bounds:
  assumes "0 \<le> T" "list_all (tokens_within T) ops" "0 \<le> rb_max_calls B" "1 \<le> rb_max_total_tokens B"
  defines "s \<equiv> rs_relay (fold (relay_step B) ops \<lparr>rs_relay = new_relay, rs_in_flight = 0\<rparr>)"
  shows "ry_calls_started s \<le> rb_max_calls B \<and> int (length (ry_records s)) \<le> ry_calls_started s \<and>
     ry_total_tokens s = sum_list (map rl_tokens_total (ry_records s)) \<and>
     ry_total_tokens s < rb_max_total_tokens B + 8 * T"
proof -
  have "relay_invariant B T \<lparr>rs_relay = new_relay, rs_in_flight = 0\<rparr>"
    by (simp add: relay_invariant_def new_relay_def le_max_iff_disj)
  from relay_run_invariant [OF this assms(1,2)]
  have inv: "relay_invariant B T (fold (relay_step B) ops \<lparr>rs_relay = new_relay, rs_in_flight = 0\<rparr>)" .
  let ?n = "rs_in_flight (fold (relay_step B) ops \<lparr>rs_relay = new_relay, rs_in_flight = 0\<rparr>)"
  have "0 \<le> int ?n * T" using assms(1) by simp
  moreover have "0 \<le> rb_max_total_tokens B - 1 + int request_slots * T" using assms(1,4) by (simp add: request_slots_def)
  ultimately show ?thesis using inv assms(3)
    unfolding relay_invariant_def s_def [symmetric] by (simp add: request_slots_def)
qed

definition sample_relay_budget :: relay_budget where
  "sample_relay_budget = \<lparr>rb_allowed_models = [''gpt-4o''], rb_max_calls = 3, rb_max_prompt_chars = 1000,
     rb_max_completion_tokens = 100, rb_max_total_tokens = 150, rb_max_total_cost_usd = 1\<rparr>"

definition sample_call :: "int \<Rightarrow> relay_call" where
  "sample_call n = \<lparr>rl_call_id = [], rl_model = ''gpt-4o'', rl_prompt = ''p'', rl_system = [], rl_response = [],
     rl_temperature = 0, rl_tokens_prompt = n, rl_tokens_completion = 0, rl_tokens_total = n, rl_latency_ms = 0,
     rl_cost_usd = 0, rl_retry_index = 0\<rparr>"

text \<open>Two calls in flight together overrun the limit of 150 tokens; the third is refused.\<close>

definition sample_relay_ops :: "relay_op list" where
  "sample_relay_ops = [RelayBegin, RelayBegin, RelaySettle 0 (sample_call 100), RelaySettle 0 (sample_call 100), RelayBegin]"

theorem relay_budget_bounds_witness:
  "ry_total_tokens (rs_relay (fold (relay_step sample_relay_budget) sample_relay_ops \<lparr>rs_relay = new_relay, rs_in_flight = 0\<rparr>)) = 200 \<and>
   (200 :: int) < rb_max_total_tokens sample_relay_budget + 8 * 100"
proof -
  have ops: "list_all (tokens_within 100) sample_relay_ops" by (simp add: sample_relay_ops_def tokens_within_def sample_call_def)
  have lims: "0 \<le> rb_max_calls sample_relay_budget" "1 \<le> rb_max_total_tokens sample_relay_budget"
    by (simp_all add: sample_relay_budget_def)
  have tokens: "ry_total_tokens (rs_relay (fold (relay_step sample_relay_budget) sample_relay_ops
      \<lparr>rs_relay = new_relay, rs_in_flight = 0\<rparr>)) = 200"
    by (simp add: sample_relay_ops_def relay_step_def admit_call_def new_relay_def sample_relay_budget_def request_slots_def
        settle_call_def sample_call_def)
  show ?thesis using relay_budget_bounds [OF _ ops lims] tokens by simp
qed

section \<open>The fallback over model ids\<close>

text \<open>What a budget reservation can say when it refuses.\<close>

definition budget_refusals :: "string list" where
  "budget_refusals =
     [''Invalid AI budget configuration'', ''AI budget is disabled'', ''AI assistant is temporarily disabled'',
      ''AI request exceeds budget size'', ''Unknown AI budget purpose'', ''Unsupported AI budget database'',
      ''AI billing identity unavailable'', ''AI budget exhausted'']"

lemma positive_refusal: "positive E n d = Inl e \<Longrightarrow> http_detail e \<in> set budget_refusals"
  by (auto simp: positive_def Let_def budget_refusals_def split: option.splits if_splits)

lemma scope_caps_refusal: "scope_caps E sc = Inl e \<Longrightarrow> http_detail e \<in> set budget_refusals"
  unfolding scope_caps_def bind_def by (auto split: sum.splits dest: positive_refusal)

lemma reserve_scope_refusal: "reserve_scope E tk c sc rows = Inl e \<Longrightarrow> http_detail e \<in> set budget_refusals"
  unfolding reserve_scope_def bind_def
  by (auto simp: exhausted_def budget_refusals_def split: sum.splits option.splits prod.splits if_splits
      dest: scope_caps_refusal [unfolded budget_refusals_def])

lemma reserve_scopes_refusal: "reserve_scopes E tk c scs rows = Inl e \<Longrightarrow> http_detail e \<in> set budget_refusals"
proof (induction scs arbitrary: rows)
  case Nil
  then show ?case by simp
next
  case (Cons sc scs)
  then show ?case by (cases "reserve_scope E tk c sc rows") (auto dest: reserve_scope_refusal)
qed

lemma budget_scopes_refusal: "budget_scopes E u s day p = Inl e \<Longrightarrow> http_detail e \<in> set budget_refusals"
  unfolding budget_scopes_def Let_def by (auto simp: budget_refusals_def split: if_splits)

lemma literal_refusals:
  "''AI assistant is temporarily disabled'' \<in> set budget_refusals" "''AI request exceeds budget size'' \<in> set budget_refusals"
  "''Unsupported AI budget database'' \<in> set budget_refusals" "''AI billing identity unavailable'' \<in> set budget_refusals"
  by (simp_all add: budget_refusals_def)

lemma reserve_refusal:
  assumes "snd (reserve_ai_budget E d now u s ib ot att p x) = Some e"
  shows "http_detail e \<in> set budget_refusals"
proof -
  let ?size = "0 \<le> ib \<and> ib \<le> 256000 \<and> 1 \<le> ot \<and> ot \<le> 4096 \<and> 1 \<le> att \<and> att \<le> 8"
  consider (off) "\<not> budget_enabled E" | (big) "budget_enabled E" "\<not> ?size" | (go) "budget_enabled E" ?size by blast
  then show ?thesis
  proof cases
    case off
    with assms literal_refusals show ?thesis by (auto simp: reserve_ai_budget_def)
  next
    case big
    have "e = HTTPException 400 ''AI request exceeds budget size'' None"
      using assms unfolding reserve_ai_budget_def using big by simp
    then show ?thesis using literal_refusals(2) by simp
  next
    case go
    let ?tokens = "(ib + 512 + ot) * att"
    note run = assms [unfolded reserve_ai_budget_def Let_def]
    show ?thesis
    proof (cases "positive E ''PROMPTCODE_AI_MAX_MICROS_PER_TOKEN'' 100")
      case (Inl e1)
      with run go have "e = e1" by simp
      with positive_refusal [OF Inl] show ?thesis by simp
    next
      case (Inr micros)
      note micros = this
      show ?thesis
      proof (cases "budget_scopes E u s (py_int now div 86400) p")
        case (Inl e1)
        with run go micros have "e = e1" by simp
        with budget_scopes_refusal [OF Inl] show ?thesis by simp
      next
        case (Inr scopes)
        show ?thesis
        proof (cases "d = OtherDialect")
          case True
          with run go micros Inr have "e = HTTPException 503 ''Unsupported AI budget database'' None" by simp
          then show ?thesis using literal_refusals(3) by simp
        next
          case False
          with run go micros Inr have "reserve_scopes E ?tokens (?tokens * micros) scopes (tx_working x) = Inl e"
            by (simp split: sum.splits)
          then show ?thesis by (rule reserve_scopes_refusal)
        qed
      qed
    qed
  qed
qed

lemma worker_refusal:
  "snd (reserve_worker_budget E d dumps now i m ot x) = Some e \<Longrightarrow> http_detail e \<in> set budget_refusals"
  unfolding reserve_worker_budget_def
  using literal_refusals(4) by (auto split: option.splits if_splits prod.splits dest: reserve_refusal)

text \<open>None of the messages of the relay's own sender reads as an unknown model.\<close>

lemma refusal_not_model: "m \<in> set budget_refusals \<Longrightarrow> \<not> is_model_not_found_error st m"
proof -
  have "list_all (\<lambda>m. \<not> str_in ''model not found'' (to_lower m) \<and> \<not> str_in ''model_not_found'' (to_lower m) \<and>
      \<not> str_in ''unknown model'' (to_lower m)) budget_refusals" by code_simp
  then show "m \<in> set budget_refusals \<Longrightarrow> \<not> is_model_not_found_error st m"
    by (simp add: list_all_iff is_model_not_found_error_def Let_def)
qed

definition sender_messages :: "string list" where
  "sender_messages =
     [''Sandbox relay is missing an upstream API key.'', ''Invalid upstream AI API key.'', ''AI provider rejected the request.'']"

lemma sender_message_not_model: "m \<in> set sender_messages \<Longrightarrow> \<not> is_model_not_found_error st m"
proof -
  have "list_all (\<lambda>m. \<not> str_in ''model not found'' (to_lower m) \<and> \<not> str_in ''model_not_found'' (to_lower m) \<and>
      \<not> str_in ''unknown model'' (to_lower m)) sender_messages" by code_simp
  then show "m \<in> set sender_messages \<Longrightarrow> \<not> is_model_not_found_error st m"
    by (simp add: list_all_iff is_model_not_found_error_def Let_def)
qed

lemma sender_never_model_not_found:
  assumes "send_upstream_request C prov mt payload w = (Inl (RelayError st detail), w')"
  shows "\<not> is_model_not_found_error st detail"
proof -
  have "detail \<in> set sender_messages \<or> detail \<in> set budget_refusals"
  proof (cases "rc_api_key C = []")
    case True
    with assms show ?thesis by (auto simp: send_upstream_request_def sender_messages_def)
  next
    case False
    let ?r = "reserve_worker_budget (rc_budget_env C) (rc_dialect C) (rc_dumps C) (rc_now C) (rc_identity C)
        (dict_get payload ''messages'' JNull) mt (rw_budget w)"
    obtain x e where r: "?r = (x, e)" by (cases ?r)
    show ?thesis
    proof (cases e)
      case None
      with assms False r show ?thesis
        by (auto simp: send_upstream_request_def Let_def sender_messages_def split: option.splits if_splits)
    next
      case (Some err)
      then have "http_detail err \<in> set budget_refusals" using worker_refusal r by (metis snd_conv)
      with assms False r Some show ?thesis by (auto simp: send_upstream_request_def)
    qed
  qed
  then show ?thesis using refusal_not_model sender_message_not_model by blast
qed

text \<open>
  The fallback over model ids never goes on. With the relay's own sender, whatever the provider
  answers, the loop over the candidate ids ends with the first one: the other ids are never sent. A
  provider that rejects the first id because it does not know the model is reported as
  \<open>AI provider rejected the request.\<close>, which the test for an unknown model does not recognise.
\<close>

theorem fallback_stops_at_first:
  "try_candidates (send_upstream_request C prov mt) payload_for tried (c # rest) w
   = try_candidates (send_upstream_request C prov mt) payload_for tried [c] w"
proof -
  obtain r w' where send: "send_upstream_request C prov mt (payload_for c) w = (r, w')"
    by (cases "send_upstream_request C prov mt (payload_for c) w")
  show ?thesis
  proof (cases r)
    case (Inl e)
    then show ?thesis
      using sender_never_model_not_found [of C prov mt "payload_for c" w] send
      by (cases e) (simp_all)
  next
    case (Inr dl)
    then show ?thesis using send by (simp split: prod.split)
  qed
qed

end
