(* ===== verification/LeaseMachine.thy ===== *)
theory LeaseMachine
  imports GradingQueue
begin

text \<open>
  What the grading queue (GradingQueue) promises about a job, as a machine of four phases: waiting,
  held under a lease, published, failed. The queue's transactions implement it: every run of the
  workers moves a job along the steps of the machine. What is shown once for the machine, that published
  and failed are final and the attempts never exceed their bound, then holds of the rows.
\<close>

section \<open>The machine\<close>

datatype lease_phase =
    LWaiting int
  | LHeld "string option" int
  | LPublished int
  | LFailed int

inductive lease_step :: "int \<Rightarrow> lease_phase \<Rightarrow> lease_phase \<Rightarrow> bool" for m where
  take_lease: "n < m \<Longrightarrow> lease_step m (LWaiting n) (LHeld (Some t) (n + 1))"
| lose_lease: "lease_step m (LHeld t n) (LWaiting n)"
| publish_result: "lease_step m (LHeld t n) (LPublished n)"
| give_up: "lease_step m (LHeld t n) (LFailed n)"
| spent_job: "m \<le> n \<Longrightarrow> lease_step m (LWaiting n) (LFailed n)"

inductive_cases lease_published: "lease_step m (LPublished n) p"
inductive_cases lease_failed: "lease_step m (LFailed n) p"

fun phase_attempts :: "lease_phase \<Rightarrow> int" where
  "phase_attempts (LWaiting n) = n"
| "phase_attempts (LHeld t n) = n"
| "phase_attempts (LPublished n) = n"
| "phase_attempts (LFailed n) = n"

fun final_phase :: "lease_phase \<Rightarrow> bool" where
  "final_phase (LPublished n) = True"
| "final_phase (LFailed n) = True"
| "final_phase _ = False"

lemma lease_step_not_final: "lease_step m p q \<Longrightarrow> \<not> final_phase p"
  by (induction rule: lease_step.induct) simp_all

lemma lease_final_stays: "(lease_step m)\<^sup>*\<^sup>* p q \<Longrightarrow> final_phase p \<Longrightarrow> q = p"
  by (induction rule: rtranclp_induct) (auto dest: lease_step_not_final)

lemma lease_step_attempts: "lease_step m p q \<Longrightarrow> phase_attempts p \<le> phase_attempts q \<and> (phase_attempts p \<le> m \<longrightarrow> phase_attempts q \<le> m)"
  by (induction rule: lease_step.induct) simp_all

lemma lease_attempts:
  "(lease_step m)\<^sup>*\<^sup>* p q \<Longrightarrow> phase_attempts p \<le> phase_attempts q \<and> (phase_attempts p \<le> m \<longrightarrow> phase_attempts q \<le> m)"
  by (induction rule: rtranclp_induct) (auto dest: lease_step_attempts)

section \<open>The queue implements it\<close>

definition phase_of :: "grading_job \<Rightarrow> lease_phase" where
  "phase_of r =
     (case gj_status r of
        GradingQueued \<Rightarrow> LWaiting (gj_attempts r)
      | GradingRunning \<Rightarrow> LHeld (gj_lease_token r) (gj_attempts r)
      | GradingCompleted \<Rightarrow> LPublished (gj_attempts r)
      | GradingFailed \<Rightarrow> LFailed (gj_attempts r))"

lemma expire_refines: "(lease_step m)\<^sup>*\<^sup>* (phase_of r) (phase_of (expire_lease now r))"
proof (cases "gj_status r = GradingRunning \<and> (case gj_lease_expires_at r of Some x \<Rightarrow> x \<le> now | None \<Rightarrow> False)")
  case True
  then have "phase_of r = LHeld (gj_lease_token r) (gj_attempts r)" "phase_of (expire_lease now r) = LWaiting (gj_attempts r)"
    by (simp_all add: phase_of_def expire_lease_def)
  then show ?thesis by (simp add: lease_step.lose_lease r_into_rtranclp)
next
  case False
  then have "expire_lease now r = r" unfolding expire_lease_def by (rule if_not_P)
  then show ?thesis by simp
qed

lemma close_refines: "(lease_step (gj_max_attempts r))\<^sup>*\<^sup>* (phase_of r) (phase_of (close_exhausted now r))"
proof (cases "gj_status r = GradingQueued \<and> gj_attempts r \<ge> gj_max_attempts r")
  case True
  then have "phase_of r = LWaiting (gj_attempts r)" "phase_of (close_exhausted now r) = LFailed (gj_attempts r)"
    by (simp_all add: phase_of_def close_exhausted_def)
  with True show ?thesis by (simp add: lease_step.spent_job r_into_rtranclp)
next
  case False
  then have "close_exhausted now r = r" unfolding close_exhausted_def by (rule if_not_P)
  then show ?thesis by simp
qed

lemma sweep_refines:
  "(lease_step (gj_max_attempts r))\<^sup>*\<^sup>* (phase_of r) (phase_of (close_exhausted now (expire_lease now r)))"
proof -
  have "gj_max_attempts (expire_lease now r) = gj_max_attempts r" by (simp add: expire_lease_def)
  with expire_refines [of "gj_max_attempts r" r now] close_refines [of "expire_lease now r" now] show ?thesis by simp
qed

lemma row_change_refines: "row_change op b r r' \<Longrightarrow> (lease_step (gj_max_attempts r))\<^sup>*\<^sup>* (phase_of r) (phase_of r')"
proof (induction rule: row_change.induct)
  case (same op r)
  then show ?case by simp
next
  case (sweep now tok r)
  then show ?case by (rule sweep_refines)
next
  case (claim now r tok tm)
  let ?q = "close_exhausted now (expire_lease now r)"
  have "phase_of ?q = LWaiting (gj_attempts ?q)" "gj_attempts ?q < gj_max_attempts r"
    using claim by (simp_all add: grading_claimable_def phase_of_def)
  moreover have "phase_of (claim_grading_row tm now tok ?q) = LHeld (Some tok) (gj_attempts ?q + 1)"
    by (simp add: phase_of_def claim_grading_row_def)
  ultimately have "lease_step (gj_max_attempts r) (phase_of ?q) (phase_of (claim_grading_row tm now tok ?q))"
    by (simp add: lease_step.take_lease)
  with sweep_refines [of r now] show ?case by (rule rtranclp.rtrancl_into_rtrancl)
next
  case (publish now job r env)
  then have "phase_of r = LHeld (gj_lease_token r) (gj_attempts r)" "phase_of (publish_row now env r) = LPublished (gj_attempts r)"
    by (simp_all add: holds_lease_def phase_of_def publish_row_def)
  then show ?case by (simp add: lease_step.publish_result r_into_rtranclp)
next
  case (fail r job now)
  then have "phase_of r = LHeld (gj_lease_token r) (gj_attempts r)"
    "phase_of (fail_grading_row now job r) = LWaiting (gj_attempts r) \<or> phase_of (fail_grading_row now job r) = LFailed (gj_attempts r)"
    by (simp_all add: phase_of_def fail_grading_row_def)
  then show ?case by (auto intro!: r_into_rtranclp [of "lease_step m" for m] intro: lease_step.lose_lease lease_step.give_up)
qed

lemma run_grading_refines:
  "keys_distinct gj_id (gd_jobs db) \<Longrightarrow> get_grading_job db i = Some r \<Longrightarrow>
   \<exists>r'. get_grading_job (fst (run_grading E key tm ops db)) i = Some r' \<and> gj_max_attempts r' = gj_max_attempts r \<and>
     (lease_step (gj_max_attempts r))\<^sup>*\<^sup>* (phase_of r) (phase_of r')"
proof (induction ops arbitrary: db r)
  case Nil
  then show ?case by simp
next
  case (Cons op ops)
  obtain db1 c1 where step: "grading_step E key tm op db = (db1, c1)" by force
  obtain r1 b where dist: "keys_distinct gj_id (gd_jobs db1)" and r1: "get_grading_job db1 i = Some r1"
    and change: "row_change op b r r1"
    using grading_step_row [OF Cons.prems step] by blast
  have m: "gj_max_attempts r1 = gj_max_attempts r" using row_change_frame [OF change] by simp
  from Cons.IH [OF dist r1] obtain r' where r': "get_grading_job (fst (run_grading E key tm ops db1)) i = Some r'"
    "gj_max_attempts r' = gj_max_attempts r" "(lease_step (gj_max_attempts r))\<^sup>*\<^sup>* (phase_of r1) (phase_of r')"
    unfolding m by blast
  have "fst (run_grading E key tm (op # ops) db) = fst (run_grading E key tm ops db1)"
    using step by (simp split: prod.split)
  with r' row_change_refines [OF change] show ?case by (auto intro: rtranclp_trans)
qed



end
