(* ===== verification/WorkspaceFiles.thy ===== *)
theory WorkspaceFiles
  imports Accuracy StorageLedger "HOL-Library.List_Lexorder"
begin

text \<open>
  The files of a candidate's workspace (\<open>backend/app/services/interview/workspace.py\<close>, the path
  rules of \<open>registry.py\<close>): which paths a candidate may read or write, how a path is confined to the
  workspace, and the write with its quota and its entry in the storage ledger.

  The file system is a list of physical paths with their nodes. A path is the list of its names
  from the root; a symbolic link holds its target. A text is stored as its UTF-8 bytes, written
  out for the code points below 256 that a character of the model has; decoding with
  \<open>errors="replace"\<close> is an argument.
\<close>

section \<open>Path rules\<close>

definition blocked_name_fragments :: "string list" where
  "blocked_name_fragments =
     [''SOLUTION.md'', ''solution.md'', ''_audit_'', ''AUDIT.md'', ''interviewer'', ''.reference'']"

definition frozen_basenames :: "string list" where
  "frozen_basenames =
     [''package.json'', ''package-lock.json'', ''yarn.lock'', ''pnpm-lock.yaml'', ''npm-shrinkwrap.json'',
      ''.npmrc'', ''pyproject.toml'', ''pytest.ini'', ''setup.cfg'', ''setup.py'', ''conftest.py'', ''tox.ini'',
      ''requirements.txt'', ''dockerfile'', ''makefile'']"

definition unbackslash :: "string \<Rightarrow> string" where
  "unbackslash s = map (\<lambda>c. if c = CHR 0x5C then CHR ''/'' else c) s"

definition lstrip_dots :: "string \<Rightarrow> string" where
  "lstrip_dots s = dropWhile (\<lambda>c. c = CHR ''.'' \<or> c = CHR ''/'') s"

definition is_blocked_path :: "string \<Rightarrow> bool" where
  "is_blocked_path rel_path =
     (let normalized = lstrip_dots (unbackslash rel_path);
          lower = to_lower normalized
      in list_ex (\<lambda>frag. str_in (to_lower frag) lower) blocked_name_fragments \<or>
         ''solution.md'' \<in> set (split_on CHR ''/'' lower))"

definition dependency_parts :: "string list" where
  "dependency_parts = [''node_modules'', ''.venv'', ''venv'']"

definition test_suffixes :: "string list" where
  "test_suffixes = [''.test.js'', ''.test.jsx'', ''.test.ts'', ''.test.tsx'',
     ''.spec.js'', ''.spec.jsx'', ''.spec.ts'', ''.spec.tsx'']"

definition frozen_name :: "string \<Rightarrow> bool" where
  "frozen_name name \<longleftrightarrow>
     (prefix ''test_'' name \<and> Sublist.suffix ''.py'' name) \<or>
     list_ex (\<lambda>sfx. Sublist.suffix sfx name) test_suffixes \<or>
     name \<in> set frozen_basenames \<or> prefix ''.env'' name \<or> Sublist.suffix ''.sh'' name"

definition is_frozen_path :: "string \<Rightarrow> bool" where
  "is_frozen_path rel_path =
     (let normalized = strip (unbackslash rel_path) in
      if normalized = [] \<or> CHR 0x00 \<in> set normalized then True
      else
        (let parts = split_on CHR ''/'' (to_lower normalized);
             name = last parts
         in list_ex (\<lambda>part. part \<in> set dependency_parts) parts \<or>
            ''tests'' \<in> set parts \<or> ''__tests__'' \<in> set parts \<or> frozen_name name))"

section \<open>The file system\<close>

type_synonym path = "string list"

datatype node = FileNode string | DirNode | LinkNode bool path

type_synonym files = "(path \<times> node) list"

definition put_node :: "path \<Rightarrow> node \<Rightarrow> files \<Rightarrow> files" where
  "put_node p nd fs =
     (if map_of fs p = None then fs @ [(p, nd)] else map (\<lambda>(q, m). (q, if q = p then nd else m)) fs)"

definition is_symlink :: "files \<Rightarrow> path \<Rightarrow> bool" where
  "is_symlink fs p = (case map_of fs p of Some (LinkNode _ _) \<Rightarrow> True | _ \<Rightarrow> False)"

definition file_at :: "files \<Rightarrow> path \<Rightarrow> string option" where
  "file_at fs p = (case map_of fs p of Some (FileNode b) \<Rightarrow> Some b | _ \<Rightarrow> None)"

text \<open>
  \<open>Path.resolve\<close>: links are followed, at most \<open>n\<close> of them, where a loop gives an exception.
\<close>

fun resolve_from :: "nat \<Rightarrow> files \<Rightarrow> path \<Rightarrow> path \<Rightarrow> path option" where
  "resolve_from n fs acc [] = Some acc"
| "resolve_from n fs acc (p # ps) =
     (if p = [] \<or> p = ''.'' then resolve_from n fs acc ps
      else if p = ''..'' then resolve_from n fs (butlast acc) ps
      else case map_of fs (acc @ [p]) of
          Some (LinkNode absolute target) \<Rightarrow>
            (case n of 0 \<Rightarrow> None
             | Suc m \<Rightarrow> resolve_from m fs (if absolute then [] else acc) (target @ ps))
        | _ \<Rightarrow> resolve_from n fs (acc @ [p]) ps)"

definition max_links :: nat where
  "max_links = 40"

definition resolve_path :: "files \<Rightarrow> path \<Rightarrow> path option" where
  "resolve_path fs p = resolve_from max_links fs [] p"

datatype ws_exc =
    PermissionError string | ValueErr string | FileNotFound string | OsError | RuntimeErr | Http http_error

definition escape_blocked :: ws_exc where
  "escape_blocked = PermissionError ''Path escape blocked''"

text \<open>The names of a candidate path that \<open>contained_file\<close> walks.\<close>

definition path_names :: "string \<Rightarrow> string list" where
  "path_names raw = filter (\<lambda>part. part \<noteq> [] \<and> part \<noteq> ''.'') (split_on CHR ''/'' raw)"

fun walk_parts :: "files \<Rightarrow> path \<Rightarrow> string list \<Rightarrow> ws_exc + path" where
  "walk_parts fs current [] = Inr current"
| "walk_parts fs current (part # parts) =
     (if part = ''.'' \<or> part = ''..'' then Inl escape_blocked
      else if is_symlink fs (current @ [part]) then Inl escape_blocked
      else walk_parts fs (current @ [part]) parts)"

definition contained_file :: "files \<Rightarrow> path \<Rightarrow> string \<Rightarrow> ws_exc + path" where
  "contained_file fs workspace rel_path =
     (if rel_path = [] \<or> CHR 0x00 \<in> set rel_path then Inl escape_blocked
      else
        (let raw = unbackslash rel_path in
         if prefix ''/'' raw \<or> prefix ''~'' raw then Inl escape_blocked
         else
           (let parts = path_names raw in
            if parts = [] \<or> ''..'' \<in> set parts then Inl escape_blocked
            else case resolve_path fs workspace of
                None \<Rightarrow> Inl RuntimeErr
              | Some root_dir \<Rightarrow>
                  bind (walk_parts fs root_dir parts)
                    (\<lambda>current. case resolve_path fs current of
                        None \<Rightarrow> Inl RuntimeErr
                      | Some physical \<Rightarrow> if prefix root_dir physical then Inr current else Inl escape_blocked))))"

definition candidate_write_allowed :: "files \<Rightarrow> path \<Rightarrow> string \<Rightarrow> ws_exc + bool" where
  "candidate_write_allowed fs workspace rel_path =
     (if is_blocked_path rel_path \<or> is_frozen_path rel_path then Inr False
      else case contained_file fs workspace rel_path of
          Inr _ \<Rightarrow> Inr True
        | Inl (PermissionError _) \<Rightarrow> Inr False
        | Inl e \<Rightarrow> Inl e)"

section \<open>Reading and writing\<close>

definition max_file_bytes :: int where
  "max_file_bytes = 1500000"

text \<open>\<open>s.encode("utf-8")\<close>\<close>

definition utf8_char :: "char \<Rightarrow> string" where
  "utf8_char c =
     (let n = of_char c :: nat
      in if n < 128 then [c] else [char_of (192 + n div 64), char_of (128 + n mod 64)])"

definition utf8 :: "string \<Rightarrow> string" where
  "utf8 s = concat (map utf8_char s)"

text \<open>Reading in text mode gives every line end as \<open>\n\<close>.\<close>

fun universal_newlines :: "string \<Rightarrow> string" where
  "universal_newlines [] = []"
| "universal_newlines [c] = [if c = CHR 0x0D then CHR 0x0A else c]"
| "universal_newlines (c # d # cs) =
     (if c = CHR 0x0D then
        (if d = CHR 0x0A then CHR 0x0A # universal_newlines cs else CHR 0x0A # universal_newlines (d # cs))
      else c # universal_newlines (d # cs))"

definition read_file :: "(string \<Rightarrow> string) \<Rightarrow> files \<Rightarrow> path \<Rightarrow> string \<Rightarrow> ws_exc + string" where
  "read_file decode fs workspace rel_path =
     (if is_blocked_path rel_path then Inl (PermissionError ''File not available'')
      else bind (contained_file fs workspace rel_path)
        (\<lambda>path. case file_at fs path of
            None \<Rightarrow> Inl (FileNotFound rel_path)
          | Some bytes \<Rightarrow>
              if int (length bytes) > max_file_bytes then Inl (ValueErr ''File too large for editor'')
              else Inr (universal_newlines (decode bytes))))"

text \<open>\<open>path.mkdir(parents=True, exist_ok=True)\<close>: what is missing on the way is made.\<close>

fun make_dirs :: "files \<Rightarrow> path \<Rightarrow> string list \<Rightarrow> files option" where
  "make_dirs fs current [] = Some fs"
| "make_dirs fs current (part # parts) =
     (let next_dir = current @ [part] in
      case map_of fs next_dir of
        None \<Rightarrow> make_dirs (put_node next_dir DirNode fs) next_dir parts
      | Some DirNode \<Rightarrow> make_dirs fs next_dir parts
      | Some _ \<Rightarrow> None)"

text \<open>The body of the reservation: the parents, the last look for a link, the text.\<close>

definition store_text :: "files \<Rightarrow> path \<Rightarrow> string \<Rightarrow> ws_exc + files" where
  "store_text fs path encoded =
     (case make_dirs fs [] (butlast path) of
        None \<Rightarrow> Inl OsError
      | Some fs' \<Rightarrow>
          (case map_of fs' path of
             Some (LinkNode _ _) \<Rightarrow> Inl escape_blocked
           | Some DirNode \<Rightarrow> Inl OsError
           | _ \<Rightarrow> Inr (put_node path (FileNode encoded) fs')))"

definition ledger_name :: string where
  "ledger_name = ''.storage-ledger.db''"

text \<open>
  \<open>measure_workspace\<close>: a physical path never runs through a link, so the walk meets exactly the
  files below the workspace.
\<close>

definition counted :: "path \<Rightarrow> path \<Rightarrow> bool" where
  "counted workspace p \<longleftrightarrow>
     strict_prefix workspace p \<and>
     list_all (\<lambda>part. part \<notin> set dependency_parts) (butlast (drop (length workspace) p)) \<and>
     p \<noteq> workspace @ [ledger_name]"

definition counted_bytes :: "path \<Rightarrow> path \<times> node \<Rightarrow> int" where
  "counted_bytes workspace e =
     (if counted workspace (fst e) then (case snd e of FileNode b \<Rightarrow> int (length b) | _ \<Rightarrow> 0) else 0)"

definition counted_files :: "path \<Rightarrow> path \<times> node \<Rightarrow> int" where
  "counted_files workspace e =
     (if counted workspace (fst e) then (case snd e of FileNode b \<Rightarrow> 1 | _ \<Rightarrow> 0) else 0)"

definition measure_workspace :: "files \<Rightarrow> path \<Rightarrow> int \<times> int" where
  "measure_workspace fs workspace =
     (sum_list (map (counted_bytes workspace) fs), sum_list (map (counted_files workspace) fs))"

record ws_state =
  ws_files :: files
  ws_ledger :: ledger

record storage_settings =
  interview_storage_max_bytes :: int
  interview_storage_min_free_bytes :: int

definition capacity_error :: http_error where
  "capacity_error =
     HTTPException 507 ''Interview storage capacity reached. Please try again later.'' (Some 60)"

text \<open>\<open>len(Path(rel_path).parts)\<close>\<close>

definition count_parts :: "string \<Rightarrow> nat" where
  "count_parts rel_path = (if prefix ''/'' rel_path then 1 else 0) + length (path_names rel_path)"

definition write_file_locked ::
  "storage_settings \<Rightarrow> int \<Rightarrow> path \<Rightarrow> string \<Rightarrow> string \<Rightarrow> ws_state \<Rightarrow> ws_state \<times> ws_exc option" where
  "write_file_locked cfg free workspace rel_path content st =
     (let encoded = utf8 content;
          fs = ws_files st;
          key = last workspace
      in if count_parts rel_path > 16 then (st, Some (ValueErr ''File path too deep''))
         else if is_blocked_path rel_path \<or> is_frozen_path rel_path
         then (st, Some (PermissionError ''File not available''))
         else if int (length encoded) > max_file_bytes then (st, Some (ValueErr ''File too large for editor''))
         else case contained_file fs workspace rel_path of
             Inl e \<Rightarrow> (st, Some e)
           | Inr path \<Rightarrow>
               (let (l1, ok) = check_upload key (measure_workspace fs workspace)
                      (map_option (int \<circ> length) (file_at fs path)) (int (length encoded)) (ws_ledger st);
                    st1 = st\<lparr>ws_ledger := l1\<rparr>;
                    body = store_text fs path encoded;
                    ending = (case body of
                        Inl _ \<Rightarrow> RaisedUncommitted
                      | Inr fs' \<Rightarrow> Committed key (fst (measure_workspace fs' workspace))
                                               (snd (measure_workspace fs' workspace)))
                in if \<not> ok then (st1, Some (ValueErr ''Session source quota exceeded''))
                   else case storage_capacity (interview_storage_max_bytes cfg)
                            (interview_storage_min_free_bytes cfg) free (int (length encoded)) ending l1 of
                       Inl _ \<Rightarrow> (st1, Some (Http capacity_error))
                     | Inr l2 \<Rightarrow>
                         (case body of
                            Inl e \<Rightarrow> (st\<lparr>ws_ledger := l2\<rparr>, Some e)
                          | Inr fs' \<Rightarrow> (\<lparr>ws_files = fs', ws_ledger = l2\<rparr>, None))))"

text \<open>\<open>Path(str(workspace) + tail)\<close>\<close>

definition beside :: "path \<Rightarrow> string \<Rightarrow> path" where
  "beside workspace tail = butlast workspace @ [last workspace @ tail]"

definition path_exists :: "files \<Rightarrow> path \<Rightarrow> bool" where
  "path_exists fs p = (case resolve_path fs p of None \<Rightarrow> False | Some q \<Rightarrow> map_of fs q \<noteq> None)"

text \<open>The lock file beside the workspace is made when it is missing.\<close>

definition open_lock :: "path \<Rightarrow> files \<Rightarrow> files" where
  "open_lock p fs = (if map_of fs p = None then put_node p (FileNode []) fs else fs)"

definition write_file ::
  "storage_settings \<Rightarrow> int \<Rightarrow> path \<Rightarrow> string \<Rightarrow> string \<Rightarrow> ws_state \<Rightarrow> ws_state \<times> ws_exc option" where
  "write_file cfg free workspace rel_path content st =
     (let st0 = st\<lparr>ws_files := open_lock (beside workspace ''.upload.lock'') (ws_files st)\<rparr>
      in if path_exists (ws_files st0) (beside workspace ''.submitted'')
         then (st0, Some (ValueErr ''Submission is frozen; start a new attempt to edit''))
         else write_file_locked cfg free workspace rel_path content st0)"

section \<open>The candidate's copy and listing\<close>

definition skip_dir_names :: "string list" where
  "skip_dir_names =
     [''node_modules'', ''.venv'', ''venv'', ''__pycache__'', ''.pytest_cache'', ''.git'', ''dist'', ''build'',
      ''.turbo'', ''coverage'']"

definition should_skip :: "string \<Rightarrow> bool" where
  "should_skip name \<longleftrightarrow>
     name \<in> set skip_dir_names \<or>
     list_ex (\<lambda>frag. str_in (to_lower frag) (to_lower name)) blocked_name_fragments"

definition as_posix :: "string list \<Rightarrow> string" where
  "as_posix parts = join ''/'' parts"

text \<open>Whether the item with the relative names \<open>parts\<close> is copied.\<close>

definition copied :: "string list \<Rightarrow> bool" where
  "copied parts \<longleftrightarrow>
     parts \<noteq> [] \<and> \<not> list_ex (\<lambda>part. part \<in> set skip_dir_names) parts \<and>
     \<not> (is_blocked_path (as_posix parts) \<or> should_skip (last parts))"

definition copy_item :: "path \<Rightarrow> path \<Rightarrow> path \<times> node \<Rightarrow> files \<Rightarrow> files option" where
  "copy_item src dest item fs =
     (let parts = drop (length src) (fst item) in
      if \<not> (strict_prefix src (fst item)) \<or> \<not> copied parts then Some fs
      else case snd item of
          DirNode \<Rightarrow> make_dirs fs [] (dest @ parts)
        | FileNode b \<Rightarrow> map_option (put_node (dest @ parts) (FileNode b)) (make_dirs fs [] (dest @ butlast parts))
        | LinkNode _ _ \<Rightarrow> Some fs)"

text \<open>The challenge trees hold no links.\<close>

definition copy_candidate_tree :: "path \<Rightarrow> path \<Rightarrow> files \<Rightarrow> files option" where
  "copy_candidate_tree src dest fs =
     (case make_dirs fs [] dest of
        None \<Rightarrow> None
      | Some fs0 \<Rightarrow> fold (\<lambda>item acc. case acc of None \<Rightarrow> None | Some f \<Rightarrow> copy_item src dest item f) fs (Some fs0))"

definition listed :: "path \<Rightarrow> path \<times> node \<Rightarrow> bool" where
  "listed workspace e \<longleftrightarrow>
     (let parts = drop (length workspace) (fst e) in
      strict_prefix workspace (fst e) \<and> (case snd e of FileNode _ \<Rightarrow> True | _ \<Rightarrow> False) \<and>
      \<not> is_blocked_path (as_posix parts) \<and> \<not> list_ex (\<lambda>part. part \<in> set skip_dir_names) parts)"

text \<open>\<open>list_files\<close>, in the order of the sorted paths.\<close>

definition list_files :: "files \<Rightarrow> path \<Rightarrow> (string \<times> nat) list" where
  "list_files fs workspace =
     map (\<lambda>e. (as_posix (drop (length workspace) (fst e)), case snd e of FileNode b \<Rightarrow> length b | _ \<Rightarrow> 0))
       (sort_key fst (filter (listed workspace) fs))"

section \<open>Confinement\<close>

text \<open>A clean path is physical: its names are proper and no step of it is a link.\<close>

definition proper_name :: "string \<Rightarrow> bool" where
  "proper_name p \<longleftrightarrow> p \<noteq> [] \<and> p \<noteq> ''.'' \<and> p \<noteq> ''..''"

definition clean :: "files \<Rightarrow> path \<Rightarrow> bool" where
  "clean fs p \<longleftrightarrow> list_all proper_name p \<and> (\<forall>n < length p. \<not> is_symlink fs (take (Suc n) p))"

lemma clean_Nil [simp]: "clean fs []"
  by (simp add: clean_def)

lemma clean_snoc: "clean fs (p @ [x]) \<longleftrightarrow> clean fs p \<and> proper_name x \<and> \<not> is_symlink fs (p @ [x])"
  by (auto simp: clean_def less_Suc_eq)

lemma clean_butlast: "clean fs p \<Longrightarrow> clean fs (butlast p)"
  by (cases p rule: rev_cases) (simp_all add: clean_snoc)

lemma resolve_from_clean: "resolve_from n fs acc ps = Some q \<Longrightarrow> clean fs acc \<Longrightarrow> clean fs q"
proof (induction n fs acc ps rule: resolve_from.induct)
  case (1 n fs acc)
  then show ?case by simp
next
  case (2 n fs acc p ps)
  show ?case
  proof (cases "p = [] \<or> p = ''.'' \<or> p = ''..''")
    case True
    then show ?thesis using 2 clean_butlast by (auto split: if_splits)
  next
    case False
    then have dots: "\<not> (p = [] \<or> p = ''.'')" "p \<noteq> ''..''" and proper: "proper_name p"
      by (simp_all add: proper_name_def)
    note goal = "2.prems"(1) dots
    have next_clean: "\<not> is_symlink fs (acc @ [p]) \<Longrightarrow> clean fs (acc @ [p])"
      using proper "2.prems"(2) by (simp add: clean_snoc)
    show ?thesis
    proof (cases "map_of fs (acc @ [p])")
      case None
      then show ?thesis using goal "2.IH"(3) [OF dots None] next_clean by (simp add: is_symlink_def)
    next
      case (Some nd)
      show ?thesis
      proof (cases nd)
        case (FileNode b)
        then show ?thesis using goal Some "2.IH"(4) [OF dots Some FileNode] next_clean by (simp add: is_symlink_def)
      next
        case DirNode
        then show ?thesis using goal Some "2.IH"(5) [OF dots Some DirNode] next_clean by (simp add: is_symlink_def)
      next
        case (LinkNode absolute target)
        then show ?thesis
          using goal Some "2.IH"(6) [OF dots Some LinkNode] "2.prems"(2) by (cases n) simp_all
      qed
    qed
  qed
qed

lemma resolve_from_stays: "clean fs (acc @ ps) \<Longrightarrow> resolve_from n fs acc ps = Some (acc @ ps)"
proof (induction ps arbitrary: acc)
  case Nil
  then show ?case by simp
next
  case (Cons p ps)
  from Cons.prems have "proper_name p" by (simp add: clean_def)
  moreover have "\<not> is_symlink fs (acc @ [p])"
    using Cons.prems by (auto simp: clean_def dest: spec [where x = "length acc"])
  moreover have "resolve_from n fs (acc @ [p]) ps = Some (acc @ p # ps)"
    using Cons.IH [of "acc @ [p]"] Cons.prems by simp
  ultimately show ?case
    by (auto simp: proper_name_def is_symlink_def split: option.splits node.splits)
qed

lemma resolve_clean: "resolve_path fs p = Some q \<Longrightarrow> clean fs q"
  unfolding resolve_path_def by (erule resolve_from_clean) simp

lemma resolve_stays: "clean fs p \<Longrightarrow> resolve_path fs p = Some p"
  unfolding resolve_path_def using resolve_from_stays [of fs "[]" p] by simp

lemma walk_parts_InrD:
  "walk_parts fs current parts = Inr p \<Longrightarrow> clean fs current \<Longrightarrow> list_all (\<lambda>x. x \<noteq> []) parts \<Longrightarrow>
   p = current @ parts \<and> clean fs p"
proof (induction parts arbitrary: current)
  case Nil
  then show ?case by simp
next
  case (Cons part parts)
  from Cons.prems(1) have "part \<noteq> ''.''" "part \<noteq> ''..''" "\<not> is_symlink fs (current @ [part])"
    and step: "walk_parts fs (current @ [part]) parts = Inr p"
    by (auto split: if_splits)
  with Cons.prems have "clean fs (current @ [part])" by (simp add: clean_snoc proper_name_def)
  then show ?case using Cons.IH [OF step] Cons.prems(3) by auto
qed

lemma path_names_nonempty: "list_all (\<lambda>x. x \<noteq> []) (path_names raw)"
  by (simp add: path_names_def list_all_iff)

lemma contained_fileE:
  assumes "contained_file fs workspace rel_path = Inr p"
  obtains root_dir where "resolve_path fs workspace = Some root_dir"
    "p = root_dir @ path_names (unbackslash rel_path)" "path_names (unbackslash rel_path) \<noteq> []"
    "clean fs root_dir" "clean fs p" "CHR 0x00 \<notin> set rel_path"
proof -
  let ?parts = "path_names (unbackslash rel_path)"
  from assms obtain root_dir where r: "resolve_path fs workspace = Some root_dir" and "?parts \<noteq> []"
      "walk_parts fs root_dir ?parts = Inr p" "CHR 0x00 \<notin> set rel_path"
    by (auto simp: contained_file_def Let_def bind_Inr split: if_splits option.splits)
  moreover have "clean fs root_dir" using r by (rule resolve_clean)
  ultimately show thesis using that walk_parts_InrD path_names_nonempty by metis
qed

lemma walk_parts_stays:
  "clean fs (current @ parts) \<Longrightarrow> walk_parts fs current parts = Inr (current @ parts)"
proof (induction parts arbitrary: current)
  case Nil
  then show ?case by simp
next
  case (Cons part parts)
  have "proper_name part" "\<not> is_symlink fs (current @ [part])"
    using Cons.prems by (auto simp: clean_def dest: spec [where x = "length current"])
  then show ?case using Cons by (simp add: proper_name_def)
qed

lemma clean_append_names:
  "clean fs root_dir \<Longrightarrow> walk_parts fs root_dir parts = Inr p \<Longrightarrow> list_all (\<lambda>x. x \<noteq> []) parts \<Longrightarrow>
   resolve_path fs p = Some (root_dir @ parts)"
  using walk_parts_InrD resolve_stays by metis

text \<open>The last check of \<open>contained_file\<close> never fails: the path it has walked is physical.\<close>

lemma contained_file_eq:
  "contained_file fs workspace rel_path =
     (let raw = unbackslash rel_path; parts = path_names raw in
      if rel_path = [] \<or> CHR 0x00 \<in> set rel_path \<or> prefix ''/'' raw \<or> prefix ''~'' raw \<or> parts = [] \<or>
         ''..'' \<in> set parts then Inl escape_blocked
      else case resolve_path fs workspace of
          None \<Rightarrow> Inl RuntimeErr
        | Some root_dir \<Rightarrow> walk_parts fs root_dir parts)"
proof (cases "resolve_path fs workspace")
  case None
  then show ?thesis by (simp add: contained_file_def Let_def)
next
  case (Some root_dir)
  let ?parts = "path_names (unbackslash rel_path)"
  have "bind (walk_parts fs root_dir ?parts)
      (\<lambda>current. case resolve_path fs current of None \<Rightarrow> Inl RuntimeErr
        | Some physical \<Rightarrow> if prefix root_dir physical then Inr current else Inl escape_blocked) =
      walk_parts fs root_dir ?parts"
  proof (cases "walk_parts fs root_dir ?parts")
    case (Inl e)
    then show ?thesis by simp
  next
    case (Inr p)
    then have "resolve_path fs p = Some p" "p = root_dir @ ?parts"
      using walk_parts_InrD [OF Inr resolve_clean [OF Some] path_names_nonempty] resolve_stays by auto
    then show ?thesis using Inr by simp
  qed
  then show ?thesis using Some by (simp add: contained_file_def Let_def)
qed

section \<open>Names in a path\<close>

lemma split_on_nonempty [simp]: "split_on sep s \<noteq> []"
  by (induction s) (simp_all split: list.split)

lemma split_on_sublist: "w \<in> set (split_on sep s) \<Longrightarrow> sublist w s \<and> sep \<notin> set w"
proof (induction s arbitrary: w)
  case Nil
  then show ?case by simp
next
  case (Cons c s)
  show ?case
  proof (cases "c = sep")
    case True
    then show ?thesis using Cons by (auto simp: sublist_Cons_right)
  next
    case False
    obtain v vs where split: "split_on sep s = v # vs" by (cases "split_on sep s") simp_all
    have "prefix v s" using split
    proof (induction s arbitrary: v vs)
      case Nil
      then show ?case by simp
    next
      case (Cons d s)
      then show ?case by (auto split: if_splits list.splits)
    qed
    moreover have "sublist v s \<and> sep \<notin> set v" using Cons.IH split by simp
    ultimately show ?thesis using Cons False split by (auto simp: sublist_Cons_right)
  qed
qed

lemma split_on_append:
  "split_on sep (s @ t) = butlast (split_on sep s) @ [last (split_on sep s) @ hd (split_on sep t)] @ tl (split_on sep t)"
proof (induction s)
  case Nil
  then show ?case by (cases "split_on sep t") simp_all
next
  case (Cons c s)
  obtain v vs where "split_on sep s = v # vs" by (cases "split_on sep s") simp_all
  then show ?case using Cons by (cases vs) simp_all
qed

lemma split_on_one: "sep \<notin> set s \<Longrightarrow> split_on sep s = [s]"
  by (induction s) (auto split: list.split)

lemma lower_slash: "to_lower_char c = CHR ''/'' \<longleftrightarrow> c = CHR ''/''"
proof (cases "CHR ''A'' \<le> c \<and> c \<le> CHR ''Z''")
  case True
  then have "65 \<le> (of_char c :: nat)" "(of_char c :: nat) \<le> 90"
    by (simp_all add: less_eq_char_def)
  then have "(of_char (to_lower_char c) :: nat) = of_char c + 32"
    using True by (simp add: to_lower_char_def)
  then have "(of_char (to_lower_char c) :: nat) \<noteq> of_char CHR ''/''" "(of_char c :: nat) \<noteq> of_char CHR ''/''"
    using \<open>65 \<le> of_char c\<close> by simp_all
  then show ?thesis by metis
next
  case False
  then show ?thesis by (auto simp: to_lower_char_def)
qed

lemma split_on_lower: "split_on CHR ''/'' (to_lower s) = map to_lower (split_on CHR ''/'' s)"
proof (induction s)
  case Nil
  then show ?case by (simp add: to_lower_def)
next
  case (Cons c s)
  obtain v vs where "split_on CHR ''/'' s = v # vs" by (cases "split_on CHR ''/'' s") simp_all
  then show ?case using Cons by (auto simp: to_lower_def lower_slash)
qed

lemma sublist_lower: "sublist u s \<Longrightarrow> sublist (to_lower u) (to_lower s)"
  by (simp add: to_lower_def map_mono_sublist)

lemma sublist_dropWhile: "sublist (x # xs) s \<Longrightarrow> \<not> P x \<Longrightarrow> sublist (x # xs) (dropWhile P s)"
  by (induction s) (auto simp: sublist_Cons_right)

text \<open>Stripping blanks keeps every name that has none.\<close>

lemma split_on_strip_left:
  assumes "x \<in> set (split_on sep s)" "x \<noteq> []" "\<not> list_ex is_space x" "\<not> is_space sep"
  shows "x \<in> set (split_on sep (lstrip s))"
  using assms(1)
proof (induction s)
  case Nil
  then show ?case using assms(2) by simp
next
  case (Cons c s)
  show ?case
  proof (cases "is_space c")
    case True
    then have "c \<noteq> sep" using assms(4) by auto
    moreover obtain v vs where "split_on sep s = v # vs" by (cases "split_on sep s") simp_all
    moreover have "x \<noteq> c # v" using True assms(3) by auto
    ultimately have "x \<in> set (split_on sep s)" using Cons.prems by auto
    then show ?thesis using Cons.IH True by (simp add: lstrip_def)
  next
    case False
    then show ?thesis using Cons.prems by (simp add: lstrip_def)
  qed
qed

lemma split_on_rev: "split_on sep (rev s) = map rev (rev (split_on sep s))"
proof (induction s)
  case Nil
  then show ?case by simp
next
  case (Cons c s)
  obtain v vs where "split_on sep s = v # vs" by (cases "split_on sep s") simp_all
  then show ?case using Cons by (auto simp: split_on_append)
qed

lemma split_on_strip:
  assumes "x \<in> set (split_on sep s)" "x \<noteq> []" "\<not> list_ex is_space x" "\<not> is_space sep"
  shows "x \<in> set (split_on sep (strip s))"
proof -
  have "rev x \<in> set (split_on sep (rev (lstrip s)))"
    using split_on_strip_left [OF assms] by (simp add: split_on_rev)
  moreover have "rev x \<noteq> []" "\<not> list_ex is_space (rev x)" using assms(2,3) by (simp_all add: list_ex_iff)
  ultimately have "rev x \<in> set (split_on sep (lstrip (rev (lstrip s))))"
    using assms(4) split_on_strip_left by blast
  then show ?thesis unfolding strip_def by (auto simp: split_on_rev intro: image_eqI [where x = "rev x"])
qed

section \<open>What the path rules keep\<close>

text \<open>A name that mentions a fragment, whatever the case of its letters.\<close>

definition mentions :: "string \<Rightarrow> string \<Rightarrow> bool" where
  "mentions frag name \<longleftrightarrow> str_in (to_lower frag) (to_lower name)"

text \<open>The fragments that do not begin with a character the rule strips first.\<close>

definition firm_fragments :: "string list" where
  "firm_fragments = [''SOLUTION.md'', ''solution.md'', ''_audit_'', ''AUDIT.md'', ''interviewer'']"

lemma dropWhile_lower: "to_lower (lstrip_dots s) = lstrip_dots (to_lower s)"
proof (induction s)
  case Nil
  then show ?case by (simp add: lstrip_dots_def to_lower_def)
next
  case (Cons c s)
  have "to_lower_char c = CHR ''.'' \<longleftrightarrow> c = CHR ''.''"
  proof (cases "CHR ''A'' \<le> c \<and> c \<le> CHR ''Z''")
    case True
    then have "65 \<le> (of_char c :: nat)" "(of_char c :: nat) \<le> 90" by (simp_all add: less_eq_char_def)
    moreover have "(of_char (to_lower_char c) :: nat) = of_char c + 32"
      using True calculation by (simp add: to_lower_char_def)
    ultimately have "(of_char (to_lower_char c) :: nat) \<noteq> of_char CHR ''.''" "(of_char c :: nat) \<noteq> of_char CHR ''.''"
      by simp_all
    then show ?thesis by metis
  next
    case False
    then show ?thesis by (auto simp: to_lower_char_def)
  qed
  then show ?case using Cons by (simp add: lstrip_dots_def to_lower_def lower_slash)
qed

lemma blocked_mentions:
  assumes "frag \<in> set firm_fragments" "name \<in> set (path_names (unbackslash rel_path))" "mentions frag name"
  shows "is_blocked_path rel_path"
proof -
  let ?lower = "to_lower (lstrip_dots (unbackslash rel_path))"
  have "sublist name (unbackslash rel_path)"
    using assms(2) split_on_sublist by (auto simp: path_names_def)
  then have in_lower: "sublist (to_lower frag) (to_lower (unbackslash rel_path))"
    using assms(3) sublist_lower sublist_order.order_trans unfolding mentions_def str_in_sublist by blast
  have "list_all (\<lambda>f. f \<in> set blocked_name_fragments \<and> to_lower f \<noteq> [] \<and>
      hd (to_lower f) \<noteq> CHR ''.'' \<and> hd (to_lower f) \<noteq> CHR ''/'') firm_fragments"
    by code_simp
  then have "frag \<in> set blocked_name_fragments" "to_lower frag \<noteq> []"
      "hd (to_lower frag) \<noteq> CHR ''.''" "hd (to_lower frag) \<noteq> CHR ''/''"
    using assms(1) unfolding list_all_iff by blast+
  moreover from this obtain x xs where "to_lower frag = x # xs" "x \<noteq> CHR ''.''" "x \<noteq> CHR ''/''"
    by (cases "to_lower frag") auto
  ultimately have "str_in (to_lower frag) ?lower" "frag \<in> set blocked_name_fragments"
    using in_lower unfolding str_in_sublist dropWhile_lower unfolding lstrip_dots_def
    by (auto intro: sublist_dropWhile)
  then show ?thesis unfolding is_blocked_path_def Let_def list_ex_iff by blast
qed

text \<open>The directories whose files a candidate cannot write.\<close>

definition protected_dirs :: "string list" where
  "protected_dirs = dependency_parts @ [''tests'', ''__tests__'']"

lemma frozen_dirs:
  assumes "name \<in> set (path_names (unbackslash rel_path))" "to_lower name \<in> set protected_dirs"
  shows "is_frozen_path rel_path"
proof -
  let ?s = "unbackslash rel_path"
  have "list_all (\<lambda>d. \<not> list_ex is_space d) protected_dirs" by code_simp
  then have blank: "\<not> list_ex is_space (to_lower name)" using assms(2) by (simp add: list_all_iff)
  have "is_space c \<Longrightarrow> to_lower_char c = c" for c
    by (auto simp: is_space_def to_lower_char_def)
  then have "\<not> list_ex is_space name" using blank by (force simp: to_lower_def list_ex_iff)
  then have "name \<in> set (split_on CHR ''/'' (strip ?s))"
    using assms(1) by (intro split_on_strip) (auto simp: path_names_def is_space_def)
  then have "to_lower name \<in> set (split_on CHR ''/'' (to_lower (strip ?s)))"
    by (simp add: split_on_lower)
  then show ?thesis using assms(2) unfolding is_frozen_path_def Let_def protected_dirs_def list_ex_iff by auto
qed

lemma frozen_last:
  assumes "strip (unbackslash rel_path) = unbackslash rel_path" "last (split_on CHR ''/'' (unbackslash rel_path)) = name"
    "frozen_name (to_lower name)"
  shows "is_frozen_path rel_path"
  using assms by (auto simp: is_frozen_path_def Let_def split_on_lower last_map)

lemma read_file_InrE:
  assumes "read_file decode fs workspace rel_path = Inr content"
  obtains root_dir bytes where "resolve_path fs workspace = Some root_dir"
    "path_names (unbackslash rel_path) \<noteq> []"
    "resolve_path fs (root_dir @ path_names (unbackslash rel_path)) = Some (root_dir @ path_names (unbackslash rel_path))"
    "file_at fs (root_dir @ path_names (unbackslash rel_path)) = Some bytes" "int (length bytes) \<le> max_file_bytes"
    "content = universal_newlines (decode bytes)" "\<not> is_blocked_path rel_path"
proof -
  from assms obtain p bytes where ok: "\<not> is_blocked_path rel_path" and p: "contained_file fs workspace rel_path = Inr p"
    and "file_at fs p = Some bytes" "int (length bytes) \<le> max_file_bytes" "content = universal_newlines (decode bytes)"
    by (auto simp: read_file_def bind_Inr split: if_splits option.splits)
  moreover from p obtain root_dir where "resolve_path fs workspace = Some root_dir"
      "p = root_dir @ path_names (unbackslash rel_path)" "path_names (unbackslash rel_path) \<noteq> []" "clean fs p"
    by (elim contained_fileE) auto
  ultimately show thesis using that resolve_stays by metis
qed

section \<open>What a write changes\<close>

lemma map_of_put_node [simp]: "map_of (put_node p nd fs) q = (if q = p then Some nd else map_of fs q)"
proof (cases "map_of fs p")
  case None
  then show ?thesis by (auto simp: put_node_def map_add_def split: option.split)
next
  case (Some m)
  have "map_of (map (\<lambda>(q, m). (q, if q = p then nd else m)) fs) q = (if q = p then map_option (\<lambda>_. nd) (map_of fs q) else map_of fs q)"
    by (induction fs) auto
  then show ?thesis using Some by (simp add: put_node_def)
qed

lemma distinct_put_node: "distinct (map fst fs) \<Longrightarrow> distinct (map fst (put_node p nd fs))"
  by (auto simp: put_node_def comp_def case_prod_beta map_of_eq_None_iff)

lemma sum_put_node:
  fixes v :: "path \<times> node \<Rightarrow> int"
  assumes "distinct (map fst fs)"
  shows "sum_list (map v (put_node p nd fs)) =
    sum_list (map v fs) - (case map_of fs p of None \<Rightarrow> 0 | Some m \<Rightarrow> v (p, m)) + v (p, nd)"
proof (cases "map_of fs p")
  case None
  then show ?thesis by (simp add: put_node_def)
next
  case (Some m)
  have "sum_list (map v (map (\<lambda>(q, m). (q, if q = p then nd else m)) fs)) = sum_list (map v fs) - v (p, m) + v (p, nd)"
    using assms Some
  proof (induction fs)
    case Nil
    then show ?case by simp
  next
    case (Cons e fs)
    obtain q k where e: "e = (q, k)" by (cases e)
    show ?case
    proof (cases "q = p")
      case True
      then have "map (\<lambda>(q, m). (q, if q = p then nd else m)) fs = fs"
        using Cons.prems(1) e by (force intro: map_idI)
      then show ?thesis using True Cons.prems(2) e by simp
    next
      case False
      then show ?thesis using Cons e by simp
    qed
  qed
  then show ?thesis using Some by (simp add: put_node_def)
qed

lemma make_dirs_SomeD:
  "make_dirs fs current parts = Some fs' \<Longrightarrow>
   (\<forall>q. map_of fs' q = (if strict_prefix current q \<and> prefix q (current @ parts) then Some DirNode else map_of fs q))"
proof (induction parts arbitrary: fs current)
  case Nil
  have "\<not> (strict_prefix current q \<and> prefix q current)" for q
    by (meson leD prefix_order.less_le_not_le)
  moreover have "fs' = fs" using Nil by simp
  ultimately show ?case by auto
next
  case (Cons part parts)
  let ?next = "current @ [part]"
  have between: "strict_prefix current q \<and> prefix q (current @ part # parts) \<longleftrightarrow>
      q = ?next \<or> (strict_prefix ?next q \<and> prefix q (?next @ parts))" for q
  proof -
    have "q = ?next \<or> strict_prefix ?next q \<longleftrightarrow> prefix ?next q" by (metis prefix_order.le_less)
    moreover have "prefix ?next q" if "strict_prefix current q" "prefix q (current @ part # parts)"
    proof -
      from that(1) obtain z zs where "q = current @ z # zs" by (rule strict_prefixE')
      then show ?thesis using that(2) by simp
    qed
    moreover have "strict_prefix current q" if "prefix ?next q"
      using that by (metis append_Cons append_assoc prefixE strict_prefixI')
    ultimately show ?thesis by auto
  qed
  show ?case
  proof (cases "map_of fs ?next")
    case None
    then have "make_dirs (put_node ?next DirNode fs) ?next parts = Some fs'" using Cons.prems by (simp add: Let_def)
    from Cons.IH [OF this] show ?thesis using between by auto
  next
    case (Some nd)
    then have dir: "nd = DirNode" and "make_dirs fs ?next parts = Some fs'"
      using Cons.prems by (simp_all add: Let_def split: node.splits)
    from Cons.IH [OF this(2)] show ?thesis using between Some dir by auto
  qed
qed

lemma make_dirs_measure:
  "make_dirs fs current parts = Some fs' \<Longrightarrow> distinct (map fst fs) \<Longrightarrow>
   distinct (map fst fs') \<and> measure_workspace fs' workspace = measure_workspace fs workspace"
proof (induction parts arbitrary: fs current)
  case Nil
  then show ?case by simp
next
  case (Cons part parts)
  let ?next = "current @ [part]"
  show ?case
  proof (cases "map_of fs ?next")
    case None
    then have "make_dirs (put_node ?next DirNode fs) ?next parts = Some fs'" using Cons.prems(1) by (simp add: Let_def)
    from Cons.IH [OF this distinct_put_node [OF Cons.prems(2)]] show ?thesis
      using sum_put_node [OF Cons.prems(2)] None
      by (simp add: measure_workspace_def counted_bytes_def counted_files_def)
  next
    case (Some nd)
    then have "make_dirs fs ?next parts = Some fs'" using Cons.prems(1) by (simp add: Let_def split: node.splits)
    from Cons.IH [OF this Cons.prems(2)] show ?thesis .
  qed
qed

lemma store_text_InrD:
  assumes "store_text fs path encoded = Inr fs'" "path \<noteq> []"
  shows "map_of fs' q =
    (if q = path then Some (FileNode encoded) else if q \<noteq> [] \<and> strict_prefix q path then Some DirNode else map_of fs q)"
proof -
  from assms(1) obtain fs1 where dirs: "make_dirs fs [] (butlast path) = Some fs1"
    and fs': "fs' = put_node path (FileNode encoded) fs1"
    by (auto simp: store_text_def split: option.splits node.splits)
  obtain dir name where path: "path = dir @ [name]" using assms(2) by (cases path rule: rev_cases) auto
  have "strict_prefix q path \<longleftrightarrow> prefix q dir" by (auto simp: path strict_prefix_def)
  moreover have "strict_prefix [] q \<longleftrightarrow> q \<noteq> []" by (auto simp: strict_prefix_def)
  moreover have "map_of fs1 q = (if strict_prefix [] q \<and> prefix q dir then Some DirNode else map_of fs q)"
    using make_dirs_SomeD [OF dirs] path by simp
  ultimately show ?thesis unfolding fs' map_of_put_node by simp
qed

lemma store_text_old:
  assumes "store_text fs path encoded = Inr fs'" "path \<noteq> []"
  shows "map_of fs path = None \<or> (\<exists>b. map_of fs path = Some (FileNode b))"
proof -
  from assms(1) obtain fs1 where dirs: "make_dirs fs [] (butlast path) = Some fs1"
    and node: "\<not> is_symlink fs1 path" "map_of fs1 path \<noteq> Some DirNode"
    by (auto simp: store_text_def is_symlink_def split: option.splits node.splits)
  have "\<not> prefix path (butlast path)"
    using assms(2) by (metis append_butlast_last_id prefix_length_le length_append_singleton not_less_eq_eq order_refl)
  then have same: "map_of fs1 path = map_of fs path" using make_dirs_SomeD [OF dirs] by simp
  show ?thesis
  proof (cases "map_of fs path")
    case None
    then show ?thesis by simp
  next
    case (Some nd)
    then show ?thesis using node same by (cases nd) (simp_all add: is_symlink_def)
  qed
qed

lemma store_text_measure:
  assumes "store_text fs path encoded = Inr fs'" "path \<noteq> []" "distinct (map fst fs)"
  shows "distinct (map fst fs')"
    "fst (measure_workspace fs' workspace) = fst (measure_workspace fs workspace) +
       (if counted workspace path then int (length encoded) - (case file_at fs path of None \<Rightarrow> 0 | Some b \<Rightarrow> int (length b)) else 0)"
    "snd (measure_workspace fs' workspace) = snd (measure_workspace fs workspace) +
       (if counted workspace path \<and> file_at fs path = None then 1 else 0)"
proof -
  from assms(1) obtain fs1 where dirs: "make_dirs fs [] (butlast path) = Some fs1"
    and fs': "fs' = put_node path (FileNode encoded) fs1"
    by (auto simp: store_text_def split: option.splits node.splits)
  have "\<not> prefix path (butlast path)"
    using assms(2) by (metis append_butlast_last_id prefix_length_le length_append_singleton not_less_eq_eq order_refl)
  then have same: "map_of fs1 path = map_of fs path" using make_dirs_SomeD [OF dirs] by simp
  note keep = make_dirs_measure [OF dirs assms(3), of workspace]
  then show "distinct (map fst fs')" unfolding fs' using distinct_put_node by blast
  have old: "map_of fs path = None \<or> (\<exists>b. map_of fs path = Some (FileNode b))"
    using store_text_old [OF assms(1,2)] .
  have dist: "distinct (map fst fs1)" using keep by simp
  show "fst (measure_workspace fs' workspace) = fst (measure_workspace fs workspace) +
       (if counted workspace path then int (length encoded) - (case file_at fs path of None \<Rightarrow> 0 | Some b \<Rightarrow> int (length b)) else 0)"
    using keep old sum_put_node [OF dist, of "counted_bytes workspace" path "FileNode encoded"]
    unfolding fs' measure_workspace_def same by (auto simp: counted_bytes_def file_at_def)
  show "snd (measure_workspace fs' workspace) = snd (measure_workspace fs workspace) +
       (if counted workspace path \<and> file_at fs path = None then 1 else 0)"
    using keep old sum_put_node [OF dist, of "counted_files workspace" path "FileNode encoded"]
    unfolding fs' measure_workspace_def same by (auto simp: counted_files_def file_at_def)
qed

section \<open>The outcome of a write\<close>

lemma write_file_lockedE:
  assumes "write_file_locked cfg free workspace rel_path content st = (st', None)"
  obtains path l1 where
    "contained_file (ws_files st) workspace rel_path = Inr path" "\<not> is_blocked_path rel_path" "\<not> is_frozen_path rel_path"
    "int (length (utf8 content)) \<le> max_file_bytes"
    "check_upload (last workspace) (measure_workspace (ws_files st) workspace)
       (map_option (int \<circ> length) (file_at (ws_files st) path)) (int (length (utf8 content))) (ws_ledger st) = (l1, True)"
    "store_text (ws_files st) path (utf8 content) = Inr (ws_files st')"
    "storage_capacity (interview_storage_max_bytes cfg) (interview_storage_min_free_bytes cfg) free
       (int (length (utf8 content)))
       (Committed (last workspace) (fst (measure_workspace (ws_files st') workspace))
          (snd (measure_workspace (ws_files st') workspace))) l1 = Inr (ws_ledger st')"
  using assms
  by (auto simp: write_file_locked_def Let_def split: if_splits sum.splits prod.splits)

lemma write_fileE:
  assumes "write_file cfg free workspace rel_path content st = (st', None)"
  obtains "\<not> path_exists (open_lock (beside workspace ''.upload.lock'') (ws_files st)) (beside workspace ''.submitted'')"
    "write_file_locked cfg free workspace rel_path content
       (st\<lparr>ws_files := open_lock (beside workspace ''.upload.lock'') (ws_files st)\<rparr>) = (st', None)"
  using assms by (auto simp: write_file_def Let_def split: if_splits)

lemma open_lock_other [simp]: "q \<noteq> p \<Longrightarrow> map_of (open_lock p fs) q = map_of fs q"
  by (simp add: open_lock_def)

lemma open_lock_measure:
  assumes "distinct (map fst fs)" "\<not> strict_prefix workspace p"
  shows "distinct (map fst (open_lock p fs))" "measure_workspace (open_lock p fs) workspace = measure_workspace fs workspace"
  using assms distinct_put_node [OF assms(1)] sum_put_node [OF assms(1)]
  by (auto simp: open_lock_def measure_workspace_def counted_bytes_def counted_files_def counted_def)

lemma beside_not_below: "workspace \<noteq> [] \<Longrightarrow> \<not> strict_prefix workspace (beside workspace tail)"
  using prefix_length_less [of workspace "beside workspace tail"] by (auto simp: beside_def)

lemma row_get_write_entry:
  "row_get le_key k (lg_rows (write_entry entry bytes files settle l)) =
     (if k = entry
      then Some (case row_get le_key entry (lg_rows l) of
          Some r \<Rightarrow> r\<lparr>le_total := max 0 bytes, le_files := max 0 files\<rparr>
        | None \<Rightarrow> \<lparr>le_key = entry, le_total = max 0 bytes, le_files = max 0 files, le_reserved = 0\<rparr>)
      else row_get le_key k (lg_rows l))"
  by (auto simp: write_entry_def Let_def row_simps row_get_append split: option.split)

lemma row_get_settle: "k \<noteq> key \<Longrightarrow> row_get le_key k (lg_rows (settle_reservation key n l)) = row_get le_key k (lg_rows l)"
  by (simp add: settle_reservation_def row_simps)

lemma row_get_reserve:
  assumes "reserve lims free key n f l = Inr (l', w)" "k \<noteq> key"
  shows "row_get le_key k (lg_rows l') = row_get le_key k (lg_rows l)"
proof -
  from assms(1) have "l' = l\<lparr>lg_rows := (case row_get le_key key (lg_rows l) of
                        Some _ \<Rightarrow> row_upd le_key key (\<lambda>r. r\<lparr>le_reserved := le_reserved r + w\<rparr>) (lg_rows l)
                      | None \<Rightarrow> lg_rows l @ [\<lparr>le_key = key, le_total = 0, le_files = 0, le_reserved = w\<rparr>]),
                     lg_reserved := lg_reserved l + w\<rparr>"
    by (auto simp: reserve_def Let_def split: if_splits)
  then show ?thesis using assms(2) by (auto simp: row_simps row_get_append split: option.split)
qed

text \<open>The ledger's row of a workspace, when there is one, covers a measurement.\<close>

definition ledger_knows :: "string \<Rightarrow> int \<times> int \<Rightarrow> ledger \<Rightarrow> bool" where
  "ledger_knows key m l \<longleftrightarrow>
     (case row_get le_key key (lg_rows l) of
        None \<Rightarrow> True
      | Some r \<Rightarrow> fst m \<le> le_total r \<and> snd m \<le> le_files r \<and> le_reserved r = 0)"

lemma ledger_knows_write:
  "ledger_knows key m0 l \<Longrightarrow> 0 \<le> fst m \<Longrightarrow> 0 \<le> snd m \<Longrightarrow> ledger_knows key m (write_entry key (fst m) (snd m) n l)"
  by (simp add: ledger_knows_def row_get_write_entry split: option.splits)

lemma ledger_knows_frame:
  "row_get le_key key (lg_rows l') = row_get le_key key (lg_rows l) \<Longrightarrow> ledger_knows key m l' = ledger_knows key m l"
  by (simp add: ledger_knows_def)

lemma storage_capacity_knows:
  assumes "storage_capacity mx mn free n ending l = Inr l'" "key \<noteq> reservation_key" "ledger_knows key m0 l"
  shows "ending = Committed key (fst m) (snd m) \<Longrightarrow> 0 \<le> fst m \<Longrightarrow> 0 \<le> snd m \<Longrightarrow> ledger_knows key m l'"
    "ending = RaisedUncommitted \<Longrightarrow> ledger_knows key m0 l'"
proof -
  from assms(1) obtain l1 w where r: "reserve (capacity_limits mx mn) free reservation_key (max 0 n) 0 l = Inr (l1, w)"
    by (auto simp: storage_capacity_def split: sum.splits)
  have k1: "ledger_knows key m0 l1" using ledger_knows_frame [OF row_get_reserve [OF r assms(2)]] assms(3) by simp
  show "ledger_knows key m l'" if "ending = Committed key (fst m) (snd m)" "0 \<le> fst m" "0 \<le> snd m"
  proof -
    have "l' = write_entry key (fst m) (snd m) w l1" using assms(1) that(1) r by (simp add: storage_capacity_def)
    then show ?thesis using ledger_knows_write [OF k1 that(2,3)] by simp
  qed
  show "ledger_knows key m0 l'" if "ending = RaisedUncommitted"
  proof -
    have "l' = release reservation_key w l1" using assms(1) that r by (simp add: storage_capacity_def)
    then show ?thesis
      using ledger_knows_frame [OF row_get_settle [OF assms(2), of "max 0 w" l1]] k1 by (simp add: release_def)
  qed
qed

lemma check_upload_knows:
  assumes "check_upload key m old n l = (l', ok)" "ledger_knows key m l" "0 \<le> fst m" "0 \<le> snd m"
  shows "ledger_knows key m l'"
    "ok \<Longrightarrow> fst m - (case old of None \<Rightarrow> 0 | Some k \<Rightarrow> k) + n \<le> source_bytes_limit"
    "ok \<Longrightarrow> snd m + (if old = None then 1 else 0) \<le> source_files_limit"
proof -
  have "ledger_knows key m l' \<and>
      (ok \<longrightarrow> \<not> (fst m - (case old of None \<Rightarrow> 0 | Some k \<Rightarrow> k) + n > source_bytes_limit \<or>
          snd m + (if old = None then 1 else 0) > source_files_limit))"
  proof (cases "row_get le_key key (lg_rows l)")
    case None
    then show ?thesis using assms(1) ledger_knows_write [OF assms(2,3,4), of 0]
      by (cases m) (auto simp: check_upload_def workspace_usage_def Let_def)
  next
    case (Some r)
    then have "fst m \<le> le_total r" "snd m \<le> le_files r" "le_reserved r = 0"
      using assms(2) by (simp_all add: ledger_knows_def)
    then show ?thesis using assms(1,2) Some
      by (cases m) (auto simp: check_upload_def workspace_usage_def Let_def)
  qed
  then show "ledger_knows key m l'"
    "ok \<Longrightarrow> fst m - (case old of None \<Rightarrow> 0 | Some k \<Rightarrow> k) + n \<le> source_bytes_limit"
    "ok \<Longrightarrow> snd m + (if old = None then 1 else 0) \<le> source_files_limit"
    by auto
qed

definition workspace_ok :: "path \<Rightarrow> ws_state \<Rightarrow> bool" where
  "workspace_ok workspace st \<longleftrightarrow>
     workspace \<noteq> [] \<and> last workspace \<noteq> reservation_key \<and> clean (ws_files st) workspace \<and>
     distinct (map fst (ws_files st)) \<and>
     fst (measure_workspace (ws_files st) workspace) \<le> source_bytes_limit \<and>
     snd (measure_workspace (ws_files st) workspace) \<le> source_files_limit \<and>
     ledger_knows (last workspace) (measure_workspace (ws_files st) workspace) (ws_ledger st)"

lemma measure_nonneg: "0 \<le> fst (measure_workspace fs workspace)" "0 \<le> snd (measure_workspace fs workspace)"
  unfolding measure_workspace_def
  by (auto intro!: sum_list_nonneg simp: counted_bytes_def counted_files_def split: node.split)

lemma clean_mono:
  "clean fs p \<Longrightarrow> (\<And>q. is_symlink fs' q \<Longrightarrow> is_symlink fs q) \<Longrightarrow> clean fs' p"
  by (auto simp: clean_def)

lemma store_text_symlinks:
  assumes "store_text fs path encoded = Inr fs'" "path \<noteq> []" "is_symlink fs' q"
  shows "is_symlink fs q"
  using assms(3) store_text_InrD [OF assms(1,2), of q] by (auto simp: is_symlink_def split: if_splits)

lemma open_lock_symlinks: "is_symlink (open_lock p fs) q \<Longrightarrow> is_symlink fs q"
  by (auto simp: open_lock_def is_symlink_def split: if_splits)

lemma workspace_ok_lock:
  assumes "workspace_ok workspace st"
  shows "workspace_ok workspace (st\<lparr>ws_files := open_lock (beside workspace tail) (ws_files st)\<rparr>)"
proof -
  have "workspace \<noteq> []" "distinct (map fst (ws_files st))" "clean (ws_files st) workspace"
    using assms by (simp_all add: workspace_ok_def)
  then show ?thesis
    using assms open_lock_measure beside_not_below clean_mono open_lock_symlinks
    by (simp add: workspace_ok_def) blast
qed

text \<open>A path that passes the rules is counted by the measurement, the ledger's own name excepted.\<close>

lemma written_counted:
  assumes "\<not> is_frozen_path rel_path" "parts = path_names (unbackslash rel_path)" "parts \<noteq> []"
    "workspace @ parts \<noteq> workspace @ [ledger_name]"
  shows "counted workspace (workspace @ parts)"
proof -
  have "to_lower d = d" if "d \<in> set dependency_parts" for d
    using that by (auto simp: dependency_parts_def to_lower_def to_lower_char_def less_eq_char_def)
  then have "x \<notin> set dependency_parts" if "x \<in> set parts" for x
    using that assms(1,2) frozen_dirs [of x rel_path] by (auto simp: protected_dirs_def)
  then show ?thesis using assms(3,4) by (auto simp: counted_def list_all_iff strict_prefix_def dest: in_set_butlastD)
qed

lemma workspace_ok_write_locked:
  assumes ok: "workspace_ok workspace st"
    and run: "write_file_locked cfg free workspace rel_path content st = (st', err)"
  shows "workspace_ok workspace st'"
proof -
  let ?fs = "ws_files st" and ?m = "measure_workspace (ws_files st) workspace" and ?n = "int (length (utf8 content))"
  let ?key = "last workspace"
  note inv = ok [unfolded workspace_ok_def]
  show ?thesis
  proof (cases "st' = st")
    case True
    then show ?thesis using ok by simp
  next
    case False
    then obtain path where path: "contained_file ?fs workspace rel_path = Inr path" and notfrozen: "\<not> is_frozen_path rel_path"
      using run by (auto simp: write_file_locked_def Let_def split: if_splits sum.splits)
    obtain l1 admitted where up: "check_upload ?key ?m (map_option (int \<circ> length) (file_at ?fs path)) ?n (ws_ledger st) = (l1, admitted)"
      by (cases "check_upload ?key ?m (map_option (int \<circ> length) (file_at ?fs path)) ?n (ws_ledger st)")
    have knows: "ledger_knows ?key ?m l1"
      using check_upload_knows(1) [OF up _ measure_nonneg] inv by simp
    define ending where "ending = (case store_text ?fs path (utf8 content) of
                        Inl _ \<Rightarrow> RaisedUncommitted
                      | Inr fs' \<Rightarrow> Committed ?key (fst (measure_workspace fs' workspace))
                                               (snd (measure_workspace fs' workspace)))"
    define outcome where "outcome = storage_capacity (interview_storage_max_bytes cfg)
                            (interview_storage_min_free_bytes cfg) free ?n ending l1"
    have st': "st' = (if \<not> admitted then st\<lparr>ws_ledger := l1\<rparr>
         else case outcome of
             Inl _ \<Rightarrow> st\<lparr>ws_ledger := l1\<rparr>
           | Inr l2 \<Rightarrow> (case store_text ?fs path (utf8 content) of
                 Inl e \<Rightarrow> st\<lparr>ws_ledger := l2\<rparr> | Inr fs' \<Rightarrow> \<lparr>ws_files = fs', ws_ledger = l2\<rparr>))"
      using run False path up unfolding write_file_locked_def Let_def ending_def outcome_def
      by (auto split: if_splits sum.splits)
    have same_files: "workspace_ok workspace (st\<lparr>ws_ledger := l\<rparr>)" if "ledger_knows ?key ?m l" for l
      using inv that by (simp add: workspace_ok_def)
    show ?thesis
    proof (cases "admitted \<and> (\<exists>l2. outcome = Inr l2)")
      case False
      then show ?thesis using st' same_files [OF knows] by (auto split: sum.splits)
    next
      case True
      then obtain l2 where adm: admitted and l2: "outcome = Inr l2" by blast
      have key: "?key \<noteq> reservation_key" using inv by simp
      show ?thesis
      proof (cases "store_text ?fs path (utf8 content)")
        case (Inl e)
        then have "ledger_knows ?key ?m l2"
          using storage_capacity_knows(2) [OF l2 [unfolded outcome_def] key knows] by (simp add: ending_def)
        then show ?thesis using st' adm l2 Inl same_files by simp
      next
        case (Inr fs')
        obtain root_dir where r: "resolve_path ?fs workspace = Some root_dir"
          and p: "path = root_dir @ path_names (unbackslash rel_path)" "path_names (unbackslash rel_path) \<noteq> []"
          using path by (elim contained_fileE) auto
        have root_eq: "root_dir = workspace" using r resolve_stays [of ?fs workspace] inv by simp
        have nonempty: "path \<noteq> []" using p by simp
        have dist: "distinct (map fst ?fs)" using inv by simp
        note m = store_text_measure [OF Inr nonempty dist]
        have lims: "fst ?m \<le> source_bytes_limit" "snd ?m \<le> source_files_limit" using inv by simp_all
        have quota: "fst ?m - (case map_option (int \<circ> length) (file_at ?fs path) of None \<Rightarrow> 0 | Some k \<Rightarrow> k) + ?n \<le> source_bytes_limit"
          "snd ?m + (if map_option (int \<circ> length) (file_at ?fs path) = None then 1 else 0) \<le> source_files_limit"
          using check_upload_knows(2,3) [OF up _ measure_nonneg adm] inv by simp_all
        have "fst (measure_workspace fs' workspace) \<le> source_bytes_limit"
          using m(2) [of workspace] quota(1) lims(1) by (cases "file_at ?fs path") (auto split: if_splits)
        moreover have "snd (measure_workspace fs' workspace) \<le> source_files_limit"
          using m(3) [of workspace] quota(2) lims(2) by (auto split: if_splits)
        moreover have "ledger_knows ?key (measure_workspace fs' workspace) l2"
          using storage_capacity_knows(1) [OF l2 [unfolded outcome_def] key knows, of "measure_workspace fs' workspace"]
            measure_nonneg Inr by (simp add: ending_def)
        moreover have "clean fs' workspace"
          using inv clean_mono store_text_symlinks [OF Inr nonempty] by blast
        ultimately show ?thesis using st' adm l2 Inr inv m(1) by (simp add: workspace_ok_def)
      qed
    qed
  qed
qed

lemma workspace_ok_write:
  assumes "workspace_ok workspace st" "write_file cfg free workspace rel_path content st = (st', err)"
  shows "workspace_ok workspace st'"
  using assms(2) workspace_ok_lock [OF assms(1)] workspace_ok_write_locked [OF workspace_ok_lock [OF assms(1)]]
  unfolding write_file_def Let_def by (auto split: if_splits)

section \<open>Properties\<close>

text \<open>
  C9: Whatever a candidate writes as a path - backslashes, empty names, dots, links on the way - the
  path that \<open>contained_file\<close> gives lies strictly below the resolved workspace and is physical:
  resolving it changes nothing, so no link can lead the access elsewhere.
\<close>

theorem contained_in_workspace:
  assumes "contained_file fs workspace rel_path = Inr p"
  shows "\<exists>root_dir. resolve_path fs workspace = Some root_dir \<and> strict_prefix root_dir p \<and> resolve_path fs p = Some p"
proof -
  from assms obtain root_dir where "resolve_path fs workspace = Some root_dir"
      "p = root_dir @ path_names (unbackslash rel_path)" "path_names (unbackslash rel_path) \<noteq> []" "clean fs p"
    by (elim contained_fileE) auto
  then show ?thesis using resolve_stays by (auto simp: strict_prefix_def)
qed

definition demo_files :: files where
  "demo_files = [([''ws''], DirNode), ([''ws'', ''s1''], DirNode),
     ([''ws'', ''s1'', ''pytest.ini''], FileNode ''[pytest]''),
     ([''ws'', ''s1'', ''out''], LinkNode True [''etc''])]"

theorem contained_in_workspace_witness:
  "contained_file demo_files [''ws'', ''s1''] ''src//./a.py'' = Inr [''ws'', ''s1'', ''src'', ''a.py''] \<and>
   (\<exists>root_dir. resolve_path demo_files [''ws'', ''s1''] = Some root_dir \<and>
      strict_prefix root_dir [''ws'', ''s1'', ''src'', ''a.py''] \<and>
      resolve_path demo_files [''ws'', ''s1'', ''src'', ''a.py''] = Some [''ws'', ''s1'', ''src'', ''a.py''])"
proof -
  have "contained_file demo_files [''ws'', ''s1''] ''src//./a.py'' = Inr [''ws'', ''s1'', ''src'', ''a.py'']"
    by code_simp
  with contained_in_workspace [OF this] show ?thesis by blast
qed

text \<open>
  A file that a candidate can read has no name, at any depth below the workspace and in any
  case of its letters, that mentions a solution, an audit or an interviewer file, however the path
  was spelled; its size is within the limit and what is returned is its decoded content.
\<close>

theorem hidden_files_never_read:
  assumes "read_file decode fs workspace rel_path = Inr content"
  shows "\<exists>root_dir parts bytes. resolve_path fs workspace = Some root_dir \<and>
     file_at fs (root_dir @ parts) = Some bytes \<and> int (length bytes) \<le> max_file_bytes \<and>
     content = universal_newlines (decode bytes) \<and>
     (\<forall>name \<in> set parts. \<not> (\<exists>frag \<in> set firm_fragments. mentions frag name))"
  using assms
proof (rule read_file_InrE)
  fix root_dir bytes
  let ?parts = "path_names (unbackslash rel_path)"
  assume "\<not> is_blocked_path rel_path"
  then have "\<forall>name \<in> set ?parts. \<not> (\<exists>frag \<in> set firm_fragments. mentions frag name)"
    using blocked_mentions by blast
  moreover assume "resolve_path fs workspace = Some root_dir" "file_at fs (root_dir @ ?parts) = Some bytes"
    "int (length bytes) \<le> max_file_bytes" "content = universal_newlines (decode bytes)"
  ultimately show ?thesis by blast
qed

theorem hidden_files_never_read_witness:
  "read_file (\<lambda>b. b) demo_files [''ws'', ''s1''] ''./pytest.ini'' = Inr ''[pytest]'' \<and>
   (\<exists>root_dir parts bytes. resolve_path demo_files [''ws'', ''s1''] = Some root_dir \<and>
     file_at demo_files (root_dir @ parts) = Some bytes \<and> int (length bytes) \<le> max_file_bytes \<and>
     ''[pytest]'' = universal_newlines bytes \<and>
     (\<forall>name \<in> set parts. \<not> (\<exists>frag \<in> set firm_fragments. mentions frag name)))"
proof -
  have "read_file (\<lambda>b. b) demo_files [''ws'', ''s1''] ''./pytest.ini'' = Inr ''[pytest]''"
    by code_simp
  with hidden_files_never_read [OF this] show ?thesis by simp
qed

lemma file_written:
  assumes "write_file cfg free workspace rel_path content st = (st', None)"
  shows "\<exists>root_dir parts. parts = path_names (unbackslash rel_path) \<and> parts \<noteq> [] \<and>
     resolve_path (open_lock (beside workspace ''.upload.lock'') (ws_files st)) workspace = Some root_dir \<and>
     (\<forall>q. q \<noteq> beside workspace ''.upload.lock'' \<longrightarrow> map_of (ws_files st') q =
        (if q = root_dir @ parts then Some (FileNode (utf8 content))
         else if q \<noteq> [] \<and> strict_prefix q (root_dir @ parts) then Some DirNode
         else map_of (ws_files st) q)) \<and>
     (\<forall>name \<in> set parts. to_lower name \<notin> set protected_dirs \<and> \<not> (\<exists>frag \<in> set firm_fragments. mentions frag name)) \<and>
     \<not> path_exists (open_lock (beside workspace ''.upload.lock'') (ws_files st)) (beside workspace ''.submitted'')"
proof -
  let ?lock = "beside workspace ''.upload.lock''"
  let ?st0 = "st\<lparr>ws_files := open_lock ?lock (ws_files st)\<rparr>"
  let ?parts = "path_names (unbackslash rel_path)"
  from assms have not_submitted: "\<not> path_exists (open_lock ?lock (ws_files st)) (beside workspace ''.submitted'')"
    and run: "write_file_locked cfg free workspace rel_path content ?st0 = (st', None)"
    by (auto elim: write_fileE)
  from run obtain path where path: "contained_file (ws_files ?st0) workspace rel_path = Inr path"
    and rules: "\<not> is_blocked_path rel_path" "\<not> is_frozen_path rel_path"
    and store: "store_text (ws_files ?st0) path (utf8 content) = Inr (ws_files st')"
    by (elim write_file_lockedE) auto
  from path obtain root_dir where r: "resolve_path (ws_files ?st0) workspace = Some root_dir"
    and p: "path = root_dir @ ?parts" "?parts \<noteq> []"
    by (elim contained_fileE) auto
  have "map_of (ws_files st') q =
      (if q = root_dir @ ?parts then Some (FileNode (utf8 content))
       else if q \<noteq> [] \<and> strict_prefix q (root_dir @ ?parts) then Some DirNode
       else map_of (ws_files st) q)" if "q \<noteq> ?lock" for q
    using store_text_InrD [OF store, of q] p that by simp
  moreover have "to_lower name \<notin> set protected_dirs \<and> \<not> (\<exists>frag \<in> set firm_fragments. mentions frag name)"
    if "name \<in> set ?parts" for name
    using that rules frozen_dirs blocked_mentions by blast
  ultimately show ?thesis using r p(2) not_submitted by auto
qed


definition demo_state :: ws_state where
  "demo_state = \<lparr>ws_files = demo_files, ws_ledger = empty_ledger\<rparr>"

definition demo_settings :: storage_settings where
  "demo_settings = \<lparr>interview_storage_max_bytes = 1000000, interview_storage_min_free_bytes = 10\<rparr>"

definition demo_write :: "string \<Rightarrow> string \<Rightarrow> ws_state \<times> ws_exc option" where
  "demo_write rel_path content = write_file demo_settings 5000 [''ws'', ''s1''] rel_path content demo_state"


text \<open>A session's saves, each with the free disk space at its time; a failed one is skipped.\<close>

fun run_writes :: "storage_settings \<Rightarrow> path \<Rightarrow> (int \<times> string \<times> string) list \<Rightarrow> ws_state \<Rightarrow> ws_state" where
  "run_writes cfg workspace [] st = st"
| "run_writes cfg workspace ((free, rel_path, content) # ws) st =
     run_writes cfg workspace ws (fst (write_file cfg free workspace rel_path content st))"

text \<open>
  C23: No sequence of saves, successful or refused, takes a workspace over its quota of source bytes
  and files, and the ledger's row of the workspace always covers what a walk of the tree measures.
\<close>

theorem source_quota_kept:
  assumes "workspace_ok workspace st"
  shows "workspace_ok workspace (run_writes cfg workspace ws st)"
  using assms
proof (induction cfg workspace ws st rule: run_writes.induct)
  case (1 cfg workspace st)
  then show ?case by simp
next
  case (2 cfg workspace free rel_path content ws st)
  have "workspace_ok workspace (fst (write_file cfg free workspace rel_path content st))"
    using workspace_ok_write [OF "2.prems"] by (metis prod.collapse)
  then show ?case using "2.IH" by simp
qed

theorem source_quota_kept_witness:
  "workspace_ok [''ws'', ''s1'']
     (run_writes demo_settings [''ws'', ''s1''] [(5000, ''a.py'', ''x''), (5000, ''../b'', ''y'')] demo_state) \<and>
   measure_workspace demo_files [''ws'', ''s1''] = (8, 1)"
proof -
  have m: "measure_workspace demo_files [''ws'', ''s1''] = (8, 1)"
    and d: "distinct (map fst demo_files)"
    and c: "\<not> is_symlink demo_files [''ws'']" "\<not> is_symlink demo_files [''ws'', ''s1'']"
      "list_all proper_name [''ws'', ''s1'']"
    and lims: "(8::int) \<le> source_bytes_limit" "(1::int) \<le> source_files_limit"
    and key: "''s1'' \<noteq> reservation_key"
    by code_simp+
  have "clean demo_files [''ws'', ''s1'']"
    using c by (auto simp: clean_def less_Suc_eq numeral_2_eq_2)
  then have "workspace_ok [''ws'', ''s1''] demo_state"
    using m d lims key by (simp add: workspace_ok_def demo_state_def ledger_knows_def empty_ledger_def)
  from source_quota_kept [OF this] m show ?thesis by blast
qed

lemma written_reads_back:
  assumes written: "write_file cfg free workspace rel_path content st = (st', None)"
    and decoder: "\<And>s. decode (utf8 s) = s"
    and ok: "workspace_ok workspace st"
  shows "read_file decode (ws_files st') workspace rel_path = Inr (universal_newlines content)"
proof -
  let ?fs = "open_lock (beside workspace ''.upload.lock'') (ws_files st)"
  from written have run: "write_file_locked cfg free workspace rel_path content (st\<lparr>ws_files := ?fs\<rparr>) = (st', None)"
    by (elim write_fileE)
  from run obtain path where path: "contained_file ?fs workspace rel_path = Inr path"
    and rules: "\<not> is_blocked_path rel_path" "int (length (utf8 content)) \<le> max_file_bytes"
    and store: "store_text ?fs path (utf8 content) = Inr (ws_files st')"
    by (elim write_file_lockedE) auto
  have clean_ws: "clean ?fs workspace" using workspace_ok_lock [OF ok] by (simp add: workspace_ok_def)
  then have r: "resolve_path ?fs workspace = Some workspace" by (rule resolve_stays)
  from path r have p: "path = workspace @ path_names (unbackslash rel_path)" "path_names (unbackslash rel_path) \<noteq> []"
    and clean_path: "clean ?fs path"
    by (auto elim: contained_fileE)
  then have nonempty: "path \<noteq> []" by simp
  have "clean (ws_files st') path" "clean (ws_files st') workspace"
    using clean_mono store_text_symlinks [OF store nonempty] clean_path clean_ws by blast+
  then have "contained_file (ws_files st') workspace rel_path = Inr path"
    using path p r walk_parts_stays resolve_stays unfolding contained_file_eq Let_def by (auto split: if_splits)
  moreover have "file_at (ws_files st') path = Some (utf8 content)"
    using store_text_InrD [OF store nonempty, of path] by (simp add: file_at_def)
  ultimately show ?thesis using rules decoder by (simp add: read_file_def)
qed

text \<open>
  Reading back what was written gives the content with its line ends as the editor's text mode
  reads them, whenever the decoder inverts the encoding.
\<close>

theorem read_back:
  assumes written: "write_file cfg free workspace rel_path content st = (st', None)"
    and decoder: "\<And>s. decode (utf8 s) = s"
    and ok: "workspace_ok workspace st"
  shows "read_file decode (ws_files st') workspace rel_path = Inr (universal_newlines content)"
  using assms by (rule written_reads_back)

text \<open>A decoder for the two-byte forms.\<close>

fun utf8_decode :: "string \<Rightarrow> string" where
  "utf8_decode [] = []"
| "utf8_decode [c] = [c]"
| "utf8_decode (c # d # cs) =
     (if (of_char c :: nat) < 128 then c # utf8_decode (d # cs)
      else char_of (64 * (of_char c - 192) + (of_char d - 128) :: nat) # utf8_decode cs)"

lemma utf8_decode_utf8: "utf8_decode (utf8 s) = s"
proof (induction s)
  case Nil
  then show ?case by (simp add: utf8_def)
next
  case (Cons c s)
  let ?n = "of_char c :: nat"
  have n: "?n < 256" by (rule nat_of_char_less_256)
  show ?case
  proof (cases "?n < 128")
    case True
    then have "utf8 (c # s) = c # utf8 s" by (simp add: utf8_def utf8_char_def Let_def)
    moreover have "utf8_decode (c # t) = c # utf8_decode t" for t using True by (cases t) simp_all
    ultimately show ?thesis using Cons by simp
  next
    case False
    have div: "?n div 64 < 4" using n by (simp add: div_less_iff_less_mult)
    have m: "?n mod 64 < 64" by simp
    have "utf8 (c # s) = char_of (192 + ?n div 64) # char_of (128 + ?n mod 64) # utf8 s"
      using False by (simp add: utf8_def utf8_char_def Let_def)
    moreover have "(of_char (char_of (192 + ?n div 64) :: char) :: nat) = 192 + ?n div 64"
      using div by simp
    moreover have "(of_char (char_of (128 + ?n mod 64) :: char) :: nat) = 128 + ?n mod 64"
      using m by simp
    moreover have "64 * (?n div 64) + ?n mod 64 = ?n" by simp
    ultimately show ?thesis using Cons by simp
  qed
qed

theorem read_back_witness:
  "snd (demo_write ''src//a.py'' ''x'') = None \<and>
   read_file utf8_decode (ws_files (fst (demo_write ''src//a.py'' ''x''))) [''ws'', ''s1''] ''src//a.py'' = Inr ''x''"
proof -
  let ?st = "fst (demo_write ''src//a.py'' ''x'')"
  have ok: "snd (demo_write ''src//a.py'' ''x'') = None" by code_simp
  then have run: "write_file demo_settings 5000 [''ws'', ''s1''] ''src//a.py'' ''x'' demo_state = (?st, None)"
    unfolding demo_write_def by (metis prod.collapse)
  have "workspace_ok [''ws'', ''s1''] demo_state"
  proof -
    have "measure_workspace demo_files [''ws'', ''s1''] = (8, 1)" "distinct (map fst demo_files)"
      "\<not> is_symlink demo_files [''ws'']" "\<not> is_symlink demo_files [''ws'', ''s1'']"
      "list_all proper_name [''ws'', ''s1'']" "(8::int) \<le> source_bytes_limit" "(1::int) \<le> source_files_limit"
      "''s1'' \<noteq> reservation_key"
      by code_simp+
    then show ?thesis
      by (auto simp: workspace_ok_def demo_state_def ledger_knows_def empty_ledger_def clean_def less_Suc_eq numeral_2_eq_2)
  qed
  from read_back [OF run utf8_decode_utf8 this] show ?thesis using ok by simp
qed

text \<open>A plain name, and what a slash after it does to the rules.\<close>

definition plain_name :: "string \<Rightarrow> bool" where
  "plain_name name \<longleftrightarrow>
     name \<noteq> [] \<and> name \<noteq> ''.'' \<and> hd name \<noteq> CHR ''~'' \<and> \<not> is_space (hd name) \<and>
     list_all (\<lambda>c. c \<noteq> CHR ''/'' \<and> c \<noteq> CHR 0x5C \<and> c \<noteq> CHR 0x00) name"

lemma plain_name_slash:
  assumes "plain_name name"
  shows "unbackslash name = name" "unbackslash (name @ ''/'') = name @ ''/''"
    "split_on CHR ''/'' name = [name]" "split_on CHR ''/'' (name @ ''/'') = [name, []]"
    "path_names name = [name]" "path_names (name @ ''/'') = [name]"
    "strip (name @ ''/'') = name @ ''/''" "\<not> prefix ''/'' name" "\<not> prefix ''~'' name" "CHR 0x00 \<notin> set name"
    "name \<noteq> []"
proof -
  have "\<forall>c \<in> set name. c \<noteq> CHR 0x5C" using assms unfolding plain_name_def list_all_iff by blast
  then show ub: "unbackslash name = name"
    unfolding unbackslash_def by (simp add: map_idI)
  show "unbackslash (name @ ''/'') = name @ ''/''"
    using ub by (simp add: unbackslash_def)
  from assms have noslash: "CHR ''/'' \<notin> set name" by (auto simp: plain_name_def list_all_iff)
  then show one: "split_on CHR ''/'' name = [name]" by (rule split_on_one)
  show two: "split_on CHR ''/'' (name @ ''/'') = [name, []]" using one by (simp add: split_on_append)
  show "path_names name = [name]" "path_names (name @ ''/'') = [name]"
    using one two assms by (simp_all add: path_names_def plain_name_def)
  obtain c cs where "name = c # cs" "\<not> is_space c" "c \<noteq> CHR ''~''" "c \<noteq> CHR ''/''"
    using assms by (cases name) (auto simp: plain_name_def)
  then show "strip (name @ ''/'') = name @ ''/''" "\<not> prefix ''/'' name" "\<not> prefix ''~'' name"
    by (simp_all add: strip_def lstrip_def is_space_def)
  show "CHR 0x00 \<notin> set name" "name \<noteq> []" using assms by (auto simp: plain_name_def list_all_iff)
qed

lemma slash_not_frozen:
  assumes "plain_name name" "to_lower name \<notin> set protected_dirs"
  shows "\<not> is_frozen_path (name @ ''/'')"
proof -
  have "to_lower (name @ ''/'') = to_lower name @ ''/''" by (simp add: to_lower_def to_lower_char_def less_eq_char_def)
  moreover have "split_on CHR ''/'' (to_lower (name @ ''/'')) = [to_lower name, []]"
    unfolding split_on_lower using plain_name_slash(4) [OF assms(1)] by (simp add: to_lower_def)
  moreover have "\<not> frozen_name []" by code_simp
  ultimately show ?thesis
    using plain_name_slash [OF assms(1)] assms(2) unfolding is_frozen_path_def Let_def
    by (auto simp: protected_dirs_def dependency_parts_def)
qed

lemma slash_same_file:
  assumes "plain_name name"
  shows "contained_file fs workspace (name @ ''/'') = contained_file fs workspace name"
proof -
  note p = plain_name_slash [OF assms]
  have "\<not> prefix ''/'' (name @ ''/'')" "\<not> prefix ''~'' (name @ ''/'')"
    using p(8,9,11) by (cases name; simp)+
  then show ?thesis using p(8-11) unfolding contained_file_def Let_def p(1,2,5,6) by simp
qed

text \<open>
  The rule that freezes the runner's control files looks at the text after the last slash of the
  path as it was sent, while the file that is written is named by the last proper name. With a slash
  at the end none of the frozen names is refused, and the path still leads to the frozen file: a
  candidate replaces \<open>pytest.ini\<close> by saving \<open>pytest.ini/\<close>.
\<close>

theorem frozen_files_writable:
  "list_all (\<lambda>name. is_frozen_path name \<and> \<not> is_frozen_path (name @ ''/'') \<and>
       contained_file fs workspace (name @ ''/'') = contained_file fs workspace name) frozen_basenames \<and>
   snd (demo_write ''pytest.ini/'' ''x'') = None \<and>
   file_at (ws_files (fst (demo_write ''pytest.ini/'' ''x''))) [''ws'', ''s1'', ''pytest.ini''] = Some ''x''"
proof -
  have "list_all (\<lambda>name. is_frozen_path name \<and> plain_name name \<and> to_lower name \<notin> set protected_dirs) frozen_basenames"
    by code_simp
  then have "list_all (\<lambda>name. is_frozen_path name \<and> \<not> is_frozen_path (name @ ''/'') \<and>
       contained_file fs workspace (name @ ''/'') = contained_file fs workspace name) frozen_basenames"
    by (rule list.pred_mono_strong) (simp add: slash_not_frozen slash_same_file)
  moreover have "snd (demo_write ''pytest.ini/'' ''x'') = None"
    "file_at (ws_files (fst (demo_write ''pytest.ini/'' ''x''))) [''ws'', ''s1'', ''pytest.ini''] = Some ''x''"
    by code_simp+
  ultimately show ?thesis by blast
qed

text \<open>
  The rule that hides reference solutions strips dots and slashes from the front of the path
  before it looks for \<open>.reference\<close>, so a directory of that name at the root of a challenge is
  hidden nowhere: its files are copied into the candidate's workspace, listed and read. Deeper
  down the same name is hidden.
\<close>

definition leaky_files :: files where
  "leaky_files = [([''ws''], DirNode), ([''ch''], DirNode), ([''ch'', ''.reference''], DirNode),
     ([''ch'', ''.reference'', ''answer.py''], FileNode ''42''), ([''ch'', ''SOLUTION.md''], FileNode ''no'')]"

theorem reference_directory_served:
  "is_blocked_path (''.reference/'' @ rest) = is_blocked_path (''reference/'' @ rest) \<and>
   is_blocked_path ''path/.reference/answer.py'' \<and>
   (case copy_candidate_tree [''ch''] [''ws'', ''s''] leaky_files of
      None \<Rightarrow> False
    | Some fs \<Rightarrow> list_files fs [''ws'', ''s''] = [(''.reference/answer.py'', 2)] \<and>
        read_file utf8_decode fs [''ws'', ''s''] ''.reference/answer.py'' = Inr ''42'')"
proof -
  have "is_blocked_path (''.reference/'' @ rest) = is_blocked_path (''reference/'' @ rest)"
    by (simp add: is_blocked_path_def unbackslash_def lstrip_dots_def Let_def)
  moreover have "is_blocked_path ''path/.reference/answer.py''" by code_simp
  moreover have "case copy_candidate_tree [''ch''] [''ws'', ''s''] leaky_files of
      None \<Rightarrow> False
    | Some fs \<Rightarrow> list_files fs [''ws'', ''s''] = [(''.reference/answer.py'', 2)] \<and>
        read_file utf8_decode fs [''ws'', ''s''] ''.reference/answer.py'' = Inr ''42''"
    by code_simp
  ultimately show ?thesis by blast
qed

end
