(* ===== verification/WorkspaceStore.thy ===== *)
theory WorkspaceStore
  imports WorkspaceFiles
begin

text \<open>
  Creating a workspace (\<open>create_workspace\<close> of \<open>backend/app/services/interview/workspace.py\<close>) and
  rebuilding it on a container that has lost it (\<open>workspace_store.py\<close>): the starter tree is copied
  from the challenge, and the latest saved revision of every path is laid over it. The directory of
  a challenge is an argument; the rows of \<open>interview_session_files\<close> are a list in the order the
  database gives them.
\<close>

section \<open>Creating a workspace\<close>

record ws_config =
  wc_storage :: storage_settings
  wc_root :: path
  wc_challenge_dir :: "string \<Rightarrow> path option"

definition rmtree :: "path \<Rightarrow> files \<Rightarrow> files" where
  "rmtree p fs = filter (\<lambda>e. \<not> prefix p (fst e)) fs"

definition starter_snapshot_path :: "ws_config \<Rightarrow> string \<Rightarrow> path" where
  "starter_snapshot_path cfg session_id = wc_root cfg @ [session_id @ ''.starter'']"

definition tree_source_bytes :: "files \<Rightarrow> path \<Rightarrow> int" where
  "tree_source_bytes fs src =
     sum_list (map (\<lambda>e. case snd e of
         FileNode b \<Rightarrow> if strict_prefix src (fst e) \<and> copied (drop (length src) (fst e)) then int (length b) else 0
       | _ \<Rightarrow> 0) fs)"

definition create_workspace ::
  "ws_config \<Rightarrow> int \<Rightarrow> string \<Rightarrow> string \<Rightarrow> ws_state \<Rightarrow> ws_state \<times> (ws_exc + path)" where
  "create_workspace cfg free session_id slug st =
     (case wc_challenge_dir cfg slug of
        None \<Rightarrow> (st, Inl (FileNotFound slug))
      | Some src \<Rightarrow>
          (let dest = wc_root cfg @ [session_id];
               starter = starter_snapshot_path cfg session_id;
               cleared = rmtree starter (rmtree dest (ws_files st));
               built = (case copy_candidate_tree src dest cleared of
                   None \<Rightarrow> None
                 | Some fs \<Rightarrow> copy_candidate_tree src starter fs);
               ending = (case built of
                   None \<Rightarrow> RaisedUncommitted
                 | Some fs \<Rightarrow> Committed session_id
                     (fst (measure_workspace fs dest) + fst (measure_workspace fs starter))
                     (snd (measure_workspace fs dest) + snd (measure_workspace fs starter)))
           in case storage_capacity (interview_storage_max_bytes (wc_storage cfg))
                     (interview_storage_min_free_bytes (wc_storage cfg)) free
                     (tree_source_bytes (ws_files st) src) ending (ws_ledger st) of
                Inl _ \<Rightarrow> (st, Inl (Http capacity_error))
              | Inr l \<Rightarrow>
                  (case built of
                     None \<Rightarrow> (\<lparr>ws_files = cleared, ws_ledger = l\<rparr>, Inl OsError)
                   | Some fs \<Rightarrow>
                       (\<lparr>ws_files = fs,
                         ws_ledger = write_entry (session_id @ ''.starter'') (fst (measure_workspace fs starter))
                           (snd (measure_workspace fs starter)) 0 l\<rparr>, Inr dest))))"

section \<open>Rebuilding it\<close>

record file_row =
  fv_session :: nat
  fv_path :: string
  fv_content :: string
  fv_revision :: int

definition materialized :: "files \<Rightarrow> path \<Rightarrow> bool" where
  "materialized fs workspace \<longleftrightarrow>
     map_of fs workspace = Some DirNode \<and> list_ex (\<lambda>e. strict_prefix workspace (fst e)) fs"

definition rows_for :: "nat \<Rightarrow> string \<Rightarrow> file_row list \<Rightarrow> file_row list" where
  "rows_for sid p rows = filter (\<lambda>r. fv_session r = sid \<and> fv_path r = p) rows"

definition latest_revisions :: "nat \<Rightarrow> file_row list \<Rightarrow> (string \<times> string) list" where
  "latest_revisions sid rows =
     map (\<lambda>r. (fv_path r, fv_content r))
       (filter (\<lambda>r. fv_session r = sid \<and>
          fv_revision r = Max (set (map fv_revision (rows_for sid (fv_path r) rows)))) rows)"

fun overlay_revisions :: "files \<Rightarrow> path \<Rightarrow> (string \<times> string) list \<Rightarrow> ws_exc + files" where
  "overlay_revisions fs workspace [] = Inr fs"
| "overlay_revisions fs workspace ((rel_path, content) # revisions) =
     bind (candidate_write_allowed fs workspace rel_path) (\<lambda>allowed.
       if is_blocked_path rel_path \<or> \<not> allowed then overlay_revisions fs workspace revisions
       else bind (contained_file fs workspace rel_path) (\<lambda>target.
            bind (store_text fs target (utf8 content)) (\<lambda>fs'. overlay_revisions fs' workspace revisions)))"

text \<open>
  \<open>recorded\<close> is the session's \<open>workspace_path\<close>; the directory of a session is named by the text
  of its id. The path to record comes back with the state.
\<close>

definition ensure_workspace ::
  "ws_config \<Rightarrow> int \<Rightarrow> nat \<Rightarrow> string \<Rightarrow> path \<Rightarrow> file_row list \<Rightarrow> ws_state \<Rightarrow> ws_state \<times> (ws_exc + path)" where
  "ensure_workspace cfg free sid slug recorded rows st =
     (if recorded \<noteq> [] \<and> materialized (ws_files st) recorded then (st, Inr recorded)
      else
        (let target = wc_root cfg @ [show_nat sid];
             (st1, made) = (if materialized (ws_files st) target then (st, Inr target)
                            else create_workspace cfg free (show_nat sid) slug st)
         in case made of
              Inl e \<Rightarrow> (st1, Inl e)
            | Inr workspace \<Rightarrow>
                (case latest_revisions sid rows of
                   [] \<Rightarrow> (st1, Inr workspace)
                 | revisions \<Rightarrow>
                     (case overlay_revisions (ws_files st1) workspace revisions of
                        Inl e \<Rightarrow> (st1, Inl e)
                      | Inr fs \<Rightarrow> (st1\<lparr>ws_files := fs\<rparr>, Inr workspace)))))"

section \<open>Trees that are copied\<close>

lemma make_dirs_keeps:
  "make_dirs fs current parts = Some fs' \<Longrightarrow> distinct (map fst fs) \<Longrightarrow>
   distinct (map fst fs') \<and> (\<forall>q. is_symlink fs' q \<longrightarrow> is_symlink fs q)"
  using make_dirs_measure make_dirs_SomeD by (fastforce simp: is_symlink_def split: if_splits)

lemma copy_item_keeps:
  assumes "copy_item src dest item fs = Some fs'" "distinct (map fst fs)"
  shows "distinct (map fst fs') \<and> (\<forall>q. is_symlink fs' q \<longrightarrow> is_symlink fs q)"
proof (cases "snd item")
  case (FileNode b)
  then show ?thesis
    using assms make_dirs_keeps distinct_put_node
    by (auto simp: copy_item_def Let_def is_symlink_def split: if_splits)
next
  case DirNode
  then show ?thesis using assms make_dirs_keeps by (auto simp: copy_item_def Let_def split: if_splits)
next
  case (LinkNode absolute target)
  then show ?thesis using assms by (auto simp: copy_item_def Let_def split: if_splits)
qed

lemma fold_copy_keeps:
  "fold (\<lambda>item acc. case acc of None \<Rightarrow> None | Some f \<Rightarrow> copy_item src dest item f) items acc = Some fs' \<Longrightarrow>
   acc = Some fs \<Longrightarrow> distinct (map fst fs) \<Longrightarrow>
   distinct (map fst fs') \<and> (\<forall>q. is_symlink fs' q \<longrightarrow> is_symlink fs q)"
proof (induction items arbitrary: acc fs)
  case Nil
  then show ?case by simp
next
  case (Cons item items)
  have none: "fold (\<lambda>item acc. case acc of None \<Rightarrow> None | Some f \<Rightarrow> copy_item src dest item f) items None = None" for items
    by (induction items) simp_all
  then obtain f where f: "copy_item src dest item fs = Some f"
    using Cons.prems(1,2) by (cases "copy_item src dest item fs") simp_all
  have keep: "distinct (map fst f) \<and> (\<forall>q. is_symlink f q \<longrightarrow> is_symlink fs q)"
    using copy_item_keeps [OF f Cons.prems(3)] .
  show ?case using Cons.IH [of "Some f" f] Cons.prems(1,2) f keep by auto
qed

lemma copy_tree_keeps:
  assumes "copy_candidate_tree src dest fs = Some fs'" "distinct (map fst fs)"
  shows "distinct (map fst fs') \<and> (\<forall>q. is_symlink fs' q \<longrightarrow> is_symlink fs q)"
proof -
  from assms(1) obtain fs0 where made: "make_dirs fs [] dest = Some fs0"
    and copies: "fold (\<lambda>item acc. case acc of None \<Rightarrow> None | Some f \<Rightarrow> copy_item src dest item f) fs (Some fs0) = Some fs'"
    by (auto simp: copy_candidate_tree_def split: option.splits)
  have "distinct (map fst fs0) \<and> (\<forall>q. is_symlink fs0 q \<longrightarrow> is_symlink fs q)"
    using make_dirs_keeps [OF made assms(2)] .
  then show ?thesis using fold_copy_keeps [OF copies refl] by blast
qed

lemma rmtree_keeps:
  "distinct (map fst fs) \<Longrightarrow> distinct (map fst (rmtree p fs))"
  "map_of (rmtree p fs) q = (if prefix p q then None else map_of fs q)"
proof -
  show "distinct (map fst fs) \<Longrightarrow> distinct (map fst (rmtree p fs))"
    by (simp add: rmtree_def distinct_map_filter)
  show "map_of (rmtree p fs) q = (if prefix p q then None else map_of fs q)"
    by (induction fs) (auto simp: rmtree_def)
qed

lemma create_workspaceE:
  assumes "create_workspace cfg free session_id slug st = (st', Inr dest)"
  obtains src fs1 l where "wc_challenge_dir cfg slug = Some src" "dest = wc_root cfg @ [session_id]"
    "copy_candidate_tree src dest (rmtree (starter_snapshot_path cfg session_id) (rmtree dest (ws_files st))) = Some fs1"
    "copy_candidate_tree src (starter_snapshot_path cfg session_id) fs1 = Some (ws_files st')"
    "storage_capacity (interview_storage_max_bytes (wc_storage cfg)) (interview_storage_min_free_bytes (wc_storage cfg)) free
       (tree_source_bytes (ws_files st) src)
       (Committed session_id
         (fst (measure_workspace (ws_files st') dest) + fst (measure_workspace (ws_files st') (starter_snapshot_path cfg session_id)))
         (snd (measure_workspace (ws_files st') dest) + snd (measure_workspace (ws_files st') (starter_snapshot_path cfg session_id))))
       (ws_ledger st) = Inr l"
    "ws_ledger st' = write_entry (session_id @ ''.starter'')
       (fst (measure_workspace (ws_files st') (starter_snapshot_path cfg session_id)))
       (snd (measure_workspace (ws_files st') (starter_snapshot_path cfg session_id))) 0 l"
  using assms
  by (auto simp: create_workspace_def Let_def split: option.splits sum.splits)

lemma storage_capacity_Committed:
  assumes "storage_capacity mx mn free n (Committed entry b f) l = Inr l'" "entry \<noteq> reservation_key"
  obtains w l1 where "l' = write_entry entry b f w l1" "lg_total l1 = lg_total l"
    "\<And>k. k \<noteq> reservation_key \<Longrightarrow> row_get le_key k (lg_rows l1) = row_get le_key k (lg_rows l)"
proof -
  from assms(1) obtain l1 w where r: "reserve (capacity_limits mx mn) free reservation_key (max 0 n) 0 l = Inr (l1, w)"
    and l': "l' = write_entry entry b f w l1"
    by (auto simp: storage_capacity_def split: sum.splits)
  have "lg_total l1 = lg_total l" using r by (auto simp: reserve_def Let_def split: if_splits)
  then show thesis using that [OF l'] row_get_reserve [OF r] by blast
qed

lemma lg_total_write_entry:
  "lg_total (write_entry entry b f n l) =
     max 0 (lg_total l + (max 0 b - (case row_get le_key entry (lg_rows l) of Some r \<Rightarrow> le_total r | None \<Rightarrow> 0)))"
  by (simp add: write_entry_def Let_def)

text \<open>
  A workspace that has just been created satisfies the invariant of the saves: its path is
  physical, and the ledger's row covers its files.
\<close>

theorem created_workspace_ok:
  assumes made: "create_workspace cfg free session_id slug st = (st', Inr dest)"
    and fs: "distinct (map fst (ws_files st))" "clean (ws_files st) (wc_root cfg)"
    and name: "proper_name session_id" "session_id \<noteq> reservation_key"
    and row: "case row_get le_key session_id (lg_rows (ws_ledger st)) of None \<Rightarrow> True | Some r \<Rightarrow> le_reserved r = 0"
    and small: "fst (measure_workspace (ws_files st') dest) \<le> source_bytes_limit"
      "snd (measure_workspace (ws_files st') dest) \<le> source_files_limit"
  shows "workspace_ok dest st'"
proof -
  let ?starter = "starter_snapshot_path cfg session_id"
  let ?m = "measure_workspace (ws_files st') dest" and ?s = "measure_workspace (ws_files st') ?starter"
  from made obtain src fs1 l where dest: "dest = wc_root cfg @ [session_id]"
    and c1: "copy_candidate_tree src dest (rmtree ?starter (rmtree dest (ws_files st))) = Some fs1"
    and c2: "copy_candidate_tree src ?starter fs1 = Some (ws_files st')"
    and cap: "storage_capacity (interview_storage_max_bytes (wc_storage cfg)) (interview_storage_min_free_bytes (wc_storage cfg)) free
       (tree_source_bytes (ws_files st) src) (Committed session_id (fst ?m + fst ?s) (snd ?m + snd ?s)) (ws_ledger st) = Inr l"
    and led: "ws_ledger st' = write_entry (session_id @ ''.starter'') (fst ?s) (snd ?s) 0 l"
    by (elim create_workspaceE)
  have d0: "distinct (map fst (rmtree ?starter (rmtree dest (ws_files st))))" using fs(1) rmtree_keeps(1) by blast
  note k1 = copy_tree_keeps [OF c1 d0]
  have d1: "distinct (map fst fs1)" using k1 by blast
  note k2 = copy_tree_keeps [OF c2 d1]
  have links: "is_symlink (ws_files st) q \<and> \<not> prefix dest q" if "is_symlink (ws_files st') q" for q
    using that k1 k2 by (auto simp: is_symlink_def rmtree_keeps split: if_splits)
  then have "clean (ws_files st') (wc_root cfg)" using fs(2) clean_mono by blast
  moreover have "\<not> is_symlink (ws_files st') dest" using links by blast
  ultimately have clean_dest: "clean (ws_files st') dest" using name(1) by (simp add: dest clean_snoc)
  from cap obtain w l1 where l: "l = write_entry session_id (fst ?m + fst ?s) (snd ?m + snd ?s) w l1"
    and same: "row_get le_key session_id (lg_rows l1) = row_get le_key session_id (lg_rows (ws_ledger st))"
    using name(2) by (elim storage_capacity_Committed) auto
  have other: "session_id \<noteq> session_id @ ''.starter''" by simp
  have "ledger_knows session_id ?m (ws_ledger st')"
    using row measure_nonneg [of "ws_files st'" ?starter] measure_nonneg [of "ws_files st'" dest]
    unfolding ledger_knows_def led row_get_write_entry l same if_not_P [OF other]
    by (simp split: option.splits)
  then show ?thesis using clean_dest k2 small name by (simp add: workspace_ok_def dest)
qed

definition demo_config :: ws_config where
  "demo_config = \<lparr>wc_storage = demo_settings, wc_root = [''ws''],
     wc_challenge_dir = (\<lambda>slug. if slug = ''t'' then Some [''ch''] else None)\<rparr>"

definition challenge_files :: files where
  "challenge_files = [([''ws''], DirNode), ([''ch''], DirNode), ([''ch'', ''a.py''], FileNode ''x = 1''),
     ([''ch'', ''SOLUTION.md''], FileNode ''no'')]"

definition copied_files :: files where
  "copied_files = challenge_files @ [([''ws'', ''7''], DirNode), ([''ws'', ''7'', ''a.py''], FileNode ''x = 1'')]"

definition created :: ws_state where
  "created = \<lparr>ws_files = copied_files @ [([''ws'', ''7.starter''], DirNode), ([''ws'', ''7.starter'', ''a.py''], FileNode ''x = 1'')],
     ws_ledger = \<lparr>lg_rows = [\<lparr>le_key = reservation_key, le_total = 0, le_files = 0, le_reserved = 5\<rparr>,
         \<lparr>le_key = ''7'', le_total = 10, le_files = 2, le_reserved = 0\<rparr>,
         \<lparr>le_key = ''7.starter'', le_total = 5, le_files = 1, le_reserved = 0\<rparr>],
       lg_total = 15, lg_reserved = 0\<rparr>\<rparr>"

lemma created_files:
  "measure_workspace (ws_files created) [''ws'', ''7''] = (5, 1)"
  "measure_workspace (ws_files created) [''ws'', ''7.starter''] = (5, 1)"
  by code_simp+

lemma created_by:
  "create_workspace demo_config 5000 ''7'' ''t'' \<lparr>ws_files = challenge_files, ws_ledger = empty_ledger\<rparr> =
     (created, Inr [''ws'', ''7''])"
proof -
  have names: "''7'' @ ''.starter'' = ''7.starter''" "[''ws''] @ [''7''] = [''ws'', ''7'']" "[''ws''] @ [''7.starter''] = [''ws'', ''7.starter'']"
    by simp_all
  have src: "wc_challenge_dir demo_config ''t'' = Some [''ch'']" "wc_root demo_config = [''ws'']"
    "wc_storage demo_config = demo_settings" by (simp_all add: demo_config_def)
  have clr: "rmtree [''ws'', ''7.starter''] (rmtree [''ws'', ''7''] challenge_files) = challenge_files" by code_simp
  have c1: "copy_candidate_tree [''ch''] [''ws'', ''7''] challenge_files = Some copied_files" by code_simp
  have c2: "copy_candidate_tree [''ch''] [''ws'', ''7.starter''] copied_files = Some (ws_files created)" by code_simp
  have n: "tree_source_bytes challenge_files [''ch''] = 5" by code_simp
  have cap: "storage_capacity (interview_storage_max_bytes demo_settings) (interview_storage_min_free_bytes demo_settings) 5000 5
      (Committed ''7'' 10 2) empty_ledger =
    Inr \<lparr>lg_rows = [\<lparr>le_key = reservation_key, le_total = 0, le_files = 0, le_reserved = 5\<rparr>,
         \<lparr>le_key = ''7'', le_total = 10, le_files = 2, le_reserved = 0\<rparr>], lg_total = 10, lg_reserved = 0\<rparr>"
    by code_simp
  have fin: "write_entry ''7.starter'' 5 1 0 \<lparr>lg_rows = [\<lparr>le_key = reservation_key, le_total = 0, le_files = 0, le_reserved = 5\<rparr>,
         \<lparr>le_key = ''7'', le_total = 10, le_files = 2, le_reserved = 0\<rparr>], lg_total = 10, lg_reserved = 0\<rparr> = ws_ledger created"
    by code_simp
  show ?thesis
    unfolding create_workspace_def src starter_snapshot_path_def names Let_def option.case ws_state.simps clr c1 c2 n
      created_files fst_conv snd_conv
    by (simp add: cap fin)
qed

theorem created_workspace_ok_witness:
  "workspace_ok [''ws'', ''7''] created \<and> file_at (ws_files created) [''ws'', ''7'', ''a.py''] = Some ''x = 1''"
proof -
  have facts: "distinct (map fst challenge_files)" "\<not> is_symlink challenge_files [''ws'']" "list_all proper_name [''ws'']"
    "proper_name ''7''" "''7'' \<noteq> reservation_key" "(5::int) \<le> source_bytes_limit" "(1::int) \<le> source_files_limit"
    by code_simp+
  have "clean challenge_files [''ws'']" using facts by (simp add: clean_def)
  then have "workspace_ok [''ws'', ''7''] created"
    using facts created_files(1)
    by (intro created_workspace_ok [OF created_by]) (simp_all add: demo_config_def empty_ledger_def)
  moreover have "file_at (ws_files created) [''ws'', ''7'', ''a.py''] = Some ''x = 1''" by code_simp
  ultimately show ?thesis by blast
qed

text \<open>
  Creating a workspace counts the starter tree twice: the entry of the session gets the bytes of
  the workspace and of the starter together, and the starter gets an entry of its own on top, so the
  retained total grows by one starter more than is on the disk, and the upload quota of the session
  starts with the starter's bytes and files already spent.
\<close>

theorem starter_counted_twice:
  assumes made: "create_workspace cfg free session_id slug st = (st', Inr dest)"
    and ok: "ledger_ok (ws_ledger st)" and name: "session_id \<noteq> reservation_key" "session_id @ ''.starter'' \<noteq> reservation_key"
    and fresh: "row_get le_key session_id (lg_rows (ws_ledger st)) = None"
      "row_get le_key (session_id @ ''.starter'') (lg_rows (ws_ledger st)) = None"
  shows "lg_total (ws_ledger st') = lg_total (ws_ledger st) + fst (measure_workspace (ws_files st') dest) +
       2 * fst (measure_workspace (ws_files st') (starter_snapshot_path cfg session_id)) \<and>
     workspace_usage (ws_ledger st') session_id =
       Some (fst (measure_workspace (ws_files st') dest) + fst (measure_workspace (ws_files st') (starter_snapshot_path cfg session_id)),
             snd (measure_workspace (ws_files st') dest) + snd (measure_workspace (ws_files st') (starter_snapshot_path cfg session_id)))"
proof -
  let ?starter = "starter_snapshot_path cfg session_id"
  let ?m = "measure_workspace (ws_files st') dest" and ?s = "measure_workspace (ws_files st') ?starter"
  from made obtain src l where
    cap: "storage_capacity (interview_storage_max_bytes (wc_storage cfg)) (interview_storage_min_free_bytes (wc_storage cfg)) free
       (tree_source_bytes (ws_files st) src) (Committed session_id (fst ?m + fst ?s) (snd ?m + snd ?s)) (ws_ledger st) = Inr l"
    and led: "ws_ledger st' = write_entry (session_id @ ''.starter'') (fst ?s) (snd ?s) 0 l"
    by (elim create_workspaceE)
  from cap obtain w l1 where l: "l = write_entry session_id (fst ?m + fst ?s) (snd ?m + snd ?s) w l1"
    and total1: "lg_total l1 = lg_total (ws_ledger st)"
    and rows: "\<And>k. k \<noteq> reservation_key \<Longrightarrow> row_get le_key k (lg_rows l1) = row_get le_key k (lg_rows (ws_ledger st))"
    using name(1) by (elim storage_capacity_Committed) auto
  have none: "row_get le_key session_id (lg_rows l1) = None" "row_get le_key (session_id @ ''.starter'') (lg_rows l1) = None"
    using rows name fresh by simp_all
  have "0 \<le> lg_total (ws_ledger st)"
    using ledger_okD(2,3) [OF ok] sum_nonneg_rows [of le_total "lg_rows (ws_ledger st)"] by (auto simp: list_all_iff)
  then have "lg_total l = lg_total (ws_ledger st) + (fst ?m + fst ?s)" "lg_total (ws_ledger st') = lg_total l + fst ?s"
    using none measure_nonneg [of "ws_files st'" ?starter] measure_nonneg [of "ws_files st'" dest] total1
    unfolding led by (simp_all add: l lg_total_write_entry row_get_write_entry)
  moreover have "workspace_usage (ws_ledger st') session_id = Some (fst ?m + fst ?s, snd ?m + snd ?s)"
    using none measure_nonneg [of "ws_files st'" ?starter] measure_nonneg [of "ws_files st'" dest]
    by (simp add: workspace_usage_def led l row_get_write_entry)
  ultimately show ?thesis by simp
qed

theorem starter_counted_twice_witness:
  "lg_total (ws_ledger created) = 15 \<and> workspace_usage (ws_ledger created) ''7'' = Some (10, 2) \<and>
   measure_workspace (ws_files created) [''ws'', ''7''] = (5, 1)"
proof -
  have names: "''7'' \<noteq> reservation_key" "''7'' @ ''.starter'' \<noteq> reservation_key" by code_simp+
  have "starter_snapshot_path demo_config ''7'' = [''ws'', ''7.starter'']"
    by (simp add: starter_snapshot_path_def demo_config_def)
  then show ?thesis
    using starter_counted_twice [OF created_by _ names] created_files by (simp add: empty_ledger_def ledger_ok_empty [unfolded empty_ledger_def])
qed

section \<open>Reconciling the ledger with the disk\<close>

definition tree_total :: "files \<Rightarrow> path \<Rightarrow> path \<Rightarrow> int \<times> int" where
  "tree_total fs root_dir entry =
     (let found = filter (\<lambda>e. strict_prefix entry (fst e) \<and> fst e \<noteq> root_dir @ [ledger_name] \<and>
            (case snd e of FileNode _ \<Rightarrow> True | _ \<Rightarrow> False)) fs
      in (sum_list (map (\<lambda>e. case snd e of FileNode b \<Rightarrow> int (length b) | _ \<Rightarrow> 0) found), int (length found)))"

text \<open>\<open>storage_ledger.measure\<close>: one entry per directory directly below the root.\<close>

definition measure_root :: "files \<Rightarrow> path \<Rightarrow> (string \<times> int \<times> int) list" where
  "measure_root fs root_dir =
     map (\<lambda>e. (last (fst e), tree_total fs root_dir (fst e)))
       (filter (\<lambda>e. strict_prefix root_dir (fst e) \<and> length (fst e) = Suc (length root_dir) \<and> snd e = DirNode) fs)"

definition refresh_ledger :: "files \<Rightarrow> path \<Rightarrow> ledger \<Rightarrow> ledger" where
  "refresh_ledger fs root_dir l = reconcile (measure_root fs root_dir) l"

lemma row_get_reconcile:
  assumes "map_of measured k = Some (b, f)"
  shows "\<exists>n. row_get le_key k (lg_rows (reconcile measured l)) = Some \<lparr>le_key = k, le_total = max 0 b, le_files = max 0 f, le_reserved = n\<rparr>"
proof -
  let ?R = "map (\<lambda>r. (le_key r, le_reserved r)) (filter (\<lambda>r. le_reserved r > 0) (lg_rows l))"
  let ?row = "\<lambda>(name, size, files). \<lparr>le_key = name, le_total = max 0 size, le_files = max 0 files,
                     le_reserved = (case map_of ?R name of Some n \<Rightarrow> n | None \<Rightarrow> 0)\<rparr>"
  have "row_get le_key k (map ?row ms) = map_option (\<lambda>(b, f). ?row (k, b, f)) (map_of ms k)" for ms
    by (induction ms) auto
  then have "row_get le_key k (map ?row measured) = Some (?row (k, b, f))" using assms by simp
  then show ?thesis by (simp add: reconcile_def Let_def row_get_append)
qed

text \<open>
  A save is checked against the ledger's entry of the workspace, which a save sets to the bytes
  and files of the source alone, and a reconciliation sets to everything below the directory,
  dependencies included. After a reconciliation the check compares that larger total with the quota
  for sources: the save is admitted only when the whole tree, less the old file and with the new
  text, fits into it, however small the source is.
\<close>

theorem reconciled_quota_counts_everything:
  assumes "map_of (measure_root fs root_dir) key = Some (b, f)"
    and "snd (check_upload key source old n (refresh_ledger fs root_dir l))"
    and "list_all (\<lambda>r. 0 \<le> le_reserved r) (lg_rows (refresh_ledger fs root_dir l))"
  shows "b - (case old of None \<Rightarrow> 0 | Some k \<Rightarrow> k) + n \<le> source_bytes_limit \<and>
    f + (if old = None then 1 else 0) \<le> source_files_limit"
proof -
  obtain r where r: "row_get le_key key (lg_rows (refresh_ledger fs root_dir l)) =
      Some \<lparr>le_key = key, le_total = max 0 b, le_files = max 0 f, le_reserved = r\<rparr>"
    using row_get_reconcile [OF assms(1)] by (auto simp: refresh_ledger_def)
  have "0 \<le> r" using row_get_list_all [OF r assms(3)] by simp
  then show ?thesis
    using assms(2) r by (auto simp: check_upload_def workspace_usage_def Let_def split: if_splits option.splits)
qed

definition venv_files :: files where
  "venv_files = [([''ws''], DirNode), ([''ws'', ''s1''], DirNode), ([''ws'', ''s1'', ''a.py''], FileNode ''x = 1''),
     ([''ws'', ''s1'', ''.venv''], DirNode), ([''ws'', ''s1'', ''.venv'', ''lib''], FileNode (replicate 30000000 CHR ''x''))]"

text \<open>With a virtual environment of 30 MB a workspace of five bytes of source can be saved to before a
  reconciliation and not after it.\<close>

theorem reconciled_quota_counts_everything_witness:
  "measure_workspace venv_files [''ws'', ''s1''] = (5, 1) \<and>
   snd (check_upload ''s1'' (5, 1) (Some 5) 6 empty_ledger) \<and>
   \<not> snd (check_upload ''s1'' (5, 1) (Some 5) 6 (refresh_ledger venv_files [''ws''] empty_ledger))"
proof -
  have counted_facts: "counted [''ws'', ''s1''] [''ws'', ''s1'', ''a.py'']" "\<not> counted [''ws'', ''s1''] [''ws'', ''s1'', ''.venv'', ''lib'']"
    by code_simp+
  then have "measure_workspace venv_files [''ws'', ''s1''] = (5, 1)"
    by (simp add: measure_workspace_def venv_files_def counted_bytes_def counted_files_def)
  moreover have "snd (check_upload ''s1'' (5, 1) (Some 5) 6 empty_ledger)" by code_simp
  moreover have m: "map_of (measure_root venv_files [''ws'']) ''s1'' = Some (30000005, 2)"
    by (simp add: measure_root_def venv_files_def tree_total_def ledger_name_def strict_prefix_def Let_def)
  moreover have "list_all (\<lambda>r. 0 \<le> le_reserved r) (lg_rows (refresh_ledger venv_files [''ws''] empty_ledger))"
    by (auto simp: refresh_ledger_def reconcile_def empty_ledger_def Let_def list_all_iff)
  ultimately show ?thesis
    using reconciled_quota_counts_everything [OF m, of "(5, 1)" "Some 5" 6 empty_ledger]
    by (auto simp: source_bytes_limit_def)
qed

end
