(* ===== verification/InterviewFiles.thy ===== *)
theory InterviewFiles
  imports WorkspaceStore SessionLifecycle
begin

text \<open>
  The file routes of an interview session (\<open>backend/app/api/routes/interview.py\<close>): opening a
  file, saving it against the revision the editor had seen, applying or refusing a suggestion of
  the assistant, and the events they record.

  The world is the database of sessions, saved revisions and events together with the files on
  disk and their ledger. A handler gives the new world and its answer; what a refused handler had
  not committed is dropped, what it did to the files stays. The clock is read several times in a
  request: \<open>clk n\<close> is the n-th reading. Events are in the order of their time stamps. The analytics
  rows are left out.
\<close>

section \<open>The state\<close>

record candidate_session =
  cs_id :: nat
  cs_user :: "nat option"
  cs_slug :: string
  cs_attempt :: int
  cs_workspace :: path
  cs_life :: interview_session
  cs_abandon_reason :: "string option"
  cs_wall_duration_ms :: "int option"
  cs_infra_blocked_ms :: int
  cs_challenge_version :: string
  cs_scoring_version :: string

record session_event =
  se_session :: nat
  se_type :: string
  se_payload :: json

record iv_db =
  iv_sessions :: "candidate_session list"
  iv_files :: "file_row list"
  iv_events :: "session_event list"

record iv_world =
  iw_db :: iv_db
  iw_ws :: ws_state

text \<open>
  The storage, the decoder of stored text and the line counts of \<open>difflib\<close> between two texts.
\<close>

record file_env =
  fe_config :: ws_config
  fe_decode :: "string \<Rightarrow> string"
  fe_line_diff :: "string \<Rightarrow> string \<Rightarrow> int \<times> int"

definition server_error :: http_error where
  "server_error = HTTPException 500 ''Internal Server Error'' None"

definition file_not_found :: http_error where
  "file_not_found = HTTPException 404 ''File not found'' None"

definition session_not_found :: http_error where
  "session_not_found = HTTPException 404 ''Session not found'' None"

section \<open>Loading a session and recording events\<close>

text \<open>The owner's row, with the expiry that the load makes; another user's session is not found.\<close>

definition load_owned_session :: "time \<Rightarrow> nat \<Rightarrow> nat \<Rightarrow> iv_db \<Rightarrow> http_error + candidate_session" where
  "load_owned_session now session_id user db =
     (case row_get cs_id session_id (iv_sessions db) of
        None \<Rightarrow> Inl session_not_found
      | Some s \<Rightarrow>
          if cs_user s = None \<or> cs_user s \<noteq> Some user then Inl session_not_found
          else Inr (s\<lparr>cs_life := fst (maybe_expire_session now (cs_life s))\<rparr>))"

text \<open>What a commit writes of a loaded row.\<close>

definition store_session :: "candidate_session \<Rightarrow> iv_db \<Rightarrow> iv_db" where
  "store_session s db = db\<lparr>iv_sessions := row_upd cs_id (cs_id s) (\<lambda>_. s) (iv_sessions db)\<rparr>"

definition session_events :: "nat \<Rightarrow> iv_db \<Rightarrow> session_event list" where
  "session_events sid db = filter (\<lambda>e. se_session e = sid) (iv_events db)"

definition last_event :: "nat \<Rightarrow> iv_db \<Rightarrow> session_event option" where
  "last_event sid db = (case session_events sid db of [] \<Rightarrow> None | es \<Rightarrow> Some (last es))"

definition add_event :: "nat \<Rightarrow> string \<Rightarrow> json dict \<Rightarrow> bool \<Rightarrow> iv_db \<Rightarrow> iv_db" where
  "add_event sid event_type payload dedupe_file_view db =
     (let repeated = (case last_event sid db of
          None \<Rightarrow> False
        | Some e \<Rightarrow> se_type e = ''file_viewed'' \<and> json_get (se_payload e) ''path'' = map_of payload ''path'')
      in if dedupe_file_view \<and> event_type = ''file_viewed'' \<and> repeated then db
         else db\<lparr>iv_events := iv_events db @ [\<lparr>se_session = sid, se_type = event_type, se_payload = JObj payload\<rparr>]\<rparr>)"

text \<open>The gates of a route that edits: the owner, an open session, the editor lease.\<close>

definition editable :: "(nat \<Rightarrow> time) \<Rightarrow> nat \<Rightarrow> nat \<Rightarrow> string option \<Rightarrow> iv_db \<Rightarrow> http_error + candidate_session" where
  "editable clk session_id user editor_token db =
     bind (load_owned_session (clk 0) session_id user db) (\<lambda>s.
       case require_mutable (clk 1) (cs_life s) of
         (life, Some e) \<Rightarrow> Inl e
       | (life, None) \<Rightarrow>
           (case require_editor (clk 2) life editor_token of
              Some e \<Rightarrow> Inl e
            | None \<Rightarrow> Inr (s\<lparr>cs_life := life\<rparr>)))"

section \<open>Revisions\<close>

definition current_revision :: "nat \<Rightarrow> string \<Rightarrow> file_row list \<Rightarrow> int" where
  "current_revision sid p rows =
     (case rows_for sid p rows of
        [] \<Rightarrow> 1
      | rs \<Rightarrow> (let value = Max (set (map fv_revision rs)) in if value \<noteq> 0 then value else 1))"

definition stamp_revisions :: "nat \<Rightarrow> file_row list \<Rightarrow> (string \<times> string) list \<Rightarrow> (string \<times> string \<times> int) list" where
  "stamp_revisions sid rows proposed =
     map (\<lambda>(p, content). (p, content, if p \<noteq> [] then current_revision sid p rows else 1)) proposed"

text \<open>An exception of the workspace code that no route catches; its own HTTP errors pass.\<close>

definition uncaught_ws :: "ws_exc \<Rightarrow> http_error" where
  "uncaught_ws e = (case e of Http h \<Rightarrow> h | _ \<Rightarrow> server_error)"

text \<open>\<open>except PermissionError\<close> and \<open>except ValueError\<close> of the routes that touch a file.\<close>

definition file_error :: "ws_exc \<Rightarrow> http_error" where
  "file_error e = (case e of
      PermissionError _ \<Rightarrow> file_not_found
    | ValueErr m \<Rightarrow> HTTPException 400 m None
    | _ \<Rightarrow> uncaught_ws e)"

record file_content =
  fc_path :: string
  fc_content :: string
  fc_revision :: int

text \<open>\<open>ensure_workspace\<close> for the loaded session, which then records the directory.\<close>

definition session_workspace ::
  "file_env \<Rightarrow> int \<Rightarrow> candidate_session \<Rightarrow> iv_world \<Rightarrow> ws_state \<times> (ws_exc + candidate_session)" where
  "session_workspace E free s w =
     (case ensure_workspace (fe_config E) free (cs_id s) (cs_slug s) (cs_workspace s) (iv_files (iw_db w)) (iw_ws w) of
        (st, Inl e) \<Rightarrow> (st, Inl e)
      | (st, Inr dir) \<Rightarrow> (st, Inr (s\<lparr>cs_workspace := dir\<rparr>)))"

section \<open>Opening a file\<close>

definition get_session_file ::
  "file_env \<Rightarrow> int \<Rightarrow> (nat \<Rightarrow> time) \<Rightarrow> nat \<Rightarrow> nat \<Rightarrow> string \<Rightarrow> iv_world \<Rightarrow> iv_world \<times> (http_error + file_content)" where
  "get_session_file E free clk session_id user file_path w =
     (if is_blocked_path file_path then (w, Inl file_not_found)
      else case load_owned_session (clk 0) session_id user (iw_db w) of
          Inl e \<Rightarrow> (w, Inl e)
        | Inr s \<Rightarrow>
            (case session_workspace E free s w of
               (st, Inl e) \<Rightarrow> (w\<lparr>iw_ws := st\<rparr>, Inl (uncaught_ws e))
             | (st, Inr s1) \<Rightarrow>
                 (case read_file (fe_decode E) (ws_files st) (cs_workspace s1) file_path of
                    Inl (FileNotFound _) \<Rightarrow> (w\<lparr>iw_ws := st\<rparr>, Inl file_not_found)
                  | Inl e \<Rightarrow> (w\<lparr>iw_ws := st\<rparr>, Inl (file_error e))
                  | Inr content \<Rightarrow>
                      (let db1 = add_event session_id ''file_viewed'' [(''path'', JStr file_path)] True (iw_db w)
                       in (\<lparr>iw_db = store_session s1 db1, iw_ws = st\<rparr>,
                           Inr \<lparr>fc_path = file_path, fc_content = content,
                                fc_revision = current_revision session_id file_path (iv_files (iw_db w))\<rparr>)))))"

section \<open>Saving a file\<close>

record save_request =
  sv_content :: string
  sv_base_revision :: "int option"
  sv_source :: string
  sv_additions :: "int option"
  sv_deletions :: "int option"

definition conflict_error :: http_error where
  "conflict_error = HTTPException 409 ''This file changed in another tab or device. Reload before saving.'' None"

definition changed_payload :: "file_env \<Rightarrow> string \<Rightarrow> string \<Rightarrow> save_request \<Rightarrow> json dict" where
  "changed_payload E file_path prev body =
     (let (additions, deletions) = (case (sv_additions body, sv_deletions body) of
            (Some a, Some d) \<Rightarrow> (a, d)
          | _ \<Rightarrow> fe_line_diff E prev (sv_content body));
          source = (if sv_source body \<in> set [''candidate'', ''ai'', ''mixed''] then sv_source body else ''candidate'')
      in [(''path'', JStr file_path), (''bytes'', JInt (int (length (utf8 (sv_content body))))),
          (''additions'', JInt additions), (''deletions'', JInt deletions), (''source'', JStr source)])"

definition add_revision :: "nat \<Rightarrow> string \<Rightarrow> string \<Rightarrow> int \<Rightarrow> iv_db \<Rightarrow> iv_db" where
  "add_revision sid p content revision db =
     db\<lparr>iv_files := iv_files db @ [\<lparr>fv_session = sid, fv_path = p, fv_content = content, fv_revision = revision\<rparr>]\<rparr>"

definition previous_content :: "file_env \<Rightarrow> ws_state \<Rightarrow> path \<Rightarrow> string \<Rightarrow> ws_exc + string" where
  "previous_content E st dir file_path =
     (case read_file (fe_decode E) (ws_files st) dir file_path of
        Inl (FileNotFound _) \<Rightarrow> Inr []
      | r \<Rightarrow> r)"

definition save_session_file ::
  "file_env \<Rightarrow> int \<Rightarrow> (nat \<Rightarrow> time) \<Rightarrow> nat \<Rightarrow> nat \<Rightarrow> string option \<Rightarrow> string \<Rightarrow> save_request \<Rightarrow> iv_world \<Rightarrow>
   iv_world \<times> (http_error + file_content)" where
  "save_session_file E free clk session_id user editor_token file_path body w =
     (if is_blocked_path file_path then (w, Inl file_not_found)
      else case editable clk session_id user editor_token (iw_db w) of
          Inl e \<Rightarrow> (w, Inl e)
        | Inr s \<Rightarrow>
            (let current = current_revision session_id file_path (iv_files (iw_db w)) in
             case session_workspace E free s w of
               (st, Inl e) \<Rightarrow> (w\<lparr>iw_ws := st\<rparr>, Inl (uncaught_ws e))
             | (st, Inr s1) \<Rightarrow>
                 (case previous_content E st (cs_workspace s1) file_path of
                    Inl e \<Rightarrow> (w\<lparr>iw_ws := st\<rparr>, Inl (file_error e))
                  | Inr prev \<Rightarrow>
                      if sv_base_revision body \<noteq> None \<and> sv_base_revision body \<noteq> Some current then
                        (if sv_content body = prev
                         then (\<lparr>iw_db = store_session s1 (iw_db w), iw_ws = st\<rparr>,
                               Inr \<lparr>fc_path = file_path, fc_content = prev, fc_revision = current\<rparr>)
                         else (w\<lparr>iw_ws := st\<rparr>, Inl conflict_error))
                      else
                        (case write_file (wc_storage (fe_config E)) free (cs_workspace s1) file_path (sv_content body) st of
                           (st2, Some e) \<Rightarrow> (w\<lparr>iw_ws := st2\<rparr>, Inl (file_error e))
                         | (st2, None) \<Rightarrow>
                             (let db1 = add_revision session_id file_path (sv_content body) (current + 1) (iw_db w);
                                  db2 = add_event session_id ''file_changed'' (changed_payload E file_path prev body) False db1
                              in (\<lparr>iw_db = store_session s1 db2, iw_ws = st2\<rparr>,
                                  Inr \<lparr>fc_path = file_path, fc_content = sv_content body, fc_revision = current + 1\<rparr>))))))"

section \<open>Suggestions of the assistant\<close>

record apply_request =
  ap_path :: string
  ap_content :: string
  ap_disposition :: string
  ap_proposed_content :: "string option"
  ap_base_revision :: "int option"

definition apply_disposition :: "apply_request \<Rightarrow> string" where
  "apply_disposition body =
     (if ap_disposition body \<in> set [''accepted'', ''modified'', ''rejected''] then ap_disposition body else ''accepted'')"

definition apply_event :: "string \<Rightarrow> string" where
  "apply_event disposition = ''ai_edit_'' @ disposition"

definition stale_suggestion :: http_error where
  "stale_suggestion = HTTPException 409 ''The file changed since this suggestion. Re-ask or edit by hand.'' None"

text \<open>A refused suggestion is recorded; what is read afterwards belongs to no transaction.\<close>

definition reject_edit ::
  "file_env \<Rightarrow> int \<Rightarrow> candidate_session \<Rightarrow> apply_request \<Rightarrow> iv_world \<Rightarrow> iv_world \<times> (http_error + file_content)" where
  "reject_edit E free s body w =
     (let db1 = store_session s (add_event (cs_id s) (apply_event ''rejected'')
             [(''path'', JStr (ap_path body)), (''disposition'', JStr ''rejected'')] False (iw_db w));
          w1 = w\<lparr>iw_db := db1\<rparr>
      in case session_workspace E free s w1 of
           (st, Inl (FileNotFound _)) \<Rightarrow>
             (w1\<lparr>iw_ws := st\<rparr>, Inr \<lparr>fc_path = ap_path body, fc_content = [], fc_revision = 0\<rparr>)
         | (st, Inl e) \<Rightarrow> (w1\<lparr>iw_ws := st\<rparr>, Inl (uncaught_ws e))
         | (st, Inr s1) \<Rightarrow>
             (case previous_content E st (cs_workspace s1) (ap_path body) of
                Inl e \<Rightarrow> (w1\<lparr>iw_ws := st\<rparr>, Inl (uncaught_ws e))
              | Inr content \<Rightarrow>
                  (w1\<lparr>iw_ws := st\<rparr>, Inr \<lparr>fc_path = ap_path body, fc_content = content, fc_revision = 0\<rparr>)))"

definition apply_payload :: "apply_request \<Rightarrow> int \<Rightarrow> json dict" where
  "apply_payload body current =
     [(''path'', JStr (ap_path body)), (''disposition'', JStr (apply_disposition body)), (''base_revision'', JInt current)] @
     (if apply_disposition body = ''modified''
      then [(''content'', JStr (ap_content body)),
            (''proposed_content'', JStr (case ap_proposed_content body of None \<Rightarrow> [] | Some c \<Rightarrow> c))]
      else [])"

definition ai_apply_edit ::
  "file_env \<Rightarrow> int \<Rightarrow> (nat \<Rightarrow> time) \<Rightarrow> nat \<Rightarrow> nat \<Rightarrow> string option \<Rightarrow> apply_request \<Rightarrow> iv_world \<Rightarrow>
   iv_world \<times> (http_error + file_content)" where
  "ai_apply_edit E free clk session_id user editor_token body w =
     (case editable clk session_id user editor_token (iw_db w) of
        Inl e \<Rightarrow> (w, Inl e)
      | Inr s \<Rightarrow>
          if is_blocked_path (ap_path body) then (w, Inl file_not_found)
          else if apply_disposition body = ''rejected'' then reject_edit E free s body w
          else
            (let current = current_revision session_id (ap_path body) (iv_files (iw_db w)) in
             case ap_base_revision body of
               None \<Rightarrow> (w, Inl (HTTPException 400 ''This suggestion has no file revision. Ask again.'' None))
             | Some base \<Rightarrow>
                 if base \<noteq> current then (w, Inl stale_suggestion)
                 else
                   (let db0 = add_event session_id (apply_event (apply_disposition body)) (apply_payload body current) False (iw_db w)
                    in case session_workspace E free s w of
                         (st, Inl e) \<Rightarrow> (w\<lparr>iw_ws := st\<rparr>, Inl (file_error e))
                       | (st, Inr s1) \<Rightarrow>
                           (case write_file (wc_storage (fe_config E)) free (cs_workspace s1) (ap_path body) (ap_content body) st of
                              (st2, Some e) \<Rightarrow> (w\<lparr>iw_ws := st2\<rparr>, Inl (file_error e))
                            | (st2, None) \<Rightarrow>
                                (let db1 = add_revision session_id (ap_path body) (ap_content body) (current + 1) db0;
                                     db2 = add_event session_id ''file_changed''
                                       [(''path'', JStr (ap_path body)), (''bytes'', JInt (int (length (utf8 (ap_content body))))),
                                        (''source'', JStr (if apply_disposition body = ''accepted'' then ''ai'' else ''mixed''))] False db1
                                 in (\<lparr>iw_db = store_session s1 db2, iw_ws = st2\<rparr>,
                                     Inr \<lparr>fc_path = ap_path body, fc_content = ap_content body, fc_revision = current + 1\<rparr>))))))"

section \<open>Events of the browser\<close>

text \<open>A bool is no int for \<open>type(hits) is int\<close>.\<close>

definition valid_search :: "json dict \<Rightarrow> bool" where
  "valid_search payload \<longleftrightarrow>
     fst ` set payload \<subseteq> {''query'', ''hits''} \<and>
     (case map_of payload ''query'' of Some (JStr q) \<Rightarrow> length q \<le> 200 | _ \<Rightarrow> False) \<and>
     (case dict_get payload ''hits'' (JInt 0) of JInt n \<Rightarrow> 0 \<le> n \<and> n \<le> 10000 | _ \<Rightarrow> False)"

definition post_event ::
  "(nat \<Rightarrow> time) \<Rightarrow> nat \<Rightarrow> nat \<Rightarrow> string option \<Rightarrow> string \<Rightarrow> json dict \<Rightarrow> iv_world \<Rightarrow> iv_world \<times> (http_error + json dict)" where
  "post_event clk session_id user editor_token event_type payload w =
     (case editable clk session_id user editor_token (iw_db w) of
        Inl e \<Rightarrow> (w, Inl e)
      | Inr s \<Rightarrow>
          if event_type \<noteq> ''file_searched''
          then (w, Inl (HTTPException 400 ''This event is recorded by the server'' None))
          else if \<not> valid_search payload then (w, Inl (HTTPException 400 ''Invalid search activity'' None))
          else
            (let recorded = [(''query'', dict_get payload ''query'' JNull), (''hits'', dict_get payload ''hits'' (JInt 0))]
             in (w\<lparr>iw_db := store_session s (add_event session_id ''file_searched'' recorded False (iw_db w))\<rparr>, Inr recorded)))"

section \<open>One request after another\<close>

datatype file_request =
    OpenFile nat nat string
  | SaveFile nat nat "string option" string save_request
  | ApplyEdit nat nat "string option" apply_request
  | SearchEvent nat nat "string option" string "json dict"

text \<open>Each request comes with the readings of the clock and of the free disk space.\<close>

fun serve_files :: "file_env \<Rightarrow> (nat \<Rightarrow> time) \<times> int \<times> file_request \<Rightarrow> iv_world \<Rightarrow> iv_world" where
  "serve_files E (clk, free, OpenFile sid user p) w = fst (get_session_file E free clk sid user p w)"
| "serve_files E (clk, free, SaveFile sid user token p body) w = fst (save_session_file E free clk sid user token p body w)"
| "serve_files E (clk, free, ApplyEdit sid user token body) w = fst (ai_apply_edit E free clk sid user token body w)"
| "serve_files E (clk, free, SearchEvent sid user token kind payload) w = fst (post_event clk sid user token kind payload w)"

section \<open>Gates\<close>

lemma load_owned_sessionE:
  assumes "load_owned_session now sid user db = Inr s"
  obtains s0 where "row_get cs_id sid (iv_sessions db) = Some s0" "cs_user s0 = Some user"
    "s = s0\<lparr>cs_life := fst (maybe_expire_session now (cs_life s0))\<rparr>"
  using assms by (auto simp: load_owned_session_def split: option.splits if_splits)

lemma require_mutable_life: "fst (require_mutable now s) = fst (maybe_expire_session now s)"
  by (simp add: require_mutable_def Let_def)

lemma require_mutable_open:
  "require_mutable now s = (s', None) \<Longrightarrow> is_status s' \<in> set mutable_statuses \<and> s' = s"
  by (auto simp: require_mutable_def maybe_expire_session_def mutable_statuses_def Let_def split: if_splits option.splits)

lemma editableE:
  assumes "editable clk sid user token db = Inr s"
  obtains s0 where "row_get cs_id sid (iv_sessions db) = Some s0" "cs_user s0 = Some user"
    "is_status (cs_life s0) \<in> set mutable_statuses" "s = s0" "cs_id s = sid" "require_editor (clk 2) (cs_life s) token = None"
proof -
  from assms obtain s1 where load: "load_owned_session (clk 0) sid user db = Inr s1"
    and rest: "(case require_mutable (clk 1) (cs_life s1) of
         (life, Some e) \<Rightarrow> Inl e
       | (life, None) \<Rightarrow>
           (case require_editor (clk 2) life token of Some e \<Rightarrow> Inl e | None \<Rightarrow> Inr (s1\<lparr>cs_life := life\<rparr>))) = Inr s"
    unfolding editable_def by (rule bind_InrE)
  obtain life err where rm: "require_mutable (clk 1) (cs_life s1) = (life, err)" by (rule prod.exhaust)
  with rest have mut: "require_mutable (clk 1) (cs_life s1) = (life, None)" and ed: "require_editor (clk 2) life token = None"
    and s: "s = s1\<lparr>cs_life := life\<rparr>"
    by (auto split: option.splits)
  from load obtain s0 where s0: "row_get cs_id sid (iv_sessions db) = Some s0" "cs_user s0 = Some user"
    and s1: "s1 = s0\<lparr>cs_life := fst (maybe_expire_session (clk 0) (cs_life s0))\<rparr>"
    by (rule load_owned_sessionE)
  from require_mutable_open [OF mut] have st: "is_status life \<in> set mutable_statuses" and life: "life = cs_life s1" by blast+
  have "fst (maybe_expire_session (clk 0) (cs_life s0)) = cs_life s0"
    using st life s1 by (auto simp: maybe_expire_session_def mutable_statuses_def split: if_splits option.splits)
  then have "s1 = s0" using s1 by simp
  then have same: "s = s0" "life = cs_life s0" using s life by simp_all
  moreover have "cs_id s0 = sid" using row_get_SomeD [OF s0(1)] by simp
  ultimately show thesis using that [OF s0 _ same(1)] st ed by simp
qed

section \<open>Revisions are consecutive\<close>

definition revisions_ok :: "file_row list \<Rightarrow> bool" where
  "revisions_ok rows \<longleftrightarrow>
     (\<forall>sid p. map fv_revision (rows_for sid p rows) = map int [2..<length (rows_for sid p rows) + 2])"

lemma current_revision_ok:
  assumes "revisions_ok rows"
  shows "current_revision sid p rows = int (length (rows_for sid p rows)) + 1"
proof (cases "rows_for sid p rows")
  case Nil
  then show ?thesis by (simp add: current_revision_def)
next
  case (Cons r rs)
  let ?n = "length (rows_for sid p rows)"
  have "map fv_revision (rows_for sid p rows) = map int [2..<?n + 2]"
    using assms unfolding revisions_ok_def by blast
  moreover have "[2..<?n + 2] = [2..<?n + 1] @ [?n + 1]" using Cons by simp
  moreover have "Max (set (map int ([2..<?n + 1] @ [?n + 1]))) = int (?n + 1)"
    by (rule Max_eqI) auto
  ultimately have "Max (set (map fv_revision (rows_for sid p rows))) = int (?n + 1)" by simp
  then show ?thesis using Cons by (simp add: current_revision_def Let_def)
qed

lemma rows_for_append: "rows_for sid p (rows @ rows2) = rows_for sid p rows @ rows_for sid p rows2"
  by (simp add: rows_for_def)

lemma revisions_ok_append:
  assumes "revisions_ok rows"
  shows "revisions_ok (rows @ [\<lparr>fv_session = sid, fv_path = p, fv_content = c, fv_revision = current_revision sid p rows + 1\<rparr>])"
proof -
  have "map fv_revision (rows_for sid' p' rows) = map int [2..<length (rows_for sid' p' rows) + 2]" for sid' p'
    using assms unfolding revisions_ok_def by blast
  then show ?thesis
    unfolding revisions_ok_def rows_for_append current_revision_ok [OF assms] by (simp add: rows_for_def)
qed

lemma current_revision_append:
  assumes "revisions_ok rows"
  shows "current_revision sid p (rows @ [\<lparr>fv_session = sid, fv_path = p, fv_content = c,
    fv_revision = current_revision sid p rows + 1\<rparr>]) = current_revision sid p rows + 1"
  using current_revision_ok [OF revisions_ok_append [OF assms], of sid p sid p c] current_revision_ok [OF assms, of sid p]
  by (simp add: rows_for_append) (simp add: rows_for_def)

lemma db_frames [simp]:
  "iv_files (store_session s db) = iv_files db" "iv_files (add_event sid k pl dd db) = iv_files db"
  "iv_events (store_session s db) = iv_events db" "iv_sessions (add_event sid k pl dd db) = iv_sessions db"
  "iv_sessions (add_revision sid p c r db) = iv_sessions db" "iv_events (add_revision sid p c r db) = iv_events db"
  "iv_files (add_revision sid p c r db) = iv_files db @ [\<lparr>fv_session = sid, fv_path = p, fv_content = c, fv_revision = r\<rparr>]"
  by (simp_all add: store_session_def add_event_def add_revision_def Let_def)

text \<open>What a request does to the saved revisions: nothing, or one row with the next number.\<close>

lemma save_revisions:
  "iv_files (iw_db (fst (save_session_file E free clk sid user token p body w))) \<in>
     {iv_files (iw_db w), iv_files (iw_db w) @ [\<lparr>fv_session = sid, fv_path = p, fv_content = sv_content body,
        fv_revision = current_revision sid p (iv_files (iw_db w)) + 1\<rparr>]}"
  by (simp add: save_session_file_def Let_def split: sum.split prod.split option.split)

lemma reject_revisions: "iv_files (iw_db (fst (reject_edit E free s body w))) = iv_files (iw_db w)"
  by (simp add: reject_edit_def Let_def split: sum.split prod.split ws_exc.split)

lemma apply_revisions:
  "iv_files (iw_db (fst (ai_apply_edit E free clk sid user token body w))) \<in>
     {iv_files (iw_db w), iv_files (iw_db w) @ [\<lparr>fv_session = sid, fv_path = ap_path body, fv_content = ap_content body,
        fv_revision = current_revision sid (ap_path body) (iv_files (iw_db w)) + 1\<rparr>]}"
  by (simp add: ai_apply_edit_def Let_def reject_revisions split: sum.split prod.split option.split)

lemma open_revisions: "iv_files (iw_db (fst (get_session_file E free clk sid user p w))) = iv_files (iw_db w)"
  by (simp add: get_session_file_def Let_def split: sum.split prod.split ws_exc.split)

lemma post_revisions: "iv_files (iw_db (fst (post_event clk sid user token kind payload w))) = iv_files (iw_db w)"
  by (simp add: post_event_def Let_def split: sum.split)

lemma serve_files_revisions:
  "revisions_ok (iv_files (iw_db w)) \<Longrightarrow> revisions_ok (iv_files (iw_db (serve_files E r w)))"
proof (induction E r w rule: serve_files.induct)
  case (1 E clk free sid user p w)
  then show ?case by (simp add: open_revisions)
next
  case (2 E clk free sid user token p body w)
  then show ?case
    using save_revisions [of E free clk sid user token p body w] revisions_ok_append by fastforce
next
  case (3 E clk free sid user token body w)
  then show ?case
    using apply_revisions [of E free clk sid user token body w] revisions_ok_append by fastforce
next
  case (4 E clk free sid user token kind payload w)
  then show ?case by (simp add: post_revisions)
qed

text \<open>
  C15: Whatever requests come, by whoever and in whatever order, the saved revisions of every path of
  every session stay numbered 2, 3, 4, ... in the order they were saved, so the current revision is
  one more than the number of saves, and no save is recorded twice or out of order.
\<close>

theorem revisions_consecutive:
  "revisions_ok (iv_files (iw_db w)) \<Longrightarrow> revisions_ok (iv_files (iw_db (fold (serve_files E) rs w)))"
  by (induction rs arbitrary: w) (simp_all add: serve_files_revisions)

section \<open>Edits need the owner, an open session and the lease\<close>

fun edits :: "file_request \<Rightarrow> (nat \<times> nat \<times> string option) option" where
  "edits (OpenFile sid user p) = None"
| "edits (SaveFile sid user token p body) = Some (sid, user, token)"
| "edits (ApplyEdit sid user token body) = Some (sid, user, token)"
| "edits (SearchEvent sid user token kind payload) = Some (sid, user, token)"

text \<open>
  C16: A request that edits - a save, a suggestion applied or refused, an activity event - changes
  anything at all, in the database or on the disk, only when it is the owner's, the session is
  created or active and not past its deadline, and the editor token is compatible with the lease:
  after a submission, an expiry or an abandonment the code and the record stay as they are.
\<close>

theorem edits_need_open_session:
  assumes edit: "edits r = Some (sid, user, token)" and changed: "serve_files E (clk, free, r) w \<noteq> w"
  shows "\<exists>s. row_get cs_id sid (iv_sessions (iw_db w)) = Some s \<and> cs_user s = Some user \<and>
    is_status (cs_life s) \<in> set mutable_statuses \<and>
    (case is_expires_at (cs_life s) of None \<Rightarrow> True | Some x \<Rightarrow> clk 0 < x) \<and>
    require_editor (clk 2) (cs_life s) token = None"
proof -
  have "\<exists>s. editable clk sid user token (iw_db w) = Inr s"
  proof (rule ccontr)
    assume "\<not> ?thesis"
    then obtain e where "editable clk sid user token (iw_db w) = Inl e"
      by (cases "editable clk sid user token (iw_db w)") auto
    then have "serve_files E (clk, free, r) w = w"
      using edit by (cases r) (auto simp: save_session_file_def ai_apply_edit_def post_event_def)
    then show False using changed by simp
  qed
  then obtain s where ed: "editable clk sid user token (iw_db w) = Inr s" by blast
  then obtain s1 where load: "load_owned_session (clk 0) sid user (iw_db w) = Inr s1"
    unfolding editable_def by (elim bind_InrE)
  from ed have st: "row_get cs_id sid (iv_sessions (iw_db w)) = Some s" "cs_user s = Some user"
    "is_status (cs_life s) \<in> set mutable_statuses" "require_editor (clk 2) (cs_life s) token = None"
    by (auto elim: editableE)
  moreover have "case is_expires_at (cs_life s) of None \<Rightarrow> True | Some x \<Rightarrow> clk 0 < x"
  proof (rule ccontr)
    assume "\<not> ?thesis"
    then obtain x where x: "is_expires_at (cs_life s) = Some x" "x \<le> clk 0" by (cases "is_expires_at (cs_life s)") auto
    have "is_status (fst (maybe_expire_session (clk 0) (cs_life s))) = ''expired''"
      using x st(3) by (auto simp: maybe_expire_session_def mutable_statuses_def)
    then have "is_status (cs_life s1) = ''expired''" using load st(1) by (auto elim: load_owned_sessionE)
    then have "snd (require_mutable (clk 1) (cs_life s1)) \<noteq> None"
      by (simp add: require_mutable_def maybe_expire_session_def Let_def)
    then have "\<exists>e. editable clk sid user token (iw_db w) = Inl e"
      using load by (auto simp: editable_def split: prod.splits option.splits)
    then show False using ed by simp
  qed
  ultimately show ?thesis by blast
qed

section \<open>An example\<close>

definition demo_env :: file_env where
  "demo_env = \<lparr>fe_config = demo_config, fe_decode = utf8_decode,
     fe_line_diff = (\<lambda>a b. (int (length b), int (length a)))\<rparr>"

definition demo_session :: candidate_session where
  "demo_session = \<lparr>cs_id = 7, cs_user = Some 5, cs_slug = ''t'', cs_attempt = 1, cs_workspace = [''ws'', ''s1''],
     cs_life = fresh_session, cs_abandon_reason = None, cs_wall_duration_ms = None, cs_infra_blocked_ms = 0,
     cs_challenge_version = ''1'', cs_scoring_version = ''v1''\<rparr>"

definition demo_world :: iv_world where
  "demo_world = \<lparr>iw_db = \<lparr>iv_sessions = [demo_session], iv_files = [], iv_events = []\<rparr>, iw_ws = demo_state\<rparr>"

definition save_of :: "string \<Rightarrow> int \<Rightarrow> save_request" where
  "save_of content base = \<lparr>sv_content = content, sv_base_revision = Some base, sv_source = ''candidate'',
     sv_additions = Some 1, sv_deletions = Some 0\<rparr>"

abbreviation demo_clk :: "nat \<Rightarrow> time" where
  "demo_clk \<equiv> \<lambda>n. 1000000 + int n"

abbreviation demo_save :: "string \<Rightarrow> string \<Rightarrow> int \<Rightarrow> iv_world \<Rightarrow> iv_world \<times> (http_error + file_content)" where
  "demo_save p content base w \<equiv> save_session_file demo_env 5000 demo_clk 7 5 None p (save_of content base) w"

lemma save_written:
  assumes "\<not> is_blocked_path p" "editable clk sid user token (iw_db w) = Inr s"
    "materialized (ws_files (iw_ws w)) (cs_workspace s)" "cs_workspace s \<noteq> []"
    "previous_content E (iw_ws w) (cs_workspace s) p = Inr prev"
    "sv_base_revision body = Some (current_revision sid p (iv_files (iw_db w)))"
    "write_file (wc_storage (fe_config E)) free (cs_workspace s) p (sv_content body) (iw_ws w) = (st, None)"
  shows "save_session_file E free clk sid user token p body w =
    (\<lparr>iw_db = store_session s (add_event sid ''file_changed'' (changed_payload E p prev body) False
         (add_revision sid p (sv_content body) (current_revision sid p (iv_files (iw_db w)) + 1) (iw_db w))), iw_ws = st\<rparr>,
     Inr \<lparr>fc_path = p, fc_content = sv_content body, fc_revision = current_revision sid p (iv_files (iw_db w)) + 1\<rparr>)"
  using assms by (simp add: save_session_file_def session_workspace_def ensure_workspace_def Let_def)

definition saved_state :: "string \<Rightarrow> int \<Rightarrow> ws_state" where
  "saved_state content n =
     \<lparr>ws_files = demo_files @ [([''ws'', ''s1.upload.lock''], FileNode []), ([''ws'', ''s1'', ''a.py''], FileNode content)],
      ws_ledger = \<lparr>lg_rows = [\<lparr>le_key = ''s1'', le_total = 9, le_files = 2, le_reserved = 0\<rparr>,
          \<lparr>le_key = reservation_key, le_total = 0, le_files = 0, le_reserved = n\<rparr>],
        lg_total = 9, lg_reserved = 0\<rparr>\<rparr>"

lemma demo_write_a:
  "write_file demo_settings 5000 [''ws'', ''s1''] ''a.py'' ''A'' demo_state = (saved_state ''A'' 1, None)"
  by code_simp

lemma demo_write_b:
  "write_file demo_settings 5000 [''ws'', ''s1''] ''./a.py'' ''B'' (saved_state ''A'' 1) = (saved_state ''B'' 2, None)"
  by code_simp

lemma demo_editable:
  assumes "row_get cs_id 7 (iv_sessions db) = Some demo_session"
  shows "editable demo_clk 7 5 None db = Inr demo_session"
proof -
  have "maybe_expire_session t fresh_session = (fresh_session, False)" if "t < seconds 86400" for t
    using that by (simp add: maybe_expire_session_def fresh_session_def)
  then have "fst (maybe_expire_session (demo_clk 0) fresh_session) = fresh_session"
    "require_mutable (demo_clk 1) fresh_session = (fresh_session, None)"
    by (simp_all add: require_mutable_def fresh_session_def mutable_statuses_def)
  moreover have "require_editor (demo_clk 2) fresh_session None = None"
    by (simp add: require_editor_def timer_snapshot_def fresh_session_def Let_def)
  moreover have "demo_session\<lparr>cs_life := fresh_session\<rparr> = demo_session" "cs_life demo_session = fresh_session"
    "cs_user demo_session = Some 5"
    by (simp_all add: demo_session_def)
  ultimately show ?thesis using assms by (simp add: editable_def load_owned_session_def)
qed

definition demo_world_a :: iv_world where
  "demo_world_a =
     \<lparr>iw_db = \<lparr>iv_sessions = [demo_session],
        iv_files = [\<lparr>fv_session = 7, fv_path = ''a.py'', fv_content = ''A'', fv_revision = 2\<rparr>],
        iv_events = [\<lparr>se_session = 7, se_type = ''file_changed'',
          se_payload = JObj [(''path'', JStr ''a.py''), (''bytes'', JInt 1), (''additions'', JInt 1), (''deletions'', JInt 0),
            (''source'', JStr ''candidate'')]\<rparr>]\<rparr>,
      iw_ws = saved_state ''A'' 1\<rparr>"

lemma save_of_simps [simp]:
  "sv_content (save_of c b) = c" "sv_base_revision (save_of c b) = Some b" "sv_source (save_of c b) = ''candidate''"
  "sv_additions (save_of c b) = Some 1" "sv_deletions (save_of c b) = Some 0"
  by (simp_all add: save_of_def)

lemma demo_env_simps [simp]:
  "wc_storage (fe_config demo_env) = demo_settings" "fe_decode demo_env = utf8_decode" "cs_workspace demo_session = [''ws'', ''s1'']"
  "cs_id demo_session = 7"
  by (simp_all add: demo_env_def demo_config_def demo_session_def)

lemma demo_save_a: "demo_save ''a.py'' ''A'' 1 demo_world = (demo_world_a, Inr \<lparr>fc_path = ''a.py'', fc_content = ''A'', fc_revision = 2\<rparr>)"
proof -
  have rev: "current_revision 7 ''a.py'' (iv_files (iw_db demo_world)) = 1"
    by (simp add: demo_world_def current_revision_def rows_for_def)
  have mat: "materialized (ws_files (iw_ws demo_world)) [''ws'', ''s1'']" by code_simp
  have blocked: "\<not> is_blocked_path ''a.py''" by code_simp
  have prev: "previous_content demo_env (iw_ws demo_world) [''ws'', ''s1''] ''a.py'' = Inr []"
  proof -
    have "read_file utf8_decode demo_files [''ws'', ''s1''] ''a.py'' = Inl (FileNotFound ''a.py'')" by code_simp
    then show ?thesis by (simp add: previous_content_def demo_world_def demo_state_def)
  qed
  have ed: "editable demo_clk 7 5 None (iw_db demo_world) = Inr demo_session"
    by (rule demo_editable) (simp add: demo_world_def demo_session_def)
  have "demo_save ''a.py'' ''A'' 1 demo_world =
    (\<lparr>iw_db = store_session demo_session (add_event 7 ''file_changed'' (changed_payload demo_env ''a.py'' [] (save_of ''A'' 1)) False
         (add_revision 7 ''a.py'' ''A'' 2 (iw_db demo_world))), iw_ws = saved_state ''A'' 1\<rparr>,
     Inr \<lparr>fc_path = ''a.py'', fc_content = ''A'', fc_revision = 2\<rparr>)"
    using save_written [OF blocked ed, of demo_env "[]" "save_of ''A'' 1" 5000 "saved_state ''A'' 1"] mat prev rev demo_write_a
    by (simp add: demo_world_def)
  moreover have "utf8 ''A'' = ''A''" by code_simp
  ultimately show ?thesis
    by (simp add: demo_world_def demo_world_a_def store_session_def add_event_def add_revision_def changed_payload_def Let_def)
qed

lemma demo_read_1: "read_file utf8_decode (ws_files (saved_state ''A'' 1)) [''ws'', ''s1''] ''a.py'' = Inr ''A''"
  by code_simp

lemma demo_read_2: "read_file utf8_decode (ws_files (saved_state ''A'' 1)) [''ws'', ''s1''] ''./a.py'' = Inr ''A''"
  by code_simp

lemma demo_read_3: "read_file utf8_decode (ws_files (saved_state ''B'' 2)) [''ws'', ''s1''] ''a.py'' = Inr ''B''"
  by code_simp

lemmas demo_read_a = demo_read_1 demo_read_2 demo_read_3

text \<open>
  A save is refused when the file has moved on from the revision the editor had seen - unless the
  path is spelled differently. Revisions are counted by the text of the path, the file is found by
  its proper names: after \<open>a.py\<close> has been saved as revision 2, a second editor that saves \<open>a.py\<close>
  from revision 1 is refused, but the one that saves \<open>./a.py\<close> from revision 1 is accepted, the first
  editor's text is gone, and \<open>a.py\<close> still shows revision 2.
\<close>

theorem respelled_save_overwrites:
  "(case demo_save ''a.py'' ''A'' 1 demo_world of
      (w1, first) \<Rightarrow>
        first = Inr \<lparr>fc_path = ''a.py'', fc_content = ''A'', fc_revision = 2\<rparr> \<and>
        snd (demo_save ''a.py'' ''B'' 1 w1) = Inl conflict_error \<and>
        (case demo_save ''./a.py'' ''B'' 1 w1 of
           (w2, second) \<Rightarrow>
             second = Inr \<lparr>fc_path = ''./a.py'', fc_content = ''B'', fc_revision = 2\<rparr> \<and>
             current_revision 7 ''a.py'' (iv_files (iw_db w2)) = 2 \<and>
             read_file utf8_decode (ws_files (iw_ws w2)) [''ws'', ''s1''] ''a.py'' = Inr ''B''))"
proof -
  have rev: "current_revision 7 ''a.py'' (iv_files (iw_db demo_world_a)) = 2"
    "current_revision 7 ''./a.py'' (iv_files (iw_db demo_world_a)) = 1"
    by (simp_all add: demo_world_a_def current_revision_def rows_for_def)
  have mat: "materialized (ws_files (saved_state ''A'' 1)) [''ws'', ''s1'']" by code_simp
  have blocked: "\<not> is_blocked_path ''a.py''" "\<not> is_blocked_path ''./a.py''" by code_simp+
  have ed: "editable demo_clk 7 5 None (iw_db demo_world_a) = Inr demo_session"
    by (rule demo_editable) (simp add: demo_world_a_def demo_session_def)
  have ws: "iw_ws demo_world_a = saved_state ''A'' 1" by (simp add: demo_world_a_def)
  have "snd (demo_save ''a.py'' ''B'' 1 demo_world_a) = Inl conflict_error"
    using blocked ed mat rev demo_read_a(1)
    by (simp add: save_session_file_def session_workspace_def ensure_workspace_def previous_content_def ws)
  moreover have prev: "previous_content demo_env (iw_ws demo_world_a) [''ws'', ''s1''] ''./a.py'' = Inr ''A''"
    using demo_read_a(2) by (simp add: previous_content_def ws)
  have "demo_save ''./a.py'' ''B'' 1 demo_world_a =
    (\<lparr>iw_db = store_session demo_session (add_event 7 ''file_changed'' (changed_payload demo_env ''./a.py'' ''A'' (save_of ''B'' 1)) False
         (add_revision 7 ''./a.py'' ''B'' 2 (iw_db demo_world_a))), iw_ws = saved_state ''B'' 2\<rparr>,
     Inr \<lparr>fc_path = ''./a.py'', fc_content = ''B'', fc_revision = 2\<rparr>)"
    using save_written [OF blocked(2) ed, of demo_env "''A''" "save_of ''B'' 1" 5000 "saved_state ''B'' 2"] mat prev rev demo_write_b
    by (simp add: ws)
  moreover have "current_revision 7 ''a.py'' (iv_files (iw_db demo_world_a) @ [\<lparr>fv_session = 7, fv_path = ''./a.py'', fv_content = ''B'', fv_revision = 2\<rparr>]) = 2"
    by (simp add: demo_world_a_def current_revision_def rows_for_def)
  ultimately show ?thesis using demo_read_a(3) by (simp add: demo_save_a)
qed

theorem revisions_consecutive_witness:
  "revisions_ok (iv_files (iw_db (fold (serve_files demo_env)
     [(demo_clk, 5000, SaveFile 7 5 None ''a.py'' (save_of ''A'' 1)), (demo_clk, 5000, OpenFile 7 6 ''a.py'')] demo_world)))"
  by (rule revisions_consecutive) (simp add: demo_world_def revisions_ok_def rows_for_def)

theorem edits_need_open_session_witness:
  "serve_files demo_env (demo_clk, 5000, SaveFile 7 5 None ''a.py'' (save_of ''A'' 1)) demo_world = demo_world_a \<and>
   (\<exists>s. row_get cs_id 7 (iv_sessions (iw_db demo_world)) = Some s \<and> cs_user s = Some 5 \<and>
    is_status (cs_life s) \<in> set mutable_statuses)"
proof -
  have step: "serve_files demo_env (demo_clk, 5000, SaveFile 7 5 None ''a.py'' (save_of ''A'' 1)) demo_world = demo_world_a"
    by (simp add: demo_save_a)
  have "demo_world_a \<noteq> demo_world" by (simp add: demo_world_a_def demo_world_def)
  then have "serve_files demo_env (demo_clk, 5000, SaveFile 7 5 None ''a.py'' (save_of ''A'' 1)) demo_world \<noteq> demo_world"
    using step by simp
  from edits_need_open_session [OF _ this, of 7 5 None] step show ?thesis by auto
qed

section \<open>What an accepted save means\<close>

lemma save_InrE:
  assumes "save_session_file E free clk sid user token p body w = (w', Inr fc)"
  obtains (written) s s1 st prev st2 where
      "editable clk sid user token (iw_db w) = Inr s" "session_workspace E free s w = (st, Inr s1)"
      "sv_base_revision body = None \<or> sv_base_revision body = Some (current_revision sid p (iv_files (iw_db w)))"
      "write_file (wc_storage (fe_config E)) free (cs_workspace s1) p (sv_content body) st = (st2, None)"
      "w' = \<lparr>iw_db = store_session s1 (add_event sid ''file_changed'' (changed_payload E p prev body) False
         (add_revision sid p (sv_content body) (current_revision sid p (iv_files (iw_db w)) + 1) (iw_db w))), iw_ws = st2\<rparr>"
      "fc = \<lparr>fc_path = p, fc_content = sv_content body, fc_revision = current_revision sid p (iv_files (iw_db w)) + 1\<rparr>"
    | (repeated) s s1 st where
      "editable clk sid user token (iw_db w) = Inr s" "session_workspace E free s w = (st, Inr s1)"
      "previous_content E st (cs_workspace s1) p = Inr (sv_content body)"
      "w' = \<lparr>iw_db = store_session s1 (iw_db w), iw_ws = st\<rparr>"
      "fc = \<lparr>fc_path = p, fc_content = sv_content body, fc_revision = current_revision sid p (iv_files (iw_db w))\<rparr>"
proof -
  from assms obtain s where ed: "editable clk sid user token (iw_db w) = Inr s"
    by (auto simp: save_session_file_def split: if_splits sum.splits)
  from assms obtain st s1 where ws: "session_workspace E free s w = (st, Inr s1)"
    by (auto simp: save_session_file_def ed Let_def split: if_splits sum.splits prod.splits)
  from assms obtain prev where prev: "previous_content E st (cs_workspace s1) p = Inr prev"
    by (auto simp: save_session_file_def ed ws Let_def split: if_splits sum.splits)
  let ?c = "current_revision sid p (iv_files (iw_db w))"
  show thesis
  proof (cases "sv_base_revision body \<noteq> None \<and> sv_base_revision body \<noteq> Some ?c")
    case True
    then have "sv_content body = prev" "w' = \<lparr>iw_db = store_session s1 (iw_db w), iw_ws = st\<rparr>"
        "fc = \<lparr>fc_path = p, fc_content = prev, fc_revision = ?c\<rparr>"
      using assms by (auto simp: save_session_file_def ed ws prev Let_def split: if_splits)
    then show thesis using repeated [OF ed ws] prev by simp
  next
    case False
    obtain st2 err where wr: "write_file (wc_storage (fe_config E)) free (cs_workspace s1) p (sv_content body) st = (st2, err)"
      by (rule prod.exhaust)
    then have "err = None"
      using assms False by (cases err) (auto simp: save_session_file_def ed ws prev Let_def split: if_splits)
    then show thesis
      using assms False wr written [OF ed ws, of st2 prev]
      by (auto simp: save_session_file_def ed ws prev Let_def split: if_splits)
  qed
qed



text \<open>
  The code says that a save whose answer was lost can be sent again. When the content has no
  carriage return that is so: the repeated request is answered with the revision that was saved and
  changes nothing. When it has one, the text on the disk is read back with other line ends than were
  sent, and the repeated request is refused as a conflict.
\<close>

theorem repeated_save:
  assumes first: "save_session_file E free clk sid user token p body w = (w1, Inr fc)"
    and saved: "fc_revision fc = current_revision sid p (iv_files (iw_db w)) + 1"
      "sv_base_revision body = Some (current_revision sid p (iv_files (iw_db w)))" "revisions_ok (iv_files (iw_db w))"
    and decoder: "\<And>s. fe_decode E (utf8 s) = s"
    and again: "editable clk' sid user token' (iw_db w1) = Inr s'"
    and place: "materialized (ws_files (iw_ws w)) (cs_workspace s')" "workspace_ok (cs_workspace s') (iw_ws w)"
    and same_dir: "\<And>s. editable clk sid user token (iw_db w) = Inr s \<Longrightarrow> cs_workspace s = cs_workspace s'"
  shows "snd (save_session_file E free' clk' sid user token' p body w1) =
    (if universal_newlines (sv_content body) = sv_content body
     then Inr \<lparr>fc_path = p, fc_content = sv_content body, fc_revision = fc_revision fc\<rparr>
     else Inl conflict_error)"
  using first
proof (cases rule: save_InrE)
  case (repeated s s1 st)
  then show ?thesis using saved(1) by simp
next
  case (written s s1 st prev st2)
  let ?dir = "cs_workspace s'"
  have nonempty: "?dir \<noteq> []" using place(2) by (simp add: workspace_ok_def)
  have ws: "st = iw_ws w" "cs_workspace s1 = ?dir"
    using written(2) same_dir [OF written(1)] place nonempty by (auto simp: session_workspace_def ensure_workspace_def)
  have run: "write_file (wc_storage (fe_config E)) free ?dir p (sv_content body) (iw_ws w) = (st2, None)"
    using written(4) ws by simp
  have w1: "iw_ws w1 = st2" "iv_files (iw_db w1) = iv_files (iw_db w) @
      [\<lparr>fv_session = sid, fv_path = p, fv_content = sv_content body, fv_revision = current_revision sid p (iv_files (iw_db w)) + 1\<rparr>]"
    using written(5) by simp_all
  have rev: "current_revision sid p (iv_files (iw_db w1)) = fc_revision fc"
    unfolding w1(2) saved(1) by (rule current_revision_append [OF saved(3)])
  have blocked: "\<not> is_blocked_path p" using first by (auto simp: save_session_file_def split: if_splits)
  have "materialized (ws_files st2) ?dir"
  proof -
    let ?lock = "beside ?dir ''.upload.lock''"
    from file_written [OF run] obtain root_dir where
      r: "resolve_path (open_lock ?lock (ws_files (iw_ws w))) ?dir = Some root_dir"
      and eff: "\<forall>q. q \<noteq> ?lock \<longrightarrow> map_of (ws_files st2) q =
        (if q = root_dir @ path_names (unbackslash p) then Some (FileNode (utf8 (sv_content body)))
         else if q \<noteq> [] \<and> strict_prefix q (root_dir @ path_names (unbackslash p)) then Some DirNode
         else map_of (ws_files (iw_ws w)) q)"
      and parts: "path_names (unbackslash p) \<noteq> []" by blast
    have "clean (open_lock ?lock (ws_files (iw_ws w))) ?dir"
      using workspace_ok_lock [OF place(2)] by (simp add: workspace_ok_def)
    then have root: "root_dir = ?dir" using r resolve_stays by fastforce
    have "?dir \<noteq> ?lock" using nonempty by (cases ?dir rule: rev_cases) (auto simp: beside_def)
    then have "map_of (ws_files st2) ?dir = Some DirNode" using eff root parts nonempty by (auto simp: strict_prefix_def)
    moreover have "?dir @ path_names (unbackslash p) \<noteq> ?lock"
      using beside_not_below [OF nonempty, of "''.upload.lock''"] parts by (metis prefixI self_append_conv strict_prefix_def)
    then have "map_of (ws_files st2) (?dir @ path_names (unbackslash p)) = Some (FileNode (utf8 (sv_content body)))"
      using eff root by simp
    then have "(?dir @ path_names (unbackslash p), FileNode (utf8 (sv_content body))) \<in> set (ws_files st2)"
      by (rule map_of_SomeD)
    then have "list_ex (\<lambda>e. strict_prefix ?dir (fst e)) (ws_files st2)"
      using parts by (force simp: list_ex_iff strict_prefix_def)
    ultimately show ?thesis by (simp add: materialized_def)
  qed
  then have mat: "session_workspace E free' s' w1 = (st2, Inr s')"
    using w1 nonempty by (simp add: session_workspace_def ensure_workspace_def)
  have prev: "previous_content E st2 ?dir p = Inr (universal_newlines (sv_content body))"
    using written_reads_back [OF run decoder place(2)] by (simp add: previous_content_def)
  have "sv_base_revision body \<noteq> None \<and> sv_base_revision body \<noteq> Some (fc_revision fc)" using saved by simp
  then show ?thesis
    using blocked again mat prev rev unfolding save_session_file_def Let_def by simp
qed

theorem repeated_save_witness:
  "snd (demo_save ''a.py'' ''A'' 1 demo_world_a) = Inr \<lparr>fc_path = ''a.py'', fc_content = ''A'', fc_revision = 2\<rparr>"
proof -
  have rev: "current_revision 7 ''a.py'' (iv_files (iw_db demo_world)) = 1"
    by (simp add: demo_world_def current_revision_def rows_for_def)
  have ok: "revisions_ok (iv_files (iw_db demo_world))" by (simp add: demo_world_def revisions_ok_def rows_for_def)
  have ed: "editable demo_clk 7 5 None (iw_db demo_world_a) = Inr demo_session"
    "editable demo_clk 7 5 None (iw_db demo_world) = Inr demo_session"
    by (rule demo_editable, simp add: demo_world_a_def demo_world_def demo_session_def)+
  have m: "measure_workspace demo_files [''ws'', ''s1''] = (8, 1)" "distinct (map fst demo_files)"
    "\<not> is_symlink demo_files [''ws'']" "\<not> is_symlink demo_files [''ws'', ''s1'']" "list_all proper_name [''ws'', ''s1'']"
    "(8::int) \<le> source_bytes_limit" "(1::int) \<le> source_files_limit" "''s1'' \<noteq> reservation_key"
    "materialized demo_files [''ws'', ''s1'']" "universal_newlines ''A'' = ''A''"
    by code_simp+
  then have "workspace_ok [''ws'', ''s1''] (iw_ws demo_world)"
    by (auto simp: workspace_ok_def demo_world_def demo_state_def ledger_knows_def empty_ledger_def clean_def less_Suc_eq numeral_2_eq_2)
  then show ?thesis
    using repeated_save [OF demo_save_a _ _ ok _ ed(1), of 5000] rev ed(2) m utf8_decode_utf8
    by (simp add: demo_world_def demo_state_def)
qed

end
