(* ===== verification/ObjectStore.thy ===== *)
theory ObjectStore
  imports WorkspaceFiles GradingQueue
begin

text \<open>
  The durable store of submissions (\<open>backend/app/services/interview/object_store.py\<close>): the keys, the
  store on the local file system, and the client of the managed one with its retries. A store is
  used through \<open>put\<close> and \<open>get\<close>; the locale \<open>object_store\<close> states what they promise, and the
  local store is an instance of it.
\<close>

section \<open>Keys\<close>

datatype store_exc = ObjectNotFound | ObjectTooLarge | StoreFailure | BadValue | StoreOsError

definition manifest_name :: string where
  "manifest_name = ''manifest.json''"

definition control_char :: "char \<Rightarrow> bool" where
  "control_char c \<longleftrightarrow> (of_char c :: nat) < 32 \<or> (of_char c :: nat) = 127"

text \<open>\<open>PurePosixPath(raw)\<close>: its anchor, and its text.\<close>

definition posix_anchor :: "string \<Rightarrow> string" where
  "posix_anchor raw =
     (if prefix ''//'' raw \<and> \<not> prefix ''///'' raw then ''//'' else if prefix ''/'' raw then ''/'' else [])"

definition posix_text :: "string \<Rightarrow> string" where
  "posix_text raw =
     (if posix_anchor raw = [] \<and> path_names raw = [] then ''.'' else posix_anchor raw @ join ''/'' (path_names raw))"

definition normalize_rel_path :: "string \<Rightarrow> store_exc + string" where
  "normalize_rel_path rel_path =
     (let raw = unbackslash rel_path in
      if raw = [] \<or> raw \<noteq> posix_text raw \<or> posix_anchor raw \<noteq> [] \<or>
         list_ex (\<lambda>part. part \<in> {[], ''.'', ''..''}) (path_names raw) \<or> list_ex control_char raw
      then Inl BadValue
      else Inr (posix_text raw))"

text \<open>\<open>submission_prefix\<close> raises only \<open>ValueError\<close>.\<close>

definition prefix_of :: "string \<Rightarrow> string \<Rightarrow> store_exc + string" where
  "prefix_of session_id source_digest =
     (case submission_prefix session_id source_digest of Inl _ \<Rightarrow> Inl BadValue | Inr p \<Rightarrow> Inr p)"

definition submission_key :: "string \<Rightarrow> string \<Rightarrow> string \<Rightarrow> store_exc + string" where
  "submission_key session_id source_digest rel_path =
     bind (prefix_of session_id source_digest) (\<lambda>p.
     bind (normalize_rel_path rel_path) (\<lambda>r. Inr (p @ ''/'' @ r)))"

definition manifest_key :: "string \<Rightarrow> string \<Rightarrow> store_exc + string" where
  "manifest_key session_id source_digest =
     bind (prefix_of session_id source_digest) (\<lambda>p. Inr (p @ ''/'' @ manifest_name))"

definition max_key_bytes :: nat where
  "max_key_bytes = 1024"

definition valid_key :: "string \<Rightarrow> bool" where
  "valid_key raw \<longleftrightarrow>
     \<not> (raw = [] \<or> prefix ''/'' raw \<or> Sublist.suffix ''/'' raw \<or> str_in ''//'' raw \<or> CHR 0x5C \<in> set raw \<or>
        length (utf8 raw) > max_key_bytes \<or>
        list_ex (\<lambda>part. part \<in> {[], ''.'', ''..''}) (split_on CHR ''/'' raw) \<or> list_ex control_char raw)"

definition check_size :: "int \<Rightarrow> string \<Rightarrow> bool" where
  "check_size max_object_bytes payload \<longleftrightarrow> \<not> (max_object_bytes \<noteq> 0 \<and> int (length payload) > max_object_bytes)"

section \<open>The local store\<close>

definition key_path :: "path \<Rightarrow> string \<Rightarrow> path" where
  "key_path root_dir key = root_dir @ split_on CHR ''/'' key"

definition local_put :: "int \<Rightarrow> path \<Rightarrow> files \<Rightarrow> string \<Rightarrow> string \<Rightarrow> store_exc + files" where
  "local_put max_bytes root_dir fs key payload =
     (if \<not> valid_key key then Inl BadValue
      else if \<not> check_size max_bytes payload then Inl ObjectTooLarge
      else case make_dirs fs [] (butlast (key_path root_dir key)) of
          None \<Rightarrow> Inl StoreOsError
        | Some fs' \<Rightarrow>
            if map_of fs' (key_path root_dir key) = Some DirNode then Inl StoreOsError
            else Inr (put_node (key_path root_dir key) (FileNode payload) fs'))"

definition local_get :: "path \<Rightarrow> files \<Rightarrow> string \<Rightarrow> store_exc + string" where
  "local_get root_dir fs key =
     (if \<not> valid_key key then Inl BadValue
      else case map_of fs (key_path root_dir key) of
          Some (FileNode b) \<Rightarrow> Inr b
        | None \<Rightarrow> Inl ObjectNotFound
        | _ \<Rightarrow> Inl StoreOsError)"

definition local_exists :: "path \<Rightarrow> files \<Rightarrow> string \<Rightarrow> store_exc + bool" where
  "local_exists root_dir fs key =
     (if \<not> valid_key key then Inl BadValue else Inr (file_at fs (key_path root_dir key) \<noteq> None))"

definition local_delete_prefix :: "path \<Rightarrow> files \<Rightarrow> string \<Rightarrow> store_exc + files \<times> nat" where
  "local_delete_prefix root_dir fs key =
     (if \<not> valid_key key then Inl BadValue
      else
        (let base = key_path root_dir key in
         case map_of fs base of
           None \<Rightarrow> Inr (fs, 0)
         | Some (FileNode _) \<Rightarrow> Inr (filter (\<lambda>e. fst e \<noteq> base) fs, 1)
         | Some _ \<Rightarrow>
             Inr (filter (\<lambda>e. \<not> prefix base (fst e)) fs,
                  length (filter (\<lambda>e. prefix base (fst e) \<and> (case snd e of FileNode _ \<Rightarrow> True | _ \<Rightarrow> False)) fs))))"

section \<open>The managed store\<close>

text \<open>What the transport answers to one request.\<close>

datatype answer = TransportError | Response nat string

definition retry_statuses :: "nat list" where
  "retry_statuses = [408, 425, 429, 500, 502, 503, 504]"

text \<open>
  \<open>_request\<close>: \<open>transport attempt\<close> is the answer to the attempt with this number; the pauses between
  the attempts are left out. The second component counts the requests that were sent.
\<close>

function request_from :: "nat \<Rightarrow> (nat \<Rightarrow> answer) \<Rightarrow> nat \<Rightarrow> (store_exc + nat \<times> string) \<times> nat" where
  "request_from retries transport attempt =
     (let last_try = attempt + 1 \<ge> retries in
      case transport attempt of
        TransportError \<Rightarrow>
          if last_try then (Inl StoreFailure, 1)
          else (let (r, n) = request_from retries transport (attempt + 1) in (r, n + 1))
      | Response status body \<Rightarrow>
          if status \<notin> set retry_statuses \<or> last_try then (Inr (status, body), 1)
          else (let (r, n) = request_from retries transport (attempt + 1) in (r, n + 1)))"
  by pat_completeness auto
termination
  by (relation "measure (\<lambda>(retries, _, attempt). retries - attempt)") auto

declare request_from.simps [simp del]

definition send_request :: "int \<Rightarrow> (nat \<Rightarrow> answer) \<Rightarrow> (store_exc + nat \<times> string) \<times> nat" where
  "send_request retries transport = request_from (nat (max 1 retries)) transport 0"

definition is_missing :: "nat \<Rightarrow> string \<Rightarrow> bool" where
  "is_missing status body =
     (if status = 404 then True
      else if status \<noteq> 400 then False
      else str_in ''not found'' (to_lower body) \<or> str_in (CHR 0x22 # ''404'' @ [CHR 0x22]) (to_lower body) \<or>
           str_in ''nosuchkey'' (to_lower body))"

definition managed_put :: "int \<Rightarrow> int \<Rightarrow> (nat \<Rightarrow> answer) \<Rightarrow> string \<Rightarrow> string \<Rightarrow> store_exc + unit" where
  "managed_put max_bytes retries transport key payload =
     (if \<not> check_size max_bytes payload then Inl ObjectTooLarge
      else if \<not> valid_key key then Inl BadValue
      else bind (fst (send_request retries transport)) (\<lambda>(status, body).
             if status \<notin> {200, 201} then Inl StoreFailure else Inr ()))"

definition managed_get :: "int \<Rightarrow> (nat \<Rightarrow> answer) \<Rightarrow> string \<Rightarrow> store_exc + string" where
  "managed_get retries transport key =
     (if \<not> valid_key key then Inl BadValue
      else bind (fst (send_request retries transport)) (\<lambda>(status, body).
             if is_missing status body then Inl ObjectNotFound
             else if status \<noteq> 200 then Inl StoreFailure
             else Inr body))"

text \<open>\<open>head\<close> and \<open>full\<close> are the transport for the HEAD request and for the read it may fall back to.\<close>

definition managed_exists :: "int \<Rightarrow> (nat \<Rightarrow> answer) \<Rightarrow> (nat \<Rightarrow> answer) \<Rightarrow> string \<Rightarrow> store_exc + bool" where
  "managed_exists retries head full key =
     (if \<not> valid_key key then Inl BadValue
      else bind (fst (send_request retries head)) (\<lambda>(status, body).
             if status \<in> {200, 204} then Inr True
             else if is_missing status body then Inr False
             else if status \<in> {400, 405}
             then (case managed_get retries full key of
                     Inr _ \<Rightarrow> Inr True
                   | Inl ObjectNotFound \<Rightarrow> Inr False
                   | Inl e \<Rightarrow> Inl e)
             else Inl StoreFailure))"

section \<open>What a store promises\<close>

locale object_store =
  fixes put :: "'s \<Rightarrow> string \<Rightarrow> string \<Rightarrow> store_exc + 's"
    and get :: "'s \<Rightarrow> string \<Rightarrow> store_exc + string"
  assumes get_put: "put s k d = Inr s' \<Longrightarrow> get s' k = Inr d"
    and get_kept: "put s k d = Inr s' \<Longrightarrow> get s k' = Inr d' \<Longrightarrow> k' \<noteq> k \<Longrightarrow> get s' k' = Inr d'"
    and get_new: "put s k d = Inr s' \<Longrightarrow> get s' k' = Inr d' \<Longrightarrow> k' \<noteq> k \<Longrightarrow> get s k' = Inr d'"

lemma make_dirs_old:
  "make_dirs fs current parts = Some fs' \<Longrightarrow> strict_prefix current q \<Longrightarrow> prefix q (current @ parts) \<Longrightarrow>
   map_of fs q = None \<or> map_of fs q = Some DirNode"
proof (induction parts arbitrary: fs current)
  case Nil
  then have "prefix q current" by simp
  then show ?case using Nil.prems(2) by (meson prefix_order.less_le_not_le)
next
  case (Cons part parts)
  let ?next = "current @ [part]"
  show ?case
  proof (cases "q = ?next")
    case True
    then show ?thesis using Cons.prems(1) by (auto simp: Let_def split: option.splits node.splits)
  next
    case False
    from Cons.prems(2) obtain z zs where "q = current @ z # zs" by (rule strict_prefixE')
    then have "z = part" "zs \<noteq> []" using Cons.prems(3) False by auto
    then have q: "strict_prefix ?next q" "prefix q (?next @ parts)"
      using \<open>q = current @ z # zs\<close> Cons.prems(3) by (auto simp: strict_prefix_def)
    show ?thesis
    proof (cases "map_of fs ?next")
      case None
      then have "make_dirs (put_node ?next DirNode fs) ?next parts = Some fs'" using Cons.prems(1) by (simp add: Let_def)
      from Cons.IH [OF this q] show ?thesis using False by simp
    next
      case (Some nd)
      then have "make_dirs fs ?next parts = Some fs'" using Cons.prems(1) by (simp add: Let_def split: node.splits)
      from Cons.IH [OF this q] show ?thesis .
    qed
  qed
qed

lemma split_on_inject: "split_on sep s = split_on sep t \<Longrightarrow> s = t"
proof (induction s arbitrary: t)
  case Nil
  then show ?case
  proof (cases t)
    case (Cons d u)
    obtain w ws where "split_on sep u = w # ws" by (cases "split_on sep u") simp_all
    then show ?thesis using Nil.prems Cons by (auto split: if_splits)
  qed simp
next
  case (Cons c s)
  obtain v vs where s: "split_on sep s = v # vs" by (cases "split_on sep s") simp_all
  show ?case
  proof (cases t)
    case Nil
    then show ?thesis using Cons.prems s by (auto split: if_splits)
  next
    case (Cons d u)
    obtain w ws where u: "split_on sep u = w # ws" by (cases "split_on sep u") simp_all
    then show ?thesis using Cons.prems Cons.IH [of u] s Cons by (auto split: if_splits)
  qed
qed

lemma key_path_inject: "key_path r k = key_path r k' \<longleftrightarrow> k = k'"
  by (auto simp: key_path_def dest: split_on_inject)

lemma local_put_InrD:
  assumes "local_put m r fs k d = Inr fs'"
  shows "valid_key k" "map_of fs' q = (if q = key_path r k then Some (FileNode d)
      else if q \<noteq> [] \<and> prefix q (butlast (key_path r k)) then Some DirNode else map_of fs q)"
    "q \<noteq> [] \<Longrightarrow> prefix q (butlast (key_path r k)) \<Longrightarrow> map_of fs q = None \<or> map_of fs q = Some DirNode"
proof -
  from assms obtain fs1 where "valid_key k" and dirs: "make_dirs fs [] (butlast (key_path r k)) = Some fs1"
    and fs': "fs' = put_node (key_path r k) (FileNode d) fs1"
    by (auto simp: local_put_def split: if_splits option.splits)
  then show "valid_key k" by simp
  have "strict_prefix [] q \<longleftrightarrow> q \<noteq> []" by (auto simp: strict_prefix_def)
  then show "map_of fs' q = (if q = key_path r k then Some (FileNode d)
      else if q \<noteq> [] \<and> prefix q (butlast (key_path r k)) then Some DirNode else map_of fs q)"
    using make_dirs_SomeD [OF dirs] unfolding fs' by simp
  show "q \<noteq> [] \<Longrightarrow> prefix q (butlast (key_path r k)) \<Longrightarrow> map_of fs q = None \<or> map_of fs q = Some DirNode"
    using make_dirs_old [OF dirs, of q] by (auto simp: strict_prefix_def)
qed

lemma local_get_Inr: "local_get r fs k = Inr d \<longleftrightarrow> valid_key k \<and> map_of fs (key_path r k) = Some (FileNode d)"
  by (auto simp: local_get_def split: option.splits node.splits)

interpretation local_store: object_store "local_put m r" "local_get r" for m r
proof
  fix s k d s'
  assume put: "local_put m r s k d = Inr s'"
  note p = local_put_InrD [OF put]
  show "local_get r s' k = Inr d" using p(1,2) by (simp add: local_get_Inr)
  fix k' d'
  assume other: "k' \<noteq> k"
  then have ne: "key_path r k' \<noteq> key_path r k" by (simp add: key_path_inject)
  have full: "key_path r k' \<noteq> []" by (simp add: key_path_def)
  show "local_get r s k' = Inr d' \<Longrightarrow> local_get r s' k' = Inr d'"
    using p(2,3) [of "key_path r k'"] ne full by (auto simp: local_get_Inr split: if_splits)
  show "local_get r s' k' = Inr d' \<Longrightarrow> local_get r s k' = Inr d'"
    using p(2) [of "key_path r k'"] ne by (auto simp: local_get_Inr split: if_splits)
qed

section \<open>Retries\<close>

definition invites_retry :: "answer \<Rightarrow> bool" where
  "invites_retry a \<longleftrightarrow> (case a of TransportError \<Rightarrow> True | Response status _ \<Rightarrow> status \<in> set retry_statuses)"

text \<open>What a run of \<open>n\<close> requests from an attempt on is like.\<close>

definition answered :: "nat \<Rightarrow> (nat \<Rightarrow> answer) \<Rightarrow> nat \<Rightarrow> store_exc + nat \<times> string \<Rightarrow> nat \<Rightarrow> bool" where
  "answered retries transport attempt r n \<longleftrightarrow>
     1 \<le> n \<and> attempt + n \<le> retries \<and> (\<forall>k < n - 1. invites_retry (transport (attempt + k))) \<and>
     (case r of
        Inr (status, body) \<Rightarrow> transport (attempt + n - 1) = Response status body \<and> (status \<in> set retry_statuses \<longrightarrow> attempt + n = retries)
      | Inl e \<Rightarrow> e = StoreFailure \<and> transport (attempt + n - 1) = TransportError \<and> attempt + n = retries)"

lemma answered_again:
  assumes "answered retries transport (Suc attempt) r n" "invites_retry (transport attempt)"
  shows "answered retries transport attempt r (Suc n)"
proof -
  have "invites_retry (transport (attempt + k))" if "k < n" for k
  proof (cases k)
    case 0
    then show ?thesis using assms(2) by simp
  next
    case (Suc m)
    then show ?thesis using assms(1) that by (auto simp: answered_def dest!: spec [where x = m])
  qed
  moreover have shift: "attempt + Suc n = Suc attempt + n" by simp
  ultimately show ?thesis using assms(1) unfolding answered_def shift by simp
qed

lemma request_from_answered:
  "attempt < retries \<Longrightarrow> request_from retries transport attempt = (r, n) \<Longrightarrow> answered retries transport attempt r n"
proof (induction retries transport attempt arbitrary: r n rule: request_from.induct)
  case (1 retries transport attempt)
  obtain r' n' where rec: "request_from retries transport (Suc attempt) = (r', n')" by fastforce
  note eq = request_from.simps [of retries transport attempt]
  show ?case
  proof (cases "invites_retry (transport attempt) \<and> Suc attempt < retries")
    case True
    have ih: "answered retries transport (Suc attempt) r' n'"
    proof (cases "transport attempt")
      case TransportError
      then show ?thesis using "1.IH"(1) [of False r' n'] True rec by simp
    next
      case (Response status body)
      then show ?thesis using "1.IH"(2) [of False status body r' n'] True rec by (simp add: invites_retry_def)
    qed
    have "r = r' \<and> n = Suc n'"
      using "1.prems"(2) True rec unfolding eq by (auto simp: invites_retry_def split: answer.splits)
    then show ?thesis using answered_again [OF ih] True by simp
  next
    case False
    then show ?thesis
      using "1.prems" unfolding eq by (auto simp: invites_retry_def answered_def split: answer.splits if_splits)
  qed
qed

text \<open>
  A request to the managed store is sent at least once and at most as often as configured; it is
  repeated only after a transport error or a status that invites a retry, and what is returned is the
  last answer: a transport error is reported only when the attempts are used up.
\<close>

theorem requests_bounded:
  "case send_request retries transport of (r, n) \<Rightarrow>
     1 \<le> n \<and> int n \<le> max 1 retries \<and>
     list_all (\<lambda>k. invites_retry (transport k)) [0..<n - 1] \<and>
     (case r of
        Inr (status, body) \<Rightarrow> transport (n - 1) = Response status body \<and> (status \<notin> set retry_statuses \<or> int n = max 1 retries)
      | Inl e \<Rightarrow> e = StoreFailure \<and> transport (n - 1) = TransportError \<and> int n = max 1 retries)"
proof -
  obtain r n where run: "send_request retries transport = (r, n)" by fastforce
  have "0 < nat (max 1 retries)" by simp
  from request_from_answered [OF this] run have a: "answered (nat (max 1 retries)) transport 0 r n"
    by (simp add: send_request_def)
  show ?thesis
  proof (cases r)
    case (Inl e)
    then show ?thesis using a run by (auto simp: answered_def list_all_iff)
  next
    case (Inr sb)
    then show ?thesis using a run by (cases sb) (auto simp: answered_def list_all_iff)
  qed
qed

end
