(* ===== verification/SubmissionStore.thy ===== *)
theory SubmissionStore
  imports ObjectStore
begin

text \<open>
  Submissions (\<open>backend/app/services/interview/snapshot.py\<close>, \<open>workspace_store.py\<close>): the manifest of a
  source tree, its verification, the upload of a submission to an object store, whose last step is the
  commit marker, and the download that the graders use. The digest function and \<open>json.loads\<close> on the
  bytes of a marker are arguments; the store is its \<open>put\<close> and \<open>get\<close>.
\<close>

section \<open>The manifest of a source tree\<close>

record manifest_row =
  mr_path :: string
  mr_sha256 :: string
  mr_size :: int

text \<open>\<open>json.dumps(manifest, sort_keys=True)\<close>, with the separators of an item and of a key.\<close>

definition manifest_text :: "string \<Rightarrow> string \<Rightarrow> manifest_row list \<Rightarrow> string" where
  "manifest_text sep colon rows =
     ''['' @ join sep (map (\<lambda>r. ''{'' @ join sep
        [quoted ''path'' @ colon @ quoted (mr_path r), quoted ''sha256'' @ colon @ quoted (mr_sha256 r),
         quoted ''size'' @ colon @ show_int (mr_size r)] @ ''}'') rows) @ '']''"

definition manifest_digest :: "(string \<Rightarrow> string) \<Rightarrow> manifest_row list \<Rightarrow> string" where
  "manifest_digest sha manifest = sha (manifest_text '','' '':'' manifest)"

text \<open>
  \<open>_source_files\<close>: the items the walk meets, which does not enter the skipped directories. A link to
  a directory is met among the directories, another link among the files.
\<close>

definition walked :: "path \<Rightarrow> path \<Rightarrow> bool" where
  "walked root_dir p \<longleftrightarrow>
     strict_prefix root_dir p \<and>
     list_all (\<lambda>part. part \<notin> set skip_dir_names) (butlast (drop (length root_dir) p))"

definition rel_name :: "path \<Rightarrow> path \<Rightarrow> string" where
  "rel_name root_dir p = as_posix (drop (length root_dir) p)"

definition is_dir :: "files \<Rightarrow> path \<Rightarrow> bool" where
  "is_dir fs p = (case resolve_path fs p of None \<Rightarrow> False | Some q \<Rightarrow> q = [] \<or> map_of fs q = Some DirNode)"

text \<open>\<open>p.is_symlink()\<close> of a path that need not be physical.\<close>

definition link_at :: "files \<Rightarrow> path \<Rightarrow> bool" where
  "link_at fs p \<longleftrightarrow>
     p \<noteq> [] \<and> (case resolve_path fs (butlast p) of None \<Rightarrow> False | Some q \<Rightarrow> is_symlink fs (q @ [last p]))"

definition refused_item :: "files \<Rightarrow> path \<Rightarrow> path \<times> node \<Rightarrow> bool" where
  "refused_item fs root_dir e \<longleftrightarrow>
     (case e of (p, LinkNode _ _) \<Rightarrow>
        walked root_dir p \<and>
        (if is_dir fs p then last p \<notin> set skip_dir_names else \<not> is_blocked_path (rel_name root_dir p))
      | _ \<Rightarrow> False)"

definition source_item :: "path \<Rightarrow> path \<times> node \<Rightarrow> (string \<times> string) list" where
  "source_item root_dir e =
     (case e of (p, FileNode b) \<Rightarrow>
        if walked root_dir p \<and> \<not> is_blocked_path (rel_name root_dir p) then [(rel_name root_dir p, b)] else []
      | _ \<Rightarrow> [])"

definition source_files :: "files \<Rightarrow> path \<Rightarrow> store_exc + (string \<times> string) list" where
  "source_files fs root_dir =
     (if link_at fs root_dir \<or> \<not> is_dir fs root_dir then Inl BadValue
      else if list_ex (refused_item fs root_dir) fs then Inl BadValue
      else Inr (concat (map (source_item root_dir) fs)))"

definition manifest_row_of :: "(string \<Rightarrow> string) \<Rightarrow> string \<times> string \<Rightarrow> manifest_row" where
  "manifest_row_of sha item = \<lparr>mr_path = fst item, mr_sha256 = sha (snd item), mr_size = int (length (snd item))\<rparr>"

definition source_manifest :: "(string \<Rightarrow> string) \<Rightarrow> files \<Rightarrow> path \<Rightarrow> store_exc + manifest_row list" where
  "source_manifest sha fs root_dir =
     bind (source_files fs root_dir) (\<lambda>items.
       if list_ex (\<lambda>item. int (length (snd item)) > max_file_bytes) items then Inl BadValue
       else if sum_list (map (int \<circ> length \<circ> snd) items) > source_bytes_limit \<or>
               int (length items) > source_files_limit then Inl BadValue
       else Inr (sort_key mr_path (map (manifest_row_of sha) items)))"

definition valid_digest :: "string \<Rightarrow> bool" where
  "valid_digest d \<longleftrightarrow> length d = 64 \<and> list_all (\<lambda>c. c \<in> set ''0123456789abcdef'') d"

definition verify_snapshot :: "(string \<Rightarrow> string) \<Rightarrow> files \<Rightarrow> path \<Rightarrow> string \<Rightarrow> store_exc + manifest_row list" where
  "verify_snapshot sha fs source_path source_digest =
     (if \<not> valid_digest source_digest \<or> source_path = [] \<or> last source_path \<noteq> ''source'' \<or>
         butlast source_path = [] \<or> last (butlast source_path) \<noteq> source_digest
      then Inl BadValue
      else bind (source_manifest sha fs source_path) (\<lambda>actual.
             if actual = [] \<or> manifest_digest sha actual \<noteq> source_digest then Inl BadValue else Inr actual))"

section \<open>Upload\<close>

definition sorted_manifest :: "manifest_row list \<Rightarrow> store_exc + manifest_row list" where
  "sorted_manifest rows = (if rows = [] then Inl BadValue else Inr (sort_key mr_path rows))"

definition row_matches :: "(string \<Rightarrow> string) \<Rightarrow> manifest_row \<Rightarrow> string \<Rightarrow> bool" where
  "row_matches sha item data \<longleftrightarrow> int (length data) = mr_size item \<and> sha data = mr_sha256 item"

fun verified_rows ::
  "(string \<Rightarrow> string) \<Rightarrow> (string \<Rightarrow> store_exc + string) \<Rightarrow> string \<Rightarrow> string \<Rightarrow> manifest_row list \<Rightarrow> store_exc + bool" where
  "verified_rows sha get session_id source_digest [] = Inr True"
| "verified_rows sha get session_id source_digest (item # items) =
     bind (submission_key session_id source_digest (mr_path item)) (\<lambda>key.
       case get key of
         Inl ObjectNotFound \<Rightarrow> Inr False
       | Inl e \<Rightarrow> Inl e
       | Inr data \<Rightarrow>
           if \<not> row_matches sha item data then Inr False
           else verified_rows sha get session_id source_digest items)"

text \<open>\<open>loads raw\<close> gives the rows the bytes of a marker hold, \<open>None\<close> where the code gets a \<open>ValueError\<close>.\<close>

definition committed_manifest ::
  "(string \<Rightarrow> string) \<Rightarrow> (string \<Rightarrow> manifest_row list option) \<Rightarrow> (string \<Rightarrow> store_exc + string) \<Rightarrow> string \<Rightarrow> string \<Rightarrow>
    store_exc + manifest_row list option" where
  "committed_manifest sha loads get session_id source_digest =
     bind (manifest_key session_id source_digest) (\<lambda>key.
       case get key of
         Inl ObjectNotFound \<Rightarrow> Inr None
       | Inl e \<Rightarrow> Inl e
       | Inr raw \<Rightarrow>
           (case loads raw of
              None \<Rightarrow> Inr None
            | Some found \<Rightarrow>
                (case sorted_manifest found of
                   Inl _ \<Rightarrow> Inr None
                 | Inr manifest \<Rightarrow>
                     Inr (if manifest_digest sha manifest = source_digest then Some manifest else None))))"

definition read_bytes :: "files \<Rightarrow> path \<Rightarrow> store_exc + string" where
  "read_bytes fs p =
     (case resolve_path fs p of
        None \<Rightarrow> Inl StoreOsError
      | Some q \<Rightarrow> (case file_at fs q of None \<Rightarrow> Inl StoreOsError | Some b \<Rightarrow> Inr b))"

text \<open>What an item of the manifest uploads: its key and its bytes.\<close>

definition upload_item ::
  "(string \<Rightarrow> string) \<Rightarrow> string \<Rightarrow> string \<Rightarrow> files \<Rightarrow> path \<Rightarrow> manifest_row \<Rightarrow> store_exc + string \<times> string" where
  "upload_item sha session_id source_digest fs src_dir item =
     bind (normalize_rel_path (mr_path item)) (\<lambda>rel.
     bind (read_bytes fs (src_dir @ path_names rel)) (\<lambda>data.
       if \<not> row_matches sha item data then Inl BadValue
       else bind (submission_key session_id source_digest rel) (\<lambda>key. Inr (key, data))))"

text \<open>Whether the bytes are there already.\<close>

definition already_stored :: "('s \<Rightarrow> string \<Rightarrow> store_exc + string) \<Rightarrow> 's \<Rightarrow> string \<Rightarrow> string \<Rightarrow> store_exc + bool" where
  "already_stored get s key data =
     (case get s key of Inr d \<Rightarrow> Inr (d = data) | Inl ObjectNotFound \<Rightarrow> Inr False | Inl e \<Rightarrow> Inl e)"

fun upload_rows ::
  "('s \<Rightarrow> string \<Rightarrow> string \<Rightarrow> store_exc + 's) \<Rightarrow> ('s \<Rightarrow> string \<Rightarrow> store_exc + string) \<Rightarrow>
    (manifest_row \<Rightarrow> store_exc + string \<times> string) \<Rightarrow> manifest_row list \<Rightarrow> 's \<Rightarrow> 's \<times> store_exc option" where
  "upload_rows put get upload [] s = (s, None)"
| "upload_rows put get upload (item # items) s =
     (case upload item of
        Inl e \<Rightarrow> (s, Some e)
      | Inr (key, data) \<Rightarrow>
          (case already_stored get s key data of
             Inl e \<Rightarrow> (s, Some e)
           | Inr True \<Rightarrow> upload_rows put get upload items s
           | Inr False \<Rightarrow>
               (case put s key data of
                  Inl e \<Rightarrow> (s, Some e)
                | Inr s' \<Rightarrow> upload_rows put get upload items s')))"

text \<open>
  \<open>persist_submission\<close>: the store afterwards, with what a failed upload left in it, and the exception
  or the prefix.
\<close>

definition commit_upload ::
  "('s \<Rightarrow> string \<Rightarrow> string \<Rightarrow> store_exc + 's) \<Rightarrow> ('s \<Rightarrow> string \<Rightarrow> store_exc + string) \<Rightarrow>
    (manifest_row \<Rightarrow> store_exc + string \<times> string) \<Rightarrow> string \<Rightarrow> string \<Rightarrow> manifest_row list \<Rightarrow> 's \<Rightarrow>
    's \<times> (store_exc + string)" where
  "commit_upload put get upload session_id source_digest rows s =
     (case upload_rows put get upload rows s of
        (s1, Some e) \<Rightarrow> (s1, Inl e)
      | (s1, None) \<Rightarrow>
          (case bind (manifest_key session_id source_digest) (\<lambda>key. put s1 key (manifest_text '', '' '': '' rows)) of
             Inl e \<Rightarrow> (s1, Inl e)
           | Inr s2 \<Rightarrow> (s2, prefix_of session_id source_digest)))"

definition persist_submission ::
  "(string \<Rightarrow> string) \<Rightarrow> (string \<Rightarrow> manifest_row list option) \<Rightarrow>
    ('s \<Rightarrow> string \<Rightarrow> string \<Rightarrow> store_exc + 's) \<Rightarrow> ('s \<Rightarrow> string \<Rightarrow> store_exc + string) \<Rightarrow>
    string \<Rightarrow> string \<Rightarrow> manifest_row list \<Rightarrow> files \<Rightarrow> path \<Rightarrow> 's \<Rightarrow> 's \<times> (store_exc + string)" where
  "persist_submission sha loads put get session_id source_digest manifest fs src_dir s =
     (case sorted_manifest manifest of
        Inl e \<Rightarrow> (s, Inl e)
      | Inr rows \<Rightarrow>
          if manifest_digest sha rows \<noteq> source_digest then (s, Inl BadValue)
          else
            (case bind (committed_manifest sha loads (get s) session_id source_digest) (\<lambda>found.
                    if found = None then Inr False
                    else verified_rows sha (get s) session_id source_digest rows) of
               Inl e \<Rightarrow> (s, Inl e)
             | Inr True \<Rightarrow> (s, prefix_of session_id source_digest)
             | Inr False \<Rightarrow>
                 commit_upload put get (upload_item sha session_id source_digest fs src_dir)
                   session_id source_digest rows s))"

section \<open>Download\<close>

fun fetch_rows ::
  "(string \<Rightarrow> string) \<Rightarrow> (string \<Rightarrow> store_exc + string) \<Rightarrow> string \<Rightarrow> string \<Rightarrow> manifest_row list \<Rightarrow>
    store_exc + (string \<times> string) list" where
  "fetch_rows sha get session_id source_digest [] = Inr []"
| "fetch_rows sha get session_id source_digest (item # items) =
     bind (normalize_rel_path (mr_path item)) (\<lambda>rel.
     bind (submission_key session_id source_digest rel) (\<lambda>key.
       case get key of
         Inl ObjectNotFound \<Rightarrow> Inl BadValue
       | Inl e \<Rightarrow> Inl e
       | Inr data \<Rightarrow>
           if \<not> row_matches sha item data then Inl BadValue
           else bind (fetch_rows sha get session_id source_digest items) (\<lambda>rest. Inr ((rel, data) # rest))))"

text \<open>The rows of the submission and their verified bytes.\<close>

definition fetch_contents ::
  "(string \<Rightarrow> string) \<Rightarrow> (string \<Rightarrow> manifest_row list option) \<Rightarrow> (string \<Rightarrow> store_exc + string) \<Rightarrow>
    string \<Rightarrow> string \<Rightarrow> manifest_row list \<Rightarrow> store_exc + (string \<times> string) list" where
  "fetch_contents sha loads get session_id source_digest manifest =
     bind (if manifest \<noteq> [] then bind (sorted_manifest manifest) (\<lambda>rows. Inr (Some rows))
           else committed_manifest sha loads get session_id source_digest) (\<lambda>found.
       case found of
         None \<Rightarrow> Inl BadValue
       | Some rows \<Rightarrow>
           if manifest_digest sha rows \<noteq> source_digest then Inl BadValue
           else fetch_rows sha get session_id source_digest rows)"

definition contained_target :: "files \<Rightarrow> path \<Rightarrow> string \<Rightarrow> store_exc + path" where
  "contained_target fs root_dir rel_path =
     bind (normalize_rel_path rel_path) (\<lambda>rel.
       if is_blocked_path rel then Inl BadValue
       else case resolve_path fs root_dir of
           None \<Rightarrow> Inl StoreOsError
         | Some base \<Rightarrow>
             (case resolve_path fs (base @ path_names rel) of
                None \<Rightarrow> Inl StoreOsError
              | Some resolved \<Rightarrow> if prefix base resolved then Inr resolved else Inl BadValue))"

fun write_contents :: "path \<Rightarrow> (string \<times> string) list \<Rightarrow> files \<Rightarrow> store_exc + files" where
  "write_contents source [] fs = Inr fs"
| "write_contents source ((rel, data) # rest) fs =
     bind (contained_target fs source rel) (\<lambda>target.
       case make_dirs fs [] (butlast target) of
         None \<Rightarrow> Inl StoreOsError
       | Some fs' \<Rightarrow>
           if map_of fs' target = Some DirNode then Inl StoreOsError
           else write_contents source rest (put_node target (FileNode data) fs'))"

definition fetch_submission ::
  "(string \<Rightarrow> string) \<Rightarrow> (string \<Rightarrow> manifest_row list option) \<Rightarrow> (string \<Rightarrow> store_exc + string) \<Rightarrow>
    string \<Rightarrow> string \<Rightarrow> manifest_row list \<Rightarrow> path \<Rightarrow> files \<Rightarrow> store_exc + files \<times> path" where
  "fetch_submission sha loads get session_id source_digest manifest dest_dir fs =
     (let source = dest_dir @ [source_digest, ''source''] in
      bind (fetch_contents sha loads get session_id source_digest manifest) (\<lambda>contents.
      bind (write_contents source contents fs) (\<lambda>fs'.
      bind (verify_snapshot sha fs' source source_digest) (\<lambda>_. Inr (fs', source)))))"

section \<open>Keys of a submission\<close>

lemma normalize_InrD:
  assumes "normalize_rel_path raw = Inr rel"
  shows "rel = unbackslash raw" "normalize_rel_path rel = Inr rel"
proof -
  have "unbackslash (unbackslash raw) = unbackslash raw" by (simp add: unbackslash_def)
  then show "rel = unbackslash raw" "normalize_rel_path rel = Inr rel"
    using assms by (auto simp: normalize_rel_path_def Let_def split: if_splits)
qed

lemma submission_key_InrE:
  assumes "submission_key session_id source_digest rel_path = Inr key"
  obtains p where "prefix_of session_id source_digest = Inr p"
    "normalize_rel_path rel_path = Inr (unbackslash rel_path)" "key = p @ ''/'' @ unbackslash rel_path"
proof -
  from assms obtain p r where "prefix_of session_id source_digest = Inr p" "normalize_rel_path rel_path = Inr r"
      "key = p @ ''/'' @ r"
    by (auto simp: submission_key_def bind_Inr)
  then show thesis using that normalize_InrD(1) by metis
qed

lemma submission_key_normal:
  "normalize_rel_path raw = Inr rel \<Longrightarrow> submission_key session_id source_digest raw = submission_key session_id source_digest rel"
  using normalize_InrD(2) by (simp add: submission_key_def)

lemma manifest_key_InrD:
  "manifest_key session_id source_digest = Inr key \<Longrightarrow>
   \<exists>p. prefix_of session_id source_digest = Inr p \<and> key = p @ ''/'' @ manifest_name"
  by (auto simp: manifest_key_def bind_Inr)

lemma unbackslash_manifest: "unbackslash raw = manifest_name \<longleftrightarrow> raw = manifest_name"
proof
  assume *: "unbackslash raw = manifest_name"
  have "CHR ''/'' \<notin> set manifest_name" by (simp add: manifest_name_def)
  moreover have "CHR ''/'' \<in> set (unbackslash raw)" if "CHR 0x5C \<in> set raw"
    using that by (force simp: unbackslash_def)
  ultimately have "CHR 0x5C \<notin> set raw" using * by metis
  then have "unbackslash raw = raw" unfolding unbackslash_def by (intro map_idI) auto
  then show "raw = manifest_name" using * by simp
qed (simp add: manifest_name_def unbackslash_def)

lemma key_not_marker:
  assumes "submission_key session_id source_digest raw = Inr key" "manifest_key session_id source_digest = Inr marker"
  shows "key = marker \<longleftrightarrow> raw = manifest_name"
  using assms by (auto elim!: submission_key_InrE dest!: manifest_key_InrD simp: unbackslash_manifest)

lemma upload_item_InrD:
  assumes "upload_item sha session_id source_digest fs src_dir item = Inr (key, data)"
  shows "submission_key session_id source_digest (mr_path item) = Inr key" "row_matches sha item data"
    "read_bytes fs (src_dir @ path_names (unbackslash (mr_path item))) = Inr data"
    "normalize_rel_path (mr_path item) = Inr (unbackslash (mr_path item))"
proof -
  from assms obtain rel where rel: "normalize_rel_path (mr_path item) = Inr rel"
    and rest: "read_bytes fs (src_dir @ path_names rel) = Inr data" "row_matches sha item data"
      "submission_key session_id source_digest rel = Inr key"
    by (auto simp: upload_item_def bind_Inr split: if_splits)
  then show "submission_key session_id source_digest (mr_path item) = Inr key" "row_matches sha item data"
    "read_bytes fs (src_dir @ path_names (unbackslash (mr_path item))) = Inr data"
    "normalize_rel_path (mr_path item) = Inr (unbackslash (mr_path item))"
    using submission_key_normal [OF rel] normalize_InrD(1) [OF rel] by auto
qed

text \<open>Two items with one key upload the same bytes: both read the file the key names.\<close>

lemma upload_item_functional:
  assumes "upload_item sha session_id source_digest fs src_dir i = Inr (key, d)"
    "upload_item sha session_id source_digest fs src_dir j = Inr (key, d')"
  shows "d = d'"
proof -
  have "unbackslash (mr_path i) = unbackslash (mr_path j)"
    using upload_item_InrD(1) [OF assms(1)] upload_item_InrD(1) [OF assms(2)]
    by (auto elim!: submission_key_InrE)
  then show ?thesis using upload_item_InrD(3) [OF assms(1)] upload_item_InrD(3) [OF assms(2)] by simp
qed

section \<open>The upload over any store\<close>

context object_store
begin

lemma upload_rows_ConsE:
  assumes "upload_rows put get upload (item # rows) s = (s', r)"
  obtains (stopped) "s' = s" "r \<noteq> None"
  | (stepped) key data s1 where "upload item = Inr (key, data)" "get s1 key = Inr data"
      "s1 = s \<or> put s key data = Inr s1" "upload_rows put get upload rows s1 = (s', r)"
proof (cases "upload item")
  case (Inl e)
  then show thesis using assms by (intro stopped) auto
next
  case (Inr kd)
  obtain key data where kd: "kd = (key, data)" by fastforce
  show thesis
  proof (cases "already_stored get s key data")
    case (Inl e)
    then show thesis using assms Inr kd by (intro stopped) auto
  next
    case there: (Inr b)
    show thesis
    proof (cases b)
      case True
      then have "get s key = Inr data" using there
        by (auto simp: already_stored_def split: sum.splits store_exc.splits)
      then show thesis using assms Inr kd there True stepped by simp
    next
      case False
      then show thesis
        using assms Inr kd there get_put stopped stepped [OF _ _ disjI2] by (cases "put s key data") auto
    qed
  qed
qed

lemma upload_rows_new:
  "upload_rows put get upload rows s = (s', r) \<Longrightarrow> get s' k = Inr d \<Longrightarrow>
   get s k = Inr d \<or> (\<exists>item \<in> set rows. upload item = Inr (k, d))"
proof (induction rows arbitrary: s)
  case Nil
  then show ?case by simp
next
  case (Cons item rows)
  from Cons.prems(1) show ?case
  proof (cases rule: upload_rows_ConsE)
    case stopped
    then show ?thesis using Cons.prems(2) by simp
  next
    case (stepped key data s1)
    have "get s k = Inr d \<or> k = key \<and> d = data" if "get s1 k = Inr d"
      using that stepped(2,3) get_new by (cases "k = key") auto
    then show ?thesis using Cons.IH [OF stepped(4) Cons.prems(2)] stepped(1) by auto
  qed
qed

lemma upload_rows_kept:
  "upload_rows put get upload rows s = (s', r) \<Longrightarrow> get s k = Inr d \<Longrightarrow>
   (\<And>item d'. item \<in> set rows \<Longrightarrow> upload item = Inr (k, d') \<Longrightarrow> d' = d) \<Longrightarrow> get s' k = Inr d"
proof (induction rows arbitrary: s)
  case Nil
  then show ?case by simp
next
  case (Cons item rows)
  from Cons.prems(1) show ?case
  proof (cases rule: upload_rows_ConsE)
    case stopped
    then show ?thesis using Cons.prems(2) by simp
  next
    case (stepped key data s1)
    have "get s1 k = Inr d"
      using stepped(1-3) Cons.prems(2) Cons.prems(3) [of item data] get_kept by (cases "key = k") auto
    moreover have "d' = d" if "it \<in> set rows" "upload it = Inr (k, d')" for it d'
      using Cons.prems(3) [of it d'] that by simp
    ultimately show ?thesis by (rule Cons.IH [OF stepped(4)])
  qed
qed

lemma upload_rows_done:
  assumes functional: "\<And>i j k d d'. upload i = Inr (k, d) \<Longrightarrow> upload j = Inr (k, d') \<Longrightarrow> d = d'"
  shows "upload_rows put get upload rows s = (s', None) \<Longrightarrow> item \<in> set rows \<Longrightarrow>
    \<exists>k d. upload item = Inr (k, d) \<and> get s' k = Inr d"
proof (induction rows arbitrary: s)
  case Nil
  then show ?case by simp
next
  case (Cons first rows)
  from Cons.prems(1) show ?case
  proof (cases rule: upload_rows_ConsE)
    case stopped
    then show ?thesis by simp
  next
    case (stepped key data s1)
    have "get s' key = Inr data"
      using upload_rows_kept [OF stepped(4,2)] functional [OF _ stepped(1)] by blast
    then show ?thesis using Cons.IH [OF stepped(4)] Cons.prems(2) stepped(1) by auto
  qed
qed

lemma commit_uploadE:
  assumes "commit_upload put get upload session_id source_digest rows s = (s', Inr p)"
  obtains s1 marker where "upload_rows put get upload rows s = (s1, None)"
    "manifest_key session_id source_digest = Inr marker" "put s1 marker (manifest_text '', '' '': '' rows) = Inr s'"
    "prefix_of session_id source_digest = Inr p"
  using assms that by (auto simp: commit_upload_def bind_Inr split: prod.splits option.splits sum.splits)

lemma commit_upload_failed:
  assumes "commit_upload put get upload session_id source_digest rows s = (s', Inl e)"
  shows "\<exists>r. upload_rows put get upload rows s = (s', r)"
proof (cases "upload_rows put get upload rows s")
  case (Pair s1 r)
  have "manifest_key session_id source_digest = Inr marker \<Longrightarrow> prefix_of session_id source_digest \<noteq> Inl e" for marker
    by (auto simp: manifest_key_def bind_Inr)
  then show ?thesis using assms Pair
    by (auto simp: commit_upload_def bind_Inr split: option.splits sum.splits)
qed

lemma upload_then_get:
  assumes up: "upload_rows put get (upload_item sha session_id source_digest fs src_dir) rows s = (s1, None)"
    and marker: "manifest_key session_id source_digest = Inr marker" "put s1 marker text_of = Inr s'"
    and item: "item \<in> set rows" "mr_path item \<noteq> manifest_name"
  obtains key data where "submission_key session_id source_digest (mr_path item) = Inr key" "get s' key = Inr data"
    "row_matches sha item data" "normalize_rel_path (mr_path item) = Inr (unbackslash (mr_path item))"
proof -
  obtain key data where kd: "upload_item sha session_id source_digest fs src_dir item = Inr (key, data)" "get s1 key = Inr data"
    using upload_rows_done [of "upload_item sha session_id source_digest fs src_dir", OF _ up item(1)] upload_item_functional by blast
  note it = upload_item_InrD [OF kd(1)]
  have "key \<noteq> marker" using key_not_marker [OF it(1) marker(1)] item(2) by simp
  then have "get s' key = Inr data" using get_kept [OF marker(2) kd(2)] by simp
  then show thesis using that it by blast
qed

lemma fetch_rows_stored:
  "(\<And>item. item \<in> set rows \<Longrightarrow> \<exists>key data. submission_key session_id source_digest (mr_path item) = Inr key \<and>
      f key = Inr data \<and> row_matches sha item data \<and> normalize_rel_path (mr_path item) = Inr (unbackslash (mr_path item))) \<Longrightarrow>
   \<exists>contents. fetch_rows sha f session_id source_digest rows = Inr contents \<and>
     list_all2 (\<lambda>item (rel, data). rel = unbackslash (mr_path item) \<and> row_matches sha item data) rows contents"
proof (induction rows)
  case Nil
  then show ?case by simp
next
  case (Cons item rows)
  from Cons.prems [of item] obtain key data where it: "submission_key session_id source_digest (mr_path item) = Inr key"
      "f key = Inr data" "row_matches sha item data" and n: "normalize_rel_path (mr_path item) = Inr (unbackslash (mr_path item))"
    by auto
  from Cons obtain contents where "fetch_rows sha f session_id source_digest rows = Inr contents"
      "list_all2 (\<lambda>item (rel, data). rel = unbackslash (mr_path item) \<and> row_matches sha item data) rows contents"
    by auto
  then show ?case using it n submission_key_normal [OF n] by auto
qed

end

lemma verified_rows_Cons:
  "verified_rows sha f session_id source_digest (item # items) = Inr True \<longleftrightarrow>
   (\<exists>key data. submission_key session_id source_digest (mr_path item) = Inr key \<and> f key = Inr data \<and> row_matches sha item data) \<and>
   verified_rows sha f session_id source_digest items = Inr True"
proof (cases "submission_key session_id source_digest (mr_path item)")
  case (Inr key)
  then show ?thesis by (cases "f key") (simp_all split: store_exc.split)
qed simp

lemma committed_manifest_Some:
  "committed_manifest sha loads f session_id source_digest = Inr (Some m) \<longleftrightarrow>
   (\<exists>key raw found. manifest_key session_id source_digest = Inr key \<and> f key = Inr raw \<and> loads raw = Some found \<and>
      sorted_manifest found = Inr m \<and> manifest_digest sha m = source_digest)"
proof (cases "manifest_key session_id source_digest")
  case (Inr key)
  show ?thesis
  proof (cases "f key")
    case (Inl e)
    then show ?thesis using Inr by (cases e) (simp_all add: committed_manifest_def)
  next
    case raw: (Inr raw)
    then show ?thesis using Inr by (auto simp: committed_manifest_def split: option.split sum.split)
  qed
qed (simp add: committed_manifest_def)

text \<open>The rows that an earlier upload left are as good as those of a new one.\<close>

lemma verified_rows_True:
  "verified_rows sha f session_id source_digest rows = Inr True \<Longrightarrow> item \<in> set rows \<Longrightarrow>
   \<exists>key data. submission_key session_id source_digest (mr_path item) = Inr key \<and> f key = Inr data \<and> row_matches sha item data \<and>
     normalize_rel_path (mr_path item) = Inr (unbackslash (mr_path item))"
proof (induction rows)
  case Nil
  then show ?case by simp
next
  case (Cons first rows)
  have "normalize_rel_path (mr_path item) = Inr (unbackslash (mr_path item))"
    if "submission_key session_id source_digest (mr_path item) = Inr key" for item key
    using that by (rule submission_key_InrE)
  then show ?case using Cons unfolding verified_rows_Cons by auto
qed

lemma persist_submissionE:
  assumes "persist_submission sha loads put get session_id source_digest manifest fs src_dir s = (s', r)"
  obtains (same) "s' = s" "\<And>p. r = Inr p \<Longrightarrow> manifest \<noteq> [] \<and> manifest_digest sha (sort_key mr_path manifest) = source_digest \<and>
      (\<exists>m. committed_manifest sha loads (get s) session_id source_digest = Inr (Some m)) \<and>
      verified_rows sha (get s) session_id source_digest (sort_key mr_path manifest) = Inr True"
  | (uploaded) "manifest \<noteq> []" "manifest_digest sha (sort_key mr_path manifest) = source_digest"
      "commit_upload put get (upload_item sha session_id source_digest fs src_dir) session_id source_digest
         (sort_key mr_path manifest) s = (s', r)"
proof (cases "manifest \<noteq> [] \<and> manifest_digest sha (sort_key mr_path manifest) = source_digest")
  case False
  then show thesis using assms same by (auto simp: persist_submission_def sorted_manifest_def split: if_splits)
next
  case True
  let ?rows = "sort_key mr_path manifest"
  let ?old = "bind (committed_manifest sha loads (get s) session_id source_digest)
      (\<lambda>found. if found = None then Inr False else verified_rows sha (get s) session_id source_digest ?rows)"
  have eq: "(s', r) = (case ?old of Inl e \<Rightarrow> (s, Inl e) | Inr True \<Rightarrow> (s, prefix_of session_id source_digest)
      | Inr False \<Rightarrow> commit_upload put get (upload_item sha session_id source_digest fs src_dir) session_id source_digest ?rows s)"
    using assms True by (simp add: persist_submission_def sorted_manifest_def)
  show thesis
  proof (cases ?old)
    case (Inl e)
    then show thesis using eq by (intro same) auto
  next
    case (Inr b)
    show thesis
    proof (cases b)
      case True
      then have "(\<exists>m. committed_manifest sha loads (get s) session_id source_digest = Inr (Some m)) \<and>
          verified_rows sha (get s) session_id source_digest ?rows = Inr True"
        using Inr by (auto simp: bind_Inr split: if_splits)
      then show thesis using eq Inr True \<open>manifest \<noteq> [] \<and> _\<close> by (intro same) auto
    next
      case False
      then show thesis using eq Inr \<open>manifest \<noteq> [] \<and> _\<close> by (intro uploaded) auto
    qed
  qed
qed

context object_store
begin

lemma persisted_then_fetched:
  assumes stored: "persist_submission sha loads put get session_id source_digest manifest fs src_dir s = (s', Inr p)"
    and no_marker: "manifest_name \<notin> mr_path ` set manifest"
  shows "\<exists>contents. fetch_contents sha loads (get s') session_id source_digest manifest = Inr contents \<and>
    list_all2 (\<lambda>item (rel, data). rel = unbackslash (mr_path item) \<and> row_matches sha item data)
      (sort_key mr_path manifest) contents"
proof -
  let ?rows = "sort_key mr_path manifest"
  from stored have ok: "manifest \<noteq> [] \<and> manifest_digest sha ?rows = source_digest \<and>
      (\<forall>item \<in> set ?rows. \<exists>key data. submission_key session_id source_digest (mr_path item) = Inr key \<and>
         get s' key = Inr data \<and> row_matches sha item data \<and> normalize_rel_path (mr_path item) = Inr (unbackslash (mr_path item)))"
  proof (cases rule: persist_submissionE)
    case same
    from same(2) [OF refl] have first: "manifest \<noteq> []" "manifest_digest sha ?rows = source_digest"
      and v: "verified_rows sha (get s) session_id source_digest ?rows = Inr True" by blast+
    show ?thesis unfolding same(1) using first verified_rows_True [OF v] by (intro conjI ballI)
  next
    case uploaded
    from uploaded(3) obtain s1 marker where up: "upload_rows put get (upload_item sha session_id source_digest fs src_dir) ?rows s = (s1, None)"
      and marker: "manifest_key session_id source_digest = Inr marker" "put s1 marker (manifest_text '', '' '': '' ?rows) = Inr s'"
      by (rule commit_uploadE)
    show ?thesis
    proof (intro conjI ballI)
      fix item assume "item \<in> set ?rows"
      moreover from this have "mr_path item \<noteq> manifest_name" using no_marker by (metis image_eqI set_sort)
      ultimately show "\<exists>key data. submission_key session_id source_digest (mr_path item) = Inr key \<and>
         get s' key = Inr data \<and> row_matches sha item data \<and> normalize_rel_path (mr_path item) = Inr (unbackslash (mr_path item))"
        by (rule upload_then_get [OF up marker]) blast
    qed (use uploaded in simp_all)
  qed
  then have "\<exists>contents. fetch_rows sha (get s') session_id source_digest ?rows = Inr contents \<and>
     list_all2 (\<lambda>item (rel, data). rel = unbackslash (mr_path item) \<and> row_matches sha item data) ?rows contents"
    by (intro fetch_rows_stored) blast
  then show ?thesis using ok by (simp add: fetch_contents_def sorted_manifest_def)
qed

lemma failed_persist_keeps_marker:
  assumes failed: "persist_submission sha loads put get session_id source_digest manifest fs src_dir s = (s', Inl e)"
    and no_marker: "manifest_name \<notin> mr_path ` set manifest"
  shows "committed_manifest sha loads (get s') session_id source_digest = Inr (Some m) \<longleftrightarrow>
    committed_manifest sha loads (get s) session_id source_digest = Inr (Some m)"
  using failed
proof (cases rule: persist_submissionE)
  case same
  then show ?thesis by simp
next
  case uploaded
  let ?upload = "upload_item sha session_id source_digest fs src_dir"
  from commit_upload_failed [OF uploaded(3)] obtain r where up: "upload_rows put get ?upload (sort_key mr_path manifest) s = (s', r)"
    by blast
  have other: "?upload item \<noteq> Inr (marker, d)"
    if "manifest_key session_id source_digest = Inr marker" "item \<in> set (sort_key mr_path manifest)" for item marker d
  proof
    assume up: "?upload item = Inr (marker, d)"
    have "mr_path item = manifest_name" using key_not_marker [OF upload_item_InrD(1) [OF up] that(1)] by simp
    then show False using that(2) no_marker by (metis image_eqI set_sort)
  qed
  have same: "get s' marker = Inr d \<longleftrightarrow> get s marker = Inr d" if "manifest_key session_id source_digest = Inr marker" for marker d
  proof
    show "get s' marker = Inr d \<Longrightarrow> get s marker = Inr d" using upload_rows_new [OF up] other [OF that] by blast
    show "get s marker = Inr d \<Longrightarrow> get s' marker = Inr d" using upload_rows_kept [OF up] other [OF that] by blast
  qed
  show ?thesis
  proof (cases "manifest_key session_id source_digest")
    case (Inr marker)
    then show ?thesis unfolding committed_manifest_Some by (simp add: same [OF Inr])
  qed (simp add: committed_manifest_Some)
qed

lemma marker_wins:
  assumes stored: "persist_submission sha loads put get session_id source_digest manifest fs src_dir s = (s', Inr p)"
    and fresh: "manifest_key session_id source_digest = Inr marker" "get s marker = Inl ObjectNotFound"
  shows "get s' marker = Inr (manifest_text '', '' '': '' (sort_key mr_path manifest))"
  using stored
proof (cases rule: persist_submissionE)
  case same
  then show ?thesis using fresh unfolding committed_manifest_Some by auto
next
  case uploaded
  then show ?thesis using fresh(1) get_put by (auto elim!: commit_uploadE)
qed

end

section \<open>Submissions on the local store\<close>


definition demo_sha :: "string \<Rightarrow> string" where
  "demo_sha s = (if length s > 20 then ''d'' else ''e'')"

definition demo_source :: files where
  "demo_source = [([''w''], DirNode), ([''w'', ''a.py''], FileNode ''x = 1''), ([''w'', ''manifest.json''], FileNode ''hi'')]"

definition demo_row :: "string \<Rightarrow> int \<Rightarrow> manifest_row" where
  "demo_row p n = \<lparr>mr_path = p, mr_sha256 = ''e'', mr_size = n\<rparr>"

definition demo_persist :: "manifest_row list \<Rightarrow> files \<times> (store_exc + string)" where
  "demo_persist rows = persist_submission demo_sha (\<lambda>_. None) (local_put 0 [''o'']) (local_get [''o'']) ''s'' ''d'' rows
     demo_source [''w''] []"

lemma demo_persist_a: "snd (demo_persist [demo_row ''a.py'' 5]) = Inr ''submitted/s/d''"
  by code_simp

lemma demo_persist_manifest: "snd (demo_persist [demo_row ''manifest.json'' 2]) = Inr ''submitted/s/d''"
  by code_simp

lemmas demo_persist_ok = pair_of_snd [OF demo_persist_a] pair_of_snd [OF demo_persist_manifest]



definition demo_failing :: "files \<times> (store_exc + string)" where
  "demo_failing = persist_submission demo_sha (\<lambda>_. None) (local_put 0 [''o'']) (local_get [''o'']) ''s'' ''d''
     [demo_row ''a.py'' 5, demo_row ''b.py'' 1] demo_source [''w''] []"


text \<open>
  A submitted file that is called \<open>manifest.json\<close> has the key of the commit marker: the upload
  reports success, but the marker has replaced the file in the store, so that the submission cannot be
  fetched any more, by the graders or by anybody (unless the file were its own manifest).
\<close>

theorem manifest_file_unfetchable:
  assumes stored: "persist_submission sha loads (local_put limit root_dir) (local_get root_dir) session_id source_digest
      manifest fs src_dir store = (store', Inr p)"
    and fresh: "manifest_key session_id source_digest = Inr marker" "local_get root_dir store marker = Inl ObjectNotFound"
    and named: "item \<in> set manifest" "mr_path item = manifest_name"
    and differs: "\<not> row_matches sha item (manifest_text '', '' '': '' (sort_key mr_path manifest))"
  shows "\<nexists>contents. fetch_contents sha loads (local_get root_dir store') session_id source_digest manifest = Inr contents"
proof -
  have there: "local_get root_dir store' marker = Inr (manifest_text '', '' '': '' (sort_key mr_path manifest))"
    by (rule local_store.marker_wins [OF stored fresh])
  have "fetch_rows sha (local_get root_dir store') session_id source_digest rows \<noteq> Inr contents" if "item \<in> set rows" for rows contents
    using that
  proof (induction rows arbitrary: contents)
    case (Cons r rows)
    show ?case
    proof (cases "r = item")
      case True
      have "key = marker" if "normalize_rel_path (mr_path r) = Inr rel" "submission_key session_id source_digest rel = Inr key"
        for rel key
        using that key_not_marker [OF _ fresh(1)] submission_key_normal [OF that(1)] True named(2) by metis
      then show ?thesis using True there differs by (auto simp: bind_Inr split: sum.splits)
    next
      case False
      then have "fetch_rows sha (local_get root_dir store') session_id source_digest rows \<noteq> Inr c" for c
        using Cons by auto
      then show ?thesis by (auto simp: bind_Inr split: sum.splits store_exc.splits if_splits)
    qed
  qed simp
  moreover have "manifest \<noteq> []" "item \<in> set (sort_key mr_path manifest)" using named(1) by auto
  ultimately show ?thesis by (auto simp: fetch_contents_def sorted_manifest_def)
qed

theorem manifest_file_unfetchable_witness:
  "\<exists>store'. demo_persist [demo_row ''manifest.json'' 2] = (store', Inr ''submitted/s/d'') \<and>
     (\<nexists>contents. fetch_contents demo_sha (\<lambda>_. None) (local_get [''o''] store') ''s'' ''d'' [demo_row ''manifest.json'' 2] = Inr contents)"
proof -
  have facts: "manifest_key ''s'' ''d'' = Inr ''submitted/s/d/manifest.json''"
    "local_get [''o''] [] ''submitted/s/d/manifest.json'' = Inl ObjectNotFound"
    "\<not> row_matches demo_sha (demo_row ''manifest.json'' 2)
        (manifest_text '', '' '': '' (sort_key mr_path [demo_row ''manifest.json'' 2]))"
    "mr_path (demo_row ''manifest.json'' 2) = manifest_name"
    by code_simp+
  note run = demo_persist_ok(2)
  show ?thesis
    using run manifest_file_unfetchable [OF run [unfolded demo_persist_def [of "[demo_row ''manifest.json'' 2]"]] facts(1,2) _ facts(4,3)]
    unfolding demo_persist_def by fastforce
qed

lemma fetch_rows_Cons:
  "fetch_rows sha f session_id source_digest (item # rows) = Inr contents \<longleftrightarrow>
   (\<exists>rel key data rest. normalize_rel_path (mr_path item) = Inr rel \<and> submission_key session_id source_digest rel = Inr key \<and>
      f key = Inr data \<and> row_matches sha item data \<and>
      fetch_rows sha f session_id source_digest rows = Inr rest \<and> contents = (rel, data) # rest)"
proof (cases "bind (normalize_rel_path (mr_path item)) (submission_key session_id source_digest)")
  case (Inl e)
  then show ?thesis by (cases "normalize_rel_path (mr_path item)") auto
next
  case (Inr key)
  then obtain rel where rel: "normalize_rel_path (mr_path item) = Inr rel" "submission_key session_id source_digest rel = Inr key"
    by (auto simp: bind_Inr)
  show ?thesis
  proof (cases "f key")
    case (Inl e)
    then show ?thesis using rel by (cases e) simp_all
  next
    case (Inr data)
    then show ?thesis using rel by (auto simp: bind_Inr)
  qed
qed

lemma fetch_rows_InrD:
  "fetch_rows sha f session_id source_digest rows = Inr contents \<Longrightarrow>
   list_all2 (\<lambda>item (rel, data). rel = unbackslash (mr_path item) \<and> row_matches sha item data) rows contents"
proof (induction rows arbitrary: contents)
  case (Cons item rows)
  then show ?case unfolding fetch_rows_Cons using normalize_InrD(1) by auto
qed simp

text \<open>
  What is fetched is what the digest names, however the store answers: the rows have the digest of
  the submission, they are those of the caller's manifest where there is one, every object has the size
  and digest of its row, and the written tree is verified once more.
\<close>

theorem fetched_source_verified:
  assumes "fetch_submission sha loads get session_id source_digest manifest dest_dir fs = Inr (fs', source)"
  shows "\<exists>rows contents. manifest_digest sha rows = source_digest \<and>
    fetch_contents sha loads get session_id source_digest manifest = Inr contents \<and>
    list_all2 (\<lambda>item (rel, data). rel = unbackslash (mr_path item) \<and> row_matches sha item data) rows contents \<and>
    (if manifest = [] then committed_manifest sha loads get session_id source_digest = Inr (Some rows)
     else rows = sort_key mr_path manifest) \<and>
    (case source_manifest sha fs' source of Inl _ \<Rightarrow> False | Inr actual \<Rightarrow> manifest_digest sha actual = source_digest)"
proof -
  from assms obtain contents actual where c: "fetch_contents sha loads get session_id source_digest manifest = Inr contents"
    and v: "verify_snapshot sha fs' source source_digest = Inr actual"
    unfolding fetch_submission_def Let_def by (auto simp: bind_Inr)
  from c obtain rows where rows: "manifest_digest sha rows = source_digest"
      "fetch_rows sha get session_id source_digest rows = Inr contents"
      "if manifest = [] then committed_manifest sha loads get session_id source_digest = Inr (Some rows)
       else rows = sort_key mr_path manifest"
    by (auto simp: fetch_contents_def sorted_manifest_def bind_Inr split: if_splits option.splits)
  have "case source_manifest sha fs' source of Inl _ \<Rightarrow> False | Inr actual \<Rightarrow> manifest_digest sha actual = source_digest"
    using v by (auto simp: verify_snapshot_def bind_Inr split: if_splits)
  then show ?thesis using c rows fetch_rows_InrD [OF rows(2)] by blast
qed

definition demo_digest :: string where
  "demo_digest = replicate 64 (CHR ''a'')"

definition hex_sha :: "string \<Rightarrow> string" where
  "hex_sha s = (if length s > 20 then demo_digest else ''e'')"

definition demo_fetch :: "store_exc + files \<times> path" where
  "demo_fetch = fetch_submission hex_sha (\<lambda>_. None)
     (\<lambda>key. if key = ''submitted/s/'' @ demo_digest @ ''/a.py'' then Inr ''x = 1'' else Inl ObjectNotFound)
     ''s'' demo_digest [demo_row ''a.py'' 5] [''d''] [([''d''], DirNode)]"

definition fetched_files :: files where
  "fetched_files = [([''d''], DirNode), ([''d'', demo_digest], DirNode), ([''d'', demo_digest, ''source''], DirNode),
     ([''d'', demo_digest, ''source'', ''a.py''], FileNode ''x = 1'')]"

theorem fetched_source_verified_witness:
  "demo_fetch = Inr (fetched_files, [''d'', demo_digest, ''source'']) \<and>
   (case source_manifest hex_sha fetched_files [''d'', demo_digest, ''source''] of Inl _ \<Rightarrow> False
    | Inr actual \<Rightarrow> manifest_digest hex_sha actual = demo_digest)"
proof -
  have run: "demo_fetch = Inr (fetched_files, [''d'', demo_digest, ''source''])" by code_simp
  from fetched_source_verified [OF run [unfolded demo_fetch_def]] run show ?thesis by blast
qed

end
