(* ===== verification/SubmissionFreeze.thy ===== *)
theory SubmissionFreeze
  imports SubmissionStore WorkspaceStore
begin

text \<open>
  Freezing a submission (\<open>freeze_submission\<close> of \<open>backend/app/services/interview/snapshot.py\<close>): under the
  lock of the workspace its source is copied to a directory named by the digest of its manifest, the
  marker is written that stops further edits, the copy is mirrored to the durable store where one is
  required, and the copy is recorded in the storage ledger. The temporary directory of the copy is
  left out: nothing of it remains.
\<close>

section \<open>The operation\<close>

record 's freeze_env =
  fz_sha256 :: "string \<Rightarrow> string"
  fz_loads :: "string \<Rightarrow> manifest_row list option"
  fz_durable :: bool
  fz_put :: "'s \<Rightarrow> string \<Rightarrow> string \<Rightarrow> store_exc + 's"
  fz_get :: "'s \<Rightarrow> string \<Rightarrow> store_exc + string"
  fz_settings :: storage_settings
  fz_root :: path

record frozen_snapshot =
  fs_source_path :: path
  fs_source_digest :: string
  fs_manifest :: "manifest_row list"
  fs_object_key :: string

definition as_ws_exc :: "store_exc \<Rightarrow> ws_exc" where
  "as_ws_exc e = (if e = StoreOsError then OsError else ValueErr ''Submitted source is not available'')"

text \<open>\<open>_persist_managed_submission\<close>: every failure of the store is a \<open>ValueError\<close>.\<close>

definition persist_managed ::
  "'s freeze_env \<Rightarrow> string \<Rightarrow> string \<Rightarrow> manifest_row list \<Rightarrow> files \<Rightarrow> path \<Rightarrow> 's \<Rightarrow> 's \<times> ws_exc option" where
  "persist_managed env session_id digest manifest fs source_path s =
     (if \<not> fz_durable env then (s, None)
      else case persist_submission (fz_sha256 env) (fz_loads env) (fz_put env) (fz_get env)
             session_id digest manifest fs source_path s of
          (s', Inr _) \<Rightarrow> (s', None)
        | (s', Inl e) \<Rightarrow> (s', Some (as_ws_exc e)))"

definition frozen_result ::
  "path \<Rightarrow> string \<Rightarrow> manifest_row list \<Rightarrow> string \<Rightarrow> ws_exc + frozen_snapshot" where
  "frozen_result source_path digest manifest session_id =
     (case prefix_of session_id digest of
        Inl e \<Rightarrow> Inl (as_ws_exc e)
      | Inr key \<Rightarrow> Inr \<lparr>fs_source_path = source_path, fs_source_digest = digest, fs_manifest = manifest,
                       fs_object_key = key\<rparr>)"

text \<open>The copy: the items of the manifest and the manifest beside them.\<close>

definition copy_target :: "path \<Rightarrow> string \<Rightarrow> path" where
  "copy_target source rel = source @ split_on CHR ''/'' rel"

fun copy_items :: "path \<Rightarrow> (string \<times> string) list \<Rightarrow> files \<Rightarrow> files option" where
  "copy_items source [] fs = Some fs"
| "copy_items source ((rel, data) # rest) fs =
     (case make_dirs fs [] (butlast (copy_target source rel)) of
        None \<Rightarrow> None
      | Some fs' \<Rightarrow> copy_items source rest (put_node (copy_target source rel) (FileNode data) fs'))"

definition copy_submission :: "path \<Rightarrow> (string \<times> string) list \<Rightarrow> manifest_row list \<Rightarrow> files \<Rightarrow> files option" where
  "copy_submission destination items manifest fs =
     (case make_dirs fs [] (destination @ [''source'']) of
        None \<Rightarrow> None
      | Some fs1 \<Rightarrow>
          (case copy_items (destination @ [''source'']) items fs1 of
             None \<Rightarrow> None
           | Some fs2 \<Rightarrow> Some (put_node (destination @ [manifest_name]) (FileNode (manifest_text '', '' '': '' manifest)) fs2)))"

definition write_marker :: "path \<Rightarrow> string \<Rightarrow> files \<Rightarrow> files option" where
  "write_marker marker digest fs =
     (case resolve_path fs marker of
        None \<Rightarrow> None
      | Some q \<Rightarrow> if map_of fs q = Some DirNode \<or> q = [] then None else Some (put_node q (FileNode digest) fs))"

definition marker_text :: "files \<Rightarrow> path \<Rightarrow> store_exc + string" where
  "marker_text fs marker = bind (read_bytes fs marker) (\<lambda>b. Inr (strip b))"

definition freeze_marked ::
  "'s freeze_env \<Rightarrow> path \<Rightarrow> string \<Rightarrow> path \<Rightarrow> files \<Rightarrow> 's \<Rightarrow> 's \<times> (ws_exc + frozen_snapshot)" where
  "freeze_marked env root_dir session_id marker fs s =
     (case bind (marker_text fs marker) (\<lambda>digest.
             bind (verify_snapshot (fz_sha256 env) fs (root_dir @ [''.submitted'', session_id, digest, ''source'']) digest)
               (\<lambda>manifest. Inr (digest, manifest))) of
        Inl e \<Rightarrow> (s, Inl (as_ws_exc e))
      | Inr (digest, manifest) \<Rightarrow>
          (let source_path = root_dir @ [''.submitted'', session_id, digest, ''source''] in
           case persist_managed env session_id digest manifest fs source_path s of
             (s', Some e) \<Rightarrow> (s', Inl e)
           | (s', None) \<Rightarrow> (s', frozen_result source_path digest manifest session_id)))"

text \<open>
  The body of the reservation: the files afterwards, the store, the exception or the size to record.
\<close>

definition freeze_body ::
  "'s freeze_env \<Rightarrow> path \<Rightarrow> string \<Rightarrow> path \<Rightarrow> (string \<times> string) list \<Rightarrow> manifest_row list \<Rightarrow> files \<Rightarrow> 's \<Rightarrow>
    files \<times> 's \<times> ws_exc option" where
  "freeze_body env destination session_id marker items manifest fs s =
     (let digest = last destination;
          source_path = destination @ [''source''];
          copied_fs = (if map_of fs destination \<noteq> None
             then (case verify_snapshot (fz_sha256 env) fs source_path digest of
                     Inl e \<Rightarrow> Inl (as_ws_exc e) | Inr _ \<Rightarrow> Inr fs)
             else (case copy_submission destination items manifest fs of None \<Rightarrow> Inl OsError | Some fs' \<Rightarrow> Inr fs'))
      in case copied_fs of
           Inl e \<Rightarrow> (fs, s, Some e)
         | Inr fs1 \<Rightarrow>
             (case write_marker marker digest fs1 of
                None \<Rightarrow> (fs1, s, Some OsError)
              | Some fs2 \<Rightarrow>
                  (case persist_managed env session_id digest manifest fs2 source_path s of
                     (s', r) \<Rightarrow> (fs2, s', r))))"

definition freeze_new ::
  "'s freeze_env \<Rightarrow> int \<Rightarrow> path \<Rightarrow> string \<Rightarrow> path \<Rightarrow> path \<Rightarrow> ws_state \<times> 's \<Rightarrow> (ws_state \<times> 's) \<times> (ws_exc + frozen_snapshot)" where
  "freeze_new env free root_dir session_id workspace marker st =
     (let fs = ws_files (fst st) in
      case bind (source_files fs workspace) (\<lambda>items.
             bind (source_manifest (fz_sha256 env) fs workspace) (\<lambda>manifest.
               if manifest = [] then Inl BadValue else Inr (items, manifest))) of
        Inl e \<Rightarrow> (st, Inl (as_ws_exc e))
      | Inr (items, manifest) \<Rightarrow>
          (let digest = manifest_digest (fz_sha256 env) manifest;
               destination = root_dir @ [''.submitted'', session_id, digest];
               needed = sum_list (map mr_size manifest) + int (length (manifest_text '', '' '': '' manifest)) + 64
           in case freeze_body env destination session_id marker items manifest fs (snd st) of (fs', s', failed) \<Rightarrow>
                (case storage_capacity (interview_storage_max_bytes (fz_settings env))
                        (interview_storage_min_free_bytes (fz_settings env)) free needed
                        (if failed = None then Committed digest (fst (measure_workspace fs' destination))
                           (snd (measure_workspace fs' destination)) else RaisedUncommitted) (ws_ledger (fst st)) of
                   Inl _ \<Rightarrow> (st, Inl (Http capacity_error))
                 | Inr l \<Rightarrow>
                     ((\<lparr>ws_files = fs', ws_ledger = l\<rparr>, s'),
                      case failed of Some e \<Rightarrow> Inl e
                        | None \<Rightarrow> frozen_result (destination @ [''source'']) digest manifest session_id))))"

text \<open>\<open>free\<close> is the free space of the disk, \<open>session_id\<close> the text of the session's UUID.\<close>

definition freeze_submission ::
  "'s freeze_env \<Rightarrow> int \<Rightarrow> path \<Rightarrow> string \<Rightarrow> ws_state \<times> 's \<Rightarrow> (ws_state \<times> 's) \<times> (ws_exc + frozen_snapshot)" where
  "freeze_submission env free workspace session_id st =
     (let fs = ws_files (fst st); marker = beside workspace ''.submitted'' in
      case resolve_path fs (fz_root env) of
        None \<Rightarrow> (st, Inl RuntimeErr)
      | Some root_dir \<Rightarrow>
          if link_at fs workspace \<or> resolve_path fs workspace \<noteq> Some (root_dir @ [session_id])
          then (st, Inl (ValueErr ''Invalid owned workspace''))
          else
            (let st0 = ((fst st)\<lparr>ws_files := open_lock (beside workspace ''.upload.lock'') fs\<rparr>, snd st) in
             if path_exists (ws_files (fst st0)) marker
             then (case freeze_marked env root_dir session_id marker (ws_files (fst st0)) (snd st0) of
                     (s', r) \<Rightarrow> ((fst st0, s'), r))
             else freeze_new env free root_dir session_id workspace marker st0))"

section \<open>A tree of files\<close>

text \<open>A physical tree: names are names, and every item lies in a directory.\<close>

definition name_ok :: "string \<Rightarrow> bool" where
  "name_ok x \<longleftrightarrow> proper_name x \<and> CHR ''/'' \<notin> set x"

definition tree :: "files \<Rightarrow> bool" where
  "tree fs \<longleftrightarrow> distinct (map fst fs) \<and>
     list_all (\<lambda>e. fst e \<noteq> [] \<and> list_all name_ok (fst e) \<and>
       (butlast (fst e) = [] \<or> map_of fs (butlast (fst e)) = Some DirNode)) fs"

lemma tree_above:
  assumes "tree fs" "map_of fs p \<noteq> None" "strict_prefix d p" "d \<noteq> []"
  shows "map_of fs d = Some DirNode"
  using assms(2,3)
proof (induction p rule: rev_induct)
  case (snoc x p)
  obtain nd where "(p @ [x], nd) \<in> set fs" using snoc.prems(1) by (blast dest: map_of_SomeD)
  then have up: "p = [] \<or> map_of fs p = Some DirNode" using assms(1) by (fastforce simp: tree_def list_all_iff)
  show ?case
  proof (cases "d = p")
    case True
    then show ?thesis using up assms(4) by auto
  next
    case False
    then have "strict_prefix d p" using snoc.prems(2) by (auto simp: strict_prefix_def)
    then show ?thesis using snoc.IH up by auto
  qed
qed simp

lemma split_on_join:
  "xs \<noteq> [] \<Longrightarrow> list_all (\<lambda>x. c \<notin> set x) xs \<Longrightarrow> split_on c (join [c] xs) = xs"
proof (induction xs)
  case (Cons x xs)
  then show ?case by (cases xs) (simp_all add: split_on_append split_on_one)
qed simp

lemma split_as_posix: "xs \<noteq> [] \<Longrightarrow> list_all name_ok xs \<Longrightarrow> split_on CHR ''/'' (as_posix xs) = xs"
  unfolding as_posix_def by (rule split_on_join) (auto simp: list_all_iff name_ok_def)

text \<open>The items of a source tree, as a list of the entries that are items.\<close>

definition is_item :: "path \<Rightarrow> path \<times> node \<Rightarrow> bool" where
  "is_item root_dir e \<longleftrightarrow>
     (case snd e of FileNode _ \<Rightarrow> True | _ \<Rightarrow> False) \<and> walked root_dir (fst e) \<and> \<not> is_blocked_path (rel_name root_dir (fst e))"

definition item_of :: "path \<Rightarrow> path \<times> node \<Rightarrow> string \<times> string" where
  "item_of root_dir e = (rel_name root_dir (fst e), case snd e of FileNode b \<Rightarrow> b | _ \<Rightarrow> [])"

lemma source_items_eq: "concat (map (source_item root_dir) fs) = map (item_of root_dir) (filter (is_item root_dir) fs)"
  by (induction fs) (auto simp: source_item_def is_item_def item_of_def split: node.splits)

lemma item_target:
  assumes "tree fs" "e \<in> set fs" "is_item root_dir e"
  shows "fst e = root_dir @ split_on CHR ''/'' (rel_name root_dir (fst e))"
proof -
  obtain parts where p: "fst e = root_dir @ parts" "parts \<noteq> []"
    using assms(3) by (auto simp: is_item_def walked_def strict_prefix_def prefix_def)
  moreover have "list_all name_ok parts" using assms(1,2) p by (auto simp: tree_def list_all_iff)
  ultimately show ?thesis by (simp add: rel_name_def split_as_posix)
qed

lemma distinct_items:
  assumes "distinct (map fst fs)"
    and "\<And>e. e \<in> set fs \<Longrightarrow> is_item root_dir e \<Longrightarrow> fst e = root_dir @ split_on CHR ''/'' (rel_name root_dir (fst e))"
  shows "distinct (map fst (concat (map (source_item root_dir) fs)))"
proof -
  let ?es = "filter (is_item root_dir) fs"
  have "inj_on (fst \<circ> item_of root_dir) (set ?es)"
  proof (rule inj_onI)
    fix a b assume ab: "a \<in> set ?es" "b \<in> set ?es" "(fst \<circ> item_of root_dir) a = (fst \<circ> item_of root_dir) b"
    then have "fst a = fst b" using assms(2) [of a] assms(2) [of b] by (simp add: item_of_def)
    then show "a = b" using ab(1,2) assms(1) by (auto simp: distinct_map inj_on_def)
  qed
  moreover have "distinct ?es" using assms(1) by (simp add: distinct_map)
  ultimately show ?thesis unfolding source_items_eq map_map by (simp add: distinct_map)
qed

text \<open>The manifest depends only on the items, not on their order.\<close>

lemma same_manifest:
  assumes items: "source_files fs r = Inr items" "source_files fs' r' = Inr items'"
    and same: "set items = set items'" "distinct (map fst items)" "distinct (map fst items')"
  shows "source_manifest sha fs r = source_manifest sha fs' r'"
proof -
  have "mset items = mset items'"
    using same by (simp add: set_eq_iff_mset_eq_distinct distinct_map)
  then have len: "length items = length items'" and "mset (map (int \<circ> length \<circ> snd) items) = mset (map (int \<circ> length \<circ> snd) items')"
    by (auto dest: mset_eq_length)
  then have sum: "sum_list (map (int \<circ> length \<circ> snd) items) = sum_list (map (int \<circ> length \<circ> snd) items')"
    by (metis sum_mset_sum_list)
  have paths: "map mr_path (map (manifest_row_of sha) xs) = map fst xs" for xs
    by (simp add: manifest_row_of_def)
  have "sort_key mr_path (map (manifest_row_of sha) items) = sort_key mr_path (map (manifest_row_of sha) items')"
  proof (rule map_sorted_distinct_set_unique [of mr_path])
    have "inj_on mr_path (set (map (manifest_row_of sha) items))"
      using same(2) paths [of items] by (metis distinct_map)
    then show "inj_on mr_path (set (sort_key mr_path (map (manifest_row_of sha) items)) \<union>
        set (sort_key mr_path (map (manifest_row_of sha) items')))"
      using same(1) by simp
    have "distinct (map mr_path (sort_key mr_path xs))" if "distinct (map mr_path xs)" for xs
      using that by (metis distinct_map distinct_sort set_sort)
    then show "distinct (map mr_path (sort_key mr_path (map (manifest_row_of sha) items)))"
      "distinct (map mr_path (sort_key mr_path (map (manifest_row_of sha) items')))"
      using same(2,3) paths by metis+
    show "sorted (map mr_path (sort_key mr_path (map (manifest_row_of sha) items)))"
      "sorted (map mr_path (sort_key mr_path (map (manifest_row_of sha) items')))" by simp_all
    show "set (sort_key mr_path (map (manifest_row_of sha) items)) = set (sort_key mr_path (map (manifest_row_of sha) items'))"
      using same(1) by simp
  qed
  then show ?thesis unfolding source_manifest_def items bind_simps using len sum same(1) by (simp add: list_ex_iff)
qed

section \<open>The copy\<close>

text \<open>What the copy leaves alone: everything that was there and is not one of its targets.\<close>

lemma make_dirs_frame:
  assumes "make_dirs fs [] parts = Some fs'"
  shows "distinct (map fst fs) \<Longrightarrow> distinct (map fst fs')"
    "map_of fs q \<noteq> None \<Longrightarrow> map_of fs' q = map_of fs q"
    "map_of fs' q = map_of fs q \<or> map_of fs q = None \<and> map_of fs' q = Some DirNode"
proof -
  note d = make_dirs_SomeD [OF assms]
  show "distinct (map fst fs) \<Longrightarrow> distinct (map fst fs')" using make_dirs_keeps [OF assms] by blast
  have old: "strict_prefix [] q \<Longrightarrow> prefix q parts \<Longrightarrow> map_of fs q = None \<or> map_of fs q = Some DirNode"
    using make_dirs_old [OF assms, of q] by simp
  then show "map_of fs q \<noteq> None \<Longrightarrow> map_of fs' q = map_of fs q"
    "map_of fs' q = map_of fs q \<or> map_of fs q = None \<and> map_of fs' q = Some DirNode"
    using d by auto
qed

lemma copy_items_effect:
  assumes "copy_items source items fs = Some fs'" "distinct (map fst items)"
  shows "(distinct (map fst fs) \<longrightarrow> distinct (map fst fs')) \<and>
    (\<forall>(rel, data) \<in> set items. map_of fs' (copy_target source rel) = Some (FileNode data)) \<and>
    (\<forall>q. q \<notin> copy_target source ` fst ` set items \<longrightarrow>
       map_of fs' q = map_of fs q \<or> map_of fs q = None \<and> map_of fs' q = Some DirNode)"
  using assms
proof (induction source items fs rule: copy_items.induct)
  case (1 source fs)
  then show ?case by simp
next
  case (2 source rel data rest fs)
  from "2.prems"(1) obtain fs1 where dirs: "make_dirs fs [] (butlast (copy_target source rel)) = Some fs1"
    and rest: "copy_items source rest (put_node (copy_target source rel) (FileNode data) fs1) = Some fs'"
    by (auto split: option.splits)
  from "2.IH" [OF dirs rest] "2.prems"(2)
  have ih: "distinct (map fst (put_node (copy_target source rel) (FileNode data) fs1)) \<longrightarrow> distinct (map fst fs')"
    "\<And>r d. (r, d) \<in> set rest \<Longrightarrow> map_of fs' (copy_target source r) = Some (FileNode d)"
    "\<And>q. q \<notin> copy_target source ` fst ` set rest \<Longrightarrow>
       map_of fs' q = map_of (put_node (copy_target source rel) (FileNode data) fs1) q \<or>
       map_of (put_node (copy_target source rel) (FileNode data) fs1) q = None \<and> map_of fs' q = Some DirNode"
    by auto
  have "copy_target source rel \<notin> copy_target source ` fst ` set rest"
    using "2.prems"(2) by (auto simp: copy_target_def dest: split_on_inject)
  then have here: "map_of fs' (copy_target source rel) = Some (FileNode data)" using ih(3) by force
  have other: "map_of fs' q = map_of fs q \<or> map_of fs q = None \<and> map_of fs' q = Some DirNode"
    if "q \<notin> copy_target source ` fst ` set ((rel, data) # rest)" for q
    using ih(3) [of q] make_dirs_frame(3) [OF dirs, of q] that by auto
  show ?case
  proof (intro conjI)
    show "distinct (map fst fs) \<longrightarrow> distinct (map fst fs')"
      using ih(1) make_dirs_frame(1) [OF dirs] distinct_put_node by blast
    show "\<forall>(r, d) \<in> set ((rel, data) # rest). map_of fs' (copy_target source r) = Some (FileNode d)"
      using here ih(2) by auto
    show "\<forall>q. q \<notin> copy_target source ` fst ` set ((rel, data) # rest) \<longrightarrow>
       map_of fs' q = map_of fs q \<or> map_of fs q = None \<and> map_of fs' q = Some DirNode"
      using other by blast
  qed
qed

lemma source_files_InrD:
  "source_files fs r = Inr items \<Longrightarrow> items = concat (map (source_item r) fs) \<and> is_dir fs r"
  by (auto simp: source_files_def split: if_splits)

lemma copied_source_files:
  assumes tree: "tree fs" and items: "source_files fs workspace = Inr items"
    and fresh: "map_of fs destination = None" and dest_ne: "destination \<noteq> []" and ok: "list_all proper_name destination"
    and links: "\<And>q. prefix q destination \<Longrightarrow> \<not> is_symlink fs q"
    and copy: "copy_submission destination items manifest fs = Some fs'"
  defines "source \<equiv> destination @ [''source'']"
  shows "(\<exists>items'. source_files fs' source = Inr items' \<and> set items' = set items \<and> distinct (map fst items') \<and> distinct (map fst items)) \<and>
    (\<forall>q. is_symlink fs' q \<longrightarrow> is_symlink fs q)"
proof -
  have it: "items = concat (map (source_item workspace) fs)" using items source_files_InrD by blast
  have dfs: "distinct (map fst fs)" using tree by (simp add: tree_def)
  have d_items: "distinct (map fst items)"
    unfolding it by (rule distinct_items [OF dfs]) (rule item_target [OF tree])
  from copy obtain fs1 fs2 where dirs: "make_dirs fs [] source = Some fs1" and put: "copy_items source items fs1 = Some fs2"
    and fs': "fs' = put_node (destination @ [manifest_name]) (FileNode (manifest_text '', '' '': '' manifest)) fs2"
    by (auto simp: copy_submission_def source_def split: option.splits)
  note eff = copy_items_effect [OF put d_items]
  from eff have written: "map_of fs2 (copy_target source rel) = Some (FileNode data)" if "(rel, data) \<in> set items" for rel data
    using that by blast
  from eff have others: "map_of fs2 q = map_of fs1 q \<or> map_of fs1 q = None \<and> map_of fs2 q = Some DirNode"
    if "q \<notin> copy_target source ` fst ` set items" for q
    using that by blast
  have d2: "distinct (map fst fs')" using eff make_dirs_frame(1) [OF dirs] dfs distinct_put_node fs' by blast
  have no_old: "map_of fs q = None" if "prefix destination q" for q
  proof (rule ccontr)
    assume "map_of fs q \<noteq> None"
    then show False using tree_above [OF tree, of q destination] that fresh dest_ne
      by (cases "q = destination") (auto simp: strict_prefix_def)
  qed
  have below: "\<not> prefix source q \<Longrightarrow> q \<notin> copy_target source ` fst ` set items" for q
    by (auto simp: copy_target_def)
  have src: "map_of fs' source = Some DirNode"
  proof -
    have "map_of fs1 source = Some DirNode" using make_dirs_SomeD [OF dirs] by (simp add: source_def strict_prefix_def)
    moreover have "source \<notin> copy_target source ` fst ` set items" by (auto simp: copy_target_def)
    ultimately have "map_of fs2 source = Some DirNode" using others [of source] by simp
    then show ?thesis by (simp add: fs' source_def manifest_name_def)
  qed
  have new: "map_of fs' q = map_of fs2 q" if "strict_prefix source q" for q
    using that by (auto simp: fs' source_def manifest_name_def strict_prefix_def)
  have old1: "map_of fs1 q = None \<or> map_of fs1 q = Some DirNode" if "prefix destination q" for q
    using make_dirs_frame(3) [OF dirs, of q] no_old [OF that] by auto
  have under: "map_of fs' q = Some nd \<Longrightarrow> nd = DirNode \<or> (\<exists>rel data. (rel, data) \<in> set items \<and> q = copy_target source rel \<and> nd = FileNode data)"
    if "strict_prefix source q" for q nd
  proof -
    assume nd: "map_of fs' q = Some nd"
    have "prefix destination q" using that by (auto simp: source_def strict_prefix_def prefix_def)
    from old1 [OF this] have before: "map_of fs1 q = None \<or> map_of fs1 q = Some DirNode" .
    have nd2: "map_of fs2 q = Some nd" using nd new [OF that] by simp
    show ?thesis
    proof (cases "q \<in> copy_target source ` fst ` set items")
      case True
      then obtain rel data where rd: "(rel, data) \<in> set items" "q = copy_target source rel" by force
      then have "nd = FileNode data" using written [OF rd(1)] nd2 by simp
      then show ?thesis using rd by blast
    next
      case False
      then show ?thesis using others [OF False] before nd2 by auto
    qed
  qed
  have sym: "is_symlink fs' q \<Longrightarrow> is_symlink fs q" for q
  proof -
    assume link: "is_symlink fs' q"
    have "q \<notin> copy_target source ` fst ` set items"
      using link written by (auto simp: fs' is_symlink_def split: if_splits)
    from others [OF this] have "is_symlink fs1 q" using link by (auto simp: fs' is_symlink_def split: if_splits)
    then show "is_symlink fs q" using make_dirs_keeps [OF dirs dfs] by blast
  qed
  have "is_symlink fs q \<Longrightarrow> \<not> prefix q destination" for q using links by blast
  then have clean_d: "clean fs' destination" using sym ok by (force simp: clean_def take_is_prefix)
  have "\<not> is_symlink fs' source" using src by (simp add: is_symlink_def)
  then have "clean fs' source" using clean_d by (simp add: source_def clean_snoc proper_name_def)
  then have is_dir: "is_dir fs' source" using src by (simp add: is_dir_def resolve_stays)
  have no_link: "\<not> link_at fs' source"
    using resolve_stays [OF clean_d] \<open>\<not> is_symlink fs' source\<close> by (simp add: link_at_def source_def)
  have "\<not> refused_item fs' source e" if "e \<in> set fs'" for e
  proof
    assume bad: "refused_item fs' source e"
    then have "strict_prefix source (fst e)" by (auto simp: refused_item_def walked_def split: prod.splits node.splits)
    moreover have "map_of fs' (fst e) = Some (snd e)" using that d2 by simp
    ultimately show False using under [of "fst e" "snd e"] bad by (auto simp: refused_item_def split: prod.splits node.splits)
  qed
  then have run: "source_files fs' source = Inr (concat (map (source_item source) fs'))"
    using no_link is_dir by (auto simp: source_files_def list_ex_iff)
  have member: "x \<in> set (concat (map (source_item r) f)) \<longleftrightarrow>
      (\<exists>p b. (p, FileNode b) \<in> set f \<and> walked r p \<and> \<not> is_blocked_path (rel_name r p) \<and> x = (rel_name r p, b))" for x r f
    by (fastforce simp: source_item_def split: node.splits if_splits)
  have rel: "rel_name source (copy_target source (rel_name workspace p)) = rel_name workspace p \<and>
      walked source (copy_target source (rel_name workspace p))"
    if entry: "(p, nd) \<in> set fs" "walked workspace p" for p nd
  proof -
    obtain parts where p: "p = workspace @ parts" "parts \<noteq> []"
      using entry(2) by (auto simp: walked_def strict_prefix_def prefix_def)
    have "list_all name_ok parts" using entry(1) tree p by (fastforce simp: tree_def list_all_iff)
    then have "copy_target source (rel_name workspace p) = source @ parts"
      using p by (simp add: copy_target_def rel_name_def split_as_posix)
    then show ?thesis using entry(2) p by (simp add: rel_name_def walked_def strict_prefix_def)
  qed
  have to: "x \<in> set (concat (map (source_item source) fs'))" if given: "x \<in> set items" for x
  proof -
    from given obtain p b where pb: "(p, FileNode b) \<in> set fs" "walked workspace p" "\<not> is_blocked_path (rel_name workspace p)"
      and x: "x = (rel_name workspace p, b)" unfolding it member by blast
    let ?q = "copy_target source (rel_name workspace p)"
    note r = rel [OF pb(1,2)]
    have "map_of fs2 ?q = Some (FileNode b)" using written given x by simp
    moreover have "strict_prefix source ?q" using r by (simp add: walked_def)
    ultimately have "(?q, FileNode b) \<in> set fs'" using new by (auto intro: map_of_SomeD)
    then show ?thesis unfolding member using r pb(3) x by metis
  qed
  have recover: "x \<in> set items" "fst e = source @ split_on CHR ''/'' (rel_name source (fst e))"
    if "e \<in> set fs'" "is_item source e" "x = item_of source e" for x e
  proof -
    have e: "map_of fs' (fst e) = Some (snd e)" using that d2 by simp
    have "strict_prefix source (fst e)" using that(2) by (simp add: is_item_def walked_def)
    from under [OF this e] that(2) obtain rel_p data where rd: "(rel_p, data) \<in> set items" "fst e = copy_target source rel_p"
        "snd e = FileNode data" by (auto simp: is_item_def)
    from rd(1) obtain p nd where "(p, nd) \<in> set fs" "walked workspace p" "rel_p = rel_name workspace p"
      unfolding it member by blast
    then have "rel_name source (fst e) = rel_p" using rel rd(2) by simp
    then show "x \<in> set items" "fst e = source @ split_on CHR ''/'' (rel_name source (fst e))"
      using rd that(3) by (simp_all add: item_of_def copy_target_def)
  qed
  have "set (concat (map (source_item source) fs')) = set items"
    using to recover(1) unfolding source_items_eq by auto
  moreover have "distinct (map fst (concat (map (source_item source) fs')))"
    by (rule distinct_items [OF d2]) (use recover(2) in blast)
  ultimately show ?thesis using run d_items sym by blast
qed

text \<open>A file that is written outside a source tree does not change its manifest.\<close>

definition same_links :: "files \<Rightarrow> files \<Rightarrow> bool" where
  "same_links fs fs' \<longleftrightarrow> (\<forall>p a t. map_of fs p = Some (LinkNode a t) \<longleftrightarrow> map_of fs' p = Some (LinkNode a t))"

lemma resolve_same_links: "same_links fs fs' \<Longrightarrow> resolve_from n fs acc ps = resolve_from n fs' acc ps"
proof (induction n fs acc ps rule: resolve_from.induct)
  case (2 n fs acc p ps)
  show ?case
  proof (cases "p = [] \<or> p = ''.'' \<or> p = ''..''")
    case True
    then show ?thesis using 2 by auto
  next
    case False
    then have dots: "\<not> (p = [] \<or> p = ''.'')" "p \<noteq> ''..''" by auto
    show ?thesis
    proof (cases "\<exists>a t. map_of fs (acc @ [p]) = Some (LinkNode a t)")
      case True
      then obtain a t where here: "map_of fs (acc @ [p]) = Some (LinkNode a t)" by blast
      then have there: "map_of fs' (acc @ [p]) = Some (LinkNode a t)" using "2.prems" by (simp add: same_links_def)
      show ?thesis using "2.IH"(6) [OF dots here refl] "2.prems" dots here there by (cases n) simp_all
    next
      case False
      then have there: "\<nexists>a t. map_of fs' (acc @ [p]) = Some (LinkNode a t)" using "2.prems" by (simp add: same_links_def)
      have "resolve_from n fs (acc @ [p]) ps = resolve_from n fs' (acc @ [p]) ps"
        using False "2.IH"(3-5) [OF dots] "2.prems" by (cases "map_of fs (acc @ [p])" rule: option.exhaust) (auto split: node.splits, metis node.exhaust)
      then show ?thesis using dots False there by (auto split: option.splits node.splits)
    qed
  qed
qed simp

lemma put_file_frame:
  assumes outside: "\<not> prefix r q" and old: "map_of fs q = None \<or> (\<exists>b. map_of fs q = Some (FileNode b))" and ne: "q \<noteq> []"
  shows "source_files (put_node q (FileNode b) fs) r = source_files fs r"
proof -
  let ?fs = "put_node q (FileNode b) fs"
  have links: "same_links ?fs fs" using old by (auto simp: same_links_def)
  have res: "resolve_path ?fs p = resolve_path fs p" for p
    unfolding resolve_path_def by (rule resolve_same_links [OF links])
  have dir: "is_dir ?fs p = is_dir fs p" for p
    unfolding is_dir_def res using old by (auto split: option.splits)
  have link: "link_at ?fs p = link_at fs p" for p
    unfolding link_at_def res using old by (auto simp: is_symlink_def split: option.splits)
  have bad: "refused_item ?fs r e = refused_item fs r e" for e
    unfolding refused_item_def dir ..
  have no_bad: "\<not> refused_item fs r (q, nd)" for nd
    using outside by (auto simp: refused_item_def walked_def strict_prefix_def split: node.split)
  have no_item: "source_item r (q, nd) = []" for nd
    using outside by (auto simp: source_item_def walked_def strict_prefix_def split: node.split)
  have "list_ex (refused_item fs r) ?fs = list_ex (refused_item fs r) fs"
  proof (cases "map_of fs q")
    case None
    then show ?thesis by (simp add: put_node_def no_bad)
  next
    case (Some nd)
    have "list_ex (refused_item fs r) (map (\<lambda>(p, m). (p, if p = q then FileNode b else m)) gs) = list_ex (refused_item fs r) gs" for gs
      by (induction gs) (auto simp: no_bad split: if_splits)
    then show ?thesis using Some by (simp add: put_node_def)
  qed
  moreover have "concat (map (source_item r) ?fs) = concat (map (source_item r) fs)"
  proof (cases "map_of fs q")
    case None
    then show ?thesis by (simp add: put_node_def no_item)
  next
    case (Some nd)
    have "concat (map (source_item r) (map (\<lambda>(p, m). (p, if p = q then FileNode b else m)) gs)) = concat (map (source_item r) gs)" for gs
      by (induction gs) (auto simp: no_item)
    then show ?thesis using Some by (simp add: put_node_def)
  qed
  moreover have "refused_item ?fs r = refused_item fs r" using bad by blast
  ultimately show ?thesis unfolding source_files_def link dir by simp
qed

lemma open_lock_eq: "open_lock p fs = fs \<or> map_of fs p = None \<and> open_lock p fs = put_node p (FileNode []) fs"
  by (simp add: open_lock_def)

lemma path_exists_lock:
  assumes "path_exists fs p"
  shows "path_exists (open_lock l fs) p"
proof -
  have "same_links (open_lock l fs) fs" by (auto simp: same_links_def open_lock_def)
  then have "resolve_path (open_lock l fs) p = resolve_path fs p"
    unfolding resolve_path_def by (rule resolve_same_links)
  then show ?thesis using assms by (auto simp: path_exists_def open_lock_def split: option.splits)
qed

lemma tree_put_file:
  assumes "tree fs" "p \<noteq> []" "list_all name_ok p" "butlast p = [] \<or> map_of fs (butlast p) = Some DirNode"
    "map_of fs p \<noteq> Some DirNode"
  shows "tree (put_node p (FileNode b) fs)"
proof -
  let ?fs = "put_node p (FileNode b) fs"
  have entry: "e \<in> set ?fs \<Longrightarrow> fst e = p \<or> e \<in> set fs" for e
    by (auto simp: put_node_def split: if_splits)
  have keep: "map_of fs d = Some DirNode \<Longrightarrow> map_of ?fs d = Some DirNode" for d
    using assms(5) by auto
  have "fst e \<noteq> [] \<and> list_all name_ok (fst e) \<and> (butlast (fst e) = [] \<or> map_of ?fs (butlast (fst e)) = Some DirNode)"
    if "e \<in> set ?fs" for e
  proof (cases "fst e = p")
    case True
    then show ?thesis using assms keep by auto
  next
    case False
    then have "e \<in> set fs" using entry [OF that] by blast
    then show ?thesis using assms(1) keep unfolding tree_def list_all_iff by blast
  qed
  then show ?thesis using assms(1) distinct_put_node unfolding tree_def list_all_iff by blast
qed

lemma write_marker_SomeD:
  assumes "write_marker marker digest fs = Some fs'" "clean fs marker"
  shows "fs' = put_node marker (FileNode digest) fs" "marker \<noteq> []"
    "map_of fs marker = None \<or> (\<exists>b. map_of fs marker = Some (FileNode b))"
proof -
  have r: "resolve_path fs marker = Some marker" using assms(2) by (rule resolve_stays)
  then have *: "map_of fs marker \<noteq> Some DirNode" "marker \<noteq> []" "fs' = put_node marker (FileNode digest) fs"
    using assms(1) by (auto simp: write_marker_def split: if_splits)
  then show "fs' = put_node marker (FileNode digest) fs" "marker \<noteq> []" by simp_all
  have "\<not> is_symlink fs marker" using assms(2) *(2) by (cases marker rule: rev_cases) (simp_all add: clean_snoc)
  then show "map_of fs marker = None \<or> (\<exists>b. map_of fs marker = Some (FileNode b))"
    using *(1) by (cases "map_of fs marker") (auto simp: is_symlink_def split: node.splits)
qed

section \<open>What a frozen submission is\<close>

text \<open>
  The setting: the directory of the workspaces is physical, a session is a plain name in it, and there
  are no links outside the candidate's own workspace.
\<close>

definition freeze_setting :: "files \<Rightarrow> path \<Rightarrow> string \<Rightarrow> path \<Rightarrow> bool" where
  "freeze_setting fs root_dir session_id workspace \<longleftrightarrow>
     tree fs \<and> map_of fs workspace = Some DirNode \<and> workspace = root_dir @ [session_id] \<and> list_all name_ok workspace \<and> session_id \<noteq> ''.submitted'' \<and>
     list_all (\<lambda>e. case snd e of LinkNode _ _ \<Rightarrow> strict_prefix workspace (fst e) | _ \<Rightarrow> True) fs"

lemma settingD:
  assumes "freeze_setting fs r i w"
  shows "tree fs" "map_of fs w = Some DirNode" "w = r @ [i]" "list_all name_ok r" "name_ok i" "i \<noteq> ''.submitted''"
  using assms by (auto simp: freeze_setting_def)

lemma setting_links: "freeze_setting fs r i w \<Longrightarrow> is_symlink fs q \<Longrightarrow> strict_prefix w q"
  by (fastforce simp: freeze_setting_def is_symlink_def list_all_iff dest!: map_of_SomeD split: option.splits node.splits)

lemma setting_clean:
  assumes "freeze_setting fs r i w" "list_all proper_name p" "\<not> strict_prefix w p"
  shows "clean fs p"
proof -
  have "\<not> strict_prefix w (take n p)" for n
    using assms(3) by (metis prefix_order.less_le_trans take_is_prefix)
  then show ?thesis using assms(2) setting_links [OF assms(1)] by (auto simp: clean_def)
qed


lemma setting_beside:
  assumes "freeze_setting fs r i w" "tail \<noteq> []" "CHR ''/'' \<notin> set tail" "length tail > 2"
  shows "clean fs (beside w tail)" "beside w tail = r @ [i @ tail]" "list_all name_ok (beside w tail)"
    "butlast (beside w tail) = [] \<or> map_of fs (butlast (beside w tail)) = Some DirNode"
proof -
  show b: "beside w tail = r @ [i @ tail]" using assms(1) by (simp add: freeze_setting_def beside_def)
  show names: "list_all name_ok (beside w tail)"
  proof -
    have len: "length (i @ tail) > 2" using assms(4) by simp
    have "i @ tail \<noteq> ''.''" "i @ tail \<noteq> ''..''"
    proof -
      show "i @ tail \<noteq> ''.''"
      proof
        assume "i @ tail = ''.''"
        then have "length (i @ tail) = 1" by simp
        then show False using len by linarith
      qed
      show "i @ tail \<noteq> ''..''"
      proof
        assume "i @ tail = ''..''"
        then have "length (i @ tail) = 2" by simp
        then show False using len by linarith
      qed
    qed
    then have "name_ok (i @ tail)" using settingD(5) [OF assms(1)] assms(2,3) by (simp add: name_ok_def proper_name_def)
    then show ?thesis unfolding b using settingD(4) [OF assms(1)] by simp
  qed
  have "i @ tail \<noteq> i" using assms(2) by simp
  then have "\<not> strict_prefix w (beside w tail)" unfolding b using assms(1)
    by (auto simp: freeze_setting_def strict_prefix_def prefix_def)
  moreover have "list_all proper_name (beside w tail)" using names by (auto simp: list_all_iff name_ok_def)
  ultimately show "clean fs (beside w tail)" using setting_clean [OF assms(1)] by blast
  have "map_of fs w \<noteq> None" "tree fs" "w = r @ [i]" using assms(1) by (auto simp: freeze_setting_def)
  then have "r \<noteq> [] \<Longrightarrow> map_of fs r = Some DirNode" using tree_above [of fs w r] by (auto simp: strict_prefix_def)
  then show "butlast (beside w tail) = [] \<or> map_of fs (butlast (beside w tail)) = Some DirNode" unfolding b by auto
qed

lemma setting_lock:
  assumes "freeze_setting fs r i w"
  shows "freeze_setting (open_lock (beside w ''.upload.lock'') fs) r i w"
proof (cases "map_of fs (beside w ''.upload.lock'') = None")
  case False
  then show ?thesis using assms unfolding open_lock_def by (simp only: if_False)
next
  case True
  note b = setting_beside [OF assms, of "''.upload.lock''", simplified]
  have "tree (open_lock (beside w ''.upload.lock'') fs)"
    unfolding open_lock_def using True b assms by (auto intro!: tree_put_file simp: freeze_setting_def)
  moreover have "beside w ''.upload.lock'' \<noteq> w" using b(2) assms by (simp add: freeze_setting_def)
  ultimately show ?thesis using assms True
    by (auto simp: freeze_setting_def open_lock_def put_node_def)
qed

lemma setting_destination:
  assumes "freeze_setting fs r i w" "valid_digest d"
  shows "list_all proper_name (r @ [''.submitted'', i, d])" "prefix q (r @ [''.submitted'', i, d]) \<Longrightarrow> \<not> is_symlink fs q"
proof -
  note s = settingD [OF assms(1)]
  have "length d = 64" using assms(2) by (simp add: valid_digest_def)
  then have "proper_name d" unfolding proper_name_def by auto
  moreover have "list_all proper_name r" "proper_name i" using s(4,5) by (auto simp: list_all_iff name_ok_def)
  moreover have "proper_name ''.submitted''" by (simp add: proper_name_def)
  ultimately show "list_all proper_name (r @ [''.submitted'', i, d])" by simp
  assume q: "prefix q (r @ [''.submitted'', i, d])"
  have "\<not> strict_prefix w q"
  proof
    assume "strict_prefix w q"
    then have "prefix (r @ [i]) (r @ [''.submitted'', i, d])"
      using q s(3) prefix_order.less_imp_le prefix_order.order_trans by blast
    then show False using s(6) by simp
  qed
  then show "\<not> is_symlink fs q" using setting_links [OF assms(1)] by blast
qed

lemma source_manifest_InrD: "source_manifest sha fs r = Inr manifest \<Longrightarrow> \<exists>items. source_files fs r = Inr items"
  by (auto simp: source_manifest_def bind_Inr)

lemma frozen_result_InrD:
  "frozen_result p d m i = Inr snap \<Longrightarrow> fs_source_path snap = p \<and> fs_source_digest snap = d \<and> fs_manifest snap = m"
  by (auto simp: frozen_result_def split: sum.splits)

lemma freeze_new_InrE:
  assumes "freeze_new env free r i w marker st = ((w', s'), Inr snap)"
  obtains items manifest where "source_files (ws_files (fst st)) w = Inr items"
    "source_manifest (fz_sha256 env) (ws_files (fst st)) w = Inr manifest" "manifest \<noteq> []"
    "freeze_body env (r @ [''.submitted'', i, manifest_digest (fz_sha256 env) manifest]) i marker items manifest
       (ws_files (fst st)) (snd st) = (ws_files w', s', None)"
    "fs_source_path snap = r @ [''.submitted'', i, manifest_digest (fz_sha256 env) manifest, ''source'']"
    "fs_source_digest snap = manifest_digest (fz_sha256 env) manifest" "fs_manifest snap = manifest"
proof -
  let ?fs = "ws_files (fst st)"
  obtain items manifest where start: "source_files ?fs w = Inr items" "source_manifest (fz_sha256 env) ?fs w = Inr manifest"
    "manifest \<noteq> []"
  proof (cases "source_manifest (fz_sha256 env) ?fs w")
    case (Inl e)
    then show thesis using assms that by (cases "source_files ?fs w") (simp_all add: freeze_new_def Let_def)
  next
    case (Inr manifest)
    obtain items where "source_files ?fs w = Inr items" using source_manifest_InrD [OF Inr] by blast
    then show thesis using assms Inr that by (cases "manifest = []") (simp_all add: freeze_new_def Let_def)
  qed
  let ?d = "manifest_digest (fz_sha256 env) manifest"
  obtain fs' s1 failed where body: "freeze_body env (r @ [''.submitted'', i, ?d]) i marker items manifest ?fs (snd st) = (fs', s1, failed)"
    by (metis prod.exhaust)
  have res: "failed = None \<and> ws_files w' = fs' \<and> s' = s1 \<and>
      frozen_result (r @ [''.submitted'', i, ?d] @ [''source'']) ?d manifest i = Inr snap"
    using assms start body by (simp add: freeze_new_def Let_def split: sum.splits option.splits) auto
  then show thesis using that start body frozen_result_InrD by fastforce
qed

lemma freeze_body_NoneE:
  assumes "freeze_body env destination i marker items manifest fs s = (fs', s', None)"
  obtains fs1 where "write_marker marker (last destination) fs1 = Some fs'"
    "map_of fs destination \<noteq> None \<and> fs1 = fs \<and>
       (\<exists>actual. verify_snapshot (fz_sha256 env) fs (destination @ [''source'']) (last destination) = Inr actual) \<or>
     map_of fs destination = None \<and> copy_submission destination items manifest fs = Some fs1"
proof (cases "map_of fs destination = None")
  case True
  then show thesis using assms that by (auto simp: freeze_body_def Let_def split: option.splits prod.splits)
next
  case False
  then show thesis using assms that by (auto simp: freeze_body_def Let_def split: option.splits prod.splits sum.splits)
qed

text \<open>What a first freeze that succeeds has done.\<close>

lemma freeze_new_effect:
  assumes run: "freeze_new env free r i w (beside w ''.submitted'') st = ((w', s'), Inr snap)"
    and setting: "freeze_setting (ws_files (fst st)) r i w" and digests: "\<And>x. valid_digest (fz_sha256 env x)"
  shows "\<exists>actual. verify_snapshot (fz_sha256 env) (ws_files w') (fs_source_path snap) (fs_source_digest snap) = Inr actual"
    "fs_source_digest snap = manifest_digest (fz_sha256 env) (fs_manifest snap)"
    "path_exists (ws_files w') (beside w ''.submitted'')"
proof -
  let ?sha = "fz_sha256 env" and ?fs = "ws_files (fst st)" and ?marker = "beside w ''.submitted''"
  from run obtain items manifest where items: "source_files ?fs w = Inr items" and man: "source_manifest ?sha ?fs w = Inr manifest"
    and ne: "manifest \<noteq> []"
    and body: "freeze_body env (r @ [''.submitted'', i, manifest_digest ?sha manifest]) i ?marker items manifest ?fs (snd st) = (ws_files w', s', None)"
    and snap: "fs_source_path snap = r @ [''.submitted'', i, manifest_digest ?sha manifest, ''source'']"
      "fs_source_digest snap = manifest_digest ?sha manifest" "fs_manifest snap = manifest"
    by (rule freeze_new_InrE)
  show "fs_source_digest snap = manifest_digest (fz_sha256 env) (fs_manifest snap)" using snap by simp
  let ?d = "manifest_digest ?sha manifest"
  let ?dest = "r @ [''.submitted'', i, ?d]"
  let ?source = "?dest @ [''source'']"
  have d: "valid_digest ?d" using digests by (simp add: manifest_digest_def)
  note dest = setting_destination [OF setting d]
  note m = setting_beside [OF setting, of "''.submitted''", simplified]
  from body obtain fs1 where mark: "write_marker ?marker ?d fs1 = Some (ws_files w')"
    and how: "map_of ?fs ?dest \<noteq> None \<and> fs1 = ?fs \<and> (\<exists>actual. verify_snapshot ?sha ?fs ?source ?d = Inr actual) \<or>
       map_of ?fs ?dest = None \<and> copy_submission ?dest items manifest ?fs = Some fs1"
    by (rule freeze_body_NoneE) simp
  have "(\<exists>actual. verify_snapshot ?sha fs1 ?source ?d = Inr actual) \<and> (\<forall>q. is_symlink fs1 q \<longrightarrow> is_symlink ?fs q)"
    using how
  proof (elim disjE conjE)
    assume fresh: "map_of ?fs ?dest = None" and copy: "copy_submission ?dest items manifest ?fs = Some fs1"
    have "?dest \<noteq> []" by simp
    from copied_source_files [OF settingD(1) [OF setting] items fresh this dest copy]
    obtain items' where c: "source_files fs1 ?source = Inr items'" "set items' = set items" "distinct (map fst items')"
      "distinct (map fst items)" and links: "\<forall>q. is_symlink fs1 q \<longrightarrow> is_symlink ?fs q"
      by blast
    have "source_manifest ?sha fs1 ?source = Inr manifest"
      using same_manifest [OF c(1) items c(2,3,4)] man by simp
    then have "verify_snapshot ?sha fs1 ?source ?d = Inr manifest"
      using d ne by (simp add: verify_snapshot_def butlast_append)
    then show ?thesis using links by blast
  qed auto
  then have there: "\<exists>actual. verify_snapshot ?sha fs1 ?source ?d = Inr actual" and links: "is_symlink fs1 q \<Longrightarrow> is_symlink ?fs q" for q
    by blast+
  have clean: "clean fs1 ?marker" using clean_mono [OF m(1)] links by blast
  note wm = write_marker_SomeD [OF mark clean]
  have "\<not> prefix ?source ?marker" using settingD(3) [OF setting] unfolding m(2) by auto
  from put_file_frame [OF this wm(3,2)] have "source_manifest ?sha (ws_files w') ?source = source_manifest ?sha fs1 ?source"
    unfolding source_manifest_def wm(1) by simp
  then have "verify_snapshot ?sha (ws_files w') ?source ?d = verify_snapshot ?sha fs1 ?source ?d"
    unfolding verify_snapshot_def by (simp only:)
  moreover have "fs_source_path snap = ?source" using snap by simp
  ultimately show "\<exists>actual. verify_snapshot ?sha (ws_files w') (fs_source_path snap) (fs_source_digest snap) = Inr actual"
    using there snap(2) by simp
  have "is_symlink (ws_files w') q \<Longrightarrow> is_symlink fs1 q" for q
    unfolding wm(1) by (auto simp: is_symlink_def split: if_splits)
  then have "clean (ws_files w') ?marker" using clean_mono [OF clean] by blast
  then show "path_exists (ws_files w') ?marker" using resolve_stays by (simp add: path_exists_def wm(1))
qed

lemma freeze_submission_setting:
  assumes "freeze_setting (ws_files (fst st)) r i w" "resolve_path (ws_files (fst st)) (fz_root env) = Some r"
  defines "st0 \<equiv> ((fst st)\<lparr>ws_files := open_lock (beside w ''.upload.lock'') (ws_files (fst st))\<rparr>, snd st)"
  shows "freeze_submission env free w i st =
    (if path_exists (ws_files (fst st0)) (beside w ''.submitted'')
     then (case freeze_marked env r i (beside w ''.submitted'') (ws_files (fst st0)) (snd st0) of
             (s', res) \<Rightarrow> ((fst st0, s'), res))
     else freeze_new env free r i w (beside w ''.submitted'') st0)"
    "freeze_setting (ws_files (fst st0)) r i w"
proof -
  note s = settingD [OF assms(1)]
  have "list_all proper_name w" using s(3,4,5) by (auto simp: list_all_iff name_ok_def)
  then have cw: "clean (ws_files (fst st)) w" using setting_clean [OF assms(1)] by simp
  then have "resolve_path (ws_files (fst st)) w = Some w" "clean (ws_files (fst st)) r"
    using resolve_stays clean_butlast [OF cw] s(3) by auto
  moreover from this(2) have "\<not> link_at (ws_files (fst st)) w"
    using cw s(3) by (simp add: link_at_def resolve_stays clean_snoc)
  ultimately show "freeze_submission env free w i st =
    (if path_exists (ws_files (fst st0)) (beside w ''.submitted'')
     then (case freeze_marked env r i (beside w ''.submitted'') (ws_files (fst st0)) (snd st0) of
             (s', res) \<Rightarrow> ((fst st0, s'), res))
     else freeze_new env free r i w (beside w ''.submitted'') st0)"
    using assms(2) s(3) by (simp add: freeze_submission_def st0_def Let_def)
  show "freeze_setting (ws_files (fst st0)) r i w" using setting_lock [OF assms(1)] by (simp add: st0_def)
qed

lemma freeze_marked_InrE:
  assumes "freeze_marked env r i marker fs s = (s', Inr snap)"
  shows "verify_snapshot (fz_sha256 env) fs (fs_source_path snap) (fs_source_digest snap) = Inr (fs_manifest snap)"
proof -
  obtain digest manifest where "bind (marker_text fs marker) (\<lambda>digest.
      bind (verify_snapshot (fz_sha256 env) fs (r @ [''.submitted'', i, digest, ''source'']) digest)
        (\<lambda>manifest. Inr (digest, manifest))) = Inr (digest, manifest)"
    and "frozen_result (r @ [''.submitted'', i, digest, ''source'']) digest manifest i = Inr snap"
    using assms by (auto simp: freeze_marked_def Let_def split: sum.splits prod.splits option.splits)
  then show ?thesis using frozen_result_InrD by (fastforce simp: bind_Inr)
qed


text \<open>
  After a submission is frozen the workspace is closed: every later save of any file is refused, for
  any content and whatever the quotas say.
\<close>

theorem frozen_workspace_refuses_saves:
  assumes run: "freeze_submission env free workspace session_id st = ((w', s'), Inr snap)"
    and setting: "freeze_setting (ws_files (fst st)) root_dir session_id workspace"
      "resolve_path (ws_files (fst st)) (fz_root env) = Some root_dir"
    and digests: "\<And>x. valid_digest (fz_sha256 env x)"
  shows "snd (write_file cfg free' workspace rel_path content w') =
    Some (ValueErr ''Submission is frozen; start a new attempt to edit'')"
proof -
  let ?st0 = "((fst st)\<lparr>ws_files := open_lock (beside workspace ''.upload.lock'') (ws_files (fst st))\<rparr>, snd st)"
  note eq = freeze_submission_setting [OF setting]
  have "path_exists (ws_files w') (beside workspace ''.submitted'')"
  proof (cases "path_exists (ws_files (fst ?st0)) (beside workspace ''.submitted'')")
    case True
    then show ?thesis using run unfolding eq(1) by (auto split: prod.splits)
  next
    case False
    then have "freeze_new env free root_dir session_id workspace (beside workspace ''.submitted'') ?st0 = ((w', s'), Inr snap)"
      using run unfolding eq(1) by simp
    from freeze_new_effect(3) [OF this eq(2) digests] show ?thesis .
  qed
  then have "path_exists (open_lock (beside workspace ''.upload.lock'') (ws_files w')) (beside workspace ''.submitted'')"
    by (rule path_exists_lock)
  then show ?thesis by (simp add: write_file_def Let_def)
qed

definition demo_freeze_env :: "store_exc + unit \<Rightarrow> unit freeze_env" where
  "demo_freeze_env answer = \<lparr>fz_sha256 = (\<lambda>_. demo_digest), fz_loads = (\<lambda>_. None), fz_durable = True,
     fz_put = (\<lambda>_ _ _. answer), fz_get = (\<lambda>_ _. Inl ObjectNotFound), fz_settings = demo_settings,
     fz_root = [''ws'']\<rparr>"

definition demo_ws :: files where
  "demo_ws = [([''ws''], DirNode), ([''ws'', ''7''], DirNode), ([''ws'', ''7'', ''a.py''], FileNode ''x = 1'')]"

definition demo_locked :: files where
  "demo_locked = demo_ws @ [([''ws'', ''7.upload.lock''], FileNode [])]"

definition demo_manifest :: "manifest_row list" where
  "demo_manifest = [\<lparr>mr_path = ''a.py'', mr_sha256 = demo_digest, mr_size = 5\<rparr>]"

definition demo_destination :: path where
  "demo_destination = [''ws'', ''.submitted'', ''7'', demo_digest]"

definition demo_copied :: files where
  "demo_copied = demo_locked @ [([''ws'', ''.submitted''], DirNode), ([''ws'', ''.submitted'', ''7''], DirNode),
     (demo_destination, DirNode), (demo_destination @ [''source''], DirNode),
     (demo_destination @ [''source'', ''a.py''], FileNode ''x = 1''),
     (demo_destination @ [''manifest.json''], FileNode (manifest_text '', '' '': '' demo_manifest))]"

definition demo_marked :: files where
  "demo_marked = demo_copied @ [([''ws'', ''7.submitted''], FileNode demo_digest)]"

definition demo_snap :: frozen_snapshot where
  "demo_snap = \<lparr>fs_source_path = demo_destination @ [''source''], fs_source_digest = demo_digest, fs_manifest = demo_manifest,
     fs_object_key = ''submitted/7/'' @ demo_digest\<rparr>"

definition demo_start :: ws_state where
  "demo_start = \<lparr>ws_files = demo_ws, ws_ledger = empty_ledger\<rparr>"

definition demo_needed :: int where
  "demo_needed = sum_list (map mr_size demo_manifest) + int (length (manifest_text '', '' '': '' demo_manifest)) + 64"

lemma freeze_step_1: "open_lock [''ws'', ''7.upload.lock''] demo_ws = demo_locked"
  by code_simp

lemma freeze_step_2: "path_exists demo_locked [''ws'', ''7.submitted''] = False"
  by code_simp

lemma freeze_step_3: "path_exists demo_marked [''ws'', ''7.submitted''] = True"
  by code_simp

lemma freeze_step_4: "open_lock [''ws'', ''7.upload.lock''] demo_marked = demo_marked"
  by code_simp

lemma freeze_step_5: "source_files demo_locked [''ws'', ''7''] = Inr [(''a.py'', ''x = 1'')]"
  by code_simp

lemma freeze_step_6: "source_manifest (\<lambda>_. demo_digest) demo_locked [''ws'', ''7''] = Inr demo_manifest"
  by code_simp

lemma freeze_step_7: "manifest_digest (\<lambda>_. demo_digest) demo_manifest = demo_digest"
  by code_simp

lemma freeze_step_8: "demo_manifest \<noteq> []"
  by code_simp

lemma freeze_step_9: "map_of demo_locked demo_destination = None"
  by code_simp

lemma freeze_step_10: "copy_submission demo_destination [(''a.py'', ''x = 1'')] demo_manifest demo_locked = Some demo_copied"
  by code_simp

lemma freeze_step_11: "write_marker [''ws'', ''7.submitted''] demo_digest demo_copied = Some demo_marked"
  by code_simp

lemma freeze_step_12: "marker_text demo_marked [''ws'', ''7.submitted''] = Inr demo_digest"
  by code_simp

lemma freeze_step_13: "verify_snapshot (\<lambda>_. demo_digest) demo_marked (demo_destination @ [''source'']) demo_digest = Inr demo_manifest"
  by code_simp

lemma freeze_step_14: "prefix_of ''7'' demo_digest = Inr (''submitted/7/'' @ demo_digest)"
  by code_simp

lemmas demo_freeze_steps = freeze_step_1 freeze_step_2 freeze_step_3 freeze_step_4 freeze_step_5 freeze_step_6 freeze_step_7 freeze_step_8 freeze_step_9 freeze_step_10 freeze_step_11 freeze_step_12 freeze_step_13 freeze_step_14

lemma demo_root:
  "resolve_path demo_ws [''ws''] = Some [''ws'']" "resolve_path demo_ws [''ws'', ''7''] = Some [''ws'', ''7'']"
  "link_at demo_ws [''ws'', ''7''] = False" "freeze_setting demo_ws [''ws''] ''7'' [''ws'', ''7'']"
  "resolve_path demo_marked [''ws''] = Some [''ws'']" "resolve_path demo_marked [''ws'', ''7''] = Some [''ws'', ''7'']"
  "link_at demo_marked [''ws'', ''7''] = False"
  by code_simp+

lemma demo_beside:
  "beside [''ws'', ''7''] ''.submitted'' = [''ws'', ''7.submitted'']" "beside [''ws'', ''7''] ''.upload.lock'' = [''ws'', ''7.upload.lock'']"
  by (simp_all add: beside_def)

lemma demo_capacity:
  "storage_capacity (interview_storage_max_bytes demo_settings) (interview_storage_min_free_bytes demo_settings) 5000 demo_needed
     RaisedUncommitted empty_ledger = Inr \<lparr>lg_rows = [\<lparr>le_key = reservation_key, le_total = 0, le_files = 0, le_reserved = 0\<rparr>],
       lg_total = 0, lg_reserved = 0\<rparr>"
  by code_simp

text \<open>On managed storage that does not answer, the first attempt fails after the marker was written.\<close>

definition demo_failed :: ws_state where
  "demo_failed = \<lparr>ws_files = demo_marked, ws_ledger =
     \<lparr>lg_rows = [\<lparr>le_key = reservation_key, le_total = 0, le_files = 0, le_reserved = 0\<rparr>], lg_total = 0, lg_reserved = 0\<rparr>\<rparr>"

lemma demo_env_fields:
  "fz_root (demo_freeze_env a) = [''ws'']" "fz_sha256 (demo_freeze_env a) = (\<lambda>_. demo_digest)"
  "fz_settings (demo_freeze_env a) = demo_settings"
  by (simp_all add: demo_freeze_env_def)

lemma demo_upload:
  "normalize_rel_path ''a.py'' = Inr ''a.py''" "path_names ''a.py'' = [''a.py'']"
  "read_bytes demo_marked (demo_destination @ [''source'', ''a.py'']) = Inr ''x = 1''"
  by code_simp+

lemma demo_persists:
  "persist_managed (demo_freeze_env (Inl StoreFailure)) ''7'' demo_digest demo_manifest demo_marked (demo_destination @ [''source'']) () =
     ((), Some (ValueErr ''Submitted source is not available''))"
  "persist_managed (demo_freeze_env (Inr ())) ''7'' demo_digest demo_manifest demo_marked (demo_destination @ [''source'']) () = ((), None)"
proof -
  let ?row = "\<lparr>mr_path = ''a.py'', mr_sha256 = demo_digest, mr_size = 5\<rparr>"
  have upload: "\<exists>key. upload_item (\<lambda>_. demo_digest) ''7'' demo_digest demo_marked (demo_destination @ [''source'']) ?row = Inr (key, ''x = 1'')"
    using demo_upload demo_freeze_steps(14) by (simp add: upload_item_def row_matches_def submission_key_def)
  then obtain key where key: "upload_item (\<lambda>_. demo_digest) ''7'' demo_digest demo_marked (demo_destination @ [''source'']) ?row = Inr (key, ''x = 1'')" ..
  have sorted: "sorted_manifest demo_manifest = Inr demo_manifest" by (simp add: sorted_manifest_def demo_manifest_def)
  have marker: "manifest_key ''7'' demo_digest = Inr (''submitted/7/'' @ demo_digest @ ''/manifest.json'')"
    using demo_freeze_steps(14) by (simp add: manifest_key_def manifest_name_def)
  have none: "committed_manifest (\<lambda>_. demo_digest) (\<lambda>_. None) (\<lambda>_. Inl ObjectNotFound) ''7'' demo_digest = Inr None"
    using marker by (simp add: committed_manifest_def)
  note eqs = persist_managed_def demo_freeze_env_def persist_submission_def sorted none commit_upload_def manifest_digest_def
  show "persist_managed (demo_freeze_env (Inl StoreFailure)) ''7'' demo_digest demo_manifest demo_marked (demo_destination @ [''source'']) () =
     ((), Some (ValueErr ''Submitted source is not available''))"
    by (simp add: eqs) (simp add: demo_manifest_def key already_stored_def as_ws_exc_def)
  show "persist_managed (demo_freeze_env (Inr ())) ''7'' demo_digest demo_manifest demo_marked (demo_destination @ [''source'']) () = ((), None)"
    using marker demo_freeze_steps(14) by (simp add: eqs) (simp add: demo_manifest_def key already_stored_def)
qed

lemma demo_first:
  "freeze_submission (demo_freeze_env (Inl StoreFailure)) 5000 [''ws'', ''7''] ''7'' (demo_start, ()) =
     ((demo_failed, ()), Inl (ValueErr ''Submitted source is not available''))"
proof -
  let ?env = "demo_freeze_env (Inl StoreFailure)"
  have body: "freeze_body ?env demo_destination ''7'' [''ws'', ''7.submitted''] [(''a.py'', ''x = 1'')]
      demo_manifest demo_locked () = (demo_marked, (), Some (ValueErr ''Submitted source is not available''))"
    using demo_freeze_steps demo_persists by (simp add: freeze_body_def demo_destination_def demo_env_fields)
  show ?thesis
    unfolding freeze_submission_def Let_def demo_start_def demo_failed_def
    using demo_freeze_steps demo_root body demo_capacity
    by (simp add: demo_env_fields freeze_new_def demo_beside demo_destination_def demo_needed_def)
qed

text \<open>When the store is back, the retry finds the marker and succeeds.\<close>

lemma demo_retry:
  "freeze_submission (demo_freeze_env (Inr ())) 5000 [''ws'', ''7''] ''7'' (demo_failed, ()) = ((demo_failed, ()), Inr demo_snap)"
  unfolding freeze_submission_def Let_def demo_failed_def
  using demo_freeze_steps demo_root demo_persists
  by (simp add: demo_env_fields freeze_marked_def frozen_result_def demo_beside demo_destination_def demo_snap_def)

lemma demo_marked_setting: "freeze_setting demo_marked [''ws''] ''7'' [''ws'', ''7'']"
  by code_simp

lemma demo_sha_valid: "valid_digest (fz_sha256 (demo_freeze_env a) x)"
proof -
  have "valid_digest demo_digest" by code_simp
  then show ?thesis by (simp add: demo_freeze_env_def)
qed


theorem frozen_workspace_refuses_saves_witness:
  "snd (write_file demo_settings 5000 [''ws'', ''7''] ''a.py'' ''y'' demo_failed) =
     Some (ValueErr ''Submission is frozen; start a new attempt to edit'')"
proof -
  have facts: "ws_files (fst (demo_failed, ())) = demo_marked" "fz_root (demo_freeze_env (Inr ())) = [''ws'']"
    by (simp_all add: demo_failed_def demo_freeze_env_def)
  show ?thesis
    using frozen_workspace_refuses_saves [OF demo_retry, of "[''ws'']"] demo_marked_setting demo_root(5) demo_sha_valid
    unfolding facts by blast
qed

section \<open>What the ledger misses\<close>

lemma storage_capacity_released:
  assumes "storage_capacity mx mn free n RaisedUncommitted l = Inr l'"
  shows "lg_total l' = lg_total l" "k \<noteq> reservation_key \<Longrightarrow> row_get le_key k (lg_rows l') = row_get le_key k (lg_rows l)"
proof -
  from assms obtain l1 w where r: "reserve (capacity_limits mx mn) free reservation_key (max 0 n) 0 l = Inr (l1, w)"
    and l': "l' = release reservation_key w l1"
    by (auto simp: storage_capacity_def split: sum.splits)
  have "lg_total l1 = lg_total l" using r by (auto simp: reserve_def Let_def split: if_splits)
  then show "lg_total l' = lg_total l" by (simp add: l' release_def settle_reservation_def)
  show "k \<noteq> reservation_key \<Longrightarrow> row_get le_key k (lg_rows l') = row_get le_key k (lg_rows l)"
    unfolding l' release_def using row_get_settle row_get_reserve [OF r] by simp
qed

lemma frozen_result_total: "prefix_of i d = Inr p \<Longrightarrow> frozen_result q d m i \<noteq> Inl e"
  by (simp add: frozen_result_def)

lemma failed_new_ledger:
  assumes run: "freeze_new env free r i w marker st = ((w', s'), Inl e)"
    and named: "\<And>x. \<exists>p. prefix_of i (fz_sha256 env x) = Inr p"
  shows "ws_ledger w' = ws_ledger (fst st) \<or>
    (\<exists>mx mn n. storage_capacity mx mn free n RaisedUncommitted (ws_ledger (fst st)) = Inr (ws_ledger w'))"
proof -
  let ?fs = "ws_files (fst st)"
  show ?thesis
  proof (cases "bind (source_files ?fs w) (\<lambda>items.
             bind (source_manifest (fz_sha256 env) ?fs w) (\<lambda>manifest.
               if manifest = [] then Inl BadValue else Inr (items, manifest)))")
    case (Inl x)
    then show ?thesis using run by (auto simp: freeze_new_def Let_def)
  next
    case (Inr im)
    obtain items manifest where im: "im = (items, manifest)" by fastforce
    let ?d = "manifest_digest (fz_sha256 env) manifest"
    obtain fs' s1 failed where body: "freeze_body env (r @ [''.submitted'', i, ?d]) i marker items manifest ?fs (snd st) = (fs', s1, failed)"
      by (metis prod.exhaust)
    have ok: "frozen_result q ?d manifest i \<noteq> Inl x" for q x
      using named frozen_result_total unfolding manifest_digest_def by blast
    show ?thesis
    proof (cases failed)
      case None
      then show ?thesis using run Inr im body ok by (auto simp: freeze_new_def Let_def split: sum.splits)
    next
      case (Some x)
      then show ?thesis using run Inr im body by (auto simp: freeze_new_def Let_def split: sum.splits)
    qed
  qed
qed

lemma freeze_with_marker:
  assumes "freeze_submission env free w i st = ((w', s'), res)" "path_exists (ws_files (fst st)) (beside w ''.submitted'')"
  shows "ws_ledger w' = ws_ledger (fst st)"
  using assms path_exists_lock [OF assms(2)]
  by (auto simp: freeze_submission_def Let_def split: option.splits if_splits prod.splits)

lemma failed_freeze_ledger:
  assumes run: "freeze_submission env free w i st = ((w', s'), Inl e)"
    and named: "\<And>x. \<exists>p. prefix_of i (fz_sha256 env x) = Inr p"
  shows "lg_total (ws_ledger w') = lg_total (ws_ledger (fst st)) \<and>
    (k \<noteq> reservation_key \<longrightarrow> row_get le_key k (lg_rows (ws_ledger w')) = row_get le_key k (lg_rows (ws_ledger (fst st))))"
proof -
  let ?fs = "open_lock (beside w ''.upload.lock'') (ws_files (fst st))" and ?marker = "beside w ''.submitted''"
  let ?st0 = "((fst st)\<lparr>ws_files := ?fs\<rparr>, snd st)"
  have "ws_ledger w' = ws_ledger (fst st) \<or>
    (\<exists>mx mn n. storage_capacity mx mn free n RaisedUncommitted (ws_ledger (fst st)) = Inr (ws_ledger w'))"
  proof (cases "resolve_path (ws_files (fst st)) (fz_root env)")
    case None
    then show ?thesis using run by (simp add: freeze_submission_def Let_def)
  next
    case (Some r)
    show ?thesis
    proof (cases "link_at (ws_files (fst st)) w \<or> resolve_path (ws_files (fst st)) w \<noteq> Some (r @ [i])")
      case True
      then show ?thesis using run Some by (simp add: freeze_submission_def Let_def)
    next
      case owned: False
      show ?thesis
      proof (cases "path_exists ?fs ?marker")
        case True
        then show ?thesis using run Some owned by (auto simp: freeze_submission_def Let_def split: prod.splits)
      next
        case False
        then have "freeze_new env free r i w ?marker ?st0 = ((w', s'), Inl e)"
          using run Some owned by (simp add: freeze_submission_def Let_def)
        from failed_new_ledger [OF this named] show ?thesis by simp
      qed
    qed
  qed
  then show ?thesis using storage_capacity_released by metis
qed

text \<open>
  A frozen copy can escape the storage ledger: when the first attempt to submit fails after the
  marker was written, because the durable store did not answer, its reservation is released; the retry
  succeeds on the marker and records nothing, so that the copy on the disk has no entry and the retained
  total is as if it were not there.
\<close>

theorem retried_freeze_not_counted:
  assumes failed: "freeze_submission env free workspace session_id st = ((w1, s1), Inl e)"
    and marked: "path_exists (ws_files w1) (beside workspace ''.submitted'')"
    and retry: "freeze_submission env' free' workspace session_id (w1, s1) = ((w2, s2), Inr snap)"
    and named: "\<And>x. \<exists>p. prefix_of session_id (fz_sha256 env x) = Inr p" and key: "k \<noteq> reservation_key"
  shows "lg_total (ws_ledger w2) = lg_total (ws_ledger (fst st)) \<and>
    row_get le_key k (lg_rows (ws_ledger w2)) = row_get le_key k (lg_rows (ws_ledger (fst st)))"
  using failed_freeze_ledger [OF failed named, of k] freeze_with_marker [OF retry] marked key by simp

text \<open>In the example the copy of five bytes and its manifest are on the disk, and the ledger knows of none.\<close>

theorem retried_freeze_not_counted_witness:
  "fst (measure_workspace (ws_files demo_failed) demo_destination) > 5 \<and>
   row_get le_key demo_digest (lg_rows (ws_ledger demo_failed)) = None \<and> lg_total (ws_ledger demo_failed) = 0"
proof -
  have key: "demo_digest \<noteq> reservation_key" by code_simp
  have named: "\<exists>p. prefix_of ''7'' (fz_sha256 (demo_freeze_env (Inl StoreFailure)) x) = Inr p" for x
    using demo_freeze_steps(14) by (simp add: demo_env_fields)
  have marked: "path_exists (ws_files demo_failed) (beside [''ws'', ''7''] ''.submitted'')"
    using demo_freeze_steps(3) by (simp add: demo_failed_def demo_beside)
  have size: "fst (measure_workspace (ws_files demo_failed) demo_destination) > 5" by code_simp
  have "ws_ledger (fst (demo_start, ())) = empty_ledger" by (simp add: demo_start_def)
  then show ?thesis
    using retried_freeze_not_counted [OF demo_first marked demo_retry named key] size by (simp add: empty_ledger_def)
qed

end
