(* ===== verification/InterviewRoutes.thy ===== *)
theory InterviewRoutes
  imports Models InterviewFiles SubmissionFreeze AutoGrading RateLimit
begin

text \<open>
  The life of an attempt through the routes (\<open>backend/app/api/routes/interview.py\<close>): starting it, its
  timer and steps, reading its workspace, abandoning it, submitting it for grading, defending it and asking for another
  automatic grade; with the admission to the grading queue
  (\<open>services/interview/grading_admission.py\<close>) and the steps of a task (\<open>levels.py\<close>).

  A handler gives the world and its answer; what a refused handler had not committed is dropped,
  what it did on the disk and in the object store stays. \<open>clk\<close> gives the readings of the clock in
  the request. The practice score of \<open>rubric.py\<close> with the texts it adds to the
  metrics, the data of the challenges and the random identifiers are arguments; the analytics rows are left out, and so is what a report shows.
\<close>

section \<open>The world\<close>

record task_def =
  tk_problem :: string
  tk_levels :: "(string \<times> string \<times> string) list"

record 's session_world =
  sw_iv :: iv_world
  sw_grading :: grading_db
  sw_eval_jobs :: "evaluation_job list"
  sw_users :: "nat list"
  sw_rates :: "rate_counter list"
  sw_store :: 's

record 's route_env =
  ro_files :: file_env
  ro_freeze :: "'s freeze_env"
  ro_auto :: auto_env
  ro_dialect :: dialect
  ro_hash_key :: "string \<Rightarrow> string"
  ro_ttl_hours :: int
  ro_rate :: int
  ro_challenge :: "string \<Rightarrow> bool"
  ro_version_for :: "string \<Rightarrow> string"
  ro_scoring_version :: string
  ro_max_pending :: int
  ro_tasks :: "string \<Rightarrow> task_def option"
  ro_score :: "candidate_session \<Rightarrow> session_event list \<Rightarrow> frozen_snapshot \<Rightarrow> py_exc + json dict"
  ro_questions :: "candidate_session \<Rightarrow> session_event list \<Rightarrow> json list"
  ro_question_count :: "string \<Rightarrow> nat"
  ro_guides :: "string \<Rightarrow> json list"

abbreviation sw_db :: "'s session_world \<Rightarrow> iv_db" where
  "sw_db w \<equiv> iw_db (sw_iv w)"

definition with_db :: "iv_db \<Rightarrow> 's session_world \<Rightarrow> 's session_world" where
  "with_db db w = w\<lparr>sw_iv := (sw_iv w)\<lparr>iw_db := db\<rparr>\<rparr>"

definition with_files :: "ws_state \<Rightarrow> 's session_world \<Rightarrow> 's session_world" where
  "with_files st w = w\<lparr>sw_iv := (sw_iv w)\<lparr>iw_ws := st\<rparr>\<rparr>"

text \<open>\<open>enforce_rate_limit\<close> of a route, which commits.\<close>

definition limit_route :: "'s route_env \<Rightarrow> time \<Rightarrow> string \<Rightarrow> int \<Rightarrow> int \<Rightarrow> 's session_world \<Rightarrow> 's session_world \<times> http_error option" where
  "limit_route E now key lmt window_seconds w =
     (case enforce_rate_limit (ro_dialect E) (ro_hash_key E) now key lmt window_seconds True (begin_txn (sw_rates w)) of
        (x, err) \<Rightarrow> (w\<lparr>sw_rates := tx_committed x\<rparr>, err))"

section \<open>The answer\<close>

record session_answer =
  sa_id :: nat
  sa_slug :: string
  sa_status :: string
  sa_attempt :: int
  sa_elapsed_ms :: int
  sa_timer_running :: bool
  sa_timer_lease_ms :: int

definition session_to_response :: "time \<Rightarrow> candidate_session \<Rightarrow> session_answer" where
  "session_to_response now s =
     (let (elapsed, lease) = timer_snapshot now (cs_life s) in
      \<lparr>sa_id = cs_id s, sa_slug = cs_slug s, sa_status = is_status (cs_life s),
       sa_attempt = (if cs_attempt s \<noteq> 0 then cs_attempt s else 1), sa_elapsed_ms = elapsed,
       sa_timer_running = lease > 0, sa_timer_lease_ms = lease\<rparr>)"

definition is_open :: "candidate_session \<Rightarrow> bool" where
  "is_open s \<longleftrightarrow> is_status (cs_life s) \<in> set mutable_statuses"

section \<open>Starting an attempt\<close>

definition session_start_time :: "candidate_session \<Rightarrow> time" where
  "session_start_time s = (case is_started_at (cs_life s) of Some t \<Rightarrow> t | None \<Rightarrow> 0)"

definition open_attempts :: "nat \<Rightarrow> string \<Rightarrow> iv_db \<Rightarrow> candidate_session list" where
  "open_attempts user slug db =
     rev (sort_key session_start_time (filter (\<lambda>s. cs_user s = Some user \<and> cs_slug s = slug \<and> is_open s) (iv_sessions db)))"

text \<open>
  The loop over the open attempts: each is expired when its time is over; the first that is still open
  is the answer.
\<close>

fun resume_or_expire :: "(nat \<Rightarrow> time) \<Rightarrow> nat \<Rightarrow> candidate_session list \<Rightarrow> iv_db \<Rightarrow> iv_db \<times> candidate_session option" where
  "resume_or_expire clk n [] db = (db, None)"
| "resume_or_expire clk n (s # rest) db =
     (let s' = s\<lparr>cs_life := fst (maybe_expire_session (clk n) (cs_life s))\<rparr>;
          db' = store_session s' db
      in if is_open s' then (db', Some s') else resume_or_expire clk (Suc n) rest db')"

definition fresh_attempt ::
  "'s route_env \<Rightarrow> time \<Rightarrow> nat \<Rightarrow> nat \<Rightarrow> string \<Rightarrow> int \<Rightarrow> path \<Rightarrow> candidate_session" where
  "fresh_attempt E now new_id user slug attempt workspace =
     \<lparr>cs_id = new_id, cs_user = Some user, cs_slug = slug, cs_attempt = attempt, cs_workspace = workspace,
      cs_life = \<lparr>is_status = ''active'', is_expires_at = Some (compute_expires_at (ro_ttl_hours E) now (Some now)),
        is_timer_elapsed_ms = Some 0, is_timer_last_seen_at = None, is_timer_editor_token = None,
        is_active_duration_ms = None, is_started_at = Some now, is_submitted_at = None\<rparr>,
      cs_abandon_reason = None, cs_wall_duration_ms = None, cs_infra_blocked_ms = 0,
      cs_challenge_version = ro_version_for E slug, cs_scoring_version = ro_scoring_version E\<rparr>"

text \<open>\<open>assert_session_isolation\<close>\<close>

definition isolated :: "ws_config \<Rightarrow> files \<Rightarrow> string \<Rightarrow> string \<Rightarrow> bool" where
  "isolated cfg fs session_id slug =
     (case wc_challenge_dir cfg slug of
        None \<Rightarrow> False
      | Some dir \<Rightarrow>
          (case (resolve_path fs dir, resolve_path fs (wc_root cfg @ [session_id])) of
             (Some src, Some ws) \<Rightarrow> \<not> prefix src ws \<and> \<not> strict_prefix ws src
           | _ \<Rightarrow> False))"

definition workspace_error :: http_error where
  "workspace_error = HTTPException 500 ''Could not prepare challenge workspace.'' None"

definition attempt_owner :: "candidate_session \<Rightarrow> string \<times> string" where
  "attempt_owner s = (case cs_user s of Some u \<Rightarrow> show_nat u | None \<Rightarrow> [], cs_slug s)"

definition start_session ::
  "'s route_env \<Rightarrow> int \<Rightarrow> (nat \<Rightarrow> time) \<Rightarrow> nat \<Rightarrow> nat \<Rightarrow> string option \<Rightarrow> string \<Rightarrow> 's session_world \<Rightarrow>
   's session_world \<times> (http_error + session_answer)" where
  "start_session E free clk new_id user beta_status slug w =
     (if beta_status = Some ''disabled'' then (w, Inl (HTTPException 403 ''Account disabled'' None))
      else case limit_route E (clk 0) (''interview-start:'' @ show_nat user) 20 60 w of
          (w1, Some e) \<Rightarrow> (w1, Inl e)
        | (w1, None) \<Rightarrow>
            if \<not> ro_challenge E slug then (w1, Inl (HTTPException 404 ''Challenge not found'' None))
            else (case resume_or_expire clk 2 (open_attempts user slug (sw_db w1)) (sw_db w1) of
                (db1, Some s) \<Rightarrow> (with_db db1 w1, Inr (session_to_response (clk 1) s))
              | (db1, None) \<Rightarrow>
                  (let cfg = fe_config (ro_files E); id_text = show_nat new_id;
                       attempt = next_attempt_number (map attempt_owner (iv_sessions db1)) (show_nat user) slug
                   in case create_workspace cfg free id_text slug (iw_ws (sw_iv w1)) of
                        (st, Inl (ws_exc.Http h)) \<Rightarrow> (with_files st w1, Inl h)
                      | (st, Inl _) \<Rightarrow> (with_files st w1, Inl workspace_error)
                      | (st, Inr dir) \<Rightarrow>
                          if \<not> isolated cfg (ws_files st) id_text slug then (with_files st w1, Inl workspace_error)
                          else
                            (let s = fresh_attempt E (clk 1) new_id user slug attempt dir;
                                 db2 = add_event new_id ''session_started''
                                   [(''slug'', JStr slug), (''attempt'', JInt attempt)] False
                                   (db1\<lparr>iv_sessions := iv_sessions db1 @ [s]\<rparr>)
                             in (with_db db2 (with_files st w1), Inr (session_to_response (clk 1) s))))))"

text \<open>\<open>get_session\<close>, limited by the address of the client, and \<open>session_timer\<close>\<close>

definition limit_client :: "'s route_env \<Rightarrow> time \<Rightarrow> string \<Rightarrow> 's session_world \<Rightarrow> 's session_world \<times> http_error option" where
  "limit_client E now ip w = limit_route E now (''interview:'' @ ip) (ro_rate E) 60 w"

definition get_session ::
  "'s route_env \<Rightarrow> (nat \<Rightarrow> time) \<Rightarrow> nat \<Rightarrow> nat \<Rightarrow> string \<Rightarrow> 's session_world \<Rightarrow> 's session_world \<times> (http_error + session_answer)" where
  "get_session E clk session_id user ip w =
     (case limit_client E (clk 0) ip w of
        (w1, Some e) \<Rightarrow> (w1, Inl e)
      | (w1, None) \<Rightarrow>
          (case load_owned_session (clk 1) session_id user (sw_db w1) of
             Inl e \<Rightarrow> (w1, Inl e)
           | Inr s \<Rightarrow> (with_db (store_session s (sw_db w1)) w1, Inr (session_to_response (clk 2) s))))"

definition session_timer ::
  "(nat \<Rightarrow> time) \<Rightarrow> nat \<Rightarrow> nat \<Rightarrow> string \<Rightarrow> string \<Rightarrow> 's session_world \<Rightarrow> 's session_world \<times> (http_error + session_answer)" where
  "session_timer clk session_id user action editor_token w =
     (case load_owned_session (clk 0) session_id user (sw_db w) of
        Inl e \<Rightarrow> (w, Inl e)
      | Inr s \<Rightarrow>
          (case (if is_open s then update_timer (clk 1) (clk 2) action editor_token (cs_life s) else (cs_life s, None)) of
             (life, Some e) \<Rightarrow> (w, Inl e)
           | (life, None) \<Rightarrow>
               (let s' = s\<lparr>cs_life := life\<rparr>
                in (with_db (store_session s' (sw_db w)) w, Inr (session_to_response (clk 3) s')))))"

section \<open>The steps of a task\<close>

text \<open>\<open>_level_progress\<close>: the step the attempt is on, and the test runs since it began.\<close>

definition count_level :: "session_event \<Rightarrow> int \<times> int \<Rightarrow> int \<times> int" where
  "count_level e p =
     (if se_type e = ''level_advanced'' then (fst p + 1, 0)
      else if se_type e = ''test_run'' then (fst p, snd p + 1)
      else p)"

definition level_progress :: "nat \<Rightarrow> iv_db \<Rightarrow> int \<times> int" where
  "level_progress session_id db = fold count_level (session_events session_id db) (0, 0)"

record level_step =
  ls_index :: int
  ls_total :: int
  ls_current :: "string \<times> string \<times> string"
  ls_problem :: string
  ls_can_advance :: bool
  ls_is_last :: bool
  ls_earlier :: "(string \<times> string \<times> string) list"

text \<open>Every task has at least one level; the guide and the parts of the contract are left out.\<close>

definition level_view :: "(string \<Rightarrow> task_def option) \<Rightarrow> string \<Rightarrow> int \<Rightarrow> int \<Rightarrow> level_step option" where
  "level_view tasks slug index tests_on_step =
     (case tasks slug of
        None \<Rightarrow> None
      | Some task \<Rightarrow>
          (let levels = tk_levels task; n = int (length levels); i = max 0 (min index (n - 1)) in
           if levels = [] then None
           else Some \<lparr>ls_index = i, ls_total = n, ls_current = levels ! nat i, ls_problem = tk_problem task,
                  ls_can_advance = (i < n - 1 \<and> tests_on_step > 0), ls_is_last = (i = n - 1),
                  ls_earlier = take (nat i) levels\<rparr>))"

definition no_steps :: http_error where
  "no_steps = HTTPException 404 ''No steps for this task'' None"

definition get_session_level ::
  "'s route_env \<Rightarrow> (nat \<Rightarrow> time) \<Rightarrow> nat \<Rightarrow> nat \<Rightarrow> 's session_world \<Rightarrow> http_error + level_step" where
  "get_session_level E clk session_id user w =
     bind (load_owned_session (clk 0) session_id user (sw_db w)) (\<lambda>s.
       (let (index, tests_on_step) = level_progress session_id (sw_db w) in
        case level_view (ro_tasks E) (cs_slug s) index tests_on_step of
          None \<Rightarrow> Inl no_steps | Some view \<Rightarrow> Inr view))"

definition advance_session_level ::
  "'s route_env \<Rightarrow> (nat \<Rightarrow> time) \<Rightarrow> nat \<Rightarrow> nat \<Rightarrow> string option \<Rightarrow> 's session_world \<Rightarrow>
   's session_world \<times> (http_error + level_step)" where
  "advance_session_level E clk session_id user editor_token w =
     (case editable clk session_id user editor_token (sw_db w) of
        Inl e \<Rightarrow> (w, Inl e)
      | Inr s \<Rightarrow>
          (let (index, tests_on_step) = level_progress session_id (sw_db w) in
           case level_view (ro_tasks E) (cs_slug s) index tests_on_step of
             None \<Rightarrow> (w, Inl no_steps)
           | Some view \<Rightarrow>
               if ls_is_last view then (w, Inl (HTTPException 400 ''This is the last step.'' None))
               else if \<not> ls_can_advance view
               then (w, Inl (HTTPException 400 ''Run the tests for this step before the next one.'' None))
               else
                 (let db1 = add_event session_id ''level_advanced'' [(''from_index'', JInt index)] False (sw_db w) in
                  (with_db (store_session s db1) w,
                   case level_view (ro_tasks E) (cs_slug s) (index + 1) 0 of
                     None \<Rightarrow> Inl server_error | Some next_view \<Rightarrow> Inr next_view))))"

section \<open>Reading the workspace\<close>

text \<open>The listing commits nothing, so an expiry that it sees is not stored; the files it rebuilds stay.\<close>

definition session_files ::
  "'s route_env \<Rightarrow> int \<Rightarrow> (nat \<Rightarrow> time) \<Rightarrow> nat \<Rightarrow> nat \<Rightarrow> 's session_world \<Rightarrow>
   's session_world \<times> (http_error + (string \<times> nat) list)" where
  "session_files E free clk session_id user w =
     (case load_owned_session (clk 0) session_id user (sw_db w) of
        Inl e \<Rightarrow> (w, Inl e)
      | Inr s \<Rightarrow>
          (case session_workspace (ro_files E) free s (sw_iv w) of
             (st, Inl e) \<Rightarrow> (with_files st w, Inl (uncaught_ws e))
           | (st, Inr s1) \<Rightarrow> (with_files st w, Inr (list_files (ws_files st) (cs_workspace s1)))))"

record bootstrap_answer =
  ba_session :: session_answer
  ba_files :: "(string \<times> nat) list"
  ba_level :: "level_step option"
  ba_readme :: "file_content option"

definition readme_name :: string where
  "readme_name = ''README.md''"

definition workspace_bootstrap ::
  "'s route_env \<Rightarrow> int \<Rightarrow> (nat \<Rightarrow> time) \<Rightarrow> nat \<Rightarrow> nat \<Rightarrow> string \<Rightarrow> 's session_world \<Rightarrow>
   's session_world \<times> (http_error + bootstrap_answer)" where
  "workspace_bootstrap E free clk session_id user ip w =
     (case limit_client E (clk 0) ip w of
        (w1, Some e) \<Rightarrow> (w1, Inl e)
      | (w1, None) \<Rightarrow>
          (case load_owned_session (clk 1) session_id user (sw_db w1) of
             Inl e \<Rightarrow> (w1, Inl e)
           | Inr s \<Rightarrow>
               (case session_workspace (ro_files E) free s (sw_iv w1) of
                  (st, Inl e) \<Rightarrow> (with_files st w1, Inl (uncaught_ws e))
                | (st, Inr s1) \<Rightarrow>
                    (let files = list_files (ws_files st) (cs_workspace s1);
                         (index, tests_on_step) = level_progress session_id (sw_db w1);
                         view = level_view (ro_tasks E) (cs_slug s1) index tests_on_step;
                         give = (\<lambda>db readme. (with_db (store_session s1 db) (with_files st w1),
                           Inr \<lparr>ba_session = session_to_response (clk 2) s1, ba_files = files, ba_level = view, ba_readme = readme\<rparr>))
                     in if \<not> list_ex (\<lambda>f. fst f = readme_name) files then give (sw_db w1) None
                        else (case read_file (fe_decode (ro_files E)) (ws_files st) (cs_workspace s1) readme_name of
                            Inl e \<Rightarrow> (with_files st w1, Inl (uncaught_ws e))
                          | Inr content \<Rightarrow>
                              give (add_event session_id ''file_viewed'' [(''path'', JStr readme_name)] True (sw_db w1))
                                (Some \<lparr>fc_path = readme_name, fc_content = content,
                                   fc_revision = current_revision session_id readme_name (iv_files (sw_db w1))\<rparr>))))))"

definition list_events :: "(nat \<Rightarrow> time) \<Rightarrow> nat \<Rightarrow> nat \<Rightarrow> 's session_world \<Rightarrow> http_error + session_event list" where
  "list_events clk session_id user w =
     bind (load_owned_session (clk 0) session_id user (sw_db w)) (\<lambda>s. Inr (session_events (cs_id s) (sw_db w)))"

section \<open>Abandoning an attempt\<close>

definition abandon_session ::
  "(nat \<Rightarrow> time) \<Rightarrow> nat \<Rightarrow> nat \<Rightarrow> string option \<Rightarrow> string \<Rightarrow> 's session_world \<Rightarrow> 's session_world \<times> (http_error + unit)" where
  "abandon_session clk session_id user editor_token reason w =
     (case load_owned_session (clk 0) session_id user (sw_db w) of
        Inl e \<Rightarrow> (w, Inl e)
      | Inr s \<Rightarrow>
          if is_status (cs_life s) = ''abandoned'' then (w, Inr ())
          else if \<not> is_open s then (w, Inl (HTTPException 400 ''Session is not active.'' None))
          else (case require_editor (clk 1) (cs_life s) editor_token of
              Some e \<Rightarrow> (w, Inl e)
            | None \<Rightarrow>
                (let life = (stop_timer (clk 2) (cs_life s))\<lparr>is_status := ''abandoned''\<rparr>;
                     s' = s\<lparr>cs_life := life,
                        cs_abandon_reason := (if take 256 reason = [] then None else Some (take 256 reason))\<rparr>
                 in (with_db (store_session s' (sw_db w)) w, Inr ()))))"

section \<open>Admission to grading\<close>

definition max_pending_per_user :: nat where
  "max_pending_per_user = 3"

definition pending_job :: "grading_job \<Rightarrow> bool" where
  "pending_job j \<longleftrightarrow> gj_status j = GradingQueued \<or> gj_status j = GradingRunning"

definition pending_eval :: "evaluation_job \<Rightarrow> bool" where
  "pending_eval j \<longleftrightarrow> job_status j \<in> {JobQueued, JobRetry, JobRunning}"

definition capacity_reached :: http_error where
  "capacity_reached =
     HTTPException 429 ''Grading capacity reached. Try again after a submission finishes.'' (Some 60)"

definition require_global_grading_capacity :: "'s route_env \<Rightarrow> 's session_world \<Rightarrow> http_error option" where
  "require_global_grading_capacity E w =
     (if int (length (filter pending_job (gd_jobs (sw_grading w))) + length (filter pending_eval (sw_eval_jobs w)))
         \<ge> ro_max_pending E
      then Some capacity_reached else None)"

text \<open>The join of the jobs with the sessions of a user.\<close>

definition owned_by :: "nat \<Rightarrow> iv_db \<Rightarrow> grading_job \<Rightarrow> bool" where
  "owned_by user db j \<longleftrightarrow> list_ex (\<lambda>s. show_nat (cs_id s) = gj_session_id j \<and> cs_user s = Some user) (iv_sessions db)"

definition pending_of :: "nat \<Rightarrow> 's session_world \<Rightarrow> grading_job list" where
  "pending_of user w = filter (\<lambda>j. pending_job j \<and> owned_by user (sw_db w) j) (gd_jobs (sw_grading w))"

definition require_grading_capacity :: "'s route_env \<Rightarrow> nat option \<Rightarrow> 's session_world \<Rightarrow> http_error option" where
  "require_grading_capacity E user_id w =
     (case user_id of
        None \<Rightarrow> Some (HTTPException 409 ''Grading requires an owned session'' None)
      | Some user \<Rightarrow>
          (case require_global_grading_capacity E w of
             Some e \<Rightarrow> Some e
           | None \<Rightarrow>
               if user \<notin> set (sw_users w) then Some (HTTPException 404 ''Session owner not found'' None)
               else if length (pending_of user w) \<ge> max_pending_per_user
               then Some (HTTPException 429 ''Three submissions are already waiting for grading. Try again after one finishes.'' (Some 60))
               else None))"

section \<open>Submitting\<close>

definition not_frozen :: http_error where
  "not_frozen = HTTPException 409 ''Submitted source could not be frozen safely'' None"

text \<open>\<open>except (OSError, ValueError)\<close> around the freeze.\<close>

definition freeze_error :: "ws_exc \<Rightarrow> http_error" where
  "freeze_error e = (case e of ws_exc.Http h \<Rightarrow> h | RuntimeErr \<Rightarrow> server_error | _ \<Rightarrow> not_frozen)"

definition duration_ms :: "time option \<Rightarrow> time option \<Rightarrow> int option" where
  "duration_ms a b = (case (a, b) of (Some x, Some y) \<Rightarrow> Some (max 0 (ms_between x y)) | _ \<Rightarrow> None)"

definition grading_status_text :: "grading_status \<Rightarrow> string" where
  "grading_status_text s =
     (case s of GradingQueued \<Rightarrow> ''queued'' | GradingRunning \<Rightarrow> ''running'' | GradingCompleted \<Rightarrow> ''completed''
      | GradingFailed \<Rightarrow> ''failed'')"

text \<open>The metrics of the report, with the packet bound to the frozen source and its job.\<close>

definition submission_metrics :: "'s route_env \<Rightarrow> string \<Rightarrow> grading_job \<Rightarrow> string \<Rightarrow> json dict \<Rightarrow> py_exc + json dict" where
  "submission_metrics E digest job slug metrics =
     bind (dict_item metrics ''assessment'') (\<lambda>a. bind (to_dict a) (\<lambda>assessment.
     bind (dict_item assessment ''packet'') (\<lambda>p. bind (to_dict p) (\<lambda>packet.
     bind (dict_item packet ''evidence'') (\<lambda>ev. bind (to_list ev) (\<lambda>evidence.
       let packet' = set_key ''evidence'' (JList (evidence @ [evidence_item (''source:'' @ digest) ''submitted_source'' digest]))
             (set_key ''grading_job_id'' (JStr (gj_id job)) (set_key ''source_digest'' (JStr digest) packet));
           assessment' = set_key ''execution_status'' (JStr (grading_status_text (gj_status job)))
             (set_key ''packet_digest'' (JStr (json_digest (re_grading (av_review (ro_auto E))) (JObj packet')))
               (set_key ''packet'' (JObj packet') assessment))
       in Inr (set_key ''answer_guides'' (JList (ro_guides E slug))
                (set_key ''defend_answers'' (JObj []) (set_key ''assessment'' (JObj assessment') metrics)))))))))"

definition submitted_life :: "time \<Rightarrow> time \<Rightarrow> int \<Rightarrow> interview_session \<Rightarrow> interview_session" where
  "submitted_life t0 t1 blocked life =
     (let stopped = (stop_timer t0 life)\<lparr>is_status := ''submitted'', is_submitted_at := Some t1\<rparr>;
          worked = (case is_timer_elapsed_ms stopped of Some e \<Rightarrow> e | None \<Rightarrow> 0)
      in if duration_ms (is_started_at life) (Some t1) = None then stopped
         else stopped\<lparr>is_active_duration_ms := Some (max 0 (worked - blocked))\<rparr>)"

text \<open>What the submission writes, once the source is frozen.\<close>

definition record_submission ::
  "'s route_env \<Rightarrow> (nat \<Rightarrow> time) \<Rightarrow> string \<Rightarrow> candidate_session \<Rightarrow> frozen_snapshot \<Rightarrow> iv_db \<Rightarrow> grading_db \<Rightarrow>
   py_exc + iv_db \<times> grading_db" where
  "record_submission E clk new_job s snapshot db g =
     (let version = (if cs_challenge_version s = [] then ro_version_for E (cs_slug s) else cs_challenge_version s);
          id_text = show_nat (cs_id s); digest = fs_source_digest snapshot in
      bind (enqueue_grading_job new_job (clk 4) id_text (cs_slug s) version
              (CHR ''/'' # as_posix (fs_source_path snapshot), digest, Some (fs_object_key snapshot)) g) (\<lambda>(g1, job).
        let db1 = add_event (cs_id s) ''submission''
              [(''source_digest'', JStr digest), (''grading_job_id'', JStr (gj_id job))] False db;
            events = session_events (cs_id s) db1
        in bind (ro_score E s events snapshot) (\<lambda>scored.
           bind (submission_metrics E digest job (cs_slug s) scored) (\<lambda>metrics.
             let s' = s\<lparr>cs_life := submitted_life (clk 5) (clk 6) (cs_infra_blocked_ms s) (cs_life s),
                    cs_wall_duration_ms := (case duration_ms (is_started_at (cs_life s)) (Some (clk 6)) of
                        Some d \<Rightarrow> Some d | None \<Rightarrow> cs_wall_duration_ms s),
                    cs_challenge_version := version, cs_scoring_version := ro_scoring_version E\<rparr>;
                 row = \<lparr>ie_session_id = id_text, ie_metrics = metrics, ie_defend_questions = ro_questions E s events,
                    ie_scoring_version = ro_scoring_version E\<rparr>
             in Inr (store_session s' db1, g1\<lparr>gd_evaluations := gd_evaluations g1 @ [row]\<rparr>)))))"

definition submit_session ::
  "'s route_env \<Rightarrow> int \<Rightarrow> (nat \<Rightarrow> time) \<Rightarrow> string \<Rightarrow> nat \<Rightarrow> nat \<Rightarrow> string option \<Rightarrow> 's session_world \<Rightarrow>
   's session_world \<times> (http_error + unit)" where
  "submit_session E free clk new_job session_id user editor_token w =
     (case load_owned_session (clk 0) session_id user (sw_db w) of
        Inl e \<Rightarrow> (w, Inl e)
      | Inr s0 \<Rightarrow>
          if is_status (cs_life s0) = ''submitted'' \<and>
             row_get ie_session_id (show_nat session_id) (gd_evaluations (sw_grading w)) \<noteq> None
          then (w, Inr ())
          else
            (let s = s0\<lparr>cs_life := fst (maybe_expire_session (clk 1) (cs_life s0))\<rparr> in
             if is_status (cs_life s) = ''expired''
             then (w, Inl (HTTPException 410 ''Session expired before submit. Start a new attempt.'' None))
             else if \<not> is_open s then (w, Inl (HTTPException 409 ''Session cannot be submitted.'' None))
             else case require_editor (clk 2) (cs_life s) editor_token of
                 Some e \<Rightarrow> (w, Inl e)
               | None \<Rightarrow>
                   if \<not> ro_challenge E (cs_slug s) then (w, Inl (HTTPException 404 ''Challenge missing'' None))
                   else (case require_grading_capacity E (cs_user s) w of
                       Some e \<Rightarrow> (w, Inl e)
                     | None \<Rightarrow>
                         (case session_workspace (ro_files E) free s (sw_iv w) of
                            (st, Inl e) \<Rightarrow> (with_files st w, Inl (freeze_error e))
                          | (st, Inr s1) \<Rightarrow>
                              (case freeze_submission (ro_freeze E) free (cs_workspace s1) (show_nat session_id) (st, sw_store w) of
                                 ((st2, store), Inl e) \<Rightarrow> ((with_files st2 w)\<lparr>sw_store := store\<rparr>, Inl (freeze_error e))
                               | ((st2, store), Inr snapshot) \<Rightarrow>
                                   (let w1 = (with_files st2 w)\<lparr>sw_store := store\<rparr> in
                                    case record_submission E clk new_job s1 snapshot (sw_db w) (sw_grading w) of
                                      Inl _ \<Rightarrow> (w1, Inl server_error)
                                    | Inr (db2, g2) \<Rightarrow> ((with_db db2 w1)\<lparr>sw_grading := g2\<rparr>, Inr ())))))))"

section \<open>After the submission\<close>

text \<open>The attempts to read or change the metrics of a report; an exception is an internal error.\<close>

definition get_evaluation :: "nat \<Rightarrow> 's session_world \<Rightarrow> interview_evaluation option" where
  "get_evaluation session_id w = row_get ie_session_id (show_nat session_id) (gd_evaluations (sw_grading w))"

definition put_metrics :: "nat \<Rightarrow> json dict \<Rightarrow> 's session_world \<Rightarrow> 's session_world" where
  "put_metrics session_id metrics w = w\<lparr>sw_grading := store_metrics (show_nat session_id) metrics (sw_grading w)\<rparr>"

definition grading_history :: "json dict \<Rightarrow> json \<Rightarrow> py_exc + json" where
  "grading_history metrics prior =
     bind (to_list (py_or (dict_get metrics ''auto_grading_history'' JNull) (JList []))) (\<lambda>old.
       Inr (JList (last5 (old @ [prior]))))"

definition retry_metrics :: "'s route_env \<Rightarrow> interview_evaluation \<Rightarrow> py_exc + http_error + json dict" where
  "retry_metrics E ev =
     (let metrics = ie_metrics ev; repr = av_py_repr (ro_auto E) in
      bind (defense_complete repr ev) (\<lambda>complete.
        if \<not> complete then Inr (Inl (HTTPException 409 ''Complete the defense answers before grading'' None))
        else bind (as_dict (py_or (dict_get metrics ''auto_grading'' JNull) (JObj []))) (\<lambda>auto.
          if dict_get auto ''status'' JNull \<notin> {JStr ''needs_review'', JStr ''retry_pending''}
          then Inr (Inl (HTTPException 409 ''A retry is not needed'' None))
          else bind (json_int (dict_get metrics ''auto_grade_retries'' (JInt 0))) (\<lambda>retries.
            if retries \<ge> 1 then Inr (Inl (HTTPException 409 ''Retry limit reached; retain this report for review'' None))
            else bind (grading_history metrics (dict_get metrics ''auto_grading'' JNull)) (\<lambda>history.
              bind (queue_state repr ev) (\<lambda>queued.
                Inr (Inr (set_key ''auto_grading'' queued (set_key ''auto_grade_retries'' (JInt (retries + 1))
                  (set_key ''auto_grading_history'' history metrics))))))))))"

definition not_available :: http_error where
  "not_available = HTTPException 409 ''Automatic grading is not available'' None"

definition retry_automatic_grade ::
  "'s route_env \<Rightarrow> (nat \<Rightarrow> time) \<Rightarrow> nat \<Rightarrow> nat \<Rightarrow> 's session_world \<Rightarrow> 's session_world \<times> (http_error + unit)" where
  "retry_automatic_grade E clk session_id user w =
     (case load_owned_session (clk 0) session_id user (sw_db w) of
        Inl e \<Rightarrow> (w, Inl e)
      | Inr s \<Rightarrow>
          if \<not> av_enabled (ro_auto E) \<or> is_status (cs_life s) \<noteq> ''submitted'' then (w, Inl not_available)
          else case limit_route E (clk 1) (''grade-retry:'' @ show_nat user) 3 3600 w of
              (w1, Some e) \<Rightarrow> (w1, Inl e)
            | (w1, None) \<Rightarrow>
                (case get_evaluation session_id w1 of
                   None \<Rightarrow> (w1, Inl (HTTPException 409 ''This attempt uses a different rubric version'' None))
                 | Some ev \<Rightarrow>
                     if ie_scoring_version ev \<noteq> ro_scoring_version E
                     then (w1, Inl (HTTPException 409 ''This attempt uses a different rubric version'' None))
                     else (case retry_metrics E ev of
                         Inl _ \<Rightarrow> (w1, Inl server_error)
                       | Inr (Inl e) \<Rightarrow> (w1, Inl e)
                       | Inr (Inr metrics) \<Rightarrow> (put_metrics session_id metrics w1, Inr ()))))"

text \<open>\<open>str(body.index)\<close> names the answer; the rubric of a report of version 2 is no column here.\<close>

definition defend_metrics ::
  "'s route_env \<Rightarrow> nat \<Rightarrow> string \<Rightarrow> interview_evaluation \<Rightarrow> py_exc + json dict" where
  "defend_metrics E index answer ev =
     bind (to_dict (py_or (dict_get (ie_metrics ev) ''defend_answers'' JNull) (JObj []))) (\<lambda>old.
       let answers = set_key (show_nat index) (JStr (take 4000 answer)) old;
           metrics = set_key ''defend_answers'' (JObj answers) (ie_metrics ev)
       in if ie_scoring_version ev \<notin> {''v3-evidence'', ro_scoring_version E} then Inr metrics
          else
            bind (dict_item metrics ''assessment'') (\<lambda>a. bind (to_dict a) (\<lambda>assessment.
            bind (revise_defense (re_grading (av_review (ro_auto E))) assessment answers) (\<lambda>revised.
              let metrics1 = set_key ''assessment'' (JObj revised) metrics in
              if \<not> av_enabled (ro_auto E) then Inr metrics1
              else
                (let previous = dict_get metrics1 ''auto_grading'' JNull in
                 bind (if truthy previous then bind (as_dict previous) (\<lambda>d. Inr (truthy (dict_get d ''outcome'' JNull)))
                       else Inr False) (\<lambda>graded.
                 bind (if graded then bind (grading_history metrics1 previous) (\<lambda>h. Inr (set_key ''auto_grading_history'' h metrics1))
                       else Inr metrics1) (\<lambda>metrics2.
                 bind (queue_state (av_py_repr (ro_auto E)) (ev\<lparr>ie_metrics := metrics2\<rparr>)) (\<lambda>queued.
                   Inr (set_key ''auto_grading'' queued metrics2)))))))))"

definition post_defend_answer ::
  "'s route_env \<Rightarrow> (nat \<Rightarrow> time) \<Rightarrow> nat \<Rightarrow> nat \<Rightarrow> nat \<Rightarrow> string \<Rightarrow> 's session_world \<Rightarrow> 's session_world \<times> (http_error + unit)" where
  "post_defend_answer E clk session_id user index answer w =
     (case load_owned_session (clk 0) session_id user (sw_db w) of
        Inl e \<Rightarrow> (w, Inl e)
      | Inr s \<Rightarrow>
          if is_status (cs_life s) \<noteq> ''submitted'' then (w, Inl (HTTPException 400 ''Submit before defend'' None))
          else (case get_evaluation session_id w of
              None \<Rightarrow> (w, Inl (HTTPException 404 ''Report not ready'' None))
            | Some ev \<Rightarrow>
                (let n = (if ie_defend_questions ev = [] then ro_question_count E (cs_slug s)
                          else length (ie_defend_questions ev)) in
                 if index \<ge> n \<or> strip answer = [] then (w, Inl (HTTPException 400 ''Invalid defense answer'' None))
                 else (case defend_metrics E index answer ev of
                     Inl _ \<Rightarrow> (w, Inl server_error)
                   | Inr metrics \<Rightarrow>
                       (let db1 = add_event session_id ''defend_answer''
                              [(''index'', JInt (int index)), (''chars'', JInt (int (length answer))),
                               (''answer'', JStr (take 4000 answer))] False (sw_db w)
                        in (put_metrics session_id metrics (with_db db1 w), Inr ()))))))"

section \<open>Requests and workers in any order\<close>

datatype route_request =
    StartRoute nat nat "string option" string
  | ReadRoute nat nat string
  | ListRoute nat nat
  | BootRoute nat nat string
  | TimerRoute nat nat string string
  | LevelRoute nat nat "string option"
  | AbandonRoute nat nat "string option" string
  | SubmitRoute string nat nat "string option"
  | RetryRoute nat nat
  | DefendRoute nat nat nat string
  | FileRoute file_request
  | WorkerStep grading_op

text \<open>\<open>free\<close> is the free space of the disk, \<open>key\<close> and \<open>timeout\<close> are those of the grading worker.\<close>

definition serve ::
  "'s route_env \<Rightarrow> string \<Rightarrow> rat \<Rightarrow> (nat \<Rightarrow> time) \<Rightarrow> int \<Rightarrow> route_request \<Rightarrow> 's session_world \<Rightarrow> 's session_world" where
  "serve E key timeout clk free r w =
     (case r of
        StartRoute new_id user beta slug \<Rightarrow> fst (start_session E free clk new_id user beta slug w)
      | ReadRoute sid user ip \<Rightarrow> fst (get_session E clk sid user ip w)
      | ListRoute sid user \<Rightarrow> fst (session_files E free clk sid user w)
      | BootRoute sid user ip \<Rightarrow> fst (workspace_bootstrap E free clk sid user ip w)
      | TimerRoute sid user action token \<Rightarrow> fst (session_timer clk sid user action token w)
      | LevelRoute sid user token \<Rightarrow> fst (advance_session_level E clk sid user token w)
      | AbandonRoute sid user token reason \<Rightarrow> fst (abandon_session clk sid user token reason w)
      | SubmitRoute new_job sid user token \<Rightarrow> fst (submit_session E free clk new_job sid user token w)
      | RetryRoute sid user \<Rightarrow> fst (retry_automatic_grade E clk sid user w)
      | DefendRoute sid user index answer \<Rightarrow> fst (post_defend_answer E clk sid user index answer w)
      | FileRoute fr \<Rightarrow> w\<lparr>sw_iv := serve_files (ro_files E) (clk, free, fr) (sw_iv w)\<rparr>
      | WorkerStep op \<Rightarrow>
          w\<lparr>sw_grading := fst (grading_step (re_grading (av_review (ro_auto E))) key timeout op (sw_grading w))\<rparr>)"

text \<open>The identifiers a request draws are new.\<close>

fun new_names :: "route_request \<Rightarrow> 's session_world \<Rightarrow> bool" where
  "new_names (StartRoute new_id _ _ _) w \<longleftrightarrow> new_id \<notin> cs_id ` set (iv_sessions (sw_db w))"
| "new_names (SubmitRoute new_job _ _ _) w \<longleftrightarrow> new_job \<notin> gj_id ` set (gd_jobs (sw_grading w))"
| "new_names _ w \<longleftrightarrow> True"

inductive route_reachable :: "'s route_env \<Rightarrow> string \<Rightarrow> rat \<Rightarrow> 's session_world \<Rightarrow> 's session_world \<Rightarrow> bool"
  for E key timeout w0 where
  start: "route_reachable E key timeout w0 w0"
| step: "route_reachable E key timeout w0 w \<Longrightarrow> new_names r w \<Longrightarrow>
    route_reachable E key timeout w0 (serve E key timeout clk free r w)"

end
