(* ===== verification/AttemptLife.thy ===== *)
theory AttemptLife
  imports InterviewRoutes
begin

text \<open>
  What holds of the attempts of a candidate however the requests and the grading workers interleave:
  there is at most one open attempt of a challenge, the attempts are numbered, an attempt that was
  submitted has its report and its grading job, and a candidate has at most three jobs waiting.
\<close>

section \<open>What a request may do to a session\<close>

definition is_submitted :: "candidate_session \<Rightarrow> bool" where
  "is_submitted s \<longleftrightarrow> is_status (cs_life s) = ''submitted''"

definition keeps :: "candidate_session \<Rightarrow> candidate_session \<Rightarrow> bool" where
  "keeps s s' \<longleftrightarrow>
     cs_id s' = cs_id s \<and> cs_user s' = cs_user s \<and> cs_slug s' = cs_slug s \<and> cs_attempt s' = cs_attempt s \<and>
     (is_open s' \<longrightarrow> is_open s)"

definition follows :: "candidate_session \<Rightarrow> candidate_session \<Rightarrow> bool" where
  "follows s s' \<longleftrightarrow> keeps s s' \<and> (is_submitted s' \<longleftrightarrow> is_submitted s)"

definition evolves :: "candidate_session list \<Rightarrow> candidate_session list \<Rightarrow> bool" where
  "evolves ss ss' \<longleftrightarrow> list_all2 follows ss ss'"

lemma follows_refl [simp]: "follows s s"
  by (simp add: keeps_def follows_def)

lemma follows_trans: "follows s t \<Longrightarrow> follows t u \<Longrightarrow> follows s u"
  by (auto simp: keeps_def follows_def)

lemma evolves_refl [simp]: "evolves ss ss"
  by (simp add: evolves_def list_all2_refl)

lemma evolves_trans: "evolves a b \<Longrightarrow> evolves b c \<Longrightarrow> evolves a c"
  unfolding evolves_def by (rule list_all2_trans [OF follows_trans])

lemma evolves_ids: "evolves ss ss' \<Longrightarrow> map cs_id ss' = map cs_id ss"
  unfolding evolves_def by (induction rule: list_all2_induct) (auto simp: keeps_def follows_def)

lemma evolves_distinct: "evolves ss ss' \<Longrightarrow> keys_distinct cs_id ss \<Longrightarrow> keys_distinct cs_id ss'"
  by (simp add: keys_distinct_def evolves_ids)

lemma evolves_get:
  "evolves ss ss' \<Longrightarrow> row_get cs_id k ss' = Some s' \<Longrightarrow> \<exists>s. row_get cs_id k ss = Some s \<and> follows s s'"
  unfolding evolves_def
proof (induction rule: list_all2_induct)
  case (Cons x xs y ys)
  moreover from Cons(1) have "cs_id y = cs_id x" by (simp add: keeps_def follows_def)
  ultimately show ?case by (auto split: if_splits)
qed simp

lemma row_get_replace:
  "cs_id s' = k \<Longrightarrow> row_get cs_id j (row_upd cs_id k (\<lambda>_. s') ss) =
     (if j = k \<and> row_get cs_id k ss \<noteq> None then Some s' else row_get cs_id j ss)"
  by (induction ss) auto

text \<open>A row that may be stored: it follows the one that is there.\<close>

definition storable :: "iv_db \<Rightarrow> candidate_session \<Rightarrow> bool" where
  "storable db s \<longleftrightarrow> (\<exists>s0. row_get cs_id (cs_id s) (iv_sessions db) = Some s0 \<and> follows s0 s)"

lemma row_upd_evolves:
  "keys_distinct cs_id ss \<Longrightarrow> row_get cs_id k ss = Some s0 \<Longrightarrow> follows s0 s \<Longrightarrow> evolves ss (row_upd cs_id k (\<lambda>_. s) ss)"
proof (induction ss)
  case (Cons x ss)
  have rest: "keys_distinct cs_id ss" using Cons.prems(1) by (simp add: keys_distinct_def)
  show ?case
  proof (cases "cs_id x = k")
    case True
    then have "k \<notin> cs_id ` set ss" using Cons.prems(1) by (auto simp: keys_distinct_def)
    then have "row_upd cs_id k (\<lambda>_. s) ss = ss" by (induction ss) auto
    then show ?thesis using True Cons.prems(2,3) by (simp add: evolves_def list_all2_refl)
  next
    case False
    then show ?thesis using Cons.IH [OF rest] Cons.prems(2,3) by (simp add: evolves_def)
  qed
qed simp

lemma evolves_store:
  "keys_distinct cs_id (iv_sessions db) \<Longrightarrow> storable db s \<Longrightarrow> iv_sessions db' = iv_sessions db \<Longrightarrow>
   evolves (iv_sessions db) (iv_sessions (store_session s db'))"
  by (auto simp: storable_def store_session_def intro: row_upd_evolves)

lemma expire_follows: "follows s (s\<lparr>cs_life := fst (maybe_expire_session now (cs_life s))\<rparr>)"
  by (auto simp: keeps_def follows_def is_open_def is_submitted_def maybe_expire_session_def mutable_statuses_def split: option.splits)

lemma load_storable: "load_owned_session now sid user db = Inr s \<Longrightarrow> storable db s \<and> cs_id s = sid"
proof -
  assume "load_owned_session now sid user db = Inr s"
  then obtain s0 where s0: "row_get cs_id sid (iv_sessions db) = Some s0"
    and s: "s = s0\<lparr>cs_life := fst (maybe_expire_session now (cs_life s0))\<rparr>"
    by (rule load_owned_sessionE)
  have "cs_id s0 = sid" using row_get_SomeD [OF s0] by simp
  then show ?thesis using s0 expire_follows unfolding storable_def s by auto
qed

lemma editable_storable: "editable clk sid user token db = Inr s \<Longrightarrow> storable db s \<and> cs_id s = sid"
  by (erule editableE) (auto simp: storable_def)

lemma workspace_storable: "session_workspace E free s w = (st, Inr s1) \<Longrightarrow> storable db s \<Longrightarrow> storable db s1"
  by (auto simp: session_workspace_def storable_def keeps_def follows_def is_open_def is_submitted_def split: prod.splits sum.splits)

lemma storable_same: "iv_sessions db' = iv_sessions db \<Longrightarrow> storable db' s = storable db s"
  by (simp add: storable_def)

section \<open>The file routes\<close>

lemma open_evolves:
  "keys_distinct cs_id (iv_sessions (iw_db w)) \<Longrightarrow>
   evolves (iv_sessions (iw_db w)) (iv_sessions (iw_db (fst (get_session_file E free clk sid user p w))))"
  by (simp add: get_session_file_def Let_def split: sum.split prod.split ws_exc.split)
    (auto intro!: evolves_store dest!: load_storable dest: workspace_storable)

lemma save_evolves:
  "keys_distinct cs_id (iv_sessions (iw_db w)) \<Longrightarrow>
   evolves (iv_sessions (iw_db w)) (iv_sessions (iw_db (fst (save_session_file E free clk sid user token p body w))))"
  by (simp add: save_session_file_def Let_def split: sum.split prod.split option.split)
    (auto intro!: evolves_store dest!: editable_storable dest: workspace_storable)

lemma reject_evolves:
  "keys_distinct cs_id (iv_sessions (iw_db w)) \<Longrightarrow> storable (iw_db w) s \<Longrightarrow>
   evolves (iv_sessions (iw_db w)) (iv_sessions (iw_db (fst (reject_edit E free s body w))))"
  by (simp add: reject_edit_def Let_def split: sum.split prod.split ws_exc.split)
    (auto intro!: evolves_store)

lemma apply_evolves:
  "keys_distinct cs_id (iv_sessions (iw_db w)) \<Longrightarrow>
   evolves (iv_sessions (iw_db w)) (iv_sessions (iw_db (fst (ai_apply_edit E free clk sid user token body w))))"
  by (simp add: ai_apply_edit_def Let_def split: sum.split prod.split option.split)
    (auto intro!: evolves_store reject_evolves dest!: editable_storable dest: workspace_storable)

lemma post_evolves:
  "keys_distinct cs_id (iv_sessions (iw_db w)) \<Longrightarrow>
   evolves (iv_sessions (iw_db w)) (iv_sessions (iw_db (fst (post_event clk sid user token kind payload w))))"
  by (simp add: post_event_def Let_def split: sum.split)
    (auto intro!: evolves_store dest!: editable_storable)

lemma serve_files_evolves:
  "keys_distinct cs_id (iv_sessions (iw_db w)) \<Longrightarrow>
   evolves (iv_sessions (iw_db w)) (iv_sessions (iw_db (serve_files E r w)))"
  by (induction E r w rule: serve_files.induct) (simp_all add: open_evolves save_evolves apply_evolves post_evolves)

section \<open>The other routes\<close>

lemma limit_frame:
  "limit_route E now key lmt win w = (w1, r) \<Longrightarrow> sw_iv w1 = sw_iv w \<and> sw_grading w1 = sw_grading w \<and> sw_users w1 = sw_users w"
  by (auto simp: limit_route_def split: prod.splits)

lemma limit_client_frame:
  "limit_client E now ip w = (w1, r) \<Longrightarrow> sw_iv w1 = sw_iv w \<and> sw_grading w1 = sw_grading w \<and> sw_users w1 = sw_users w"
  unfolding limit_client_def by (rule limit_frame)

lemma read_evolves:
  assumes dist: "keys_distinct cs_id (iv_sessions (sw_db w))"
  shows "evolves (iv_sessions (sw_db w)) (iv_sessions (sw_db (fst (get_session E clk sid user ip w))))"
proof -
  obtain w1 err where lim: "limit_client E (clk 0) ip w = (w1, err)" by (rule prod.exhaust)
  have same: "sw_iv w1 = sw_iv w" using limit_client_frame [OF lim] by simp
  then show ?thesis using dist lim
    by (simp add: get_session_def with_db_def split: sum.split option.split) (auto intro!: evolves_store dest!: load_storable)
qed

lemma list_sessions: "sw_db (fst (session_files E free clk sid user w)) = sw_db w"
  by (simp add: session_files_def with_files_def split: sum.split prod.split)

lemma boot_evolves:
  assumes dist: "keys_distinct cs_id (iv_sessions (sw_db w))"
  shows "evolves (iv_sessions (sw_db w)) (iv_sessions (sw_db (fst (workspace_bootstrap E free clk sid user ip w))))"
proof -
  obtain w1 err where lim: "limit_client E (clk 0) ip w = (w1, err)" by (rule prod.exhaust)
  have same: "sw_iv w1 = sw_iv w" using limit_client_frame [OF lim] by simp
  have stored: "evolves (iv_sessions (sw_db w)) (iv_sessions (store_session s1 db))"
    if "load_owned_session t sid user (sw_db w) = Inr s" "session_workspace F free s v = (st, Inr s1)"
      "iv_sessions db = iv_sessions (sw_db w)" for t s F v st s1 db
    using evolves_store [OF dist workspace_storable [OF that(2)] that(3)] load_storable [OF that(1)] by blast
  show ?thesis
  proof (cases err)
    case (Some e)
    then show ?thesis using lim same by (simp add: workspace_bootstrap_def)
  next
    case None
    show ?thesis using lim same None
      by (simp add: workspace_bootstrap_def Let_def with_db_def with_files_def split: sum.split prod.split)
        (auto intro!: stored)
  qed
qed

lemma update_timer_status: "update_timer t0 now action token s = (s', None) \<Longrightarrow> is_status s' = is_status s"
  by (auto simp: update_timer_def Let_def stop_timer_def split: prod.splits option.splits if_splits dest!: require_mutable_open)

lemma timer_evolves:
  "keys_distinct cs_id (iv_sessions (sw_db w)) \<Longrightarrow>
   evolves (iv_sessions (sw_db w)) (iv_sessions (sw_db (fst (session_timer clk sid user action token w))))"
proof -
  assume dist: "keys_distinct cs_id (iv_sessions (sw_db w))"
  show ?thesis
  proof (cases "load_owned_session (clk 0) sid user (sw_db w)")
    case (Inl e)
    then show ?thesis by (simp add: session_timer_def)
  next
    case (Inr s)
    obtain life err where step: "(if is_open s then update_timer (clk 1) (clk 2) action token (cs_life s) else (cs_life s, None)) = (life, err)"
      by (rule prod.exhaust)
    show ?thesis
    proof (cases err)
      case (Some e)
      then show ?thesis using Inr step by (simp add: session_timer_def)
    next
      case None
      then have "is_status life = is_status (cs_life s)" using step update_timer_status by (auto split: if_splits)
      then have "storable (sw_db w) (s\<lparr>cs_life := life\<rparr>)"
        using load_storable [OF Inr] by (auto simp: storable_def keeps_def follows_def is_open_def is_submitted_def)
      then show ?thesis using Inr step None dist by (simp add: session_timer_def with_db_def Let_def evolves_store)
    qed
  qed
qed

lemma level_evolves:
  "keys_distinct cs_id (iv_sessions (sw_db w)) \<Longrightarrow>
   evolves (iv_sessions (sw_db w)) (iv_sessions (sw_db (fst (advance_session_level E clk sid user token w))))"
  by (simp add: advance_session_level_def with_db_def Let_def split: sum.split prod.split option.split)
    (auto intro!: evolves_store dest!: editable_storable)

lemma abandon_evolves:
  "keys_distinct cs_id (iv_sessions (sw_db w)) \<Longrightarrow>
   evolves (iv_sessions (sw_db w)) (iv_sessions (sw_db (fst (abandon_session clk sid user token reason w))))"
proof -
  assume dist: "keys_distinct cs_id (iv_sessions (sw_db w))"
  have "storable (sw_db w) (s\<lparr>cs_life := (stop_timer t (cs_life s))\<lparr>is_status := ''abandoned''\<rparr>, cs_abandon_reason := x\<rparr>)"
    if "load_owned_session (clk 0) sid user (sw_db w) = Inr s" "is_open s" for s t x
    using load_storable [OF that(1)] that(2)
    by (auto simp: storable_def keeps_def follows_def is_open_def is_submitted_def mutable_statuses_def)
  then show ?thesis using dist
    by (simp add: abandon_session_def with_db_def Let_def split: sum.split option.split) (auto intro!: evolves_store)
qed

lemma retry_sessions: "sw_iv (fst (retry_automatic_grade E clk sid user w)) = sw_iv w"
  by (auto simp: retry_automatic_grade_def put_metrics_def split: sum.split prod.split option.split dest: limit_frame)

lemma defend_sessions: "iv_sessions (sw_db (fst (post_defend_answer E clk sid user i a w))) = iv_sessions (sw_db w)"
  by (simp add: post_defend_answer_def put_metrics_def with_db_def Let_def split: sum.split option.split)

section \<open>Starting\<close>

lemma resume_effect:
  assumes "resume_or_expire clk n ss db = (db', r)" "distinct (map cs_id ss)" "keys_distinct cs_id (iv_sessions db)"
    "\<And>s. s \<in> set ss \<Longrightarrow> row_get cs_id (cs_id s) (iv_sessions db) = Some s"
  shows "evolves (iv_sessions db) (iv_sessions db') \<and> iv_events db' = iv_events db \<and> iv_files db' = iv_files db \<and>
    (r = None \<longrightarrow> (\<forall>s \<in> set ss. \<forall>s'. row_get cs_id (cs_id s) (iv_sessions db') = Some s' \<longrightarrow> \<not> is_open s'))"
  using assms
proof (induction clk n ss db rule: resume_or_expire.induct)
  case (1 clk n db)
  then show ?case by simp
next
  case (2 clk n s rest db)
  let ?s = "s\<lparr>cs_life := fst (maybe_expire_session (clk n) (cs_life s))\<rparr>"
  let ?db = "store_session ?s db"
  have here: "row_get cs_id (cs_id s) (iv_sessions db) = Some s" using "2.prems"(4) by simp
  then have stor: "storable db ?s" using expire_follows by (auto simp: storable_def)
  have ev: "evolves (iv_sessions db) (iv_sessions ?db)" by (rule evolves_store [OF "2.prems"(3) stor refl])
  show ?case
  proof (cases "is_open ?s")
    case True
    then show ?thesis using "2.prems"(1) ev by (auto simp: Let_def)
  next
    case False
    then have run: "resume_or_expire clk (Suc n) rest ?db = (db', r)" using "2.prems"(1) by (simp add: Let_def)
    have get: "row_get cs_id k (iv_sessions ?db) = (if k = cs_id s then Some ?s else row_get cs_id k (iv_sessions db))" for k
      using here by (simp add: store_session_def row_get_replace)
    have "cs_id x \<noteq> cs_id s" if "x \<in> set rest" for x
      using "2.prems"(2) imageI [OF that, of cs_id] by auto
    then have "\<And>x. x \<in> set rest \<Longrightarrow> row_get cs_id (cs_id x) (iv_sessions ?db) = Some x"
      using "2.prems"(4) unfolding get by simp
    from "2.IH" [OF refl refl False run _ evolves_distinct [OF ev "2.prems"(3)] this] "2.prems"(2)
    have ih: "evolves (iv_sessions ?db) (iv_sessions db')" "iv_events db' = iv_events db" "iv_files db' = iv_files db"
      "r = None \<longrightarrow> (\<forall>s \<in> set rest. \<forall>s'. row_get cs_id (cs_id s) (iv_sessions db') = Some s' \<longrightarrow> \<not> is_open s')"
      by simp_all
    have "\<not> is_open s'" if "row_get cs_id (cs_id s) (iv_sessions db') = Some s'" for s'
    proof -
      have "row_get cs_id (cs_id s) (iv_sessions ?db) = Some ?s" unfolding get by simp
      then show ?thesis using evolves_get [OF ih(1) that] False by (auto simp: keeps_def follows_def)
    qed
    then show ?thesis using ih ev evolves_trans by auto
  qed
qed

section \<open>The invariant\<close>

lemma show_nat_inject [simp]: "show_nat m = show_nat n \<longleftrightarrow> m = n"
  using digits_val_show_nat by metis

definition attempts_of :: "nat \<Rightarrow> string \<Rightarrow> candidate_session list \<Rightarrow> candidate_session list" where
  "attempts_of user slug ss = filter (\<lambda>s. cs_user s = Some user \<and> cs_slug s = slug) ss"

text \<open>
  \<open>attempts_ok\<close>: the attempts of a user at a challenge are numbered in the order they were started,
  and at most one of them is open. \<open>graded_ok\<close>: a submitted attempt has its report and its job.
  \<open>queue_ok\<close>: a job belongs to a session, and no user has more than three that wait.
\<close>

definition attempts_ok :: "candidate_session list \<Rightarrow> bool" where
  "attempts_ok ss \<longleftrightarrow>
     keys_distinct cs_id ss \<and>
     (\<forall>user slug. length (filter is_open (attempts_of user slug ss)) \<le> 1 \<and>
        map cs_attempt (attempts_of user slug ss) = map int [1..<length (attempts_of user slug ss) + 1])"

definition graded_ok :: "candidate_session list \<Rightarrow> grading_db \<Rightarrow> bool" where
  "graded_ok ss g \<longleftrightarrow>
     (\<forall>s \<in> set ss. is_submitted s \<longrightarrow>
        show_nat (cs_id s) \<in> ie_session_id ` set (gd_evaluations g) \<and> show_nat (cs_id s) \<in> gj_session_id ` set (gd_jobs g))"

definition waiting :: "nat \<Rightarrow> candidate_session list \<Rightarrow> grading_job list \<Rightarrow> grading_job list" where
  "waiting user ss jobs =
     filter (\<lambda>j. pending_job j \<and> list_ex (\<lambda>s. show_nat (cs_id s) = gj_session_id j \<and> cs_user s = Some user) ss) jobs"

definition queue_ok :: "candidate_session list \<Rightarrow> grading_db \<Rightarrow> bool" where
  "queue_ok ss g \<longleftrightarrow>
     keys_distinct gj_id (gd_jobs g) \<and>
     (\<forall>j \<in> set (gd_jobs g). gj_session_id j \<in> (show_nat \<circ> cs_id) ` set ss) \<and>
     (\<forall>user. length (waiting user ss (gd_jobs g)) \<le> max_pending_per_user)"

lemma pending_of_waiting: "pending_of user w = waiting user (iv_sessions (sw_db w)) (gd_jobs (sw_grading w))"
  by (simp add: pending_of_def waiting_def owned_by_def)

definition evolves_open :: "candidate_session list \<Rightarrow> candidate_session list \<Rightarrow> bool" where
  "evolves_open ss ss' \<longleftrightarrow> list_all2 keeps ss ss'"

lemma evolves_weaken: "evolves ss ss' \<Longrightarrow> evolves_open ss ss'"
  unfolding evolves_def evolves_open_def by (erule list_all2_mono) (simp add: follows_def)

lemma attempts_of_evolve: "evolves_open ss ss' \<Longrightarrow> evolves_open (attempts_of user slug ss) (attempts_of user slug ss')"
  unfolding evolves_open_def attempts_of_def by (induction rule: list_all2_induct) (auto simp: keeps_def)

lemma open_evolve: "evolves_open ss ss' \<Longrightarrow> length (filter is_open ss') \<le> length (filter is_open ss)"
  unfolding evolves_open_def by (induction rule: list_all2_induct) (auto simp: keeps_def)

lemma keys_evolve:
  "evolves_open ss ss' \<Longrightarrow> map cs_id ss' = map cs_id ss \<and> map cs_attempt ss' = map cs_attempt ss \<and> length ss' = length ss"
  unfolding evolves_open_def by (induction rule: list_all2_induct) (auto simp: keeps_def)

lemma attempts_ok_evolve:
  assumes ev: "evolves_open ss ss'" and ok: "attempts_ok ss"
  shows "attempts_ok ss'"
proof -
  note mine = attempts_of_evolve [OF ev]
  have "keys_distinct cs_id ss'" using keys_evolve [OF ev] ok by (simp add: attempts_ok_def keys_distinct_def)
  moreover have "length (filter is_open (attempts_of user slug ss')) \<le> 1 \<and>
      map cs_attempt (attempts_of user slug ss') = map int [1..<length (attempts_of user slug ss') + 1]" for user slug
  proof -
    have old: "length (filter is_open (attempts_of user slug ss)) \<le> 1"
      "map cs_attempt (attempts_of user slug ss) = map int [1..<length (attempts_of user slug ss) + 1]"
      using ok unfolding attempts_ok_def by blast+
    then show ?thesis using keys_evolve [OF mine [of user slug]] open_evolve [OF mine [of user slug]] by simp
  qed
  ultimately show ?thesis unfolding attempts_ok_def by blast
qed

lemma owner_evolve: "evolves_open ss ss' \<Longrightarrow>
   list_ex (\<lambda>s. show_nat (cs_id s) = i \<and> cs_user s = Some user) ss' = list_ex (\<lambda>s. show_nat (cs_id s) = i \<and> cs_user s = Some user) ss"
  unfolding evolves_open_def by (induction rule: list_all2_induct) (auto simp: keeps_def)

lemma waiting_evolve: "evolves_open ss ss' \<Longrightarrow> waiting user ss' jobs = waiting user ss jobs"
  by (simp add: waiting_def owner_evolve)

lemma queue_ok_evolve: "evolves_open ss ss' \<Longrightarrow> queue_ok ss g \<Longrightarrow> queue_ok ss' g"
proof -
  assume ev: "evolves_open ss ss'" and ok: "queue_ok ss g"
  have "cs_id ` set ss' = cs_id ` set ss" using keys_evolve [OF ev] by (metis set_map)
  then have "(show_nat \<circ> cs_id) ` set ss' = (show_nat \<circ> cs_id) ` set ss" unfolding image_comp [symmetric] by (rule arg_cong)
  then show ?thesis using ok by (simp add: queue_ok_def waiting_evolve [OF ev])
qed

lemma submitted_evolve:
  "evolves ss ss' \<Longrightarrow> \<forall>s \<in> set ss. is_submitted s \<longrightarrow> Q (cs_id s) \<Longrightarrow> \<forall>s \<in> set ss'. is_submitted s \<longrightarrow> Q (cs_id s)"
  unfolding evolves_def by (induction rule: list_all2_induct) (simp_all add: keeps_def follows_def)

lemma graded_ok_evolve: "evolves ss ss' \<Longrightarrow> graded_ok ss g \<Longrightarrow> graded_ok ss' g"
  unfolding graded_ok_def by (rule submitted_evolve)

lemma show_nat_nonempty [simp]: "show_nat n \<noteq> []" "[] \<noteq> show_nat n"
  by (subst show_nat.simps, simp)+

lemma next_attempt: "next_attempt_number (map attempt_owner ss) (show_nat user) slug = int (length (attempts_of user slug ss)) + 1"
proof -
  have "length (filter (\<lambda>(u, c). u = show_nat user \<and> c = slug) (map attempt_owner ss)) = length (attempts_of user slug ss)"
    by (induction ss) (auto simp: attempt_owner_def attempts_of_def split: option.split)
  then show ?thesis by (simp add: next_attempt_number_def)
qed

lemma open_attempts_mem:
  "s \<in> set (open_attempts user slug db) \<longleftrightarrow> s \<in> set (iv_sessions db) \<and> cs_user s = Some user \<and> cs_slug s = slug \<and> is_open s"
  by (auto simp: open_attempts_def)

lemma open_attempts_row:
  "keys_distinct cs_id (iv_sessions db) \<Longrightarrow> s \<in> set (open_attempts user slug db) \<Longrightarrow>
   row_get cs_id (cs_id s) (iv_sessions db) = Some s"
  by (simp add: open_attempts_mem row_get_mem)

lemma distinct_sorted_keys: "distinct (map f xs) \<Longrightarrow> distinct (map f (rev (sort_key g xs)))"
  by (simp add: distinct_map)

lemma open_attempts_distinct:
  "keys_distinct cs_id (iv_sessions db) \<Longrightarrow> distinct (map cs_id (open_attempts user slug db))"
  unfolding open_attempts_def
  by (rule distinct_sorted_keys, rule distinct_map_filter) (simp add: keys_distinct_def)

text \<open>What starting does to the sessions: they evolve, and a new attempt comes only when none is open.\<close>

lemma start_sessions:
  assumes dist: "keys_distinct cs_id (iv_sessions (sw_db w))"
    and ss'_def: "ss' = iv_sessions (sw_db (fst (start_session E free clk new_id user beta slug w)))"
  shows "evolves (iv_sessions (sw_db w)) ss' \<or>
    (\<exists>ss1 s. evolves (iv_sessions (sw_db w)) ss1 \<and> ss' = ss1 @ [s] \<and> filter is_open (attempts_of user slug ss1) = [] \<and>
       cs_id s = new_id \<and> cs_user s = Some user \<and> cs_slug s = slug \<and> \<not> is_submitted s \<and>
       cs_attempt s = int (length (attempts_of user slug ss1)) + 1)"
proof -
  obtain w1 err where lim: "limit_route E (clk 0) (''interview-start:'' @ show_nat user) 20 60 w = (w1, err)" by (rule prod.exhaust)
  have same: "sw_iv w1 = sw_iv w" using limit_frame [OF lim] by simp
  let ?db = "sw_db w"
  obtain db1 r where res: "resume_or_expire clk 2 (open_attempts user slug ?db) ?db = (db1, r)" by (rule prod.exhaust)
  have moved_on: "evolves (iv_sessions ?db) (iv_sessions db1) \<and> iv_events db1 = iv_events ?db \<and> iv_files db1 = iv_files ?db \<and>
    (r = None \<longrightarrow> (\<forall>s \<in> set (open_attempts user slug ?db). \<forall>s'. row_get cs_id (cs_id s) (iv_sessions db1) = Some s' \<longrightarrow> \<not> is_open s'))"
    by (rule resume_effect [OF res open_attempts_distinct [OF dist] dist]) (rule open_attempts_row [OF dist])
  have eff: "evolves (iv_sessions ?db) (iv_sessions db1)"
    "r = None \<Longrightarrow> s \<in> set (open_attempts user slug ?db) \<Longrightarrow> row_get cs_id (cs_id s) (iv_sessions db1) = Some s' \<Longrightarrow> \<not> is_open s'"
    for s s'
    using moved_on by blast+
  consider (stay) "ss' = iv_sessions ?db" | (moved) "ss' = iv_sessions db1" |
    (made) s where "r = None" "ss' = iv_sessions db1 @ [s]" "\<exists>dir. s = fresh_attempt E (clk 1) new_id user slug
      (next_attempt_number (map attempt_owner (iv_sessions db1)) (show_nat user) slug) dir"
  proof (cases err)
    case (Some e)
    then show thesis using stay lim same by (simp add: ss'_def start_session_def)
  next
    case err: None
    show thesis
    proof (cases "beta = Some ''disabled'' \<or> \<not> ro_challenge E slug")
      case True
      then show thesis using stay lim same err by (auto simp: ss'_def start_session_def)
    next
      case False
      show thesis
      proof (cases r)
        case (Some s)
        then show thesis using moved lim same err False res by (simp add: ss'_def start_session_def with_db_def)
      next
        case None
        obtain st made_dir where cw: "create_workspace (fe_config (ro_files E)) free (show_nat new_id) slug (iw_ws (sw_iv w1)) = (st, made_dir)"
          by (rule prod.exhaust)
        show thesis
        proof (cases made_dir)
          case (Inl e)
          then show thesis using stay lim same err False res None cw
            by (cases e) (simp_all add: ss'_def start_session_def with_files_def Let_def)
        next
          case (Inr dir)
          then show thesis using stay made [OF None] lim same err False res None cw
            by (cases "isolated (fe_config (ro_files E)) (ws_files st) (show_nat new_id) slug")
              (auto simp: ss'_def start_session_def with_files_def with_db_def Let_def)
        qed
      qed
    qed
  qed
  then show ?thesis
  proof cases
    case made
    have "\<not> is_open x" if "x \<in> set (attempts_of user slug (iv_sessions db1))" for x
    proof
      assume x: "is_open x"
      from that have mem: "x \<in> set (iv_sessions db1)" "cs_user x = Some user" "cs_slug x = slug" by (auto simp: attempts_of_def)
      have "row_get cs_id (cs_id x) (iv_sessions db1) = Some x"
        using row_get_mem [OF evolves_distinct [OF eff(1) dist] mem(1)] .
      moreover from evolves_get [OF eff(1) this] obtain s where s: "row_get cs_id (cs_id x) (iv_sessions ?db) = Some s" "follows s x"
        by blast
      moreover from s have "s \<in> set (iv_sessions ?db)" "cs_id s = cs_id x" "cs_user s = Some user" "cs_slug s = slug" "is_open s"
        using row_get_SomeD [OF s(1)] mem x by (auto simp: keeps_def follows_def)
      moreover from this have "s \<in> set (open_attempts user slug ?db)" by (simp add: open_attempts_mem)
      ultimately show False using eff(2) [OF made(1), of s x] x by simp
    qed
    then have none: "filter is_open (attempts_of user slug (iv_sessions db1)) = []" by (simp add: filter_empty_conv)
    obtain dir where s: "s = fresh_attempt E (clk 1) new_id user slug
      (next_attempt_number (map attempt_owner (iv_sessions db1)) (show_nat user) slug) dir" using made(3) by blast
    have "cs_id s = new_id \<and> cs_user s = Some user \<and> cs_slug s = slug \<and> \<not> is_submitted s \<and>
       cs_attempt s = int (length (attempts_of user slug (iv_sessions db1))) + 1"
      unfolding s next_attempt by (simp add: fresh_attempt_def is_submitted_def)
    then show ?thesis using eff(1) made(2) none by blast
  qed (use eff(1) in simp_all)
qed

lemma start_grading: "sw_grading (fst (start_session E free clk new_id user beta slug w)) = sw_grading w"
  by (auto simp: start_session_def with_files_def with_db_def Let_def
      split: prod.split option.split sum.split ws_exc.split dest: limit_frame)

text \<open>The new attempt keeps what the invariant says.\<close>

lemma attempts_ok_append:
  assumes "attempts_ok ss" "cs_id s \<notin> cs_id ` set ss" "cs_user s = Some user" "cs_slug s = slug"
    "filter is_open (attempts_of user slug ss) = []" "cs_attempt s = int (length (attempts_of user slug ss)) + 1"
  shows "attempts_ok (ss @ [s])"
proof -
  have split_last: "attempts_of u c (ss @ [s]) = (if u = user \<and> c = slug then attempts_of u c ss @ [s] else attempts_of u c ss)" for u c
    using assms(3,4) by (auto simp: attempts_of_def)
  have "keys_distinct cs_id (ss @ [s])" using assms(1,2) by (simp add: attempts_ok_def keys_distinct_def)
  moreover have "length (filter is_open (attempts_of u c (ss @ [s]))) \<le> 1 \<and>
      map cs_attempt (attempts_of u c (ss @ [s])) = map int [1..<length (attempts_of u c (ss @ [s])) + 1]" for u c
  proof -
    have old: "length (filter is_open (attempts_of u c ss)) \<le> 1"
      "map cs_attempt (attempts_of u c ss) = map int [1..<length (attempts_of u c ss) + 1]"
      using assms(1) unfolding attempts_ok_def by blast+
    show ?thesis
    proof (cases "u = user \<and> c = slug")
      case True
      have "[1..<Suc (length (attempts_of u c ss)) + 1] = [1..<length (attempts_of u c ss) + 1] @ [length (attempts_of u c ss) + 1]"
        by (simp add: upt_Suc_append)
      then show ?thesis using True old(2) assms(5,6) by (simp add: split_last del: upt_Suc)
    next
      case False
      then have "attempts_of u c (ss @ [s]) = attempts_of u c ss" unfolding split_last by (rule if_not_P)
      then show ?thesis using old by (simp only: simp_thms)
    qed
  qed
  ultimately show ?thesis unfolding attempts_ok_def by blast
qed

lemma graded_ok_append: "graded_ok ss g \<Longrightarrow> \<not> is_submitted s \<Longrightarrow> graded_ok (ss @ [s]) g"
  by (simp add: graded_ok_def)

lemma queue_ok_append:
  assumes ok: "queue_ok ss g" and new: "cs_id s \<notin> cs_id ` set ss"
  shows "queue_ok (ss @ [s]) g"
proof -
  have owned: "list_ex (\<lambda>x. show_nat (cs_id x) = gj_session_id j \<and> cs_user x = Some user) (ss @ [s]) \<longleftrightarrow>
      list_ex (\<lambda>x. show_nat (cs_id x) = gj_session_id j \<and> cs_user x = Some user) ss"
    if "j \<in> set (gd_jobs g)" for j user
  proof -
    have "gj_session_id j \<in> (show_nat \<circ> cs_id) ` set ss" using ok that by (simp add: queue_ok_def)
    then have "show_nat (cs_id s) \<noteq> gj_session_id j" using new by auto
    then show ?thesis by simp
  qed
  have "waiting user (ss @ [s]) (gd_jobs g) = waiting user ss (gd_jobs g)" for user
    unfolding waiting_def by (rule filter_cong [OF refl]) (simp only: owned)
  then show ?thesis using ok by (auto simp: queue_ok_def)
qed

section \<open>The workers\<close>

text \<open>What a worker may do to a job: keep its name and its session, and never make it wait again.\<close>

definition job_follows :: "grading_job \<Rightarrow> grading_job \<Rightarrow> bool" where
  "job_follows j j' \<longleftrightarrow> gj_id j' = gj_id j \<and> gj_session_id j' = gj_session_id j \<and> (pending_job j' \<longrightarrow> pending_job j)"

lemma job_follows_trans: "job_follows a b \<Longrightarrow> job_follows b c \<Longrightarrow> job_follows a c"
  by (simp add: job_follows_def)

lemma job_changes:
  "job_follows j (close_exhausted now (expire_lease now j))"
  "grading_claimable now j \<Longrightarrow> job_follows j (claim_grading_row tm now tok j)"
  "job_follows j (publish_if_held now job env j)"
  "job_follows j (fail_if_held now job j)"
  by (auto simp: job_follows_def pending_job_def close_exhausted_def expire_lease_def grading_claimable_def claim_grading_row_def
      publish_if_held_def publish_row_def holds_lease_def fail_if_held_def fail_grading_row_def)

definition jobs_follow :: "grading_db \<Rightarrow> grading_db \<Rightarrow> bool" where
  "jobs_follow g g' \<longleftrightarrow>
     list_all2 job_follows (gd_jobs g) (gd_jobs g') \<and> map ie_session_id (gd_evaluations g') = map ie_session_id (gd_evaluations g)"

lemma jobs_follow_map:
  "(\<And>j. j \<in> set (gd_jobs g) \<Longrightarrow> job_follows j (f j)) \<Longrightarrow> gd_jobs g' = map f (gd_jobs g) \<Longrightarrow>
   map ie_session_id (gd_evaluations g') = map ie_session_id (gd_evaluations g) \<Longrightarrow> jobs_follow g g'"
  by (simp add: jobs_follow_def list_all2_conv_all_nth)

lemma jobs_follow_refl [simp]: "jobs_follow g g"
  by (rule jobs_follow_map [of g "\<lambda>j. j"]) (simp_all add: job_follows_def)

lemma claim_evaluations: "gd_evaluations (fst (claim_next_grading_job tm now tok g)) = gd_evaluations g"
  by (simp add: claim_next_grading_job_def Let_def split: list.split)

lemma finish_evaluations:
  "finish_grading_job E key now job env g = Inr (g', ok') \<Longrightarrow>
   map ie_session_id (gd_evaluations g') = map ie_session_id (gd_evaluations g)"
  by (auto simp: finish_grading_job_def split: if_splits option.splits elim!: bind_InrE)

lemma swept_follow: "list_all2 job_follows (gd_jobs g) (swept now g)"
  by (simp add: swept_def list_all2_conv_all_nth job_changes)

lemma claimed_follow:
  assumes "r \<in> set jobs" "grading_claimable now r" "keys_distinct gj_id jobs"
  shows "list_all2 job_follows jobs (row_upd gj_id (gj_id r) (claim_grading_row tm now tok) jobs)"
proof -
  have "job_follows j (if gj_id j = gj_id r then claim_grading_row tm now tok j else j)" if "j \<in> set jobs" for j
  proof (cases "gj_id j = gj_id r")
    case True
    then have "j = r" using row_get_mem [OF assms(3)] that assms(1) by (metis option.inject)
    then show ?thesis using assms(2) by (simp add: job_changes)
  qed (simp add: job_follows_def)
  then show ?thesis by (simp add: row_upd_def list_all2_conv_all_nth)
qed

lemma step_follows:
  assumes dist: "keys_distinct gj_id (gd_jobs g)"
  shows "jobs_follow g (fst (grading_step E key tm op g))"
proof (cases op)
  case (ClaimOp now tok)
  obtain g1 c where c: "claim_next_grading_job tm now tok g = (g1, c)" by (rule prod.exhaust)
  have evs: "gd_evaluations g1 = gd_evaluations g" using claim_evaluations [of tm now tok g] c by simp
  have "list_all2 job_follows (gd_jobs g) (gd_jobs g1)"
  proof (cases c)
    case None
    then show ?thesis using claim_none [OF c [unfolded None]] swept_follow by simp
  next
    case (Some j)
    obtain r where r: "r \<in> set (swept now g)" "grading_claimable now r"
      "gd_jobs g1 = row_upd gj_id (gj_id r) (claim_grading_row tm now tok) (swept now g)"
      using claim_some [OF c [unfolded Some] dist] by blast
    show ?thesis unfolding r(3)
      by (rule list_all2_trans [OF job_follows_trans swept_follow claimed_follow [OF r(1,2) swept_distinct [OF dist]]])
  qed
  moreover have "fst (grading_step E key tm op g) = g1" using ClaimOp c by (simp add: grading_step_def split: option.split)
  ultimately show ?thesis using evs by (simp add: jobs_follow_def)
next
  case (FinishOp now job env)
  show ?thesis
  proof (cases "finish_grading_job E key now job env g")
    case (Inl e)
    then show ?thesis using FinishOp by (simp add: grading_step_def)
  next
    case (Inr res)
    obtain g1 published where res: "res = (g1, published)" by (rule prod.exhaust)
    have "fst (grading_step E key tm op g) = g1" using FinishOp Inr res by (simp add: grading_step_def)
    then show ?thesis
      using jobs_follow_map [OF job_changes(3) finish_jobs(1) [OF Inr [unfolded res]] finish_evaluations [OF Inr [unfolded res]]] by simp
  qed
next
  case (FailOp now job)
  have "jobs_follow g (fail_grading_job now job g)"
    by (rule jobs_follow_map [OF job_changes(4) fail_jobs]) (simp add: fail_grading_job_def)
  then show ?thesis using FailOp by (simp add: grading_step_def)
qed

lemma jobs_keys:
  "list_all2 job_follows js js' \<Longrightarrow> map gj_id js' = map gj_id js \<and> map gj_session_id js' = map gj_session_id js"
  by (induction rule: list_all2_induct) (auto simp: job_follows_def)

lemma waiting_follow: "list_all2 job_follows js js' \<Longrightarrow> length (waiting user ss js') \<le> length (waiting user ss js)"
  unfolding waiting_def by (induction rule: list_all2_induct) (auto simp: job_follows_def)

lemma queue_ok_jobs:
  assumes fo: "jobs_follow g g'" and ok: "queue_ok ss g"
  shows "queue_ok ss g'"
proof -
  have l: "list_all2 job_follows (gd_jobs g) (gd_jobs g')" using fo by (simp add: jobs_follow_def)
  note keys = jobs_keys [OF l]
  have "keys_distinct gj_id (gd_jobs g')" using ok keys by (simp add: queue_ok_def keys_distinct_def)
  moreover have "gj_session_id ` set (gd_jobs g') = gj_session_id ` set (gd_jobs g)" using keys by (metis set_map)
  then have "\<forall>j \<in> set (gd_jobs g'). gj_session_id j \<in> (show_nat \<circ> cs_id) ` set ss"
    using ok unfolding queue_ok_def by (metis (no_types, lifting) imageE imageI)
  moreover have "length (waiting user ss (gd_jobs g')) \<le> max_pending_per_user" for user
    using waiting_follow [OF l, of user ss] ok unfolding queue_ok_def by (meson le_trans)
  ultimately show ?thesis unfolding queue_ok_def by blast
qed

lemma graded_ok_jobs: "jobs_follow g g' \<Longrightarrow> graded_ok ss g \<Longrightarrow> graded_ok ss g'"
proof -
  assume fo: "jobs_follow g g'" and ok: "graded_ok ss g"
  have "gj_session_id ` set (gd_jobs g') = gj_session_id ` set (gd_jobs g)"
    using jobs_keys fo unfolding jobs_follow_def by (metis set_map)
  moreover have "ie_session_id ` set (gd_evaluations g') = ie_session_id ` set (gd_evaluations g)"
    using fo unfolding jobs_follow_def by (metis set_map)
  ultimately show ?thesis using ok by (simp add: graded_ok_def)
qed

lemma store_metrics_follow: "jobs_follow g (store_metrics i metrics g)"
  by (rule jobs_follow_map [of g "\<lambda>j. j"]) (simp_all add: store_metrics_def job_follows_def)

lemma retry_follows: "jobs_follow (sw_grading w) (sw_grading (fst (retry_automatic_grade E clk sid user w)))"
  by (auto simp: retry_automatic_grade_def put_metrics_def store_metrics_follow
      split: sum.split prod.split option.split dest: limit_frame)

lemma defend_follows: "jobs_follow (sw_grading w) (sw_grading (fst (post_defend_answer E clk sid user i a w)))"
  by (simp add: post_defend_answer_def put_metrics_def with_db_def Let_def store_metrics_follow split: sum.split option.split)

section \<open>Submitting\<close>

lemma row_upd_keeps:
  assumes "keys_distinct cs_id ss" "row_get cs_id k ss = Some s0" "keeps s0 s"
  shows "evolves_open ss (row_upd cs_id k (\<lambda>_. s) ss)"
proof -
  have "keeps x (if cs_id x = k then s else x)" if "x \<in> set ss" for x
  proof (cases "cs_id x = k")
    case True
    then have "x = s0" using row_get_mem [OF assms(1) that] assms(2) by simp
    then show ?thesis using True assms(3) by simp
  qed (simp add: keeps_def)
  then show ?thesis by (simp add: evolves_open_def row_upd_def list_all2_conv_all_nth)
qed

lemma submitted_status: "is_status (submitted_life t0 t1 blocked life) = ''submitted''"
  by (simp add: submitted_life_def Let_def)

lemma enqueueE:
  assumes "enqueue_grading_job new_id now sid slug version snap g = Inr (g1, job)"
  obtains "g1 = g" "job \<in> set (gd_jobs g)" "gj_session_id job = sid"
  | "gd_jobs g1 = gd_jobs g @ [job]" "gd_evaluations g1 = gd_evaluations g" "gj_id job = new_id" "gj_session_id job = sid"
proof -
  obtain path digest object_key where snap: "snap = (path, digest, object_key)" by (rule prod_cases3)
  show thesis
  proof (cases "find (\<lambda>j. gj_session_id j = sid) (gd_jobs g)")
    case None
    then show ?thesis using assms that(2) by (auto simp: enqueue_grading_job_def snap Let_def elim!: bind_InrE)
  next
    case (Some old)
    then have "old \<in> set (gd_jobs g)" "gj_session_id old = sid" by (auto simp: find_Some_iff)
    then show ?thesis using assms that(1) Some by (auto simp: enqueue_grading_job_def snap split: if_splits)
  qed
qed

lemma record_submissionE:
  assumes "record_submission E clk new_job s snap db g = Inr (db2, g2)"
  obtains s' g1 job row where
    "iv_sessions db2 = row_upd cs_id (cs_id s) (\<lambda>_. s') (iv_sessions db)" "keeps s s'" "is_submitted s'"
    "enqueue_grading_job new_job (clk 4) (show_nat (cs_id s)) (cs_slug s)
       (if cs_challenge_version s = [] then ro_version_for E (cs_slug s) else cs_challenge_version s)
       (CHR ''/'' # as_posix (fs_source_path snap), fs_source_digest snap, Some (fs_object_key snap)) g = Inr (g1, job)"
    "gd_jobs g2 = gd_jobs g1" "gd_evaluations g2 = gd_evaluations g1 @ [row]" "ie_session_id row = show_nat (cs_id s)"
proof -
  note kept = that
  show thesis
    using assms unfolding record_submission_def Let_def
    by (elim bind_InrE prod.exhaust)
      (auto split: prod.splits elim!: bind_InrE intro!: kept
        simp: store_session_def keeps_def is_submitted_def is_open_def mutable_statuses_def submitted_status)
qed

lemma capacity_free:
  assumes "require_grading_capacity E owner w = None"
  obtains user where "owner = Some user" "length (pending_of user w) < max_pending_per_user"
  using assms by (auto simp: require_grading_capacity_def split: option.splits if_splits)

end
