(* ===== verification/AttemptInvariants.thy ===== *)
theory AttemptInvariants
  imports AttemptLife
begin

text \<open>
  The invariants of attempts, reports and grading jobs over any interleaving of the routes
  (InterviewRoutes) with the grading workers: submitting keeps them, every other request was shown in
  AttemptLife to keep them, and so every reachable state has them.
\<close>

section \<open>Submitting\<close>

text \<open>A submission either changes no row, or records what \<open>record_submission\<close> says of a session of its owner.\<close>

lemma submit_cases:
  assumes "submit_session E free clk new_job sid user token w = (w', r)"
  obtains (refused) "sw_db w' = sw_db w" "sw_grading w' = sw_grading w"
  | (recorded) s owner snap where "storable (sw_db w) s" "cs_user s = Some owner"
      "length (pending_of owner w) < max_pending_per_user"
      "record_submission E clk new_job s snap (sw_db w) (sw_grading w) = Inr (sw_db w', sw_grading w')"
proof (cases "load_owned_session (clk 0) sid user (sw_db w)")
  case (Inl e)
  then show ?thesis using assms refused by (simp add: submit_session_def)
next
  case (Inr s0)
  note refuse = refused and take_in = recorded
  define s where "s = s0\<lparr>cs_life := fst (maybe_expire_session (clk 1) (cs_life s0))\<rparr>"
  note run = assms [unfolded submit_session_def Inr sum.case Let_def s_def [symmetric]]
  have s0: "storable (sw_db w) s0" using load_storable [OF Inr] by simp
  have s: "storable (sw_db w) s"
    using s0 expire_follows [of s0 "clk 1"] follows_trans unfolding storable_def s_def by auto
  obtain st made_ws where ws: "session_workspace (ro_files E) free s (sw_iv w) = (st, made_ws)" by (rule prod.exhaust)
  show ?thesis
  proof (cases "(is_status (cs_life s0) = ''submitted'' \<and>
      row_get ie_session_id (show_nat sid) (gd_evaluations (sw_grading w)) \<noteq> None) \<or>
      is_status (cs_life s) = ''expired'' \<or> \<not> is_open s \<or> require_editor (clk 2) (cs_life s) token \<noteq> None \<or>
      \<not> ro_challenge E (cs_slug s) \<or> require_grading_capacity E (cs_user s) w \<noteq> None")
    case True
    then have "w' = w" using run by (auto split: if_splits option.splits)
    then show ?thesis using refuse by simp
  next
    case False
    note go = False
    then obtain owner where owner: "cs_user s = Some owner" "length (pending_of owner w) < max_pending_per_user"
      using capacity_free by blast
    show ?thesis
    proof (cases made_ws)
      case Inl': (Inl e)
      then have "w' = with_files st w" using run go ws by auto
      then show ?thesis using refuse by (simp add: with_files_def)
    next
      case Inr': (Inr s1)
      obtain st2 store frozen where fr: "freeze_submission (ro_freeze E) free (cs_workspace s1) (show_nat sid) (st, sw_store w) =
          ((st2, store), frozen)" by (metis prod.exhaust)
      have s1: "storable (sw_db w) s1" "cs_user s1 = Some owner"
        using workspace_storable [OF ws [unfolded Inr'] s] ws [unfolded Inr'] owner(1)
        by (auto simp: session_workspace_def split: prod.splits sum.splits)
      show ?thesis
      proof (cases frozen)
        case frozen: (Inl e)
        then have "w' = (with_files st2 w)\<lparr>sw_store := store\<rparr>" using run go ws Inr' fr by auto
        then show ?thesis using refuse by (simp add: with_files_def)
      next
        case frozen: (Inr snap)
        show ?thesis
        proof (cases "record_submission E clk new_job s1 snap (sw_db w) (sw_grading w)")
          case rec: (Inl e)
          then have "w' = (with_files st2 w)\<lparr>sw_store := store\<rparr>" using run go ws Inr' fr frozen by auto
          then show ?thesis using refuse by (simp add: with_files_def)
        next
          case rec: (Inr res)
          obtain db2 g2 where res: "res = (db2, g2)" by (rule prod.exhaust)
          have "w' = (with_db db2 ((with_files st2 w)\<lparr>sw_store := store\<rparr>))\<lparr>sw_grading := g2\<rparr>"
            using run go ws Inr' fr frozen rec res by auto
          then have "sw_db w' = db2" "sw_grading w' = g2" by (simp_all add: with_db_def)
          then show ?thesis using take_in [OF s1 owner(2)] rec res by simp
        qed
      qed
    qed
  qed
qed

text \<open>The job of a session counts for its owner and for nobody else.\<close>

lemma owner_unique:
  assumes "keys_distinct cs_id ss" "row_get cs_id k ss = Some s0"
  shows "list_ex (\<lambda>s. show_nat (cs_id s) = show_nat k \<and> cs_user s = Some user) ss \<longleftrightarrow> cs_user s0 = Some user"
proof
  assume "list_ex (\<lambda>s. show_nat (cs_id s) = show_nat k \<and> cs_user s = Some user) ss"
  then obtain s where s: "s \<in> set ss" "cs_id s = k" "cs_user s = Some user" by (auto simp: list_ex_iff)
  then have "s = s0" using row_get_mem [OF assms(1) s(1)] assms(2) by simp
  then show "cs_user s0 = Some user" using s by simp
next
  assume "cs_user s0 = Some user"
  then show "list_ex (\<lambda>s. show_nat (cs_id s) = show_nat k \<and> cs_user s = Some user) ss"
    using row_get_SomeD [OF assms(2)] by (auto simp: list_ex_iff)
qed

lemma queue_ok_enqueue:
  assumes ok: "queue_ok ss g" and dist: "keys_distinct cs_id ss" and row: "row_get cs_id k ss = Some s0" "cs_user s0 = Some owner"
    and few: "length (waiting owner ss (gd_jobs g)) < max_pending_per_user"
    and job: "gj_id job \<notin> gj_id ` set (gd_jobs g)" "gj_session_id job = show_nat k"
    and g': "gd_jobs g' = gd_jobs g @ [job]"
  shows "queue_ok ss g'"
proof -
  have "keys_distinct gj_id (gd_jobs g')" using ok job(1) g' by (simp add: queue_ok_def keys_distinct_def)
  moreover have "\<forall>j \<in> set (gd_jobs g'). gj_session_id j \<in> (show_nat \<circ> cs_id) ` set ss"
    using ok g' job(2) row_get_SomeD [OF row(1)] by (auto simp: queue_ok_def)
  moreover have "length (waiting user ss (gd_jobs g')) \<le> max_pending_per_user" for user
  proof -
    have "waiting user ss (gd_jobs g') = waiting user ss (gd_jobs g) @ (if pending_job job \<and> owner = user then [job] else [])"
      using owner_unique [OF dist row(1), of user] row(2) by (simp add: waiting_def g' job(2))
    then show ?thesis using few ok unfolding queue_ok_def by (cases "owner = user") auto
  qed
  ultimately show ?thesis unfolding queue_ok_def by blast
qed

lemma queue_ok_reports: "queue_ok ss g \<Longrightarrow> gd_jobs g' = gd_jobs g \<Longrightarrow> queue_ok ss g'"
  by (simp add: queue_ok_def)

text \<open>A session that becomes submitted gets its report and its job; the others keep theirs.\<close>

lemma graded_ok_submit:
  assumes ok: "graded_ok ss g" and more_jobs: "set (gd_jobs g) \<subseteq> set (gd_jobs g')"
    and more_reports: "set (gd_evaluations g) \<subseteq> set (gd_evaluations g')"
    and mine: "show_nat k \<in> ie_session_id ` set (gd_evaluations g')" "show_nat k \<in> gj_session_id ` set (gd_jobs g')"
    and s': "cs_id s' = k"
  shows "graded_ok (row_upd cs_id k (\<lambda>_. s') ss) g'"
  unfolding graded_ok_def
proof (intro ballI impI)
  fix s
  assume "s \<in> set (row_upd cs_id k (\<lambda>_. s') ss)" and sub: "is_submitted s"
  then consider "cs_id s = k" | "s \<in> set ss" using set_row_updD s' by metis
  then show "show_nat (cs_id s) \<in> ie_session_id ` set (gd_evaluations g') \<and> show_nat (cs_id s) \<in> gj_session_id ` set (gd_jobs g')"
  proof cases
    case 1
    then show ?thesis using mine by simp
  next
    case 2
    then have "show_nat (cs_id s) \<in> ie_session_id ` set (gd_evaluations g)" "show_nat (cs_id s) \<in> gj_session_id ` set (gd_jobs g)"
      using ok sub by (auto simp: graded_ok_def)
    then show ?thesis using more_jobs more_reports by blast
  qed
qed

section \<open>The invariant of the whole state\<close>

definition life_ok :: "'s session_world \<Rightarrow> bool" where
  "life_ok w \<longleftrightarrow> attempts_ok (iv_sessions (sw_db w)) \<and> graded_ok (iv_sessions (sw_db w)) (sw_grading w) \<and>
     queue_ok (iv_sessions (sw_db w)) (sw_grading w)"

lemma record_keeps:
  assumes rec: "record_submission E clk new_job s snap db g = Inr (db2, g2)"
    and stor: "storable db s" "cs_user s = Some owner"
    and few: "length (waiting owner (iv_sessions db) (gd_jobs g)) < max_pending_per_user"
    and new: "new_job \<notin> gj_id ` set (gd_jobs g)"
    and ok: "attempts_ok (iv_sessions db)" "graded_ok (iv_sessions db) g" "queue_ok (iv_sessions db) g"
  shows "attempts_ok (iv_sessions db2) \<and> graded_ok (iv_sessions db2) g2 \<and> queue_ok (iv_sessions db2) g2"
proof -
  let ?ss = "iv_sessions db"
  obtain s' g1 job row where ss2: "iv_sessions db2 = row_upd cs_id (cs_id s) (\<lambda>_. s') ?ss" "keeps s s'" "is_submitted s'"
    and enq: "enqueue_grading_job new_job (clk 4) (show_nat (cs_id s)) (cs_slug s)
       (if cs_challenge_version s = [] then ro_version_for E (cs_slug s) else cs_challenge_version s)
       (CHR ''/'' # as_posix (fs_source_path snap), fs_source_digest snap, Some (fs_object_key snap)) g = Inr (g1, job)"
    and g2: "gd_jobs g2 = gd_jobs g1" "gd_evaluations g2 = gd_evaluations g1 @ [row]" "ie_session_id row = show_nat (cs_id s)"
    by (rule record_submissionE [OF rec])
  have dist: "keys_distinct cs_id ?ss" using ok(1) by (simp add: attempts_ok_def)
  obtain s0 where s0: "row_get cs_id (cs_id s) ?ss = Some s0" "follows s0 s" using stor(1) by (auto simp: storable_def)
  have own: "cs_user s0 = Some owner" "keeps s0 s'"
    using s0(2) stor(2) ss2(2) by (auto simp: follows_def keeps_def)
  have ev: "evolves_open ?ss (iv_sessions db2)" unfolding ss2(1) by (rule row_upd_keeps [OF dist s0(1) own(2)])
  have "queue_ok ?ss g1 \<and> set (gd_jobs g) \<subseteq> set (gd_jobs g1) \<and> gd_evaluations g1 = gd_evaluations g \<and>
      show_nat (cs_id s) \<in> gj_session_id ` set (gd_jobs g1)"
    using enq
  proof (cases rule: enqueueE)
    case 1
    then show ?thesis using ok(3) by (metis image_eqI order_refl)
  next
    case 2
    then show ?thesis using queue_ok_enqueue [OF ok(3) dist s0(1) own(1) few _ 2(4) 2(1)] new by auto
  qed
  then have g1: "queue_ok ?ss g1" "set (gd_jobs g) \<subseteq> set (gd_jobs g2)" "set (gd_evaluations g) \<subseteq> set (gd_evaluations g2)"
    "show_nat (cs_id s) \<in> gj_session_id ` set (gd_jobs g2)" "show_nat (cs_id s) \<in> ie_session_id ` set (gd_evaluations g2)"
    using g2 by auto
  have "graded_ok (iv_sessions db2) g2" unfolding ss2(1)
    using graded_ok_submit [OF ok(2) g1(2,3,5,4)] ss2(2) by (simp add: keeps_def)
  then show ?thesis
    using attempts_ok_evolve [OF ev ok(1)] queue_ok_evolve [OF ev queue_ok_reports [OF g1(1) g2(1)]] by blast
qed

lemma submit_keeps:
  assumes ok: "life_ok w" and new: "new_job \<notin> gj_id ` set (gd_jobs (sw_grading w))"
  shows "life_ok (fst (submit_session E free clk new_job sid user token w))"
proof -
  obtain w' r where sub: "submit_session E free clk new_job sid user token w = (w', r)" by (rule prod.exhaust)
  have "life_ok w'"
    using sub
  proof (cases rule: submit_cases)
    case refused
    then show ?thesis using ok by (simp add: life_ok_def)
  next
    case (recorded s owner snap)
    show ?thesis
      using record_keeps [OF recorded(4) recorded(1,2) recorded(3) [unfolded pending_of_waiting] new] ok unfolding life_ok_def by blast
  qed
  then show ?thesis using sub by simp
qed

section \<open>Every request\<close>

lemma evolves_keeps:
  assumes "life_ok w" "evolves (iv_sessions (sw_db w)) (iv_sessions (sw_db w'))" "sw_grading w' = sw_grading w"
  shows "life_ok w'"
  using assms attempts_ok_evolve [OF evolves_weaken] graded_ok_evolve queue_ok_evolve [OF evolves_weaken]
  unfolding life_ok_def by metis

lemma jobs_keep:
  assumes "life_ok w" "iv_sessions (sw_db w') = iv_sessions (sw_db w)" "jobs_follow (sw_grading w) (sw_grading w')"
  shows "life_ok w'"
  using assms graded_ok_jobs queue_ok_jobs unfolding life_ok_def by metis

lemma start_keeps:
  assumes ok: "life_ok w" and new: "new_id \<notin> cs_id ` set (iv_sessions (sw_db w))"
  shows "life_ok (fst (start_session E free clk new_id user beta slug w))" (is "life_ok ?w")
proof -
  let ?ss = "iv_sessions (sw_db w)"
  have dist: "keys_distinct cs_id ?ss" using ok by (simp add: life_ok_def attempts_ok_def)
  from start_sessions [OF dist refl] consider (same) "evolves ?ss (iv_sessions (sw_db ?w))" |
    (made) ss1 s where "evolves ?ss ss1" "iv_sessions (sw_db ?w) = ss1 @ [s]" "filter is_open (attempts_of user slug ss1) = []"
      "cs_id s = new_id" "cs_user s = Some user" "cs_slug s = slug" "\<not> is_submitted s"
      "cs_attempt s = int (length (attempts_of user slug ss1)) + 1" by blast
  then show ?thesis
  proof cases
    case same
    then show ?thesis by (rule evolves_keeps [OF ok _ start_grading])
  next
    case made
    have "cs_id ` set ss1 = cs_id ` set ?ss" using evolves_ids [OF made(1)] by (metis set_map)
    then have fresh: "cs_id s \<notin> cs_id ` set ss1" using new made(4) by simp
    have "attempts_ok ss1" "graded_ok ss1 (sw_grading w)" "queue_ok ss1 (sw_grading w)"
      using ok attempts_ok_evolve [OF evolves_weaken [OF made(1)]] graded_ok_evolve [OF made(1)]
        queue_ok_evolve [OF evolves_weaken [OF made(1)]] unfolding life_ok_def by blast+
    then show ?thesis
      using attempts_ok_append [OF _ fresh made(5,6,3,8)] graded_ok_append [OF _ made(7)] queue_ok_append [OF _ fresh]
      unfolding life_ok_def made(2) start_grading by blast
  qed
qed

lemma route_gradings:
  "sw_grading (fst (get_session E clk sid user ip w)) = sw_grading w"
  "sw_grading (fst (session_files E free clk sid user w)) = sw_grading w"
  "sw_grading (fst (session_timer clk sid user action tok w)) = sw_grading w"
  "sw_grading (fst (advance_session_level E clk sid user token w)) = sw_grading w"
  "sw_grading (fst (abandon_session clk sid user token reason w)) = sw_grading w"
  by (auto simp: get_session_def session_files_def session_timer_def advance_session_level_def abandon_session_def with_db_def
      with_files_def Let_def split: sum.split prod.split option.split dest: limit_client_frame)

lemma boot_grading: "sw_grading (fst (workspace_bootstrap E free clk sid user ip w)) = sw_grading w"
  by (auto simp: workspace_bootstrap_def with_db_def with_files_def Let_def split: sum.split prod.split option.split dest: limit_client_frame)

lemma serve_keeps:
  assumes ok: "life_ok w" and new: "new_names r w"
  shows "life_ok (serve E key timeout clk free r w)"
proof -
  have dist: "keys_distinct cs_id (iv_sessions (sw_db w))" "keys_distinct gj_id (gd_jobs (sw_grading w))"
    using ok by (simp_all add: life_ok_def attempts_ok_def queue_ok_def)
  note steps = evolves_keeps [OF ok]
  show ?thesis
  proof (cases r)
    case (FileRoute fr)
    have "life_ok (w\<lparr>sw_iv := serve_files (ro_files E) (clk, free, fr) (sw_iv w)\<rparr>)"
      by (rule steps) (simp_all add: serve_files_evolves [OF dist(1)])
    then show ?thesis using FileRoute by (simp add: serve_def)
  next
    case (WorkerStep op)
    have "life_ok (w\<lparr>sw_grading := fst (grading_step F key timeout op (sw_grading w))\<rparr>)" for F
      by (rule jobs_keep [OF ok]) (simp_all add: step_follows [OF dist(2)])
    then show ?thesis using WorkerStep by (simp add: serve_def)
  next
    case (RetryRoute sid user)
    then show ?thesis using jobs_keep [OF ok _ retry_follows] by (simp add: serve_def retry_sessions)
  next
    case (DefendRoute sid user i a)
    then show ?thesis using jobs_keep [OF ok defend_sessions defend_follows] by (simp add: serve_def)
  next
    case (ListRoute sid user)
    have "life_ok (fst (session_files E free clk sid user w))"
      by (rule steps) (simp_all add: list_sessions route_gradings)
    then show ?thesis using ListRoute by (simp add: serve_def)
  qed (use new in \<open>simp_all add: serve_def start_keeps [OF ok] submit_keeps [OF ok] steps [OF read_evolves [OF dist(1)] route_gradings(1)]
      steps [OF boot_evolves [OF dist(1)] boot_grading] steps [OF timer_evolves [OF dist(1)] route_gradings(3)]
      steps [OF level_evolves [OF dist(1)] route_gradings(4)] steps [OF abandon_evolves [OF dist(1)] route_gradings(5)]\<close>)
qed

lemma reachable_keeps: "route_reachable E key timeout w0 w \<Longrightarrow> life_ok w0 \<Longrightarrow> life_ok w"
  by (induction rule: route_reachable.induct) (auto intro: serve_keeps)

lemma fresh_start: "iv_sessions (sw_db w0) = [] \<Longrightarrow> gd_jobs (sw_grading w0) = [] \<Longrightarrow> life_ok w0"
  by (simp add: life_ok_def attempts_ok_def graded_ok_def queue_ok_def keys_distinct_def attempts_of_def waiting_def)

section \<open>An example\<close>

definition demo_auto_env :: auto_env where
  "demo_auto_env = \<lparr>av_review = sample_review_env, av_enabled = True, av_py_repr = (\<lambda>_. []), av_dumps = (\<lambda>_. []),
     av_source = (\<lambda>_. None), av_events = (\<lambda>_. []), av_messages = (\<lambda>_. []), av_task = (\<lambda>_. (JNull, JNull))\<rparr>"

definition demo_routes :: "unit route_env" where
  "demo_routes = \<lparr>ro_files = demo_env, ro_freeze = demo_freeze_env (Inr ()), ro_auto = demo_auto_env, ro_dialect = Sqlite,
     ro_hash_key = (\<lambda>k. k), ro_ttl_hours = 24, ro_rate = 120, ro_challenge = (\<lambda>slug. slug = ''t''),
     ro_version_for = (\<lambda>_. ''1''), ro_scoring_version = ''v3'', ro_max_pending = 100, ro_tasks = (\<lambda>_. None),
     ro_score = (\<lambda>_ _ _. Inr [(''assessment'', JObj [(''packet'', JObj [(''evidence'', JList [])])])]), ro_questions = (\<lambda>_ _. []), ro_question_count = (\<lambda>_. 0), ro_guides = (\<lambda>_. [])\<rparr>"

definition demo_empty :: "unit session_world" where
  "demo_empty = \<lparr>sw_iv = \<lparr>iw_db = \<lparr>iv_sessions = [], iv_files = [], iv_events = []\<rparr>,
       iw_ws = \<lparr>ws_files = challenge_files, ws_ledger = empty_ledger\<rparr>\<rparr>,
     sw_grading = \<lparr>gd_jobs = [], gd_evaluations = []\<rparr>, sw_eval_jobs = [], sw_users = [5], sw_rates = [], sw_store = ()\<rparr>"

abbreviation demo_serve :: "route_request \<Rightarrow> unit session_world \<Rightarrow> unit session_world" where
  "demo_serve \<equiv> serve demo_routes [] 60 (\<lambda>n. 1000000 + int n) 5000"

definition demo_once :: "unit session_world" where
  "demo_once = demo_serve (StartRoute 7 5 None ''t'') demo_empty"

lemma demo_once_attempts: "map cs_id (iv_sessions (sw_db demo_once)) = [7]"
proof -
  obtain w1 where lim: "limit_route demo_routes (1000000 + int 0) (''interview-start:'' @ show_nat 5) 20 60 demo_empty = (w1, None)"
    by (simp add: limit_route_def demo_routes_def demo_empty_def enforce_rate_limit_def count_request_def Let_def begin_txn_def commit_def)
  have iv: "sw_iv w1 = sw_iv demo_empty" using limit_frame [OF lim] by simp
  have seven: "show_nat 7 = ''7''" by code_simp
  have made: "create_workspace (fe_config (ro_files demo_routes)) 5000 (show_nat 7) ''t'' (iw_ws (sw_iv w1)) = (created, Inr [''ws'', ''7''])"
    using created_by by (simp add: seven demo_routes_def demo_env_def iv demo_empty_def)
  have apart: "isolated demo_config (ws_files created) ''7'' ''t''" by code_simp
  have none: "open_attempts 5 ''t'' (sw_db w1) = []" by (simp add: iv demo_empty_def open_attempts_def)
  show ?thesis
    unfolding demo_once_def serve_def route_request.case start_session_def lim
    using made apart none seven
    by (simp add: demo_routes_def demo_env_def Let_def with_db_def with_files_def iv demo_empty_def add_event_def fresh_attempt_def)
qed

lemma demo_twice: "route_reachable demo_routes [] 60 demo_empty (demo_serve (StartRoute 8 5 None ''t'') demo_once)"
proof (rule route_reachable.step)
  have "new_names (StartRoute 7 5 None ''t'') demo_empty" by (simp add: demo_empty_def)
  then show "route_reachable demo_routes [] 60 demo_empty demo_once"
    unfolding demo_once_def by (rule route_reachable.step [OF route_reachable.start])
  have "cs_id ` set (iv_sessions (sw_db demo_once)) = {7}" using arg_cong [OF demo_once_attempts, of set] by simp
  then show "new_names (StartRoute 8 5 None ''t'') demo_once" by simp
qed

lemma demo_empty_fields: "iv_sessions (sw_db demo_empty) = []" "gd_jobs (sw_grading demo_empty) = []"
  by (simp_all add: demo_empty_def)

section \<open>Properties\<close>




text \<open>The second try of a submission whose first try did not reach the durable store.\<close>

definition demo_open_session :: candidate_session where
  "demo_open_session = demo_session\<lparr>cs_workspace := [''ws'', ''7'']\<rparr>"

definition demo_open :: "unit session_world" where
  "demo_open = demo_empty\<lparr>sw_iv := \<lparr>iw_db = \<lparr>iv_sessions = [demo_open_session], iv_files = [], iv_events = []\<rparr>, iw_ws = demo_failed\<rparr>\<rparr>"

lemma demo_open_ok: "life_ok demo_open"
  by (simp add: demo_open_def demo_empty_def life_ok_def attempts_ok_def graded_ok_def queue_ok_def keys_distinct_def
      attempts_of_def waiting_def demo_open_session_def demo_session_def is_submitted_def fresh_session_def)

lemma demo_submits:
  "map cs_id (iv_sessions (sw_db (demo_serve (SubmitRoute ''j'' 7 5 None) demo_open))) = [7] \<and>
   list_all is_submitted (iv_sessions (sw_db (demo_serve (SubmitRoute ''j'' 7 5 None) demo_open)))"
proof -
  let ?clk = "\<lambda>n. 1000000 + int n"
  have open_now: "maybe_expire_session (?clk n) fresh_session = (fresh_session, False)" if "n < 2" for n
    using that by (simp add: maybe_expire_session_def fresh_session_def)
  have loaded: "load_owned_session (?clk 0) 7 5 (sw_db demo_open) = Inr demo_open_session"
    using open_now [of 0] by (simp add: load_owned_session_def demo_open_def demo_open_session_def demo_session_def)
  have same: "demo_open_session\<lparr>cs_life := fst (maybe_expire_session (?clk 1) (cs_life demo_open_session))\<rparr> = demo_open_session"
    using open_now [of 1] by (simp add: demo_open_session_def demo_session_def)
  have gates: "is_open demo_open_session" "is_status (cs_life demo_open_session) \<noteq> ''expired''"
    "is_status (cs_life demo_open_session) \<noteq> ''submitted''" "require_editor (?clk 2) (cs_life demo_open_session) None = None"
    "ro_challenge demo_routes (cs_slug demo_open_session)" "require_grading_capacity demo_routes (cs_user demo_open_session) demo_open = None"
    by (simp_all add: is_open_def demo_open_session_def demo_session_def fresh_session_def mutable_statuses_def require_editor_def
        timer_snapshot_def Let_def demo_routes_def require_grading_capacity_def require_global_grading_capacity_def demo_open_def
        demo_empty_def pending_of_def max_pending_per_user_def)
  have "materialized (ws_files demo_failed) [''ws'', ''7'']" by code_simp
  then have ws: "session_workspace (ro_files demo_routes) 5000 demo_open_session (sw_iv demo_open) = (demo_failed, Inr demo_open_session)"
    by (simp add: session_workspace_def ensure_workspace_def demo_open_def demo_open_session_def demo_session_def)
  have seven: "show_nat 7 = ''7''" by code_simp
  have fr: "freeze_submission (ro_freeze demo_routes) 5000 (cs_workspace demo_open_session) (show_nat 7) (demo_failed, sw_store demo_open) =
      ((demo_failed, ()), Inr demo_snap)"
    using demo_retry by (simp add: seven demo_routes_def demo_open_session_def)
  obtain db2 g2 where rec: "record_submission demo_routes ?clk ''j'' demo_open_session demo_snap (sw_db demo_open) (sw_grading demo_open) =
      Inr (db2, g2)"
    by (simp add: record_submission_def demo_open_def demo_empty_def demo_routes_def enqueue_grading_job_def demo_snap_def Let_def
        submission_metrics_def to_dict_def to_list_def dict_item_def)
  have world: "sw_db (demo_serve (SubmitRoute ''j'' 7 5 None) demo_open) = db2"
    unfolding serve_def route_request.case submit_session_def loaded sum.case same Let_def
    using gates ws fr rec by (simp add: with_db_def)
  obtain s' where s': "iv_sessions db2 = row_upd cs_id (cs_id demo_open_session) (\<lambda>_. s') (iv_sessions (sw_db demo_open))"
    "keeps demo_open_session s'" "is_submitted s'"
    by (rule record_submissionE [OF rec])
  have "iv_sessions (sw_db demo_open) = [demo_open_session]" "cs_id demo_open_session = 7"
    by (simp_all add: demo_open_def demo_open_session_def demo_session_def)
  with s' show ?thesis unfolding world by (simp add: keeps_def)
qed




end
