(* ===== verification/Characters.thy ===== *)
theory Characters
  imports PyValues
begin

text \<open>
  The character classes of the language's \<open>str\<close> and the regular expressions that several modules use,
  for the characters up to the end of Latin-1.
\<close>

text \<open>The classes of Python's \<open>str\<close>, up to the last character of Latin-1.\<close>

definition is_lower :: "char \<Rightarrow> bool" where
  "is_lower c \<longleftrightarrow> (let n = of_char c :: nat in 97 \<le> n \<and> n \<le> 122 \<or> n \<in> {170, 181, 186} \<or> 223 \<le> n \<and> n \<noteq> 247)"

definition is_upper :: "char \<Rightarrow> bool" where
  "is_upper c \<longleftrightarrow> (let n = of_char c :: nat in 65 \<le> n \<and> n \<le> 90 \<or> 192 \<le> n \<and> n \<le> 222 \<and> n \<noteq> 215)"

definition is_number :: "char \<Rightarrow> bool" where
  "is_number c \<longleftrightarrow> is_digit c \<or> (of_char c :: nat) \<in> {178, 179, 185}"

definition is_alnum :: "char \<Rightarrow> bool" where
  "is_alnum c \<longleftrightarrow> is_lower c \<or> is_upper c \<or> is_number c \<or> (of_char c :: nat) \<in> {188, 189, 190}"

definition is_word :: "char \<Rightarrow> bool" where
  "is_word c \<longleftrightarrow> is_alnum c \<or> c = CHR ''_''"

definition ascii_alnum :: "char \<Rightarrow> bool" where
  "ascii_alnum c \<longleftrightarrow> (of_char c :: nat) < 128 \<and> is_alnum c"

text \<open>
  A search for \<open>\b\<close> followed by a non-empty pattern that \<open>m\<close> matches at the start of a text: \<open>before\<close>
  says whether the character before the text belongs to a word.
\<close>

fun search_boundary :: "(string \<Rightarrow> bool) \<Rightarrow> bool \<Rightarrow> string \<Rightarrow> bool" where
  "search_boundary m before [] \<longleftrightarrow> False"
| "search_boundary m before (c # cs) \<longleftrightarrow> before \<noteq> is_word c \<and> m (c # cs) \<or> search_boundary m (is_word c) cs"

text \<open>The text that follows a word character begins at a word boundary.\<close>

definition word_ends :: "string \<Rightarrow> bool" where
  "word_ends s \<longleftrightarrow> s = [] \<or> \<not> is_word (hd s)"

text \<open>\<open>\b(w1|w2|...)\b\<close> without regard to case.\<close>

definition search_words :: "string list \<Rightarrow> string \<Rightarrow> bool" where
  "search_words ws s \<longleftrightarrow>
     search_boundary (\<lambda>t. list_ex (\<lambda>w. prefix w (to_lower t) \<and> word_ends (drop (length w) t)) ws) False s"

end
