(* ===== verification/Accounts.thy ===== *)
theory Accounts
  imports RateLimit WorkspaceFiles Characters
begin

text \<open>
  Accounts and their tokens: signing up with an invite (\<open>backend/app/api/routes/auth.py\<close>,
  \<open>services/interview/beta_access.py\<close>), logging in and out, the exchange of refresh tokens, resetting a
  password (\<open>services/password_reset.py\<close>), who a request comes from (\<open>core/deps.py\<close>, \<open>core/security.py\<close>)
  and which address it is counted for (\<open>core/client_ip.py\<close>).

  Each request is one transaction after its rate limit, which commits by itself; \<open>clk\<close> gives the
  readings of the clock. The signed tokens, bcrypt, SHA-256, the validation of an address and the
  parsing of an IP or a UUID are library calls, and arguments; random values are arguments too. Mail,
  cookies and the analytics rows are left out.
\<close>

section \<open>The rows\<close>

record account =
  ac_id :: nat
  ac_email :: string
  ac_username :: string
  ac_first_name :: string
  ac_last_name :: string
  ac_display_name :: string
  ac_bio :: string
  ac_password_hash :: string
  ac_beta_status :: string
  ac_beta_cohort :: string
  ac_signup_source :: string
  ac_invite_code_id :: "nat option"
  ac_last_login_at :: "time option"

record revoked_token =
  rv_token_hash :: string
  rv_expires_at :: time

record reset_token =
  rt_user_id :: nat
  rt_token_hash :: string
  rt_expires_at :: time
  rt_used_at :: "time option"

record invite_code =
  ic_id :: nat
  ic_code :: string
  ic_cohort :: string
  ic_max_uses :: int
  ic_use_count :: int
  ic_expires_at :: "time option"

record account_db =
  ad_accounts :: "account list"
  ad_revoked :: "revoked_token list"
  ad_resets :: "reset_token list"
  ad_invites :: "invite_code list"

record account_world =
  aw_db :: account_db
  aw_rates :: "rate_counter list"

text \<open>The claims of a signed token.\<close>

record jwt_claims =
  jc_sub :: "string option"
  jc_exp :: int
  jc_type :: "string option"
  jc_jti :: string

text \<open>
  \<open>ae_jwt_decode t\<close> checks the signature and validates the claims at time \<open>t\<close>; \<open>ae_address\<close> is the
  validated form of an email address, \<open>ae_ip\<close> the canonical text of an IP address.
\<close>

record account_env =
  ae_dialect :: dialect
  ae_hash_key :: "string \<Rightarrow> string"
  ae_auth_limit :: int
  ae_sha256 :: "string \<Rightarrow> string"
  ae_jwt_encode :: "jwt_claims \<Rightarrow> string"
  ae_jwt_decode :: "time \<Rightarrow> string \<Rightarrow> jwt_claims option"
  ae_uuid :: "string \<Rightarrow> nat option"
  ae_hashpw :: "string \<Rightarrow> string \<Rightarrow> string"
  ae_checkpw :: "string \<Rightarrow> string \<Rightarrow> bool"
  ae_address :: "string \<Rightarrow> string option"
  ae_ip :: "string \<Rightarrow> string option"
  ae_trusted :: "string \<Rightarrow> bool"
  ae_cookie_enabled :: bool
  ae_invite_required :: bool
  ae_email_allowlist :: string
  ae_default_cohort :: string
  ae_delivery :: bool

definition days :: "int \<Rightarrow> time" where
  "days n = seconds (86400 * n)"

definition internal_error :: http_error where
  "internal_error = HTTPException 500 ''Internal Server Error'' None"

section \<open>The client's address\<close>

record auth_request =
  aq_peer :: string
  aq_forwarded_for :: string
  aq_real_ip :: string
  aq_bearer :: "string option"
  aq_cookie :: "string option"

definition parse_ip :: "account_env \<Rightarrow> string \<Rightarrow> string option" where
  "parse_ip E value = ae_ip E (strip value)"

definition forwarded_ips :: "account_env \<Rightarrow> string \<Rightarrow> string list" where
  "forwarded_ips E header = List.map_filter (parse_ip E) (split_on CHR '','' header)"

definition client_ip_from_request :: "account_env \<Rightarrow> auth_request \<Rightarrow> string" where
  "client_ip_from_request E q =
     (case parse_ip E (aq_peer q) of
        None \<Rightarrow> if aq_peer q \<noteq> [] then aq_peer q else ''unknown''
      | Some peer \<Rightarrow>
          if \<not> ae_trusted E peer then peer
          else (case find (\<lambda>ip. \<not> ae_trusted E ip) (rev (forwarded_ips E (aq_forwarded_for q))) of
              Some ip \<Rightarrow> ip
            | None \<Rightarrow>
                (case parse_ip E (aq_real_ip q) of
                   Some ip \<Rightarrow> if \<not> ae_trusted E ip then ip else peer
                 | None \<Rightarrow> peer)))"

text \<open>\<open>_check_auth_rate_limit\<close> of a request; each of the two counters reads the clock.\<close>

definition limit_auth ::
  "account_env \<Rightarrow> (nat \<Rightarrow> time) \<Rightarrow> auth_request \<Rightarrow> string option \<Rightarrow> account_world \<Rightarrow> account_world \<times> http_error option" where
  "limit_auth E clk q identity w =
     (case check_auth_rate_limit (ae_dialect E) (ae_hash_key E) (clk 0) (clk 1) (ae_auth_limit E) 60
             (client_ip_from_request E q) identity (begin_txn (aw_rates w)) of
        (x, err) \<Rightarrow> (w\<lparr>aw_rates := tx_committed x\<rparr>, err))"

section \<open>Passwords and tokens\<close>

definition bcrypt_password_max_bytes :: nat where
  "bcrypt_password_max_bytes = 72"

definition password_within_bcrypt_limit :: "string \<Rightarrow> bool" where
  "password_within_bcrypt_limit password \<longleftrightarrow> length (utf8 password) \<le> bcrypt_password_max_bytes"

definition hash_password :: "account_env \<Rightarrow> string \<Rightarrow> string \<Rightarrow> py_exc + string" where
  "hash_password E salt password =
     (if \<not> password_within_bcrypt_limit password then Inl ValueError else Inr (ae_hashpw E salt password))"

definition verify_password :: "account_env \<Rightarrow> string \<Rightarrow> string \<Rightarrow> bool" where
  "verify_password E plain hashed \<longleftrightarrow> password_within_bcrypt_limit plain \<and> ae_checkpw E plain hashed"

definition access_token_expire :: time where
  "access_token_expire = seconds 900"

definition refresh_token_expire :: time where
  "refresh_token_expire = days 30"

definition create_access_token :: "account_env \<Rightarrow> time \<Rightarrow> nat \<Rightarrow> string \<Rightarrow> string" where
  "create_access_token E now user jti = ae_jwt_encode E
     \<lparr>jc_sub = Some (show_nat user), jc_exp = timestamp (now + access_token_expire), jc_type = Some ''access'', jc_jti = jti\<rparr>"

definition create_refresh_token :: "account_env \<Rightarrow> time \<Rightarrow> nat \<Rightarrow> string \<Rightarrow> string" where
  "create_refresh_token E now user jti = ae_jwt_encode E
     \<lparr>jc_sub = Some (show_nat user), jc_exp = timestamp (now + refresh_token_expire), jc_type = Some ''refresh'', jc_jti = jti\<rparr>"

definition decode_token :: "string \<Rightarrow> account_env \<Rightarrow> time \<Rightarrow> string \<Rightarrow> nat option" where
  "decode_token kind E now token =
     (case ae_jwt_decode E now token of
        None \<Rightarrow> None
      | Some c \<Rightarrow>
          if jc_type c \<noteq> Some kind then None
          else (case jc_sub c of None \<Rightarrow> None | Some s \<Rightarrow> ae_uuid E s))"

definition decode_access_token :: "account_env \<Rightarrow> time \<Rightarrow> string \<Rightarrow> nat option" where
  "decode_access_token = decode_token ''access''"

definition decode_refresh_token :: "account_env \<Rightarrow> time \<Rightarrow> string \<Rightarrow> nat option" where
  "decode_refresh_token = decode_token ''refresh''"

section \<open>The user of a request\<close>

definition extract_access_token :: "account_env \<Rightarrow> auth_request \<Rightarrow> string option" where
  "extract_access_token E q =
     (if aq_bearer q \<noteq> None \<and> aq_bearer q \<noteq> Some [] then aq_bearer q
      else if ae_cookie_enabled E \<and> aq_cookie q \<noteq> Some [] then aq_cookie q
      else None)"

definition access_token_is_revoked :: "account_env \<Rightarrow> time \<Rightarrow> string \<Rightarrow> account_db \<Rightarrow> bool" where
  "access_token_is_revoked E now token db \<longleftrightarrow>
     list_ex (\<lambda>r. rv_token_hash r = ae_sha256 E token \<and> rv_expires_at r \<ge> now) (ad_revoked db)"

definition disabled :: "account \<Rightarrow> bool" where
  "disabled a \<longleftrightarrow> (if ac_beta_status a = [] then ''active'' else ac_beta_status a) = ''disabled''"

definition unauthorized :: "string \<Rightarrow> http_error" where
  "unauthorized text = HTTPException 401 text None"

definition account_disabled :: http_error where
  "account_disabled = HTTPException 403 ''Account disabled'' None"

definition get_current_user :: "account_env \<Rightarrow> (nat \<Rightarrow> time) \<Rightarrow> auth_request \<Rightarrow> account_db \<Rightarrow> http_error + account" where
  "get_current_user E clk q db =
     (case extract_access_token E q of
        None \<Rightarrow> Inl (unauthorized ''Not authenticated'')
      | Some token \<Rightarrow>
          (case decode_access_token E (clk 0) token of
             None \<Rightarrow> Inl (unauthorized ''Invalid or expired token'')
           | Some user_id \<Rightarrow>
               if access_token_is_revoked E (clk 1) token db then Inl (unauthorized ''Token has been revoked'')
               else (case row_get ac_id user_id (ad_accounts db) of
                   None \<Rightarrow> Inl (unauthorized ''User not found'')
                 | Some user \<Rightarrow> if disabled user then Inl account_disabled else Inr user)))"

definition get_optional_user :: "account_env \<Rightarrow> (nat \<Rightarrow> time) \<Rightarrow> auth_request \<Rightarrow> account_db \<Rightarrow> account option" where
  "get_optional_user E clk q db =
     (case extract_access_token E q of
        None \<Rightarrow> None
      | Some token \<Rightarrow>
          (case decode_access_token E (clk 0) token of
             None \<Rightarrow> None
           | Some user_id \<Rightarrow>
               if access_token_is_revoked E (clk 1) token db then None
               else (case row_get ac_id user_id (ad_accounts db) of
                   None \<Rightarrow> None
                 | Some user \<Rightarrow> if disabled user then None else Some user)))"

section \<open>Revoking\<close>

definition revoke_row :: "account_env \<Rightarrow> string \<Rightarrow> time \<Rightarrow> revoked_token list \<Rightarrow> revoked_token list" where
  "revoke_row E token expires_at rows =
     (if list_ex (\<lambda>r. rv_token_hash r = ae_sha256 E token) rows then rows
      else rows @ [\<lparr>rv_token_hash = ae_sha256 E token, rv_expires_at = expires_at\<rparr>])"

definition revoke_access_token :: "account_env \<Rightarrow> time \<Rightarrow> string \<Rightarrow> account_db \<Rightarrow> account_db" where
  "revoke_access_token E now token db =
     db\<lparr>ad_revoked := revoke_row E token (now + access_token_expire) (ad_revoked db)\<rparr>"

text \<open>The rows of tokens that have expired are dropped on the way.\<close>

definition revoke_refresh_token :: "account_env \<Rightarrow> time \<Rightarrow> string \<Rightarrow> account_db \<Rightarrow> account_db" where
  "revoke_refresh_token E now token db =
     db\<lparr>ad_revoked := revoke_row E token (now + refresh_token_expire) (filter (\<lambda>r. \<not> rv_expires_at r < now) (ad_revoked db))\<rparr>"

section \<open>What a sign-up may say\<close>

definition validate_password_strength :: "string \<Rightarrow> bool" where
  "validate_password_strength value \<longleftrightarrow>
     length value \<ge> 12 \<and> length (utf8 value) \<le> bcrypt_password_max_bytes \<and> list_ex is_lower value \<and>
     list_ex is_upper value \<and> list_ex is_number value \<and> list_ex (\<lambda>c. \<not> is_alnum c) value"

text \<open>The pattern \<open>[A-Za-z0-9][A-Za-z0-9_-]{1,62}[A-Za-z0-9]\<close>.\<close>

definition valid_username :: "string \<Rightarrow> bool" where
  "valid_username u \<longleftrightarrow>
     3 \<le> length u \<and> length u \<le> 64 \<and> list_all (\<lambda>c. ascii_alnum c \<or> c = CHR ''_'' \<or> c = CHR ''-'') u \<and>
     ascii_alnum (hd u) \<and> ascii_alnum (last u)"

definition normalize_email :: "account_env \<Rightarrow> string \<Rightarrow> string option" where
  "normalize_email E value =
     (case ae_address E value of
        None \<Rightarrow> None
      | Some address \<Rightarrow>
          (let normalized = to_lower (strip address) in if length normalized > 256 then None else Some normalized))"

definition normalize_person_name :: "string \<Rightarrow> string option" where
  "normalize_person_name value = (let normalized = strip value in if length normalized > 128 then None else Some normalized)"

record user_create =
  uc_email :: string
  uc_username :: string
  uc_first_name :: string
  uc_last_name :: string
  uc_password :: string
  uc_invite_code :: "string option"

text \<open>The validated form of the body; \<open>None\<close> is an answer 422 before the handler runs.\<close>

definition validate_user_create :: "account_env \<Rightarrow> user_create \<Rightarrow> user_create option" where
  "validate_user_create E u =
     (case (normalize_email E (uc_email u), normalize_person_name (uc_first_name u), normalize_person_name (uc_last_name u)) of
        (Some email, Some first_name, Some last_name) \<Rightarrow>
          if validate_password_strength (uc_password u) \<and> valid_username (strip (uc_username u))
          then Some (u\<lparr>uc_email := email, uc_username := strip (uc_username u), uc_first_name := first_name,
                       uc_last_name := last_name\<rparr>)
          else None
      | _ \<Rightarrow> None)"

definition unprocessable :: http_error where
  "unprocessable = HTTPException 422 ''Unprocessable Entity'' None"

section \<open>Invites\<close>

definition allowlist :: "account_env \<Rightarrow> string list" where
  "allowlist E =
     (let raw = strip (ae_email_allowlist E) in
      if raw = [] then []
      else map (\<lambda>e. to_lower (strip e)) (filter (\<lambda>e. strip e \<noteq> []) (split_on CHR '','' raw)))"

definition invite_required :: http_error where
  "invite_required = HTTPException 403 ''Invite required for private beta'' None"

definition invite_usable :: "time \<Rightarrow> invite_code \<Rightarrow> bool" where
  "invite_usable now i \<longleftrightarrow>
     (case ic_expires_at i of Some t \<Rightarrow> \<not> t < now | None \<Rightarrow> True) \<and> ic_use_count i < ic_max_uses i"

definition consume_invite_or_allowlist ::
  "account_env \<Rightarrow> time \<Rightarrow> string \<Rightarrow> string option \<Rightarrow> account_db \<Rightarrow>
   http_error + account_db \<times> nat option \<times> string \<times> string" where
  "consume_invite_or_allowlist E now email invite_code db =
     (if \<not> ae_invite_required E then Inr (db, None, ''open'', ''direct'')
      else if to_lower (strip email) \<in> set (allowlist E) then Inr (db, None, ae_default_cohort E, ''allowlist'')
      else
        (let code = strip (case invite_code of Some c \<Rightarrow> c | None \<Rightarrow> []) in
         if code = [] then Inl invite_required
         else (case row_get ic_code code (ad_invites db) of
             None \<Rightarrow> Inl invite_required
           | Some i \<Rightarrow>
               if \<not> invite_usable now i then Inl invite_required
               else Inr (db\<lparr>ad_invites := row_upd ic_code code (\<lambda>i. i\<lparr>ic_use_count := ic_use_count i + 1\<rparr>) (ad_invites db)\<rparr>,
                         Some (ic_id i), if ic_cohort i \<noteq> [] then ic_cohort i else ae_default_cohort E, ''invite''))))"

definition create_invite ::
  "nat \<Rightarrow> string \<Rightarrow> string \<Rightarrow> int \<Rightarrow> time option \<Rightarrow> account_db \<Rightarrow> account_db" where
  "create_invite new_id code cohort max_uses expires_at db =
     db\<lparr>ad_invites := ad_invites db @ [\<lparr>ic_id = new_id, ic_code = code, ic_cohort = cohort, ic_max_uses = max 1 max_uses,
        ic_use_count = 0, ic_expires_at = expires_at\<rparr>]\<rparr>"

section \<open>Signing up and logging in\<close>

record token_response =
  tr_access_token :: string
  tr_refresh_token :: string
  tr_user :: account

text \<open>\<open>jtis\<close> are the random identifiers of the two tokens, \<open>t\<close> and \<open>t'\<close> the times of their creation.\<close>

definition issue_tokens :: "account_env \<Rightarrow> time \<Rightarrow> time \<Rightarrow> string \<times> string \<Rightarrow> account \<Rightarrow> token_response" where
  "issue_tokens E t t' jtis user =
     \<lparr>tr_access_token = create_access_token E t (ac_id user) (fst jtis),
      tr_refresh_token = create_refresh_token E t' (ac_id user) (snd jtis), tr_user = user\<rparr>"

definition by_email :: "string \<Rightarrow> account_db \<Rightarrow> account list" where
  "by_email email db = filter (\<lambda>a. to_lower (ac_email a) = email) (ad_accounts db)"

definition new_account :: "time \<Rightarrow> nat \<Rightarrow> user_create \<Rightarrow> string \<Rightarrow> nat option \<Rightarrow> string \<Rightarrow> string \<Rightarrow> account" where
  "new_account now new_id u password_hash invite cohort source =
     \<lparr>ac_id = new_id, ac_email = uc_email u, ac_username = uc_username u, ac_first_name = uc_first_name u,
      ac_last_name = uc_last_name u,
      ac_display_name = strip (if uc_first_name u \<noteq> [] then uc_first_name u else uc_username u), ac_bio = [],
      ac_password_hash = password_hash, ac_beta_status = ''active'', ac_beta_cohort = cohort, ac_signup_source = source,
      ac_invite_code_id = invite, ac_last_login_at = Some now\<rparr>"

text \<open>\<open>scalar_one_or_none\<close> raises when more than one row matches.\<close>

definition signup ::
  "account_env \<Rightarrow> (nat \<Rightarrow> time) \<Rightarrow> nat \<Rightarrow> string \<Rightarrow> string \<times> string \<Rightarrow> auth_request \<Rightarrow> user_create \<Rightarrow> account_world \<Rightarrow>
   account_world \<times> (http_error + token_response)" where
  "signup E clk new_id salt jtis q body w =
     (case validate_user_create E body of
        None \<Rightarrow> (w, Inl unprocessable)
      | Some u \<Rightarrow>
          (case limit_auth E clk q (Some (uc_email u)) w of
             (w1, Some e) \<Rightarrow> (w1, Inl e)
           | (w1, None) \<Rightarrow>
               (case filter (\<lambda>a. to_lower (ac_email a) = uc_email u \<or> ac_username a = uc_username u) (ad_accounts (aw_db w1)) of
                  [] \<Rightarrow>
                    (case consume_invite_or_allowlist E (clk 2) (uc_email u) (uc_invite_code u) (aw_db w1) of
                       Inl e \<Rightarrow> (w1, Inl e)
                     | Inr (db1, invite, cohort, source) \<Rightarrow>
                         (case hash_password E salt (uc_password u) of
                            Inl _ \<Rightarrow> (w1, Inl internal_error)
                          | Inr hashed \<Rightarrow>
                              (let a = new_account (clk 3) new_id u hashed invite cohort source
                               in (w1\<lparr>aw_db := db1\<lparr>ad_accounts := ad_accounts db1 @ [a]\<rparr>\<rparr>,
                                   Inr (issue_tokens E (clk 4) (clk 5) jtis a)))))
                | [_] \<Rightarrow> (w1, Inl (HTTPException 409 ''Email or username already taken'' None))
                | _ \<Rightarrow> (w1, Inl internal_error))))"

definition put_account :: "account \<Rightarrow> account_db \<Rightarrow> account_db" where
  "put_account user db = db\<lparr>ad_accounts := row_upd ac_id (ac_id user) (\<lambda>_. user) (ad_accounts db)\<rparr>"

definition wrong_password :: http_error where
  "wrong_password = unauthorized ''Incorrect email or password''"

definition login ::
  "account_env \<Rightarrow> (nat \<Rightarrow> time) \<Rightarrow> string \<times> string \<Rightarrow> auth_request \<Rightarrow> string \<Rightarrow> string \<Rightarrow> account_world \<Rightarrow>
   account_world \<times> (http_error + token_response)" where
  "login E clk jtis q email password w =
     (case normalize_email E email of
        None \<Rightarrow> (w, Inl unprocessable)
      | Some address \<Rightarrow>
          (case limit_auth E clk q (Some address) w of
             (w1, Some e) \<Rightarrow> (w1, Inl e)
           | (w1, None) \<Rightarrow>
               (case by_email address (aw_db w1) of
                  [] \<Rightarrow> (w1, Inl wrong_password)
                | [user] \<Rightarrow>
                    if \<not> verify_password E password (ac_password_hash user) then (w1, Inl wrong_password)
                    else if disabled user then (w1, Inl account_disabled)
                    else
                      (let user' = user\<lparr>ac_last_login_at := Some (clk 2)\<rparr>
                       in (w1\<lparr>aw_db := put_account user' (aw_db w1)\<rparr>,
                           Inr (issue_tokens E (clk 3) (clk 4) jtis user')))
                | _ \<Rightarrow> (w1, Inl internal_error))))"

section \<open>Exchanging and giving up tokens\<close>

definition refresh_token_endpoint ::
  "account_env \<Rightarrow> (nat \<Rightarrow> time) \<Rightarrow> string \<times> string \<Rightarrow> auth_request \<Rightarrow> string \<Rightarrow> account_world \<Rightarrow>
   account_world \<times> (http_error + token_response)" where
  "refresh_token_endpoint E clk jtis q token w =
     (case limit_auth E clk q None w of
        (w1, Some e) \<Rightarrow> (w1, Inl e)
      | (w1, None) \<Rightarrow>
          (case decode_refresh_token E (clk 2) token of
             None \<Rightarrow> (w1, Inl (unauthorized ''Invalid or expired refresh token''))
           | Some user_id \<Rightarrow>
               if list_ex (\<lambda>r. rv_token_hash r = ae_sha256 E token) (ad_revoked (aw_db w1))
               then (w1, Inl (unauthorized ''Refresh token has been revoked''))
               else (case row_get ac_id user_id (ad_accounts (aw_db w1)) of
                   None \<Rightarrow> (w1, Inl (unauthorized ''User not found''))
                 | Some user \<Rightarrow>
                     if disabled user then (w1, Inl account_disabled)
                     else (w1\<lparr>aw_db := revoke_refresh_token E (clk 3) token (aw_db w1)\<rparr>,
                           Inr (issue_tokens E (clk 4) (clk 5) jtis user)))))"

definition logout ::
  "account_env \<Rightarrow> (nat \<Rightarrow> time) \<Rightarrow> auth_request \<Rightarrow> string \<Rightarrow> account_world \<Rightarrow> account_world \<times> (http_error + unit)" where
  "logout E clk q token w =
     (case get_current_user E clk q (aw_db w) of
        Inl e \<Rightarrow> (w, Inl e)
      | Inr user \<Rightarrow>
          if decode_refresh_token E (clk 2) token \<noteq> Some (ac_id user)
          then (w, Inl (unauthorized ''Refresh token does not belong to the current user''))
          else
            (let db1 = revoke_refresh_token E (clk 3) token (aw_db w);
                 db2 = (case extract_access_token E q of Some t \<Rightarrow> revoke_access_token E (clk 3) t db1 | None \<Rightarrow> db1)
             in (w\<lparr>aw_db := db2\<rparr>, Inr ())))"

section \<open>The profile\<close>

text \<open>A field that is not sent, or its value; a null, which the database refuses, is left out.\<close>

record user_update =
  uu_first_name :: "string option"
  uu_last_name :: "string option"
  uu_display_name :: "string option"
  uu_bio :: "string option"

definition set_field :: "string option \<Rightarrow> string \<Rightarrow> string" where
  "set_field f old = (case f of Some v \<Rightarrow> strip v | None \<Rightarrow> old)"

definition valid_update :: "user_update \<Rightarrow> bool" where
  "valid_update u \<longleftrightarrow>
     list_all (\<lambda>f. case f of Some v \<Rightarrow> normalize_person_name v \<noteq> None | None \<Rightarrow> True)
       [uu_first_name u, uu_last_name u, uu_display_name u] \<and>
     (case uu_bio u of Some v \<Rightarrow> length (strip v) \<le> 500 | None \<Rightarrow> True)"

definition updated_user :: "user_update \<Rightarrow> account \<Rightarrow> account" where
  "updated_user u user =
     user\<lparr>ac_first_name := set_field (uu_first_name u) (ac_first_name user),
       ac_last_name := set_field (uu_last_name u) (ac_last_name user),
       ac_display_name := set_field (uu_display_name u) (ac_display_name user),
       ac_bio := set_field (uu_bio u) (ac_bio user)\<rparr>"

definition update_me ::
  "account_env \<Rightarrow> (nat \<Rightarrow> time) \<Rightarrow> auth_request \<Rightarrow> user_update \<Rightarrow> account_world \<Rightarrow> account_world \<times> (http_error + account)" where
  "update_me E clk q u w =
     (case get_current_user E clk q (aw_db w) of
        Inl e \<Rightarrow> (w, Inl e)
      | Inr user \<Rightarrow>
          if \<not> valid_update u then (w, Inl unprocessable)
          else (w\<lparr>aw_db := put_account (updated_user u user) (aw_db w)\<rparr>, Inr (updated_user u user)))"

section \<open>Resetting a password\<close>

definition reset_token_ttl :: time where
  "reset_token_ttl = seconds 3600"

text \<open>The raw token leaves by mail only; the answer is the same whether there is an account or not.\<close>

definition forgot_password ::
  "account_env \<Rightarrow> (nat \<Rightarrow> time) \<Rightarrow> string \<Rightarrow> auth_request \<Rightarrow> string \<Rightarrow> account_world \<Rightarrow> account_world \<times> (http_error + unit)" where
  "forgot_password E clk raw_token q email w =
     (case normalize_email E email of
        None \<Rightarrow> (w, Inl unprocessable)
      | Some address \<Rightarrow>
          (case limit_auth E clk q None w of
             (w1, Some e) \<Rightarrow> (w1, Inl e)
           | (w1, None) \<Rightarrow>
               if \<not> ae_delivery E then (w1, Inr ())
               else (case by_email address (aw_db w1) of
                   [] \<Rightarrow> (w1, Inr ())
                 | [user] \<Rightarrow>
                     (w1\<lparr>aw_db := (aw_db w1)\<lparr>ad_resets := ad_resets (aw_db w1) @
                        [\<lparr>rt_user_id = ac_id user, rt_token_hash = ae_sha256 E raw_token,
                          rt_expires_at = clk 2 + reset_token_ttl, rt_used_at = None\<rparr>]\<rparr>\<rparr>, Inr ())
                 | _ \<Rightarrow> (w1, Inl internal_error))))"

definition invalid_reset :: http_error where
  "invalid_reset = HTTPException 400 ''Invalid or expired reset token'' None"

definition reset_password ::
  "account_env \<Rightarrow> (nat \<Rightarrow> time) \<Rightarrow> string \<Rightarrow> auth_request \<Rightarrow> string \<Rightarrow> string \<Rightarrow> account_world \<Rightarrow>
   account_world \<times> (http_error + unit)" where
  "reset_password E clk salt q raw_token password w =
     (if strip raw_token = [] \<or> \<not> validate_password_strength password then (w, Inl unprocessable)
      else case limit_auth E clk q None w of
          (w1, Some e) \<Rightarrow> (w1, Inl e)
        | (w1, None) \<Rightarrow>
            (let db = aw_db w1; now = clk 2; hashed_token = ae_sha256 E (strip raw_token) in
             case row_get rt_token_hash hashed_token (ad_resets db) of
               None \<Rightarrow> (w1, Inl invalid_reset)
             | Some row \<Rightarrow>
                 if rt_used_at row \<noteq> None \<or> rt_expires_at row \<le> now then (w1, Inl invalid_reset)
                 else (case row_get ac_id (rt_user_id row) (ad_accounts db) of
                     None \<Rightarrow> (w1, Inl invalid_reset)
                   | Some user \<Rightarrow>
                       (case hash_password E salt password of
                          Inl _ \<Rightarrow> (w1, Inl internal_error)
                        | Inr hashed \<Rightarrow>
                            (w1\<lparr>aw_db := put_account (user\<lparr>ac_password_hash := hashed\<rparr>) (db\<lparr>ad_resets :=
                               row_upd rt_token_hash hashed_token (\<lambda>_. row\<lparr>rt_used_at := Some now\<rparr>) (ad_resets db)\<rparr>)\<rparr>,
                             Inr ())))))"

section \<open>Requests in any order\<close>

datatype account_op =
    SignupOp nat string "string \<times> string" auth_request user_create
  | LoginOp "string \<times> string" auth_request string string
  | RefreshOp "string \<times> string" auth_request string
  | LogoutOp auth_request string
  | UpdateOp auth_request user_update
  | ForgotOp string auth_request string
  | ResetOp string auth_request string string

definition account_step :: "account_env \<Rightarrow> (nat \<Rightarrow> time) \<times> account_op \<Rightarrow> account_world \<Rightarrow> account_world" where
  "account_step E r w =
     (case r of (clk, op) \<Rightarrow>
        (case op of
           SignupOp new_id salt jtis q u \<Rightarrow> fst (signup E clk new_id salt jtis q u w)
         | LoginOp jtis q email password \<Rightarrow> fst (login E clk jtis q email password w)
         | RefreshOp jtis q token \<Rightarrow> fst (refresh_token_endpoint E clk jtis q token w)
         | LogoutOp q token \<Rightarrow> fst (logout E clk q token w)
         | UpdateOp q u \<Rightarrow> fst (update_me E clk q u w)
         | ForgotOp raw q email \<Rightarrow> fst (forgot_password E clk raw q email w)
         | ResetOp salt q raw password \<Rightarrow> fst (reset_password E clk salt q raw password w)))"

definition run_accounts :: "account_env \<Rightarrow> ((nat \<Rightarrow> time) \<times> account_op) list \<Rightarrow> account_world \<Rightarrow> account_world" where
  "run_accounts E rs w = fold (account_step E) rs w"

text \<open>No clock of the requests is ahead of \<open>t\<close>; a request reads at most six times.\<close>

definition not_after :: "time \<Rightarrow> ((nat \<Rightarrow> time) \<times> account_op) list \<Rightarrow> bool" where
  "not_after t rs \<longleftrightarrow> list_all (\<lambda>(clk, op). list_all (\<lambda>n. clk n \<le> t) [0..<6]) rs"

section \<open>What the requests do to the tables\<close>

lemma limit_auth_db: "limit_auth E clk q identity w = (w1, err) \<Longrightarrow> aw_db w1 = aw_db w"
  by (auto simp: limit_auth_def split: prod.splits)

lemma consume_frame:
  "consume_invite_or_allowlist E now email code db = Inr (db1, rest) \<Longrightarrow>
   ad_accounts db1 = ad_accounts db \<and> ad_revoked db1 = ad_revoked db \<and> ad_resets db1 = ad_resets db"
  by (auto simp: consume_invite_or_allowlist_def Let_def split: if_splits option.splits)

lemma signup_cases:
  assumes "signup E clk new_id salt jtis q body w = (w', r)"
  obtains (refused) "aw_db w' = aw_db w"
  | (made) u db1 invite cohort source hashed where "validate_user_create E body = Some u"
      "filter (\<lambda>a. to_lower (ac_email a) = uc_email u \<or> ac_username a = uc_username u) (ad_accounts (aw_db w)) = []"
      "consume_invite_or_allowlist E (clk 2) (uc_email u) (uc_invite_code u) (aw_db w) = Inr (db1, invite, cohort, source)"
      "aw_db w' = db1\<lparr>ad_accounts := ad_accounts db1 @ [new_account (clk 3) new_id u hashed invite cohort source]\<rparr>"
proof (cases "validate_user_create E body")
  case None
  then show ?thesis using assms refused by (simp add: signup_def)
next
  case (Some u)
  note keep = refused and make = made
  obtain w1 err where lim: "limit_auth E clk q (Some (uc_email u)) w = (w1, err)" by (rule prod.exhaust)
  note same = limit_auth_db [OF lim]
  let ?taken = "filter (\<lambda>a. to_lower (ac_email a) = uc_email u \<or> ac_username a = uc_username u) (ad_accounts (aw_db w))"
  show ?thesis
  proof (cases "err = None \<and> ?taken = []")
    case False
    then have "w' = w1" using assms Some lim same by (auto simp: signup_def split: option.splits list.splits)
    then show ?thesis using keep same by simp
  next
    case True
    then have go: "err = None" "?taken = []" by simp_all
    show ?thesis
    proof (cases "consume_invite_or_allowlist E (clk 2) (uc_email u) (uc_invite_code u) (aw_db w)")
      case (Inl e)
      then have "w' = w1" using assms Some lim same go by (simp add: signup_def)
      then show ?thesis using keep same by simp
    next
      case (Inr res)
      obtain db1 invite cohort source where res: "res = (db1, invite, cohort, source)" by (rule prod_cases4)
      show ?thesis
      proof (cases "hash_password E salt (uc_password u)")
        case (Inl e)
        then have "w' = w1" using assms Some lim same go Inr res by (simp add: signup_def)
        then show ?thesis using keep same by simp
      next
        case hashed: (Inr h)
        then have "aw_db w' = db1\<lparr>ad_accounts := ad_accounts db1 @ [new_account (clk 3) new_id u h invite cohort source]\<rparr>"
          using assms Some lim same go Inr res by (auto simp: signup_def Let_def)
        then show ?thesis using make [OF Some go(2)] Inr res by blast
      qed
    qed
  qed
qed

text \<open>A login, an update and a reset write one row of the accounts, and keep who it is.\<close>

definition same_person :: "account \<Rightarrow> account \<Rightarrow> bool" where
  "same_person a b \<longleftrightarrow> ac_id b = ac_id a \<and> ac_email b = ac_email a \<and> ac_username b = ac_username a \<and>
     ac_beta_status b = ac_beta_status a"

lemma same_person_simps [simp]:
  "same_person a (a\<lparr>ac_last_login_at := t\<rparr>)" "same_person a (a\<lparr>ac_password_hash := h\<rparr>)" "same_person a (updated_user u a)"
  by (simp_all add: same_person_def updated_user_def)

lemma put_account_simps [simp]:
  "ad_revoked (put_account a db) = ad_revoked db" "ad_resets (put_account a db) = ad_resets db"
  "ad_invites (put_account a db) = ad_invites db"
  by (simp_all add: put_account_def)

lemma login_cases:
  assumes "login E clk jtis q email password w = (w', r)"
  obtains (refused) "aw_db w' = aw_db w"
  | (done_it) user user' where "user \<in> set (ad_accounts (aw_db w))" "same_person user user'" "aw_db w' = put_account user' (aw_db w)"
proof (cases "normalize_email E email")
  case None
  then show ?thesis using assms refused by (simp add: login_def)
next
  case (Some address)
  note keep = refused and make = done_it
  obtain w1 err where lim: "limit_auth E clk q (Some address) w = (w1, err)" by (rule prod.exhaust)
  note same = limit_auth_db [OF lim]
  show ?thesis
  proof (cases "\<exists>user. by_email address (aw_db w) = [user]")
    case False
    then have "w' = w1" using assms Some lim same by (auto simp: login_def split: option.splits list.splits)
    then show ?thesis using keep same by simp
  next
    case True
    then obtain user where user: "by_email address (aw_db w) = [user]" by blast
    then have "user \<in> set (by_email address (aw_db w))" by simp
    then have mem: "user \<in> set (ad_accounts (aw_db w))" by (simp add: by_email_def)
    consider "w' = w1" | "aw_db w' = put_account (user\<lparr>ac_last_login_at := Some (clk 2)\<rparr>) (aw_db w)"
      using assms Some lim same user by (auto simp: login_def Let_def split: option.splits if_splits)
    then show ?thesis
    proof cases
      case 1
      then show ?thesis using keep same by simp
    next
      case 2
      then show ?thesis by (rule make [OF mem same_person_simps(1)])
    qed
  qed
qed

lemma refresh_cases:
  assumes "refresh_token_endpoint E clk jtis q token w = (w', r)"
  obtains (refused) e where "aw_db w' = aw_db w" "r = Inl e"
  | (exchanged) user_id where "decode_refresh_token E (clk 2) token = Some user_id"
      "\<not> list_ex (\<lambda>r. rv_token_hash r = ae_sha256 E token) (ad_revoked (aw_db w))"
      "aw_db w' = revoke_refresh_token E (clk 3) token (aw_db w)"
proof -
  obtain w1 err where lim: "limit_auth E clk q None w = (w1, err)" by (rule prod.exhaust)
  note same = limit_auth_db [OF lim]
  show thesis
    using assms lim same refused exchanged
    by (auto simp: refresh_token_endpoint_def split: option.splits if_splits)
qed

lemma logout_cases:
  assumes "logout E clk q token w = (w', r)"
  obtains (refused) e where "w' = w" "r = Inl e"
  | (closed) user where "get_current_user E clk q (aw_db w) = Inr user" "decode_refresh_token E (clk 2) token = Some (ac_id user)"
      "aw_db w' = (case extract_access_token E q of Some t \<Rightarrow> revoke_access_token E (clk 3) t
           (revoke_refresh_token E (clk 3) token (aw_db w)) | None \<Rightarrow> revoke_refresh_token E (clk 3) token (aw_db w))"
  using assms by (auto simp: logout_def Let_def split: sum.splits if_splits)

lemma get_user_mem: "get_current_user E clk q db = Inr user \<Longrightarrow> user \<in> set (ad_accounts db)"
  by (auto simp: get_current_user_def split: option.splits if_splits dest: row_get_SomeD)

lemma update_cases:
  assumes "update_me E clk q u w = (w', r)"
  obtains (refused) "aw_db w' = aw_db w"
  | (changed) user user' where "user \<in> set (ad_accounts (aw_db w))" "same_person user user'" "aw_db w' = put_account user' (aw_db w)"
proof (cases "get_current_user E clk q (aw_db w)")
  case (Inl e)
  then show ?thesis using assms refused by (simp add: update_me_def)
next
  case (Inr user)
  note keep = refused and make = changed [OF get_user_mem [OF Inr] same_person_simps(3)]
  show ?thesis
  proof (cases "valid_update u")
    case True
    then have "aw_db w' = put_account (updated_user u user) (aw_db w)" using assms Inr by (auto simp: update_me_def)
    then show ?thesis by (rule make)
  next
    case False
    then have "w' = w" using assms Inr by (simp add: update_me_def)
    then show ?thesis using keep by simp
  qed
qed

lemma forgot_cases:
  assumes "forgot_password E clk raw q email w = (w', r)"
  obtains (refused) "aw_db w' = aw_db w"
  | (issued) row where "rt_used_at row = None" "rt_token_hash row = ae_sha256 E raw"
      "aw_db w' = (aw_db w)\<lparr>ad_resets := ad_resets (aw_db w) @ [row]\<rparr>"
proof (cases "normalize_email E email")
  case None
  then show ?thesis using assms refused by (simp add: forgot_password_def)
next
  case (Some address)
  note keep = refused and make = issued
  obtain w1 err where lim: "limit_auth E clk q None w = (w1, err)" by (rule prod.exhaust)
  note same = limit_auth_db [OF lim]
  show ?thesis
  proof (cases "err = None \<and> ae_delivery E \<and> (\<exists>user. by_email address (aw_db w) = [user])")
    case False
    then have "w' = w1" using assms Some lim same by (auto simp: forgot_password_def split: option.splits if_splits list.splits)
    then show ?thesis using keep same by simp
  next
    case True
    then obtain user where go: "err = None" "ae_delivery E" "by_email address (aw_db w) = [user]" by blast
    let ?row = "\<lparr>rt_user_id = ac_id user, rt_token_hash = ae_sha256 E raw, rt_expires_at = clk 2 + reset_token_ttl,
      rt_used_at = None\<rparr>"
    have "aw_db w' = (aw_db w)\<lparr>ad_resets := ad_resets (aw_db w) @ [?row]\<rparr>"
      using assms Some lim same go by (auto simp: forgot_password_def)
    then show ?thesis by (rule make [rotated 2]) simp_all
  qed
qed

lemma reset_cases:
  assumes "reset_password E clk salt q raw password w = (w', r)"
  obtains (refused) e where "aw_db w' = aw_db w" "r = Inl e"
  | (changed) row user user' where
      "row_get rt_token_hash (ae_sha256 E (strip raw)) (ad_resets (aw_db w)) = Some row" "rt_used_at row = None"
      "clk 2 < rt_expires_at row" "user \<in> set (ad_accounts (aw_db w))" "same_person user user'"
      "aw_db w' = put_account user' ((aw_db w)\<lparr>ad_resets :=
         row_upd rt_token_hash (ae_sha256 E (strip raw)) (\<lambda>_. row\<lparr>rt_used_at := Some (clk 2)\<rparr>) (ad_resets (aw_db w))\<rparr>)"
proof -
  note keep = refused and make = changed
  obtain w1 err where lim: "limit_auth E clk q None w = (w1, err)" by (rule prod.exhaust)
  note same = limit_auth_db [OF lim]
  let ?row = "row_get rt_token_hash (ae_sha256 E (strip raw)) (ad_resets (aw_db w))"
  show thesis
  proof (cases "strip raw = [] \<or> \<not> validate_password_strength password \<or> err \<noteq> None \<or> ?row = None")
    case True
    then show ?thesis using assms lim same keep by (auto simp: reset_password_def Let_def split: option.splits if_splits)
  next
    case False
    then obtain row where row: "?row = Some row" by blast
    note run = assms [unfolded reset_password_def Let_def lim prod.case same row option.case]
    show ?thesis
    proof (cases "rt_used_at row \<noteq> None \<or> rt_expires_at row \<le> clk 2 \<or> row_get ac_id (rt_user_id row) (ad_accounts (aw_db w)) = None")
      case True
      then show ?thesis using run False same keep by (auto split: option.splits if_splits)
    next
      case fit: False
      then obtain user where user: "row_get ac_id (rt_user_id row) (ad_accounts (aw_db w)) = Some user" by blast
      show ?thesis
      proof (cases "hash_password E salt password")
        case (Inl e)
        then show ?thesis using run False same keep fit user by auto
      next
        case (Inr hashed)
        then have w': "aw_db w' = put_account (user\<lparr>ac_password_hash := hashed\<rparr>) ((aw_db w)\<lparr>ad_resets :=
           row_upd rt_token_hash (ae_sha256 E (strip raw)) (\<lambda>_. row\<lparr>rt_used_at := Some (clk 2)\<rparr>) (ad_resets (aw_db w))\<rparr>)"
          using run False fit user by auto
        have "user \<in> set (ad_accounts (aw_db w))" using row_get_SomeD [OF user] by simp
        then show ?thesis using make [OF row _ _ _ same_person_simps(2) w'] fit by simp
      qed
    qed
  qed
qed

section \<open>What a request keeps\<close>

lemma ad_revoked_simps [simp]:
  "ad_revoked (db\<lparr>ad_accounts := x\<rparr>) = ad_revoked db" "ad_revoked (db\<lparr>ad_resets := y\<rparr>) = ad_revoked db"
  by simp_all

lemma revoke_row_keeps: "r \<in> set rows \<Longrightarrow> r \<in> set (revoke_row E token t rows)"
  by (simp add: revoke_row_def)

lemma revoke_row_has:
  "\<not> list_ex (\<lambda>r. rv_token_hash r = ae_sha256 E token) rows \<Longrightarrow>
   \<lparr>rv_token_hash = ae_sha256 E token, rv_expires_at = t\<rparr> \<in> set (revoke_row E token t rows)"
  by (simp add: revoke_row_def)

lemma revoke_refresh_keeps:
  "r \<in> set (ad_revoked db) \<Longrightarrow> now \<le> rv_expires_at r \<Longrightarrow> r \<in> set (ad_revoked (revoke_refresh_token E now token db))"
  by (simp add: revoke_refresh_token_def revoke_row_keeps)

lemma revoke_access_keeps: "r \<in> set (ad_revoked db) \<Longrightarrow> r \<in> set (ad_revoked (revoke_access_token E now token db))"
  by (simp add: revoke_access_token_def revoke_row_keeps)

text \<open>What one request does to the tables.\<close>

lemma account_step_cases:
  obtains (kept) "aw_db (account_step E (clk, op) w) = aw_db w"
  | (joined) new_id salt jtis q body u db1 invite cohort source hashed where "op = SignupOp new_id salt jtis q body"
      "validate_user_create E body = Some u"
      "filter (\<lambda>a. to_lower (ac_email a) = uc_email u \<or> ac_username a = uc_username u) (ad_accounts (aw_db w)) = []"
      "consume_invite_or_allowlist E (clk 2) (uc_email u) (uc_invite_code u) (aw_db w) = Inr (db1, invite, cohort, source)"
      "aw_db (account_step E (clk, op) w) =
         db1\<lparr>ad_accounts := ad_accounts db1 @ [new_account (clk 3) new_id u hashed invite cohort source]\<rparr>"
  | (wrote) user user' where "user \<in> set (ad_accounts (aw_db w))" "same_person user user'"
      "aw_db (account_step E (clk, op) w) = put_account user' (aw_db w)"
  | (exchanged) token where "aw_db (account_step E (clk, op) w) = revoke_refresh_token E (clk 3) token (aw_db w)"
  | (closed) token access where "aw_db (account_step E (clk, op) w) =
      revoke_access_token E (clk 3) access (revoke_refresh_token E (clk 3) token (aw_db w))"
  | (issued) raw row where "rt_used_at row = None" "rt_token_hash row = ae_sha256 E raw"
      "aw_db (account_step E (clk, op) w) = (aw_db w)\<lparr>ad_resets := ad_resets (aw_db w) @ [row]\<rparr>"
  | (reset) raw row user user' where
      "row_get rt_token_hash (ae_sha256 E (strip raw)) (ad_resets (aw_db w)) = Some row" "rt_used_at row = None"
      "user \<in> set (ad_accounts (aw_db w))" "same_person user user'"
      "aw_db (account_step E (clk, op) w) = put_account user' ((aw_db w)\<lparr>ad_resets :=
         row_upd rt_token_hash (ae_sha256 E (strip raw)) (\<lambda>_. row\<lparr>rt_used_at := Some (clk 2)\<rparr>) (ad_resets (aw_db w))\<rparr>)"
proof (cases op)
  case (SignupOp new_id salt jtis q u)
  obtain w' res where run: "signup E clk new_id salt jtis q u w = (w', res)" by (rule prod.exhaust)
  then have step: "account_step E (clk, op) w = w'" by (simp add: account_step_def SignupOp)
  from run show ?thesis
  proof (cases rule: signup_cases)
    case refused
    then show ?thesis using kept step by simp
  next
    case made
    then show ?thesis using joined [OF SignupOp made(1,2,3)] step by simp
  qed
next
  case (LoginOp jtis q email password)
  obtain w' res where run: "login E clk jtis q email password w = (w', res)" by (rule prod.exhaust)
  then have step: "account_step E (clk, op) w = w'" by (simp add: account_step_def LoginOp)
  from run show ?thesis using kept wrote step by (cases rule: login_cases) auto
next
  case (RefreshOp jtis q token)
  obtain w' res where run: "refresh_token_endpoint E clk jtis q token w = (w', res)" by (rule prod.exhaust)
  then have step: "account_step E (clk, op) w = w'" by (simp add: account_step_def RefreshOp)
  from run show ?thesis using kept exchanged step by (cases rule: refresh_cases) auto
next
  case (LogoutOp q token)
  obtain w' res where run: "logout E clk q token w = (w', res)" by (rule prod.exhaust)
  then have step: "account_step E (clk, op) w = w'" by (simp add: account_step_def LogoutOp)
  from run show ?thesis
  proof (cases rule: logout_cases)
    case (refused e)
    then show ?thesis using kept step by simp
  next
    case (closed user)
    then show ?thesis using \<open>\<And>token access. aw_db (account_step E (clk, op) w) =
      revoke_access_token E (clk 3) access (revoke_refresh_token E (clk 3) token (aw_db w)) \<Longrightarrow> thesis\<close> exchanged step
      by (cases "extract_access_token E q") auto
  qed
next
  case (UpdateOp q u)
  obtain w' res where run: "update_me E clk q u w = (w', res)" by (rule prod.exhaust)
  then have step: "account_step E (clk, op) w = w'" by (simp add: account_step_def UpdateOp)
  from run show ?thesis using kept wrote step by (cases rule: update_cases) auto
next
  case (ForgotOp raw q email)
  obtain w' res where run: "forgot_password E clk raw q email w = (w', res)" by (rule prod.exhaust)
  then have step: "account_step E (clk, op) w = w'" by (simp add: account_step_def ForgotOp)
  from run show ?thesis using kept issued step by (cases rule: forgot_cases) auto
next
  case (ResetOp salt q raw password)
  obtain w' res where run: "reset_password E clk salt q raw password w = (w', res)" by (rule prod.exhaust)
  then have step: "account_step E (clk, op) w = w'" by (simp add: account_step_def ResetOp)
  from run show ?thesis
  proof (cases rule: reset_cases)
    case (refused e)
    then show ?thesis using kept step by simp
  next
    case (changed row user user')
    then show ?thesis using reset [OF changed(1,2,4,5)] step by simp
  qed
qed

lemma run_accounts_simps [simp]:
  "run_accounts E [] w = w" "run_accounts E (a # rs) w = run_accounts E rs (account_step E a w)"
  by (simp_all add: run_accounts_def)

text \<open>A revocation stays in its table until it has expired.\<close>

lemma step_revoked:
  assumes row: "r \<in> set (ad_revoked (aw_db w))" and clk: "clk 3 \<le> rv_expires_at r"
  shows "r \<in> set (ad_revoked (aw_db (account_step E (clk, op) w)))"
  using row clk
  by (cases rule: account_step_cases [of E clk op w]) (auto simp: revoke_refresh_keeps revoke_access_keeps dest: consume_frame)

lemma run_revoked:
  assumes "r \<in> set (ad_revoked (aw_db w))" "not_after t rs" "t \<le> rv_expires_at r"
  shows "r \<in> set (ad_revoked (aw_db (run_accounts E rs w)))"
  using assms
proof (induction rs arbitrary: w)
  case (Cons a rs)
  obtain clk op where a: "a = (clk, op)" by (rule prod.exhaust)
  have all: "list_all (\<lambda>n. clk n \<le> t) [0..<6]" and rest: "not_after t rs" using Cons.prems(2) a by (simp_all add: not_after_def)
  have "(3::nat) \<in> set [0..<6]" by simp
  with all have "clk 3 \<le> t" by (simp only: list_all_iff)
  then have "r \<in> set (ad_revoked (aw_db (account_step E a w)))" using step_revoked [OF Cons.prems(1)] Cons.prems(3) a by simp
  then show ?case using Cons.IH rest Cons.prems(3) by simp
qed simp

text \<open>A used reset token stays used.\<close>

definition reset_is_used :: "account_env \<Rightarrow> string \<Rightarrow> account_world \<Rightarrow> bool" where
  "reset_is_used E raw w \<longleftrightarrow>
     (case row_get rt_token_hash (ae_sha256 E (strip raw)) (ad_resets (aw_db w)) of
        Some row \<Rightarrow> rt_used_at row \<noteq> None
      | None \<Rightarrow> False)"

lemma revoke_simps [simp]:
  "ad_resets (revoke_refresh_token E now token db) = ad_resets db" "ad_resets (revoke_access_token E now token db) = ad_resets db"
  "ad_accounts (revoke_refresh_token E now token db) = ad_accounts db"
  "ad_accounts (revoke_access_token E now token db) = ad_accounts db"
  "ad_invites (revoke_refresh_token E now token db) = ad_invites db"
  "ad_invites (revoke_access_token E now token db) = ad_invites db"
  by (simp_all add: revoke_refresh_token_def revoke_access_token_def)

lemma row_get_row_upd_other:
  "key row = k' \<Longrightarrow> key (f row) = k' \<Longrightarrow> k \<noteq> k' \<Longrightarrow> row_get key k (row_upd key k' (\<lambda>_. f row) rows) = row_get key k rows"
  by (induction rows) auto

lemma row_get_row_upd_used:
  "row_get key k rows = Some row \<Longrightarrow> key row = k \<Longrightarrow> key row' = k \<Longrightarrow> row_get key k (row_upd key k (\<lambda>_. row') rows) = Some row'"
  by (induction rows) (auto split: if_splits)

lemma step_reset_used:
  assumes used: "reset_is_used E raw w"
  shows "reset_is_used E raw (account_step E (clk, op) w)"
proof (cases rule: account_step_cases [of E clk op w])
  case joined
  then show ?thesis using used by (auto simp: reset_is_used_def dest: consume_frame)
next
  case (issued raw' row)
  then show ?thesis using used by (auto simp: reset_is_used_def row_get_append split: option.splits)
next
  case (reset raw' row user user')
  have "rt_token_hash row = ae_sha256 E (strip raw')" using row_get_SomeD [OF reset(1)] by simp
  moreover from this have "ae_sha256 E (strip raw) \<noteq> ae_sha256 E (strip raw')" using used reset(1,2) by (auto simp: reset_is_used_def)
  ultimately show ?thesis using used reset(5)
    by (simp add: reset_is_used_def row_get_row_upd_other [where f = "\<lambda>row. row\<lparr>rt_used_at := Some (clk 2)\<rparr>"])
qed (use used in \<open>simp_all add: reset_is_used_def\<close>)

lemma run_reset_used: "reset_is_used E raw w \<Longrightarrow> reset_is_used E raw (run_accounts E rs w)"
proof (induction rs arbitrary: w)
  case (Cons a rs)
  obtain clk op where "a = (clk, op)" by (rule prod.exhaust)
  then show ?case using Cons step_reset_used by simp
qed simp

section \<open>One account for an address and a name\<close>

definition accounts_ok :: "account_db \<Rightarrow> bool" where
  "accounts_ok db \<longleftrightarrow>
     keys_distinct ac_id (ad_accounts db) \<and> keys_distinct (to_lower \<circ> ac_email) (ad_accounts db) \<and>
     keys_distinct ac_username (ad_accounts db) \<and> keys_distinct ic_code (ad_invites db) \<and>
     list_all (\<lambda>i. ic_use_count i \<le> ic_max_uses i) (ad_invites db)"

definition signup_ids :: "((nat \<Rightarrow> time) \<times> account_op) list \<Rightarrow> nat list" where
  "signup_ids rs = List.map_filter (\<lambda>(clk, op). case op of SignupOp new_id _ _ _ _ \<Rightarrow> Some new_id | _ \<Rightarrow> None) rs"

lemma signup_ids_simps [simp]:
  "signup_ids [] = []"
  "signup_ids ((clk, op) # rs) = (case op of SignupOp new_id _ _ _ _ \<Rightarrow> new_id # signup_ids rs | _ \<Rightarrow> signup_ids rs)"
  by (simp_all add: signup_ids_def List.map_filter_def split: account_op.split)

lemma to_lower_again [simp]: "to_lower (to_lower s) = to_lower s"
proof -
  have "to_lower_char (to_lower_char c) = to_lower_char c" for c
  proof (cases "CHR ''A'' \<le> c \<and> c \<le> CHR ''Z''")
    case True
    then have "(65::nat) \<le> of_char c" "of_char c \<le> (90::nat)" by (simp_all add: less_eq_char_def)
    then show ?thesis using True by (simp add: to_lower_char_def less_eq_char_def)
  next
    case False
    then show ?thesis by (simp only: to_lower_char_def if_False)
  qed
  then show ?thesis by (simp add: to_lower_def)
qed

lemma validated_email_lower: "validate_user_create E body = Some u \<Longrightarrow> to_lower (uc_email u) = uc_email u"
  by (auto simp: validate_user_create_def normalize_email_def Let_def split: option.splits if_splits)

lemma map_put_account:
  assumes "keys_distinct ac_id (ad_accounts db)" "user \<in> set (ad_accounts db)" "ac_id user' = ac_id user" "f user' = f user"
  shows "map f (ad_accounts (put_account user' db)) = map f (ad_accounts db)"
proof -
  have "a = user" if "a \<in> set (ad_accounts db)" "ac_id a = ac_id user'" for a
    using assms(1,2,3) that by (auto simp: keys_distinct_def distinct_map dest: inj_onD)
  then show ?thesis using assms(4) by (auto simp: put_account_def row_upd_def)
qed

lemma put_account_ok:
  assumes ok: "accounts_ok db" and user: "user \<in> set (ad_accounts db)" "same_person user user'"
  shows "accounts_ok (put_account user' db) \<and> map ac_id (ad_accounts (put_account user' db)) = map ac_id (ad_accounts db)"
proof -
  have ids: "keys_distinct ac_id (ad_accounts db)" using ok by (simp add: accounts_ok_def)
  note same = map_put_account [OF ids user(1)]
  have "map ac_id (ad_accounts (put_account user' db)) = map ac_id (ad_accounts db)"
    "map (to_lower \<circ> ac_email) (ad_accounts (put_account user' db)) = map (to_lower \<circ> ac_email) (ad_accounts db)"
    "map ac_username (ad_accounts (put_account user' db)) = map ac_username (ad_accounts db)"
    by (rule same; use user(2) in \<open>simp add: same_person_def\<close>)+
  then show ?thesis using ok unfolding accounts_ok_def keys_distinct_def by simp
qed

lemma consume_ok:
  assumes "consume_invite_or_allowlist E now email code db = Inr (db1, rest)" "accounts_ok db"
  shows "accounts_ok db1"
proof -
  have frame: "ad_accounts db1 = ad_accounts db" using consume_frame [OF assms(1)] by simp
  have inv: "keys_distinct ic_code (ad_invites db)" "list_all (\<lambda>i. ic_use_count i \<le> ic_max_uses i) (ad_invites db)"
    using assms(2) by (simp_all add: accounts_ok_def)
  let ?c = "strip (case code of Some c \<Rightarrow> c | None \<Rightarrow> [])"
  have step: "ad_invites db1 = ad_invites db \<or> (\<exists>i. row_get ic_code ?c (ad_invites db) = Some i \<and> invite_usable now i \<and>
      ad_invites db1 = row_upd ic_code ?c (\<lambda>i. i\<lparr>ic_use_count := ic_use_count i + 1\<rparr>) (ad_invites db))"
  proof (cases "ae_invite_required E \<and> to_lower (strip email) \<notin> set (allowlist E)")
    case False
    then show ?thesis using assms(1) by (auto simp: consume_invite_or_allowlist_def split: if_splits)
  next
    case True
    note run = assms(1) [unfolded consume_invite_or_allowlist_def Let_def]
    show ?thesis
    proof (cases "row_get ic_code ?c (ad_invites db)")
      case None
      then show ?thesis using run True by (simp split: if_splits)
    next
      case (Some i)
      then show ?thesis using run True by (cases "invite_usable now i"; cases "?c = []") auto
    qed
  qed
  then consider "ad_invites db1 = ad_invites db" | i where "row_get ic_code ?c (ad_invites db) = Some i" "invite_usable now i"
      "ad_invites db1 = row_upd ic_code ?c (\<lambda>i. i\<lparr>ic_use_count := ic_use_count i + 1\<rparr>) (ad_invites db)" by blast
  then have "keys_distinct ic_code (ad_invites db1) \<and> list_all (\<lambda>i. ic_use_count i \<le> ic_max_uses i) (ad_invites db1)"
  proof cases
    case 1
    then show ?thesis using inv by simp
  next
    case (2 i)
    have "j = i" if "j \<in> set (ad_invites db)" "ic_code j = ?c" for j
      using row_get_mem [OF inv(1) that(1)] that(2) 2(1) by simp
    then have "list_all (\<lambda>i. ic_use_count i \<le> ic_max_uses i) (ad_invites db1)"
      using inv(2) 2(2) unfolding 2(3) by (auto simp: list_all_iff invite_usable_def dest!: set_row_updD)
    then show ?thesis using inv(1) 2(3) by (simp add: row_simps)
  qed
  then show ?thesis using assms(2) frame by (simp add: accounts_ok_def)
qed

lemma step_accounts_ok:
  assumes ok: "accounts_ok (aw_db w)" and fresh: "distinct (map ac_id (ad_accounts (aw_db w)) @ signup_ids ((clk, op) # rs))"
  shows "accounts_ok (aw_db (account_step E (clk, op) w)) \<and>
     distinct (map ac_id (ad_accounts (aw_db (account_step E (clk, op) w))) @ signup_ids rs)"
proof -
  have rest: "distinct (map ac_id (ad_accounts (aw_db w)) @ signup_ids rs)" using fresh by (auto split: account_op.splits)
  show ?thesis
  proof (cases rule: account_step_cases [of E clk op w])
    case (joined new_id salt jtis q body u db1 invite cohort source hashed)
    let ?new = "new_account (clk 3) new_id u hashed invite cohort source"
    have db1: "accounts_ok db1" "ad_accounts db1 = ad_accounts (aw_db w)"
      using consume_ok [OF joined(4) ok] consume_frame [OF joined(4)] by simp_all
    have ids: "distinct (map ac_id (ad_accounts (aw_db w)) @ new_id # signup_ids rs)" using fresh joined(1) by simp
    have new: "ac_id ?new = new_id" "ac_email ?new = uc_email u" "ac_username ?new = uc_username u"
      by (simp_all add: new_account_def)
    have "\<forall>a \<in> set (ad_accounts (aw_db w)). to_lower (ac_email a) \<noteq> uc_email u \<and> ac_username a \<noteq> uc_username u"
      using joined(3) by (simp add: filter_empty_conv)
    then have "accounts_ok (db1\<lparr>ad_accounts := ad_accounts db1 @ [?new]\<rparr>)"
      using db1 ids new validated_email_lower [OF joined(2)] unfolding accounts_ok_def keys_distinct_def by auto
    then show ?thesis using joined(5) ids new db1(2) by auto
  next
    case (wrote user user')
    then show ?thesis using put_account_ok [OF ok wrote(1,2)] rest by simp
  next
    case (reset raw row user user')
    then show ?thesis using put_account_ok [OF _ _ reset(4), of "(aw_db w)\<lparr>ad_resets := _\<rparr>"] ok rest by (simp add: accounts_ok_def)
  qed (use ok rest in \<open>simp_all add: accounts_ok_def\<close>)
qed

lemma run_accounts_ok:
  "accounts_ok (aw_db w) \<Longrightarrow> distinct (map ac_id (ad_accounts (aw_db w)) @ signup_ids rs) \<Longrightarrow>
   accounts_ok (aw_db (run_accounts E rs w))"
proof (induction rs arbitrary: w)
  case (Cons a rs)
  obtain clk op where "a = (clk, op)" by (rule prod.exhaust)
  then show ?case using Cons.IH step_accounts_ok [OF Cons.prems(1), of clk op rs E] Cons.prems(2) by simp
qed simp

section \<open>Tokens that were given up\<close>

text \<open>
  What the code relies on of the signed tokens: the claims of a token do not change, and a token is
  refused after the second of its expiry.
\<close>

definition jwt_laws :: "account_env \<Rightarrow> bool" where
  "jwt_laws E \<longleftrightarrow>
     (\<forall>t token c. ae_jwt_decode E t token = Some c \<longrightarrow> timestamp t \<le> jc_exp c) \<and>
     (\<forall>t t' token c c'. ae_jwt_decode E t token = Some c \<longrightarrow> ae_jwt_decode E t' token = Some c' \<longrightarrow> c' = c)"

lemma jwt_expired:
  assumes "jwt_laws E" "ae_jwt_decode E t token = Some c" "jc_exp c < timestamp s" "s \<le> t'"
  shows "ae_jwt_decode E t' token = None"
proof (rule ccontr)
  assume "ae_jwt_decode E t' token \<noteq> None"
  then obtain c' where c': "ae_jwt_decode E t' token = Some c'" by blast
  have "c' = c" "timestamp t' \<le> jc_exp c'" using assms(1,2) c' unfolding jwt_laws_def by blast+
  moreover have "timestamp s \<le> timestamp t'" by (rule timestamp_mono [OF assms(4)])
  ultimately show False using assms(3) by simp
qed

lemma refresh_refused:
  assumes "decode_refresh_token E (clk 2) token = None \<or> list_ex (\<lambda>r. rv_token_hash r = ae_sha256 E token) (ad_revoked (aw_db w))"
  shows "isl (snd (refresh_token_endpoint E clk jtis q token w))"
proof -
  obtain w' res where run: "refresh_token_endpoint E clk jtis q token w = (w', res)" by (rule prod.exhaust)
  then have "isl res" using assms by (cases rule: refresh_cases) auto
  then show ?thesis using run by simp
qed

lemma revoked_refresh_refused:
  assumes laws: "jwt_laws E" and row: "\<lparr>rv_token_hash = ae_sha256 E token, rv_expires_at = s\<rparr> \<in> set (ad_revoked (aw_db w))"
    and token: "ae_jwt_decode E t token = Some c" "jc_exp c < timestamp s" and rs: "not_after (clk 2) rs"
  shows "isl (snd (refresh_token_endpoint E clk jtis q token (run_accounts E rs w)))"
proof (rule refresh_refused)
  show "decode_refresh_token E (clk 2) token = None \<or>
    list_ex (\<lambda>r. rv_token_hash r = ae_sha256 E token) (ad_revoked (aw_db (run_accounts E rs w)))"
  proof (cases "clk 2 \<le> s")
    case True
    then show ?thesis using run_revoked [OF row rs, of E] by (force simp: list_ex_iff)
  next
    case False
    then have "ae_jwt_decode E (clk 2) token = None" using jwt_expired [OF laws token] by simp
    then show ?thesis by (simp add: decode_refresh_token_def decode_token_def)
  qed
qed

text \<open>The row that a logout leaves for the access token.\<close>

lemma logout_revokes_access:
  assumes run: "logout E clk q token w = (w1, Inr ())" and access: "extract_access_token E q = Some access"
    and order: "clk 1 \<le> clk 3"
  shows "\<exists>r \<in> set (ad_revoked (aw_db w1)). rv_token_hash r = ae_sha256 E access \<and> clk 3 + access_token_expire \<le> rv_expires_at r"
  using run
proof (cases rule: logout_cases)
  case (closed user)
  let ?old = "filter (\<lambda>r. \<not> rv_expires_at r < clk 3) (ad_revoked (aw_db w))"
  have "\<not> access_token_is_revoked E (clk 1) access (aw_db w)"
    using closed(1) access by (auto simp: get_current_user_def split: option.splits if_splits)
  then have old: "\<forall>r \<in> set ?old. rv_token_hash r \<noteq> ae_sha256 E access"
    using order by (auto simp: access_token_is_revoked_def list_ex_iff)
  have rows: "ad_revoked (aw_db w1) = revoke_row E access (clk 3 + access_token_expire)
      (revoke_row E token (clk 3 + refresh_token_expire) ?old)"
    using closed(3) access by (simp add: revoke_access_token_def revoke_refresh_token_def)
  show ?thesis
  proof (cases "ae_sha256 E token = ae_sha256 E access")
    case True
    have "\<lparr>rv_token_hash = ae_sha256 E access, rv_expires_at = clk 3 + refresh_token_expire\<rparr> \<in> set (ad_revoked (aw_db w1))"
      unfolding rows using old True by (auto simp: revoke_row_def list_ex_iff)
    then show ?thesis by (rule rev_bexI) (simp add: refresh_token_expire_def access_token_expire_def days_def)
  next
    case False
    have "\<lparr>rv_token_hash = ae_sha256 E access, rv_expires_at = clk 3 + access_token_expire\<rparr> \<in> set (ad_revoked (aw_db w1))"
      unfolding rows by (rule revoke_row_has) (use old False in \<open>auto simp: revoke_row_def list_ex_iff\<close>)
    then show ?thesis by (rule rev_bexI) simp
  qed
qed simp

lemma logout_revokes_refresh:
  assumes run: "logout E clk q token w = (w1, Inr ())"
    and unused: "\<not> list_ex (\<lambda>r. rv_token_hash r = ae_sha256 E token) (ad_revoked (aw_db w))"
  shows "\<lparr>rv_token_hash = ae_sha256 E token, rv_expires_at = clk 3 + refresh_token_expire\<rparr> \<in> set (ad_revoked (aw_db w1))"
  using run
proof (cases rule: logout_cases)
  case (closed user)
  have "\<lparr>rv_token_hash = ae_sha256 E token, rv_expires_at = clk 3 + refresh_token_expire\<rparr>
      \<in> set (ad_revoked (revoke_refresh_token E (clk 3) token (aw_db w)))"
    unfolding revoke_refresh_token_def using unused by (auto simp: list_ex_iff intro!: revoke_row_has)
  then show ?thesis using closed(3) by (auto simp: revoke_access_keeps split: option.splits)
qed simp

section \<open>The header of the proxies\<close>

lemma split_on_parts:
  "sep \<notin> set p \<Longrightarrow> list_all (\<lambda>x. sep \<notin> set x) ps \<Longrightarrow> split_on sep (p @ concat (map (\<lambda>x. sep # x) ps)) = p # ps"
proof (induction ps arbitrary: p)
  case (Cons x ps)
  then show ?case using split_on_one [of sep p] by (simp add: split_on_append)
qed (simp add: split_on_one)

lemma find_in_append: "find P (xs @ ys) = (case find P xs of Some x \<Rightarrow> Some x | None \<Rightarrow> find P ys)"
  by (induction xs) simp_all

lemma find_untrusted_rightmost:
  assumes "parse_ip E client = Some ip" "\<not> ae_trusted E ip"
    "list_all (\<lambda>p. case parse_ip E p of Some i \<Rightarrow> ae_trusted E i | None \<Rightarrow> True) proxies"
  shows "find (\<lambda>i. \<not> ae_trusted E i) (rev (List.map_filter (parse_ip E) (before @ client # proxies))) = Some ip"
proof -
  have "list_all (ae_trusted E) (List.map_filter (parse_ip E) proxies)"
    using assms(3) by (induction proxies) (auto simp: List.map_filter_def split: option.splits)
  then have "find (\<lambda>i. \<not> ae_trusted E i) (rev (List.map_filter (parse_ip E) proxies)) = None"
    by (auto simp: find_None_iff list_all_iff)
  moreover have "List.map_filter (parse_ip E) (before @ client # proxies) =
      List.map_filter (parse_ip E) before @ ip # List.map_filter (parse_ip E) proxies"
    using assms(1) by (simp add: List.map_filter_def)
  ultimately show ?thesis using assms(2) by (simp add: find_in_append)
qed

section \<open>Properties\<close>

text \<open>A small instance: two signed tokens, addresses that start with a digit, proxies in \<open>10.\<close>.\<close>

definition demo_claims :: "string \<Rightarrow> int \<Rightarrow> jwt_claims" where
  "demo_claims kind t = \<lparr>jc_sub = Some ''1'', jc_exp = t, jc_type = Some kind, jc_jti = ''j''\<rparr>"

definition demo_accounts :: account_env where
  "demo_accounts = \<lparr>ae_dialect = Sqlite, ae_hash_key = \<lambda>s. s, ae_auth_limit = 120, ae_sha256 = \<lambda>s. s,
     ae_jwt_encode = (\<lambda>c. ''new''),
     ae_jwt_decode = (\<lambda>t token. if token = ''r1'' \<and> timestamp t \<le> 2592000 then Some (demo_claims ''refresh'' 2592000)
        else if token = ''a1'' \<and> timestamp t \<le> 900 then Some (demo_claims ''access'' 900) else None),
     ae_uuid = (\<lambda>s. if s = ''1'' then Some 1 else None), ae_hashpw = (\<lambda>salt s. s), ae_checkpw = (\<lambda>s h. s = h),
     ae_address = Some, ae_ip = (\<lambda>s. if list_ex is_digit s then Some s else None), ae_trusted = prefix ''10.'',
     ae_cookie_enabled = False, ae_invite_required = False, ae_email_allowlist = [], ae_default_cohort = ''beta'',
     ae_delivery = True\<rparr>"

definition demo_account :: "nat \<Rightarrow> string \<Rightarrow> string \<Rightarrow> account" where
  "demo_account i email name = \<lparr>ac_id = i, ac_email = email, ac_username = name, ac_first_name = [], ac_last_name = [],
     ac_display_name = name, ac_bio = [], ac_password_hash = ''pw'', ac_beta_status = ''active'', ac_beta_cohort = ''beta'',
     ac_signup_source = ''direct'', ac_invite_code_id = None, ac_last_login_at = None\<rparr>"

definition demo_users :: account_world where
  "demo_users = \<lparr>aw_db = \<lparr>ad_accounts = [demo_account 1 ''ann@x.org'' ''ann''], ad_revoked = [],
     ad_resets = [\<lparr>rt_user_id = 1, rt_token_hash = ''k'', rt_expires_at = seconds 3600, rt_used_at = None\<rparr>], ad_invites = []\<rparr>,
     aw_rates = []\<rparr>"

definition demo_request :: auth_request where
  "demo_request = \<lparr>aq_peer = ''10.0.0.1'', aq_forwarded_for = ''6.6.6.6, 9.9.9.9,10.0.0.2'', aq_real_ip = [],
     aq_bearer = Some ''a1'', aq_cookie = None\<rparr>"

abbreviation demo_at :: "int \<Rightarrow> nat \<Rightarrow> time" where
  "demo_at t \<equiv> \<lambda>_. seconds t"

lemma accepted_pair: "\<not> isl (snd x) \<Longrightarrow> x = (fst x, Inr (projr (snd x)))"
  by (cases x) auto

text \<open>Three requests of others.\<close>

definition demo_between :: "((nat \<Rightarrow> time) \<times> account_op) list" where
  "demo_between =
     [(demo_at 70, RefreshOp (''k'', ''l'') demo_request ''other''),
      (demo_at 80, ForgotOp ''fresh'' demo_request ''ann@x.org''),
      (demo_at 90, SignupOp 2 ''salt'' (''m'', ''n'') demo_request
         \<lparr>uc_email = '' Bob@x.org'', uc_username = ''bob'', uc_first_name = [], uc_last_name = [],
          uc_password = ''Correct-horse-1'', uc_invite_code = None\<rparr>)]"

lemma demo_laws: "jwt_laws demo_accounts"
  by (auto simp: jwt_laws_def demo_accounts_def demo_claims_def split: if_splits)

text \<open>
  C18: A refresh token works once. After it has been exchanged, the same token is refused, whatever
  requests come in between and whenever it is tried again, provided it was signed in an earlier second
  than that of the exchange (the row of the revocation then outlives the token).
\<close>

theorem refresh_token_single_use:
  assumes laws: "jwt_laws E" and first: "refresh_token_endpoint E clk jtis q token w = (w1, Inr answer)"
    and token: "ae_jwt_decode E (clk 2) token = Some c" "jc_exp c < timestamp (clk 3 + refresh_token_expire)"
    and between: "not_after (clk' 2) rs"
  shows "isl (snd (refresh_token_endpoint E clk' jtis' q' token (run_accounts E rs w1)))"
  using first
proof (cases rule: refresh_cases)
  case (exchanged user_id)
  have "\<lparr>rv_token_hash = ae_sha256 E token, rv_expires_at = clk 3 + refresh_token_expire\<rparr> \<in> set (ad_revoked (aw_db w1))"
    unfolding exchanged(3) revoke_refresh_token_def using exchanged(2) by (auto simp: list_ex_iff intro!: revoke_row_has)
  then show ?thesis by (rule revoked_refresh_refused [where clk = clk', OF laws _ token between])
qed simp

definition demo_exchange :: "account_world \<times> (http_error + token_response)" where
  "demo_exchange = refresh_token_endpoint demo_accounts (demo_at 60) (''i'', ''j'') demo_request ''r1'' demo_users"

lemma demo_exchange_ok:
  "refresh_token_endpoint demo_accounts (demo_at 60) (''i'', ''j'') demo_request ''r1'' demo_users =
     (fst demo_exchange, Inr (projr (snd demo_exchange)))"
proof -
  have "\<not> isl (snd demo_exchange)" by code_simp
  then show ?thesis using accepted_pair [of demo_exchange] by (simp add: demo_exchange_def)
qed

theorem refresh_token_single_use_witness:
  "isl (snd (refresh_token_endpoint demo_accounts (demo_at 100) (''o'', ''p'') demo_request ''r1''
     (run_accounts demo_accounts demo_between (fst demo_exchange))))"
proof (rule refresh_token_single_use [OF demo_laws demo_exchange_ok])
  show "ae_jwt_decode demo_accounts (demo_at 60 2) ''r1'' = Some (demo_claims ''refresh'' 2592000)" by code_simp
  show "jc_exp (demo_claims ''refresh'' 2592000) < timestamp (demo_at 60 3 + refresh_token_expire)" by code_simp
  show "not_after (demo_at 100 2) demo_between" by code_simp
qed


definition demo_logout :: "account_world \<times> (http_error + unit)" where
  "demo_logout = logout demo_accounts (demo_at 60) demo_request ''r1'' demo_users"

lemma demo_logout_ok: "logout demo_accounts (demo_at 60) demo_request ''r1'' demo_users = (fst demo_logout, Inr ())"
proof -
  have "\<not> isl (snd demo_logout)" by code_simp
  then show ?thesis using accepted_pair [of demo_logout] by (simp add: demo_logout_def)
qed


text \<open>
  C27: A reset token changes a password once: after a reset that succeeded, the token (with or without
  white space around it) is refused, whatever requests come in between.
\<close>

theorem reset_token_single_use:
  assumes first: "reset_password E clk salt q raw password w = (w1, Inr ())" and same: "strip raw' = strip raw"
  shows "isl (snd (reset_password E clk' salt' q' raw' password' (run_accounts E rs w1)))"
proof -
  have "reset_is_used E raw w1" using first
  proof (cases rule: reset_cases)
    case (changed row user user')
    then have "rt_token_hash row = ae_sha256 E (strip raw)" by (auto dest: row_get_SomeD)
    then show ?thesis using changed(1,6) by (simp add: reset_is_used_def row_get_row_upd_used)
  qed simp
  then have used: "reset_is_used E raw' (run_accounts E rs w1)"
    using run_reset_used [of E raw w1 rs] same by (simp add: reset_is_used_def)
  obtain w' res where run: "reset_password E clk' salt' q' raw' password' (run_accounts E rs w1) = (w', res)" by (rule prod.exhaust)
  then have "isl res" using used by (cases rule: reset_cases) (auto simp: reset_is_used_def)
  then show ?thesis using run by simp
qed

definition demo_reset :: "account_world \<times> (http_error + unit)" where
  "demo_reset = reset_password demo_accounts (demo_at 60) ''salt'' demo_request ''k'' ''Correct-horse-2'' demo_users"

lemma demo_reset_ok:
  "reset_password demo_accounts (demo_at 60) ''salt'' demo_request ''k'' ''Correct-horse-2'' demo_users = (fst demo_reset, Inr ())"
proof -
  have "\<not> isl (snd demo_reset)" by code_simp
  then show ?thesis using accepted_pair [of demo_reset] by (simp add: demo_reset_def)
qed

theorem reset_token_single_use_witness:
  "isl (snd (reset_password demo_accounts (demo_at 100) ''salt'' demo_request '' k '' ''Correct-horse-3''
     (run_accounts demo_accounts demo_between (fst demo_reset))))"
  by (rule reset_token_single_use [OF demo_reset_ok]) code_simp





text \<open>The sign-up in between was let in: two accounts.\<close>

lemma demo_signup_made: "map ac_email (ad_accounts (aw_db (run_accounts demo_accounts demo_between demo_users))) = [''ann@x.org'', ''bob@x.org'']"
  by code_simp

text \<open>
  A sign-up whose address belongs to one account and whose name to another is answered with an internal
  error, not with the conflict that either of them alone gives.
\<close>

lemma signup_two_matches:
  assumes "validate_user_create E body = Some u" "snd (limit_auth E clk q (Some (uc_email u)) w) = None"
    and a: "a \<in> set (ad_accounts (aw_db w))" "to_lower (ac_email a) = uc_email u"
    and b: "b \<in> set (ad_accounts (aw_db w))" "ac_username b = uc_username u" and "a \<noteq> b"
  shows "snd (signup E clk new_id salt jtis q body w) = Inl internal_error"
proof -
  obtain w1 where lim: "limit_auth E clk q (Some (uc_email u)) w = (w1, None)" using assms(2) by (cases "limit_auth E clk q (Some (uc_email u)) w") simp
  let ?xs = "filter (\<lambda>a. to_lower (ac_email a) = uc_email u \<or> ac_username a = uc_username u) (ad_accounts (aw_db w))"
  have "a \<in> set ?xs" "b \<in> set ?xs" using a b by simp_all
  then obtain x y zs where "?xs = x # y # zs" using \<open>a \<noteq> b\<close> by (cases ?xs; cases "tl ?xs") auto
  then show ?thesis using assms(1) lim limit_auth_db [OF lim] by (simp add: signup_def)
qed

end
