(* ===== verification/SessionAnalysis.thy ===== *)
theory SessionAnalysis
  imports Characters Assessment Accuracy
begin

text \<open>
  The analysis of the events of an attempt (\<open>backend/app/services/interview/session_analysis.py\<close>): the
  heuristic on prompts, the counts, and the signals that rest on them. The roles of the files
  (\<open>registry.py\<close>) and the difference of two directories are arguments. Events are those the server
  records: paths, messages and identifiers are strings, sizes are ints. A dash or an arrow in the wording
  of a signal is written in ASCII.
\<close>

section \<open>Events\<close>

record practice_event =
  pe_id :: "string option"
  pe_type :: string
  pe_payload :: "json dict"

definition text_field :: "json dict \<Rightarrow> string \<Rightarrow> string option" where
  "text_field payload key = (case map_of payload key of Some (JStr s) \<Rightarrow> Some s | _ \<Rightarrow> None)"

text \<open>\<open>payload.get(key)\<close> where an empty text counts as none.\<close>

definition event_path :: "practice_event \<Rightarrow> string option" where
  "event_path e = (case text_field (pe_payload e) ''path'' of Some s \<Rightarrow> if s = [] then None else Some s | None \<Rightarrow> None)"

definition of_type :: "string list \<Rightarrow> practice_event \<Rightarrow> bool" where
  "of_type kinds e \<longleftrightarrow> pe_type e \<in> set kinds"

definition is_test :: "practice_event \<Rightarrow> bool" where
  "is_test = of_type [''test_run'', ''test_result'']"

definition count_of :: "string list \<Rightarrow> practice_event list \<Rightarrow> nat" where
  "count_of kinds events = length (filter (of_type kinds) events)"

section \<open>The quality of a prompt\<close>

definition file_char :: "char \<Rightarrow> bool" where
  "file_char c \<longleftrightarrow> is_word c \<or> c \<in> set ''./-''"

definition file_reference :: "string \<Rightarrow> bool" where
  "file_reference s \<longleftrightarrow>
     list_ex (\<lambda>k. list_all file_char (take k s) \<and>
       list_ex (\<lambda>ext. prefix (''.'' @ ext) (drop k s) \<and> word_ends (drop (k + 1 + length ext) s))
         [''ts'', ''tsx'', ''js'', ''py'', ''md'']) [1..<length s]"

definition ident_char :: "char \<Rightarrow> bool" where
  "ident_char c \<longleftrightarrow> (of_char c :: nat) < 128 \<and> is_word c"

text \<open>\<open>[a-z_][a-z0-9_]{2,}\s*\(\<close> and \<open>(def|function|class)\s+\w+\<close>, without regard to case.\<close>

definition call_reference :: "string \<Rightarrow> bool" where
  "call_reference s \<longleftrightarrow>
     s \<noteq> [] \<and> ident_char (hd s) \<and> \<not> is_digit (hd s) \<and> 3 \<le> length (takeWhile ident_char s) \<and>
     prefix ''('' (dropWhile is_space (dropWhile ident_char s))"

definition definition_reference :: "string \<Rightarrow> bool" where
  "definition_reference s \<longleftrightarrow>
     list_ex (\<lambda>w. prefix w (to_lower s) \<and>
       (let rest = drop (length w) s; name = dropWhile is_space rest
        in length name < length rest \<and> name \<noteq> [] \<and> is_word (hd name))) [''def'', ''function'', ''class'']"

definition any_in :: "string list \<Rightarrow> string \<Rightarrow> bool" where
  "any_in ks s \<longleftrightarrow> list_ex (\<lambda>k. str_in k s) ks"

record prompt_analysis =
  pa_score :: rat
  pa_checks :: "bool dict"

definition prompt_checks :: "string \<Rightarrow> bool dict" where
  "prompt_checks prompt =
     (let lower = to_lower prompt in
      [(''filename_refs'', search_boundary file_reference False prompt),
       (''function_refs'', search_boundary call_reference False prompt \<or> search_boundary definition_reference False prompt),
       (''failing_tests'', any_in [''fail'', ''failed'', ''failing'', ''assert'', ''expected''] lower),
       (''error_text'', any_in [''error'', ''exception'', ''traceback'', ''stack'', ''typeerror''] lower),
       (''observed_expected'', (str_in ''observed'' lower \<and> str_in ''expected'' lower) \<or>
          (str_in ''actual'' lower \<and> str_in ''expected'' lower) \<or> (str_in ''got'' lower \<and> str_in ''want'' lower)),
       (''constraints'', any_in [''without'', ''must not'', ''do not'', ''constraint'', ''don'' @ [CHR 0x27] @ ''t rewrite'', ''scope''] lower),
       (''asks_explanation'', any_in [''why'', ''explain'', ''root cause'', ''what is wrong''] lower),
       (''scope_limit'', any_in [''only this file'', ''don'' @ [CHR 0x27] @ ''t change'', ''minimal'', ''smallest'', ''surgical''] lower),
       (''new_evidence'', any_in [''after running'', ''test output'', ''i see'', ''log shows''] lower)])"

definition analyze_prompt_quality :: "string \<Rightarrow> prompt_analysis" where
  "analyze_prompt_quality prompt =
     (let checks = prompt_checks prompt;
          hit = length (filter snd checks);
          score = py_round 1 (100 * of_nat hit / of_nat (max (length checks) 1));
          broad = any_in [''fix everything'', ''rewrite the whole'', ''entire codebase''] (to_lower prompt)
      in \<lparr>pa_score = (if broad then max 0 (score - 25) else score), pa_checks = checks @ [(''overbroad_ask'', broad)]\<rparr>)"

section \<open>The roles of files\<close>

record file_roles =
  fr_relevant :: "string list"
  fr_supporting :: "string list"
  fr_irrelevant :: "string list"

definition rstrip_slash :: "string \<Rightarrow> string" where
  "rstrip_slash s = rev (dropWhile (\<lambda>c. c = CHR ''/'') (rev s))"

definition under :: "string \<Rightarrow> string \<Rightarrow> bool" where
  "under path item \<longleftrightarrow> path = item \<or> prefix (rstrip_slash item @ ''/'') path"

definition noise :: "string \<Rightarrow> string \<Rightarrow> bool" where
  "noise path item \<longleftrightarrow> path = item \<or> suffix (''/'' @ last (split_on CHR ''/'' item)) path"

definition metrics_role :: "file_roles \<Rightarrow> string \<Rightarrow> string" where
  "metrics_role roles path =
     (if path \<in> set (fr_relevant roles) then ''relevant''
      else if path \<in> set (fr_supporting roles) then ''supporting''
      else if path \<in> set (fr_irrelevant roles) then ''irrelevant''
      else if list_ex (under path) (fr_relevant roles) then ''relevant''
      else if list_ex (noise path) (fr_irrelevant roles) then ''irrelevant''
      else ''other'')"

section \<open>Metrics\<close>

record session_metrics =
  sm_counts :: "nat dict"
  sm_exploration :: "nat dict"
  sm_prompt_quality_avg :: "rat option"
  sm_prompt_analyses :: "prompt_analysis list"
  sm_established :: bool
  sm_edited_before_baseline :: bool
  sm_diff :: json

fun index_of :: "('a \<Rightarrow> bool) \<Rightarrow> 'a list \<Rightarrow> nat option" where
  "index_of p [] = None"
| "index_of p (x # xs) = (if p x then Some 0 else map_option Suc (index_of p xs))"

definition paths_of :: "string \<Rightarrow> practice_event list \<Rightarrow> string list" where
  "paths_of kind events = List.map_filter event_path (filter (of_type [kind]) events)"

definition prompt_texts :: "practice_event list \<Rightarrow> string list" where
  "prompt_texts events = filter (\<lambda>s. s \<noteq> [])
     (List.map_filter (\<lambda>e. text_field (pe_payload e) ''message'') (filter (of_type [''ai_prompt'']) events))"

definition derive_metrics :: "file_roles \<Rightarrow> json \<Rightarrow> practice_event list \<Rightarrow> session_metrics" where
  "derive_metrics roles diff_stats events =
     (let viewed = paths_of ''file_viewed'' events;
          changed = paths_of ''file_changed'' events;
          view_roles = map (metrics_role roles) viewed;
          change_roles = map (metrics_role roles) changed;
          analyses = map analyze_prompt_quality (prompt_texts events);
          first_test = index_of is_test events;
          first_change = index_of (of_type [''file_changed'']) events
      in \<lparr>sm_counts = map (\<lambda>(name, kind). (name, count_of [kind] events))
            [(''file_views'', ''file_viewed''), (''file_changes'', ''file_changed''), (''file_searches'', ''file_searched''),
             (''ai_prompts'', ''ai_prompt''), (''test_runs'', ''test_run''), (''test_results'', ''test_result''),
             (''reverts'', ''change_reverted''), (''ai_edits_accepted'', ''ai_edit_accepted''),
             (''ai_edits_modified'', ''ai_edit_modified''), (''ai_edits_rejected'', ''ai_edit_rejected'')],
          sm_exploration =
            [(''relevant_views'', length (filter (\<lambda>r. r \<in> {''relevant'', ''supporting''}) view_roles)),
             (''unrelated_file_views'', length (filter (\<lambda>r. r = ''irrelevant'') view_roles)),
             (''unrelated_file_churn'', length (filter (\<lambda>r. r = ''irrelevant'') change_roles)),
             (''unique_files_viewed'', length (remdups viewed)), (''unique_files_changed'', length (remdups changed))],
          sm_prompt_quality_avg = (if analyses = [] then None else Some (py_round 1 (mean (map pa_score analyses)))),
          sm_prompt_analyses = take 20 analyses,
          sm_established = (first_test \<noteq> None),
          sm_edited_before_baseline =
            (case (first_change, first_test) of (Some i, Some j) \<Rightarrow> i < j | _ \<Rightarrow> False),
          sm_diff = diff_stats\<rparr>)"

section \<open>Signals\<close>

record behavioral_signal =
  sg_type :: string
  sg_strength :: string
  sg_confidence :: rat
  sg_evidence :: string
  sg_event_ids :: "string list"
  sg_explanation :: string

fun ids_from :: "nat \<Rightarrow> string list \<Rightarrow> practice_event list \<Rightarrow> string list" where
  "ids_from i kinds [] = []"
| "ids_from i kinds (e # events) =
     (if of_type kinds e then [case pe_id e of Some s \<Rightarrow> s | None \<Rightarrow> ''idx:'' @ show_nat i] else []) @ ids_from (Suc i) kinds events"

definition related_ids :: "practice_event list \<Rightarrow> string list \<Rightarrow> string list" where
  "related_ids events kinds = take 12 (ids_from 0 kinds events)"

definition grounded_prompt :: "practice_event \<Rightarrow> bool" where
  "grounded_prompt e \<longleftrightarrow>
     (let payload = pe_payload e; attached = py_or (dict_get payload ''attached'' JNull) (dict_get payload ''attached_paths'' JNull)
      in truthy attached \<or>
         any_in [''fail'', ''error'', ''test'', ''assert''] (to_lower (case text_field payload ''message'' of Some s \<Rightarrow> s | None \<Rightarrow> [])))"

definition payload_ok :: "practice_event \<Rightarrow> bool" where
  "payload_ok e \<longleftrightarrow> truthy (dict_get (pe_payload e) ''ok'' JNull)"

definition recovered_to_green :: "practice_event list \<Rightarrow> bool" where
  "recovered_to_green events \<longleftrightarrow>
     (let results = filter (of_type [''test_result'']) events
      in 2 \<le> length results \<and> \<not> payload_ok (hd results) \<and> payload_ok (last results))"

definition extract_behavioral_signals :: "session_metrics \<Rightarrow> practice_event list \<Rightarrow> behavioral_signal list" where
  "extract_behavioral_signals metrics events =
     (let ids = related_ids events;
          prompts = filter (of_type [''ai_prompt'']) events;
          grounded = length (filter grounded_prompt prompts);
          relevant = dict_get (sm_exploration metrics) ''relevant_views'' 0;
          churn = dict_get (sm_exploration metrics) ''unrelated_file_churn'' 0;
          reverts = dict_get (sm_counts metrics) ''reverts'' 0;
          modified = dict_get (sm_counts metrics) ''ai_edits_modified'' 0
      in
      (if sm_established metrics then [\<lparr>sg_type = ''baseline_established'', sg_strength = ''medium'', sg_confidence = 8 / 10,
          sg_evidence = ''At least one test_run/test_result before heavy conclusion.'', sg_event_ids = ids [''test_run'', ''test_result''],
          sg_explanation = ''Candidate established a verification baseline during the session.''\<rparr>] else []) @
      (if sm_edited_before_baseline metrics then [\<lparr>sg_type = ''edited_before_baseline'', sg_strength = ''weak'', sg_confidence = 7 / 10,
          sg_evidence = ''file_changed preceded first test_run.'', sg_event_ids = ids [''file_changed'', ''test_run''],
          sg_explanation = ''Edits occurred before an observed test baseline.''\<rparr>] else []) @
      (if 2 \<le> relevant then [\<lparr>sg_type = ''relevant_exploration'', sg_strength = ''medium'', sg_confidence = 3 / 4,
          sg_evidence = ''relevant_views='' @ show_nat relevant, sg_event_ids = ids [''file_viewed''],
          sg_explanation = ''Opened files marked relevant/supporting for the challenge.''\<rparr>] else []) @
      (if 1 \<le> churn then [\<lparr>sg_type = ''unrelated_file_churn'', sg_strength = ''medium'', sg_confidence = 7 / 10,
          sg_evidence = ''unrelated_churn='' @ show_nat churn, sg_event_ids = ids [''file_changed''],
          sg_explanation = ''Modified intentionally irrelevant / noise files.''\<rparr>] else []) @
      (if grounded > 0 then [\<lparr>sg_type = ''grounded_ai_prompt'', sg_strength = (if 2 \<le> grounded then ''strong'' else ''medium''),
          sg_confidence = 8 / 10, sg_evidence = ''grounded_prompts='' @ show_nat grounded @ ''/'' @ show_nat (length prompts),
          sg_event_ids = ids [''ai_prompt''], sg_explanation = ''AI prompts referenced attachments, failures, or errors.''\<rparr>]
       else if prompts \<noteq> [] then [\<lparr>sg_type = ''ungrounded_ai_prompt'', sg_strength = ''medium'', sg_confidence = 65 / 100,
          sg_evidence = ''prompts='' @ show_nat (length prompts) @ '' with weak grounding'', sg_event_ids = ids [''ai_prompt''],
          sg_explanation = ''AI prompts lacked failing-test or file context.''\<rparr>] else []) @
      (if reverts > 0 then [\<lparr>sg_type = ''recovery_via_revert'', sg_strength = ''medium'', sg_confidence = 85 / 100,
          sg_evidence = ''reverts='' @ show_nat reverts, sg_event_ids = ids [''change_reverted''],
          sg_explanation = ''Candidate reverted a change - adaptive recovery.''\<rparr>] else []) @
      (if modified > 0 then [\<lparr>sg_type = ''ai_edit_critically_reviewed'', sg_strength = ''strong'', sg_confidence = 8 / 10,
          sg_evidence = ''modified='' @ show_nat modified, sg_event_ids = ids [''ai_edit_modified''],
          sg_explanation = ''Accepted AI suggestion after candidate modification.''\<rparr>] else []) @
      (if recovered_to_green events then [\<lparr>sg_type = ''recovered_to_green'', sg_strength = ''strong'', sg_confidence = 9 / 10,
          sg_evidence = ''early fail -> final pass'', sg_event_ids = ids [''test_result''],
          sg_explanation = ''Tests moved from failing to passing across the session.''\<rparr>] else []))"

end
