(* ===== verification/Rubric.thy ===== *)
theory Rubric
  imports SessionAnalysis
begin

text \<open>
  The practice score of an attempt (\<open>backend/app/services/interview/rubric.py\<close>) in its three versions,
  what the server publishes of it (\<open>execution_feedback.py\<close>), the steps, the questions of the defense and
  the previous attempt. \<open>score_session_v3\<close> is the score that a submission stores. The questions that
  are read from the text of a solution, the roles of files and the number of levels are arguments; a
  dash or another sign outside Latin-1 is written in ASCII.
\<close>

section \<open>Rows and scores\<close>

record rubric_row =
  rr_score :: rat
  rr_max :: int
  rr_evidence :: string

record practice_score =
  ps_total :: rat
  ps_rubric :: "rubric_row dict"
  ps_metrics :: "json dict"
  ps_insights :: "string list"
  ps_went_well :: "string list"
  ps_improve :: "string list"
  ps_recovery :: "string list"
  ps_signals :: "behavioral_signal list"

definition row_json :: "rubric_row \<Rightarrow> json" where
  "row_json r = JObj [(''score'', JFloat (rr_score r)), (''max'', JInt (rr_max r)), (''evidence'', JStr (rr_evidence r))]"

definition texts_json :: "string list \<Rightarrow> json" where
  "texts_json xs = JList (map JStr xs)"

definition counts_json :: "nat dict \<Rightarrow> json" where
  "counts_json d = JObj (map (\<lambda>(k, n). (k, JInt (int n))) d)"

definition analysis_json :: "prompt_analysis \<Rightarrow> json" where
  "analysis_json a = JObj [(''score'', JFloat (pa_score a)), (''checks'', JObj (map (\<lambda>(k, b). (k, JBool b)) (pa_checks a)))]"

definition metrics_json :: "session_metrics \<Rightarrow> json" where
  "metrics_json m = JObj
     [(''counts'', counts_json (sm_counts m)), (''exploration'', counts_json (sm_exploration m)),
      (''prompt_quality_avg'', json_opt JFloat (sm_prompt_quality_avg m)),
      (''prompt_analyses'', JList (map analysis_json (sm_prompt_analyses m))),
      (''baseline'', JObj [(''established'', JBool (sm_established m)), (''edited_before_baseline'', JBool (sm_edited_before_baseline m))]),
      (''diff'', sm_diff m), (''note'', JStr ''Higher activity is not equated with better performance.'')]"

definition signal_json :: "behavioral_signal \<Rightarrow> json" where
  "signal_json s = JObj
     [(''type'', JStr (sg_type s)), (''strength'', JStr (sg_strength s)), (''confidence'', JFloat (sg_confidence s)),
      (''evidence'', JStr (sg_evidence s)), (''related_event_ids'', texts_json (sg_event_ids s)),
      (''explanation'', JStr (sg_explanation s))]"

definition score_json :: "practice_score \<Rightarrow> json dict" where
  "score_json p =
     [(''total_score'', JFloat (ps_total p)), (''rubric'', JObj (map (\<lambda>(k, r). (k, row_json r)) (ps_rubric p))),
      (''metrics'', JObj (ps_metrics p)), (''insights'', texts_json (ps_insights p)), (''went_well'', texts_json (ps_went_well p)),
      (''improve'', texts_json (ps_improve p)), (''recovery_moments'', texts_json (ps_recovery p)),
      (''signals'', JList (map signal_json (ps_signals p)))]"

definition rubric_total :: "rubric_row dict \<Rightarrow> rat" where
  "rubric_total rows = py_round 1 (sum_list (map (rr_score \<circ> snd) rows))"

section \<open>The first version: activity\<close>

definition prompt_quality :: "string list \<Rightarrow> rat" where
  "prompt_quality prompts = (if prompts = [] then 40 else mean (map (pa_score \<circ> analyze_prompt_quality) prompts))"

definition changed_count :: "json \<Rightarrow> nat \<Rightarrow> int" where
  "changed_count diff_stats file_changes =
     (case json_get diff_stats ''file_count'' of Some (JInt n) \<Rightarrow> if n \<noteq> 0 then n else int file_changes | _ \<Rightarrow> int file_changes)"

definition investigation_v1 :: "string list \<Rightarrow> nat \<Rightarrow> nat \<Rightarrow> rat" where
  "investigation_v1 types views test_runs =
     (let b = min 15 (5 / 2 * of_nat (min views 4) + (if test_runs > 0 then 3 else 0));
          b = (if ''relevant_exploration'' \<in> set types then min 15 (b + 2) else b)
      in if ''unrelated_file_churn'' \<in> set types then max 0 (b - 3) else b)"

definition fix_quality_v1 :: "string list \<Rightarrow> int \<Rightarrow> nat \<Rightarrow> rat" where
  "fix_quality_v1 types changed reverts =
     (let c = (if changed \<noteq> 0 \<and> changed \<le> 8 then 12 else if changed \<noteq> 0 then 6 else 2);
          c = (if reverts > 0 then min 15 (c + 2) else c)
      in if ''unrelated_file_churn'' \<in> set types then max 0 (c - 4) else c)"

definition leverage_v1 :: "string list \<Rightarrow> nat \<Rightarrow> rat \<Rightarrow> rat" where
  "leverage_v1 types prompts pq =
     (let d = (if prompts = 0 then 7 else py_round 1 (15 * (pq / 100)));
          d = (if ''grounded_ai_prompt'' \<in> set types then min 15 (d + 2) else d);
          d = (if ''ungrounded_ai_prompt'' \<in> set types then max 0 (d - 2) else d)
      in if ''ai_edit_critically_reviewed'' \<in> set types then min 15 (d + 3 / 2) else d)"

definition verification_v1 :: "string list \<Rightarrow> bool \<Rightarrow> nat \<Rightarrow> rat" where
  "verification_v1 types tests_ok test_runs =
     (let e = (if tests_ok \<and> test_runs > 0 then 10 else if test_runs > 0 then 5 else 1);
          e = (if ''baseline_established'' \<in> set types \<and> tests_ok then min 10 (e + 0) else e)
      in if ''edited_before_baseline'' \<in> set types \<and> \<not> tests_ok then max 0 (e - 1) else e)"

definition communication_v1 :: "nat \<Rightarrow> nat \<Rightarrow> rat" where
  "communication_v1 final_diff file_changes =
     (let f = (if final_diff > 0 \<or> file_changes > 0 then 8 else 4)
      in if final_diff > 0 then min 10 (f + 1) else f)"

definition recovery_v1 :: "string list \<Rightarrow> bool \<Rightarrow> nat \<Rightarrow> rat" where
  "recovery_v1 types tests_ok test_runs =
     (if ''recovery_via_revert'' \<in> set types \<or> ''recovered_to_green'' \<in> set types then 9
      else if test_runs \<ge> 2 \<and> tests_ok then 7 else if test_runs \<ge> 2 then 5 else 4)"

definition rows_v1 :: "session_metrics \<Rightarrow> string list \<Rightarrow> bool \<Rightarrow> string list \<Rightarrow> practice_event list \<Rightarrow> rubric_row dict" where
  "rows_v1 derived types tests_ok ai_prompts events =
     (let test_runs = count_of [''test_run'', ''test_result''] events;
          file_changes = count_of [''file_changed''] events;
          prompts = count_of [''ai_prompt''] events;
          reverts = count_of [''change_reverted''] events;
          final_diff = count_of [''final_diff_viewed''] events;
          pq = prompt_quality ai_prompts;
          views = dict_get (sm_exploration derived) ''relevant_views'' 0;
          changed = changed_count (sm_diff derived) file_changes;
          named = filter (\<lambda>s. s \<in> set types) [''edited_before_baseline'', ''recovered_to_green'', ''recovery_via_revert'']
      in [(''A_correctness'', \<lparr>rr_score = (if tests_ok then 25 else if test_runs > 0 then 8 else 0), rr_max = 25, rr_evidence =
             if tests_ok then ''Final allowlisted test command passed.''
             else ''Visible tests did not pass at submit (hidden evaluator cases not leaked).''\<rparr>),
          (''B_investigation'', \<lparr>rr_score = py_round 1 (investigation_v1 types views test_runs), rr_max = 15, rr_evidence =
             ''Relevant/supporting views='' @ show_nat views @ ''; unrelated churn='' @
             show_nat (dict_get (sm_exploration derived) ''unrelated_file_churn'' 0) @ ''.''\<rparr>),
          (''C_fix_quality'', \<lparr>rr_score = py_round 1 (min 15 (fix_quality_v1 types changed reverts)), rr_max = 15, rr_evidence =
             ''Files changed~'' @ show_int changed @ ''; reverts='' @ show_nat reverts @ ''.''\<rparr>),
          (''D_ai_leverage'', \<lparr>rr_score = py_round 1 (leverage_v1 types prompts pq), rr_max = 15, rr_evidence =
             ''Prompt quality avg='' @ show_fixed False 1 pq @ ''; prompts='' @ show_nat prompts @ ''.''\<rparr>),
          (''E_verification'', \<lparr>rr_score = verification_v1 types tests_ok test_runs, rr_max = 10, rr_evidence =
             ''test_runs='' @ show_nat test_runs @ ''; final_ok='' @ (if tests_ok then ''True'' else ''False'') @ ''.''\<rparr>),
          (''F_communication'', \<lparr>rr_score = py_round 1 (communication_v1 final_diff file_changes), rr_max = 10, rr_evidence =
             ''final_diff_viewed='' @ (if final_diff > 0 then ''True'' else ''False'') @ ''; file_changes='' @ show_nat file_changes @ ''.''\<rparr>),
          (''G_recovery'', \<lparr>rr_score = py_round 1 (recovery_v1 types tests_ok test_runs), rr_max = 10, rr_evidence =
             ''Signals: '' @ (if named = [] then ''none'' else join '', '' named)\<rparr>)])"

definition practice_score_session :: "file_roles \<Rightarrow> json \<Rightarrow> bool \<Rightarrow> string list \<Rightarrow> practice_event list \<Rightarrow> practice_score" where
  "practice_score_session roles diff_stats tests_ok ai_prompts events =
     (let derived = derive_metrics roles diff_stats events;
          signals = extract_behavioral_signals derived events;
          types = map sg_type signals;
          signalled = (\<lambda>s. s \<in> set types);
          rubric = rows_v1 derived types tests_ok ai_prompts events;
          prompts = count_of [''ai_prompt''] events;
          views = count_of [''file_viewed''] events;
          pq = prompt_quality ai_prompts;
          went_well = (if tests_ok then [''Final correctness: allowlisted tests passed.''] else []) @
            (if signalled ''relevant_exploration'' then [''Explored relevant/supporting files before concluding.''] else []) @
            (if signalled ''grounded_ai_prompt'' then [''AI prompts showed grounded context.''] else []);
          improve = (if tests_ok then [] else [''Final test run did not pass - correctness capped.'']) @
            (if signalled ''unrelated_file_churn'' then [''Spent edit effort on intentionally irrelevant files.''] else []) @
            (if prompts > 0 \<and> pq < 55 then [''AI prompts were vague; anchor on failing tests and paths.''] else []) @
            (if views = 0 then [''No file_viewed events - investigation trail is thin.''] else []);
          recovery = (if signalled ''recovery_via_revert'' \<or> signalled ''recovered_to_green''
            then [''Showed recovery (revert and/or fail->pass).''] else [])
      in \<lparr>ps_total = rubric_total rubric, ps_rubric = rubric,
          ps_metrics = [(''test_runs'', JInt (int (count_of [''test_run'', ''test_result''] events))),
             (''file_views'', JInt (int views)), (''file_changes'', JInt (int (count_of [''file_changed''] events))),
             (''ai_prompts'', JInt (int prompts)), (''reverts'', JInt (int (count_of [''change_reverted''] events))),
             (''prompt_quality_avg'', JFloat (py_round 1 pq)), (''tests_passed'', JBool tests_ok),
             (''derived'', metrics_json derived), (''signals'', JList (map signal_json signals))],
          ps_insights = (if tests_ok \<and> prompts = 0 then [''Solved without AI - leverage score uses the no-AI baseline.''] else []) @
             went_well @ improve,
          ps_went_well = went_well, ps_improve = improve, ps_recovery = recovery, ps_signals = signals\<rparr>)"

section \<open>The second version: judgment\<close>

definition norm_event :: "practice_event \<Rightarrow> practice_event" where
  "norm_event e = e\<lparr>pe_id := None\<rparr>"

definition file_role :: "file_roles \<Rightarrow> string option \<Rightarrow> string" where
  "file_role roles path =
     (case path of
        None \<Rightarrow> ''unknown''
      | Some p \<Rightarrow>
          if p \<in> set (fr_relevant roles) then ''relevant''
          else if p \<in> set (fr_irrelevant roles) then ''irrelevant''
          else if list_ex (under p) (fr_relevant roles) then ''relevant''
          else if list_ex (under p) (fr_supporting roles) then ''supporting''
          else if list_ex (noise p) (fr_irrelevant roles) then ''irrelevant''
          else ''other'')"

definition on_task :: "file_roles \<Rightarrow> string \<Rightarrow> bool" where
  "on_task roles path \<longleftrightarrow> file_role roles (Some path) \<in> {''relevant'', ''supporting''}"

definition int_field :: "json dict \<Rightarrow> string \<Rightarrow> int option" where
  "int_field payload key = (case map_of payload key of Some (JInt i) \<Rightarrow> Some i | _ \<Rightarrow> None)"

definition change_size :: "json dict \<Rightarrow> int option" where
  "change_size payload =
     (case int_field payload ''bytes'' of
        Some n \<Rightarrow> Some n
      | None \<Rightarrow>
          (case (int_field payload ''additions'', int_field payload ''deletions'') of
             (None, None) \<Rightarrow> None
           | (a, d) \<Rightarrow> Some ((case a of Some n \<Rightarrow> n | None \<Rightarrow> 0) + (case d of Some n \<Rightarrow> n | None \<Rightarrow> 0))))"

record steps =
  st_opened :: nat
  st_total :: nat

text \<open>\<open>levels\<close> is the number of levels of the challenge, if it is known.\<close>

definition steps_summary :: "nat option \<Rightarrow> practice_event list \<Rightarrow> steps" where
  "steps_summary levels events =
     (let opened = 1 + count_of [''level_advanced''] events;
          total = (case levels of Some n \<Rightarrow> n | None \<Rightarrow> opened)
      in \<lparr>st_opened = (if total \<noteq> 0 then min opened total else opened), st_total = total\<rparr>)"

definition communication_points :: "string list \<Rightarrow> rat \<times> string" where
  "communication_points texts =
     (if search_words [''kept'', ''rejected'', ''reject'', ''accepted'', ''discarded''] (join [CHR 0x0A] texts)
      then (10, ''A defend answer or note says what was kept or rejected.'')
      else (0, ''No defend answer or note yet says what was kept or rejected.''))"

definition communication_texts :: "string list \<Rightarrow> practice_event list \<Rightarrow> string list" where
  "communication_texts extra events =
     extra @ concat (map (\<lambda>e. filter (\<lambda>s. s \<noteq> []) (List.map_filter (text_field (pe_payload e)) [''answer'', ''text'', ''note'']))
       (filter (of_type [''defend_answer'']) events))"

definition is_edit :: "practice_event \<Rightarrow> bool" where
  "is_edit = of_type [''file_changed'', ''ai_edit_accepted'', ''ai_edit_modified'']"

definition is_act :: "practice_event \<Rightarrow> bool" where
  "is_act = of_type [''ai_edit_accepted'', ''ai_edit_modified'']"

definition next_level :: "practice_event \<Rightarrow> bool" where
  "next_level = of_type [''level_advanced'']"

definition investigated :: "file_roles \<Rightarrow> practice_event list \<Rightarrow> bool" where
  "investigated roles events \<longleftrightarrow>
     list_ex (\<lambda>e. of_type [''file_viewed''] e \<and> file_role roles (event_path e) = ''relevant'') (takeWhile (\<lambda>e. \<not> is_edit e) events)"

text \<open>An accepted suggestion that no test follows before the next level.\<close>

fun blind_accept :: "practice_event list \<Rightarrow> bool" where
  "blind_accept [] \<longleftrightarrow> False"
| "blind_accept (e # events) \<longleftrightarrow>
     of_type [''ai_edit_accepted''] e \<and> \<not> list_ex is_test (takeWhile (\<lambda>x. \<not> next_level x) events) \<or> blind_accept events"

text \<open>The acts that a test follows before the next act and before the next level.\<close>

fun verified_acts :: "practice_event list \<Rightarrow> nat" where
  "verified_acts [] = 0"
| "verified_acts (e # events) =
     (if is_act e \<and> list_ex is_test (takeWhile (\<lambda>x. \<not> is_act x \<and> \<not> next_level x) events) then 1 else 0) + verified_acts events"

definition verification_points :: "practice_event list \<Rightarrow> rat \<times> string" where
  "verification_points events =
     (let acts = length (filter is_act events) in
      if acts = 0
      then (if list_ex is_test events then (15, ''Tests ran. There was no accept to verify.'') else (0, ''No test run.''))
      else (py_round 1 (15 * of_nat (verified_acts events) / of_nat acts),
            ''Test after accept on '' @ show_nat (verified_acts events) @ '' of '' @ show_nat acts @ ''.''))"

text \<open>
  A failing test, then a smaller change or a revert, then a pass. \<open>phase\<close> is 0 before a failure, 1 after
  it, 2 after the smaller fix; \<open>last_size\<close> is the size of the last change that had one.
\<close>

definition fails :: "practice_event \<Rightarrow> bool" where
  "fails e \<longleftrightarrow> is_test e \<and> map_of (pe_payload e) ''ok'' = Some (JBool False)"

definition passes :: "practice_event \<Rightarrow> bool" where
  "passes e \<longleftrightarrow> is_test e \<and> map_of (pe_payload e) ''ok'' = Some (JBool True)"

fun recovered :: "nat \<Rightarrow> int option \<Rightarrow> practice_event list \<Rightarrow> bool" where
  "recovered phase last_size [] \<longleftrightarrow> False"
| "recovered phase last_size (e # events) \<longleftrightarrow>
     (if of_type [''file_changed''] e then
        (let size = change_size (pe_payload e);
             smaller = (case (size, last_size) of (Some a, Some b) \<Rightarrow> a < b | _ \<Rightarrow> False)
         in recovered (if phase = 1 \<and> smaller then 2 else phase) (if size \<noteq> None then size else last_size) events)
      else if of_type [''change_reverted''] e \<and> phase = 1 then recovered 2 last_size events
      else if passes e \<and> phase = 2 then True
      else if fails e then recovered 1 last_size events
      else recovered phase last_size events)"

definition fix_quality_points :: "file_roles \<Rightarrow> practice_event list \<Rightarrow> rat \<times> string" where
  "fix_quality_points roles events =
     (let changed = paths_of ''file_changed'' events;
          (c, evidence) = (if changed = [] then (0, ''No file changes.'')
            else if list_all (on_task roles) changed then (8, ''The diff stays on this task's files.'')
            else (2, ''The diff leaves this task's files.''))
      in if list_ex (of_type [''change_reverted'']) events then (min 10 (c + 2), evidence @ '' A revert brought the score up.'')
         else (c, evidence))"

definition practice_score_session_v2 ::
  "file_roles \<Rightarrow> json \<Rightarrow> nat option \<Rightarrow> bool \<Rightarrow> string list \<Rightarrow> practice_event list \<Rightarrow> practice_score" where
  "practice_score_session_v2 roles diff_stats levels tests_ok texts events =
     (let norm = map norm_event events;
          derived = derive_metrics roles diff_stats norm;
          signals = extract_behavioral_signals derived norm;
          looked = investigated roles norm;
          (c, c_evidence) = fix_quality_points roles norm;
          helped = list_ex (of_type [''ai_edit_modified'', ''ai_edit_rejected'']) norm;
          blind = blind_accept norm;
          d = (if helped then 15 else 8);
          (e, e_evidence) = verification_points norm;
          (f, f_evidence) = communication_points (communication_texts texts norm);
          g = recovered 0 None norm;
          rubric =
            [(''A_correctness'', \<lparr>rr_score = if tests_ok then 25 else 0, rr_max = 25,
                rr_evidence = if tests_ok then ''Submit tests passed.'' else ''Submit tests did not pass.''\<rparr>),
             (''B_investigation'', \<lparr>rr_score = if looked then 15 else 0, rr_max = 15,
                rr_evidence = if looked then ''Relevant files were opened before the first edit.''
                  else ''Relevant files were not opened before the first edit.''\<rparr>),
             (''C_fix_quality'', \<lparr>rr_score = c, rr_max = 10, rr_evidence = c_evidence\<rparr>),
             (''D_ai_leverage'', \<lparr>rr_score = if blind then max 0 (d - 8) else d, rr_max = 15,
                rr_evidence = if blind then ''An accept had no later test.''
                  else if helped then ''A suggestion was edited or rejected.''
                  else ''No suggestion was edited or rejected.''\<rparr>),
             (''E_verification'', \<lparr>rr_score = e, rr_max = 15, rr_evidence = e_evidence\<rparr>),
             (''F_communication'', \<lparr>rr_score = f, rr_max = 10, rr_evidence = f_evidence\<rparr>),
             (''G_recovery'', \<lparr>rr_score = if g then 10 else 0, rr_max = 10,
                rr_evidence = if g then ''A failing test was followed by a smaller fix and a pass.''
                  else ''No failing test, then a smaller fix, then a pass.''\<rparr>)];
          st = steps_summary levels norm;
          went_well = (if tests_ok then [''Submit tests passed.''] else []) @
            (if looked then [''Opened the relevant files before the first edit.''] else []) @
            (if helped then [''Edited or rejected a suggestion.''] else []);
          improve = (if tests_ok then [] else [''Submit tests did not pass.'']) @
            (if looked then [] else [''Relevant files were not opened before the first edit.'']) @
            (if blind then [''Accepted a suggestion with no later test.''] else []);
          recovery = (if g then [''A failing test was followed by a smaller fix and a pass.''] else [])
      in \<lparr>ps_total = rubric_total rubric, ps_rubric = rubric,
          ps_metrics = [(''steps'', JObj [(''opened'', JInt (int (st_opened st))), (''total'', JInt (int (st_total st)))]),
             (''tests_passed'', JBool tests_ok), (''derived'', metrics_json derived),
             (''signals'', JList (map signal_json signals)), (''test_runs'', JInt (int (length (filter is_test norm)))),
             (''file_changes'', JInt (int (length (paths_of ''file_changed'' norm))))],
          ps_insights = went_well @ improve @ recovery, ps_went_well = went_well, ps_improve = improve,
          ps_recovery = recovery, ps_signals = signals\<rparr>)"

section \<open>What is published\<close>

text \<open>\<open>{**d, k: v, ...}\<close>.\<close>

definition updated :: "json dict \<Rightarrow> json dict \<Rightarrow> json dict" where
  "updated d news = fold (\<lambda>(k, v). set_key k v) news d"

definition advisory_summary :: "json \<Rightarrow> py_exc + json dict" where
  "advisory_summary summary =
     bind (to_dict (py_or summary (JObj []))) (\<lambda>d. Inr (updated d
       [(''advisory'', JBool True), (''authoritative'', JBool False), (''feedback_kind'', JStr ''advisory_practice''),
        (''correctness_visible'', JNull),
        (''notice'', JStr ''Practice feedback only. Candidate execution cannot establish authoritative correctness.'')]))"

definition advisory_row :: "json dict \<Rightarrow> json dict" where
  "advisory_row row = updated row
     [(''score'', JFloat 0), (''advisory'', JBool True),
      (''evidence'', JStr ''Advisory practice observation; no authoritative grade.'')]"

fun advisory_rows :: "json dict \<Rightarrow> py_exc + json dict" where
  "advisory_rows [] = Inr []"
| "advisory_rows ((key, value) # rows) =
     bind (to_dict value) (\<lambda>row. bind (advisory_rows rows) (\<lambda>rest. Inr ((key, JObj (advisory_row row)) # rest)))"

definition advisory_scoring :: "json dict \<Rightarrow> py_exc + json dict" where
  "advisory_scoring scored =
     bind (as_dict (py_or (dict_get scored ''rubric'' JNull) (JObj []))) (\<lambda>rows.
     bind (advisory_rows rows) (\<lambda>rubric.
     bind (to_dict (dict_get scored ''metrics'' (JObj []))) (\<lambda>metrics.
     bind (advisory_summary (dict_get scored ''test_summary'' JNull)) (\<lambda>summary.
       Inr (updated scored
         [(''total_score'', JFloat 0), (''rubric'', JObj rubric),
          (''metrics'', JObj (updated metrics [(''authoritative'', JBool False), (''advisory'', JBool True)])),
          (''test_summary'', JObj summary)])))))"

definition score_session :: "file_roles \<Rightarrow> json \<Rightarrow> bool \<Rightarrow> string list \<Rightarrow> practice_event list \<Rightarrow> py_exc + json dict" where
  "score_session roles diff_stats tests_ok ai_prompts events =
     advisory_scoring (score_json (practice_score_session roles diff_stats tests_ok ai_prompts events))"

definition score_session_v2 ::
  "file_roles \<Rightarrow> json \<Rightarrow> nat option \<Rightarrow> bool \<Rightarrow> string list \<Rightarrow> practice_event list \<Rightarrow> py_exc + json dict" where
  "score_session_v2 roles diff_stats levels tests_ok texts events =
     advisory_scoring (score_json (practice_score_session_v2 roles diff_stats levels tests_ok texts events))"

text \<open>The stored rubric after new answers of the defense; the sum is computed, the total is published as 0.\<close>

fun row_scores :: "json dict \<Rightarrow> py_exc + rat list" where
  "row_scores [] = Inr []"
| "row_scores ((key, value) # rows) =
     (case json_get value ''score'' of
        None \<Rightarrow> row_scores rows
      | Some s \<Rightarrow> bind (py_float s) (\<lambda>x. bind (row_scores rows) (\<lambda>xs. Inr (x # xs))))"

definition apply_communication_score :: "json dict \<Rightarrow> string list \<Rightarrow> py_exc + json dict \<times> rat" where
  "apply_communication_score rubric texts =
     (case communication_points texts of (score, evidence) \<Rightarrow>
        let rows = set_key ''F_communication''
          (JObj [(''score'', JFloat score), (''max'', JInt 10), (''evidence'', JStr evidence)]) rubric
        in bind (row_scores rows) (\<lambda>_. bind (advisory_scoring [(''rubric'', JObj rows)]) (\<lambda>scored.
           bind (dict_item scored ''rubric'') (\<lambda>r. bind (to_dict r) (\<lambda>published. Inr (published, 0))))))"

section \<open>The third version: evidence\<close>

definition event_of_dict :: "json dict \<Rightarrow> practice_event" where
  "event_of_dict event =
     \<lparr>pe_id = text_field event ''id'', pe_type = (case text_field event ''event_type'' of Some s \<Rightarrow> s | None \<Rightarrow> []),
      pe_payload = (case map_of event ''payload'' of Some (JObj d) \<Rightarrow> d | _ \<Rightarrow> [])\<rparr>"

fun unassessed_rows :: "json dict \<Rightarrow> py_exc + json dict" where
  "unassessed_rows [] = Inr []"
| "unassessed_rows ((key, value) # items) =
     bind (to_dict value) (\<lambda>item. bind (dict_item item ''weight'') (\<lambda>weight. bind (dict_item item ''status'') (\<lambda>status.
     bind (unassessed_rows items) (\<lambda>rest.
       Inr ((key, JObj [(''score'', JFloat 0), (''max'', weight), (''advisory'', JBool True), (''status'', status),
         (''evidence'', JStr ''Not assessed; evidence requires review.'')]) # rest)))))"

definition score_session_v3 ::
  "grading_env \<Rightarrow> (json \<Rightarrow> string) \<Rightarrow> rubric_texts \<Rightarrow> file_roles \<Rightarrow> json \<Rightarrow> nat option \<Rightarrow> string \<Rightarrow> string \<Rightarrow> string option \<Rightarrow>
    json dict list \<Rightarrow> json \<Rightarrow> py_exc + json dict" where
  "score_session_v3 E py_repr T roles diff_stats levels session_id slug version events test_summary =
     bind (pending_assessment E py_repr T session_id slug version events test_summary []) (\<lambda>assessment.
       let observed = map event_of_dict events;
           derived = derive_metrics roles diff_stats observed;
           st = steps_summary levels observed
       in bind (dict_item assessment ''dimensions'') (\<lambda>dims. bind (to_dict dims) (\<lambda>items.
          bind (unassessed_rows items) (\<lambda>rubric. bind (dict_item assessment ''notice'') (\<lambda>notice.
            Inr [(''total_score'', JFloat 0), (''rubric'', JObj rubric),
                 (''metrics'', JObj [(''assessment'', JObj assessment), (''derived'', metrics_json derived),
                    (''steps'', JObj [(''opened'', JInt (int (st_opened st))), (''total'', JInt (int (st_total st)))]),
                    (''authoritative'', JBool False), (''advisory'', JBool True)]),
                 (''insights'', JList [notice]), (''went_well'', JList []), (''improve'', JList []),
                 (''recovery_moments'', JList []), (''signals'', JList [])])))))"

section \<open>The defense and the previous attempt\<close>

definition previous_attempt_for :: "json dict list \<Rightarrow> string \<Rightarrow> json dict option" where
  "previous_attempt_for attempts scoring_version =
     (case find (\<lambda>row. (let status = dict_get row ''status'' JNull in \<not> truthy status \<or> status = JStr ''submitted'') \<and>
           map_of row ''scoring_version'' = Some (JStr scoring_version)) attempts of
        None \<Rightarrow> None
      | Some row \<Rightarrow> Some [(''total_score'', dict_get row ''total_score'' JNull),
          (''rubric'', py_or (dict_get row ''rubric'' JNull) (JObj [])), (''steps'', dict_get row ''steps'' JNull),
          (''scoring_version'', JStr scoring_version)])"

text \<open>\<open>re.split(r"\s+A:\s+", s, maxsplit=1)[0]\<close>.\<close>

definition answer_starts :: "string \<Rightarrow> bool" where
  "answer_starts s \<longleftrightarrow>
     (let rest = dropWhile is_space s
      in length rest < length s \<and> prefix ''A:'' rest \<and> length rest > 2 \<and> is_space (rest ! 2))"

fun before_answer :: "string \<Rightarrow> string" where
  "before_answer [] = []"
| "before_answer (c # cs) = (if answer_starts (c # cs) then [] else c # before_answer cs)"

definition sanitize_candidate_question :: "string \<Rightarrow> string" where
  "sanitize_candidate_question question = take 500 (strip (before_answer (strip question)))"

record defend_question =
  dq_question :: string
  dq_index :: nat

text \<open>\<open>parsed\<close> are the questions that \<open>parse_defend_questions\<close> reads.\<close>

definition candidate_defend_questions :: "string list \<Rightarrow> defend_question list" where
  "candidate_defend_questions parsed =
     map (\<lambda>(i, q). \<lparr>dq_question = sanitize_candidate_question q, dq_index = i\<rparr>) (enumerate 0 parsed)"

definition accepted_defend :: "string \<Rightarrow> string" where
  "accepted_defend path =
     ''Walk through the change you accepted in `'' @ path @ ''`. '' @ ''What would a wrong version still pass?''"

definition append_accepted_defend_question :: "defend_question list \<Rightarrow> practice_event list \<Rightarrow> defend_question list" where
  "append_accepted_defend_question questions events =
     (case paths_of ''ai_edit_accepted'' events of
        [] \<Rightarrow> questions
      | paths \<Rightarrow> questions @ [\<lparr>dq_question = accepted_defend (last paths), dq_index = length questions\<rparr>])"

section \<open>The report of a test run\<close>

definition equals_int :: "json option \<Rightarrow> int \<Rightarrow> bool" where
  "equals_int j n \<longleftrightarrow>
     (case j of
        Some (JInt i) \<Rightarrow> i = n
      | Some (JFloat r) \<Rightarrow> r = of_int n
      | Some (JBool b) \<Rightarrow> of_bool b = n
      | _ \<Rightarrow> False)"

definition hashable :: "json \<Rightarrow> bool" where
  "hashable j \<longleftrightarrow> (case j of JList _ \<Rightarrow> False | JObj _ \<Rightarrow> False | _ \<Rightarrow> True)"

definition expected_phases :: "string list \<Rightarrow> (json \<times> json) list" where
  "expected_phases expected_ids =
     concat (map (\<lambda>i. map (\<lambda>phase. (JStr i, JStr phase)) [''setup'', ''call'', ''teardown'']) expected_ids)"

fun check_records :: "(json \<times> json) list \<Rightarrow> (json \<times> json) list \<Rightarrow> json list \<Rightarrow> py_exc + bool" where
  "check_records expected actual [] = Inr (set actual = set expected)"
| "check_records expected actual (rec # records) =
     (case rec of
        JObj d \<Rightarrow>
          (let key = (dict_get d ''id'' JNull, dict_get d ''phase'' JNull) in
           if map_of d ''outcome'' \<noteq> Some (JStr ''passed'') then Inr False
           else if \<not> hashable (fst key) \<or> \<not> hashable (snd key) then Inl TypeError
           else if key \<notin> set expected \<or> key \<in> set actual then Inr False
           else check_records expected (key # actual) records)
      | _ \<Rightarrow> Inr False)"

definition complete_report :: "json \<Rightarrow> string list \<Rightarrow> py_exc + bool" where
  "complete_report report expected_ids =
     (if expected_ids = [] \<or> \<not> distinct expected_ids then Inr False
      else case report of
          JObj d \<Rightarrow>
            if \<not> equals_int (map_of d ''version'') 1 \<or> map_of d ''complete'' \<noteq> Some (JBool True) \<or>
               \<not> equals_int (map_of d ''exit_code'') 0 then Inr False
            else (case map_of d ''records'' of
                Some (JList records) \<Rightarrow> check_records (expected_phases expected_ids) [] records
              | _ \<Rightarrow> Inr False)
        | _ \<Rightarrow> Inr False)"

section \<open>Scores within their range\<close>

definition row_bounded :: "rubric_row \<Rightarrow> bool" where
  "row_bounded r \<longleftrightarrow> 0 \<le> rr_score r \<and> rr_score r \<le> of_int (rr_max r)"

lemma total_bounded:
  assumes "list_all (row_bounded \<circ> snd) rows"
  shows "0 \<le> rubric_total rows \<and> rubric_total rows \<le> of_int (sum_list (map (rr_max \<circ> snd) rows))"
proof -
  have "0 \<le> sum_list (map (rr_score \<circ> snd) rows) \<and>
      sum_list (map (rr_score \<circ> snd) rows) \<le> of_int (sum_list (map (rr_max \<circ> snd) rows))"
    using assms by (induction rows) (auto simp: row_bounded_def intro: add_mono)
  then show ?thesis
    unfolding rubric_total_def
    using py_round_mono [of 0 _ 1] py_round_mono [of _ "of_int (sum_list (map (rr_max \<circ> snd) rows))" 1] by auto
qed

lemma round_range: "0 \<le> x \<Longrightarrow> x \<le> of_int n \<Longrightarrow> 0 \<le> py_round 1 x \<and> py_round 1 x \<le> of_int n"
  using py_round_mono [of 0 x 1] py_round_mono [of x "of_int n" 1] by simp

lemma prompt_score_range: "0 \<le> pa_score (analyze_prompt_quality p) \<and> pa_score (analyze_prompt_quality p) \<le> 100"
proof -
  have len: "length (prompt_checks p) = 9" by (simp add: prompt_checks_def Let_def)
  let ?hit = "length (filter snd (prompt_checks p))"
  have "?hit \<le> 9" using length_filter_le [of snd "prompt_checks p"] len by simp
  then have "0 \<le> (100 * of_nat ?hit / of_nat (max (length (prompt_checks p)) 1) :: rat)"
    "(100 * of_nat ?hit / of_nat (max (length (prompt_checks p)) 1) :: rat) \<le> of_int 100"
    using len by (simp_all add: divide_le_eq)
  from round_range [OF this] show ?thesis by (auto simp: analyze_prompt_quality_def Let_def max_def)
qed

lemma prompt_quality_range: "0 \<le> prompt_quality ps \<and> prompt_quality ps \<le> 100"
  using prompt_score_range
  by (auto simp: prompt_quality_def intro!: mean_ge mean_le)

definition in_range :: "rat \<Rightarrow> int \<Rightarrow> bool" where
  "in_range x n \<longleftrightarrow> 0 \<le> x \<and> x \<le> of_int n"

lemma investigation_v1_range: "in_range (investigation_v1 types views test_runs) 15"
  by (simp add: investigation_v1_def Let_def in_range_def min_def max_def)

lemma fix_quality_v1_range: "in_range (min 15 (fix_quality_v1 types changed reverts)) 15"
  by (simp add: fix_quality_v1_def Let_def in_range_def min_def max_def)

lemma leverage_v1_range: "in_range (leverage_v1 types prompts (prompt_quality ps)) 15"
proof -
  define d where "d = py_round 1 (15 * (prompt_quality ps / 100))"
  have pq: "0 \<le> 15 * (prompt_quality ps / 100)" "15 * (prompt_quality ps / 100) \<le> of_int 15"
    using prompt_quality_range [of ps] by simp_all
  have "0 \<le> d \<and> d \<le> 15" using round_range [OF pq] by (simp add: d_def)
  then show ?thesis unfolding leverage_v1_def Let_def in_range_def d_def [symmetric] by (simp add: min_def max_def)
qed

lemma verification_v1_range: "in_range (verification_v1 types tests_ok test_runs) 10"
  by (simp add: verification_v1_def Let_def in_range_def)

lemma communication_v1_range: "in_range (communication_v1 final_diff file_changes) 10"
  by (simp add: communication_v1_def Let_def in_range_def)

lemma recovery_v1_range: "in_range (recovery_v1 types tests_ok test_runs) 10"
  by (simp add: recovery_v1_def in_range_def)

lemma row_bounded_iff: "row_bounded \<lparr>rr_score = x, rr_max = n, rr_evidence = s\<rparr> \<longleftrightarrow> in_range x n"
  by (simp add: row_bounded_def in_range_def)

lemma in_range_round: "in_range x n \<Longrightarrow> in_range (py_round 1 x) n"
  using round_range [of x n] by (simp add: in_range_def del: One_nat_def)

lemmas v1_ranges = investigation_v1_range fix_quality_v1_range leverage_v1_range verification_v1_range communication_v1_range
  recovery_v1_range

lemma rows_v1_bounded: "list_all (row_bounded \<circ> snd) (rows_v1 derived types tests_ok prompts events)"
proof -
  have "in_range (if tests_ok then 25 else if n > 0 then 8 else 0) 25" for n :: nat
    by (simp add: in_range_def)
  then show ?thesis unfolding rows_v1_def Let_def by (simp add: row_bounded_iff in_range_round v1_ranges del: One_nat_def)
qed

lemma verified_acts_le: "verified_acts events \<le> length (filter is_act events)"
  by (induction events) auto

lemma fix_quality_range: "in_range (fst (fix_quality_points roles events)) 10"
  by (simp add: fix_quality_points_def Let_def in_range_def split: prod.split)

lemma verification_range: "in_range (fst (verification_points events)) 15"
proof (cases "filter is_act events = []")
  case True
  then show ?thesis by (simp add: verification_points_def in_range_def)
next
  case False
  let ?n = "length (filter is_act events)"
  have "(15 * of_nat (verified_acts events) / of_nat ?n :: rat) \<le> of_int 15"
    using False verified_acts_le [of events] by (simp add: divide_le_eq)
  then have "in_range (py_round 1 (15 * of_nat (verified_acts events) / of_nat ?n)) 15"
    by (intro in_range_round) (simp add: in_range_def)
  then show ?thesis using False by (simp add: verification_points_def Let_def del: One_nat_def)
qed

lemma communication_range: "in_range (fst (communication_points texts)) 10"
  by (simp add: communication_points_def in_range_def)

lemma rubric_v2_bounded:
  "list_all (row_bounded \<circ> snd) (ps_rubric (practice_score_session_v2 roles diff_stats levels tests_ok texts events))"
proof -
  let ?norm = "map norm_event events"
  obtain c ce where c: "fix_quality_points roles ?norm = (c, ce)" by (rule prod.exhaust)
  obtain e ee where e: "verification_points ?norm = (e, ee)" by (rule prod.exhaust)
  obtain f fe where f: "communication_points (communication_texts texts ?norm) = (f, fe)" by (rule prod.exhaust)
  have "in_range c 10" "in_range e 15" "in_range f 10"
    using fix_quality_range [of roles ?norm] verification_range [of ?norm]
      communication_range [of "communication_texts texts ?norm"] c e f by simp_all
  then show ?thesis
    unfolding practice_score_session_v2_def Let_def c e f prod.case
    by (simp add: row_bounded_iff) (simp add: in_range_def)
qed

section \<open>Recovery\<close>

text \<open>The size of the last change that had one.\<close>

definition last_size :: "practice_event list \<Rightarrow> int option" where
  "last_size events = fold (\<lambda>e s. case change_size (pe_payload e) of Some n \<Rightarrow> Some n | None \<Rightarrow> s)
     (filter (of_type [''file_changed'']) events) None"

text \<open>A revert, or a change that is smaller than the change before it.\<close>

definition steps_back :: "practice_event list \<Rightarrow> practice_event \<Rightarrow> bool" where
  "steps_back before e \<longleftrightarrow>
     of_type [''change_reverted''] e \<or>
     of_type [''file_changed''] e \<and>
       (case (change_size (pe_payload e), last_size before) of (Some a, Some b) \<Rightarrow> a < b | _ \<Rightarrow> False)"

definition recovery_phase :: "practice_event list \<Rightarrow> nat" where
  "recovery_phase es =
     (if \<not> list_ex fails es then 0
      else if \<exists>i j. i < j \<and> j < length es \<and> fails (es ! i) \<and> steps_back (take j es) (es ! j) \<and>
           \<not> list_ex fails (drop (Suc j) es) then 2 else 1)"

lemma last_size_snoc:
  "last_size (es @ [e]) = (if of_type [''file_changed''] e
     then case change_size (pe_payload e) of Some n \<Rightarrow> Some n | None \<Rightarrow> last_size es else last_size es)"
  by (simp add: last_size_def split: option.split)

lemma of_type_excl:
  "fails e \<Longrightarrow> \<not> of_type [''file_changed''] e \<and> \<not> of_type [''change_reverted''] e"
  "passes e \<Longrightarrow> \<not> of_type [''file_changed''] e \<and> \<not> of_type [''change_reverted''] e \<and> \<not> fails e"
  by (auto simp: fails_def passes_def is_test_def of_type_def)

lemma steps_back_not_fails: "steps_back es e \<Longrightarrow> \<not> fails e"
  using of_type_excl(1) by (auto simp: steps_back_def)

lemma stepped_snoc:
  "(\<exists>i j. i < j \<and> j < length (es @ [e]) \<and> fails ((es @ [e]) ! i) \<and> steps_back (take j (es @ [e])) ((es @ [e]) ! j) \<and>
      \<not> list_ex fails (drop (Suc j) (es @ [e]))) \<longleftrightarrow>
   list_ex fails es \<and> steps_back es e \<or>
   \<not> fails e \<and> (\<exists>i j. i < j \<and> j < length es \<and> fails (es ! i) \<and> steps_back (take j es) (es ! j) \<and>
      \<not> list_ex fails (drop (Suc j) es))"
  (is "?new \<longleftrightarrow> ?last \<or> ?old")
proof
  assume ?new
  then obtain i j where ij: "i < j" "j < length (es @ [e])" "fails ((es @ [e]) ! i)"
      "steps_back (take j (es @ [e])) ((es @ [e]) ! j)" "\<not> list_ex fails (drop (Suc j) (es @ [e]))" by blast
  show "?last \<or> ?old"
  proof (cases "j = length es")
    case True
    then show ?thesis using ij by (auto simp: nth_append list_ex_iff)
  next
    case False
    then have "j < length es" using ij(2) by simp
    then have "?old" using ij by (intro conjI exI [of _ i] exI [of _ j]) (auto simp: nth_append)
    then show ?thesis by blast
  qed
next
  assume "?last \<or> ?old"
  then show ?new
  proof
    assume last: ?last
    then obtain i where "i < length es" "fails (es ! i)" by (auto simp: list_ex_iff in_set_conv_nth)
    then show ?new using last by (intro exI [of _ i] exI [of _ "length es"]) (auto simp: nth_append)
  next
    assume old: ?old
    then obtain i j where "i < j" "j < length es" "fails (es ! i)" "steps_back (take j es) (es ! j)"
        "\<not> list_ex fails (drop (Suc j) es)" by blast
    then show ?new using old by (intro exI [of _ i] exI [of _ j]) (auto simp: nth_append)
  qed
qed

lemma recovery_phase_snoc:
  "recovery_phase (es @ [e]) =
     (if fails e then 1
      else if steps_back es e \<and> recovery_phase es \<noteq> 0 then 2 else recovery_phase es)"
  unfolding recovery_phase_def stepped_snoc using steps_back_not_fails [of es e] by auto

lemma recovery_phase_le: "recovery_phase es = 0 \<or> recovery_phase es = 1 \<or> recovery_phase es = 2"
  by (simp add: recovery_phase_def)

lemma recovered_step:
  "recovered (recovery_phase es) (last_size es) (e # rest) \<longleftrightarrow>
     passes e \<and> recovery_phase es = 2 \<or> recovered (recovery_phase (es @ [e])) (last_size (es @ [e])) rest"
proof (cases "of_type [''file_changed''] e")
  case True
  then have kind: "\<not> passes e" "\<not> fails e" "\<not> of_type [''change_reverted''] e"
    using of_type_excl [of e] by (auto simp: of_type_def)
  let ?smaller = "case (change_size (pe_payload e), last_size es) of (Some a, Some b) \<Rightarrow> a < b | _ \<Rightarrow> False"
  have "steps_back es e \<longleftrightarrow> ?smaller" using True kind by (simp add: steps_back_def)
  then have phase: "recovery_phase (es @ [e]) = (if recovery_phase es = 1 \<and> ?smaller then 2 else recovery_phase es)"
    using recovery_phase_le [of es] kind by (auto simp: recovery_phase_snoc)
  have size: "last_size (es @ [e]) = (if change_size (pe_payload e) \<noteq> None then change_size (pe_payload e) else last_size es)"
    using True by (auto simp: last_size_snoc split: option.split)
  show ?thesis using True kind phase size by (simp add: Let_def)
next
  case False
  then have size: "last_size (es @ [e]) = last_size es" and stepped: "steps_back es e \<longleftrightarrow> of_type [''change_reverted''] e"
    by (simp_all add: last_size_snoc steps_back_def)
  show ?thesis
  proof (cases "of_type [''change_reverted''] e")
    case True
    then have "\<not> passes e" "\<not> fails e" using of_type_excl [of e] by auto
    then show ?thesis using False True size stepped recovery_phase_le [of es] by (auto simp: recovery_phase_snoc)
  next
    case other: False
    then have "recovery_phase (es @ [e]) = (if fails e then 1 else recovery_phase es)" using stepped by (simp add: recovery_phase_snoc)
    moreover have "passes e \<Longrightarrow> \<not> fails e" using of_type_excl(2) by blast
    ultimately show ?thesis using False other size by auto
  qed
qed

lemma recovered_from:
  "recovered (recovery_phase es) (last_size es) rest \<longleftrightarrow> (\<exists>k < length rest. passes (rest ! k) \<and> recovery_phase (es @ take k rest) = 2)"
proof (induction rest arbitrary: es)
  case (Cons e rest)
  have "(\<exists>k < length (e # rest). passes ((e # rest) ! k) \<and> recovery_phase (es @ take k (e # rest)) = 2) \<longleftrightarrow>
      passes e \<and> recovery_phase es = 2 \<or> (\<exists>k < length rest. passes (rest ! k) \<and> recovery_phase ((es @ [e]) @ take k rest) = 2)"
    by (auto simp: less_Suc_eq_0_disj)
  then show ?case unfolding recovered_step using Cons.IH [of "es @ [e]"] by simp
qed simp

lemma recovery_phase_two:
  "k \<le> length es \<Longrightarrow> recovery_phase (take k es) = 2 \<longleftrightarrow>
     (\<exists>i j. i < j \<and> j < k \<and> fails (es ! i) \<and> steps_back (take j es) (es ! j) \<and> \<not> list_ex fails (drop (Suc j) (take k es)))"
proof -
  assume k: "k \<le> length es"
  let ?at = "\<lambda>i j. i < j \<and> j < k \<and> fails (es ! i) \<and> steps_back (take j es) (es ! j) \<and> \<not> list_ex fails (drop (Suc j) (take k es))"
  have same: "(i < j \<and> j < length (take k es) \<and> fails (take k es ! i) \<and> steps_back (take j (take k es)) (take k es ! j) \<and>
      \<not> list_ex fails (drop (Suc j) (take k es))) = ?at i j" for i j
    using k by (auto simp: min_def)
  have "list_ex fails (take k es)" if "?at i j" for i j
    using that k by (auto simp: list_ex_iff in_set_conv_nth intro!: bexI [of _ "es ! i"] exI [of _ i])
  then show ?thesis unfolding recovery_phase_def same by auto
qed

text \<open>
  C33: The recovery of the second version is found exactly when a failing test was followed by a revert,
  or by a change that was smaller than the change before it, and that by a passing test with no other
  failure in between.
\<close>

theorem recovery_found_iff:
  "recovered 0 None es \<longleftrightarrow>
     (\<exists>i j k. i < j \<and> j < k \<and> k < length es \<and> fails (es ! i) \<and> steps_back (take j es) (es ! j) \<and> passes (es ! k) \<and>
        \<not> list_ex fails (drop (Suc j) (take k es)))"
proof -
  have "recovery_phase [] = 0" "last_size [] = None" by (simp_all add: recovery_phase_def last_size_def)
  then have "recovered 0 None es \<longleftrightarrow> (\<exists>k < length es. passes (es ! k) \<and> recovery_phase (take k es) = 2)"
    using recovered_from [of "[]" es] by simp
  also have "\<dots> \<longleftrightarrow> (\<exists>k < length es. passes (es ! k) \<and>
      (\<exists>i j. i < j \<and> j < k \<and> fails (es ! i) \<and> steps_back (take j es) (es ! j) \<and> \<not> list_ex fails (drop (Suc j) (take k es))))"
    using recovery_phase_two by (metis (no_types, lifting) order_less_imp_le)
  finally show ?thesis by blast
qed

definition score_bounded :: "practice_score \<Rightarrow> bool" where
  "score_bounded p \<longleftrightarrow> list_all (row_bounded \<circ> snd) (ps_rubric p) \<and> 0 \<le> ps_total p \<and> ps_total p \<le> 100"

lemma score_bounded_of_rows:
  assumes "list_all (row_bounded \<circ> snd) (ps_rubric p)" "ps_total p = rubric_total (ps_rubric p)"
    "sum_list (map (rr_max \<circ> snd) (ps_rubric p)) = 100"
  shows "score_bounded p"
  using assms total_bounded [OF assms(1)] by (simp add: score_bounded_def)

lemma session_v1_fields:
  "ps_rubric (practice_score_session roles diff_stats tests_ok ps events) =
     rows_v1 (derive_metrics roles diff_stats events)
       (map sg_type (extract_behavioral_signals (derive_metrics roles diff_stats events) events)) tests_ok ps events"
  "ps_total (practice_score_session roles diff_stats tests_ok ps events) =
     rubric_total (ps_rubric (practice_score_session roles diff_stats tests_ok ps events))"
  by (simp_all add: practice_score_session_def Let_def)

lemma session_v2_total:
  "ps_total (practice_score_session_v2 roles diff_stats levels tests_ok texts events) =
     rubric_total (ps_rubric (practice_score_session_v2 roles diff_stats levels tests_ok texts events))"
  "sum_list (map (rr_max \<circ> snd) (ps_rubric (practice_score_session_v2 roles diff_stats levels tests_ok texts events))) = 100"
proof -
  let ?norm = "map norm_event events"
  obtain c ce where c: "fix_quality_points roles ?norm = (c, ce)" by (rule prod.exhaust)
  obtain e ee where e: "verification_points ?norm = (e, ee)" by (rule prod.exhaust)
  obtain f fe where f: "communication_points (communication_texts texts ?norm) = (f, fe)" by (rule prod.exhaust)
  show "ps_total (practice_score_session_v2 roles diff_stats levels tests_ok texts events) =
     rubric_total (ps_rubric (practice_score_session_v2 roles diff_stats levels tests_ok texts events))"
    unfolding practice_score_session_v2_def Let_def c e f prod.case practice_score.select_convs by (rule refl)
  show "sum_list (map (rr_max \<circ> snd) (ps_rubric (practice_score_session_v2 roles diff_stats levels tests_ok texts events))) = 100"
    unfolding practice_score_session_v2_def Let_def c e f prod.case practice_score.select_convs by simp
qed

lemma rows_v1_max: "sum_list (map (rr_max \<circ> snd) (rows_v1 derived types tests_ok ps events)) = 100"
  by (simp add: rows_v1_def Let_def)

text \<open>
  Both versions of the practice score give every row between 0 and the most the row can have, and a
  total between 0 and 100, whatever was recorded.
\<close>

theorem practice_scores_bounded:
  "score_bounded (practice_score_session roles diff_stats tests_ok ps events) \<and>
   score_bounded (practice_score_session_v2 roles diff_stats levels tests_ok texts events)"
proof
  show "score_bounded (practice_score_session roles diff_stats tests_ok ps events)"
    by (rule score_bounded_of_rows) (simp_all add: session_v1_fields rows_v1_bounded rows_v1_max)
  show "score_bounded (practice_score_session_v2 roles diff_stats levels tests_ok texts events)"
    by (rule score_bounded_of_rows [OF rubric_v2_bounded session_v2_total])
qed

section \<open>No grade is published\<close>

definition ungraded :: "json dict \<Rightarrow> bool" where
  "ungraded d \<longleftrightarrow>
     map_of d ''total_score'' = Some (JFloat 0) \<and>
     (case map_of d ''rubric'' of
        Some (JObj rows) \<Rightarrow> list_all (\<lambda>(key, row). json_get row ''score'' = Some (JFloat 0) \<and> json_get row ''advisory'' = Some (JBool True)) rows
      | _ \<Rightarrow> False) \<and>
     (case map_of d ''metrics'' of
        Some m \<Rightarrow> json_get m ''authoritative'' = Some (JBool False) \<and> json_get m ''advisory'' = Some (JBool True)
      | None \<Rightarrow> False)"

lemma map_of_updated:
  "map_of (updated d news) k = (case map_of (rev news) k of Some v \<Rightarrow> Some v | None \<Rightarrow> map_of d k)"
  by (induction news arbitrary: d) (auto simp: updated_def map_add_def split: option.splits)

lemma advisory_rows_ungraded:
  "advisory_rows rows = Inr out \<Longrightarrow>
   list_all (\<lambda>(key, row). json_get row ''score'' = Some (JFloat 0) \<and> json_get row ''advisory'' = Some (JBool True)) out"
  by (induction rows arbitrary: out rule: advisory_rows.induct)
    (auto simp: bind_Inr advisory_row_def json_get_def map_of_updated)

lemma advisory_scoring_ungraded:
  assumes "advisory_scoring scored = Inr out"
  shows "ungraded out"
proof -
  obtain rows rubric metrics summary where parts: "advisory_rows rows = Inr rubric"
      "out = updated scored
         [(''total_score'', JFloat 0), (''rubric'', JObj rubric),
          (''metrics'', JObj (updated metrics [(''authoritative'', JBool False), (''advisory'', JBool True)])),
          (''test_summary'', JObj summary)]"
    using assms by (auto simp: advisory_scoring_def bind_Inr)
  have "map_of out ''total_score'' = Some (JFloat 0)" "map_of out ''rubric'' = Some (JObj rubric)"
    "map_of out ''metrics'' = Some (JObj (updated metrics [(''authoritative'', JBool False), (''advisory'', JBool True)]))"
    by (simp_all add: parts(2) map_of_updated)
  then show ?thesis using advisory_rows_ungraded [OF parts(1)] by (simp add: ungraded_def json_get_def map_of_updated)
qed

lemma advisory_rows_total: "list_all (\<lambda>(key, row). \<exists>d. row = JObj d) rows \<Longrightarrow> \<exists>out. advisory_rows rows = Inr out"
  by (induction rows rule: advisory_rows.induct) (auto simp: to_dict_def)

lemma score_json_published: "\<exists>out. advisory_scoring (score_json p) = Inr out"
proof -
  have "list_all (\<lambda>(key, row). \<exists>d. row = JObj d) (map (\<lambda>(k, r). (k, row_json r)) (ps_rubric p))"
    by (auto simp: list_all_iff row_json_def)
  then obtain out where rows: "advisory_rows (map (\<lambda>(k, r). (k, row_json r)) (ps_rubric p)) = Inr out"
    using advisory_rows_total by blast
  have fields: "dict_get (score_json p) ''rubric'' JNull = JObj (map (\<lambda>(k, r). (k, row_json r)) (ps_rubric p))"
    "dict_get (score_json p) ''metrics'' (JObj []) = JObj (ps_metrics p)" "dict_get (score_json p) ''test_summary'' JNull = JNull"
    by (simp_all add: score_json_def dict_get_def)
  have same: "as_dict (py_or (JObj xs) (JObj [])) = Inr xs" for xs by (simp add: as_dict_def py_or_def)
  have "\<exists>s. advisory_summary JNull = Inr s" by (simp add: advisory_summary_def py_or_def to_dict_def)
  then show ?thesis unfolding advisory_scoring_def fields same using rows by (auto simp: to_dict_def)
qed

text \<open>
  The boundary of the practice scores. Both versions always return, and what they return carries no
  grade: the total is 0, every row has the score 0 and is marked as advisory.
\<close>

theorem practice_score_published_ungraded:
  "(\<exists>out. score_session roles diff_stats tests_ok ps events = Inr out \<and> ungraded out) \<and>
   (\<exists>out. score_session_v2 roles diff_stats levels tests_ok texts events = Inr out \<and> ungraded out)"
  using score_json_published advisory_scoring_ungraded unfolding score_session_def score_session_v2_def by metis

text \<open>The third version stores no grade either, when it returns.\<close>

lemma unassessed_ungraded:
  "unassessed_rows items = Inr out \<Longrightarrow>
   list_all (\<lambda>(key, row). json_get row ''score'' = Some (JFloat 0) \<and> json_get row ''advisory'' = Some (JBool True)) out"
  by (induction items arbitrary: out rule: unassessed_rows.induct) (auto simp: bind_Inr json_get_def)

lemma score_v3_ungraded:
  "score_session_v3 E py_repr T roles diff_stats levels sid slug version events summary = Inr out \<Longrightarrow> ungraded out"
  by (auto simp: score_session_v3_def Let_def bind_Inr ungraded_def json_get_def dest: unassessed_ungraded)

section \<open>Complete reports\<close>

definition record_key :: "json \<Rightarrow> json \<times> json" where
  "record_key rec = (case rec of JObj d \<Rightarrow> (dict_get d ''id'' JNull, dict_get d ''phase'' JNull) | _ \<Rightarrow> (JNull, JNull))"

definition passed_record :: "json \<Rightarrow> bool" where
  "passed_record rec \<longleftrightarrow>
     (case rec of
        JObj d \<Rightarrow> map_of d ''outcome'' = Some (JStr ''passed'') \<and> hashable (fst (record_key rec)) \<and> hashable (snd (record_key rec))
      | _ \<Rightarrow> False)"

lemma check_records_Cons:
  "check_records expected actual (rec # records) = Inr True \<longleftrightarrow>
     passed_record rec \<and> record_key rec \<in> set expected \<and> record_key rec \<notin> set actual \<and>
     check_records expected (record_key rec # actual) records = Inr True"
  by (cases rec) (auto simp: passed_record_def record_key_def Let_def)

lemma check_records_iff:
  "distinct actual \<Longrightarrow> set actual \<subseteq> set expected \<Longrightarrow>
   check_records expected actual records = Inr True \<longleftrightarrow>
     list_all passed_record records \<and> distinct (map record_key records @ actual) \<and>
     set (map record_key records @ actual) = set expected"
proof (induction records arbitrary: actual)
  case (Cons rec records)
  show ?case
  proof (cases "passed_record rec \<and> record_key rec \<in> set expected \<and> record_key rec \<notin> set actual")
    case True
    then have "check_records expected (record_key rec # actual) records = Inr True \<longleftrightarrow>
        list_all passed_record records \<and> distinct (map record_key records @ record_key rec # actual) \<and>
        set (map record_key records @ record_key rec # actual) = set expected"
      by (intro Cons.IH) (use Cons.prems in auto)
    then show ?thesis using True unfolding check_records_Cons by auto
  next
    case False
    then show ?thesis unfolding check_records_Cons by auto
  qed
qed auto

text \<open>
  C34: A report of a test run counts as complete exactly when it says so itself (version 1, complete, exit
  code 0) and its records are one passed set-up, call and tear-down of every expected test, each once
  and nothing else.
\<close>

theorem complete_report_exact:
  "complete_report report expected_ids = Inr True \<longleftrightarrow>
     expected_ids \<noteq> [] \<and> distinct expected_ids \<and>
     (\<exists>d records. report = JObj d \<and> equals_int (map_of d ''version'') 1 \<and> map_of d ''complete'' = Some (JBool True) \<and>
        equals_int (map_of d ''exit_code'') 0 \<and> map_of d ''records'' = Some (JList records) \<and>
        list_all passed_record records \<and> distinct (map record_key records) \<and>
        set (map record_key records) = {(JStr i, JStr p) | i p. i \<in> set expected_ids \<and> p \<in> {''setup'', ''call'', ''teardown''}})"
proof -
  have "set (expected_phases expected_ids) = {(JStr i, JStr p) | i p. i \<in> set expected_ids \<and> p \<in> {''setup'', ''call'', ''teardown''}}"
    by (auto simp: expected_phases_def)
  then show ?thesis
    by (cases report) (auto simp: complete_report_def check_records_iff split: option.splits json.splits)
qed

end
