(* ===== verification/Cleanup.thy ===== *)
theory Cleanup
  imports AttemptLife
begin

text \<open>
  The sweep over expired, failed and orphaned workspaces (\<open>backend/app/services/interview/cleanup.py\<close>).
  \<open>retained\<close> are the sessions that a grading job, a review or an appeal refers to; \<open>locked\<close> those whose
  rows another transaction holds. What the library says of a name (whether it is a UUID) and of a time
  of modification are arguments. The removal of containers is left out, and so are the errors of the
  disk other than the refusal to remove what is no directory.
\<close>

section \<open>The report\<close>

datatype cleanup_error = RemoveFailed path | BlockedWorkspace string

record cleanup_report =
  cr_expired_sessions :: nat
  cr_workspaces_removed :: nat
  cr_starters_removed :: nat
  cr_orphan_dirs_removed :: nat
  cr_errors :: "cleanup_error list"

datatype rm_kind = RmWorkspace | RmStarter | RmOrphan

definition count_removed :: "rm_kind \<Rightarrow> cleanup_report \<Rightarrow> cleanup_report" where
  "count_removed kind report =
     (case kind of
        RmWorkspace \<Rightarrow> report\<lparr>cr_workspaces_removed := cr_workspaces_removed report + 1\<rparr>
      | RmStarter \<Rightarrow> report\<lparr>cr_starters_removed := cr_starters_removed report + 1\<rparr>
      | RmOrphan \<Rightarrow> report\<lparr>cr_orphan_dirs_removed := cr_orphan_dirs_removed report + 1\<rparr>)"

definition add_error :: "cleanup_error \<Rightarrow> cleanup_report \<Rightarrow> cleanup_report" where
  "add_error e report = report\<lparr>cr_errors := cr_errors report @ [e]\<rparr>"

record cleanup_env =
  ce_config :: ws_config
  ce_is_uuid :: "string \<Rightarrow> bool"
  ce_recent :: "string \<Rightarrow> bool"

section \<open>Removing a directory\<close>

text \<open>Whether the last name of a path is a link; the names before it are followed.\<close>

definition link_at :: "files \<Rightarrow> path \<Rightarrow> bool" where
  "link_at fs p =
     (case resolve_path fs (butlast p) of Some q \<Rightarrow> is_symlink fs (q @ [last p]) | None \<Rightarrow> False)"

definition safe_rmtree :: "path \<Rightarrow> rm_kind \<Rightarrow> ws_state \<times> cleanup_report \<Rightarrow> ws_state \<times> cleanup_report" where
  "safe_rmtree p kind sr =
     (case sr of (st, report) \<Rightarrow>
        (case resolve_path (ws_files st) p of
           None \<Rightarrow> (st, report)
         | Some q \<Rightarrow>
             if map_of (ws_files st) q = None then (st, report)
             else if link_at (ws_files st) p \<or> map_of (ws_files st) q \<noteq> Some DirNode then (st, add_error (RemoveFailed p) report)
             else (st\<lparr>ws_files := rmtree q (ws_files st), ws_ledger := forget (last p) (ws_ledger st)\<rparr>, count_removed kind report)))"

section \<open>The sweep\<close>

definition due :: "time \<Rightarrow> nat list \<Rightarrow> candidate_session \<Rightarrow> bool" where
  "due now locked s \<longleftrightarrow>
     is_status (cs_life s) \<in> {''created'', ''active''} \<and>
     (case is_expires_at (cs_life s) of Some x \<Rightarrow> x \<le> now | None \<Rightarrow> False) \<and> cs_id s \<notin> set locked"

definition expire_due_sessions ::
  "time \<Rightarrow> time \<Rightarrow> nat list \<Rightarrow> candidate_session list \<Rightarrow> candidate_session list \<times> nat" where
  "expire_due_sessions now now' locked sessions =
     (map (\<lambda>s. if due now locked s then s\<lparr>cs_life := fst (maybe_expire_session now' (cs_life s))\<rparr> else s) sessions,
      length (filter (\<lambda>s. due now locked s \<and> snd (maybe_expire_session now' (cs_life s))) sessions))"

definition starter_name :: "string \<Rightarrow> string" where
  "starter_name sid = sid @ ''.starter''"

definition both_names :: "nat \<Rightarrow> string list" where
  "both_names sid = [show_nat sid, starter_name (show_nat sid)]"

definition protected_ids :: "nat list \<Rightarrow> candidate_session list \<Rightarrow> string list" where
  "protected_ids retained sessions =
     concat (map both_names (retained @
       map cs_id (filter (\<lambda>s. is_status (cs_life s) \<in> {''created'', ''active'', ''submitted''}) sessions)))"

definition removable :: "candidate_session \<Rightarrow> bool" where
  "removable s \<longleftrightarrow> is_status (cs_life s) \<in> {''expired'', ''failed''}"

definition session_workspace :: "path \<Rightarrow> candidate_session \<Rightarrow> path" where
  "session_workspace dir s = (if cs_workspace s \<noteq> [] then cs_workspace s else dir @ [show_nat (cs_id s)])"

definition in_place :: "files \<Rightarrow> path \<Rightarrow> candidate_session \<Rightarrow> bool" where
  "in_place fs dir s \<longleftrightarrow>
     \<not> link_at fs (session_workspace dir s) \<and>
     (case resolve_path fs dir of
        Some r \<Rightarrow> resolve_path fs (session_workspace dir s) = Some (r @ [show_nat (cs_id s)])
      | None \<Rightarrow> False)"

text \<open>One session of the list; the flag says whether its pointer to the workspace is cleared.\<close>

definition remove_session ::
  "cleanup_env \<Rightarrow> string list \<Rightarrow> candidate_session \<Rightarrow> ws_state \<times> cleanup_report \<Rightarrow> (ws_state \<times> cleanup_report) \<times> bool" where
  "remove_session E protected s sr =
     (let dir = wc_root (ce_config E); sid = show_nat (cs_id s); ws = session_workspace dir s in
      if sid \<in> set protected then (sr, False)
      else if \<not> in_place (ws_files (fst sr)) dir s then ((fst sr, add_error (BlockedWorkspace sid) (snd sr)), False)
      else
        (let sr2 = safe_rmtree (starter_snapshot_path (ce_config E) sid) RmStarter (safe_rmtree ws RmWorkspace sr)
         in (sr2, \<not> path_exists (ws_files (fst sr2)) ws)))"

fun remove_sessions ::
  "cleanup_env \<Rightarrow> string list \<Rightarrow> candidate_session list \<Rightarrow> ws_state \<times> cleanup_report \<Rightarrow>
   candidate_session list \<times> ws_state \<times> cleanup_report" where
  "remove_sessions E protected [] sr = ([], sr)"
| "remove_sessions E protected (s # sessions) sr =
     (if \<not> removable s then (case remove_sessions E protected sessions sr of (rest, sr') \<Rightarrow> (s # rest, sr'))
      else case remove_session E protected s sr of
          (sr1, cleared) \<Rightarrow>
            (case remove_sessions E protected sessions sr1 of
               (rest, sr') \<Rightarrow> ((if cleared then s\<lparr>cs_workspace := []\<rparr> else s) # rest, sr')))"

definition removesuffix :: "string \<Rightarrow> string \<Rightarrow> string" where
  "removesuffix sfx s = (if suffix sfx s then take (length s - length sfx) s else s)"

definition children :: "files \<Rightarrow> path \<Rightarrow> string list" where
  "children fs dir = map (\<lambda>e. last (fst e)) (filter (\<lambda>e. strict_prefix dir (fst e) \<and> length (fst e) = Suc (length dir)) fs)"

definition sweep_child ::
  "cleanup_env \<Rightarrow> string list \<Rightarrow> string list \<Rightarrow> string \<Rightarrow> ws_state \<times> cleanup_report \<Rightarrow> ws_state \<times> cleanup_report" where
  "sweep_child E known protected name sr =
     (let base = removesuffix ''.starter'' name; child = wc_root (ce_config E) @ [name] in
      if base \<in> set known \<or> name \<in> set protected \<or> link_at (ws_files (fst sr)) child then sr
      else if ce_recent E name then sr
      else if \<not> ce_is_uuid E base then sr
      else safe_rmtree child RmOrphan sr)"

definition sweep_orphans ::
  "cleanup_env \<Rightarrow> string list \<Rightarrow> string list \<Rightarrow> ws_state \<times> cleanup_report \<Rightarrow> ws_state \<times> cleanup_report" where
  "sweep_orphans E known protected sr =
     (let fs = ws_files (fst sr) in
      case resolve_path fs (wc_root (ce_config E)) of
        None \<Rightarrow> sr
      | Some dir \<Rightarrow> if map_of fs dir = None then sr else fold (sweep_child E known protected) (children fs dir) sr)"

definition cleanup_interview_resources ::
  "cleanup_env \<Rightarrow> (nat \<Rightarrow> time) \<Rightarrow> nat list \<Rightarrow> nat list \<Rightarrow> iv_world \<Rightarrow> iv_world \<times> cleanup_report" where
  "cleanup_interview_resources E clk locked retained w =
     (let (sessions, expired) = expire_due_sessions (clk 0) (clk 1) locked (iv_sessions (iw_db w));
          protected = protected_ids retained sessions;
          report = \<lparr>cr_expired_sessions = expired, cr_workspaces_removed = 0, cr_starters_removed = 0,
            cr_orphan_dirs_removed = 0, cr_errors = []\<rparr>;
          (sessions', sr) = remove_sessions E protected sessions (iw_ws w, report);
          (st, report') = sweep_orphans E (map (show_nat \<circ> cs_id) sessions) protected sr
      in (\<lparr>iw_db = (iw_db w)\<lparr>iv_sessions := sessions'\<rparr>,
           iw_ws = st\<lparr>ws_ledger := refresh_ledger (ws_files st) (wc_root (ce_config E)) (ws_ledger st)\<rparr>\<rparr>, report'))"

section \<open>What is removed\<close>

text \<open>The names of a disk are proper, and the directory of the workspaces is reached without links.\<close>

definition disk_ok :: "path \<Rightarrow> files \<Rightarrow> bool" where
  "disk_ok dir fs \<longleftrightarrow> clean fs dir \<and> list_all (\<lambda>e. list_all proper_name (fst e)) fs"

text \<open>Everything below a directory is as it was.\<close>

definition kept_below :: "path \<Rightarrow> files \<Rightarrow> files \<Rightarrow> bool" where
  "kept_below d fs fs' \<longleftrightarrow> (\<forall>q. prefix d q \<longrightarrow> map_of fs' q = map_of fs q)"

lemma kept_below_refl [simp]: "kept_below d fs fs"
  by (simp add: kept_below_def)

lemma kept_below_trans: "kept_below d fs fs' \<Longrightarrow> kept_below d fs' fs'' \<Longrightarrow> kept_below d fs fs''"
  by (simp add: kept_below_def)

lemma rmtree_disk_ok: "disk_ok dir fs \<Longrightarrow> disk_ok dir (rmtree p fs)"
  unfolding disk_ok_def clean_def is_symlink_def rmtree_keeps(2)
  by (auto simp: rmtree_def list_all_iff)

lemma rmtree_kept_below:
  assumes "n \<noteq> t"
  shows "kept_below (dir @ [t]) fs (rmtree (dir @ [n]) fs)"
proof -
  have "\<not> prefix (dir @ [n]) q" if "prefix (dir @ [t]) q" for q
    using that assms by (auto simp: prefix_def)
  then show ?thesis by (simp add: kept_below_def rmtree_keeps)
qed

lemma safe_rmtree_fs:
  "ws_files (fst (safe_rmtree p kind sr)) = ws_files (fst sr) \<or>
   (\<exists>q. resolve_path (ws_files (fst sr)) p = Some q \<and> \<not> link_at (ws_files (fst sr)) p \<and>
      ws_files (fst (safe_rmtree p kind sr)) = rmtree q (ws_files (fst sr)))"
  by (cases sr) (auto simp: safe_rmtree_def split: option.split)

lemma resolve_child:
  assumes "disk_ok dir fs" "proper_name n" "\<not> link_at fs (dir @ [n])"
  shows "resolve_path fs (dir @ [n]) = Some (dir @ [n])"
proof -
  have "clean fs dir" using assms(1) by (simp add: disk_ok_def)
  then have "\<not> is_symlink fs (dir @ [n])" using assms(3) resolve_stays by (simp add: link_at_def)
  then show ?thesis using \<open>clean fs dir\<close> assms(2) by (intro resolve_stays) (simp add: clean_snoc)
qed

lemma safe_rmtree_keeps:
  assumes "disk_ok dir (ws_files (fst sr))" "n \<noteq> t"
    and "resolve_path (ws_files (fst sr)) p = Some (dir @ [n]) \<or> p = dir @ [n] \<and> proper_name n"
  shows "disk_ok dir (ws_files (fst (safe_rmtree p kind sr))) \<and>
    kept_below (dir @ [t]) (ws_files (fst sr)) (ws_files (fst (safe_rmtree p kind sr)))"
  using safe_rmtree_fs [of p kind sr]
proof
  assume "ws_files (fst (safe_rmtree p kind sr)) = ws_files (fst sr)"
  then show ?thesis using assms(1) by simp
next
  assume "\<exists>q. resolve_path (ws_files (fst sr)) p = Some q \<and> \<not> link_at (ws_files (fst sr)) p \<and>
      ws_files (fst (safe_rmtree p kind sr)) = rmtree q (ws_files (fst sr))"
  then obtain q where q: "resolve_path (ws_files (fst sr)) p = Some q" "\<not> link_at (ws_files (fst sr)) p"
      "ws_files (fst (safe_rmtree p kind sr)) = rmtree q (ws_files (fst sr))" by blast
  have "q = dir @ [n]" using assms(3) q resolve_child [OF assms(1), of n] by auto
  then show ?thesis using q(3) rmtree_disk_ok [OF assms(1)] rmtree_kept_below [OF assms(2)] by simp
qed

lemma show_nat_no_dot: "CHR ''.'' \<notin> set (show_nat n)"
proof (induction n rule: show_nat.induct)
  case (1 n)
  have digit: "CHR ''.'' \<noteq> char_of (48 + k)" if "k < 10" for k :: nat
  proof
    assume "CHR ''.'' = char_of (48 + k)"
    then have "(of_char CHR ''.'' :: nat) = of_char (char_of (48 + k) :: char)" by simp
    then show False using that by simp
  qed
  show ?case
  proof (cases "n < 10")
    case True
    then show ?thesis using digit [of n] by (subst show_nat.simps) simp
  next
    case False
    then show ?thesis using 1 digit [of "n mod 10"] by (subst show_nat.simps) simp
  qed
qed

lemma id_names [simp]: "proper_name (show_nat n)" "proper_name (starter_name s)" "show_nat m \<noteq> starter_name s"
proof -
  show "proper_name (show_nat n)" using show_nat_no_dot [of n] by (auto simp: proper_name_def)
  show "proper_name (starter_name s)" by (auto simp: proper_name_def starter_name_def)
  have "CHR ''.'' \<in> set (starter_name s)" by (simp add: starter_name_def)
  then show "show_nat m \<noteq> starter_name s" using show_nat_no_dot by metis
qed

lemma starter_name_inject [simp]: "starter_name s = starter_name s' \<longleftrightarrow> s = s'"
  by (simp add: starter_name_def)

lemma starter_path: "starter_snapshot_path cfg s = wc_root cfg @ [starter_name s]"
  by (simp add: starter_snapshot_path_def starter_name_def)

lemma protected_both: "show_nat k \<in> set (protected_ids retained ss) \<longleftrightarrow> starter_name (show_nat k) \<in> set (protected_ids retained ss)"
  by (auto simp: protected_ids_def both_names_def) (metis id_names(3) show_nat_inject)+

lemma remove_session_keeps:
  assumes ok: "disk_ok (wc_root (ce_config E)) (ws_files (fst sr))"
    and t: "t \<in> set (protected_ids retained ss)"
  shows "disk_ok (wc_root (ce_config E)) (ws_files (fst (fst (remove_session E (protected_ids retained ss) s sr)))) \<and>
    kept_below (wc_root (ce_config E) @ [t]) (ws_files (fst sr))
      (ws_files (fst (fst (remove_session E (protected_ids retained ss) s sr))))"
proof (cases "show_nat (cs_id s) \<in> set (protected_ids retained ss) \<or> \<not> in_place (ws_files (fst sr)) (wc_root (ce_config E)) s")
  case True
  then show ?thesis using ok by (auto simp: remove_session_def Let_def)
next
  case False
  let ?dir = "wc_root (ce_config E)" and ?sid = "show_nat (cs_id s)"
  let ?sr1 = "safe_rmtree (session_workspace ?dir s) RmWorkspace sr"
  let ?sr2 = "safe_rmtree (starter_snapshot_path (ce_config E) ?sid) RmStarter ?sr1"
  have other: "?sid \<noteq> t" "starter_name ?sid \<noteq> t" using False t protected_both by blast+
  have "resolve_path (ws_files (fst sr)) ?dir = Some ?dir" using ok by (simp add: disk_ok_def resolve_stays)
  then have "resolve_path (ws_files (fst sr)) (session_workspace ?dir s) = Some (?dir @ [?sid])"
    using False by (simp add: in_place_def)
  note one = safe_rmtree_keeps [OF ok other(1), of "session_workspace ?dir s" RmWorkspace, OF disjI1, OF this]
  have ok1: "disk_ok ?dir (ws_files (fst ?sr1))" using one by blast
  have "disk_ok ?dir (ws_files (fst ?sr2)) \<and> kept_below (?dir @ [t]) (ws_files (fst ?sr1)) (ws_files (fst ?sr2))"
    unfolding starter_path by (rule safe_rmtree_keeps [OF ok1 other(2)]) simp
  moreover have "fst (remove_session E (protected_ids retained ss) s sr) = ?sr2"
    using False by (simp add: remove_session_def Let_def)
  ultimately show ?thesis using one kept_below_trans by auto
qed

lemma remove_sessions_keeps:
  assumes "disk_ok (wc_root (ce_config E)) (ws_files (fst sr))" "t \<in> set (protected_ids retained ss)"
    and "remove_sessions E (protected_ids retained ss) sessions sr = (sessions', sr')"
  shows "disk_ok (wc_root (ce_config E)) (ws_files (fst sr')) \<and>
    kept_below (wc_root (ce_config E) @ [t]) (ws_files (fst sr)) (ws_files (fst sr'))"
  using assms(1,3)
proof (induction sessions arbitrary: sr sessions' sr')
  case (Cons s sessions)
  show ?case
  proof (cases "removable s")
    case False
    then show ?thesis using Cons by (auto split: prod.splits)
  next
    case True
    obtain sr1 cleared where one: "remove_session E (protected_ids retained ss) s sr = (sr1, cleared)" by (rule prod.exhaust)
    obtain rest sr2 where two: "remove_sessions E (protected_ids retained ss) sessions sr1 = (rest, sr2)" by (rule prod.exhaust)
    have keep1: "disk_ok (wc_root (ce_config E)) (ws_files (fst sr1))"
      "kept_below (wc_root (ce_config E) @ [t]) (ws_files (fst sr)) (ws_files (fst sr1))"
      using remove_session_keeps [OF Cons.prems(1) assms(2), of s] one by simp_all
    have "sr' = sr2" using Cons.prems(2) True one two by simp
    then show ?thesis using Cons.IH [OF keep1(1) two] keep1(2) kept_below_trans by blast
  qed
qed simp

lemma sweep_child_keeps:
  assumes "disk_ok (wc_root (ce_config E)) (ws_files (fst sr))" "t \<in> set protected" "proper_name name"
  shows "disk_ok (wc_root (ce_config E)) (ws_files (fst (sweep_child E known protected name sr))) \<and>
    kept_below (wc_root (ce_config E) @ [t]) (ws_files (fst sr)) (ws_files (fst (sweep_child E known protected name sr)))"
proof (cases "name \<in> set protected")
  case True
  then show ?thesis using assms(1) by (simp add: sweep_child_def Let_def)
next
  case False
  then have "name \<noteq> t" using assms(2) by blast
  then show ?thesis
    using safe_rmtree_keeps [OF assms(1), of name t "wc_root (ce_config E) @ [name]" RmOrphan] assms(1,3)
    by (simp add: sweep_child_def Let_def)
qed

lemma sweep_fold_keeps:
  assumes "t \<in> set protected"
  shows "disk_ok (wc_root (ce_config E)) (ws_files (fst sr)) \<Longrightarrow> list_all proper_name names \<Longrightarrow>
    kept_below (wc_root (ce_config E) @ [t]) (ws_files (fst sr)) (ws_files (fst (fold (sweep_child E known protected) names sr)))"
proof (induction names arbitrary: sr)
  case (Cons name names)
  have "proper_name name" using Cons.prems(2) by simp
  note one = sweep_child_keeps [OF Cons.prems(1) assms this, of known]
  have "list_all proper_name names" using Cons.prems(2) by simp
  from kept_below_trans [OF conjunct2 [OF one] Cons.IH [OF conjunct1 [OF one] this]] show ?case by simp
qed simp

lemma children_proper:
  assumes "disk_ok dir fs"
  shows "list_all proper_name (children fs d)"
proof -
  have "proper_name (last (fst e))" if "e \<in> set fs" "length (fst e) = Suc (length d)" for e
  proof -
    have "last (fst e) \<in> set (fst e)" using that(2) by (intro last_in_set) auto
    then show ?thesis using assms that(1) by (auto simp: disk_ok_def list_all_iff)
  qed
  then show ?thesis by (auto simp: children_def list_all_iff)
qed

text \<open>The sessions whose directories the sweep must leave alone.\<close>

definition in_use :: "time \<Rightarrow> nat list \<Rightarrow> nat list \<Rightarrow> candidate_session list \<Rightarrow> nat \<Rightarrow> bool" where
  "in_use now locked retained sessions k \<longleftrightarrow>
     k \<in> set retained \<or>
     list_ex (\<lambda>s. cs_id s = k \<and> (is_status (cs_life s) = ''submitted'' \<or>
       is_status (cs_life s) \<in> {''created'', ''active''} \<and> \<not> due now locked s)) sessions"

lemma in_use_protected:
  assumes "in_use now locked retained sessions k" "t \<in> {show_nat k, starter_name (show_nat k)}"
  shows "t \<in> set (protected_ids retained (fst (expire_due_sessions now now' locked sessions)))"
proof -
  let ?ss = "fst (expire_due_sessions now now' locked sessions)"
  have "k \<in> set retained \<or> (\<exists>s \<in> set ?ss. cs_id s = k \<and> is_status (cs_life s) \<in> {''created'', ''active'', ''submitted''})"
  proof (cases "k \<in> set retained")
    case False
    then obtain s where s: "s \<in> set sessions" "cs_id s = k" "is_status (cs_life s) = ''submitted'' \<or>
       is_status (cs_life s) \<in> {''created'', ''active''} \<and> \<not> due now locked s"
      using assms(1) by (auto simp: in_use_def list_ex_iff)
    then have "\<not> due now locked s" by (auto simp: due_def)
    then have "s \<in> set ?ss" using s(1) by (force simp: expire_due_sessions_def image_iff)
    then show ?thesis using s by blast
  qed simp
  then have "both_names k \<in> both_names ` set (retained @
      map cs_id (filter (\<lambda>s. is_status (cs_life s) \<in> {''created'', ''active'', ''submitted''}) ?ss))"
    by (intro imageI) auto
  moreover have "t \<in> set (both_names k)" using assms(2) by (auto simp: both_names_def)
  ultimately show ?thesis unfolding protected_ids_def set_concat set_map by blast
qed

text \<open>
  C21: The sweep leaves alone what is in use. The workspace and the starter of a session that is submitted,
  that is open and not due, or that a grading job, a review or an appeal refers to, are after it what
  they were before, byte by byte, whatever the other sessions record as their workspace and whatever
  else lies in the directory.
\<close>

theorem cleanup_keeps_workspaces_in_use:
  assumes ok: "disk_ok (wc_root (ce_config E)) (ws_files (iw_ws w))"
    and used: "in_use (clk 0) locked retained (iv_sessions (iw_db w)) k" "t \<in> {show_nat k, starter_name (show_nat k)}"
    and below: "prefix (wc_root (ce_config E) @ [t]) q"
  shows "map_of (ws_files (iw_ws (fst (cleanup_interview_resources E clk locked retained w)))) q = map_of (ws_files (iw_ws w)) q"
proof -
  let ?dir = "wc_root (ce_config E)"
  obtain ss n where due: "expire_due_sessions (clk 0) (clk 1) locked (iv_sessions (iw_db w)) = (ss, n)" by (rule prod.exhaust)
  have t: "t \<in> set (protected_ids retained ss)" using in_use_protected [OF used, of "clk 1"] due by simp
  let ?report = "\<lparr>cr_expired_sessions = n, cr_workspaces_removed = 0, cr_starters_removed = 0,
            cr_orphan_dirs_removed = 0, cr_errors = []\<rparr>"
  let ?known = "map (show_nat \<circ> cs_id) ss"
  obtain ss' sr where removed: "remove_sessions E (protected_ids retained ss) ss (iw_ws w, ?report) = (ss', sr)" by (rule prod.exhaust)
  obtain st report' where swept: "sweep_orphans E ?known (protected_ids retained ss) sr = (st, report')" by (rule prod.exhaust)
  have one: "disk_ok ?dir (ws_files (fst sr)) \<and> kept_below (?dir @ [t]) (ws_files (iw_ws w)) (ws_files (fst sr))"
    using remove_sessions_keeps [OF _ t removed] ok by simp
  have "kept_below (?dir @ [t]) (ws_files (fst sr)) (ws_files (fst (sweep_orphans E ?known (protected_ids retained ss) sr)))"
    using sweep_fold_keeps [OF t conjunct1 [OF one] children_proper [OF conjunct1 [OF one]], of ?known]
    by (simp add: sweep_orphans_def Let_def split: option.split)
  then have "kept_below (?dir @ [t]) (ws_files (iw_ws w)) (ws_files st)" using one swept kept_below_trans by auto
  moreover have "ws_files (iw_ws (fst (cleanup_interview_resources E clk locked retained w))) = ws_files st"
    unfolding cleanup_interview_resources_def due Let_def prod.case removed swept by simp
  ultimately show ?thesis using below by (simp add: kept_below_def)
qed

text \<open>A submitted session 7, a failed session 8 and a directory 9 that belongs to none.\<close>

definition demo_sweep :: iv_world where
  "demo_sweep = \<lparr>iw_db = \<lparr>iv_sessions =
       [demo_session\<lparr>cs_workspace := [''ws'', ''7''], cs_life := fresh_session\<lparr>is_status := ''submitted''\<rparr>\<rparr>,
        demo_session\<lparr>cs_id := 8, cs_workspace := [''ws'', ''8''], cs_life := fresh_session\<lparr>is_status := ''failed''\<rparr>\<rparr>],
       iv_files = [], iv_events = []\<rparr>,
     iw_ws = \<lparr>ws_files = [([''ws''], DirNode), ([''ws'', ''7''], DirNode), ([''ws'', ''7'', ''a.py''], FileNode ''x''),
        ([''ws'', ''8''], DirNode), ([''ws'', ''8'', ''b.py''], FileNode ''y''), ([''ws'', ''9''], DirNode),
        ([''ws'', ''notes''], DirNode)], ws_ledger = empty_ledger\<rparr>\<rparr>"

definition demo_sweeper :: cleanup_env where
  "demo_sweeper = \<lparr>ce_config = demo_config, ce_is_uuid = list_all is_digit, ce_recent = (\<lambda>_. False)\<rparr>"

lemma demo_sweep_removes:
  "map fst (ws_files (iw_ws (fst (cleanup_interview_resources demo_sweeper (\<lambda>_. 0) [] [] demo_sweep)))) =
     [[''ws''], [''ws'', ''7''], [''ws'', ''7'', ''a.py''], [''ws'', ''notes'']]"
  by code_simp

theorem cleanup_keeps_workspaces_in_use_witness:
  "map_of (ws_files (iw_ws (fst (cleanup_interview_resources demo_sweeper (\<lambda>_. 0) [] [] demo_sweep)))) [''ws'', ''7'', ''a.py''] =
     map_of (ws_files (iw_ws demo_sweep)) [''ws'', ''7'', ''a.py'']"
proof (rule cleanup_keeps_workspaces_in_use [where k = 7 and t = "''7''"])
  have "\<not> is_symlink (ws_files (iw_ws demo_sweep)) [''ws'']" "proper_name ''ws''" by code_simp+
  then have "clean (ws_files (iw_ws demo_sweep)) [''ws'']" by (simp add: clean_def)
  moreover have "list_all (\<lambda>e. list_all proper_name (fst e)) (ws_files (iw_ws demo_sweep))" by code_simp
  moreover have "wc_root (ce_config demo_sweeper) = [''ws'']" by code_simp
  ultimately show "disk_ok (wc_root (ce_config demo_sweeper)) (ws_files (iw_ws demo_sweep))" by (simp add: disk_ok_def)
  show "in_use ((\<lambda>_. 0) (0::nat)) [] [] (iv_sessions (iw_db demo_sweep)) 7" by code_simp
  have "show_nat 7 = ''7''" by code_simp
  then show "''7'' \<in> {show_nat 7, starter_name (show_nat 7)}" by simp
  show "prefix (wc_root (ce_config demo_sweeper) @ [''7'']) [''ws'', ''7'', ''a.py'']" by code_simp
qed

end
