(* ===== verification/Spec2Isabelle.thy ===== *)
theory Spec2Isabelle
  imports EvaluationPipeline StorageLedger CapacityQueue SessionLifecycle RateLimit AiBudget AutoGrading SandboxRelay LeaseMachine
    AttemptInvariants Scoring WeightProfile LearningFeedback Accounts Rubric Cleanup
begin

text \<open>
  PromptCode: a verification library of the backend (\<open>src/backend/app\<close>).

  The program. PromptCode scores people who work with language models. It has two products that share
  the database and the budgets. A submission of the older product is a program; a worker runs it in a
  sandbox many times (\<open>workers/queue.py\<close>, \<open>workers/evaluate.py\<close>), where it calls models through a
  relay (\<open>services/sandbox/relay.py\<close>); the evaluation engine (\<open>services/evaluation\<close>) turns the runs into
  scores, a report and a leaderboard row. An interview of the newer product is a session with a
  workspace and a timer (\<open>services/interview\<close>); when it is submitted, its snapshot is graded by a
  trusted evaluator through a leased queue (\<open>workers/interview_grading.py\<close>), rated by models
  (\<open>workers/interview_ai_grading.py\<close>) and by human reviewers (\<open>services/interview/grading_review.py\<close>),
  whose published reviews can be appealed. Rate limits, AI budgets, the storage ledger and the admission
  queue of the execution broker guard the shared resources.

  How the model reads. A class or table is a record or datatype with the fields of the source; a
  function of the source is a definition of the same name; a table is the list of its rows (Prelude:
  \<open>row_get\<close>, \<open>row_upd\<close>); a transaction is a function from tables to tables, with \<open>txn\<close> for what is
  committed and what is only written; an exception is the left side of a sum, an HTTP error a value of
  \<open>http_error\<close>; a JSON column is a value of \<open>json\<close>, with the \<open>KeyError\<close>s and \<open>TypeError\<close>s its use can
  raise. Workers that run at the same time are sequences of steps, in any order, of whole transactions.

  Conventions. Floats are exact rationals, with \<open>round\<close> to even written out (\<open>py_round\<close>): the rounding
  error of binary arithmetic, NaN and the infinities are not modelled. Python integers are \<open>int\<close>, and
  so are the integer columns: the code never relies on wrap-around. Strings are lists of 8-bit
  characters; case folding and white space are those of ASCII. Times are integers in microseconds, and
  a clock is an argument, read where the code reads it. New identifiers are arguments. Dictionaries are
  association lists in insertion order with one entry per key. What is not in this repository or is no
  logic of its own is an argument of the definitions that use it: HMAC and SHA-256, \<open>difflib\<close>, the
  text of \<open>repr\<close>, \<open>json.loads\<close>, the model providers, the sandbox, the file system, the settings. No
  theorem needs more of them than its hypotheses say; \<open>py_lib\<close>, \<open>grading_env\<close>, \<open>review_env\<close>, \<open>auto_env\<close>,
  \<open>relay_config\<close>, \<open>file_env\<close>, \<open>freeze_env\<close> and \<open>route_env\<close> bundle them.

  Shared theories. Prelude: numbers, strings, JSON, exceptions, tables, transactions, HTTP errors and
  the interface \<open>metered\<close> of a counted resource, which the AI budget, the storage ledger and the relay
  implement. RetryJobs: the interface \<open>retry_job\<close> of a job with bounded attempts, which both worker
  queues implement. PyValues and JsonText: conversions of the language and the canonical text of JSON.
  Models: the rows of the evaluation tables.

  Evaluation. EvaluationQueue is \<open>workers/queue.py\<close>: enqueue, claim, heartbeat, recovery of lost jobs,
  retry with back-off; its lemmas show which row a claim takes, that a live worker keeps its job, and
  that a failing job is claimed at most as often as it has attempts. Accuracy and Scoring are
  \<open>services/evaluation/scorer.py\<close>, the accuracy of an answer and every score above it. EvalRuns is
  \<open>helpers.py\<close> (run records, detectors, shapes), EvalReporting is \<open>reporting.py\<close> (confidence, caps,
  usage), EvaluationEngine is \<open>engine.py\<close> with \<open>counterfactual.py\<close> (plan, totals, penalties, caps,
  baseline), WeightProfile is \<open>weight_profile.py\<close>, EvaluationReport is \<open>result.py\<close> and the report that is
  stored. Feedback and LearningFeedback are the growth, mastery and coaching parts of
  \<open>workers/evaluate.py\<close>; EvaluationPipeline is the rest of it: evaluating, storing, the leaderboard
  upsert of both dialects. The lemmas bound every score, say what the caps and penalties enforce, that
  a stored report reads back, and that the leaderboard keeps the best entry of a user.

  Shared resources. StorageLedger is \<open>storage_ledger.py\<close> with \<open>workspace_quota.py\<close>, CapacityQueue is
  \<open>core/capacity_queue.py\<close> with the semaphore of asyncio it stands on (as documented for Python 3.12),
  RateLimit is \<open>core/ratelimit.py\<close>, AiBudget is \<open>ai_budget.py\<close>, SandboxRelay is \<open>sandbox/relay.py\<close> with
  \<open>core/model_policy.py\<close>. Their lemmas are invariants over any sequence of steps: counters that equal
  the sum of what they count, limits that hold, and by how much concurrent requests can exceed one.

  Accounts. Accounts is \<open>api/routes/auth.py\<close> with \<open>core/security.py\<close>, \<open>core/deps.py\<close>,
  \<open>core/client_ip.py\<close>, \<open>password_reset.py\<close>, \<open>beta_access.py\<close> and the checks of \<open>schemas/user.py\<close>;
  \<open>account_step\<close> is one request, \<open>run_accounts\<close> any sequence of them. \<open>account_step_cases\<close> says what a
  request may do to the tables; from it follow that a refresh token and a reset token work once, that a
  logout ends both tokens, that addresses and names stay unique and invites are not overdrawn. What is
  assumed of the signed tokens is \<open>jwt_laws\<close>.

  Interviews, the attempt. SessionLifecycle is \<open>lifecycle.py\<close>. WorkspaceFiles is the confinement, the rules
  on names, reading, writing and copying of \<open>workspace.py\<close> and \<open>registry.py\<close>, over a disk that is a list
  of paths with files, directories and links; WorkspaceStore creates and rebuilds a workspace and
  reconciles the ledger with the disk (\<open>workspace.py\<close>, \<open>workspace_store.py\<close>, \<open>storage_ledger.py\<close>).
  InterviewFiles is the file routes of \<open>api/routes/interview.py\<close>, InterviewRoutes its other routes
  around an attempt: starting, timing, stepping, abandoning, submitting, retrying, defending, with
  \<open>grading_admission.py\<close> and \<open>levels.py\<close>. A handler maps the world (the rows, the disk with its ledger,
  the object store) to the new world and its answer; \<open>serve\<close> runs one request or one step of a grading
  worker and \<open>route_reachable\<close> is what any interleaving of them can reach. AttemptLife shows what each
  route may do to a session and a job, AttemptInvariants what then holds of every reachable state: one
  open attempt of a challenge at a time, attempts numbered in order, a report and a job for each
  submitted attempt, three waiting jobs at most. The lemmas on files show that no spelling of a path
  and no link leads out of a workspace, what a save changes, that the quota of sources holds over any
  saves, and that a save that is accepted has seen the newest revision.

  Cleanup is \<open>cleanup.py\<close>: the sweep over expired, failed and orphaned workspaces, which leaves every
  workspace in use as it is.

  Interviews, the practice score. SessionAnalysis is \<open>session_analysis.py\<close> (the heuristic on prompts, the
  metrics, the signals) over the characters and expressions of Characters; Rubric is \<open>rubric.py\<close> with
  \<open>execution_feedback.py\<close>: the three versions of the score and what is published of it. The lemmas show
  the ranges of the scores, that none is published, exactly when a recovery is found and when a report
  of a run is complete.

  Interviews, the submission. ObjectStore is \<open>object_store.py\<close>, with the interface \<open>object_store\<close> of what a
  store promises, which the local store implements; SubmissionStore is the manifest of a source
  (\<open>snapshot.py\<close>) and the upload and download of a submission (\<open>workspace_store.py\<close>); SubmissionFreeze is
  \<open>freeze_submission\<close>. The lemmas show that what was uploaded is fetched again bit by bit, that an upload
  that breaks off is invisible, that what is frozen verifies, and when these fail.

  Interviews, the grade. TrustedGrading is \<open>trusted_evaluator.py\<close> (observing,
  signing, verifying), GradingQueue is \<open>workers/interview_grading.py\<close>, which LeaseMachine shows to
  implement a small machine of leases, Assessment is \<open>grading.py\<close> (the
  evidence packet and the score of a review), GradingReview is \<open>grading_review.py\<close> with the routes of
  \<open>interview_grading.py\<close>, AutoGrading is \<open>automated_grading.py\<close> with its worker. The lemmas show that
  a signed result verifies, that a worker without its lease publishes nothing, that grading ends, what
  a score says about its ratings, that no model raises a score over verified facts, and that the ledger
  of reviews, appeals and decisions stays in order.

  Bounds. No definition uses fuel: every loop of the modelled code is structural recursion over a list,
  or a \<open>function\<close> with its termination proof. Limits such as the eight request slots of the relay, the
  five kept history entries or the lease times are the constants of the source.

  Not modelled. The HTML and JavaScript front end, the SDK, the database migrations, the scripts and
  benchmarks, the set-up of the server (\<open>main.py\<close>, \<open>config.py\<close>, logging, metrics), the routes of
  \<open>chat.py\<close>, \<open>users.py\<close> and \<open>submissions.py\<close> and those of \<open>interview.py\<close> for the chat, the test runs, the
  diffs, the report, the dashboard and the internal tools, the processes and containers (\<open>runner.py\<close>,
  \<open>modal_backend.py\<close>, the brokers), the model providers, the text heuristics of
  \<open>prompt_quality.py\<close> and \<open>code_analysis.py\<close>, and the tables of tasks and hidden cases: input and
  output, generated data, or heuristics whose text no theorem would say more about than the code.
  Of the disk, permissions, times and the errors of a full or failing device are left out.
\<close>

end
